(* ===== verification/Doo_Prelude.thy ===== *)
theory Doo_Prelude
  imports Main "HOL-Library.Char_ord" "HOL-Library.List_Lexorder" "HOL-Library.Multiset"
    "HOL-Library.Sublist"
begin

text \<open>
  Shared vocabulary of the development: Rust strings and their library operations, hash maps
  with an explicit iteration order, and the list lemmas the components share.

  Two string types are used. \<open>string\<close> is the list of the UTF-8 bytes of a Rust \<open>String\<close> (the
  migration engine slices and compares bytes); \<open>ustr\<close> is the list of its Unicode scalar values
  (the lexer and the scope manager iterate over \<open>chars()\<close>). Case mapping and white space are
  modelled for ASCII; bytes outside ASCII are left unchanged.
\<close>

section \<open>Collections of facts\<close>

named_theorems str_simps \<open>evaluation of string operations\<close>
named_theorems wf_intros \<open>introduction rules of well-formedness predicates\<close>

section \<open>Strings as bytes\<close>

definition byte :: "char \<Rightarrow> nat" where
  "byte c = of_char c"

definition nl :: string where
  "nl = [CHR 0x0A]"

definition is_ws :: "char \<Rightarrow> bool" where
  "is_ws c \<longleftrightarrow> c = CHR 0x20 \<or> (9 \<le> byte c \<and> byte c \<le> 13)"

definition trim :: "string \<Rightarrow> string" where
  "trim s = rev (dropWhile is_ws (rev (dropWhile is_ws s)))"

definition lower_char :: "char \<Rightarrow> char" where
  "lower_char c = (if 65 \<le> byte c \<and> byte c \<le> 90 then char_of (byte c + 32) else c)"

definition upper_char :: "char \<Rightarrow> char" where
  "upper_char c = (if 97 \<le> byte c \<and> byte c \<le> 122 then char_of (byte c - 32) else c)"

definition to_lowercase :: "string \<Rightarrow> string" where
  "to_lowercase s = map lower_char s"

definition to_uppercase :: "string \<Rightarrow> string" where
  "to_uppercase s = map upper_char s"

definition eq_ignore_ascii_case :: "string \<Rightarrow> string \<Rightarrow> bool" where
  "eq_ignore_ascii_case s t \<longleftrightarrow> to_lowercase s = to_lowercase t"

text \<open>\<open>str::replace\<close> with a one-character pattern.\<close>

definition replace_char :: "char \<Rightarrow> string \<Rightarrow> string \<Rightarrow> string" where
  "replace_char q r s = concat (map (\<lambda>c. if c = q then r else [c]) s)"

text \<open>\<open>str::replace\<close> of a doubled character by a single one: left to right, without overlap.\<close>

fun replace_double :: "char \<Rightarrow> string \<Rightarrow> string" where
  "replace_double q (a # b # s) =
     (if a = q \<and> b = q then q # replace_double q s else a # replace_double q (b # s))"
| "replace_double q s = s"

text \<open>\<open>[T]::join\<close>.\<close>

fun str_join :: "string \<Rightarrow> string list \<Rightarrow> string" where
  "str_join sep [] = []"
| "str_join sep [x] = x"
| "str_join sep (x # y # xs) = x @ sep @ str_join sep (y # xs)"

text \<open>\<open>str::find\<close> of a character, as the text before its first occurrence.\<close>

definition before_char :: "char \<Rightarrow> string \<Rightarrow> string option" where
  "before_char c s = (if c \<in> set s then Some (takeWhile (\<lambda>d. d \<noteq> c) s) else None)"

text \<open>\<open>str::find("::")\<close>, as the text before the first occurrence.\<close>

fun before_double :: "char \<Rightarrow> string \<Rightarrow> string option" where
  "before_double c (a # b # s) =
     (if a = c \<and> b = c then Some [] else map_option ((#) a) (before_double c (b # s)))"
| "before_double c s = None"

definition strip_prefix :: "string \<Rightarrow> string \<Rightarrow> string option" where
  "strip_prefix p s = (if take (length p) s = p then Some (drop (length p) s) else None)"

definition strip_suffix :: "string \<Rightarrow> string \<Rightarrow> string option" where
  "strip_suffix p s = map_option rev (strip_prefix (rev p) (rev s))"

definition starts_with :: "string \<Rightarrow> string \<Rightarrow> bool" where
  "starts_with s p \<longleftrightarrow> take (length p) s = p"

section \<open>Strings as Unicode scalar values\<close>

type_synonym ustr = "nat list"

text \<open>The number of bytes of a scalar value and of a string (\<open>str::len\<close>) in UTF-8.\<close>

definition utf8_size :: "nat \<Rightarrow> nat" where
  "utf8_size c = (if c < 0x80 then 1 else if c < 0x800 then 2 else if c < 0x10000 then 3 else 4)"

definition utf8_len :: "ustr \<Rightarrow> nat" where
  "utf8_len s = sum_list (map utf8_size s)"

definition ascii :: "string \<Rightarrow> ustr" where
  "ascii s = map of_char s"

definition is_ascii :: "ustr \<Rightarrow> bool" where
  "is_ascii s \<longleftrightarrow> list_all (\<lambda>c. c < 0x80) s"

section \<open>Decimal numbers\<close>

definition is_digit_char :: "char \<Rightarrow> bool" where
  "is_digit_char c \<longleftrightarrow> 48 \<le> byte c \<and> byte c \<le> 57"

definition digit_char :: "nat \<Rightarrow> char" where
  "digit_char d = char_of (48 + d)"

fun show_nat :: "nat \<Rightarrow> string" where
  "show_nat n = (if n < 10 then [digit_char n] else show_nat (n div 10) @ [digit_char (n mod 10)])"

declare show_nat.simps [simp del]

definition show_int :: "int \<Rightarrow> string" where
  "show_int i = (if i < 0 then CHR ''-'' # show_nat (nat (- i)) else show_nat (nat i))"

definition digits_val :: "string \<Rightarrow> int" where
  "digits_val s = fold (\<lambda>c n. 10 * n + int (byte c - 48)) s 0"

text \<open>\<open>str::parse\<close> for an unsigned type with the given maximum: an optional plus sign, then
  digits.\<close>

definition parse_unsigned :: "int \<Rightarrow> string \<Rightarrow> int option" where
  "parse_unsigned mx s =
     (let ds = (case s of c # r \<Rightarrow> if c = CHR ''+'' then r else s | [] \<Rightarrow> s)
      in if ds \<noteq> [] \<and> list_all is_digit_char ds \<and> digits_val ds \<le> mx
         then Some (digits_val ds) else None)"

definition parse_u32 :: "string \<Rightarrow> nat option" where
  "parse_u32 s = map_option nat (parse_unsigned (2 ^ 32 - 1) s)"

definition parse_i64 :: "string \<Rightarrow> int option" where
  "parse_i64 s =
     (case s of
        c # r \<Rightarrow>
          if c = CHR ''-''
          then (if r \<noteq> [] \<and> list_all is_digit_char r \<and> digits_val r \<le> 2 ^ 63
                then Some (- digits_val r) else None)
          else parse_unsigned (2 ^ 63 - 1) s
      | [] \<Rightarrow> None)"

section \<open>Hash maps\<close>

text \<open>
  \<open>iter().map(..).collect::<HashMap>()\<close> inserts in order, so the last pair of a key wins.
  Iterating a \<open>HashMap\<close> visits each key once, in an order the program does not control: the
  order is an argument \<open>ord\<close> of every function that iterates one, and what the code relies on
  is only that it permutes the keys.
\<close>

definition hm_of :: "('k \<times> 'v) list \<Rightarrow> ('k \<rightharpoonup> 'v)" where
  "hm_of kvs = map_of (rev kvs)"

definition hm_iter :: "('k list \<Rightarrow> 'k list) \<Rightarrow> ('k \<times> 'v) list \<Rightarrow> ('k \<times> 'v) list" where
  "hm_iter ord kvs = map (\<lambda>k. (k, the (hm_of kvs k))) (ord (remdups (map fst kvs)))"

definition perm_order :: "('k list \<Rightarrow> 'k list) \<Rightarrow> bool" where
  "perm_order ord \<longleftrightarrow> (\<forall>ks. mset (ord ks) = mset ks)"

lemma perm_order_id [simp]: "perm_order (\<lambda>ks. ks)"
  by (simp add: perm_order_def)

lemma perm_order_set: "perm_order ord \<Longrightarrow> set (ord ks) = set ks"
  unfolding perm_order_def by (metis mset_eq_setD)

lemma perm_order_distinct: "perm_order ord \<Longrightarrow> distinct (ord ks) = distinct ks"
  unfolding perm_order_def by (metis mset_eq_imp_distinct_iff)

lemma hm_of_None_iff: "hm_of kvs k = None \<longleftrightarrow> k \<notin> fst ` set kvs"
  by (simp add: hm_of_def map_of_eq_None_iff)

lemma hm_of_SomeD: "hm_of kvs k = Some v \<Longrightarrow> (k, v) \<in> set kvs"
  unfolding hm_of_def by (drule map_of_SomeD) simp

lemma hm_of_distinct:
  "distinct (map fst kvs) \<Longrightarrow> hm_of kvs = map_of kvs"
  unfolding hm_of_def by (rule map_of_inject_set [THEN iffD2]) (auto simp: rev_map [symmetric])

lemma hm_of_self:
  assumes "distinct (map f xs)" and "x \<in> set xs"
  shows "hm_of (map (\<lambda>x. (f x, g x)) xs) (f x) = Some (g x)"
proof -
  have d: "distinct (map fst (map (\<lambda>x. (f x, g x)) xs))"
    using assms(1) by (simp add: comp_def)
  then show ?thesis
    using assms(2) by (simp add: hm_of_distinct map_of_eq_Some_iff)
qed

lemma hm_iter_fst_set:
  "perm_order ord \<Longrightarrow> fst ` set (hm_iter ord kvs) = fst ` set kvs"
  by (force simp: hm_iter_def image_image perm_order_set)

lemma map_fst_hm_iter: "map fst (hm_iter ord kvs) = ord (remdups (map fst kvs))"
  by (simp add: hm_iter_def comp_def)

lemma hm_iter_distinct:
  "perm_order ord \<Longrightarrow> distinct (map fst (hm_iter ord kvs))"
  by (simp add: map_fst_hm_iter perm_order_distinct)

lemma hm_iter_mem:
  assumes "perm_order ord"
  shows "(k, v) \<in> set (hm_iter ord kvs) \<longleftrightarrow> hm_of kvs k = Some v"
proof -
  have "(k, v) \<in> set (hm_iter ord kvs) \<longleftrightarrow> k \<in> fst ` set kvs \<and> v = the (hm_of kvs k)"
    using assms by (auto simp: hm_iter_def perm_order_set)
  also have "\<dots> \<longleftrightarrow> hm_of kvs k = Some v"
    using hm_of_None_iff [of kvs k] by (cases "hm_of kvs k") auto
  finally show ?thesis .
qed

section \<open>Lists\<close>

text \<open>\<open>Vec::contains\<close> followed by \<open>push\<close> when absent.\<close>

definition push_new :: "'a list \<Rightarrow> 'a \<Rightarrow> 'a list" where
  "push_new xs x = (if x \<in> set xs then xs else xs @ [x])"

lemma set_push_new [simp]: "set (push_new xs x) = insert x (set xs)"
  by (auto simp: push_new_def)

lemma distinct_push_new [simp]: "distinct xs \<Longrightarrow> distinct (push_new xs x)"
  by (auto simp: push_new_def)

lemma set_foldl_push_new [simp]: "set (foldl push_new xs ys) = set xs \<union> set ys"
  by (induction ys arbitrary: xs) auto

lemma distinct_foldl_push_new: "distinct xs \<Longrightarrow> distinct (foldl push_new xs ys)"
  by (induction ys arbitrary: xs) auto

lemma sorted_map_sort_key: "sorted (map f (sort_key f xs))"
  by simp

lemma filter_sort_key: "filter (\<lambda>y. f y = k) (sort_key f xs) = filter (\<lambda>y. f y = k) xs"
  by (rule sort_key_stable)

lemma map_filter_Cons: "List.map_filter f (x # xs) =
    (case f x of None \<Rightarrow> List.map_filter f xs | Some y \<Rightarrow> y # List.map_filter f xs)"
  by (simp add: map_filter_simps)

lemma set_map_filter: "set (List.map_filter f xs) = {y. \<exists>x\<in>set xs. f x = Some y}"
  by (induction xs) (auto simp: map_filter_Cons map_filter_simps split: option.splits)

section \<open>String lemmas\<close>

lemma utf8_len_ascii: "is_ascii s \<Longrightarrow> utf8_len s = length s"
  by (induction s) (auto simp: is_ascii_def utf8_len_def utf8_size_def)

lemma utf8_len_zero [simp]: "utf8_len s = 0 \<longleftrightarrow> s = []"
  by (cases s) (auto simp: utf8_len_def utf8_size_def)

lemma replace_char_Nil [simp]: "replace_char q r [] = []"
  by (simp add: replace_char_def)

lemma replace_char_Cons [simp]:
  "replace_char q r (c # s) = (if c = q then r else [c]) @ replace_char q r s"
  by (simp add: replace_char_def)

lemma replace_char_id: "q \<notin> set s \<Longrightarrow> replace_char q r s = s"
  by (induction s) auto

lemma trim_Nil [simp]: "trim [] = []"
  by (simp add: trim_def)

lemma set_str_join: "set (str_join sep xs) \<subseteq> set sep \<union> (\<Union>x\<in>set xs. set x)"
  by (induction sep xs rule: str_join.induct) auto

lemma dropWhile_id: "xs \<noteq> [] \<Longrightarrow> \<not> P (hd xs) \<Longrightarrow> dropWhile P xs = xs"
  by (cases xs) auto

lemma trim_id: "s \<noteq> [] \<Longrightarrow> \<not> is_ws (hd s) \<Longrightarrow> \<not> is_ws (last s) \<Longrightarrow> trim s = s"
  by (simp add: trim_def dropWhile_id hd_rev)

lemma dropWhile_decomp: "\<exists>w. s = w @ dropWhile P s \<and> list_all P w"
  by (metis list_all_iff set_takeWhileD takeWhile_dropWhile_id)

lemma trim_decomp: "\<exists>l r. s = l @ trim s @ r \<and> list_all is_ws l \<and> list_all is_ws r"
proof -
  obtain l where l: "s = l @ dropWhile is_ws s" "list_all is_ws l"
    using dropWhile_decomp by blast
  obtain r where r: "rev (dropWhile is_ws s) = r @ dropWhile is_ws (rev (dropWhile is_ws s))"
      "list_all is_ws r"
    using dropWhile_decomp by blast
  have "dropWhile is_ws s = trim s @ rev r"
    using arg_cong [OF r(1), of rev] by (simp add: trim_def)
  with l r(2) have "s = l @ trim s @ rev r \<and> list_all is_ws l \<and> list_all is_ws (rev r)"
    by (metis list_all_rev)
  then show ?thesis by blast
qed

end
