(* ===== verification/Mig_Schema.thy ===== *)
theory Mig_Schema
  imports Doo_Prelude
begin

text \<open>
  The schema types of the migration engine (crates/doo_migrate/src/schema.rs): plain data shared
  by the extractor, the introspector, the diff engine and the SQL generator, with the conversions
  between SQL types, default values and PostgreSQL's texts.

  A \<open>u32\<close> length is a \<open>nat\<close>; an \<open>f64\<close> default is its display text, since the
  engine only parses it and prints it; parsing one is an argument (\<open>parse_f64\<close>) of the function
  that does.
\<close>

section \<open>Data\<close>

type_synonym f64_text = string

datatype sql_type =
    SmallInt | Integer | BigInt | Serial | BigSerial
  | Real | DoublePrecision
  | Text | Varchar nat
  | Boolean
  | Timestamp | TimestampTz
  | Json | Jsonb
  | EnumT string
  | Custom string

datatype default_value =
    DInteger int
  | DFloat f64_text
  | DBoolean bool
  | DString string
  | DExpression string

datatype foreign_key_action = NoAction | Restrict | Cascade | SetNull | SetDefaultAction

record column_def =
  col_name :: string
  col_field_name :: string
  col_sql_type :: sql_type
  col_nullable :: bool
  col_default :: "default_value option"
  col_is_auto :: bool
  col_is_primary :: bool
  col_is_unique :: bool
  col_is_index :: bool
  col_is_hashed :: bool
  col_decorators :: "string list"

record primary_key_def =
  pk_name :: string
  pk_columns :: "string list"

record unique_constraint_def =
  uq_name :: string
  uq_columns :: "string list"

record check_constraint_def =
  ck_name :: string
  ck_expression :: string

record foreign_key_def =
  fk_name :: string
  fk_columns :: "string list"
  fk_ref_table :: string
  fk_ref_columns :: "string list"
  fk_on_delete :: foreign_key_action
  fk_on_update :: foreign_key_action

record index_def =
  idx_name :: string
  idx_columns :: "string list"
  idx_unique :: bool

record enum_type_def =
  en_name :: string
  en_enum_name :: string
  en_variants :: "string list"

record table_def =
  tbl_name :: string
  tbl_struct_name :: string
  tbl_columns :: "column_def list"
  tbl_primary_key :: "primary_key_def option"
  tbl_unique_constraints :: "unique_constraint_def list"
  tbl_check_constraints :: "check_constraint_def list"
  tbl_foreign_keys :: "foreign_key_def list"
  tbl_indexes :: "index_def list"
  tbl_auto_timestamp :: bool
  tbl_struct_refs :: "string list"
  tbl_transitive_enum_refs :: "string list"

record database_schema =
  db_tables :: "table_def list"
  db_enums :: "enum_type_def list"

section \<open>SQL types\<close>

fun to_ddl :: "sql_type \<Rightarrow> string" where
  "to_ddl SmallInt = ''SMALLINT''"
| "to_ddl Integer = ''INTEGER''"
| "to_ddl BigInt = ''BIGINT''"
| "to_ddl Serial = ''SERIAL''"
| "to_ddl BigSerial = ''BIGSERIAL''"
| "to_ddl Real = ''REAL''"
| "to_ddl DoublePrecision = ''DOUBLE PRECISION''"
| "to_ddl Text = ''TEXT''"
| "to_ddl (Varchar n) = ''VARCHAR('' @ show_nat n @ '')''"
| "to_ddl Boolean = ''BOOLEAN''"
| "to_ddl Timestamp = ''TIMESTAMP''"
| "to_ddl TimestampTz = ''TIMESTAMPTZ''"
| "to_ddl Json = ''JSON''"
| "to_ddl Jsonb = ''JSONB''"
| "to_ddl (EnumT name) = name"
| "to_ddl (Custom s) = s"

text \<open>The branch of \<open>from_pg_type\<close> for names outside its table.\<close>

definition from_pg_other :: "string \<Rightarrow> sql_type" where
  "from_pg_other other =
     (case strip_prefix ''character varying'' other of
        Some rest \<Rightarrow>
          (case Option.bind (strip_prefix ''('' (trim rest)) (strip_suffix '')'') of
             Some inner \<Rightarrow>
               (case parse_u32 (trim inner) of Some n \<Rightarrow> Varchar n | None \<Rightarrow> Varchar 255)
           | None \<Rightarrow> Varchar 255)
      | None \<Rightarrow>
          if other = ''user-defined'' then Custom ''USER-DEFINED'' else Custom other)"

definition from_pg_type :: "string \<Rightarrow> sql_type" where
  "from_pg_type pg_type =
     (let t = to_lowercase pg_type
      in if t = ''smallint'' \<or> t = ''int2'' then SmallInt
         else if t = ''integer'' \<or> t = ''int'' \<or> t = ''int4'' then Integer
         else if t = ''bigint'' \<or> t = ''int8'' then BigInt
         else if t = ''serial'' then Serial
         else if t = ''bigserial'' then BigSerial
         else if t = ''real'' \<or> t = ''float4'' then Real
         else if t = ''double precision'' \<or> t = ''float8'' then DoublePrecision
         else if t = ''text'' then Text
         else if t = ''boolean'' \<or> t = ''bool'' then Boolean
         else if t = ''timestamp without time zone'' \<or> t = ''timestamp'' then Timestamp
         else if t = ''timestamp with time zone'' \<or> t = ''timestamptz'' then TimestampTz
         else if t = ''json'' then Json
         else if t = ''jsonb'' then Jsonb
         else from_pg_other t)"

fun zero_default :: "sql_type \<Rightarrow> default_value" where
  "zero_default SmallInt = DInteger 0"
| "zero_default Integer = DInteger 0"
| "zero_default BigInt = DInteger 0"
| "zero_default Serial = DInteger 0"
| "zero_default BigSerial = DInteger 0"
| "zero_default Real = DFloat ''0''"
| "zero_default DoublePrecision = DFloat ''0''"
| "zero_default Text = DString []"
| "zero_default (Varchar _) = DString []"
| "zero_default Boolean = DBoolean False"
| "zero_default Timestamp = DExpression ''NOW()''"
| "zero_default TimestampTz = DExpression ''NOW()''"
| "zero_default Json = DExpression (CHR 0x27 # ''{}'' @ [CHR 0x27] @ ''::jsonb'')"
| "zero_default Jsonb = DExpression (CHR 0x27 # ''{}'' @ [CHR 0x27] @ ''::jsonb'')"
| "zero_default (EnumT name) = DExpression (''enum_first(NULL::'' @ name @ '')'')"
| "zero_default (Custom _) = DString []"

text \<open>\<open>matches!\<close> over the pairs of the source, in its order.\<close>

definition is_varchar :: "sql_type \<Rightarrow> bool" where
  "is_varchar t = (case t of Varchar _ \<Rightarrow> True | _ \<Rightarrow> False)"

definition is_safe_cast_to :: "sql_type \<Rightarrow> sql_type \<Rightarrow> bool" where
  "is_safe_cast_to s t \<longleftrightarrow>
     (s = SmallInt \<and> t = Integer) \<or> (s = SmallInt \<and> t = BigInt) \<or> (s = Integer \<and> t = BigInt) \<or>
     (s = SmallInt \<and> t = Real) \<or> (s = SmallInt \<and> t = DoublePrecision) \<or>
     (s = Integer \<and> t = DoublePrecision) \<or>
     (s = Real \<and> t = DoublePrecision) \<or>
     (is_varchar s \<and> t = Text) \<or>
     (s = Timestamp \<and> t = TimestampTz) \<or>
     (s = Json \<and> t = Jsonb) \<or>
     t = Text"

section \<open>Default values\<close>

definition quote_literal :: "string \<Rightarrow> string" where
  "quote_literal s = [CHR 0x27] @ replace_char (CHR 0x27) [CHR 0x27, CHR 0x27] s @ [CHR 0x27]"

fun default_to_sql :: "default_value \<Rightarrow> string" where
  "default_to_sql (DInteger n) = show_int n"
| "default_to_sql (DFloat f) = f"
| "default_to_sql (DBoolean b) = (if b then ''TRUE'' else ''FALSE'')"
| "default_to_sql (DString s) = quote_literal s"
| "default_to_sql (DExpression e) = e"

text \<open>The quoted branch of \<open>from_pg_default\<close>, on the text between the quotes.\<close>

definition from_pg_quoted :: "(string \<Rightarrow> f64_text option) \<Rightarrow> string \<Rightarrow> default_value" where
  "from_pg_quoted parse_f64 inner =
     (case parse_i64 inner of
        Some n \<Rightarrow> DInteger n
      | None \<Rightarrow>
          (case parse_f64 inner of
             Some f \<Rightarrow> DFloat f
           | None \<Rightarrow>
               if eq_ignore_ascii_case inner ''true'' then DBoolean True
               else if eq_ignore_ascii_case inner ''false'' then DBoolean False
               else DString (replace_double (CHR 0x27) inner)))"

definition from_pg_default :: "(string \<Rightarrow> f64_text option) \<Rightarrow> string \<Rightarrow> default_value" where
  "from_pg_default parse_f64 expr0 =
     (let t = trim expr0;
          expr = (case before_double (CHR '':'') t of Some pre \<Rightarrow> trim pre | None \<Rightarrow> t)
      in if eq_ignore_ascii_case expr ''true'' then DBoolean True
         else if eq_ignore_ascii_case expr ''false'' then DBoolean False
         else case parse_i64 expr of
                Some n \<Rightarrow> DInteger n
              | None \<Rightarrow>
                  (case parse_f64 expr of
                     Some f \<Rightarrow> DFloat f
                   | None \<Rightarrow>
                       if starts_with expr [CHR 0x27] \<and> last expr = CHR 0x27 \<and> 2 \<le> length expr
                       then from_pg_quoted parse_f64 (trim (butlast (tl expr)))
                       else DExpression (to_uppercase expr)))"

section \<open>Foreign key actions\<close>

fun fk_action_to_sql :: "foreign_key_action \<Rightarrow> string" where
  "fk_action_to_sql NoAction = ''NO ACTION''"
| "fk_action_to_sql Restrict = ''RESTRICT''"
| "fk_action_to_sql Cascade = ''CASCADE''"
| "fk_action_to_sql SetNull = ''SET NULL''"
| "fk_action_to_sql SetDefaultAction = ''SET DEFAULT''"

definition fk_action_from_pg :: "string \<Rightarrow> foreign_key_action" where
  "fk_action_from_pg s =
     (let u = to_uppercase s
      in if u = ''CASCADE'' \<or> u = ''c'' then Cascade
         else if u = ''RESTRICT'' \<or> u = ''r'' then Restrict
         else if u = ''SET NULL'' \<or> u = ''n'' then SetNull
         else if u = ''SET DEFAULT'' \<or> u = ''d'' then SetDefaultAction
         else NoAction)"

end
