(* ===== verification/Mig_Change.thy ===== *)
theory Mig_Change
  imports Mig_Schema
begin

text \<open>
  The schema changes of crates/doo_migrate/src/diff.rs (\<open>SchemaChange\<close>) and the objects each of
  them affects (\<open>affected_objects_for\<close>, the single source of the dependency graph). The fields
  of a change stand in the order of the source's.
\<close>

section \<open>Changes\<close>

datatype schema_change =
    CreateEnum enum_type_def
  | RenameEnum string string
  | AddEnumValue string string
  | DropEnum string
  | CreateTable table_def
  | DropTable string table_def
  | RenameTable string string
  | AddColumn string column_def
  | DropColumn string string column_def
  | RenameColumn string string string
  | AlterColumnType string string sql_type sql_type
  | SetNotNull string string "default_value option" sql_type
  | DropNotNull string string
  | SetDefault string string default_value
  | DropDefault string string
  | AddPrimaryKey string string "string list"
  | DropPrimaryKey string string
  | AddUnique string string "string list"
  | DropUnique string string
  | AddCheck string string string
  | DropCheck string string
  | CreateIndex string index_def
  | DropIndex string string
  | AddForeignKey string foreign_key_def
  | DropForeignKey string string foreign_key_def
  | ModifyForeignKey string string foreign_key_def foreign_key_def string

section \<open>Affected objects\<close>

definition qual_object :: "string \<Rightarrow> string \<Rightarrow> string" where
  "qual_object table item = table @ ''.'' @ item"

definition fk_object :: "string \<Rightarrow> string \<Rightarrow> string" where
  "fk_object table name = table @ ''.fk.'' @ name"

definition enum_of_type :: "sql_type \<Rightarrow> string list" where
  "enum_of_type t = (case t of EnumT e \<Rightarrow> [e] | _ \<Rightarrow> [])"

definition create_table_objects :: "table_def \<Rightarrow> string list" where
  "create_table_objects t =
     foldl push_new
       (foldl push_new
         (foldl push_new
           (foldl push_new [tbl_name t] (map fk_ref_table (tbl_foreign_keys t)))
           (concat (map (\<lambda>c. enum_of_type (col_sql_type c)) (tbl_columns t))))
         (tbl_transitive_enum_refs t))
       (tbl_struct_refs t)"

fun affected_objects_for :: "schema_change \<Rightarrow> string list" where
  "affected_objects_for (CreateEnum e) = [en_name e]"
| "affected_objects_for (RenameEnum fr to) = [fr, to]"
| "affected_objects_for (AddEnumValue enum_name v) = [enum_name]"
| "affected_objects_for (DropEnum name) = [name]"
| "affected_objects_for (CreateTable t) = create_table_objects t"
| "affected_objects_for (DropTable name prev) = [name]"
| "affected_objects_for (RenameTable fr to) = [fr, to]"
| "affected_objects_for (AddColumn table c) =
     [table, qual_object table (col_name c)] @ enum_of_type (col_sql_type c)"
| "affected_objects_for (DropColumn table c prev) = [table, qual_object table c]"
| "affected_objects_for (RenameColumn table fr to) =
     [table, qual_object table fr, qual_object table to]"
| "affected_objects_for (AlterColumnType table c fr to) =
     [table, qual_object table c] @ enum_of_type to"
| "affected_objects_for (SetNotNull table c d ty) = [table, qual_object table c]"
| "affected_objects_for (DropNotNull table c) = [table, qual_object table c]"
| "affected_objects_for (SetDefault table c d) = [table, qual_object table c]"
| "affected_objects_for (DropDefault table c) = [table, qual_object table c]"
| "affected_objects_for (AddPrimaryKey table n cs) = [table]"
| "affected_objects_for (DropPrimaryKey table n) = [table]"
| "affected_objects_for (AddUnique table n cs) = [table]"
| "affected_objects_for (DropUnique table n) = [table]"
| "affected_objects_for (AddCheck table n e) = [table]"
| "affected_objects_for (DropCheck table n) = [table]"
| "affected_objects_for (CreateIndex table i) = [table]"
| "affected_objects_for (DropIndex table n) = [table, n]"
| "affected_objects_for (AddForeignKey table fk) =
     [table, fk_ref_table fk, fk_object table (fk_name fk)]"
| "affected_objects_for (DropForeignKey table n prev) = [table, fk_object table n]"
| "affected_objects_for (ModifyForeignKey table cn fk prev kind) =
     [table, fk_ref_table fk, fk_object table (fk_name fk)] @
     (if fk_ref_table prev \<noteq> fk_ref_table fk then [fk_ref_table prev] else [])"

lemma set_create_table_objects:
  "set (create_table_objects t) =
     {tbl_name t} \<union> fk_ref_table ` set (tbl_foreign_keys t) \<union>
     {e. \<exists>c\<in>set (tbl_columns t). col_sql_type c = EnumT e} \<union>
     set (tbl_transitive_enum_refs t) \<union> set (tbl_struct_refs t)"
proof -
  have "set (concat (map (\<lambda>c. enum_of_type (col_sql_type c)) (tbl_columns t))) =
      {e. \<exists>c\<in>set (tbl_columns t). col_sql_type c = EnumT e}"
    by (auto simp: enum_of_type_def split: sql_type.splits)
  then show ?thesis
    unfolding create_table_objects_def by (simp add: Un_assoc)
qed

lemma distinct_create_table_objects: "distinct (create_table_objects t)"
  by (simp add: create_table_objects_def distinct_foldl_push_new)

lemma create_table_objects_nonempty: "create_table_objects t \<noteq> []"
proof
  assume "create_table_objects t = []"
  then have "set (create_table_objects t) = {}" by simp
  then show False by (simp add: set_create_table_objects)
qed

lemma affected_objects_nonempty: "affected_objects_for c \<noteq> []"
  by (cases c) (simp_all add: create_table_objects_nonempty)

end
