(* ===== verification/Mig_Sql.thy ===== *)
theory Mig_Sql
  imports Mig_Change
begin

text \<open>
  The SQL generator (crates/doo_migrate/src/sql.rs): identifier quoting, the forward and the
  rollback statement of every schema change, and \<open>CREATE TABLE\<close>. The source's one function with
  a match over all changes is split by the source's own groups (enums and tables, columns,
  constraints and indexes, foreign keys).
\<close>

section \<open>Identifier quoting\<close>

definition quote_ident :: "string \<Rightarrow> string" where
  "quote_ident ident = [CHR 0x22] @ replace_char (CHR 0x22) [CHR 0x22, CHR 0x22] ident @ [CHR 0x22]"

definition quote_idents :: "string list \<Rightarrow> string \<Rightarrow> string" where
  "quote_idents items sep = str_join sep (map quote_ident items)"

section \<open>Tables\<close>

definition create_column_sql :: "column_def \<Rightarrow> string" where
  "create_column_sql c =
     (let q_col = quote_ident (col_name c);
          base = (if col_is_auto c
                  then ''  '' @ q_col @ '' INTEGER GENERATED ALWAYS AS IDENTITY''
                  else ''  '' @ q_col @ '' '' @ to_ddl (col_sql_type c));
          nn = (if \<not> col_nullable c \<and> \<not> col_is_auto c then '' NOT NULL'' else []);
          df = (case col_default c of
                  Some d \<Rightarrow> if \<not> col_is_auto c then '' DEFAULT '' @ default_to_sql d else []
                | None \<Rightarrow> [])
      in base @ nn @ df)"

definition fk_body :: "foreign_key_def \<Rightarrow> string" where
  "fk_body fk =
     ''CONSTRAINT '' @ quote_ident (fk_name fk) @
     '' FOREIGN KEY ('' @ quote_idents (fk_columns fk) '', '' @
     '') REFERENCES '' @ quote_ident (fk_ref_table fk) @
     '' ('' @ quote_idents (fk_ref_columns fk) '', '' @
     '') ON DELETE '' @ fk_action_to_sql (fk_on_delete fk) @
     '' ON UPDATE '' @ fk_action_to_sql (fk_on_update fk)"

definition create_index_sql :: "string \<Rightarrow> index_def \<Rightarrow> string" where
  "create_index_sql table i =
     ''CREATE '' @ (if idx_unique i then ''UNIQUE '' else []) @ ''INDEX IF NOT EXISTS '' @
     quote_ident (idx_name i) @ '' ON '' @ quote_ident table @
     '' ('' @ quote_idents (idx_columns i) '', '' @ '');''"

definition table_parts :: "table_def \<Rightarrow> string list" where
  "table_parts t =
     map create_column_sql (tbl_columns t) @
     (case tbl_primary_key t of
        Some pk \<Rightarrow> [''  CONSTRAINT '' @ quote_ident (pk_name pk) @ '' PRIMARY KEY ('' @
                     quote_idents (pk_columns pk) '', '' @ '')'']
      | None \<Rightarrow> []) @
     map (\<lambda>u. ''  CONSTRAINT '' @ quote_ident (uq_name u) @ '' UNIQUE ('' @
              quote_idents (uq_columns u) '', '' @ '')'') (tbl_unique_constraints t) @
     map (\<lambda>k. ''  CONSTRAINT '' @ quote_ident (ck_name k) @ '' CHECK ('' @
              ck_expression k @ '')'') (tbl_check_constraints t) @
     map (\<lambda>fk. ''  '' @ fk_body fk) (tbl_foreign_keys t)"

definition generate_create_table :: "table_def \<Rightarrow> string" where
  "generate_create_table t =
     ''CREATE TABLE IF NOT EXISTS '' @ quote_ident (tbl_name t) @ '' ('' @ nl @
     str_join ('','' @ nl) (table_parts t) @ nl @ '');'' @
     concat (map (\<lambda>i. nl @ create_index_sql (tbl_name t) i) (tbl_indexes t))"

section \<open>Shared statement shapes\<close>

definition alter_column :: "string \<Rightarrow> string \<Rightarrow> string \<Rightarrow> string" where
  "alter_column table column what =
     ''ALTER TABLE '' @ quote_ident table @ '' ALTER COLUMN '' @ quote_ident column @ '' '' @ what @ '';''"

definition drop_constraint :: "string \<Rightarrow> string \<Rightarrow> string" where
  "drop_constraint table name =
     ''ALTER TABLE '' @ quote_ident table @ '' DROP CONSTRAINT IF EXISTS '' @ quote_ident name @ '';''"

definition add_fk_sql :: "string \<Rightarrow> foreign_key_def \<Rightarrow> string" where
  "add_fk_sql table fk = ''ALTER TABLE '' @ quote_ident table @ '' ADD '' @ fk_body fk @ '';''"

definition rename_sql :: "string \<Rightarrow> string \<Rightarrow> string \<Rightarrow> string" where
  "rename_sql what fr to = ''ALTER '' @ what @ '' '' @ quote_ident fr @ '' RENAME TO '' @ quote_ident to @ '';''"

definition rename_column_sql :: "string \<Rightarrow> string \<Rightarrow> string \<Rightarrow> string" where
  "rename_column_sql table fr to =
     ''ALTER TABLE '' @ quote_ident table @ '' RENAME COLUMN '' @ quote_ident fr @ '' TO '' @
     quote_ident to @ '';''"

definition backfill_not_null :: "string \<Rightarrow> string \<Rightarrow> string \<Rightarrow> string" where
  "backfill_not_null table column v =
     ''UPDATE '' @ quote_ident table @ '' SET '' @ quote_ident column @ '' = '' @ v @
     '' WHERE '' @ quote_ident column @ '' IS NULL;'' @ nl @ alter_column table column ''SET NOT NULL''"

section \<open>Forward statements\<close>

definition create_enum_sql :: "enum_type_def \<Rightarrow> string" where
  "create_enum_sql e =
     ''CREATE TYPE '' @ quote_ident (en_name e) @ '' AS ENUM ('' @
     str_join '', '' (map (\<lambda>v. [CHR 0x27] @ v @ [CHR 0x27]) (en_variants e)) @ '');''"

definition add_column_sql :: "string \<Rightarrow> column_def \<Rightarrow> string" where
  "add_column_sql table c =
     ''ALTER TABLE '' @ quote_ident table @ '' ADD COLUMN '' @ quote_ident (col_name c) @ '' '' @
     to_ddl (col_sql_type c) @
     (if \<not> col_nullable c \<and> col_default c \<noteq> None then '' NOT NULL'' else []) @
     (case col_default c of Some d \<Rightarrow> '' DEFAULT '' @ default_to_sql d | None \<Rightarrow> []) @ '';'' @
     (if \<not> col_nullable c \<and> col_default c = None
      then nl @ backfill_not_null table (col_name c) (default_to_sql (zero_default (col_sql_type c)))
      else [])"

definition cast_target :: "sql_type \<Rightarrow> string \<times> bool" where
  "cast_target t =
     (case t of Serial \<Rightarrow> (''INTEGER'', True) | BigSerial \<Rightarrow> (''BIGINT'', True)
      | other \<Rightarrow> (to_ddl other, False))"

definition alter_type_sql :: "string \<Rightarrow> string \<Rightarrow> string \<Rightarrow> string" where
  "alter_type_sql table column target =
     alter_column table column (''TYPE '' @ target @ '' USING '' @ quote_ident column @ ''::'' @ target)"

definition sequence_sql :: "string \<Rightarrow> string \<Rightarrow> string" where
  "sequence_sql table column =
     (let seq = quote_ident (table @ ''_'' @ column @ ''_seq''); q_table = quote_ident table;
          q_col = quote_ident column; q = [CHR 0x27]
      in nl @ ''CREATE SEQUENCE IF NOT EXISTS '' @ seq @ '' OWNED BY '' @ q_table @ ''.'' @ q_col @ '';'' @
         nl @ alter_column table column (''SET DEFAULT nextval('' @ q @ seq @ q @ '')'') @
         nl @ ''SELECT setval('' @ q @ seq @ q @ '', COALESCE((SELECT MAX('' @ q_col @ '') FROM '' @
         q_table @ ''), 0) + 1, false);'')"

definition add_constraint :: "string \<Rightarrow> string \<Rightarrow> string \<Rightarrow> string" where
  "add_constraint table name body =
     ''ALTER TABLE '' @ quote_ident table @ '' ADD CONSTRAINT '' @ quote_ident name @ body @ '';''"

definition modify_fk_sql ::
    "string \<Rightarrow> string \<Rightarrow> foreign_key_def \<Rightarrow> foreign_key_def \<Rightarrow> string \<Rightarrow> string" where
  "modify_fk_sql table cname fk prev kind =
     ''-- Modify FK '' @ quote_ident cname @ '' (changed: '' @ kind @ '')'' @ nl @
     str_join nl [drop_constraint table (fk_name prev), add_fk_sql table fk]"

fun change_to_up_sql :: "schema_change \<Rightarrow> string" where
  "change_to_up_sql (CreateEnum e) = create_enum_sql e"
| "change_to_up_sql (RenameEnum fr to) = rename_sql ''TYPE'' fr to"
| "change_to_up_sql (AddEnumValue enum_name v) =
     ''ALTER TYPE '' @ quote_ident enum_name @ '' ADD VALUE IF NOT EXISTS '' @
     [CHR 0x27] @ v @ [CHR 0x27] @ '';''"
| "change_to_up_sql (DropEnum name) = ''DROP TYPE IF EXISTS '' @ quote_ident name @ '';''"
| "change_to_up_sql (CreateTable t) = generate_create_table t"
| "change_to_up_sql (DropTable name prev) = ''DROP TABLE IF EXISTS '' @ quote_ident name @ '' CASCADE;''"
| "change_to_up_sql (RenameTable fr to) = rename_sql ''TABLE'' fr to"
| "change_to_up_sql (AddColumn table c) = add_column_sql table c"
| "change_to_up_sql (DropColumn table c prev) =
     ''ALTER TABLE '' @ quote_ident table @ '' DROP COLUMN IF EXISTS '' @ quote_ident c @ '' CASCADE;''"
| "change_to_up_sql (RenameColumn table fr to) = rename_column_sql table fr to"
| "change_to_up_sql (AlterColumnType table c fr to) =
     (case cast_target to of (target, needs_sequence) \<Rightarrow>
        alter_type_sql table c target @ (if needs_sequence then sequence_sql table c else []))"
| "change_to_up_sql (SetNotNull table c d ty) =
     backfill_not_null table c
       (case d of Some dv \<Rightarrow> default_to_sql dv | None \<Rightarrow> default_to_sql (zero_default ty))"
| "change_to_up_sql (DropNotNull table c) = alter_column table c ''DROP NOT NULL''"
| "change_to_up_sql (SetDefault table c d) = alter_column table c (''SET DEFAULT '' @ default_to_sql d)"
| "change_to_up_sql (DropDefault table c) = alter_column table c ''DROP DEFAULT''"
| "change_to_up_sql (AddPrimaryKey table n cs) =
     add_constraint table n ('' PRIMARY KEY ('' @ quote_idents cs '', '' @ '')'')"
| "change_to_up_sql (DropPrimaryKey table n) = drop_constraint table n"
| "change_to_up_sql (AddUnique table n cs) =
     add_constraint table n ('' UNIQUE ('' @ quote_idents cs '', '' @ '')'')"
| "change_to_up_sql (DropUnique table n) = drop_constraint table n"
| "change_to_up_sql (AddCheck table n e) = add_constraint table n ('' CHECK ('' @ e @ '')'')"
| "change_to_up_sql (DropCheck table n) = drop_constraint table n"
| "change_to_up_sql (CreateIndex table i) = create_index_sql table i"
| "change_to_up_sql (DropIndex table n) = ''DROP INDEX IF EXISTS '' @ quote_ident n @ '';''"
| "change_to_up_sql (AddForeignKey table fk) = add_fk_sql table fk"
| "change_to_up_sql (DropForeignKey table n prev) = drop_constraint table n"
| "change_to_up_sql (ModifyForeignKey table cn fk prev kind) = modify_fk_sql table cn fk prev kind"

section \<open>Rollback statements\<close>

definition rollback_fk_sql :: "string \<Rightarrow> foreign_key_def \<Rightarrow> foreign_key_def \<Rightarrow> string" where
  "rollback_fk_sql table fk prev =
     ''-- Rollback FK modification'' @ nl @ drop_constraint table (fk_name fk) @ nl @
     add_fk_sql table prev"

fun change_to_down_sql :: "schema_change \<Rightarrow> string option" where
  "change_to_down_sql (CreateEnum e) = Some (''DROP TYPE IF EXISTS '' @ quote_ident (en_name e) @ '';'')"
| "change_to_down_sql (RenameEnum fr to) = Some (rename_sql ''TYPE'' to fr)"
| "change_to_down_sql (AddEnumValue enum_name v) = None"
| "change_to_down_sql (DropEnum name) = None"
| "change_to_down_sql (CreateTable t) =
     Some (''DROP TABLE IF EXISTS '' @ quote_ident (tbl_name t) @ '' CASCADE;'')"
| "change_to_down_sql (DropTable name prev) = Some (generate_create_table prev)"
| "change_to_down_sql (RenameTable fr to) = Some (rename_sql ''TABLE'' to fr)"
| "change_to_down_sql (AddColumn table c) =
     Some (''ALTER TABLE '' @ quote_ident table @ '' DROP COLUMN IF EXISTS '' @
           quote_ident (col_name c) @ '';'')"
| "change_to_down_sql (DropColumn table c prev) = None"
| "change_to_down_sql (RenameColumn table fr to) = Some (rename_column_sql table to fr)"
| "change_to_down_sql (AlterColumnType table c fr to) =
     (case cast_target fr of (target, needs_sequence) \<Rightarrow> Some (alter_type_sql table c target))"
| "change_to_down_sql (SetNotNull table c d ty) = Some (alter_column table c ''DROP NOT NULL'')"
| "change_to_down_sql (DropNotNull table c) = Some (alter_column table c ''SET NOT NULL'')"
| "change_to_down_sql (SetDefault table c d) = Some (alter_column table c ''DROP DEFAULT'')"
| "change_to_down_sql (DropDefault table c) = None"
| "change_to_down_sql (AddPrimaryKey table n cs) = Some (drop_constraint table n)"
| "change_to_down_sql (DropPrimaryKey table n) = None"
| "change_to_down_sql (AddUnique table n cs) = Some (drop_constraint table n)"
| "change_to_down_sql (DropUnique table n) = None"
| "change_to_down_sql (AddCheck table n e) = Some (drop_constraint table n)"
| "change_to_down_sql (DropCheck table n) = None"
| "change_to_down_sql (CreateIndex table i) =
     Some (''DROP INDEX IF EXISTS '' @ quote_ident (idx_name i) @ '';'')"
| "change_to_down_sql (DropIndex table n) = None"
| "change_to_down_sql (AddForeignKey table fk) = Some (drop_constraint table (fk_name fk))"
| "change_to_down_sql (DropForeignKey table n prev) = None"
| "change_to_down_sql (ModifyForeignKey table cn fk prev kind) = Some (rollback_fk_sql table fk prev)"

end
