(* ===== verification/Mig_Plan.thy ===== *)
theory Mig_Plan
  imports Mig_Sql
begin

text \<open>
  The migration planner (crates/doo_migrate/src/plan.rs): risk classification, the planned change
  with its metadata, the dependency order, the dependency graph with its transitive closure, the
  connected components and the batches. The time stamp of \<open>chrono\<close>, the digest of \<open>sha2\<close> and the
  iteration order of the one hash map the planner loops over are arguments.
\<close>

section \<open>Data\<close>

datatype risk = Safe | Risky | Destructive

record planned_change =
  pc_change :: schema_change
  pc_risk :: risk
  pc_up_sql :: string
  pc_down_sql :: "string option"
  pc_requires_approval :: bool
  pc_change_id :: string
  pc_category :: string
  pc_severity :: string
  pc_reason :: string
  pc_affected_objects :: "string list"
  pc_requires_backup :: bool
  pc_can_auto_rollback :: bool
  pc_depends_on :: "string list"
  pc_component_id :: nat
  pc_affected_rows :: "int option"

record batch_summary =
  bs_total :: nat
  bs_safe_count :: nat
  bs_risky_count :: nat
  bs_destructive_count :: nat
  bs_affected_tables :: "string list"

record change_batch =
  cb_component_id :: nat
  cb_change_ids :: "string list"
  cb_is_chained :: bool
  cb_description :: string
  cb_summary :: batch_summary

record migration_plan =
  mp_id :: string
  mp_changes :: "planned_change list"
  mp_checksum :: string
  mp_component_count :: nat
  mp_batches :: "change_batch list"

section \<open>Risk, category and order of a change\<close>

fun classify_risk :: "schema_change \<Rightarrow> risk" where
  "classify_risk (CreateEnum e) = Safe"
| "classify_risk (AddEnumValue n v) = Safe"
| "classify_risk (CreateTable t) = Safe"
| "classify_risk (AddColumn t c) = Safe"
| "classify_risk (DropNotNull t c) = Safe"
| "classify_risk (SetDefault t c d) = Safe"
| "classify_risk (AddPrimaryKey t n cs) = Safe"
| "classify_risk (AddUnique t n cs) = Safe"
| "classify_risk (AddCheck t n e) = Safe"
| "classify_risk (CreateIndex t i) = Safe"
| "classify_risk (AddForeignKey t fk) = Safe"
| "classify_risk (SetNotNull t c d ty) = Risky"
| "classify_risk (DropDefault t c) = Risky"
| "classify_risk (DropPrimaryKey t n) = Risky"
| "classify_risk (DropUnique t n) = Risky"
| "classify_risk (DropCheck t n) = Risky"
| "classify_risk (DropIndex t n) = Risky"
| "classify_risk (DropForeignKey t n p) = Risky"
| "classify_risk (RenameTable f t) = Risky"
| "classify_risk (RenameColumn tb f t) = Risky"
| "classify_risk (RenameEnum f t) = Risky"
| "classify_risk (ModifyForeignKey t n fk prev kind) =
     (if fk_ref_table prev \<noteq> fk_ref_table fk then Risky
      else if fk_on_delete fk = Cascade \<and> fk_on_delete prev \<noteq> Cascade then Risky
      else Safe)"
| "classify_risk (AlterColumnType t c fr to) = (if is_safe_cast_to fr to then Risky else Destructive)"
| "classify_risk (DropTable n p) = Destructive"
| "classify_risk (DropColumn t c p) = Destructive"
| "classify_risk (DropEnum n) = Destructive"

fun change_order :: "schema_change \<Rightarrow> nat" where
  "change_order (CreateEnum e) = 10"
| "change_order (RenameEnum f t) = 11"
| "change_order (AddEnumValue n v) = 12"
| "change_order (CreateTable t) = 20"
| "change_order (RenameTable f t) = 21"
| "change_order (AddColumn t c) = 30"
| "change_order (RenameColumn tb f t) = 31"
| "change_order (AlterColumnType tb c f t) = 32"
| "change_order (SetDefault tb c d) = 33"
| "change_order (SetNotNull tb c d ty) = 34"
| "change_order (DropNotNull tb c) = 35"
| "change_order (DropDefault tb c) = 36"
| "change_order (AddPrimaryKey tb n cs) = 40"
| "change_order (AddUnique tb n cs) = 41"
| "change_order (AddCheck tb n e) = 42"
| "change_order (CreateIndex tb i) = 50"
| "change_order (AddForeignKey tb fk) = 60"
| "change_order (ModifyForeignKey tb n fk p k) = 61"
| "change_order (DropForeignKey tb n p) = 70"
| "change_order (DropIndex tb n) = 71"
| "change_order (DropCheck tb n) = 72"
| "change_order (DropUnique tb n) = 73"
| "change_order (DropPrimaryKey tb n) = 74"
| "change_order (DropColumn tb c p) = 80"
| "change_order (DropTable n p) = 90"
| "change_order (DropEnum n) = 100"

definition category_of :: "schema_change \<Rightarrow> string" where
  "category_of c =
     (case c of
        CreateEnum _ \<Rightarrow> ''enum'' | RenameEnum _ _ \<Rightarrow> ''enum''
      | AddEnumValue _ _ \<Rightarrow> ''enum'' | DropEnum _ \<Rightarrow> ''enum''
      | CreateTable _ \<Rightarrow> ''schema'' | DropTable _ _ \<Rightarrow> ''schema'' | RenameTable _ _ \<Rightarrow> ''schema''
      | AddColumn _ _ \<Rightarrow> ''schema'' | DropColumn _ _ _ \<Rightarrow> ''schema''
      | RenameColumn _ _ _ \<Rightarrow> ''schema'' | AlterColumnType _ _ _ _ \<Rightarrow> ''schema''
      | CreateIndex _ _ \<Rightarrow> ''index'' | DropIndex _ _ \<Rightarrow> ''index''
      | AddForeignKey _ _ \<Rightarrow> ''foreign_key'' | DropForeignKey _ _ _ \<Rightarrow> ''foreign_key''
      | ModifyForeignKey _ _ _ _ _ \<Rightarrow> ''foreign_key''
      | _ \<Rightarrow> ''constraint'')"

text \<open>The dashes of the messages, as UTF-8.\<close>

definition en_dash :: string where
  "en_dash = [CHR 0xE2, CHR 0x80, CHR 0x93]"

definition em_dash :: string where
  "em_dash = [CHR 0xE2, CHR 0x80, CHR 0x94]"

definition q1 :: "string \<Rightarrow> string" where
  "q1 s = [CHR 0x27] @ s @ [CHR 0x27]"

definition fk_kind_desc :: "foreign_key_def \<Rightarrow> foreign_key_def \<Rightarrow> string \<Rightarrow> string" where
  "fk_kind_desc fk prev kind =
     (if kind = ''target'' then
        ''changed target from '' @ fk_ref_table prev @ '' to '' @ fk_ref_table fk
      else if kind = ''columns'' then ''columns changed''
      else if kind = ''ref_columns'' then ''referenced columns changed''
      else if kind = ''on_delete'' then
        ''ON DELETE changed from '' @ fk_action_to_sql (fk_on_delete prev) @ '' to '' @
        fk_action_to_sql (fk_on_delete fk)
      else if kind = ''on_update'' then
        ''ON UPDATE changed from '' @ fk_action_to_sql (fk_on_update prev) @ '' to '' @
        fk_action_to_sql (fk_on_update fk)
      else ''multiple attributes changed'')"

fun reason_of :: "schema_change \<Rightarrow> string" where
  "reason_of (CreateEnum e) = ''Create new enum type '' @ q1 (en_name e)"
| "reason_of (RenameEnum fr to) = ''Rename enum type '' @ q1 fr @ '' to '' @ q1 to"
| "reason_of (AddEnumValue n v) = ''Add value '' @ q1 v @ '' to enum '' @ q1 n"
| "reason_of (DropEnum n) = ''Drop enum type '' @ q1 n @ '' '' @ en_dash @ '' irreversible data loss''"
| "reason_of (CreateTable t) = ''Create new table '' @ q1 (tbl_name t)"
| "reason_of (DropTable n p) = ''Drop table '' @ q1 n @ '' '' @ en_dash @ '' all data lost''"
| "reason_of (RenameTable fr to) = ''Rename table '' @ q1 fr @ '' to '' @ q1 to"
| "reason_of (AddColumn t c) = ''Add column '' @ q1 (qual_object t (col_name c))"
| "reason_of (DropColumn t c p) =
     ''Drop column '' @ q1 (qual_object t c) @ '' '' @ en_dash @ '' data lost''"
| "reason_of (RenameColumn t fr to) = ''Rename column '' @ q1 (qual_object t fr) @ '' to '' @ q1 to"
| "reason_of (AlterColumnType t c fr to) =
     ''Change type of '' @ q1 (qual_object t c) @ '' from '' @ to_ddl fr @ '' to '' @ to_ddl to @
     '' '' @ en_dash @ '' possible data loss''"
| "reason_of (SetNotNull t c d ty) = ''Make '' @ q1 (qual_object t c) @ '' required (NOT NULL)''"
| "reason_of (DropNotNull t c) = ''Allow NULL in '' @ q1 (qual_object t c)"
| "reason_of (SetDefault t c d) =
     ''Set default value for '' @ q1 (qual_object t c) @ '' to '' @ default_to_sql d"
| "reason_of (DropDefault t c) = ''Remove default value from '' @ q1 (qual_object t c)"
| "reason_of (AddPrimaryKey t n cs) = ''Add primary key on '' @ t @ ''('' @ str_join '', '' cs @ '')''"
| "reason_of (DropPrimaryKey t n) = ''Drop primary key on '' @ t"
| "reason_of (AddUnique t n cs) =
     ''Add unique constraint on '' @ t @ ''('' @ str_join '', '' cs @ '')''"
| "reason_of (DropUnique t n) = ''Drop unique constraint '' @ n @ '' on '' @ t"
| "reason_of (AddCheck t n e) = ''Add check constraint on '' @ t @ '': '' @ e"
| "reason_of (DropCheck t n) = ''Drop check constraint '' @ n @ '' on '' @ t"
| "reason_of (CreateIndex t i) = ''Create index on '' @ t @ ''('' @ str_join '', '' (idx_columns i) @ '')''"
| "reason_of (DropIndex t n) = ''Drop index '' @ n @ '' on '' @ t"
| "reason_of (AddForeignKey t fk) =
     ''Add foreign key '' @ fk_name fk @ '' on '' @ t @ '' referencing '' @ fk_ref_table fk"
| "reason_of (DropForeignKey t n p) = ''Drop foreign key '' @ n @ '' on '' @ t"
| "reason_of (ModifyForeignKey t cn fk prev kind) =
     ''Modify foreign key '' @ fk_name fk @ '' on '' @ t @ '' '' @ em_dash @ '' '' @
     fk_kind_desc fk prev kind"

definition severity_of :: "risk \<Rightarrow> string" where
  "severity_of r = (case r of Safe \<Rightarrow> ''safe'' | Risky \<Rightarrow> ''risky'' | Destructive \<Rightarrow> ''destructive'')"

definition from_change :: "schema_change \<Rightarrow> nat \<Rightarrow> string \<Rightarrow> planned_change" where
  "from_change c index migration_id =
     \<lparr>pc_change = c, pc_risk = classify_risk c, pc_up_sql = change_to_up_sql c,
      pc_down_sql = change_to_down_sql c, pc_requires_approval = (classify_risk c = Destructive),
      pc_change_id = migration_id @ ''_'' @ show_nat index, pc_category = category_of c,
      pc_severity = severity_of (classify_risk c), pc_reason = reason_of c,
      pc_affected_objects = affected_objects_for c,
      pc_requires_backup = (classify_risk c = Destructive),
      pc_can_auto_rollback = (change_to_down_sql c \<noteq> None),
      pc_depends_on = [], pc_component_id = 0, pc_affected_rows = None\<rparr>"

text \<open>\<open>&self.up_sql[..77]\<close> panics when byte 77 is inside a character (\<open>None\<close>).\<close>

definition is_char_boundary :: "string \<Rightarrow> nat \<Rightarrow> bool" where
  "is_char_boundary s i \<longleftrightarrow>
     i = 0 \<or> i = length s \<or> (i < length s \<and> \<not> (128 \<le> byte (s ! i) \<and> byte (s ! i) < 192))"

definition up_sql_preview :: "planned_change \<Rightarrow> string option" where
  "up_sql_preview p =
     (if 80 < length (pc_up_sql p)
      then (if is_char_boundary (pc_up_sql p) 77 then Some (take 77 (pc_up_sql p) @ ''...'') else None)
      else Some (pc_up_sql p))"

definition sort_by_dependency :: "planned_change list \<Rightarrow> planned_change list" where
  "sort_by_dependency ps = sort_key (\<lambda>p. change_order (pc_change p)) ps"

section \<open>The dependency graph\<close>

definition creator_key :: "schema_change \<Rightarrow> string option" where
  "creator_key c =
     (case c of CreateTable t \<Rightarrow> Some (tbl_name t) | CreateEnum e \<Rightarrow> Some (en_name e)
      | RenameTable fr to \<Rightarrow> Some to | _ \<Rightarrow> None)"

definition creators :: "planned_change list \<Rightarrow> string \<Rightarrow> nat list" where
  "creators ps key = filter (\<lambda>i. creator_key (pc_change (ps ! i)) = Some key) [0..<length ps]"

definition lookup_key :: "string \<Rightarrow> string" where
  "lookup_key obj = (case before_char (CHR ''.'') obj of Some pre \<Rightarrow> pre | None \<Rightarrow> obj)"

definition depend_edges :: "planned_change list \<Rightarrow> nat \<Rightarrow> nat list" where
  "depend_edges ps i =
     foldl push_new []
       (filter (\<lambda>j. j \<noteq> i)
         (concat (map (\<lambda>obj. creators ps (lookup_key obj)) (pc_affected_objects (ps ! i)))))"

text \<open>A search visits the unvisited successors of a node in order: they are marked and handed to
  the queue (at its back) or the stack (one by one on its top).\<close>

fun visit_new :: "nat list \<Rightarrow> nat list \<Rightarrow> nat list \<times> nat list" where
  "visit_new visited [] = (visited, [])"
| "visit_new visited (y # ys) =
     (if y \<in> set visited then visit_new visited ys
      else case visit_new (y # visited) ys of (v, new) \<Rightarrow> (v, y # new))"

lemma visit_new_cons [simp]:
  "y \<in> set visited \<Longrightarrow> visit_new visited (y # ys) = visit_new visited ys"
  "y \<notin> set visited \<Longrightarrow> visit_new visited (y # ys) =
     (fst (visit_new (y # visited) ys), y # snd (visit_new (y # visited) ys))"
  by (simp_all add: case_prod_beta)

declare visit_new.simps(2) [simp del]

lemma fst_visit_new: "fst (visit_new visited ys) = rev (snd (visit_new visited ys)) @ visited"
proof (induction visited ys rule: visit_new.induct)
  case (2 visited y ys)
  then show ?case by (cases "y \<in> set visited") simp_all
qed simp

lemma set_snd_visit_new: "set (snd (visit_new visited ys)) = set ys - set visited"
proof (induction visited ys rule: visit_new.induct)
  case (2 visited y ys)
  then show ?case by (cases "y \<in> set visited") auto
qed simp

lemma distinct_snd_visit_new: "distinct (snd (visit_new visited ys))"
proof (induction visited ys rule: visit_new.induct)
  case (2 visited y ys)
  then show ?case by (cases "y \<in> set visited") (auto simp: set_snd_visit_new)
qed simp

lemma visit_new_visited: "visit_new visited ys = (v, new) \<Longrightarrow> v = rev new @ visited"
  using fst_visit_new [of visited ys] by simp

lemma set_visit_new: "visit_new visited ys = (v, new) \<Longrightarrow> set new = set ys - set visited"
  using set_snd_visit_new [of visited ys] by simp

lemma distinct_visit_new: "visit_new visited ys = (v, new) \<Longrightarrow> distinct new"
  using distinct_snd_visit_new [of visited ys] by simp

definition succs :: "nat list list \<Rightarrow> nat \<Rightarrow> nat list" where
  "succs adj x = (if x < length adj then adj ! x else [])"

definition graph_nodes :: "nat list list \<Rightarrow> nat set" where
  "graph_nodes adj = {..<length adj} \<union> (\<Union>ys\<in>set adj. set ys)"

lemma finite_graph_nodes [simp]: "finite (graph_nodes adj)"
  by (simp add: graph_nodes_def)

lemma succs_graph_nodes: "set (succs adj x) \<subseteq> graph_nodes adj"
  unfolding succs_def graph_nodes_def by (cases "x < length adj") (use nth_mem in force)+

definition search_measure :: "nat list list \<Rightarrow> nat list \<Rightarrow> nat list \<Rightarrow> nat" where
  "search_measure adj frontier visited = 2 * card (graph_nodes adj - set visited) + length frontier"

lemma search_measure_decreases:
  assumes "visit_new visited (succs adj x) = (v, new)" and "length frontier' = length rest + length new"
  shows "search_measure adj frontier' v < search_measure adj (x # rest) visited"
proof -
  have new: "set new \<subseteq> graph_nodes adj - set visited"
    using set_visit_new [OF assms(1)] succs_graph_nodes [of adj x] by blast
  have d: "distinct new" by (rule distinct_visit_new [OF assms(1)])
  have v: "graph_nodes adj - set v = (graph_nodes adj - set visited) - set new"
    using visit_new_visited [OF assms(1)] by auto
  have "card (graph_nodes adj - set v) = card (graph_nodes adj - set visited) - length new"
    unfolding v by (simp add: card_Diff_subset [OF _ new] distinct_card [OF d])
  moreover have "length new \<le> card (graph_nodes adj - set visited)"
    using card_mono [OF _ new] by (simp add: distinct_card [OF d])
  ultimately show ?thesis
    using assms(2) by (simp add: search_measure_def)
qed

lemmas search_measure_step = search_measure_decreases [OF sym]

text \<open>The queue of phase 3 (\<open>pop_front\<close>, \<open>push_back\<close>); the nodes it pops, in order.\<close>

function bfs_loop :: "nat list list \<Rightarrow> nat list \<Rightarrow> nat list \<Rightarrow> nat list" where
  "bfs_loop adj [] visited = []"
| "bfs_loop adj (cur # queue) visited =
     (case visit_new visited (succs adj cur) of
        (v, new) \<Rightarrow> cur # bfs_loop adj (queue @ new) v)"
  by pat_completeness auto
termination
  by (relation "measure (\<lambda>(adj, q, v). search_measure adj q v)")
    (auto intro: search_measure_step)

definition transitive_deps_of :: "nat list list \<Rightarrow> nat \<Rightarrow> nat list" where
  "transitive_deps_of dep i =
     (case visit_new [] (succs dep i) of (visited, queue) \<Rightarrow> bfs_loop dep queue visited)"

definition transitive_deps :: "planned_change list \<Rightarrow> nat list list" where
  "transitive_deps ps =
     (let dep = map (depend_edges ps) [0..<length ps]
      in map (transitive_deps_of dep) [0..<length ps])"

section \<open>The undirected graph\<close>

definition add_undirected :: "nat list list \<Rightarrow> nat \<times> nat \<Rightarrow> nat list list" where
  "add_undirected adj e =
     (let (a, b) = e; adj1 = adj[a := push_new (adj ! a) b] in adj1[b := push_new (adj1 ! b) a])"

definition dep_pairs :: "nat list list \<Rightarrow> (nat \<times> nat) list" where
  "dep_pairs tdeps = concat (map (\<lambda>i. map (Pair i) (tdeps ! i)) [0..<length tdeps])"

definition fk_pairs :: "planned_change list \<Rightarrow> (nat \<times> nat) list" where
  "fk_pairs ps =
     concat (map (\<lambda>i. case pc_change (ps ! i) of
        AddForeignKey table fk \<Rightarrow>
          map (Pair i) (filter (\<lambda>j. j \<noteq> i \<and>
             list_ex (\<lambda>obj. lookup_key obj = table \<or> lookup_key obj = fk_ref_table fk)
               (pc_affected_objects (ps ! j))) [0..<length ps])
      | _ \<Rightarrow> []) [0..<length ps])"

definition is_table_name :: "planned_change list \<Rightarrow> string \<Rightarrow> bool" where
  "is_table_name ps name =
     list_ex (\<lambda>p. case pc_change p of CreateTable t \<Rightarrow> tbl_name t = name
                   | RenameTable fr to \<Rightarrow> to = name | _ \<Rightarrow> False) ps"

definition is_enum_name :: "planned_change list \<Rightarrow> string \<Rightarrow> bool" where
  "is_enum_name ps name =
     list_ex (\<lambda>p. case pc_change p of CreateEnum e \<Rightarrow> en_name e = name | _ \<Rightarrow> False) ps"

definition cross_pairs :: "planned_change list \<Rightarrow> (nat \<times> nat) list" where
  "cross_pairs ps =
     concat (map (\<lambda>i. concat (map (\<lambda>obj.
        if is_table_name ps (lookup_key obj) \<and> is_enum_name ps (lookup_key obj)
        then concat (map (\<lambda>j. if i = j then []
               else map (\<lambda>other. (i, j))
                 (filter (\<lambda>other. lookup_key other = lookup_key obj) (pc_affected_objects (ps ! j))))
               [0..<length ps])
        else []) (pc_affected_objects (ps ! i)))) [0..<length ps])"

text \<open>The key an object has in \<open>table_to_changes\<close>; objects of a pseudo-prefix have none.\<close>

definition table_key :: "string \<Rightarrow> string option" where
  "table_key obj =
     (case before_char (CHR ''.'') obj of
        Some pre \<Rightarrow>
          if take 3 (rev pre) = rev ''.fk'' \<or> starts_with obj ''fk.'' then None else Some pre
      | None \<Rightarrow> Some obj)"

definition has_table_key :: "planned_change \<Rightarrow> string \<Rightarrow> bool" where
  "has_table_key p key = list_ex (\<lambda>obj. table_key obj = Some key) (pc_affected_objects p)"

definition all_table_keys :: "planned_change list \<Rightarrow> string list" where
  "all_table_keys ps =
     remdups (concat (map (\<lambda>p. List.map_filter table_key (pc_affected_objects p)) ps))"

definition changes_with_key :: "planned_change list \<Rightarrow> string \<Rightarrow> nat list" where
  "changes_with_key ps key = filter (\<lambda>i. has_table_key (ps ! i) key) [0..<length ps]"

fun pairs_of :: "nat list \<Rightarrow> (nat \<times> nat) list" where
  "pairs_of [] = []"
| "pairs_of (a # is) = map (Pair a) is @ pairs_of is"

definition same_table_pairs :: "(string list \<Rightarrow> string list) \<Rightarrow> planned_change list \<Rightarrow> (nat \<times> nat) list" where
  "same_table_pairs ord ps =
     concat (map (\<lambda>key. pairs_of (changes_with_key ps key)) (ord (all_table_keys ps)))"

definition all_pairs :: "(string list \<Rightarrow> string list) \<Rightarrow> planned_change list \<Rightarrow> (nat \<times> nat) list" where
  "all_pairs ord ps =
     dep_pairs (transitive_deps ps) @ fk_pairs ps @ cross_pairs ps @ same_table_pairs ord ps"

definition undirected_adj :: "(string list \<Rightarrow> string list) \<Rightarrow> planned_change list \<Rightarrow> nat list list" where
  "undirected_adj ord ps = foldl add_undirected (replicate (length ps) []) (all_pairs ord ps)"

section \<open>Connected components\<close>

text \<open>The stack of phase 5 (\<open>pop\<close> and \<open>push\<close> at the top, the head of the list). A popped node gets
  the current component number.\<close>

function dfs_loop ::
    "nat list list \<Rightarrow> nat \<Rightarrow> nat list \<Rightarrow> nat list \<Rightarrow> nat list \<Rightarrow> nat list \<times> nat list" where
  "dfs_loop adj cid [] visited ids = (visited, ids)"
| "dfs_loop adj cid (node # stack) visited ids =
     (case visit_new visited (succs adj node) of
        (v, new) \<Rightarrow> dfs_loop adj cid (rev new @ stack) v (ids[node := cid]))"
  by pat_completeness auto
termination
  by (relation "measure (\<lambda>(adj, c, st, v, ids). search_measure adj st v)")
    (auto intro: search_measure_step)

fun component_loop :: "nat list list \<Rightarrow> nat list \<Rightarrow> nat \<Rightarrow> nat list \<Rightarrow> nat list \<Rightarrow> nat list" where
  "component_loop adj [] counter visited ids = ids"
| "component_loop adj (start # starts) counter visited ids =
     (if start \<in> set visited then component_loop adj starts counter visited ids
      else case dfs_loop adj (Suc counter) [start] (start # visited) ids of
             (visited', ids') \<Rightarrow> component_loop adj starts (Suc counter) visited' ids')"

definition component_ids :: "nat list list \<Rightarrow> nat list" where
  "component_ids adj = component_loop adj [0..<length adj] 0 [] (replicate (length adj) 0)"

definition compute_dependencies_and_components ::
    "(string list \<Rightarrow> string list) \<Rightarrow> planned_change list \<Rightarrow> planned_change list" where
  "compute_dependencies_and_components ord ps =
     (let tdeps = transitive_deps ps; ids = component_ids (undirected_adj ord ps)
      in map (\<lambda>i. (ps ! i)\<lparr>pc_depends_on := map (\<lambda>j. pc_change_id (ps ! j)) (tdeps ! i),
                           pc_component_id := ids ! i\<rparr>) [0..<length ps])"

section \<open>Batches\<close>

definition actual_table_names :: "planned_change list \<Rightarrow> string list" where
  "actual_table_names ps =
     concat (map (\<lambda>p. case pc_change p of CreateTable t \<Rightarrow> [tbl_name t]
                        | RenameTable fr to \<Rightarrow> [to] | _ \<Rightarrow> []) ps)"

definition batch_description :: "string list \<Rightarrow> string" where
  "batch_description tables =
     (if tables = [] then ''Schema changes''
      else if length tables = 1 then ''Changes to '' @ tables ! 0
      else if length tables \<le> 3 then ''Changes to '' @ str_join '', '' tables
      else ''Changes to '' @ tables ! 0 @ '' and '' @ show_nat (length tables - 1) @ '' other(s)'')"

definition count_risk :: "risk \<Rightarrow> planned_change list \<Rightarrow> nat" where
  "count_risk r ms = length (filter (\<lambda>m. pc_risk m = r) ms)"

definition build_batch :: "planned_change list \<Rightarrow> nat \<Rightarrow> change_batch option" where
  "build_batch ps comp_id =
     (let members = filter (\<lambda>p. pc_component_id p = comp_id) ps;
          tables = sort (remdups (filter (\<lambda>obj. obj \<in> set (actual_table_names ps))
                     (concat (map pc_affected_objects members))))
      in if members = [] then None
         else Some \<lparr>cb_component_id = comp_id, cb_change_ids = map pc_change_id members,
                    cb_is_chained = (1 < length members),
                    cb_description = batch_description tables,
                    cb_summary = \<lparr>bs_total = length members, bs_safe_count = count_risk Safe members,
                                  bs_risky_count = count_risk Risky members,
                                  bs_destructive_count = count_risk Destructive members,
                                  bs_affected_tables = tables\<rparr>\<rparr>)"

definition build_batches :: "planned_change list \<Rightarrow> nat \<Rightarrow> change_batch list" where
  "build_batches ps component_count = List.map_filter (build_batch ps) [1..<Suc component_count]"

section \<open>The plan\<close>

definition plan_changes :: "(string list \<Rightarrow> string list) \<Rightarrow> string \<Rightarrow> schema_change list \<Rightarrow> planned_change list" where
  "plan_changes ord timestamp changes =
     compute_dependencies_and_components ord
       (sort_by_dependency (map (\<lambda>(i, c). from_change c i timestamp) (enumerate 0 changes)))"

definition build_plan ::
    "(string list \<Rightarrow> string list) \<Rightarrow> (string \<Rightarrow> string) \<Rightarrow> string \<Rightarrow> schema_change list \<Rightarrow> migration_plan" where
  "build_plan ord sha256_hex timestamp changes =
     (let planned = plan_changes ord timestamp changes;
          component_count = foldl max 0 (map pc_component_id planned)
      in \<lparr>mp_id = timestamp, mp_changes = planned,
          mp_checksum = sha256_hex (str_join nl (map pc_up_sql planned)),
          mp_component_count = component_count,
          mp_batches = build_batches planned component_count\<rparr>)"

text \<open>The scripts of a plan (sql.rs).\<close>

definition generate_up_sql :: "migration_plan \<Rightarrow> string" where
  "generate_up_sql plan = str_join nl (map pc_up_sql (mp_changes plan))"

definition generate_down_sql :: "migration_plan \<Rightarrow> string" where
  "generate_down_sql plan = str_join nl (List.map_filter pc_down_sql (rev (mp_changes plan)))"

end
