(* ===== verification/Mig_Execute.thy ===== *)
theory Mig_Execute
  imports Mig_Plan
begin

text \<open>
  The migration executor (crates/doo_migrate/src/execute.rs) and the history records it writes
  (history.rs): splitting a script into statements, executing them one by one, the advisory lock,
  the idempotency check, and the rollback. PostgreSQL is an argument: a \<open>database\<close> answers each
  command and query from a state of its own. Every function returns the result of the source's
  \<open>Result\<close> and the world after it, which holds the state of the database and the commands and
  queries sent so far, in order. What is printed to the terminal is not modelled.
\<close>

section \<open>The database\<close>

datatype command =
    AcquireLock int
  | ReleaseLock int
  | SimpleQuery string
  | RecordFailure string string string
  | RecordSuccess string string int string string
  | MarkRolledBack string

datatype event = Command command | AskStatus string | AskApplied nat

record 'd database =
  db_command :: "command \<Rightarrow> 'd \<Rightarrow> (string + unit) \<times> 'd"
  db_status :: "string \<Rightarrow> 'd \<Rightarrow> (string + string option) \<times> 'd"
  db_applied :: "nat \<Rightarrow> 'd \<Rightarrow> (string + (string \<times> string option) list) \<times> 'd"

type_synonym 'd world = "'d \<times> event list"

definition send :: "'d database \<Rightarrow> string \<Rightarrow> command \<Rightarrow> 'd world \<Rightarrow> (string + unit) \<times> 'd world" where
  "send db what c w =
     (case db_command db c (fst w) of
        (Inl e, d) \<Rightarrow> (Inl (what @ e), (d, snd w @ [Command c]))
      | (Inr u, d) \<Rightarrow> (Inr u, (d, snd w @ [Command c])))"

definition ask_status :: "'d database \<Rightarrow> string \<Rightarrow> 'd world \<Rightarrow> (string + string option) \<times> 'd world" where
  "ask_status db mig w =
     (case db_status db mig (fst w) of
        (Inl e, d) \<Rightarrow> (Inl (''Failed to check migration status: '' @ e), (d, snd w @ [AskStatus mig]))
      | (Inr s, d) \<Rightarrow> (Inr s, (d, snd w @ [AskStatus mig])))"

definition ask_applied ::
    "'d database \<Rightarrow> nat \<Rightarrow> 'd world \<Rightarrow> (string + (string \<times> string option) list) \<times> 'd world" where
  "ask_applied db n w =
     (case db_applied db n (fst w) of
        (Inl e, d) \<Rightarrow> (Inl (''Failed to fetch migrations to rollback: '' @ e), (d, snd w @ [AskApplied n]))
      | (Inr rows, d) \<Rightarrow> (Inr rows, (d, snd w @ [AskApplied n])))"

section \<open>Splitting a script\<close>

text \<open>A quoted literal from after its opening quote: what is consumed, and what follows.\<close>

fun split_quoted :: "string \<Rightarrow> string \<times> string" where
  "split_quoted [] = ([], [])"
| "split_quoted (c # s) =
     (if c \<noteq> CHR 0x27 then (case split_quoted s of (body, rest) \<Rightarrow> (c # body, rest))
      else case s of
             d # s' \<Rightarrow> if d = CHR 0x27
                       then (case split_quoted s' of (body, rest) \<Rightarrow> (c # d # body, rest))
                       else ([c], s)
           | [] \<Rightarrow> ([c], []))"

lemma split_quoted_append: "split_quoted s = (body, rest) \<Longrightarrow> s = body @ rest"
  by (induction s arbitrary: body rest rule: split_quoted.induct)
    (auto split: if_splits list.splits prod.splits)

definition flush_statement :: "string \<Rightarrow> string list" where
  "flush_statement current =
     (let trimmed = trim current
      in if trimmed = [] then []
         else if last trimmed = CHR '';'' then [trimmed] else [trimmed @ '';''])"

function split_loop :: "string \<Rightarrow> string \<Rightarrow> string list" where
  "split_loop current [] = flush_statement current"
| "split_loop current (c # s) =
     (if c = CHR 0x27
      then (case split_quoted s of (body, rest) \<Rightarrow> split_loop (current @ c # body) rest)
      else if c = CHR '';'' then flush_statement current @ split_loop [] s
      else split_loop (current @ [c]) s)"
  by pat_completeness auto
termination
  by (relation "measure (\<lambda>(current, s). length s)")
    (auto dest!: split_quoted_append [OF sym])

definition split_sql_statements :: "string \<Rightarrow> string list" where
  "split_sql_statements sql = split_loop [] sql"

section \<open>Executing statements\<close>

definition wrap_statement :: "string \<Rightarrow> string" where
  "wrap_statement stmt = ''BEGIN;'' @ nl @ stmt @ nl @ ''COMMIT;''"

fun execute_statements :: "'d database \<Rightarrow> string list \<Rightarrow> 'd world \<Rightarrow> (string + unit) \<times> 'd world" where
  "execute_statements db [] w = (Inr (), w)"
| "execute_statements db (stmt # stmts) w =
     (case send db [] (SimpleQuery (wrap_statement stmt)) w of
        (Inl e, w') \<Rightarrow> (Inl (''SQL error: '' @ e @ nl @ ''  Statement: '' @ stmt), w')
      | (Inr _, w') \<Rightarrow> execute_statements db stmts w')"

definition execute_sql_batch :: "'d database \<Rightarrow> string \<Rightarrow> 'd world \<Rightarrow> (string + unit) \<times> 'd world" where
  "execute_sql_batch db sql w = execute_statements db (split_sql_statements sql) w"

section \<open>The lock and the history\<close>

definition advisory_lock_id :: int where
  "advisory_lock_id = 4242424242"

definition acquire_lock :: "'d database \<Rightarrow> 'd world \<Rightarrow> (string + unit) \<times> 'd world" where
  "acquire_lock db = send db ''Failed to acquire advisory lock: '' (AcquireLock advisory_lock_id)"

definition release_lock :: "'d database \<Rightarrow> 'd world \<Rightarrow> (string + unit) \<times> 'd world" where
  "release_lock db = send db ''Failed to release advisory lock: '' (ReleaseLock advisory_lock_id)"

definition record_failure ::
    "'d database \<Rightarrow> string \<Rightarrow> string \<Rightarrow> string \<Rightarrow> 'd world \<Rightarrow> (string + unit) \<times> 'd world" where
  "record_failure db mig checksum up_sql =
     send db ''Failed to record migration failure: '' (RecordFailure mig checksum up_sql)"

definition record_success ::
    "'d database \<Rightarrow> string \<Rightarrow> string \<Rightarrow> int \<Rightarrow> string \<Rightarrow> string \<Rightarrow> 'd world \<Rightarrow> (string + unit) \<times> 'd world" where
  "record_success db mig checksum duration up_sql down_sql =
     send db ''Failed to record migration success: '' (RecordSuccess mig checksum duration up_sql down_sql)"

section \<open>Forward execution\<close>

text \<open>The duration measured by the clock is an argument.\<close>

definition execute_with_lock ::
    "'d database \<Rightarrow> int \<Rightarrow> migration_plan \<Rightarrow> string \<Rightarrow> string \<Rightarrow> 'd world \<Rightarrow> (string + unit) \<times> 'd world" where
  "execute_with_lock db duration plan up_sql down_sql w =
     (case ask_status db (mp_id plan) w of
        (Inl e, w1) \<Rightarrow> (Inl e, w1)
      | (Inr applied, w1) \<Rightarrow>
          if applied = Some ''applied'' then (Inr (), w1)
          else (case execute_sql_batch db (trim up_sql) w1 of
                  (Inl e, w2) \<Rightarrow>
                    (Inl e, snd (record_failure db (mp_id plan) (mp_checksum plan) up_sql w2))
                | (Inr _, w2) \<Rightarrow>
                    record_success db (mp_id plan) (mp_checksum plan) duration up_sql down_sql w2))"

definition execute_migration ::
    "'d database \<Rightarrow> int \<Rightarrow> migration_plan \<Rightarrow> string \<Rightarrow> string \<Rightarrow> 'd world \<Rightarrow> (string + unit) \<times> 'd world" where
  "execute_migration db duration plan up_sql down_sql w =
     (case acquire_lock db w of
        (Inl e, w1) \<Rightarrow> (Inl e, w1)
      | (Inr _, w1) \<Rightarrow>
          (case execute_with_lock db duration plan up_sql down_sql w1 of
             (result, w2) \<Rightarrow> (result, snd (release_lock db w2))))"

section \<open>Rollback\<close>

definition rollback_script ::
    "'d database \<Rightarrow> string \<Rightarrow> string option \<Rightarrow> 'd world \<Rightarrow> (string + unit) \<times> 'd world" where
  "rollback_script db mig down_sql w =
     (case down_sql of
        Some sql \<Rightarrow>
          if sql = [] then (Inr (), w)
          else (case execute_sql_batch db sql w of
                  (Inl e, w1) \<Rightarrow> (Inl (''Rollback of '' @ mig @ '' failed: '' @ e), w1)
                | (Inr u, w1) \<Rightarrow> (Inr u, w1))
      | None \<Rightarrow> (Inl ''Irreversible migration encountered'', w))"

fun rollback_rows ::
    "'d database \<Rightarrow> (string \<times> string option) list \<Rightarrow> 'd world \<Rightarrow> (string + unit) \<times> 'd world" where
  "rollback_rows db [] w = (Inr (), w)"
| "rollback_rows db ((mig, down_sql) # rows) w =
     (case rollback_script db mig down_sql w of
        (Inl e, w1) \<Rightarrow> (Inl e, w1)
      | (Inr _, w1) \<Rightarrow>
          (case send db ''Failed to update migration status: '' (MarkRolledBack mig) w1 of
             (Inl e, w2) \<Rightarrow> (Inl e, w2)
           | (Inr _, w2) \<Rightarrow> rollback_rows db rows w2))"

definition rollback_with_lock :: "'d database \<Rightarrow> nat \<Rightarrow> 'd world \<Rightarrow> (string + unit) \<times> 'd world" where
  "rollback_with_lock db n w =
     (case ask_applied db n w of
        (Inl e, w1) \<Rightarrow> (Inl e, w1)
      | (Inr rows, w1) \<Rightarrow> rollback_rows db rows w1)"

definition rollback_migrations :: "'d database \<Rightarrow> nat \<Rightarrow> 'd world \<Rightarrow> (string + unit) \<times> 'd world" where
  "rollback_migrations db n w =
     (case acquire_lock db w of
        (Inl e, w1) \<Rightarrow> (Inl e, w1)
      | (Inr _, w1) \<Rightarrow>
          (case rollback_with_lock db n w1 of
             (result, w2) \<Rightarrow> (result, snd (release_lock db w2))))"

end
