(* ===== verification/Mig_Graph.thy ===== *)
theory Mig_Graph
  imports Mig_Plan
begin

text \<open>
  The two searches of the planner (the queue of the transitive closure and the stack of the
  connected components) satisfy one contract, the locale \<open>worklist_search\<close>: what they visit is
  what is reachable. Both are interpreted here, and the results carried to
  \<open>transitive_deps\<close> and \<open>component_ids\<close>.
\<close>

definition edges :: "nat list list \<Rightarrow> (nat \<times> nat) set" where
  "edges adj = {(x, y). y \<in> set (succs adj x)}"

lemma edges_iff [simp]: "(x, y) \<in> edges adj \<longleftrightarrow> y \<in> set (succs adj x)"
  by (simp add: edges_def)

lemma edges_code: "edges adj = {(x, y). x < length adj \<and> y \<in> set (adj ! x)}"
  by (auto simp: edges_def succs_def split: if_splits)

section \<open>The contract of a worklist search\<close>

locale worklist_search =
  fixes run :: "nat list list \<Rightarrow> nat list \<Rightarrow> nat list \<Rightarrow> nat list"
    and merge :: "nat list \<Rightarrow> nat list \<Rightarrow> nat list"
  assumes mset_merge: "mset (merge rest new) = mset rest + mset new"
    and run_Nil: "run adj [] visited = []"
    and run_Cons: "run adj (x # rest) visited =
      x # run adj (merge rest (snd (visit_new visited (succs adj x))))
            (fst (visit_new visited (succs adj x)))"
begin

lemma set_merge: "set (merge rest new) = set rest \<union> set new"
  by (metis mset_merge set_mset_mset set_mset_union)

lemma distinct_merge: "distinct (merge rest new) \<longleftrightarrow> distinct (rest @ new)"
  using mset_merge [of rest new] by (metis mset_append mset_eq_imp_distinct_iff)

lemma length_merge: "length (merge rest new) = length rest + length new"
  by (metis mset_merge size_mset size_union)

lemma run_decreases:
  "search_measure adj (merge rest (snd (visit_new visited (succs adj x))))
     (fst (visit_new visited (succs adj x))) < search_measure adj (x # rest) visited"
  by (rule search_measure_decreases) (simp_all add: length_merge prod_eq_iff)

lemma run_induct [case_names Nil Cons]:
  assumes "\<And>visited. P [] visited"
    and "\<And>x rest visited.
      P (merge rest (snd (visit_new visited (succs adj x)))) (fst (visit_new visited (succs adj x))) \<Longrightarrow>
      P (x # rest) visited"
  shows "P frontier visited"
proof (induction "search_measure adj frontier visited" arbitrary: frontier visited rule: less_induct)
  case less
  show ?case
  proof (cases frontier)
    case Nil
    then show ?thesis using assms(1) by simp
  next
    case (Cons x rest)
    show ?thesis
      unfolding Cons
      by (rule assms(2), rule less, unfold Cons, rule run_decreases)
  qed
qed

definition ready :: "nat list list \<Rightarrow> nat list \<Rightarrow> nat list \<Rightarrow> bool" where
  "ready adj frontier visited \<longleftrightarrow>
     distinct frontier \<and> set frontier \<subseteq> set visited \<and>
     edges adj `` (set visited - set frontier) \<subseteq> set visited"

lemma ready_step:
  assumes "ready adj (x # rest) visited"
  shows "ready adj (merge rest (snd (visit_new visited (succs adj x))))
    (fst (visit_new visited (succs adj x)))"
proof -
  let ?v = "set visited" and ?new = "set (succs adj x) - set visited"
  have "edges adj `` (?v \<union> ?new - (set rest \<union> ?new)) \<subseteq>
      edges adj `` {x} \<union> edges adj `` (?v - set (x # rest))"
    by auto
  also have "\<dots> \<subseteq> ?v \<union> ?new"
    using assms by (auto simp: ready_def)
  finally show ?thesis
    using assms by (auto simp: ready_def set_merge distinct_merge fst_visit_new set_snd_visit_new
        distinct_snd_visit_new Un_commute)
qed

lemma rtrancl_within:
  assumes "ready adj frontier visited" and "(a, b) \<in> (edges adj)\<^sup>*" and "a \<in> set visited"
  shows "b \<in> set visited \<union> (edges adj)\<^sup>* `` set frontier"
  using assms(2,3)
proof (induction rule: rtrancl_induct)
  case (step y z)
  then consider "y \<in> set visited - set frontier" | "y \<in> (edges adj)\<^sup>* `` set frontier"
    by blast
  then show ?case
  proof cases
    case 1
    then show ?thesis using step(2) assms(1) unfolding ready_def by blast
  next
    case 2
    then show ?thesis using step(2) by (blast intro: rtrancl_into_rtrancl)
  qed
qed simp

theorem run_reaches:
  "ready adj frontier visited \<Longrightarrow>
     set (run adj frontier visited) =
       set frontier \<union> ((edges adj)\<^sup>* `` set frontier - set visited)"
proof (induction frontier visited rule: run_induct [of _ adj])
  case (Cons x rest visited)
  let ?new = "set (succs adj x) - set visited"
  have "x \<in> set visited" "set rest \<subseteq> set visited"
    using Cons.prems by (auto simp: ready_def)
  have r': "ready adj (merge rest (snd (visit_new visited (succs adj x))))
    (fst (visit_new visited (succs adj x)))" by (rule ready_step [OF Cons.prems])
  have s: "set (run adj (x # rest) visited) =
      {x} \<union> (set rest \<union> ?new \<union> ((edges adj)\<^sup>* `` (set rest \<union> ?new) - (set visited \<union> ?new)))"
    using Cons.IH [OF r'] by (auto simp: run_Cons set_merge set_snd_visit_new fst_visit_new)
  have "?new \<subseteq> (edges adj)\<^sup>* `` {x}" by auto
  then have 1: "(edges adj)\<^sup>* `` ?new \<subseteq> (edges adj)\<^sup>* `` {x}"
    by (blast intro: rtrancl_trans)
  have 2: "(edges adj)\<^sup>* `` {x} \<subseteq> set visited \<union> ?new \<union> (edges adj)\<^sup>* `` (set rest \<union> ?new)"
    using rtrancl_within [OF r'] \<open>x \<in> set visited\<close>
    by (auto simp: set_merge set_snd_visit_new fst_visit_new)
  have "set (x # rest) \<union> ((edges adj)\<^sup>* `` set (x # rest) - set visited) =
      {x} \<union> set rest \<union> ((edges adj)\<^sup>* `` {x} \<union> (edges adj)\<^sup>* `` set rest - set visited)"
    by auto
  also have "\<dots> = {x} \<union> (set rest \<union> ?new \<union> ((edges adj)\<^sup>* `` (set rest \<union> ?new) - (set visited \<union> ?new)))"
    using 1 2 \<open>?new \<subseteq> (edges adj)\<^sup>* `` {x}\<close> by blast
  finally show ?case using s by simp
qed (simp add: run_Nil)

lemma frontier_popped: "set frontier \<subseteq> set (run adj frontier visited)"
proof (induction frontier visited rule: run_induct [of _ adj])
  case (Cons x rest visited)
  then show ?case by (auto simp: run_Cons set_merge)
qed simp

theorem distinct_run:
  "ready adj frontier visited \<Longrightarrow> distinct (run adj frontier visited)"
proof (induction frontier visited rule: run_induct [of _ adj])
  case (Cons x rest visited)
  note r' = ready_step [OF Cons.prems]
  have "x \<notin> set (run adj (merge rest (snd (visit_new visited (succs adj x))))
            (fst (visit_new visited (succs adj x))))"
    using Cons.prems unfolding run_reaches [OF r']
    by (auto simp: ready_def set_merge fst_visit_new set_snd_visit_new)
  then show ?case using Cons.IH [OF r'] by (simp add: run_Cons)
qed (simp add: run_Nil)

end

section \<open>The queue\<close>

interpretation bfs: worklist_search "bfs_loop" "(@)"
  by unfold_locales (simp_all add: case_prod_beta)

lemma ready_first:
  assumes "visit_new [] (succs adj x) = (visited, queue)"
  shows "bfs.ready adj queue visited"
  using visit_new_visited [OF assms] distinct_visit_new [OF assms] set_visit_new [OF assms]
  by (simp add: bfs.ready_def)

lemma set_transitive_deps_of: "set (transitive_deps_of adj x) = {y. (x, y) \<in> (edges adj)\<^sup>+}"
proof -
  obtain v q where q: "visit_new [] (succs adj x) = (v, q)" by fastforce
  have s1: "set q = edges adj `` {x}" using set_visit_new [OF q] by (simp add: set_eq_iff)
  have s2: "set v = set q" using visit_new_visited [OF q] by simp
  have "set (transitive_deps_of adj x) = set q \<union> ((edges adj)\<^sup>* `` set q - set v)"
    using bfs.run_reaches [OF ready_first [OF q]] by (simp add: transitive_deps_of_def q)
  also have "\<dots> = (edges adj)\<^sup>* `` (edges adj `` {x})"
    unfolding s2 s1 by blast
  also have "\<dots> = {y. (x, y) \<in> (edges adj)\<^sup>+}"
    by (auto simp: trancl_unfold_left)
  finally show ?thesis .
qed

lemma distinct_transitive_deps_of: "distinct (transitive_deps_of adj x)"
proof -
  obtain v q where q: "visit_new [] (succs adj x) = (v, q)" by fastforce
  show ?thesis
    using bfs.distinct_run [OF ready_first [OF q]] by (simp add: transitive_deps_of_def q)
qed

section \<open>The stack\<close>

text \<open>The nodes \<open>dfs_loop\<close> pops, in order.\<close>

function dfs_order :: "nat list list \<Rightarrow> nat list \<Rightarrow> nat list \<Rightarrow> nat list" where
  "dfs_order adj [] visited = []"
| "dfs_order adj (node # stack) visited =
     (case visit_new visited (succs adj node) of (v, new) \<Rightarrow> node # dfs_order adj (rev new @ stack) v)"
  by pat_completeness auto
termination
  by (relation "measure (\<lambda>(adj, st, v). search_measure adj st v)")
    (auto intro: search_measure_step)

interpretation dfs: worklist_search dfs_order "\<lambda>stack new. rev new @ stack"
  by unfold_locales (simp_all add: case_prod_beta)

lemma dfs_loop_ids:
  "snd (dfs_loop adj cid stack visited ids) =
     foldl (\<lambda>ids n. ids[n := cid]) ids (dfs_order adj stack visited)"
proof (induction stack visited arbitrary: ids rule: dfs.run_induct [of _ adj])
  case (Cons x rest visited)
  then show ?case by (simp add: case_prod_beta)
qed simp

lemma dfs_loop_visited:
  "set stack \<subseteq> set visited \<Longrightarrow>
     set (fst (dfs_loop adj cid stack visited ids)) = set visited \<union> set (dfs_order adj stack visited)"
proof (induction stack visited arbitrary: ids rule: dfs.run_induct [of _ adj])
  case (Cons x rest visited)
  have "set (rev (snd (visit_new visited (succs adj x))) @ rest) \<subseteq>
      set (fst (visit_new visited (succs adj x)))"
    using Cons.prems by (auto simp: fst_visit_new)
  then have "set (fst (dfs_loop adj cid (x # rest) visited ids)) =
      set (fst (visit_new visited (succs adj x))) \<union>
      set (dfs_order adj (rev (snd (visit_new visited (succs adj x))) @ rest)
            (fst (visit_new visited (succs adj x))))"
    using Cons.IH by (simp add: case_prod_beta)
  moreover have "set (snd (visit_new visited (succs adj x))) \<subseteq>
      set (dfs_order adj (rev (snd (visit_new visited (succs adj x))) @ rest)
            (fst (visit_new visited (succs adj x))))"
    using dfs.frontier_popped by fastforce
  ultimately show ?case
    using Cons.prems by (auto simp: case_prod_beta fst_visit_new)
qed simp

lemma foldl_update_nth:
  "i < length ids \<Longrightarrow>
     foldl (\<lambda>ids n. ids[n := c]) ids ns ! i = (if i \<in> set ns then c else ids ! i)"
  by (induction ns arbitrary: ids) (auto simp: nth_list_update)

lemma length_foldl_update: "length (foldl (\<lambda>ids n. ids[n := c]) ids ns) = length ids"
  by (induction ns arbitrary: ids) auto

section \<open>Connected components\<close>

definition sym_graph :: "nat list list \<Rightarrow> bool" where
  "sym_graph adj \<longleftrightarrow> sym (edges adj) \<and> edges adj \<subseteq> {..<length adj} \<times> {..<length adj}"

definition comp_inv :: "nat list list \<Rightarrow> nat \<Rightarrow> nat list \<Rightarrow> nat list \<Rightarrow> bool" where
  "comp_inv adj counter visited ids \<longleftrightarrow>
     length ids = length adj \<and> set visited \<subseteq> {..<length adj} \<and>
     edges adj `` set visited \<subseteq> set visited \<and>
     (\<forall>x\<in>set visited. \<forall>y\<in>set visited. ids ! x = ids ! y \<longleftrightarrow> (x, y) \<in> (edges adj)\<^sup>*) \<and>
     (\<lambda>x. ids ! x) ` set visited = {1..counter}"

lemma closed_rtrancl: "E `` A \<subseteq> A \<Longrightarrow> E\<^sup>* `` A \<subseteq> A"
  by (simp add: Image_closed_trancl)

lemma comp_inv_step:
  assumes "sym_graph adj" and "comp_inv adj counter visited ids"
    and "start < length adj" and "start \<notin> set visited"
    and "dfs_loop adj (Suc counter) [start] (start # visited) ids = (visited', ids')"
  shows "comp_inv adj (Suc counter) visited' ids' \<and> set visited' = set visited \<union> (edges adj)\<^sup>* `` {start}"
proof -
  let ?C = "(edges adj)\<^sup>* `` {start}" and ?n = "length adj"
  have closed: "(edges adj)\<^sup>* `` set visited \<subseteq> set visited"
    using assms(2) by (intro closed_rtrancl) (simp add: comp_inv_def)
  have symr: "sym ((edges adj)\<^sup>*)"
    using assms(1) by (simp add: sym_graph_def sym_rtrancl)
  have disj: "?C \<inter> set visited = {}"
    using closed assms(4) symD [OF symr] by blast
  have Cn: "?C \<subseteq> {..<?n}"
    using assms(1,3) by (auto simp: sym_graph_def elim: rtranclE)
  have r: "dfs.ready adj [start] (start # visited)"
    using assms(2,4) by (auto simp: dfs.ready_def comp_inv_def)
  have ord: "set (dfs_order adj [start] (start # visited)) = ?C"
    using dfs.run_reaches [OF r] disj by auto
  have v': "set visited' = set visited \<union> ?C"
    using dfs_loop_visited [of "[start]" "start # visited" adj "Suc counter" ids] assms(5) ord by auto
  have ids': "ids' = foldl (\<lambda>ids n. ids[n := Suc counter]) ids (dfs_order adj [start] (start # visited))"
    using dfs_loop_ids [of adj "Suc counter" "[start]" "start # visited" ids] assms(5) by simp
  have len: "length ids' = ?n"
    using assms(2) by (simp add: ids' length_foldl_update comp_inv_def)
  have nth: "ids' ! x = (if x \<in> ?C then Suc counter else ids ! x)" if "x < ?n" for x
    using that assms(2) by (simp add: ids' foldl_update_nth ord comp_inv_def del: dfs_order.simps)
  have old: "ids' ! x = ids ! x" if "x \<in> set visited" for x
  proof -
    have "x < ?n" "x \<notin> ?C" using that assms(2) disj by (auto simp: comp_inv_def)
    then show ?thesis by (simp add: nth del: Image_singleton_iff)
  qed
  have le: "ids' ! x \<in> {1..counter}" if "x \<in> set visited" for x
    using assms(2) that old [OF that] by (auto simp: comp_inv_def)
  have new: "ids' ! x = Suc counter" if "x \<in> ?C" for x
    using that nth [of x] Cn by auto
  have same: "ids' ! x = ids' ! y \<longleftrightarrow> (x, y) \<in> (edges adj)\<^sup>*"
    if xy: "x \<in> set visited'" "y \<in> set visited'" for x y
  proof -
    consider "x \<in> set visited" "y \<in> set visited" | "x \<in> ?C" "y \<in> ?C"
      | "x \<in> ?C" "y \<in> set visited" | "x \<in> set visited" "y \<in> ?C"
      using xy v' by blast
    then show ?thesis
    proof cases
      case 1
      then show ?thesis using assms(2) by (simp add: old comp_inv_def)
    next
      case 2
      then show ?thesis using new symD [OF symr] by (simp, meson rtrancl_trans)
    next
      case 3
      then show ?thesis using new [of x] le [of y] disj rtrancl_trans by fastforce
    next
      case 4
      then show ?thesis using new [of y] le [of x] disj closed by fastforce
    qed
  qed
  have "edges adj `` set visited' \<subseteq> set visited'"
    using assms(2) unfolding v' by (auto simp: comp_inv_def intro: rtrancl_into_rtrancl)
  moreover have "(\<lambda>x. ids' ! x) ` set visited' = {1..Suc counter}"
  proof -
    have "(\<lambda>x. ids' ! x) ` set visited = {1..counter}"
      using assms(2) by (simp add: old comp_inv_def cong: image_cong)
    moreover have "(\<lambda>x. ids' ! x) ` ?C = {Suc counter}"
      using new by auto
    ultimately show ?thesis unfolding v' image_Un by auto
  qed
  ultimately show ?thesis
    using same len v' Cn assms(2) unfolding comp_inv_def by auto
qed

lemma component_loop_inv:
  assumes "sym_graph adj" and "comp_inv adj counter visited ids" and "set starts \<subseteq> {..<length adj}"
  shows "\<exists>counter' visited'. comp_inv adj counter' visited' (component_loop adj starts counter visited ids)
    \<and> set visited \<union> set starts \<subseteq> set visited'"
  using assms
proof (induction adj starts counter visited ids rule: component_loop.induct)
  case (1 adj counter visited ids)
  then show ?case by auto
next
  case (2 adj start starts counter visited ids)
  show ?case
  proof (cases "start \<in> set visited")
    case True
    then show ?thesis using 2 by auto
  next
    case False
    obtain v' ids' where e: "dfs_loop adj (Suc counter) [start] (start # visited) ids = (v', ids')"
      by fastforce
    have start: "start < length adj" using 2(5) by simp
    have step: "comp_inv adj (Suc counter) v' ids'" "set v' = set visited \<union> (edges adj)\<^sup>* `` {start}"
      using comp_inv_step [OF 2(3,4) start False e] by auto
    obtain c'' v'' where "comp_inv adj c'' v'' (component_loop adj starts (Suc counter) v' ids')"
        "set v' \<union> set starts \<subseteq> set v''"
      using 2(2) [OF False e [symmetric] 2(3) step(1)] 2(5) by auto
    then show ?thesis using step(2) False
      by (intro exI [of _ c''] exI [of _ v'']) (auto simp: e simp del: dfs_loop.simps)
  qed
qed

lemma component_ids_inv:
  assumes "sym_graph adj"
  obtains counter visited where "comp_inv adj counter visited (component_ids adj)"
    and "set visited = {..<length adj}"
proof -
  have "comp_inv adj 0 [] (replicate (length adj) 0)"
    by (simp add: comp_inv_def)
  from component_loop_inv [OF assms this, of "[0..<length adj]"]
  obtain c v where "comp_inv adj c v (component_ids adj)" "{..<length adj} \<subseteq> set v"
    unfolding component_ids_def by (auto simp: lessThan_atLeast0)
  moreover have "set v = {..<length adj}"
    using calculation by (auto simp: comp_inv_def)
  ultimately show ?thesis using that by blast
qed

lemma component_ids_eq_iff:
  assumes "sym_graph adj" and "x < length adj" and "y < length adj"
  shows "component_ids adj ! x = component_ids adj ! y \<longleftrightarrow> (x, y) \<in> (edges adj)\<^sup>*"
proof -
  obtain c v where "comp_inv adj c v (component_ids adj)" "set v = {..<length adj}"
    by (rule component_ids_inv [OF assms(1)])
  then show ?thesis using assms(2,3) by (auto simp: comp_inv_def)
qed

lemma length_component_ids: "sym_graph adj \<Longrightarrow> length (component_ids adj) = length adj"
  by (rule component_ids_inv) (auto simp: comp_inv_def)

lemma set_component_ids:
  assumes "sym_graph adj"
  shows "\<exists>k. set (component_ids adj) = {1..k}"
proof -
  obtain c v where i: "comp_inv adj c v (component_ids adj)" "set v = {..<length adj}"
    by (rule component_ids_inv [OF assms])
  then have "(\<lambda>x. component_ids adj ! x) ` {..<length (component_ids adj)} = {1..c}"
    by (simp add: comp_inv_def)
  then show ?thesis by (metis list.set_map map_nth set_upt atLeast0LessThan)
qed

end
