(* ===== verification/Mig_Diff.thy ===== *)
theory Mig_Diff
  imports Mig_Change
begin

text \<open>
  The schema diff engine (crates/doo_migrate/src/diff.rs, with \<open>is_system_table\<close> of lib.rs):
  enums, tables, columns, keys, constraints and indexes of a current and a desired schema are
  compared and the changes collected in the order the source pushes them. The iteration order of
  every \<open>HashMap\<close> the source loops over is a field of \<open>hash_ord\<close>.
\<close>

section \<open>Iteration orders\<close>

record hash_ord =
  ho_enums_desired :: "string list \<Rightarrow> string list"
  ho_enums_current :: "string list \<Rightarrow> string list"
  ho_uniques_desired :: "string \<Rightarrow> string list list \<Rightarrow> string list list"
  ho_uniques_current :: "string \<Rightarrow> string list list \<Rightarrow> string list list"
  ho_indexes_desired :: "string \<Rightarrow> string list list \<Rightarrow> string list list"
  ho_indexes_current :: "string \<Rightarrow> string list list \<Rightarrow> string list list"
  ho_checks_desired :: "string \<Rightarrow> string list \<Rightarrow> string list"
  ho_checks_current :: "string \<Rightarrow> string list \<Rightarrow> string list"
  ho_fk_names :: "string \<Rightarrow> string list \<Rightarrow> string list"
  ho_fk_desired_keys :: "string \<Rightarrow> (string \<times> string list) list \<Rightarrow> (string \<times> string list) list"
  ho_fk_current_keys :: "string \<Rightarrow> (string \<times> string list) list \<Rightarrow> (string \<times> string list) list"

definition hash_ord_ok :: "hash_ord \<Rightarrow> bool" where
  "hash_ord_ok ho \<longleftrightarrow>
     perm_order (ho_enums_desired ho) \<and> perm_order (ho_enums_current ho) \<and>
     (\<forall>t. perm_order (ho_uniques_desired ho t) \<and> perm_order (ho_uniques_current ho t) \<and>
          perm_order (ho_indexes_desired ho t) \<and> perm_order (ho_indexes_current ho t) \<and>
          perm_order (ho_checks_desired ho t) \<and> perm_order (ho_checks_current ho t) \<and>
          perm_order (ho_fk_names ho t) \<and> perm_order (ho_fk_desired_keys ho t) \<and>
          perm_order (ho_fk_current_keys ho t))"

definition insertion_order :: hash_ord where
  "insertion_order = \<lparr>ho_enums_desired = (\<lambda>ks. ks), ho_enums_current = (\<lambda>ks. ks),
     ho_uniques_desired = (\<lambda>t ks. ks), ho_uniques_current = (\<lambda>t ks. ks),
     ho_indexes_desired = (\<lambda>t ks. ks), ho_indexes_current = (\<lambda>t ks. ks),
     ho_checks_desired = (\<lambda>t ks. ks), ho_checks_current = (\<lambda>t ks. ks),
     ho_fk_names = (\<lambda>t ks. ks), ho_fk_desired_keys = (\<lambda>t ks. ks),
     ho_fk_current_keys = (\<lambda>t ks. ks)\<rparr>"

lemma insertion_order_ok [simp]: "hash_ord_ok insertion_order"
  by (simp add: hash_ord_ok_def insertion_order_def)

section \<open>System tables\<close>

definition system_tables :: "string list" where
  "system_tables = [''doo_migrations'', ''webhook_deliveries'']"

definition is_system_table :: "string \<Rightarrow> bool" where
  "is_system_table name = list_ex (\<lambda>t. t = to_lowercase name) system_tables"

definition system_tables_sql_exclusion :: string where
  "system_tables_sql_exclusion =
     str_join '', '' (map (\<lambda>t. [CHR 0x27] @ t @ [CHR 0x27]) system_tables)"

definition skip_drop :: "string \<Rightarrow> bool" where
  "skip_drop name =
     (let lower = to_lowercase name
      in starts_with lower ''pg_'' \<or> starts_with lower ''sql_'' \<or> is_system_table lower)"

section \<open>Enums\<close>

definition enum_variants_match :: "enum_type_def \<Rightarrow> enum_type_def \<Rightarrow> bool" where
  "enum_variants_match a b \<longleftrightarrow>
     length (en_variants a) = length (en_variants b) \<and>
     list_all (\<lambda>(va, vb). va = vb) (zip (en_variants a) (en_variants b))"

definition enum_map :: "enum_type_def list \<Rightarrow> (string \<times> enum_type_def) list" where
  "enum_map es = map (\<lambda>e. (en_name e, e)) es"

definition find_enum_source ::
    "(string \<times> enum_type_def) list \<Rightarrow> (string \<Rightarrow> bool) \<Rightarrow> string list \<Rightarrow> enum_type_def \<Rightarrow> string option" where
  "find_enum_source cur in_desired matched d =
     map_option fst
       (find (\<lambda>(n, c). \<not> in_desired n \<and> n \<notin> set matched \<and> enum_variants_match c d) cur)"

text \<open>The rename loop: the pairs (from, to) it pushes, given the current names already matched.\<close>

fun enum_renames ::
    "(string \<times> enum_type_def) list \<Rightarrow> (string \<Rightarrow> bool) \<Rightarrow> (string \<Rightarrow> bool) \<Rightarrow> string list \<Rightarrow>
     (string \<times> enum_type_def) list \<Rightarrow> (string \<times> string) list" where
  "enum_renames cur in_current in_desired matched [] = []"
| "enum_renames cur in_current in_desired matched ((n, d) # ds) =
     (if in_current n then enum_renames cur in_current in_desired matched ds
      else case find_enum_source cur in_desired matched d of
             Some f \<Rightarrow> (f, n) # enum_renames cur in_current in_desired (f # matched) ds
           | None \<Rightarrow> enum_renames cur in_current in_desired matched ds)"

definition new_enum_values :: "enum_type_def \<Rightarrow> enum_type_def \<Rightarrow> string \<Rightarrow> schema_change list" where
  "new_enum_values c d name =
     map (AddEnumValue name) (filter (\<lambda>v. v \<notin> set (en_variants c)) (en_variants d))"

definition diff_enums :: "hash_ord \<Rightarrow> enum_type_def list \<Rightarrow> enum_type_def list \<Rightarrow> schema_change list" where
  "diff_enums ho current desired =
     (let cur = hm_iter (ho_enums_current ho) (enum_map current);
          des = hm_iter (ho_enums_desired ho) (enum_map desired);
          in_current = (\<lambda>n. hm_of (enum_map current) n \<noteq> None);
          in_desired = (\<lambda>n. hm_of (enum_map desired) n \<noteq> None);
          renames = enum_renames cur in_current in_desired [] des
      in map (\<lambda>(f, t). RenameEnum f t) renames @
         map (\<lambda>(n, d). CreateEnum d)
           (filter (\<lambda>(n, d). \<not> in_current n \<and> n \<notin> set (map snd renames)) des) @
         concat (map (\<lambda>(n, d). case hm_of (enum_map current) n of
                                 Some c \<Rightarrow> new_enum_values c d n | None \<Rightarrow> []) des))"

section \<open>Columns\<close>

definition col_map :: "column_def list \<Rightarrow> (string \<times> column_def) list" where
  "col_map cs = map (\<lambda>c. (col_name c, c)) cs"

fun column_renames ::
    "(string \<Rightarrow> bool) \<Rightarrow> (string \<Rightarrow> bool) \<Rightarrow> column_def list \<Rightarrow> string list \<Rightarrow> nat \<Rightarrow>
     column_def list \<Rightarrow> (string \<times> string) list" where
  "column_renames in_current in_desired cur renamed_from pos [] = []"
| "column_renames in_current in_desired cur renamed_from pos (d # ds) =
     (if \<not> in_current (col_name d) \<and> pos < length cur \<and>
         \<not> in_desired (col_name (cur ! pos)) \<and> col_sql_type (cur ! pos) = col_sql_type d \<and>
         col_name (cur ! pos) \<notin> set renamed_from
      then (col_name (cur ! pos), col_name d) #
           column_renames in_current in_desired cur (col_name (cur ! pos) # renamed_from) (Suc pos) ds
      else column_renames in_current in_desired cur renamed_from (Suc pos) ds)"

definition is_int_type :: "sql_type \<Rightarrow> bool" where
  "is_int_type t \<longleftrightarrow> t = SmallInt \<or> t = Integer \<or> t = BigInt"

definition is_serial_equiv :: "column_def \<Rightarrow> column_def \<Rightarrow> bool" where
  "is_serial_equiv c d \<longleftrightarrow>
     (col_is_auto c \<or> col_is_auto d) \<and>
     (let s = col_sql_type c; t = col_sql_type d
      in (s = Serial \<and> is_int_type t) \<or> (is_int_type s \<and> t = Serial) \<or>
         (s = BigSerial \<and> is_int_type t) \<or> (is_int_type s \<and> t = BigSerial) \<or>
         (s = Serial \<and> t = BigSerial) \<or> (s = BigSerial \<and> t = Serial))"

definition is_enum_rename :: "schema_change list \<Rightarrow> column_def \<Rightarrow> column_def \<Rightarrow> bool" where
  "is_enum_rename changes c d =
     (case (col_sql_type c, col_sql_type d) of
        (EnumT ce, EnumT de) \<Rightarrow> list_ex (\<lambda>ch. ch = RenameEnum ce de) changes
      | _ \<Rightarrow> False)"

definition diff_column_type :: "schema_change list \<Rightarrow> string \<Rightarrow> column_def \<Rightarrow> column_def \<Rightarrow> schema_change list" where
  "diff_column_type changes table c d =
     (if col_sql_type c \<noteq> col_sql_type d \<and> \<not> is_serial_equiv c d \<and> \<not> is_enum_rename changes c d
      then [AlterColumnType table (col_name d) (col_sql_type c) (col_sql_type d)] else [])"

definition diff_column_nullable :: "string \<Rightarrow> column_def \<Rightarrow> column_def \<Rightarrow> schema_change list" where
  "diff_column_nullable table c d =
     (if col_nullable c \<noteq> col_nullable d
      then (if col_nullable d then [DropNotNull table (col_name d)]
            else [SetNotNull table (col_name d) (col_default d) (col_sql_type d)])
      else [])"

definition diff_column_default :: "string \<Rightarrow> column_def \<Rightarrow> column_def \<Rightarrow> schema_change list" where
  "diff_column_default table c d =
     (case (col_default c, col_default d) of
        (None, Some nw) \<Rightarrow> [SetDefault table (col_name d) nw]
      | (Some _, None) \<Rightarrow> if \<not> col_is_auto d then [DropDefault table (col_name d)] else []
      | (Some old, Some nw) \<Rightarrow>
          if default_to_sql old \<noteq> default_to_sql nw then [SetDefault table (col_name d) nw] else []
      | (None, None) \<Rightarrow> [])"

text \<open>Returns the extended list of changes; the type test reads the list so far.\<close>

definition diff_column :: "string \<Rightarrow> column_def \<Rightarrow> column_def \<Rightarrow> schema_change list \<Rightarrow> schema_change list" where
  "diff_column table c d changes =
     changes @ diff_column_type changes table c d @ diff_column_nullable table c d @
     diff_column_default table c d"

section \<open>Keys and constraints\<close>

fun diff_primary_key ::
    "string \<Rightarrow> primary_key_def option \<Rightarrow> primary_key_def option \<Rightarrow> schema_change list" where
  "diff_primary_key table None (Some pk) = [AddPrimaryKey table (pk_name pk) (pk_columns pk)]"
| "diff_primary_key table (Some pk) None = [DropPrimaryKey table (pk_name pk)]"
| "diff_primary_key table (Some old) (Some new) =
     (if pk_columns old \<noteq> pk_columns new
      then [DropPrimaryKey table (pk_name old), AddPrimaryKey table (pk_name new) (pk_columns new)]
      else [])"
| "diff_primary_key table None None = []"

text \<open>The two loops over keyed maps that unique constraints, indexes and checks share: keys only in
  the desired map are added, keys only in the current map dropped.\<close>

definition keyed_adds ::
    "('k list \<Rightarrow> 'k list) \<Rightarrow> ('k \<times> 'v) list \<Rightarrow> ('k \<times> 'v) list \<Rightarrow> ('v \<Rightarrow> schema_change) \<Rightarrow>
     schema_change list" where
  "keyed_adds ord this other mk =
     map (\<lambda>(k, v). mk v) (filter (\<lambda>(k, v). hm_of other k = None) (hm_iter ord this))"

definition unique_map :: "unique_constraint_def list \<Rightarrow> (string list \<times> unique_constraint_def) list" where
  "unique_map us = map (\<lambda>u. (sort (uq_columns u), u)) us"

definition diff_unique_constraints ::
    "hash_ord \<Rightarrow> string \<Rightarrow> unique_constraint_def list \<Rightarrow> unique_constraint_def list \<Rightarrow> schema_change list" where
  "diff_unique_constraints ho table current desired =
     keyed_adds (ho_uniques_desired ho table) (unique_map desired) (unique_map current)
       (\<lambda>u. AddUnique table (uq_name u) (uq_columns u)) @
     keyed_adds (ho_uniques_current ho table) (unique_map current) (unique_map desired)
       (\<lambda>u. DropUnique table (uq_name u))"

definition index_map :: "index_def list \<Rightarrow> (string list \<times> index_def) list" where
  "index_map is = map (\<lambda>i. (sort (idx_columns i), i)) is"

definition diff_indexes ::
    "hash_ord \<Rightarrow> string \<Rightarrow> index_def list \<Rightarrow> index_def list \<Rightarrow> schema_change list" where
  "diff_indexes ho table current desired =
     keyed_adds (ho_indexes_desired ho table) (index_map desired) (index_map current)
       (CreateIndex table) @
     keyed_adds (ho_indexes_current ho table) (index_map current) (index_map desired)
       (\<lambda>i. DropIndex table (idx_name i))"

definition check_map :: "check_constraint_def list \<Rightarrow> (string \<times> check_constraint_def) list" where
  "check_map cs = map (\<lambda>c. (ck_name c, c)) cs"

definition diff_check_constraints ::
    "hash_ord \<Rightarrow> string \<Rightarrow> check_constraint_def list \<Rightarrow> check_constraint_def list \<Rightarrow> schema_change list" where
  "diff_check_constraints ho table current desired =
     keyed_adds (ho_checks_desired ho table) (check_map desired) (check_map current)
       (\<lambda>c. AddCheck table (ck_name c) (ck_expression c)) @
     keyed_adds (ho_checks_current ho table) (check_map current) (check_map desired)
       (\<lambda>c. DropCheck table (ck_name c))"

section \<open>Foreign keys\<close>

definition fk_changed_parts :: "foreign_key_def \<Rightarrow> foreign_key_def \<Rightarrow> string list" where
  "fk_changed_parts c d =
     (if fk_ref_table c \<noteq> fk_ref_table d then [''target''] else []) @
     (if fk_columns c \<noteq> fk_columns d then [''columns''] else []) @
     (if fk_ref_columns c \<noteq> fk_ref_columns d then [''ref_columns''] else []) @
     (if fk_on_delete c \<noteq> fk_on_delete d then [''on_delete''] else []) @
     (if fk_on_update c \<noteq> fk_on_update d then [''on_update''] else [])"

definition change_kind_of :: "string list \<Rightarrow> string" where
  "change_kind_of parts = (if 1 < length parts then ''multi'' else parts ! 0)"

definition fk_name_map :: "foreign_key_def list \<Rightarrow> (string \<times> foreign_key_def) list" where
  "fk_name_map fks = map (\<lambda>fk. (fk_name fk, fk)) fks"

definition fk_key_map :: "foreign_key_def list \<Rightarrow> ((string \<times> string list) \<times> foreign_key_def) list" where
  "fk_key_map fks = map (\<lambda>fk. ((fk_ref_table fk, sort (fk_columns fk)), fk)) fks"

text \<open>Phase 1: matching by name. The matched names are those of both maps.\<close>

definition fk_matched :: "foreign_key_def list \<Rightarrow> (string \<times> foreign_key_def) list \<Rightarrow> string list" where
  "fk_matched current des =
     map fst (filter (\<lambda>(n, d). hm_of (fk_name_map current) n \<noteq> None) des)"

definition fk_modified ::
    "string \<Rightarrow> foreign_key_def list \<Rightarrow> (string \<times> foreign_key_def) list \<Rightarrow> schema_change list" where
  "fk_modified table current des =
     concat (map (\<lambda>(n, d). case hm_of (fk_name_map current) n of
                None \<Rightarrow> []
              | Some c \<Rightarrow>
                  if fk_changed_parts c d = [] then []
                  else [ModifyForeignKey table n d c (change_kind_of (fk_changed_parts c d))]) des)"

definition same_cols :: "string list \<Rightarrow> string list \<Rightarrow> foreign_key_def \<Rightarrow> bool" where
  "same_cols matched cols fk \<longleftrightarrow> fk_name fk \<notin> set matched \<and> sort (fk_columns fk) = cols"

definition target_changed_parts :: "foreign_key_def \<Rightarrow> foreign_key_def \<Rightarrow> string list" where
  "target_changed_parts c d =
     [''target''] @
     (if fk_on_delete c \<noteq> fk_on_delete d then [''on_delete''] else []) @
     (if fk_on_update c \<noteq> fk_on_update d then [''on_update''] else [])"

text \<open>Phase 2, new keys: the loop returns the changes and the two matched sets.\<close>

fun fk_new_loop ::
    "string \<Rightarrow> foreign_key_def list \<Rightarrow> ((string \<times> string list) \<Rightarrow> bool) \<Rightarrow> string list \<Rightarrow> string list \<Rightarrow>
     ((string \<times> string list) \<times> foreign_key_def) list \<Rightarrow>
     schema_change list \<times> string list \<times> string list" where
  "fk_new_loop table current in_current mc md [] = ([], mc, md)"
| "fk_new_loop table current in_current mc md ((k, fk) # ks) =
     (if in_current k then fk_new_loop table current in_current mc md ks
      else case find (same_cols mc (snd k)) current of
             Some c \<Rightarrow>
               (case fk_new_loop table current in_current (fk_name c # mc) (fk_name fk # md) ks of
                  (chs, mc', md') \<Rightarrow>
                    (ModifyForeignKey table (fk_name fk) fk c (change_kind_of (target_changed_parts c fk))
                       # chs, mc', md'))
           | None \<Rightarrow>
               (case fk_new_loop table current in_current mc md ks of
                  (chs, mc', md') \<Rightarrow> (AddForeignKey table fk # chs, mc', md')))"

text \<open>Phase 2, dropped keys.\<close>

definition fk_drop_loop ::
    "string \<Rightarrow> foreign_key_def list \<Rightarrow> ((string \<times> string list) \<Rightarrow> bool) \<Rightarrow> string list \<Rightarrow>
     ((string \<times> string list) \<times> foreign_key_def) list \<Rightarrow> schema_change list" where
  "fk_drop_loop table desired in_desired md ks =
     map (\<lambda>(k, fk). DropForeignKey table (fk_name fk) fk)
       (filter (\<lambda>(k, fk). \<not> in_desired k \<and> filter (same_cols md (snd k)) desired = []) ks)"

definition diff_foreign_keys ::
    "hash_ord \<Rightarrow> string \<Rightarrow> foreign_key_def list \<Rightarrow> foreign_key_def list \<Rightarrow> schema_change list" where
  "diff_foreign_keys ho table current desired =
     (let des = hm_iter (ho_fk_names ho table) (fk_name_map desired);
          matched = fk_matched current des;
          cur_keys = fk_key_map (filter (\<lambda>fk. fk_name fk \<notin> set matched) current);
          des_keys = fk_key_map (filter (\<lambda>fk. fk_name fk \<notin> set matched) desired)
      in fk_modified table current des @
         (case fk_new_loop table current (\<lambda>k. hm_of cur_keys k \<noteq> None) matched matched
                 (hm_iter (ho_fk_desired_keys ho table) des_keys) of
            (chs, mc, md) \<Rightarrow>
              chs @
              fk_drop_loop table desired (\<lambda>k. hm_of des_keys k \<noteq> None) md
                (hm_iter (ho_fk_current_keys ho table) cur_keys)))"

section \<open>Tables\<close>

definition column_types_eq :: "column_def \<Rightarrow> column_def \<Rightarrow> bool" where
  "column_types_eq c d \<longleftrightarrow>
     col_sql_type c = col_sql_type d \<or>
     (col_is_auto c \<or> col_is_auto d) \<and>
     ((col_sql_type c = Serial \<and> col_sql_type d = Integer) \<or>
      (col_sql_type c = Integer \<and> col_sql_type d = Serial))"

definition tables_match_for_rename :: "table_def \<Rightarrow> table_def \<Rightarrow> bool" where
  "tables_match_for_rename current desired \<longleftrightarrow>
     length (tbl_columns current) = length (tbl_columns desired) \<and>
     (let dn = set (map col_name (tbl_columns desired)); cn = set (map col_name (tbl_columns current))
      in card (dn \<inter> cn) = max (card dn) (card cn)) \<and>
     list_all (\<lambda>(c, d). col_name c = col_name d \<and> column_types_eq c d)
       (zip (tbl_columns current) (tbl_columns desired))"

definition column_modified ::
    "string \<Rightarrow> (string \<times> column_def) list \<Rightarrow> schema_change list \<Rightarrow> column_def \<Rightarrow> schema_change list" where
  "column_modified table cur changes d =
     (case hm_of cur (col_name d) of Some c \<Rightarrow> diff_column table c d changes | None \<Rightarrow> changes)"

definition diff_columns :: "string \<Rightarrow> column_def list \<Rightarrow> column_def list \<Rightarrow> schema_change list \<Rightarrow> schema_change list" where
  "diff_columns table current desired changes =
     (let in_current = (\<lambda>n. hm_of (col_map current) n \<noteq> None);
          in_desired = (\<lambda>n. hm_of (col_map desired) n \<noteq> None);
          renames = column_renames in_current in_desired current [] 0 desired;
          changes1 = changes @ map (\<lambda>(f, t). RenameColumn table f t) renames;
          changes2 = changes1 @ map (AddColumn table)
            (filter (\<lambda>d. \<not> in_current (col_name d) \<and> col_name d \<notin> set (map snd renames)) desired);
          changes3 = changes2 @ map (\<lambda>c. DropColumn table (col_name c) c)
            (filter (\<lambda>c. \<not> in_desired (col_name c) \<and> col_name c \<notin> set (map fst renames)) current)
      in foldl (column_modified table (col_map current)) changes3 desired)"

definition diff_table :: "hash_ord \<Rightarrow> table_def \<Rightarrow> table_def \<Rightarrow> schema_change list \<Rightarrow> schema_change list" where
  "diff_table ho current desired changes =
     (let table = tbl_name desired
      in diff_columns table (tbl_columns current) (tbl_columns desired) changes @
         diff_primary_key table (tbl_primary_key current) (tbl_primary_key desired) @
         diff_unique_constraints ho table (tbl_unique_constraints current) (tbl_unique_constraints desired) @
         diff_foreign_keys ho table (tbl_foreign_keys current) (tbl_foreign_keys desired) @
         diff_indexes ho table (tbl_indexes current) (tbl_indexes desired) @
         diff_check_constraints ho table (tbl_check_constraints current) (tbl_check_constraints desired))"

definition table_map :: "table_def list \<Rightarrow> (string \<times> table_def) list" where
  "table_map ts = map (\<lambda>t. (tbl_name t, t)) ts"

definition find_table_source ::
    "(string \<Rightarrow> bool) \<Rightarrow> table_def list \<Rightarrow> string list \<Rightarrow> table_def \<Rightarrow> table_def option" where
  "find_table_source in_desired current renamed d =
     find (\<lambda>c. \<not> in_desired (tbl_name c) \<and> tbl_name c \<notin> set renamed \<and> tables_match_for_rename c d) current"

fun table_renames ::
    "(string \<Rightarrow> bool) \<Rightarrow> (string \<Rightarrow> bool) \<Rightarrow> table_def list \<Rightarrow> string list \<Rightarrow> table_def list \<Rightarrow>
     (string \<times> string) list" where
  "table_renames in_current in_desired current renamed [] = []"
| "table_renames in_current in_desired current renamed (d # ds) =
     (if in_current (tbl_name d) then table_renames in_current in_desired current renamed ds
      else case find_table_source in_desired current renamed d of
             Some c \<Rightarrow> (tbl_name c, tbl_name d) #
                table_renames in_current in_desired current (tbl_name d # tbl_name c # renamed) ds
           | None \<Rightarrow> table_renames in_current in_desired current renamed ds)"

fun rename_source :: "string \<Rightarrow> schema_change list \<Rightarrow> string option" where
  "rename_source name [] = None"
| "rename_source name (c # cs) =
     (case c of RenameTable fr to \<Rightarrow> if to = name then Some fr else rename_source name cs
      | _ \<Rightarrow> rename_source name cs)"

definition current_of :: "table_def list \<Rightarrow> schema_change list \<Rightarrow> table_def \<Rightarrow> table_def option" where
  "current_of current changes d =
     (case hm_of (table_map current) (tbl_name d) of
        Some c \<Rightarrow> Some c
      | None \<Rightarrow> Option.bind (rename_source (tbl_name d) changes) (hm_of (table_map current)))"

definition diff_modified ::
    "hash_ord \<Rightarrow> table_def list \<Rightarrow> schema_change list \<Rightarrow> table_def \<Rightarrow> schema_change list" where
  "diff_modified ho current changes d =
     (case current_of current changes d of Some c \<Rightarrow> diff_table ho c d changes | None \<Rightarrow> changes)"

definition compute_diff :: "hash_ord \<Rightarrow> database_schema \<Rightarrow> database_schema \<Rightarrow> schema_change list" where
  "compute_diff ho current desired =
     (let in_current = (\<lambda>n. hm_of (table_map (db_tables current)) n \<noteq> None);
          in_desired = (\<lambda>n. hm_of (table_map (db_tables desired)) n \<noteq> None);
          renames = table_renames in_current in_desired (db_tables current) [] (db_tables desired);
          renamed = map fst renames @ map snd renames;
          changes1 = diff_enums ho (db_enums current) (db_enums desired) @
            map (\<lambda>(f, t). RenameTable f t) renames;
          changes2 = changes1 @ map CreateTable
            (filter (\<lambda>d. \<not> in_current (tbl_name d) \<and> tbl_name d \<notin> set renamed) (db_tables desired));
          changes3 = changes2 @ map (\<lambda>c. DropTable (tbl_name c) c)
            (filter (\<lambda>c. \<not> in_desired (tbl_name c) \<and> tbl_name c \<notin> set renamed \<and> \<not> skip_drop (tbl_name c))
              (db_tables current))
      in foldl (diff_modified ho (db_tables current)) changes3 (db_tables desired))"

end
