(* ===== verification/Mig_Samples.thy ===== *)
theory Mig_Samples
  imports Mig_Change
begin

text \<open>
  Small schema values on which the witnesses of the migration theories are evaluated.
\<close>

definition sample_column :: "string \<Rightarrow> sql_type \<Rightarrow> column_def" where
  "sample_column n ty =
     \<lparr>col_name = n, col_field_name = n, col_sql_type = ty, col_nullable = True, col_default = None,
      col_is_auto = False, col_is_primary = False, col_is_unique = False, col_is_index = False,
      col_is_hashed = False, col_decorators = []\<rparr>"

definition sample_table :: "string \<Rightarrow> column_def list \<Rightarrow> foreign_key_def list \<Rightarrow> table_def" where
  "sample_table n cols fks =
     \<lparr>tbl_name = n, tbl_struct_name = n, tbl_columns = cols, tbl_primary_key = None,
      tbl_unique_constraints = [], tbl_check_constraints = [], tbl_foreign_keys = fks,
      tbl_indexes = [], tbl_auto_timestamp = False, tbl_struct_refs = [], tbl_transitive_enum_refs = []\<rparr>"

definition sample_fk :: "string \<Rightarrow> string \<Rightarrow> string \<Rightarrow> foreign_key_def" where
  "sample_fk n col target =
     \<lparr>fk_name = n, fk_columns = [col], fk_ref_table = target, fk_ref_columns = [''id''],
      fk_on_delete = NoAction, fk_on_update = NoAction\<rparr>"

definition sample_enum :: "string \<Rightarrow> string list \<Rightarrow> enum_type_def" where
  "sample_enum n vs = \<lparr>en_name = n, en_enum_name = n, en_variants = vs\<rparr>"

end
