(* ===== verification/Mig_Planner.thy ===== *)
theory Mig_Planner
  imports Mig_Graph Mig_Diff Mig_Samples
begin

text \<open>
  What the planner promises: the order of the plan, the dependencies it records, the components
  and the batches, the risk flags.
\<close>

section \<open>The undirected graph\<close>

definition in_range :: "nat \<Rightarrow> (nat \<times> nat) list \<Rightarrow> bool" where
  "in_range n es \<longleftrightarrow> set es \<subseteq> {..<n} \<times> {..<n}"

lemma length_add_undirected [simp]: "length (add_undirected adj e) = length adj"
  by (simp add: add_undirected_def Let_def split: prod.splits)

lemma length_foldl_add_undirected [simp]: "length (foldl add_undirected adj es) = length adj"
  by (induction es arbitrary: adj) auto

lemma edges_add_undirected:
  "a < length adj \<Longrightarrow> b < length adj \<Longrightarrow> edges (add_undirected adj (a, b)) = edges adj \<union> {(a, b), (b, a)}"
  by (auto simp: edges_code add_undirected_def Let_def nth_list_update split: if_splits)

lemma edges_foldl_add_undirected:
  "in_range (length adj) es \<Longrightarrow> edges (foldl add_undirected adj es) = edges adj \<union> set es \<union> (set es)\<inverse>"
proof (induction es arbitrary: adj)
  case (Cons e es)
  obtain a b where e: "e = (a, b)" by fastforce
  have ab: "a < length adj" "b < length adj" "in_range (length adj) es"
    using Cons.prems by (auto simp: in_range_def e)
  then show ?case
    using Cons.IH [of "add_undirected adj e"] by (auto simp: e edges_add_undirected)
qed simp

section \<open>The relations the graphs encode\<close>

text \<open>Change \<open>i\<close> refers to an object that change \<open>j\<close> creates.\<close>

definition depends :: "planned_change list \<Rightarrow> (nat \<times> nat) set" where
  "depends ps = {(i, j). i < length ps \<and> j < length ps \<and> i \<noteq> j \<and>
     (\<exists>obj\<in>set (pc_affected_objects (ps ! i)). creator_key (pc_change (ps ! j)) = Some (lookup_key obj))}"

text \<open>Change \<open>i\<close> adds a foreign key whose local or referenced table change \<open>j\<close> touches.\<close>

definition fk_touches :: "planned_change list \<Rightarrow> nat \<Rightarrow> nat \<Rightarrow> bool" where
  "fk_touches ps i j \<longleftrightarrow>
     (\<exists>table fk. pc_change (ps ! i) = AddForeignKey table fk \<and>
       (\<exists>obj\<in>set (pc_affected_objects (ps ! j)). lookup_key obj \<in> {table, fk_ref_table fk}))"

definition name_clash :: "planned_change list \<Rightarrow> nat \<Rightarrow> nat \<Rightarrow> bool" where
  "name_clash ps i j \<longleftrightarrow>
     (\<exists>obj\<in>set (pc_affected_objects (ps ! i)). is_table_name ps (lookup_key obj) \<and>
       is_enum_name ps (lookup_key obj) \<and>
       (\<exists>other\<in>set (pc_affected_objects (ps ! j)). lookup_key other = lookup_key obj))"

definition shares_table :: "planned_change list \<Rightarrow> nat \<Rightarrow> nat \<Rightarrow> bool" where
  "shares_table ps i j \<longleftrightarrow> (\<exists>key. has_table_key (ps ! i) key \<and> has_table_key (ps ! j) key)"

definition related :: "planned_change list \<Rightarrow> (nat \<times> nat) set" where
  "related ps = {(i, j). i < length ps \<and> j < length ps \<and>
     ((i, j) \<in> (depends ps)\<^sup>+ \<or>
      i \<noteq> j \<and> (fk_touches ps i j \<or> name_clash ps i j \<or> shares_table ps i j))}"

section \<open>The graphs encode the relations\<close>

lemma set_creators: "set (creators ps key) = {j. j < length ps \<and> creator_key (pc_change (ps ! j)) = Some key}"
  by (auto simp: creators_def)

lemma edges_depend: "edges (map (depend_edges ps) [0..<length ps]) = depends ps"
  by (auto simp: edges_code depends_def depend_edges_def set_creators)

lemma transitive_deps_nth:
  "i < length ps \<Longrightarrow>
     set (transitive_deps ps ! i) = {j. (i, j) \<in> (depends ps)\<^sup>+} \<and> distinct (transitive_deps ps ! i)"
  by (simp add: transitive_deps_def Let_def set_transitive_deps_of distinct_transitive_deps_of edges_depend)

lemma length_transitive_deps [simp]: "length (transitive_deps ps) = length ps"
  by (simp add: transitive_deps_def Let_def)

lemma depends_range: "depends ps \<subseteq> {..<length ps} \<times> {..<length ps}"
  by (auto simp: depends_def)

lemma depends_trancl_range: "(i, j) \<in> (depends ps)\<^sup>+ \<Longrightarrow> i < length ps \<and> j < length ps"
  using trancl_subset_Sigma [OF depends_range] by blast

lemma set_dep_pairs: "set (dep_pairs (transitive_deps ps)) = (depends ps)\<^sup>+"
  using depends_trancl_range
  by (auto simp: dep_pairs_def transitive_deps_nth image_iff set_eq_iff)

lemma set_fk_pairs:
  "set (fk_pairs ps) = {(i, j). i < length ps \<and> j < length ps \<and> i \<noteq> j \<and> fk_touches ps i j}"
proof -
  have "(i, j) \<in> set (fk_pairs ps) \<longleftrightarrow> i < length ps \<and> j < length ps \<and> i \<noteq> j \<and> fk_touches ps i j" for i j
  proof
    assume "(i, j) \<in> set (fk_pairs ps)"
    then show "i < length ps \<and> j < length ps \<and> i \<noteq> j \<and> fk_touches ps i j"
      by (auto simp: fk_pairs_def fk_touches_def list_ex_iff split: schema_change.splits
          dest!: sym [of "AddForeignKey _ _"])
  next
    assume a: "i < length ps \<and> j < length ps \<and> i \<noteq> j \<and> fk_touches ps i j"
    then show "(i, j) \<in> set (fk_pairs ps)"
      unfolding fk_pairs_def fk_touches_def
      by (auto simp: list_ex_iff image_iff intro!: bexI [of _ i])
  qed
  then show ?thesis by auto
qed

lemma set_cross_pairs:
  "set (cross_pairs ps) = {(i, j). i < length ps \<and> j < length ps \<and> i \<noteq> j \<and> name_clash ps i j}"
proof -
  have "(i, j) \<in> set (cross_pairs ps) \<longleftrightarrow> i < length ps \<and> j < length ps \<and> i \<noteq> j \<and> name_clash ps i j" for i j
    by (auto simp: cross_pairs_def name_clash_def image_iff)
  then show ?thesis by auto
qed

lemma set_pairs_of: "sorted_wrt (<) xs \<Longrightarrow> set (pairs_of xs) = {(a, b). a \<in> set xs \<and> b \<in> set xs \<and> a < b}"
  by (induction xs rule: pairs_of.induct) auto

lemma set_changes_with_key: "set (changes_with_key ps key) = {i. i < length ps \<and> has_table_key (ps ! i) key}"
  by (auto simp: changes_with_key_def)

lemma sorted_changes_with_key: "sorted_wrt (<) (changes_with_key ps key)"
  unfolding changes_with_key_def by (rule sorted_wrt_filter) simp

lemma set_all_table_keys: "set (all_table_keys ps) = {key. \<exists>p\<in>set ps. has_table_key p key}"
  by (auto simp: all_table_keys_def has_table_key_def list_ex_iff set_map_filter)

lemma set_same_table_pairs:
  assumes "perm_order ord"
  shows "set (same_table_pairs ord ps) =
    {(i, j). i < length ps \<and> j < length ps \<and> i < j \<and> shares_table ps i j}"
  unfolding same_table_pairs_def set_concat set_map perm_order_set [OF assms]
  by (auto simp: set_pairs_of [OF sorted_changes_with_key] set_changes_with_key set_all_table_keys
      shares_table_def) (metis nth_mem)

lemma edges_undirected:
  assumes "perm_order ord"
  shows "edges (undirected_adj ord ps) = related ps \<union> (related ps)\<inverse>"
proof -
  have r: "in_range (length ps) (all_pairs ord ps)"
    using depends_trancl_range [of _ _ ps]
    by (auto simp: in_range_def all_pairs_def set_dep_pairs set_fk_pairs set_cross_pairs
        set_same_table_pairs [OF assms])
  have e: "edges (replicate (length ps) []) = {}"
    by (auto simp: edges_code)
  have sh: "shares_table ps i j = shares_table ps j i" for i j
    by (auto simp: shares_table_def)
  have "edges (undirected_adj ord ps) = set (all_pairs ord ps) \<union> (set (all_pairs ord ps))\<inverse>"
    using r by (simp add: undirected_adj_def edges_foldl_add_undirected e)
  also have "\<dots> = related ps \<union> (related ps)\<inverse>"
    using depends_trancl_range [of _ _ ps] sh
    by (auto simp: all_pairs_def set_dep_pairs set_fk_pairs set_cross_pairs
        set_same_table_pairs [OF assms] related_def linorder_neq_iff)
  finally show ?thesis .
qed

lemma length_undirected_adj [simp]: "length (undirected_adj ord ps) = length ps"
  by (simp add: undirected_adj_def)

lemma sym_graph_undirected: "perm_order ord \<Longrightarrow> sym_graph (undirected_adj ord ps)"
  by (auto simp: sym_graph_def edges_undirected sym_Un_converse related_def)

section \<open>Dependencies and components\<close>

lemma length_compute_deps [simp]: "length (compute_dependencies_and_components ord ps) = length ps"
  by (simp add: compute_dependencies_and_components_def Let_def)

lemma compute_deps_nth:
  "i < length ps \<Longrightarrow> compute_dependencies_and_components ord ps ! i =
     (ps ! i)\<lparr>pc_depends_on := map (\<lambda>j. pc_change_id (ps ! j)) (transitive_deps ps ! i),
             pc_component_id := component_ids (undirected_adj ord ps) ! i\<rparr>"
  by (simp add: compute_dependencies_and_components_def Let_def)

lemma map_compute_deps:
  assumes "\<And>p deps cid. f (p\<lparr>pc_depends_on := deps, pc_component_id := cid\<rparr>) = f p"
  shows "map f (compute_dependencies_and_components ord ps) = map f ps"
  by (rule nth_equalityI) (simp_all add: compute_deps_nth assms)

lemma compute_deps_depends_on:
  assumes "i < length ps"
  shows "set (pc_depends_on (compute_dependencies_and_components ord ps ! i)) =
    {pc_change_id (ps ! j) |j. (i, j) \<in> (depends ps)\<^sup>+}"
  using transitive_deps_nth [OF assms] by (auto simp: compute_deps_nth [OF assms])



section \<open>Change identifiers\<close>

lemma byte_digit_char: "d < 10 \<Longrightarrow> byte (digit_char d) = 48 + d"
  by (simp add: byte_def digit_char_def)

lemma digits_val_snoc: "digits_val (s @ [c]) = 10 * digits_val s + int (byte c - 48)"
  by (simp add: digits_val_def)

lemma digits_val_show_nat: "digits_val (show_nat n) = int n"
proof (induction n rule: show_nat.induct)
  case (1 n)
  show ?case
  proof (cases "n < 10")
    case True
    then show ?thesis
      by (simp add: show_nat.simps [of n] byte_digit_char digits_val_def)
  next
    case False
    then have "digits_val (show_nat n) = 10 * int (n div 10) + int (n mod 10)"
      using 1 by (simp add: show_nat.simps [of n] digits_val_snoc byte_digit_char)
    also have "\<dots> = int (10 * (n div 10) + n mod 10)" by (simp only: of_nat_add of_nat_mult of_nat_numeral)
    also have "10 * (n div 10) + n mod 10 = n" by (rule mult_div_mod_eq)
    finally show ?thesis .
  qed
qed

lemma show_nat_inject [simp]: "show_nat m = show_nat n \<longleftrightarrow> m = n"
  by (metis digits_val_show_nat of_nat_eq_iff)

section \<open>The plan\<close>

lemma map_sort_key: "map f (sort_key (\<lambda>x. g (f x)) xs) = sort_key g (map f xs)"
proof (induction xs)
  case (Cons x xs)
  have "map f (insort_key (\<lambda>x. g (f x)) a ys) = insort_key g (f a) (map f ys)" for a ys
    by (induction ys) auto
  then show ?case using Cons by simp
qed simp

definition unplanned :: "string \<Rightarrow> schema_change list \<Rightarrow> planned_change list" where
  "unplanned timestamp changes =
     sort_by_dependency (map (\<lambda>(i, c). from_change c i timestamp) (enumerate 0 changes))"

lemma plan_changes_unplanned:
  "plan_changes ord timestamp changes = compute_dependencies_and_components ord (unplanned timestamp changes)"
  by (simp add: plan_changes_def unplanned_def)

lemma length_unplanned [simp]: "length (unplanned timestamp changes) = length changes"
  by (simp add: unplanned_def sort_by_dependency_def)

lemma length_plan_changes [simp]: "length (plan_changes ord timestamp changes) = length changes"
  by (simp add: plan_changes_unplanned)

lemma map_pc_change_unplanned: "map pc_change (unplanned timestamp changes) = sort_key change_order changes"
proof -
  have "map pc_change (map (\<lambda>(i, c). from_change c i timestamp) (enumerate 0 changes)) = changes"
    by (rule nth_equalityI) (simp_all add: nth_enumerate_eq from_change_def)
  then show ?thesis
    by (simp add: unplanned_def sort_by_dependency_def map_sort_key [of pc_change])
qed

lemma mset_change_ids:
  "mset (map pc_change_id (unplanned timestamp changes)) =
     mset (map (\<lambda>i. timestamp @ ''_'' @ show_nat i) [0..<length changes])"
proof -
  have "map pc_change_id (map (\<lambda>(i, c). from_change c i timestamp) (enumerate 0 changes)) =
      map (\<lambda>i. timestamp @ ''_'' @ show_nat i) [0..<length changes]"
    by (rule nth_equalityI) (simp_all add: nth_enumerate_eq from_change_def)
  then show ?thesis
    by (metis (no_types) mset_map mset_sort unplanned_def sort_by_dependency_def)
qed

lemma distinct_change_ids: "distinct (map pc_change_id (unplanned timestamp changes))"
proof -
  have "distinct (map (\<lambda>i. timestamp @ ''_'' @ show_nat i) [0..<length changes])"
    by (simp add: distinct_map inj_on_def)
  then show ?thesis
    using mset_change_ids [of timestamp changes] mset_eq_imp_distinct_iff by metis
qed

lemma plan_changes_ids:
  "map pc_change_id (plan_changes ord timestamp changes) = map pc_change_id (unplanned timestamp changes)"
  unfolding plan_changes_unplanned by (rule map_compute_deps) simp

lemma plan_changes_change:
  "map pc_change (plan_changes ord timestamp changes) = sort_key change_order changes"
proof -
  have "map pc_change (plan_changes ord timestamp changes) = map pc_change (unplanned timestamp changes)"
    unfolding plan_changes_unplanned by (rule map_compute_deps) simp
  then show ?thesis by (simp add: map_pc_change_unplanned)
qed

text \<open>The plan holds exactly the computed changes, ordered by the dependency rank of their kind;
  changes of equal rank stay in the order in which the diff emitted them.\<close>

theorem plan_is_stable_sort:
  "map pc_change (mp_changes (build_plan ord sha256_hex timestamp changes)) = sort_key change_order changes"
  by (simp add: build_plan_def Let_def plan_changes_change)

section \<open>Batches\<close>

lemma mset_groups:
  "distinct ks \<Longrightarrow> \<forall>x\<in>set xs. f x \<in> set ks \<Longrightarrow>
     mset (concat (map (\<lambda>k. filter (\<lambda>x. f x = k) xs) ks)) = mset xs"
proof (induction ks arbitrary: xs)
  case (Cons k ks)
  let ?xs = "filter (\<lambda>x. f x \<noteq> k) xs"
  have "filter (\<lambda>x. f x = j) ?xs = filter (\<lambda>x. f x = j) xs" if "j \<in> set ks" for j
    using that Cons.prems(1) by (auto intro: filter_cong)
  then have e: "map (\<lambda>j. filter (\<lambda>x. f x = j) ?xs) ks = map (\<lambda>j. filter (\<lambda>x. f x = j) xs) ks"
    by (rule map_cong [OF refl])
  have "mset (concat (map (\<lambda>j. filter (\<lambda>x. f x = j) ?xs) ks)) = mset ?xs"
    using Cons.prems by (intro Cons.IH) auto
  then have "mset (concat (map (\<lambda>j. filter (\<lambda>x. f x = j) xs) ks)) = mset ?xs"
    unfolding e .
  then have "mset (concat (map (\<lambda>j. filter (\<lambda>x. f x = j) xs) (k # ks))) =
      mset (filter (\<lambda>x. f x = k) xs) + mset ?xs"
    by simp
  also have "\<dots> = mset xs"
    by (induction xs) auto
  finally show ?case .
qed simp

lemma foldl_max: "foldl max (m::nat) xs = Max (insert m (set xs))"
proof (induction xs arbitrary: m)
  case (Cons x xs)
  have "Max (insert (max m x) (set xs)) = Max (insert m (insert x (set xs)))"
    by (cases "set xs = {}") (simp_all add: max.assoc)
  then show ?case using Cons by simp
qed simp

lemma map_component_ids:
  "perm_order ord \<Longrightarrow> map pc_component_id (compute_dependencies_and_components ord ps) =
     component_ids (undirected_adj ord ps)"
  by (rule nth_equalityI) (simp_all add: compute_deps_nth length_component_ids sym_graph_undirected)

lemma component_numbers:
  assumes "perm_order ord"
  shows "pc_component_id ` set (plan_changes ord timestamp changes) =
    {1..foldl max 0 (map pc_component_id (plan_changes ord timestamp changes))}"
proof -
  let ?ids = "map pc_component_id (plan_changes ord timestamp changes)"
  obtain k where k: "set ?ids = {1..k}"
    using set_component_ids [OF sym_graph_undirected [OF assms]]
    by (auto simp: plan_changes_unplanned map_component_ids [OF assms] simp del: set_map list.set_map)
  have "Max (insert 0 {1..k}) = k"
    by (rule Max_eqI) auto
  then show ?thesis
    using k by (simp add: foldl_max)
qed

lemma build_batches_eq:
  assumes "pc_component_id ` set ps = {1..n}"
  shows "build_batches ps n = map (\<lambda>k. the (build_batch ps k)) [1..<Suc n]"
proof -
  have some: "build_batch ps k \<noteq> None" if "k \<in> set [1..<Suc n]" for k
  proof -
    have "k \<in> pc_component_id ` set ps" using that unfolding assms by auto
    then have "filter (\<lambda>p. pc_component_id p = k) ps \<noteq> []" by (auto simp: filter_empty_conv)
    then show ?thesis by (simp add: build_batch_def Let_def)
  qed
  have "filter (\<lambda>k. build_batch ps k \<noteq> None) [1..<Suc n] = [1..<Suc n]"
    unfolding filter_id_conv using some by blast
  then show ?thesis
    by (simp add: build_batches_def map_filter_def comp_def del: upt_Suc)
qed

lemma build_batch_ids:
  assumes "k \<in> pc_component_id ` set ps"
  shows "cb_change_ids (the (build_batch ps k)) = map pc_change_id (filter (\<lambda>p. pc_component_id p = k) ps)"
    and "cb_component_id (the (build_batch ps k)) = k"
proof -
  have "filter (\<lambda>p. pc_component_id p = k) ps \<noteq> []" using assms by (auto simp: filter_empty_conv)
  then show "cb_change_ids (the (build_batch ps k)) = map pc_change_id (filter (\<lambda>p. pc_component_id p = k) ps)"
    and "cb_component_id (the (build_batch ps k)) = k"
    by (simp_all add: build_batch_def Let_def)
qed

lemma build_plan_simps:
  "mp_changes (build_plan ord sha256_hex timestamp changes) = plan_changes ord timestamp changes"
  "mp_component_count (build_plan ord sha256_hex timestamp changes) =
     foldl max 0 (map pc_component_id (plan_changes ord timestamp changes))"
  "mp_batches (build_plan ord sha256_hex timestamp changes) =
     build_batches (plan_changes ord timestamp changes)
       (foldl max 0 (map pc_component_id (plan_changes ord timestamp changes)))"
  by (simp_all add: build_plan_def Let_def)

lemma mp_batches_eq:
  assumes "perm_order ord"
  shows "mp_batches (build_plan ord sha256_hex timestamp changes) =
    map (\<lambda>k. the (build_batch (plan_changes ord timestamp changes) k))
      [1..<Suc (foldl max 0 (map pc_component_id (plan_changes ord timestamp changes)))]"
  unfolding build_plan_simps by (rule build_batches_eq [OF component_numbers [OF assms]])

lemma batch_number:
  assumes "perm_order ord" and "k \<in> set [1..<Suc (foldl max 0 (map pc_component_id (plan_changes ord timestamp changes)))]"
  shows "k \<in> pc_component_id ` set (plan_changes ord timestamp changes)"
  using assms(2) unfolding component_numbers [OF assms(1)] by auto

lemma mem_batches:
  assumes "perm_order ord" and "b \<in> set (mp_batches (build_plan ord sha256_hex timestamp changes))"
  obtains k where "k \<in> pc_component_id ` set (plan_changes ord timestamp changes)"
    and "b = the (build_batch (plan_changes ord timestamp changes) k)"
proof -
  have "\<exists>k\<in>set [1..<Suc (foldl max 0 (map pc_component_id (plan_changes ord timestamp changes)))].
      b = the (build_batch (plan_changes ord timestamp changes) k)"
    using assms(2) unfolding mp_batches_eq [OF assms(1)] set_map by blast
  then show ?thesis using that batch_number [OF assms(1)] by blast
qed

text \<open>C22. The batches partition the plan: each change is listed in exactly one batch, and the
  batches are numbered from 1 to the number of components.\<close>

theorem batches_partition_changes:
  assumes "perm_order ord"
  shows "mset (concat (map cb_change_ids (mp_batches (build_plan ord sha256_hex timestamp changes)))) =
      mset (map pc_change_id (mp_changes (build_plan ord sha256_hex timestamp changes))) \<and>
    map cb_component_id (mp_batches (build_plan ord sha256_hex timestamp changes)) =
      [1..<Suc (mp_component_count (build_plan ord sha256_hex timestamp changes))]"
proof
  let ?ps = "plan_changes ord timestamp changes"
  let ?ks = "[1..<Suc (foldl max 0 (map pc_component_id ?ps))]"
  let ?grp = "\<lambda>k. filter (\<lambda>p. pc_component_id p = k) ?ps"
  note k = batch_number [OF assms, of _ timestamp changes]
  have "map cb_change_ids (mp_batches (build_plan ord sha256_hex timestamp changes)) =
      map (\<lambda>k. map pc_change_id (?grp k)) ?ks"
    unfolding mp_batches_eq [OF assms] map_map comp_def
    by (rule map_cong [OF refl]) (rule build_batch_ids(1) [OF k])
  then have "concat (map cb_change_ids (mp_batches (build_plan ord sha256_hex timestamp changes))) =
      map pc_change_id (concat (map ?grp ?ks))"
    by (simp only: map_concat map_map comp_def)
  moreover have "mset (concat (map ?grp ?ks)) = mset ?ps"
  proof (rule mset_groups)
    have "set ?ks = pc_component_id ` set ?ps"
      unfolding component_numbers [OF assms] by (auto simp del: upt_Suc)
    then show "\<forall>p\<in>set ?ps. pc_component_id p \<in> set ?ks" by blast
  qed simp
  ultimately show "mset (concat (map cb_change_ids (mp_batches (build_plan ord sha256_hex timestamp changes)))) =
      mset (map pc_change_id (mp_changes (build_plan ord sha256_hex timestamp changes)))"
    by (simp only: build_plan_simps mset_map)
  show "map cb_component_id (mp_batches (build_plan ord sha256_hex timestamp changes)) =
      [1..<Suc (mp_component_count (build_plan ord sha256_hex timestamp changes))]"
    unfolding mp_batches_eq [OF assms] map_map comp_def build_plan_simps(2)
    by (rule map_idI) (rule build_batch_ids(2) [OF k])
qed

lemma depends_same_component:
  assumes "perm_order ord" and "(i, j) \<in> (depends ps)\<^sup>+"
  shows "pc_component_id (compute_dependencies_and_components ord ps ! i) =
    pc_component_id (compute_dependencies_and_components ord ps ! j)"
proof -
  have "i < length ps" "j < length ps" using depends_trancl_range [OF assms(2)] by auto
  moreover have "(i, j) \<in> related ps" using calculation assms(2) by (simp add: related_def)
  ultimately show ?thesis using assms(1)
    by (simp add: compute_deps_nth component_ids_eq_iff sym_graph_undirected edges_undirected r_into_rtrancl)
qed

text \<open>Approving or rejecting a batch never splits a change from what it needs: the dependencies
  of a change are in the change's own batch.\<close>

theorem batch_contains_dependencies:
  assumes "perm_order ord"
    and "b \<in> set (mp_batches (build_plan ord sha256_hex timestamp changes))"
    and "p \<in> set (mp_changes (build_plan ord sha256_hex timestamp changes))"
    and "pc_change_id p \<in> set (cb_change_ids b)"
  shows "set (pc_depends_on p) \<subseteq> set (cb_change_ids b)"
proof -
  define us where "us = unplanned timestamp changes"
  define ps where "ps = compute_dependencies_and_components ord us"
  have ids: "map pc_change_id ps = map pc_change_id us"
    unfolding ps_def by (rule map_compute_deps) simp
  obtain i where i: "i < length us" "p = ps ! i"
    using assms(3) by (auto simp: build_plan_simps plan_changes_unplanned ps_def us_def in_set_conv_nth)
  obtain k where k: "k \<in> pc_component_id ` set ps" "b = the (build_batch ps k)"
    using mem_batches [OF assms(1,2)] by (metis plan_changes_unplanned ps_def us_def)
  obtain q where q: "q \<in> set ps" "pc_component_id q = k" "pc_change_id q = pc_change_id p"
    using assms(4) by (auto simp: k(2) build_batch_ids(1) [OF k(1)])
  have "inj_on pc_change_id (set ps)"
    using distinct_change_ids [of timestamp changes] ids us_def distinct_map by metis
  then have "q = p" using q i by (auto simp: ps_def dest: inj_onD)
  have "pc_change_id (us ! j) \<in> set (cb_change_ids b)" if d: "(i, j) \<in> (depends us)\<^sup>+" for j
  proof -
    have j: "j < length us" using depends_trancl_range [OF d] by simp
    have "pc_component_id (ps ! j) = k"
      using depends_same_component [OF assms(1) d] q(2) \<open>q = p\<close> i(2) by (simp add: ps_def)
    moreover have "ps ! j \<in> set ps" using j by (simp add: ps_def)
    ultimately have "pc_change_id (ps ! j) \<in> set (cb_change_ids b)"
      unfolding k(2) build_batch_ids(1) [OF k(1)] by auto
    then show ?thesis
      using j ids by (metis length_compute_deps nth_map ps_def)
  qed
  then show ?thesis
    using compute_deps_depends_on [OF i(1), of ord] by (auto simp: i(2) ps_def)
qed

section \<open>Order and flags\<close>

lemma unplanned_nth:
  "p \<in> set (unplanned timestamp changes) \<Longrightarrow> \<exists>i c. p = from_change c i timestamp"
  by (auto simp: unplanned_def sort_by_dependency_def)

lemma plan_changes_from_change:
  assumes "p \<in> set (plan_changes ord timestamp changes)"
  shows "\<exists>i c deps cid. p = (from_change c i timestamp)\<lparr>pc_depends_on := deps, pc_component_id := cid\<rparr>"
proof -
  obtain i where i: "i < length (unplanned timestamp changes)"
      "p = compute_dependencies_and_components ord (unplanned timestamp changes) ! i"
    using assms by (auto simp: plan_changes_unplanned in_set_conv_nth simp del: length_unplanned)
  then show ?thesis
    using unplanned_nth [of "unplanned timestamp changes ! i" timestamp changes]
    by (metis compute_deps_nth nth_mem)
qed

lemma creator_key_order: "creator_key c = Some k \<Longrightarrow> change_order c \<le> 21"
  by (cases c) (simp_all add: creator_key_def)

lemma change_order_ge: "10 \<le> change_order c"
  by (cases c) simp_all

lemma change_order_10: "change_order c = 10 \<Longrightarrow> \<exists>e. c = CreateEnum e"
  by (cases c) simp_all


text \<open>The changes that can lose data, and those with a rollback statement.\<close>

definition may_lose_data :: "schema_change \<Rightarrow> bool" where
  "may_lose_data c \<longleftrightarrow>
     (case c of DropTable n p \<Rightarrow> True | DropColumn t n p \<Rightarrow> True | DropEnum n \<Rightarrow> True
      | AlterColumnType t n fr to \<Rightarrow> \<not> is_safe_cast_to fr to | _ \<Rightarrow> False)"

definition reversible :: "schema_change \<Rightarrow> bool" where
  "reversible c \<longleftrightarrow>
     (case c of AddEnumValue n v \<Rightarrow> False | DropEnum n \<Rightarrow> False | DropColumn t n p \<Rightarrow> False
      | DropDefault t n \<Rightarrow> False | DropPrimaryKey t n \<Rightarrow> False | DropUnique t n \<Rightarrow> False
      | DropCheck t n \<Rightarrow> False | DropIndex t n \<Rightarrow> False | DropForeignKey t n p \<Rightarrow> False | _ \<Rightarrow> True)"

lemma classify_risk_destructive: "classify_risk c = Destructive \<longleftrightarrow> may_lose_data c"
  by (cases c) (simp_all add: may_lose_data_def)

lemma down_sql_reversible: "change_to_down_sql c \<noteq> None \<longleftrightarrow> reversible c"
  by (cases c) (simp_all add: reversible_def split: prod.split)

text \<open>The flags of a planned change: it needs approval and a backup exactly when its change may
  lose data, it can be rolled back exactly when its kind has a rollback statement, and its texts
  and objects are those of its change.\<close>

theorem planned_change_flags:
  assumes "p \<in> set (mp_changes (build_plan ord sha256_hex timestamp changes))"
  shows "(pc_requires_approval p \<longleftrightarrow> may_lose_data (pc_change p)) \<and>
    (pc_requires_backup p \<longleftrightarrow> may_lose_data (pc_change p)) \<and>
    (pc_can_auto_rollback p \<longleftrightarrow> reversible (pc_change p)) \<and>
    pc_up_sql p = change_to_up_sql (pc_change p) \<and>
    pc_down_sql p = change_to_down_sql (pc_change p) \<and>
    pc_affected_objects p = affected_objects_for (pc_change p)"
proof -
  obtain i c deps cid where
      "p = (from_change c i timestamp)\<lparr>pc_depends_on := deps, pc_component_id := cid\<rparr>"
    using plan_changes_from_change assms unfolding build_plan_simps by blast
  then show ?thesis
    by (simp add: from_change_def classify_risk_destructive down_sql_reversible [symmetric])
qed

lemma count_risk_sum:
  "count_risk Safe ms + count_risk Risky ms + count_risk Destructive ms = length ms"
proof (induction ms)
  case (Cons m ms)
  then show ?case by (cases "pc_risk m") (simp_all add: count_risk_def)
qed (simp add: count_risk_def)

text \<open>The summary of a batch counts its changes: safe, risky and destructive ones add up to the
  number of changes listed, a batch of several changes is marked as chained, and no batch is
  empty.\<close>

theorem batch_summary_counts:
  assumes "perm_order ord" and "b \<in> set (mp_batches (build_plan ord sha256_hex timestamp changes))"
  shows "bs_total (cb_summary b) = length (cb_change_ids b) \<and>
    bs_safe_count (cb_summary b) + bs_risky_count (cb_summary b) + bs_destructive_count (cb_summary b) =
      bs_total (cb_summary b) \<and>
    cb_is_chained b = (1 < length (cb_change_ids b)) \<and> cb_change_ids b \<noteq> []"
proof -
  let ?ps = "plan_changes ord timestamp changes"
  obtain k where k: "k \<in> pc_component_id ` set ?ps" "b = the (build_batch ?ps k)"
    by (rule mem_batches [OF assms])
  then have "filter (\<lambda>p. pc_component_id p = k) ?ps \<noteq> []" by (auto simp: filter_empty_conv)
  then show ?thesis
    unfolding k(2) by (simp add: build_batch_def Let_def count_risk_sum)
qed

text \<open>A changed primary key is planned in the wrong order: the diff emits the drop before the
  addition, but the ranks put the addition of the new key before the drop of the old one.\<close>

theorem primary_key_replaced_in_wrong_order:
  assumes "pk_columns old \<noteq> pk_columns new"
  shows "map pc_change (mp_changes (build_plan ord sha256_hex timestamp
      (diff_primary_key table (Some old) (Some new)))) =
    [AddPrimaryKey table (pk_name new) (pk_columns new), DropPrimaryKey table (pk_name old)]"
  using assms by (simp add: build_plan_simps plan_changes_change)

definition orders_then_users :: "schema_change list" where
  "orders_then_users =
     [CreateTable (sample_table ''orders'' [sample_column ''user_id'' Integer] [sample_fk ''f'' ''user_id'' ''users'']),
      CreateTable (sample_table ''users'' [sample_column ''id'' Integer] [])]"

text \<open>Tables of one diff are created in the order of the desired schema, whatever they refer to:
  a table whose inline foreign key refers to a table created after it is planned before the table
  it is recorded to depend on.\<close>

theorem inline_foreign_key_before_target:
  "map pc_change (mp_changes (build_plan ord sha256_hex timestamp orders_then_users)) = orders_then_users \<and>
   map pc_depends_on (mp_changes (build_plan (\<lambda>keys. keys) sha256_hex ''m'' orders_then_users)) = [[''m_1''], []]"
proof
  show "map pc_change (mp_changes (build_plan ord sha256_hex timestamp orders_then_users)) = orders_then_users"
    by (simp add: build_plan_simps plan_changes_change orders_then_users_def)
  show "map pc_depends_on (mp_changes (build_plan (\<lambda>keys. keys) sha256_hex ''m'' orders_then_users)) = [[''m_1''], []]"
    unfolding build_plan_simps by code_simp
qed

section \<open>Witnesses\<close>

definition column_with_new_enum :: "schema_change list" where
  "column_with_new_enum =
     [AddColumn ''users'' (sample_column ''role'' (EnumT ''role'')), CreateEnum (sample_enum ''role'' [''admin''])]"

definition enum_plan :: migration_plan where
  "enum_plan = build_plan (\<lambda>k. k) (\<lambda>s. s) ''m'' column_with_new_enum"

lemma enum_plan_values:
  "map pc_change_id (mp_changes enum_plan) = [''m_1'', ''m_0'']"
  "map pc_change (mp_changes enum_plan) = [column_with_new_enum ! 1, column_with_new_enum ! 0]"
  "map pc_affected_objects (mp_changes enum_plan) = [[''role''], [''users'', ''users.role'', ''role'']]"
  "map cb_change_ids (mp_batches enum_plan) = [[''m_1'', ''m_0'']]"
  "map creator_key column_with_new_enum = [None, Some ''role'']"
  "map change_order column_with_new_enum = [30, 10]"
  "lookup_key ''role'' = ''role''"
  by code_simp+

lemma map_two: "map f xs = [a, b] \<Longrightarrow> length xs = 2 \<and> f (xs ! 0) = a \<and> f (xs ! Suc 0) = b"
  by (cases xs; cases "tl xs") auto

lemma map_one: "map f xs = [a] \<Longrightarrow> length xs = 1 \<and> f (xs ! 0) = a"
  by (cases xs) auto

lemmas enum_plan_simps =
  enum_plan_values(1,2,3,5,6) [THEN map_two] enum_plan_values(4) [THEN map_one] enum_plan_values(7)

lemma enum_plan_mem: "mp_changes enum_plan ! 1 \<in> set (mp_changes enum_plan)"
  "mp_batches enum_plan ! 0 \<in> set (mp_batches enum_plan)"
  by (simp_all add: enum_plan_simps)

lemma enum_plan_depends: "(1, 0) \<in> depends (mp_changes enum_plan)"
  by (simp add: depends_def enum_plan_simps)



lemma batches_partition_witness:
  "mset (concat (map cb_change_ids (mp_batches enum_plan))) = mset (map pc_change_id (mp_changes enum_plan)) \<and>
   map cb_component_id (mp_batches enum_plan) = [1..<Suc (mp_component_count enum_plan)]"
  unfolding enum_plan_def by (rule batches_partition_changes) simp

lemma batch_dependencies_witness:
  "set (pc_depends_on (mp_changes enum_plan ! 1)) \<subseteq> set (cb_change_ids (mp_batches enum_plan ! 0))"
  by (rule batch_contains_dependencies
      [OF perm_order_id enum_plan_mem(2,1) [unfolded enum_plan_def], folded enum_plan_def])
    (simp add: enum_plan_simps)


lemma planned_flags_witness:
  "pc_requires_approval (mp_changes enum_plan ! 1) = may_lose_data (column_with_new_enum ! 0) \<and>
   pc_up_sql (mp_changes enum_plan ! 1) = change_to_up_sql (column_with_new_enum ! 0)"
  using planned_change_flags [OF enum_plan_mem(1) [unfolded enum_plan_def], folded enum_plan_def]
  by (simp add: enum_plan_simps)

lemma batch_summary_witness:
  "bs_total (cb_summary (mp_batches enum_plan ! 0)) = 2 \<and> cb_is_chained (mp_batches enum_plan ! 0)"
  using batch_summary_counts
    [OF perm_order_id enum_plan_mem(2) [unfolded enum_plan_def], folded enum_plan_def]
  by (simp add: enum_plan_simps)

lemma primary_key_order_witness:
  "map pc_change (mp_changes (build_plan (\<lambda>k. k) (\<lambda>s. s) ''m''
      (diff_primary_key ''t'' (Some \<lparr>pk_name = ''t_pk'', pk_columns = [''a'']\<rparr>)
        (Some \<lparr>pk_name = ''t_pk'', pk_columns = [''b'']\<rparr>)))) =
    [AddPrimaryKey ''t'' ''t_pk'' [''b''], DropPrimaryKey ''t'' ''t_pk'']"
  using primary_key_replaced_in_wrong_order [of "\<lparr>pk_name = ''t_pk'', pk_columns = [''a'']\<rparr>"
      "\<lparr>pk_name = ''t_pk'', pk_columns = [''b'']\<rparr>"] by simp

end
