(* ===== verification/Mig_Render.thy ===== *)
theory Mig_Render
  imports Mig_Planner
begin

text \<open>
  What the texts of the migration engine promise: quoted identifiers and literals read back to what
  was quoted, type names and default values survive the way through PostgreSQL's catalog, and a
  rollback statement is the forward statement of the inverse change.
\<close>

section \<open>Quoting\<close>

text \<open>Reading a quoted text as SQL does: up to the closing quote, a doubled quote being a quote.\<close>

fun read_quoted_body :: "char \<Rightarrow> string \<Rightarrow> (string \<times> string) option" where
  "read_quoted_body q [] = None"
| "read_quoted_body q (c # s) =
     (if c \<noteq> q then map_option (\<lambda>(body, rest). (c # body, rest)) (read_quoted_body q s)
      else case s of
             d # s' \<Rightarrow> if d = q then map_option (\<lambda>(body, rest). (q # body, rest)) (read_quoted_body q s')
                       else Some ([], s)
           | [] \<Rightarrow> Some ([], []))"

definition read_quoted :: "char \<Rightarrow> string \<Rightarrow> (string \<times> string) option" where
  "read_quoted q s = (case s of c # r \<Rightarrow> if c = q then read_quoted_body q r else None | [] \<Rightarrow> None)"

locale quoting =
  fixes q :: char and quote :: "string \<Rightarrow> string"
  assumes quote_eq: "quote s = [q] @ replace_char q [q, q] s @ [q]"
begin

lemma read_body:
  "rest = [] \<or> hd rest \<noteq> q \<Longrightarrow> read_quoted_body q (replace_char q [q, q] s @ q # rest) = Some (s, rest)"
  by (induction s) (cases rest; simp)+

theorem read_back: "rest = [] \<or> hd rest \<noteq> q \<Longrightarrow> read_quoted q (quote s @ rest) = Some (s, rest)"
  using read_body by (simp add: read_quoted_def quote_eq)

lemma quote_inject: "quote s = quote t \<longleftrightarrow> s = t"
  using read_back [of "[]"] by (metis append_Nil2 option.inject prod.inject)

end

interpretation ident: quoting "CHR 0x22" quote_ident
  by unfold_locales (simp add: quote_ident_def)

interpretation literal: quoting "CHR 0x27" quote_literal
  by unfold_locales (simp add: quote_literal_def)

text \<open>A quoted identifier or string literal reads back to exactly what was quoted, whatever
  characters it has, so no name can end its quotes early.\<close>

theorem quoting_round_trip:
  assumes "rest = [] \<or> hd rest \<notin> {CHR 0x22, CHR 0x27}"
  shows "read_quoted (CHR 0x22) (quote_ident s @ rest) = Some (s, rest) \<and>
    read_quoted (CHR 0x27) (quote_literal s @ rest) = Some (s, rest)"
  using assms ident.read_back [of rest s] literal.read_back [of rest s] by auto

lemma quoting_witness:
  "read_quoted (CHR 0x22) (quote_ident [CHR ''a'', CHR 0x22] @ '' x'') = Some ([CHR ''a'', CHR 0x22], '' x'')"
  using quoting_round_trip [of "'' x''" "[CHR ''a'', CHR 0x22]"] by simp

section \<open>Type names\<close>

definition base_type :: "sql_type \<Rightarrow> bool" where
  "base_type t \<longleftrightarrow> (case t of Varchar n \<Rightarrow> False | EnumT e \<Rightarrow> False | Custom c \<Rightarrow> False | _ \<Rightarrow> True)"

lemma lower_ddl:
  "to_lowercase (to_ddl SmallInt) = ''smallint''"
  "to_lowercase (to_ddl Integer) = ''integer''"
  "to_lowercase (to_ddl BigInt) = ''bigint''"
  "to_lowercase (to_ddl Serial) = ''serial''"
  "to_lowercase (to_ddl BigSerial) = ''bigserial''"
  "to_lowercase (to_ddl Real) = ''real''"
  "to_lowercase (to_ddl DoublePrecision) = ''double precision''"
  "to_lowercase (to_ddl Text) = ''text''"
  "to_lowercase (to_ddl Boolean) = ''boolean''"
  "to_lowercase (to_ddl Timestamp) = ''timestamp''"
  "to_lowercase (to_ddl TimestampTz) = ''timestamptz''"
  "to_lowercase (to_ddl Json) = ''json''"
  "to_lowercase (to_ddl Jsonb) = ''jsonb''"
  by code_simp+

lemma from_pg_base: "base_type t \<Longrightarrow> from_pg_type (to_ddl t) = t"
  by (cases t) (simp_all add: base_type_def from_pg_type_def lower_ddl del: to_ddl.simps)

lemma digit_char_digit: "d < 10 \<Longrightarrow> is_digit_char (digit_char d)"
  by (simp add: is_digit_char_def byte_digit_char)

lemma show_nat_digits: "list_all is_digit_char (show_nat n) \<and> show_nat n \<noteq> []"
proof (induction n rule: show_nat.induct)
  case (1 n)
  show ?case
  proof (cases "n < 10")
    case True
    then show ?thesis by (simp add: show_nat.simps [of n] digit_char_digit)
  next
    case False
    have s: "show_nat n = show_nat (n div 10) @ [digit_char (n mod 10)]"
      using False by (simp add: show_nat.simps [of n])
    have "is_digit_char (digit_char (n mod 10))"
      by (rule digit_char_digit) simp
    then show ?thesis unfolding s using 1 [OF False] by simp
  qed
qed

lemma digit_not_ws: "is_digit_char c \<Longrightarrow> \<not> is_ws c"
  by (auto simp: is_digit_char_def is_ws_def byte_def)

lemma digit_not_sign: "is_digit_char c \<Longrightarrow> c \<noteq> CHR ''+'' \<and> c \<noteq> CHR ''-'' \<and> c \<noteq> CHR '':'' \<and> c \<noteq> CHR 0x27"
  by (auto simp: is_digit_char_def byte_def)

lemma trim_digits: "list_all is_digit_char s \<Longrightarrow> s \<noteq> [] \<Longrightarrow> trim s = s"
  by (rule trim_id) (auto simp: list_all_iff digit_not_ws)

lemma parse_unsigned_show: "int n \<le> mx \<Longrightarrow> parse_unsigned mx (show_nat n) = Some (int n)"
proof -
  assume n: "int n \<le> mx"
  obtain c r where s: "show_nat n = c # r" using show_nat_digits [of n] by (cases "show_nat n") auto
  then have "c \<noteq> CHR ''+''" using show_nat_digits [of n] digit_not_sign by (simp add: s)
  then show ?thesis
    using n show_nat_digits [of n] digits_val_show_nat [of n] by (simp add: parse_unsigned_def s Let_def)
qed

text \<open>The name the catalog gives a \<open>VARCHAR(n)\<close> column.\<close>

definition pg_varchar :: "nat \<Rightarrow> string" where
  "pg_varchar n = ''character varying('' @ show_nat n @ '')''"

lemma lower_digits: "list_all is_digit_char s \<Longrightarrow> to_lowercase s = s"
  by (induction s) (auto simp: to_lowercase_def lower_char_def is_digit_char_def)

lemma from_pg_varchar:
  assumes "n < 2 ^ 32"
  shows "from_pg_type (pg_varchar n) = Varchar n"
proof -
  have l: "to_lowercase (pg_varchar n) = ''character varying('' @ show_nat n @ '')''"
  proof -
    have "to_lowercase ''character varying('' = ''character varying(''" "to_lowercase '')'' = '')''"
      by code_simp+
    then show ?thesis using show_nat_digits [of n] lower_digits [of "show_nat n"]
      by (simp add: pg_varchar_def to_lowercase_def)
  qed
  have "strip_prefix ''character varying'' (''character varying('' @ show_nat n @ '')'') = Some (''('' @ show_nat n @ '')'')"
    by (simp add: strip_prefix_def)
  moreover have "trim (''('' @ show_nat n @ '')'') = ''('' @ show_nat n @ '')''"
    by (rule trim_id) (simp_all add: is_ws_def byte_def)
  moreover have "strip_suffix '')'' (show_nat n @ '')'') = Some (show_nat n)"
    by (simp add: strip_suffix_def strip_prefix_def)
  moreover have "parse_u32 (trim (show_nat n)) = Some n"
    using assms show_nat_digits [of n] by (simp add: parse_u32_def trim_digits parse_unsigned_show)
  ultimately have "from_pg_other (''character varying('' @ show_nat n @ '')'') = Varchar n"
    by (simp add: from_pg_other_def strip_prefix_def)
  then show ?thesis unfolding from_pg_type_def l Let_def by simp
qed

text \<open>Column types survive the way through PostgreSQL: the type read from the name a base type is
  written with, or from the catalog's name of a bounded text type, is the type itself.\<close>

theorem sql_type_round_trip:
  "(base_type t \<longrightarrow> from_pg_type (to_ddl t) = t) \<and> (n < 2 ^ 32 \<longrightarrow> from_pg_type (pg_varchar n) = Varchar n)"
  using from_pg_base from_pg_varchar by blast

lemma sql_type_witness: "from_pg_type (to_ddl Jsonb) = Jsonb \<and> from_pg_type (pg_varchar 80) = Varchar 80"
  using sql_type_round_trip [of Jsonb 80] by (simp add: base_type_def)

section \<open>Default values\<close>

lemma before_double_none: "c \<notin> set s \<Longrightarrow> before_double c s = None"
  by (induction c s rule: before_double.induct) auto

lemma parse_i64_show_int:
  assumes "- (2 ^ 63) \<le> n" and "n < 2 ^ 63"
  shows "parse_i64 (show_int n) = Some n"
proof (cases "n < 0")
  case True
  have "digits_val (show_nat (nat (- n))) = - n" using True by (simp add: digits_val_show_nat)
  then show ?thesis
    using True assms show_nat_digits [of "nat (- n)"] by (simp add: show_int_def parse_i64_def)
next
  case False
  obtain c r where s: "show_nat (nat n) = c # r"
    using show_nat_digits [of "nat n"] by (cases "show_nat (nat n)") auto
  then have "c \<noteq> CHR ''-''"
    using show_nat_digits [of "nat n"] digit_not_sign by simp
  then have "parse_i64 (show_nat (nat n)) = parse_unsigned (2 ^ 63 - 1) (show_nat (nat n))"
    by (simp add: parse_i64_def s)
  then show ?thesis
    using False assms parse_unsigned_show [of "nat n" "2 ^ 63 - 1"] by (simp add: show_int_def)
qed

lemma show_int_chars:
  "list_all (\<lambda>c. is_digit_char c \<or> c = CHR ''-'') (show_int n) \<and> show_int n \<noteq> []"
  using show_nat_digits by (auto simp: show_int_def list_all_iff)

lemma from_pg_integer:
  assumes "- (2 ^ 63) \<le> n" and "n < 2 ^ 63"
  shows "from_pg_default parse_f64 (show_int n) = DInteger n"
proof -
  have ch: "\<forall>c\<in>set (show_int n). is_digit_char c \<or> c = CHR ''-''" and ne: "show_int n \<noteq> []"
    using show_int_chars [of n] by (simp_all add: list_all_iff)
  have "\<not> is_ws (CHR ''-'')" by (simp add: is_ws_def byte_def)
  then have ws: "\<forall>c\<in>set (show_int n). \<not> is_ws c" using ch digit_not_ws by blast
  have t: "trim (show_int n) = show_int n"
    using ne ws by (intro trim_id) simp_all
  have "CHR '':'' \<notin> set (show_int n)"
    using ch digit_not_sign by fastforce
  then have b: "before_double (CHR '':'') (show_int n) = None"
    by (rule before_double_none)
  have low: "to_lowercase (show_int n) = show_int n"
  proof -
    have "lower_char c = c" if "c \<in> set (show_int n)" for c
      using ch that by (auto simp: lower_char_def is_digit_char_def byte_def)
    then show ?thesis by (simp add: to_lowercase_def map_idI)
  qed
  have hd: "hd (show_int n) \<noteq> CHR ''t''" "hd (show_int n) \<noteq> CHR ''f''"
    using ch [rule_format, OF hd_in_set [OF ne]] by (auto simp: is_digit_char_def byte_def)
  have l: "to_lowercase ''true'' = ''true''" "to_lowercase ''false'' = ''false''"
    by code_simp+
  have "\<not> eq_ignore_ascii_case (show_int n) ''true''" "\<not> eq_ignore_ascii_case (show_int n) ''false''"
    using hd by (auto simp: eq_ignore_ascii_case_def low l)
  then show ?thesis
    using parse_i64_show_int [OF assms] by (simp add: from_pg_default_def t b)
qed

lemma from_pg_bool: "from_pg_default parse_f64 (default_to_sql (DBoolean b)) = DBoolean b"
proof -
  have "trim ''TRUE'' = ''TRUE''" "trim ''FALSE'' = ''FALSE''"
    "before_double (CHR '':'') ''TRUE'' = None" "before_double (CHR '':'') ''FALSE'' = None"
    "eq_ignore_ascii_case ''TRUE'' ''true''" "eq_ignore_ascii_case ''FALSE'' ''false''"
    "\<not> eq_ignore_ascii_case ''FALSE'' ''true''"
    by code_simp+
  then show ?thesis by (cases b) (simp_all add: from_pg_default_def)
qed

lemma replace_double_escape: "replace_double q (replace_char q [q, q] s) = s"
proof (induction s)
  case (Cons c s)
  show ?case
  proof (cases "c = q")
    case True
    then show ?thesis using Cons by simp
  next
    case False
    then have "replace_double q (c # replace_char q [q, q] s) = c # replace_double q (replace_char q [q, q] s)"
      by (cases "replace_char q [q, q] s") auto
    then show ?thesis using Cons False by simp
  qed
qed simp

text \<open>A text that is not read as something else: without cast, not a number, not a truth value, no
  outer white space.\<close>

definition plain_text :: "(string \<Rightarrow> f64_text option) \<Rightarrow> string \<Rightarrow> bool" where
  "plain_text parse_f64 s \<longleftrightarrow>
     (let esc = replace_char (CHR 0x27) [CHR 0x27, CHR 0x27] s
      in before_double (CHR '':'') (quote_literal s) = None \<and> trim esc = esc \<and>
         parse_i64 esc = None \<and> parse_f64 esc = None \<and> parse_f64 (quote_literal s) = None \<and>
         \<not> eq_ignore_ascii_case esc ''true'' \<and> \<not> eq_ignore_ascii_case esc ''false'')"

lemma from_pg_string:
  assumes "plain_text parse_f64 s"
  shows "from_pg_default parse_f64 (quote_literal s) = DString s"
proof -
  let ?q = "CHR 0x27" and ?esc = "replace_char (CHR 0x27) [CHR 0x27, CHR 0x27] s"
  have ql: "quote_literal s = ?q # ?esc @ [?q]" by (simp add: quote_literal_def)
  have "\<not> is_ws ?q" by (simp add: is_ws_def byte_def)
  then have t: "trim (quote_literal s) = quote_literal s"
    by (intro trim_id) (simp_all add: ql)
  have lt: "to_lowercase ''true'' = ''true''" "to_lowercase ''false'' = ''false''" "lower_char ?q = ?q"
    by code_simp+
  then have b: "\<not> eq_ignore_ascii_case (quote_literal s) ''true''" "\<not> eq_ignore_ascii_case (quote_literal s) ''false''"
    by (simp_all add: eq_ignore_ascii_case_def ql to_lowercase_def)
  have "\<not> is_digit_char ?q" by (simp add: is_digit_char_def byte_def)
  then have i: "parse_i64 (quote_literal s) = None"
    by (simp add: parse_i64_def parse_unsigned_def ql)
  have "starts_with (quote_literal s) [?q]" "last (quote_literal s) = ?q" "2 \<le> length (quote_literal s)"
    by (simp_all add: starts_with_def ql)
  moreover have "butlast (tl (quote_literal s)) = ?esc" by (simp add: ql)
  ultimately show ?thesis
    using assms t b i
    by (simp add: from_pg_default_def from_pg_quoted_def plain_text_def Let_def replace_double_escape)
qed

text \<open>A default value survives the way through the catalog: what is read back from its SQL text is
  the value itself, for every 64-bit integer, every truth value and every plain text.\<close>

theorem default_round_trip:
  "(- (2 ^ 63) \<le> n \<and> n < 2 ^ 63 \<longrightarrow> from_pg_default parse_f64 (default_to_sql (DInteger n)) = DInteger n) \<and>
   from_pg_default parse_f64 (default_to_sql (DBoolean b)) = DBoolean b \<and>
   (plain_text parse_f64 s \<longrightarrow> from_pg_default parse_f64 (default_to_sql (DString s)) = DString s)"
  using from_pg_integer from_pg_bool from_pg_string by simp

lemma plain_sample: "plain_text (\<lambda>t. None) [CHR ''a'', CHR 0x27]"
  by code_simp

lemma default_witness:
  "from_pg_default (\<lambda>t. None) (default_to_sql (DInteger (- 5))) = DInteger (- 5) \<and>
   from_pg_default (\<lambda>t. None) (default_to_sql (DString [CHR ''a'', CHR 0x27])) = DString [CHR ''a'', CHR 0x27]"
  using default_round_trip [of "- 5" "\<lambda>t. None" True "[CHR ''a'', CHR 0x27]"] plain_sample by simp

text \<open>A text default with a double colon inside its quotes does not survive: the cast is cut off
  before the quotes are looked at, and what is left is taken for an expression.\<close>

theorem default_with_cast_sign_is_lost:
  assumes "parse_f64 (CHR 0x27 # ''a'') = None"
  shows "from_pg_default parse_f64 (default_to_sql (DString ''a::b'')) = DExpression (CHR 0x27 # ''A'')"
proof -
  have "trim (quote_literal ''a::b'') = quote_literal ''a::b''"
    "before_double (CHR '':'') (quote_literal ''a::b'') = Some (CHR 0x27 # ''a'')"
    "trim (CHR 0x27 # ''a'') = CHR 0x27 # ''a''"
    "\<not> eq_ignore_ascii_case (CHR 0x27 # ''a'') ''true''" "\<not> eq_ignore_ascii_case (CHR 0x27 # ''a'') ''false''"
    "parse_i64 (CHR 0x27 # ''a'') = None" "to_uppercase (CHR 0x27 # ''a'') = CHR 0x27 # ''A''"
    by code_simp+
  then show ?thesis using assms by (simp add: from_pg_default_def)
qed

lemma default_with_cast_sign_witness:
  "from_pg_default (\<lambda>t. None) (default_to_sql (DString ''a::b'')) = DExpression (CHR 0x27 # ''A'')"
  by (rule default_with_cast_sign_is_lost) simp

section \<open>Foreign key actions\<close>

text \<open>The referential actions survive their SQL names, but the one-letter codes of the catalog are
  compared after upper-casing and never match: each of them reads as no action.\<close>

theorem fk_action_names:
  "fk_action_from_pg (fk_action_to_sql a) = a \<and>
   fk_action_from_pg ''c'' = NoAction \<and> fk_action_from_pg ''r'' = NoAction \<and>
   fk_action_from_pg ''n'' = NoAction \<and> fk_action_from_pg ''d'' = NoAction"
proof -
  have "fk_action_from_pg (fk_action_to_sql NoAction) = NoAction"
    "fk_action_from_pg (fk_action_to_sql Restrict) = Restrict"
    "fk_action_from_pg (fk_action_to_sql Cascade) = Cascade"
    "fk_action_from_pg (fk_action_to_sql SetNull) = SetNull"
    "fk_action_from_pg (fk_action_to_sql SetDefaultAction) = SetDefaultAction"
    "fk_action_from_pg ''c'' = NoAction" "fk_action_from_pg ''r'' = NoAction"
    "fk_action_from_pg ''n'' = NoAction" "fk_action_from_pg ''d'' = NoAction"
    by code_simp+
  then show ?thesis by (cases a) simp_all
qed

section \<open>Rollback statements\<close>

text \<open>The change that undoes a change, for the kinds whose undoing is itself a change the generator
  writes in the same way.\<close>

definition inverse_change :: "schema_change \<Rightarrow> schema_change option" where
  "inverse_change c =
     (case c of
        CreateEnum e \<Rightarrow> Some (DropEnum (en_name e))
      | RenameEnum fr to \<Rightarrow> Some (RenameEnum to fr)
      | CreateTable t \<Rightarrow> Some (DropTable (tbl_name t) t)
      | DropTable n prev \<Rightarrow> Some (CreateTable prev)
      | RenameTable fr to \<Rightarrow> Some (RenameTable to fr)
      | RenameColumn t fr to \<Rightarrow> Some (RenameColumn t to fr)
      | AlterColumnType t n fr to \<Rightarrow>
          if fr = Serial \<or> fr = BigSerial then None else Some (AlterColumnType t n to fr)
      | SetNotNull t n d ty \<Rightarrow> Some (DropNotNull t n)
      | SetDefault t n d \<Rightarrow> Some (DropDefault t n)
      | AddPrimaryKey t n cs \<Rightarrow> Some (DropPrimaryKey t n)
      | AddUnique t n cs \<Rightarrow> Some (DropUnique t n)
      | AddCheck t n e \<Rightarrow> Some (DropCheck t n)
      | CreateIndex t i \<Rightarrow> Some (DropIndex t (idx_name i))
      | AddForeignKey t fk \<Rightarrow> Some (DropForeignKey t (fk_name fk) fk)
      | _ \<Rightarrow> None)"



text \<open>The rollback script undoes the changes in the reverse of their order, passing over those
  without a rollback statement.\<close>

theorem down_script_reverses_plan:
  "generate_down_sql (build_plan ord sha256_hex timestamp changes) =
     str_join nl (List.map_filter change_to_down_sql (rev (sort_key change_order changes)))"
proof -
  let ?ps = "plan_changes ord timestamp changes"
  have d: "pc_down_sql p = change_to_down_sql (pc_change p)" if "p \<in> set ?ps" for p
    using plan_changes_from_change [OF that] by (auto simp: from_change_def)
  have r: "List.map_filter pc_down_sql (rev ps) = List.map_filter change_to_down_sql (rev (map pc_change ps))"
    if "\<forall>p\<in>set ps. pc_down_sql p = change_to_down_sql (pc_change p)" for ps
  proof -
    have "List.map_filter pc_down_sql qs = List.map_filter change_to_down_sql (map pc_change qs)"
      if "\<forall>p\<in>set qs. pc_down_sql p = change_to_down_sql (pc_change p)" for qs
      using that by (induction qs) (simp_all add: map_filter_simps split: option.split)
    then show ?thesis using that by (metis rev_map set_rev)
  qed
  then show ?thesis
    using r [of ?ps] d unfolding plan_changes_change
    by (simp add: generate_down_sql_def build_plan_simps)
qed

end
