(* ===== verification/Mig_Executor.thy ===== *)
theory Mig_Executor
  imports Mig_Execute Mig_Planner Mig_Render
begin

text \<open>
  What the executor promises: a script is cut into its statements, the statements run in order and
  stop at the first error, the advisory lock brackets every run, an applied migration is not run
  again, the history records the outcome, a rollback marks exactly the migrations it undid.
\<close>

section \<open>Statements\<close>

text \<open>A text without a statement end outside its string literals, all of which are closed.\<close>

fun skip_literal :: "string \<Rightarrow> string option" where
  "skip_literal [] = None"
| "skip_literal (c # s) =
     (if c \<noteq> CHR 0x27 then skip_literal s
      else case s of d # s' \<Rightarrow> if d = CHR 0x27 then skip_literal s' else Some s | [] \<Rightarrow> Some [])"

lemma skip_literal_shorter: "skip_literal s = Some rest \<Longrightarrow> length rest < length s"
  by (induction s rule: skip_literal.induct) (auto split: if_splits list.splits)

function clean_statement :: "string \<Rightarrow> bool" where
  "clean_statement [] = True"
| "clean_statement (c # s) =
     (if c = CHR 0x27 then (case skip_literal s of Some rest \<Rightarrow> clean_statement rest | None \<Rightarrow> False)
      else c \<noteq> CHR '';'' \<and> clean_statement s)"
  by pat_completeness auto
termination
  by (relation "measure length") (auto dest: skip_literal_shorter)

lemma split_skip:
  "skip_literal s = Some rest \<Longrightarrow> hd t \<noteq> CHR 0x27 \<Longrightarrow> t \<noteq> [] \<Longrightarrow>
     \<exists>body. split_quoted (s @ t) = (body, rest @ t) \<and> s = body @ rest"
proof (induction s rule: skip_literal.induct)
  case (2 c s)
  show ?case
  proof (cases "c = CHR 0x27")
    case False
    then show ?thesis using 2 by fastforce
  next
    case True
    show ?thesis
    proof (cases s)
      case Nil
      then show ?thesis using 2(3-5) True by (cases t) auto
    next
      case (Cons d s')
      show ?thesis
      proof (cases "d = CHR 0x27")
        case True
        then have "skip_literal s' = Some rest" using 2(3) \<open>c = CHR 0x27\<close> Cons by simp
        then obtain body where "split_quoted (s' @ t) = (body, rest @ t)" "s' = body @ rest"
          using 2(2) [OF _ Cons True] 2(4,5) \<open>c = CHR 0x27\<close> by auto
        then show ?thesis using \<open>c = CHR 0x27\<close> Cons True by simp
      next
        case False
        then have "rest = d # s'" using 2(3) \<open>c = CHR 0x27\<close> Cons by simp
        then show ?thesis using \<open>c = CHR 0x27\<close> Cons False by simp
      qed
    qed
  qed
qed simp

lemma split_loop_clean:
  "clean_statement s \<Longrightarrow> split_loop current (s @ CHR '';'' # t) = flush_statement (current @ s) @ split_loop [] t"
proof (induction s arbitrary: current rule: clean_statement.induct)
  case (2 c s)
  show ?case
  proof (cases "c = CHR 0x27")
    case True
    then obtain rest where rest: "skip_literal s = Some rest" "clean_statement rest"
      using 2(3) by (auto split: option.splits)
    obtain body where "split_quoted (s @ CHR '';'' # t) = (body, rest @ CHR '';'' # t)" "s = body @ rest"
      using split_skip [OF rest(1), of "CHR '';'' # t"] by auto
    then show ?thesis using True 2(1) [OF True rest(1,2)] by simp
  next
    case False
    then show ?thesis using 2 by simp
  qed
qed simp

lemma clean_last: "clean_statement s \<Longrightarrow> s \<noteq> [] \<Longrightarrow> last s \<noteq> CHR '';''"
proof (induction s rule: clean_statement.induct)
  case (2 c s)
  show ?case
  proof (cases "c = CHR 0x27")
    case True
    then obtain rest where rest: "skip_literal s = Some rest" "clean_statement rest"
      using 2(3) by (auto split: option.splits)
    have tail: "s \<noteq> [] \<and> (if rest = [] then last s = CHR 0x27 else last s = last rest)"
      using rest(1)
      by (induction s rule: skip_literal.induct) (auto split: if_splits list.splits)
    then show ?thesis using 2(1) [OF True rest] by (auto split: if_splits)
  next
    case False
    then show ?thesis using 2 by auto
  qed
qed simp

lemma trim_ws: "list_all is_ws w \<Longrightarrow> trim (w @ s) = trim s"
  by (simp add: trim_def list_all_iff dropWhile_append2)

lemma split_script:
  assumes "\<forall>s\<in>set ss. clean_statement s \<and> s \<noteq> [] \<and> trim s = s" and "list_all is_ws w"
  shows "split_loop [] (w @ str_join nl (map (\<lambda>s. s @ '';'') ss)) = map (\<lambda>s. s @ '';'') ss"
  using assms
proof (induction ss arbitrary: w)
  case Nil
  have "split_loop cur w = []" if "list_all is_ws cur" "list_all is_ws w" for cur w
    using that
  proof (induction w arbitrary: cur)
    case Nil
    then have "trim (cur @ []) = trim []" by (intro trim_ws)
    then show ?case by (simp add: flush_statement_def)
  next
    case (Cons c w)
    then have "c \<noteq> CHR 0x27 \<and> c \<noteq> CHR '';''" by (auto simp: is_ws_def byte_def)
    then show ?case using Cons by simp
  qed
  then show ?case using Nil by simp
next
  case (Cons s ss)
  have s: "clean_statement s" "s \<noteq> []" "trim s = s" using Cons.prems by simp_all
  have ws_clean: "clean_statement (w @ s)"
    using Cons.prems(2) s(1) by (induction w) (auto simp: is_ws_def byte_def)
  have fl: "flush_statement (w @ s) = [s @ '';'']"
    using s clean_last [OF s(1,2)] trim_ws [OF Cons.prems(2), of s] by (simp add: flush_statement_def)
  have nlws: "list_all is_ws nl" by (simp add: nl_def is_ws_def byte_def)
  show ?case
  proof (cases ss)
    case Nil
    then have "w @ str_join nl (map (\<lambda>s. s @ '';'') (s # ss)) = (w @ s) @ CHR '';'' # []"
      by simp
    then show ?thesis using split_loop_clean [OF ws_clean, of "[]" "[]"] fl Nil
      by (simp add: flush_statement_def)
  next
    case (Cons s' ss')
    then have "w @ str_join nl (map (\<lambda>s. s @ '';'') (s # ss)) =
        (w @ s) @ CHR '';'' # (nl @ str_join nl (map (\<lambda>s. s @ '';'') ss))"
      by simp
    moreover have "split_loop [] (nl @ str_join nl (map (\<lambda>s. s @ '';'') ss)) = map (\<lambda>s. s @ '';'') ss"
      using Cons.prems nlws by (intro Cons.IH) auto
    ultimately show ?thesis using split_loop_clean [OF ws_clean, of "[]"] fl by simp
  qed
qed

text \<open>C38. Cutting a script returns the statements it was joined from: each keeps its closing semicolon,
  and a semicolon inside a string literal does not end a statement.\<close>

theorem split_joined_script:
  assumes "\<forall>s\<in>set ss. clean_statement s \<and> s \<noteq> [] \<and> trim s = s"
  shows "split_sql_statements (str_join nl (map (\<lambda>s. s @ '';'') ss)) = map (\<lambda>s. s @ '';'') ss"
  using split_script [OF assms, of "[]"] by (simp add: split_sql_statements_def)

definition two_statements :: "string list" where
  "two_statements = [''INSERT '' @ quote_literal ''a;b'', ''DROP x'']"

lemma split_witness:
  "split_sql_statements (str_join nl (map (\<lambda>s. s @ '';'') two_statements)) = map (\<lambda>s. s @ '';'') two_statements"
proof -
  have "list_all (\<lambda>s. clean_statement s \<and> s \<noteq> [] \<and> trim s = s) two_statements" by code_simp
  then show ?thesis by (intro split_joined_script) (simp add: list_all_iff)
qed

text \<open>A semicolon inside a quoted identifier does end a statement: the one statement that drops a
  table of such a name is sent as two broken ones.\<close>

theorem quoted_identifier_is_cut:
  "split_sql_statements (change_to_up_sql (DropTable ''a;b'' prev)) =
     [''DROP TABLE IF EXISTS '' @ [CHR 0x22] @ ''a;'', ''b'' @ [CHR 0x22] @ '' CASCADE;'']"
proof -
  have "split_sql_statements (''DROP TABLE IF EXISTS '' @ quote_ident ''a;b'' @ '' CASCADE;'') =
     [''DROP TABLE IF EXISTS '' @ [CHR 0x22] @ ''a;'', ''b'' @ [CHR 0x22] @ '' CASCADE;'']"
    by code_simp
  then show ?thesis by simp
qed

section \<open>Execution in order\<close>

abbreviation query_event :: "string \<Rightarrow> event" where
  "query_event stmt \<equiv> Command (SimpleQuery (wrap_statement stmt))"

lemma send_cases:
  obtains (error) e d where "db_command db c (fst w) = (Inl e, d)"
      "send db what c w = (Inl (what @ e), (d, snd w @ [Command c]))"
  | (ok) d where "db_command db c (fst w) = (Inr (), d)" "send db what c w = (Inr (), (d, snd w @ [Command c]))"
proof -
  obtain r d where r: "db_command db c (fst w) = (r, d)" by fastforce
  show ?thesis
  proof (cases r)
    case (Inl e)
    then show ?thesis using r error by (simp add: send_def)
  next
    case (Inr u)
    then show ?thesis using r ok by (simp add: send_def)
  qed
qed

lemma execute_statements_log:
  shows "case execute_statements db stmts w of
      (Inr _, w') \<Rightarrow> snd w' = snd w @ map query_event stmts
    | (Inl e, w') \<Rightarrow> (\<exists>pre stmt post d msg.
        stmts = pre @ stmt # post \<and>
        execute_statements db pre w = (Inr (), (d, snd w @ map query_event pre)) \<and>
        db_command db (SimpleQuery (wrap_statement stmt)) d = (Inl msg, fst w') \<and>
        e = ''SQL error: '' @ msg @ nl @ ''  Statement: '' @ stmt \<and>
        snd w' = snd w @ map query_event (pre @ [stmt]))"
proof (induction stmts arbitrary: w)
  case (Cons stmt stmts)
  show ?case
  proof (cases rule: send_cases [of db "SimpleQuery (wrap_statement stmt)" w "[]"])
    case (error e d)
    then show ?thesis
      by (simp add: exI [of _ "[]"])
        (rule exI [of _ "[]"], simp, rule exI [of _ "fst w"], simp)
  next
    case (ok d)
    let ?w = "(d, snd w @ [query_event stmt])"
    obtain r w' where r: "execute_statements db stmts ?w = (r, w')" by (metis surj_pair)
    show ?thesis
    proof (cases r)
      case (Inr u)
      then show ?thesis using Cons [of ?w] ok r by simp
    next
      case (Inl e)
      then obtain pre s post d' msg where "stmts = pre @ s # post"
          "execute_statements db pre ?w = (Inr (), (d', snd ?w @ map query_event pre))"
          "db_command db (SimpleQuery (wrap_statement s)) d' = (Inl msg, fst w')"
          "e = ''SQL error: '' @ msg @ nl @ ''  Statement: '' @ s"
          "snd w' = snd ?w @ map query_event (pre @ [s])"
        using Cons [of ?w] r by auto
      then show ?thesis
        using ok r Inl
        by (simp, intro exI [of _ "stmt # pre"] exI [of _ s] conjI exI [of _ post] exI [of _ d'] exI [of _ msg])
          simp_all
    qed
  qed
qed simp

text \<open>The statements of a script are sent in order, each in its own transaction, and sending stops
  at the first that fails: without an error all were sent, with one the statements before it all
  succeeded and the error names the statement.\<close>

theorem statements_in_order:
  shows "case execute_statements db stmts w of
      (Inr _, w') \<Rightarrow> snd w' = snd w @ map query_event stmts
    | (Inl e, w') \<Rightarrow> (\<exists>pre stmt post d msg.
        stmts = pre @ stmt # post \<and>
        execute_statements db pre w = (Inr (), (d, snd w @ map query_event pre)) \<and>
        db_command db (SimpleQuery (wrap_statement stmt)) d = (Inl msg, fst w') \<and>
        e = ''SQL error: '' @ msg @ nl @ ''  Statement: '' @ stmt \<and>
        snd w' = snd w @ map query_event (pre @ [stmt]))"
  by (rule execute_statements_log)

section \<open>The lock\<close>

fun lock_event :: "event \<Rightarrow> bool" where
  "lock_event (Command (AcquireLock n)) = True"
| "lock_event (Command (ReleaseLock n)) = True"
| "lock_event ev = False"

text \<open>What an operation adds to the log, free of lock commands.\<close>

definition lock_free :: "'d world \<Rightarrow> 'd world \<Rightarrow> bool" where
  "lock_free w w' \<longleftrightarrow> (\<exists>mid. snd w' = snd w @ mid \<and> list_all (\<lambda>ev. \<not> lock_event ev) mid)"

lemma lock_free_refl [intro, simp]: "lock_free w w"
  by (simp add: lock_free_def)

lemma lock_free_trans: "lock_free w w' \<Longrightarrow> lock_free w' w'' \<Longrightarrow> lock_free w w''"
  by (force simp: lock_free_def)

lemma lock_free_send: "\<not> lock_event (Command c) \<Longrightarrow> lock_free w (snd (send db what c w))"
  by (cases rule: send_cases [of db c w what]) (simp_all add: lock_free_def)

lemma lock_free_statements: "lock_free w (snd (execute_statements db stmts w))"
proof (induction stmts arbitrary: w)
  case (Cons stmt stmts)
  have s: "lock_free w (snd (send db [] (SimpleQuery (wrap_statement stmt)) w))"
    by (rule lock_free_send) simp
  note t = lock_free_trans [OF s Cons.IH]
  show ?case
    by (cases rule: send_cases [of db "SimpleQuery (wrap_statement stmt)" w "[]"])
      (use s t in simp_all)
qed simp

lemma lock_free_batch: "execute_sql_batch db sql w = (r, w') \<Longrightarrow> lock_free w w'"
  using lock_free_statements [of w db "split_sql_statements sql"] by (simp add: execute_sql_batch_def)

lemma lock_free_status: "ask_status db mig w = (r, w') \<Longrightarrow> lock_free w w'"
  by (auto simp: ask_status_def lock_free_def split: prod.splits sum.splits)

lemma lock_free_applied: "ask_applied db n w = (r, w') \<Longrightarrow> lock_free w w'"
  by (auto simp: ask_applied_def lock_free_def split: prod.splits sum.splits)

lemma lock_free_execute: "lock_free w (snd (execute_with_lock db duration plan up_sql down_sql w))"
proof -
  obtain r1 w1 where 1: "ask_status db (mp_id plan) w = (r1, w1)" by (metis surj_pair)
  obtain r2 w2 where 2: "execute_sql_batch db (trim up_sql) w1 = (r2, w2)" by (metis surj_pair)
  have f: "lock_free w w2" using lock_free_status [OF 1] lock_free_batch [OF 2] by (rule lock_free_trans)
  have "lock_free w2 (snd (record_failure db mig checksum up_sql w2))"
    "lock_free w2 (snd (record_success db mig checksum duration up_sql down_sql w2))" for mig checksum
    by (simp_all add: record_failure_def record_success_def lock_free_send)
  then show ?thesis
    using lock_free_status [OF 1] lock_free_trans [OF f]
    by (simp add: execute_with_lock_def 1 2 split: sum.split)
qed

lemma lock_free_script: "lock_free w (snd (rollback_script db mig down_sql w))"
proof (cases down_sql)
  case (Some sql)
  obtain r w1 where 1: "execute_sql_batch db sql w = (r, w1)" by (metis surj_pair)
  show ?thesis
    using lock_free_batch [OF 1] by (cases r) (simp_all add: rollback_script_def Some 1)
qed (simp add: rollback_script_def)

lemma lock_free_rows: "lock_free w (snd (rollback_rows db rows w))"
proof (induction rows arbitrary: w)
  case (Cons row rows)
  obtain mig down_sql where row: "row = (mig, down_sql)" by (metis surj_pair)
  obtain r1 w1 where 1: "rollback_script db mig down_sql w = (r1, w1)" by (metis surj_pair)
  have f1: "lock_free w w1" using lock_free_script [of w db mig down_sql] 1 by simp
  obtain r2 w2 where 2: "send db ''Failed to update migration status: '' (MarkRolledBack mig) w1 = (r2, w2)"
    by (metis surj_pair)
  have "lock_free w1 w2"
    using lock_free_send [of "MarkRolledBack mig" w1 db "''Failed to update migration status: ''"] 2 by simp
  with f1 have f2: "lock_free w w2" by (rule lock_free_trans)
  show ?case
    using f1 f2 lock_free_trans [OF f2 Cons.IH] by (cases r1; cases r2) (simp_all add: row 1 2)
qed simp

lemma lock_free_rollback: "lock_free w (snd (rollback_with_lock db n w))"
proof -
  obtain r1 w1 where 1: "ask_applied db n w = (r1, w1)" by (metis surj_pair)
  show ?thesis
    using lock_free_applied [OF 1] lock_free_trans [OF lock_free_applied [OF 1] lock_free_rows]
    by (simp add: rollback_with_lock_def 1 split: sum.split)
qed

text \<open>The contract of an operation run under the lock.\<close>

locale locked_run =
  fixes body :: "'d database \<Rightarrow> 'd world \<Rightarrow> (string + unit) \<times> 'd world"
    and run :: "'d database \<Rightarrow> 'd world \<Rightarrow> (string + unit) \<times> 'd world"
  assumes run_eq: "run db w = (case acquire_lock db w of
        (Inl e, w1) \<Rightarrow> (Inl e, w1)
      | (Inr _, w1) \<Rightarrow> (case body db w1 of (result, w2) \<Rightarrow> (result, snd (release_lock db w2))))"
    and body_lock_free: "lock_free w (snd (body db w))"
begin

definition bracketed :: "'d world \<Rightarrow> 'd world \<Rightarrow> bool" where
  "bracketed w w' \<longleftrightarrow> (\<exists>mid. snd w' = snd w @ Command (AcquireLock advisory_lock_id) # mid @
      [Command (ReleaseLock advisory_lock_id)] \<and> list_all (\<lambda>ev. \<not> lock_event ev) mid)"

theorem run_locked:
  "(\<exists>e d. db_command db (AcquireLock advisory_lock_id) (fst w) = (Inl e, d) \<and>
      run db w = (Inl (''Failed to acquire advisory lock: '' @ e), (d, snd w @ [Command (AcquireLock advisory_lock_id)]))) \<or>
   (\<exists>d. db_command db (AcquireLock advisory_lock_id) (fst w) = (Inr (), d) \<and>
      fst (run db w) = fst (body db (d, snd w @ [Command (AcquireLock advisory_lock_id)])) \<and> bracketed w (snd (run db w)))"
proof (cases rule: send_cases [of db "AcquireLock advisory_lock_id" w "''Failed to acquire advisory lock: ''"])
  case (error e d)
  then show ?thesis by (simp add: run_eq acquire_lock_def)
next
  case (ok d)
  let ?w1 = "(d, snd w @ [Command (AcquireLock advisory_lock_id)])"
  obtain r w2 where b: "body db ?w1 = (r, w2)" by (metis surj_pair)
  have "\<exists>mid. snd w2 = snd ?w1 @ mid \<and> list_all (\<lambda>ev. \<not> lock_event ev) mid"
    using body_lock_free [of ?w1 db] b by (simp add: lock_free_def)
  moreover have "snd (snd (release_lock db w2)) = snd w2 @ [Command (ReleaseLock advisory_lock_id)]"
    unfolding release_lock_def
    by (cases rule: send_cases [of db "ReleaseLock advisory_lock_id" w2 "''Failed to release advisory lock: ''"]) simp_all
  ultimately have "bracketed w (snd (run db w))"
    using ok b by (auto simp: run_eq acquire_lock_def bracketed_def)
  then show ?thesis using ok b by (simp add: run_eq acquire_lock_def)
qed

end

interpretation forward: locked_run "\<lambda>db. execute_with_lock db duration plan up_sql down_sql"
  "\<lambda>db. execute_migration db duration plan up_sql down_sql" for duration plan up_sql down_sql
  by unfold_locales (simp_all add: execute_migration_def lock_free_execute)

interpretation backward: locked_run "\<lambda>db. rollback_with_lock db n" "\<lambda>db. rollback_migrations db n" for n
  by unfold_locales (simp_all add: rollback_migrations_def lock_free_rollback)


section \<open>Idempotence and history\<close>

lemma execute_migration_run:
  assumes "db_command db (AcquireLock advisory_lock_id) (fst w) = (Inr (), d)"
  shows "fst (execute_migration db duration plan up_sql down_sql w) =
      fst (execute_with_lock db duration plan up_sql down_sql (d, snd w @ [Command (AcquireLock advisory_lock_id)]))"
    and "snd (snd (execute_migration db duration plan up_sql down_sql w)) =
      snd (snd (execute_with_lock db duration plan up_sql down_sql (d, snd w @ [Command (AcquireLock advisory_lock_id)]))) @
        [Command (ReleaseLock advisory_lock_id)]"
proof -
  have a: "acquire_lock db w = (Inr (), (d, snd w @ [Command (AcquireLock advisory_lock_id)]))"
    using assms by (simp add: acquire_lock_def send_def)
  have r: "snd (snd (release_lock db w2)) = snd w2 @ [Command (ReleaseLock advisory_lock_id)]" for w2
    unfolding release_lock_def
    by (cases rule: send_cases [of db "ReleaseLock advisory_lock_id" w2 "''Failed to release advisory lock: ''"]) simp_all
  show "fst (execute_migration db duration plan up_sql down_sql w) =
      fst (execute_with_lock db duration plan up_sql down_sql (d, snd w @ [Command (AcquireLock advisory_lock_id)]))"
    "snd (snd (execute_migration db duration plan up_sql down_sql w)) =
      snd (snd (execute_with_lock db duration plan up_sql down_sql (d, snd w @ [Command (AcquireLock advisory_lock_id)]))) @
        [Command (ReleaseLock advisory_lock_id)]"
    by (simp_all add: execute_migration_def a case_prod_beta r)
qed

text \<open>A migration that is recorded as applied is not run again: it succeeds without sending a
  statement or touching the history.\<close>

theorem applied_migration_is_skipped:
  assumes "db_command db (AcquireLock advisory_lock_id) (fst w) = (Inr (), d)"
    and "db_status db (mp_id plan) d = (Inr (Some ''applied''), d')"
  shows "fst (execute_migration db duration plan up_sql down_sql w) = Inr () \<and>
    snd (snd (execute_migration db duration plan up_sql down_sql w)) = snd w @
      [Command (AcquireLock advisory_lock_id), AskStatus (mp_id plan), Command (ReleaseLock advisory_lock_id)]"
  using assms(2) unfolding execute_migration_run [OF assms(1)]
  by (simp add: execute_with_lock_def ask_status_def)


section \<open>Rollback\<close>

definition row_events :: "string \<times> string option \<Rightarrow> event list" where
  "row_events row = (case snd row of
     Some sql \<Rightarrow> map query_event (split_sql_statements sql) @ [Command (MarkRolledBack (fst row))]
   | None \<Rightarrow> [])"

lemma batch_events:
  assumes "execute_sql_batch db sql w = (r, w')"
  shows "case r of Inr _ \<Rightarrow> snd w' = snd w @ map query_event (split_sql_statements sql)
    | Inl _ \<Rightarrow> (\<exists>sent. prefix sent (map query_event (split_sql_statements sql)) \<and> snd w' = snd w @ sent)"
proof -
  note inorder = execute_statements_log [where db = db and stmts = "split_sql_statements sql" and w = w]
  show ?thesis
  proof (cases r)
    case (Inr u)
    then show ?thesis using inorder assms by (simp add: execute_sql_batch_def)
  next
    case (Inl e)
    then obtain pre stmt post where
        "split_sql_statements sql = pre @ stmt # post" "snd w' = snd w @ map query_event (pre @ [stmt])"
      using inorder assms by (auto simp: execute_sql_batch_def)
    then have "prefix (map query_event (pre @ [stmt])) (map query_event (split_sql_statements sql))"
      by (simp add: prefix_def)
    then show ?thesis using Inl \<open>snd w' = snd w @ map query_event (pre @ [stmt])\<close> by auto
  qed
qed

lemma script_events:
  assumes "rollback_script db mig down_sql w = (r, w')"
  shows "case r of
      Inr _ \<Rightarrow> down_sql \<noteq> None \<and> snd w' @ [Command (MarkRolledBack mig)] = snd w @ row_events (mig, down_sql)
    | Inl _ \<Rightarrow> (\<exists>sent. prefix sent (row_events (mig, down_sql)) \<and> snd w' = snd w @ sent)"
proof (cases down_sql)
  case None
  then show ?thesis using assms by (auto simp: rollback_script_def)
next
  case (Some sql)
  obtain r1 w1 where b: "execute_sql_batch db sql w = (r1, w1)" by (metis surj_pair)
  show ?thesis
  proof (cases "sql = []")
    case True
    then show ?thesis using assms Some
      by (auto simp: rollback_script_def row_events_def split_sql_statements_def flush_statement_def)
  next
    case False
    show ?thesis
    proof (cases r1)
      case (Inl e)
      then show ?thesis using assms Some False b batch_events [OF b]
        by (auto simp: rollback_script_def row_events_def intro: prefix_order.trans)
    next
      case (Inr u)
      then show ?thesis using assms Some False b batch_events [OF b]
        by (auto simp: rollback_script_def row_events_def)
    qed
  qed
qed

text \<open>A rollback undoes the rows newest first, each by its whole script and then its mark in the
  history; it stops at the first row that fails or has no script, whose mark, if any, is the
  last thing sent, and leaves the rows after it alone.\<close>

theorem rollback_in_order:
  shows "case rollback_rows db rows w of
      (Inr _, w') \<Rightarrow> snd w' = snd w @ concat (map row_events rows)
    | (Inl _, w') \<Rightarrow> (\<exists>before row after sent. rows = before @ row # after \<and> prefix sent (row_events row) \<and>
        snd w' = snd w @ concat (map row_events before) @ sent)"
proof (induction rows arbitrary: w)
  case (Cons row rows)
  obtain mig down_sql where row: "row = (mig, down_sql)" by (metis surj_pair)
  obtain r1 w1 where 1: "rollback_script db mig down_sql w = (r1, w1)" by (metis surj_pair)
  note ev = script_events [OF 1]
  show ?case
  proof (cases r1)
    case (Inl e)
    then obtain sent where s: "prefix sent (row_events row)" "snd w1 = snd w @ sent"
      using ev by (auto simp: row)
    have "\<exists>before row' after sent. row # rows = before @ row' # after \<and> prefix sent (row_events row') \<and>
        snd w1 = snd w @ concat (map row_events before) @ sent"
      by (rule exI [of _ "[]"], rule exI [of _ row], rule exI [of _ rows], rule exI [of _ sent]) (use s in simp)
    then show ?thesis using Inl by (simp add: row 1)
  next
    case (Inr u)
    then have l1: "snd w1 @ [Command (MarkRolledBack mig)] = snd w @ row_events row"
      using ev by (simp add: row)
    show ?thesis
    proof (cases rule: send_cases [of db "MarkRolledBack mig" w1 "''Failed to update migration status: ''"])
      case (error e d)
      have "\<exists>before row' after sent. row # rows = before @ row' # after \<and> prefix sent (row_events row') \<and>
          snd w @ row_events row = snd w @ concat (map row_events before) @ sent"
        by (rule exI [of _ "[]"], rule exI [of _ row], rule exI [of _ rows], rule exI [of _ "row_events row"]) simp
      then show ?thesis using error Inr l1 by (simp add: row 1)
    next
      case (ok d)
      let ?w2 = "(d, snd w @ row_events row)"
      have m: "rollback_rows db (row # rows) w = rollback_rows db rows ?w2"
        using ok Inr l1 by (simp add: row 1)
      obtain r w' where r: "rollback_rows db rows ?w2 = (r, w')" by (metis surj_pair)
      show ?thesis
      proof (cases r)
        case (Inr u)
        then show ?thesis using Cons [of ?w2] by (simp add: m r)
      next
        case (Inl e)
        then obtain before row' after sent where "rows = before @ row' # after" "prefix sent (row_events row')"
            "snd w' = snd ?w2 @ concat (map row_events before) @ sent"
          using Cons [of ?w2] by (auto simp: r)
        then have "\<exists>before row' after sent. row # rows = before @ row' # after \<and> prefix sent (row_events row') \<and>
            snd w' = snd w @ concat (map row_events before) @ sent"
          by (intro exI [of _ "row # before"] exI [of _ row'] exI [of _ after] exI [of _ sent]) simp
        then show ?thesis unfolding m r Inl by simp
      qed
    qed
  qed
qed simp

text \<open>The check for irreversible migrations never fires for what this program records: the
  rollback script of changes that cannot be undone is empty, not absent, and rolling back such a
  migration only marks it as rolled back.\<close>

theorem irreversible_rollback_reports_success:
  assumes "\<forall>c\<in>set changes. \<not> reversible c"
    and "db_command db (MarkRolledBack mig) (fst w) = (Inr (), d)"
  shows "rollback_rows db [(mig, Some (generate_down_sql (build_plan ord sha256_hex timestamp changes)))] w =
    (Inr (), (d, snd w @ [Command (MarkRolledBack mig)]))"
proof -
  have "pc_down_sql p = None" if "p \<in> set (plan_changes ord timestamp changes)" for p
  proof -
    have "pc_change p \<in> set changes"
      using that arg_cong [OF plan_changes_change [of ord timestamp changes], of set] by auto
    then have "change_to_down_sql (pc_change p) = None" using assms(1) down_sql_reversible by blast
    then show ?thesis using plan_changes_from_change [OF that] by (auto simp: from_change_def)
  qed
  then have "List.map_filter pc_down_sql (rev (plan_changes ord timestamp changes)) = []"
    by (simp add: map_filter_def filter_empty_conv)
  then have "generate_down_sql (build_plan ord sha256_hex timestamp changes) = []"
    by (simp add: generate_down_sql_def build_plan_simps)
  then show ?thesis using assms(2) by (simp add: rollback_script_def send_def)
qed

section \<open>Witnesses\<close>

text \<open>A database that accepts every command and knows one applied migration.\<close>

definition sample_db :: "unit database" where
  "sample_db = \<lparr>db_command = (\<lambda>c d. (Inr (), d)),
     db_status = (\<lambda>mig d. (Inr (if mig = ''m1'' then Some ''applied'' else None), d)),
     db_applied = (\<lambda>n d. (Inr [], d))\<rparr>"

definition sample_plan :: "string \<Rightarrow> migration_plan" where
  "sample_plan mig = \<lparr>mp_id = mig, mp_changes = [], mp_checksum = ''c'', mp_component_count = 0, mp_batches = []\<rparr>"


lemma applied_witness:
  "fst (execute_migration sample_db 0 (sample_plan ''m1'') ''DROP x;'' [] ((), [])) = Inr ()"
  using applied_migration_is_skipped [of sample_db "((), [])" "()" "sample_plan ''m1''" "()" 0 "''DROP x;''" "[]"]
  by (simp add: sample_db_def sample_plan_def)


lemma irreversible_witness:
  "rollback_rows sample_db [(''m1'', Some (generate_down_sql (build_plan (\<lambda>k. k) (\<lambda>s. s) ''m1'' [DropEnum ''role''])))] ((), []) =
    (Inr (), ((), [Command (MarkRolledBack ''m1'')]))"
  using irreversible_rollback_reports_success [of "[DropEnum ''role'']" sample_db "''m1''" "((), [])" "()"]
  by (simp add: reversible_def sample_db_def)

end
