(* ===== verification/Mig_Differ.thy ===== *)
theory Mig_Differ
  imports Mig_Diff Mig_Plan Mig_Samples
begin

text \<open>
  What the diff engine promises: applied to the current schema, the changes it computes give the
  desired one. The abstract catalogs below hold names (of tables, columns, enums) and reject a
  change that does not fit: adding what exists, renaming or dropping what does not. The contract
  between a catalog and the changes is the locale \<open>name_catalog\<close>.
\<close>

section \<open>Running changes against a catalog\<close>

fun run_changes :: "('c \<Rightarrow> 's \<Rightarrow> 's option) \<Rightarrow> 'c list \<Rightarrow> 's \<Rightarrow> 's option" where
  "run_changes step [] s = Some s"
| "run_changes step (c # cs) s = Option.bind (step c s) (run_changes step cs)"

lemma run_changes_append:
  "run_changes step (xs @ ys) s = Option.bind (run_changes step xs s) (run_changes step ys)"
proof (induction xs arbitrary: s)
  case (Cons x xs)
  then show ?case by (cases "step x s") simp_all
qed simp

lemma run_changes_append_Some:
  "run_changes step xs s = Some t \<Longrightarrow> run_changes step (xs @ ys) s = run_changes step ys t"
  by (simp add: run_changes_append)

lemma run_changes_Cons_Some: "step c s = Some t \<Longrightarrow> run_changes step (c # cs) s = run_changes step cs t"
  by simp

lemma run_changes_filter:
  assumes "\<And>c s. \<not> P c \<Longrightarrow> step c s = Some s"
  shows "run_changes step (filter P cs) s = run_changes step cs s"
proof (induction cs arbitrary: s)
  case (Cons c cs)
  then show ?case using assms [of c s] by (cases "P c"; cases "step c s") auto
qed simp

text \<open>Lists of three ranks sort to their blocks.\<close>

lemma sort_key_blocks:
  assumes "\<And>x. x \<in> set xs \<Longrightarrow> f x = a" and "\<And>x. x \<in> set ys \<Longrightarrow> f x = b" and "\<And>x. x \<in> set zs \<Longrightarrow> f x = c"
    and "a < b" and "b < (c::nat)"
  shows "sort_key f (ys @ xs @ zs) = xs @ ys @ zs"
proof (rule properties_for_sort_key)
  have s: "filter (\<lambda>x. k = f x) xs = (if k = a then xs else [])"
    "filter (\<lambda>x. k = f x) ys = (if k = b then ys else [])"
    "filter (\<lambda>x. k = f x) zs = (if k = c then zs else [])" for k
    using assms(1-3) by (auto intro!: filter_True filter_False)
  then show "filter (\<lambda>x. f k = f x) (xs @ ys @ zs) = filter (\<lambda>x. f k = f x) (ys @ xs @ zs)" for k
    using assms(4,5) by (simp add: s)
  have "map f xs = replicate (length xs) a" "map f ys = replicate (length ys) b"
      "map f zs = replicate (length zs) c"
    using assms(1-3) by (auto intro!: replicate_eqI)
  then show "sorted (map f (xs @ ys @ zs))"
    using assms(4,5) by (auto simp: sorted_append)
qed simp

lemma sort_key_two_blocks:
  assumes "\<And>x. x \<in> set xs \<Longrightarrow> f x = a" and "\<And>x. x \<in> set ys \<Longrightarrow> f x = b" and "a < (b::nat)"
  shows "sort_key f (ys @ xs) = xs @ ys"
  using sort_key_blocks [of xs f a ys b "[]" "Suc b"] assms by simp

lemma find_SomeD: "find P xs = Some x \<Longrightarrow> x \<in> set xs \<and> P x"
  by (auto simp: find_Some_iff)

lemma sync_sets:
  "A \<inter> S = {} \<Longrightarrow> T \<inter> S = {} \<Longrightarrow> T \<inter> A = {} \<Longrightarrow> F \<subseteq> S \<Longrightarrow> D \<subseteq> S \<Longrightarrow> D \<inter> F = {} \<Longrightarrow>
     S \<union> A - F \<union> T - D = S - F - D \<union> T \<union> A"
  by blast

lemma sync_subsets:
  "F \<subseteq> S \<Longrightarrow> F \<subseteq> S \<union> A"
  "T \<inter> S = {} \<Longrightarrow> T \<inter> A = {} \<Longrightarrow> T \<inter> (S \<union> A) = {}"
  "D \<subseteq> S \<Longrightarrow> D \<inter> F = {} \<Longrightarrow> D \<subseteq> S \<union> A - F \<union> T"
  by blast+

locale name_catalog =
  fixes step :: "'c \<Rightarrow> string set \<Rightarrow> string set option"
    and add :: "'a \<Rightarrow> 'c" and added :: "'a \<Rightarrow> string"
    and ren :: "string \<times> string \<Rightarrow> 'c"
    and drp :: "'d \<Rightarrow> 'c" and dropped :: "'d \<Rightarrow> string"
  assumes step_add: "step (add x) S = (if added x \<in> S then None else Some (insert (added x) S))"
    and step_ren: "step (ren ft) S =
      (if fst ft \<in> S \<and> snd ft \<notin> S then Some (insert (snd ft) (S - {fst ft})) else None)"
    and step_drp: "step (drp y) S = (if dropped y \<in> S then Some (S - {dropped y}) else None)"
begin

lemma run_adds:
  "distinct (map added xs) \<Longrightarrow> added ` set xs \<inter> S = {} \<Longrightarrow>
     run_changes step (map add xs) S = Some (S \<union> added ` set xs)"
  by (induction xs arbitrary: S) (auto simp: step_add)

lemma run_drops:
  "distinct (map dropped ys) \<Longrightarrow> dropped ` set ys \<subseteq> S \<Longrightarrow>
     run_changes step (map drp ys) S = Some (S - dropped ` set ys)"
proof (induction ys arbitrary: S)
  case (Cons y ys)
  then have "dropped ` set ys \<subseteq> S - {dropped y}" by (simp, blast)
  then have ih: "run_changes step (map drp ys) (S - {dropped y}) = Some (S - {dropped y} - dropped ` set ys)"
    using Cons by (intro Cons.IH) simp_all
  have "step (drp y) S = Some (S - {dropped y})"
    using Cons.prems by (simp add: step_drp)
  from run_changes_Cons_Some [of step "drp y" S "S - {dropped y}" "map drp ys", OF this] have "run_changes step (map drp (y # ys)) S = Some (S - {dropped y} - dropped ` set ys)"
    by (simp only: list.map ih)
  also have "S - {dropped y} - dropped ` set ys = S - dropped ` set (y # ys)"
    by auto
  finally show ?case .
qed simp

lemma run_renames:
  "distinct (map fst rs) \<Longrightarrow> distinct (map snd rs) \<Longrightarrow> fst ` set rs \<subseteq> S \<Longrightarrow> snd ` set rs \<inter> S = {} \<Longrightarrow>
     run_changes step (map ren rs) S = Some (S - fst ` set rs \<union> snd ` set rs)"
proof (induction rs arbitrary: S)
  case (Cons r rs)
  let ?S = "insert (snd r) (S - {fst r})"
  have "fst ` set rs \<subseteq> ?S"
    using Cons.prems by (simp, blast)
  moreover have "snd ` set rs \<inter> ?S = {}"
    using Cons.prems by (simp, blast)
  ultimately have "run_changes step (map ren rs) ?S = Some (?S - fst ` set rs \<union> snd ` set rs)"
    using Cons.prems by (intro Cons.IH) auto
  moreover have "snd r \<notin> fst ` set rs"
    using Cons.prems by auto
  ultimately show ?case
    using Cons.prems by (auto simp: step_ren)
qed simp

text \<open>Additions, then renames, then drops, as the plan orders them.\<close>

theorem run_sync:
  assumes "distinct (map added xs)" and "distinct (map fst rs)" and "distinct (map snd rs)"
    and "distinct (map dropped ys)"
    and "added ` set xs \<inter> S = {}" and "snd ` set rs \<inter> S = {}" and "snd ` set rs \<inter> added ` set xs = {}"
    and "fst ` set rs \<subseteq> S" and "dropped ` set ys \<subseteq> S" and "dropped ` set ys \<inter> fst ` set rs = {}"
  shows "run_changes step (map add xs @ map ren rs @ map drp ys) S =
    Some (S - fst ` set rs - dropped ` set ys \<union> snd ` set rs \<union> added ` set xs)"
proof -
  let ?S1 = "S \<union> added ` set xs" and ?S2 = "S \<union> added ` set xs - fst ` set rs \<union> snd ` set rs"
  have "run_changes step (map add xs) S = Some ?S1"
    using assms by (intro run_adds) auto
  moreover have "run_changes step (map ren rs) ?S1 = Some ?S2"
    by (rule run_renames [OF assms(2,3) sync_subsets(1) [OF assms(8)] sync_subsets(2) [OF assms(6,7)]])
  moreover have "run_changes step (map drp ys) ?S2 = Some (?S2 - dropped ` set ys)"
    by (rule run_drops [OF assms(4) sync_subsets(3) [OF assms(9,10)]])
  ultimately have "run_changes step (map add xs @ map ren rs @ map drp ys) S = Some (?S2 - dropped ` set ys)"
    by (intro run_changes_append_Some [THEN trans])
  also have "?S2 - dropped ` set ys = S - fst ` set rs - dropped ` set ys \<union> snd ` set rs \<union> added ` set xs"
    by (rule sync_sets [OF assms(5-10)])
  finally show ?thesis .
qed

end

section \<open>The catalogs\<close>

fun table_step :: "schema_change \<Rightarrow> string set \<Rightarrow> string set option" where
  "table_step (CreateTable t) S = (if tbl_name t \<in> S then None else Some (insert (tbl_name t) S))"
| "table_step (RenameTable fr to) S =
     (if fr \<in> S \<and> to \<notin> S then Some (insert to (S - {fr})) else None)"
| "table_step (DropTable n p) S = (if n \<in> S then Some (S - {n}) else None)"
| "table_step c S = Some S"

fun enum_step :: "schema_change \<Rightarrow> string set \<Rightarrow> string set option" where
  "enum_step (CreateEnum e) S = (if en_name e \<in> S then None else Some (insert (en_name e) S))"
| "enum_step (RenameEnum fr to) S =
     (if fr \<in> S \<and> to \<notin> S then Some (insert to (S - {fr})) else None)"
| "enum_step (DropEnum n) S = (if n \<in> S then Some (S - {n}) else None)"
| "enum_step c S = Some S"

fun column_step :: "string \<Rightarrow> schema_change \<Rightarrow> string set \<Rightarrow> string set option" where
  "column_step table (AddColumn t c) S =
     (if t \<noteq> table then Some S else if col_name c \<in> S then None else Some (insert (col_name c) S))"
| "column_step table (RenameColumn t fr to) S =
     (if t \<noteq> table then Some S
      else if fr \<in> S \<and> to \<notin> S then Some (insert to (S - {fr})) else None)"
| "column_step table (DropColumn t n p) S =
     (if t \<noteq> table then Some S else if n \<in> S then Some (S - {n}) else None)"
| "column_step table c S = Some S"

interpretation tables: name_catalog table_step CreateTable tbl_name "\<lambda>(f, t). RenameTable f t"
  "\<lambda>c. DropTable (tbl_name c) c" tbl_name
  by unfold_locales (simp_all add: case_prod_beta)

interpretation enums: name_catalog enum_step CreateEnum en_name "\<lambda>(f, t). RenameEnum f t"
  "DropEnum" "\<lambda>n. n"
  by unfold_locales (simp_all add: case_prod_beta)

interpretation columns: name_catalog "column_step table" "AddColumn table" col_name
  "\<lambda>(f, t). RenameColumn table f t" "\<lambda>c. DropColumn table (col_name c) c" col_name
  for table
  by unfold_locales (simp_all add: case_prod_beta)

section \<open>Renames\<close>

lemma in_map_iff: "hm_of (map (\<lambda>x. (f x, x)) xs) n \<noteq> None \<longleftrightarrow> n \<in> f ` set xs"
  by (force simp: hm_of_None_iff image_image)

lemma table_renames_props:
  "distinct (map tbl_name ds) \<Longrightarrow> table_renames in_current in_desired current renamed ds = rs \<Longrightarrow>
    distinct (map fst rs) \<and> distinct (map snd rs) \<and> fst ` set rs \<inter> set renamed = {} \<and>
    fst ` set rs \<subseteq> {n \<in> tbl_name ` set current. \<not> in_desired n} \<and>
    snd ` set rs \<subseteq> {n \<in> tbl_name ` set ds. \<not> in_current n}"
proof (induction in_current in_desired current renamed ds arbitrary: rs rule: table_renames.induct)
  case (2 in_current in_desired current renamed d ds)
  show ?case
  proof (cases "in_current (tbl_name d)")
    case True
    then show ?thesis using 2(1) [OF True] 2(4,5) by auto
  next
    case False
    show ?thesis
    proof (cases "find_table_source in_desired current renamed d")
      case None
      then show ?thesis using 2(2) [OF False None] 2(4,5) False by auto
    next
      case (Some c)
      then have c: "c \<in> set current" "\<not> in_desired (tbl_name c)" "tbl_name c \<notin> set renamed"
        by (auto simp: find_table_source_def find_Some_iff)
      let ?rs = "table_renames in_current in_desired current (tbl_name d # tbl_name c # renamed) ds"
      have rs: "rs = (tbl_name c, tbl_name d) # ?rs"
        using 2(5) False Some by simp
      have ih: "distinct (map fst ?rs) \<and> distinct (map snd ?rs) \<and>
          fst ` set ?rs \<inter> set (tbl_name d # tbl_name c # renamed) = {} \<and>
          fst ` set ?rs \<subseteq> {n \<in> tbl_name ` set current. \<not> in_desired n} \<and>
          snd ` set ?rs \<subseteq> {n \<in> tbl_name ` set ds. \<not> in_current n}"
        using 2(4) by (intro 2(3) [OF False Some]) simp_all
      have "tbl_name d \<notin> tbl_name ` set ds" using 2(4) by simp
      then show ?thesis
        using c ih False unfolding rs by (simp, blast)
    qed
  qed
qed auto

section \<open>Changes within a table\<close>

fun change_table :: "schema_change \<Rightarrow> string option" where
  "change_table (AddColumn t c) = Some t"
| "change_table (DropColumn t c p) = Some t"
| "change_table (RenameColumn t fr to) = Some t"
| "change_table (AlterColumnType t c fr to) = Some t"
| "change_table (SetNotNull t c d ty) = Some t"
| "change_table (DropNotNull t c) = Some t"
| "change_table (SetDefault t c d) = Some t"
| "change_table (DropDefault t c) = Some t"
| "change_table (AddPrimaryKey t n cs) = Some t"
| "change_table (DropPrimaryKey t n) = Some t"
| "change_table (AddUnique t n cs) = Some t"
| "change_table (DropUnique t n) = Some t"
| "change_table (AddCheck t n e) = Some t"
| "change_table (DropCheck t n) = Some t"
| "change_table (CreateIndex t i) = Some t"
| "change_table (DropIndex t n) = Some t"
| "change_table (AddForeignKey t fk) = Some t"
| "change_table (DropForeignKey t n p) = Some t"
| "change_table (ModifyForeignKey t cn fk p k) = Some t"
| "change_table c = None"

definition in_table :: "string \<Rightarrow> schema_change list \<Rightarrow> bool" where
  "in_table t cs \<longleftrightarrow> (\<forall>c\<in>set cs. change_table c = Some t)"

named_theorems in_table

lemma in_table_simps [in_table]:
  "in_table t []" "in_table t (c # cs) \<longleftrightarrow> change_table c = Some t \<and> in_table t cs"
  "in_table t (xs @ ys) \<longleftrightarrow> in_table t xs \<and> in_table t ys"
  by (auto simp: in_table_def)

lemma in_table_diff_column_parts [in_table]:
  "in_table t (diff_column_type changes t c d)" "in_table t (diff_column_nullable t c d)"
  "in_table t (diff_column_default t c d)"
  by (auto simp: in_table_def diff_column_type_def diff_column_nullable_def diff_column_default_def
      split: option.splits)

lemma in_table_diff_primary_key [in_table]: "in_table t (diff_primary_key t a b)"
  by (cases "(t, a, b)" rule: diff_primary_key.cases) (auto simp: in_table)

lemma in_table_keyed_adds: "(\<And>v. change_table (mk v) = Some t) \<Longrightarrow> in_table t (keyed_adds ord this other mk)"
  by (auto simp: in_table_def keyed_adds_def)

lemma in_table_diff_unique [in_table]: "in_table t (diff_unique_constraints ho t a b)"
  by (simp add: diff_unique_constraints_def in_table in_table_keyed_adds)

lemma in_table_diff_indexes [in_table]: "in_table t (diff_indexes ho t a b)"
  by (simp add: diff_indexes_def in_table in_table_keyed_adds)

lemma in_table_diff_checks [in_table]: "in_table t (diff_check_constraints ho t a b)"
  by (simp add: diff_check_constraints_def in_table in_table_keyed_adds)

lemma in_table_fk_new_loop: "in_table t (fst (fk_new_loop t current inc mc md ks))"
  by (induction t current inc mc md ks rule: fk_new_loop.induct)
    (auto simp: in_table case_prod_beta split: option.splits)

lemma in_table_diff_foreign_keys [in_table]: "in_table t (diff_foreign_keys ho t a b)"
proof -
  have m: "in_table t (fk_modified t a des)" for des
    by (auto simp: in_table_def fk_modified_def split: option.splits if_splits)
  have d: "in_table t (fk_drop_loop t b ind md ks)" for ind md ks
    by (auto simp: in_table_def fk_drop_loop_def)
  show ?thesis
    by (simp add: diff_foreign_keys_def Let_def case_prod_beta in_table m d in_table_fk_new_loop)
qed

lemma foldl_column_modified:
  "\<exists>xs. foldl (column_modified t cur) changes ds = changes @ xs \<and> in_table t xs"
proof (induction ds arbitrary: changes)
  case Nil
  then show ?case by (simp add: in_table)
next
  case (Cons d ds)
  obtain ys where ys: "column_modified t cur changes d = changes @ ys" "in_table t ys"
    by (cases "hm_of cur (col_name d)")
      (auto simp: column_modified_def diff_column_def in_table)
  with Cons [of "changes @ ys"] show ?case by (auto simp: in_table)
qed

lemma diff_columns_extends: "\<exists>xs. diff_columns t a b changes = changes @ xs \<and> in_table t xs"
proof -
  have m: "in_table t (map (\<lambda>(f, to). RenameColumn t f to) rs)" "in_table t (map (AddColumn t) cs)"
    "in_table t (map (\<lambda>c. DropColumn t (col_name c) c) cs)" for rs cs
    by (auto simp: in_table_def)
  show ?thesis
    unfolding diff_columns_def Let_def append_assoc
    using foldl_column_modified [of t "col_map a"] m by (smt (verit) append_assoc in_table_simps(3))
qed

lemma diff_table_extends: "\<exists>xs. diff_table ho c d changes = changes @ xs \<and> in_table (tbl_name d) xs"
proof -
  obtain xs where "diff_columns (tbl_name d) (tbl_columns c) (tbl_columns d) changes = changes @ xs"
      "in_table (tbl_name d) xs"
    using diff_columns_extends by blast
  then show ?thesis by (simp add: diff_table_def Let_def in_table)
qed

lemma foldl_diff_modified:
  "\<exists>xs. foldl (diff_modified ho cur) changes ds = changes @ xs \<and>
     (\<forall>x\<in>set xs. \<exists>d\<in>set ds. change_table x = Some (tbl_name d))"
proof (induction ds arbitrary: changes)
  case (Cons d ds)
  obtain ys where ys: "diff_modified ho cur changes d = changes @ ys" "in_table (tbl_name d) ys"
    using diff_table_extends [of ho _ d changes]
    by (cases "current_of cur changes d") (auto simp: diff_modified_def in_table)
  obtain xs where "foldl (diff_modified ho cur) (changes @ ys) ds = (changes @ ys) @ xs"
      "\<forall>x\<in>set xs. \<exists>d\<in>set ds. change_table x = Some (tbl_name d)"
    using Cons by blast
  then show ?case using ys by (auto simp: in_table_def)
qed simp

section \<open>Tables\<close>

abbreviation table_names :: "database_schema \<Rightarrow> string set" where
  "table_names s \<equiv> tbl_name ` set (db_tables s)"

definition renamed_tables :: "database_schema \<Rightarrow> database_schema \<Rightarrow> (string \<times> string) list" where
  "renamed_tables current desired =
     table_renames (\<lambda>n. n \<in> table_names current) (\<lambda>n. n \<in> table_names desired) (db_tables current) []
       (db_tables desired)"

definition created_tables :: "database_schema \<Rightarrow> database_schema \<Rightarrow> table_def list" where
  "created_tables current desired =
     filter (\<lambda>d. tbl_name d \<notin> table_names current \<and> tbl_name d \<notin> snd ` set (renamed_tables current desired))
       (db_tables desired)"

definition dropped_tables :: "database_schema \<Rightarrow> database_schema \<Rightarrow> table_def list" where
  "dropped_tables current desired =
     filter (\<lambda>c. tbl_name c \<notin> table_names desired \<and> tbl_name c \<notin> fst ` set (renamed_tables current desired) \<and>
       \<not> skip_drop (tbl_name c)) (db_tables current)"

lemma created_names: "tbl_name ` set (created_tables current desired) =
    {n \<in> table_names desired. n \<notin> table_names current \<and> n \<notin> snd ` set (renamed_tables current desired)}"
  by (auto simp: created_tables_def)

lemma dropped_names: "tbl_name ` set (dropped_tables current desired) =
    {n \<in> table_names current. n \<notin> table_names desired \<and> n \<notin> fst ` set (renamed_tables current desired) \<and>
      \<not> skip_drop n}"
  by (auto simp: dropped_tables_def)

lemma in_table_map_iff: "hm_of (table_map ts) n \<noteq> None \<longleftrightarrow> n \<in> tbl_name ` set ts"
  unfolding table_map_def by (rule in_map_iff)

lemma renamed_tables_props:
  assumes "distinct (map tbl_name (db_tables desired))"
  shows "distinct (map fst (renamed_tables current desired)) \<and> distinct (map snd (renamed_tables current desired)) \<and>
    fst ` set (renamed_tables current desired) \<subseteq> table_names current - table_names desired \<and>
    snd ` set (renamed_tables current desired) \<subseteq> table_names desired - table_names current"
  using table_renames_props [OF assms refl, of "\<lambda>n. n \<in> table_names current" "\<lambda>n. n \<in> table_names desired"
      "db_tables current" "[]"]
  by (auto simp: renamed_tables_def)

lemma compute_diff_start:
  assumes "distinct (map tbl_name (db_tables desired))"
  shows "compute_diff ho current desired = foldl (diff_modified ho (db_tables current))
    (diff_enums ho (db_enums current) (db_enums desired) @
     map (\<lambda>(f, t). RenameTable f t) (renamed_tables current desired) @
     map CreateTable (created_tables current desired) @
     map (\<lambda>c. DropTable (tbl_name c) c) (dropped_tables current desired)) (db_tables desired)"
proof -
  let ?rs = "renamed_tables current desired"
  have c: "filter (\<lambda>d. tbl_name d \<notin> table_names current \<and> tbl_name d \<notin> set (map fst ?rs @ map snd ?rs)) (db_tables desired)
      = created_tables current desired"
    unfolding created_tables_def using renamed_tables_props [OF assms, of current]
    by (intro filter_cong) auto
  have d: "filter (\<lambda>c. tbl_name c \<notin> table_names desired \<and> tbl_name c \<notin> set (map fst ?rs @ map snd ?rs) \<and>
        \<not> skip_drop (tbl_name c)) (db_tables current) = dropped_tables current desired"
    unfolding dropped_tables_def using renamed_tables_props [OF assms, of current]
    by (intro filter_cong) auto
  show ?thesis
    unfolding compute_diff_def Let_def in_table_map_iff renamed_tables_def [symmetric] c d append_assoc ..
qed

lemma compute_diff_shape:
  assumes "distinct (map tbl_name (db_tables desired))"
  obtains tail where
    "compute_diff ho current desired =
       diff_enums ho (db_enums current) (db_enums desired) @
       map (\<lambda>(f, t). RenameTable f t) (renamed_tables current desired) @
       map CreateTable (created_tables current desired) @
       map (\<lambda>c. DropTable (tbl_name c) c) (dropped_tables current desired) @ tail"
    and "\<forall>x\<in>set tail. \<exists>d\<in>set (db_tables desired). change_table x = Some (tbl_name d)"
proof -
  let ?pre = "diff_enums ho (db_enums current) (db_enums desired) @
     map (\<lambda>(f, t). RenameTable f t) (renamed_tables current desired) @
     map CreateTable (created_tables current desired) @
     map (\<lambda>c. DropTable (tbl_name c) c) (dropped_tables current desired)"
  obtain tail where "foldl (diff_modified ho (db_tables current)) ?pre (db_tables desired) = ?pre @ tail"
      "\<forall>x\<in>set tail. \<exists>d\<in>set (db_tables desired). change_table x = Some (tbl_name d)"
    using foldl_diff_modified by blast
  then show ?thesis using that compute_diff_start [OF assms, of ho current] by simp
qed

definition is_table_change :: "schema_change \<Rightarrow> bool" where
  "is_table_change c \<longleftrightarrow> (case c of CreateTable t \<Rightarrow> True | RenameTable f t \<Rightarrow> True | DropTable n p \<Rightarrow> True | _ \<Rightarrow> False)"

definition is_enum_change :: "schema_change \<Rightarrow> bool" where
  "is_enum_change c \<longleftrightarrow>
     (case c of CreateEnum e \<Rightarrow> True | RenameEnum f t \<Rightarrow> True | DropEnum n \<Rightarrow> True
      | AddEnumValue n v \<Rightarrow> True | _ \<Rightarrow> False)"

lemma table_step_other: "\<not> is_table_change c \<Longrightarrow> table_step c S = Some S"
  by (cases c) (simp_all add: is_table_change_def)

lemma change_table_not_table: "change_table c = Some t \<Longrightarrow> \<not> is_table_change c \<and> \<not> is_enum_change c"
  by (cases c) (simp_all add: is_table_change_def is_enum_change_def)

lemma enum_map_iff: "hm_of (enum_map es) n \<noteq> None \<longleftrightarrow> n \<in> en_name ` set es"
  unfolding enum_map_def by (rule in_map_iff)

lemma diff_enums_kinds:
  "c \<in> set (diff_enums ho cur des) \<Longrightarrow>
     is_enum_change c \<and> \<not> is_table_change c \<and> (\<forall>n. c \<noteq> DropEnum n)"
  by (auto simp: diff_enums_def Let_def is_enum_change_def is_table_change_def new_enum_values_def
      split: option.splits)

lemma filter_table_changes:
  assumes "distinct (map tbl_name (db_tables desired))"
  shows "filter is_table_change (compute_diff ho current desired) =
    map (\<lambda>(f, t). RenameTable f t) (renamed_tables current desired) @
    map CreateTable (created_tables current desired) @
    map (\<lambda>c. DropTable (tbl_name c) c) (dropped_tables current desired)"
proof -
  obtain tail where t: "compute_diff ho current desired =
       diff_enums ho (db_enums current) (db_enums desired) @
       map (\<lambda>(f, t). RenameTable f t) (renamed_tables current desired) @
       map CreateTable (created_tables current desired) @
       map (\<lambda>c. DropTable (tbl_name c) c) (dropped_tables current desired) @ tail"
    and tail: "\<forall>x\<in>set tail. \<exists>d\<in>set (db_tables desired). change_table x = Some (tbl_name d)"
    by (rule compute_diff_shape [OF assms])
  have "filter is_table_change tail = []"
    using tail change_table_not_table by (auto simp: filter_empty_conv)
  moreover have "filter is_table_change (diff_enums ho (db_enums current) (db_enums desired)) = []"
    using diff_enums_kinds by (auto simp: filter_empty_conv)
  moreover have "filter is_table_change (map (\<lambda>(f, t). RenameTable f t) rs) = map (\<lambda>(f, t). RenameTable f t) rs"
    "filter is_table_change (map CreateTable xs) = map CreateTable xs"
    "filter is_table_change (map (\<lambda>c. DropTable (tbl_name c) c) ys) = map (\<lambda>c. DropTable (tbl_name c) c) ys"
    for rs xs ys
    by (auto intro!: filter_True simp: is_table_change_def)
  ultimately show ?thesis unfolding t by simp
qed

lemma distinct_map_filter_name: "distinct (map f xs) \<Longrightarrow> distinct (map f (filter P xs))"
  by (rule distinct_map_filter)

text \<open>C1. Executed in plan order, the computed changes run against the table catalog without a
  conflict (no table is created twice, none renamed or dropped that is missing), and leave exactly
  the desired tables and those system tables of the current schema that were neither desired nor
  the source of a rename.\<close>

theorem plan_reaches_desired_tables:
  assumes "distinct (map tbl_name (db_tables current))" and "distinct (map tbl_name (db_tables desired))"
  shows "run_changes table_step (sort_key change_order (compute_diff ho current desired)) (table_names current) =
    Some (table_names desired \<union>
      {n \<in> table_names current - table_names desired. skip_drop n \<and> n \<notin> fst ` set (renamed_tables current desired)})"
proof -
  let ?rs = "renamed_tables current desired" and ?S = "table_names current"
  let ?xs = "created_tables current desired" and ?ys = "dropped_tables current desired"
  note rs = renamed_tables_props [OF assms(2), of current]
  have "run_changes table_step (sort_key change_order (compute_diff ho current desired)) ?S =
      run_changes table_step (filter is_table_change (sort_key change_order (compute_diff ho current desired))) ?S"
    by (rule run_changes_filter [symmetric]) (rule table_step_other)
  also have "filter is_table_change (sort_key change_order (compute_diff ho current desired)) =
      map CreateTable ?xs @ map (\<lambda>(f, t). RenameTable f t) ?rs @ map (\<lambda>c. DropTable (tbl_name c) c) ?ys"
    unfolding filter_sort filter_table_changes [OF assms(2)]
    by (rule sort_key_blocks [where a = 20 and b = 21 and c = 90]) auto
  also have "run_changes table_step \<dots> ?S =
      Some (?S - fst ` set ?rs - tbl_name ` set ?ys \<union> snd ` set ?rs \<union> tbl_name ` set ?xs)"
  proof (rule tables.run_sync)
    show "distinct (map tbl_name ?xs)" "distinct (map tbl_name ?ys)"
      using assms by (simp_all add: created_tables_def dropped_tables_def distinct_map_filter_name)
  qed (insert rs, unfold created_names dropped_names, blast+)
  also have "?S - fst ` set ?rs - tbl_name ` set ?ys \<union> snd ` set ?rs \<union> tbl_name ` set ?xs =
      table_names desired \<union> {n \<in> ?S - table_names desired. skip_drop n \<and> n \<notin> fst ` set ?rs}"
    unfolding created_names dropped_names using rs by blast
  finally show ?thesis .
qed

section \<open>Enums\<close>

abbreviation enum_names :: "database_schema \<Rightarrow> string set" where
  "enum_names s \<equiv> en_name ` set (db_enums s)"

lemma enum_renames_props:
  "distinct (map fst ds) \<Longrightarrow> enum_renames cur in_current in_desired matched ds = rs \<Longrightarrow>
    distinct (map fst rs) \<and> distinct (map snd rs) \<and> fst ` set rs \<inter> set matched = {} \<and>
    fst ` set rs \<subseteq> {n \<in> fst ` set cur. \<not> in_desired n} \<and>
    snd ` set rs \<subseteq> {n \<in> fst ` set ds. \<not> in_current n}"
proof (induction cur in_current in_desired matched ds arbitrary: rs rule: enum_renames.induct)
  case (2 cur in_current in_desired matched n d ds)
  show ?case
  proof (cases "in_current n")
    case True
    then show ?thesis using 2(1) [OF True] 2(4,5) by auto
  next
    case False
    show ?thesis
    proof (cases "find_enum_source cur in_desired matched d")
      case None
      then show ?thesis using 2(2) [OF False None] 2(4,5) False by auto
    next
      case (Some f)
      then have f: "f \<in> fst ` set cur \<and> \<not> in_desired f \<and> f \<notin> set matched"
        by (force simp: find_enum_source_def dest: find_SomeD)
      let ?rs = "enum_renames cur in_current in_desired (f # matched) ds"
      have rs: "rs = (f, n) # ?rs"
        using 2(5) False Some by simp
      have ih: "distinct (map fst ?rs) \<and> distinct (map snd ?rs) \<and> fst ` set ?rs \<inter> set (f # matched) = {} \<and>
          fst ` set ?rs \<subseteq> {n \<in> fst ` set cur. \<not> in_desired n} \<and>
          snd ` set ?rs \<subseteq> {n \<in> fst ` set ds. \<not> in_current n}"
        using 2(4) by (intro 2(3) [OF False Some]) simp_all
      have "n \<notin> fst ` set ds" using 2(4) by simp
      then show ?thesis
        using f ih False unfolding rs by (simp, blast)
    qed
  qed
qed auto

definition renamed_enums :: "hash_ord \<Rightarrow> database_schema \<Rightarrow> database_schema \<Rightarrow> (string \<times> string) list" where
  "renamed_enums ho current desired =
     enum_renames (hm_iter (ho_enums_current ho) (enum_map (db_enums current)))
       (\<lambda>n. n \<in> enum_names current) (\<lambda>n. n \<in> enum_names desired) []
       (hm_iter (ho_enums_desired ho) (enum_map (db_enums desired)))"

definition created_enums :: "hash_ord \<Rightarrow> database_schema \<Rightarrow> database_schema \<Rightarrow> enum_type_def list" where
  "created_enums ho current desired =
     map snd (filter (\<lambda>(n, d). n \<notin> enum_names current \<and> n \<notin> snd ` set (renamed_enums ho current desired))
       (hm_iter (ho_enums_desired ho) (enum_map (db_enums desired))))"

lemma fst_enum_map: "fst ` set (enum_map es) = en_name ` set es"
  by (simp add: enum_map_def image_image)

lemma hash_ord_enums: "hash_ord_ok ho \<Longrightarrow> perm_order (ho_enums_desired ho) \<and> perm_order (ho_enums_current ho)"
  by (simp add: hash_ord_ok_def)

lemma renamed_enums_props:
  assumes "hash_ord_ok ho"
  shows "distinct (map fst (renamed_enums ho current desired)) \<and> distinct (map snd (renamed_enums ho current desired)) \<and>
    fst ` set (renamed_enums ho current desired) \<subseteq> enum_names current - enum_names desired \<and>
    snd ` set (renamed_enums ho current desired) \<subseteq> enum_names desired - enum_names current"
  using enum_renames_props [OF hm_iter_distinct refl, of "ho_enums_desired ho"
      "hm_iter (ho_enums_current ho) (enum_map (db_enums current))"
      "\<lambda>n. n \<in> enum_names current" "\<lambda>n. n \<in> enum_names desired" "[]" "enum_map (db_enums desired)"]
    hash_ord_enums [OF assms]
  by (auto simp: renamed_enums_def hm_iter_fst_set fst_enum_map)

lemma enum_map_name: "hm_of (enum_map es) n = Some e \<Longrightarrow> en_name e = n \<and> e \<in> set es"
  by (auto simp: enum_map_def dest: hm_of_SomeD)

lemma mem_enum_iter:
  assumes "hash_ord_ok ho"
  shows "(n, e) \<in> set (hm_iter (ho_enums_desired ho) (enum_map es)) \<longleftrightarrow> hm_of (enum_map es) n = Some e"
  using assms by (simp add: hm_iter_mem hash_ord_enums)

lemma map_created_enum_names:
  assumes "hash_ord_ok ho"
  shows "map en_name (created_enums ho current desired) =
    map fst (filter (\<lambda>(n, d). n \<notin> enum_names current \<and> n \<notin> snd ` set (renamed_enums ho current desired))
      (hm_iter (ho_enums_desired ho) (enum_map (db_enums desired))))"
  unfolding created_enums_def map_map comp_def
  by (rule map_cong [OF refl]) (auto simp: mem_enum_iter [OF assms] dest: enum_map_name)

lemma distinct_created_enums: "hash_ord_ok ho \<Longrightarrow> distinct (map en_name (created_enums ho current desired))"
  by (simp add: map_created_enum_names distinct_map_filter_name hm_iter_distinct hash_ord_enums)

lemma image_fst_filter: "fst ` set (filter (\<lambda>(n, d). P n) xs) = {n \<in> fst ` set xs. P n}"
  by force

lemma created_enum_names:
  assumes "hash_ord_ok ho"
  shows "en_name ` set (created_enums ho current desired) =
    {n \<in> enum_names desired. n \<notin> enum_names current \<and> n \<notin> snd ` set (renamed_enums ho current desired)}"
proof -
  have "en_name ` set (created_enums ho current desired) = fst ` set
      (filter (\<lambda>(n, d). n \<notin> enum_names current \<and> n \<notin> snd ` set (renamed_enums ho current desired))
        (hm_iter (ho_enums_desired ho) (enum_map (db_enums desired))))"
    using arg_cong [OF map_created_enum_names [OF assms, of current desired], of set]
    unfolding list.set_map .
  then show ?thesis
    unfolding image_fst_filter using assms by (simp add: hm_iter_fst_set hash_ord_enums fst_enum_map)
qed

definition enum_type_change :: "schema_change \<Rightarrow> bool" where
  "enum_type_change c \<longleftrightarrow>
     (case c of CreateEnum e \<Rightarrow> True | RenameEnum f t \<Rightarrow> True | DropEnum n \<Rightarrow> True | _ \<Rightarrow> False)"

lemma enum_step_other: "\<not> enum_type_change c \<Longrightarrow> enum_step c S = Some S"
  by (cases c) (simp_all add: enum_type_change_def)

lemma diff_enums_shape:
  assumes "hash_ord_ok ho"
  shows "diff_enums ho (db_enums current) (db_enums desired) =
    map (\<lambda>(f, t). RenameEnum f t) (renamed_enums ho current desired) @
    map CreateEnum (created_enums ho current desired) @
    concat (map (\<lambda>(n, d). case hm_of (enum_map (db_enums current)) n of
        Some c \<Rightarrow> new_enum_values c d n | None \<Rightarrow> [])
      (hm_iter (ho_enums_desired ho) (enum_map (db_enums desired))))"
  unfolding diff_enums_def Let_def enum_map_iff renamed_enums_def [symmetric] created_enums_def
  by (simp add: comp_def case_prod_beta)

lemma filter_enum_changes:
  assumes "hash_ord_ok ho" and "distinct (map tbl_name (db_tables desired))"
  shows "filter enum_type_change (compute_diff ho current desired) =
    map (\<lambda>(f, t). RenameEnum f t) (renamed_enums ho current desired) @
    map CreateEnum (created_enums ho current desired)"
proof -
  obtain tail where t: "compute_diff ho current desired =
       diff_enums ho (db_enums current) (db_enums desired) @
       map (\<lambda>(f, t). RenameTable f t) (renamed_tables current desired) @
       map CreateTable (created_tables current desired) @
       map (\<lambda>c. DropTable (tbl_name c) c) (dropped_tables current desired) @ tail"
    and tail: "\<forall>x\<in>set tail. \<exists>d\<in>set (db_tables desired). change_table x = Some (tbl_name d)"
    by (rule compute_diff_shape [OF assms(2)])
  have "\<not> enum_type_change x" if "change_table x = Some n" for x n
    using that by (cases x) (simp_all add: enum_type_change_def)
  then have "filter enum_type_change tail = []"
    using tail by (auto simp: filter_empty_conv)
  moreover have "filter enum_type_change (map (\<lambda>(f, t). RenameTable f t) rs) = []"
    "filter enum_type_change (map CreateTable xs) = []"
    "filter enum_type_change (map (\<lambda>c. DropTable (tbl_name c) c) ys) = []"
    "filter enum_type_change (map (\<lambda>(f, t). RenameEnum f t) rs) = map (\<lambda>(f, t). RenameEnum f t) rs"
    "filter enum_type_change (map CreateEnum es) = map CreateEnum es"
    "filter enum_type_change (concat (map (\<lambda>(n, d). case hm_of m n of
        Some c \<Rightarrow> new_enum_values c d n | None \<Rightarrow> []) des)) = []"
    for rs xs ys es m des
    by (auto simp: filter_empty_conv filter_id_conv enum_type_change_def new_enum_values_def split: option.splits)
  ultimately show ?thesis unfolding t diff_enums_shape [OF assms(1)] by simp
qed

text \<open>Executed in plan order, the computed changes run against the catalog of enum types without
  a conflict; no enum is ever dropped, so it ends with the desired enums and those of the current
  schema that were not the source of a rename.\<close>

theorem plan_reaches_desired_enums:
  assumes "hash_ord_ok ho" and "distinct (map tbl_name (db_tables desired))"
  shows "run_changes enum_step (sort_key change_order (compute_diff ho current desired)) (enum_names current) =
    Some (enum_names desired \<union> (enum_names current - fst ` set (renamed_enums ho current desired)))"
proof -
  let ?rs = "renamed_enums ho current desired" and ?S = "enum_names current"
  let ?xs = "created_enums ho current desired"
  note rs = renamed_enums_props [OF assms(1), of current desired]
  have "run_changes enum_step (sort_key change_order (compute_diff ho current desired)) ?S =
      run_changes enum_step (filter enum_type_change (sort_key change_order (compute_diff ho current desired))) ?S"
    by (rule run_changes_filter [symmetric]) (rule enum_step_other)
  also have "filter enum_type_change (sort_key change_order (compute_diff ho current desired)) =
      map CreateEnum ?xs @ map (\<lambda>(f, t). RenameEnum f t) ?rs @ map DropEnum []"
    unfolding filter_sort filter_enum_changes [OF assms]
      list.map append_Nil2
    by (rule sort_key_two_blocks [where a = 10 and b = 11]) auto
  also have "run_changes enum_step \<dots> ?S =
      Some (?S - fst ` set ?rs - (\<lambda>n. n) ` set [] \<union> snd ` set ?rs \<union> en_name ` set ?xs)"
  proof (rule enums.run_sync)
    show "distinct (map en_name ?xs)"
      by (rule distinct_created_enums [OF assms(1)])
  qed (insert rs, unfold created_enum_names [OF assms(1)], simp_all, blast+)
  also have "?S - fst ` set ?rs - (\<lambda>n. n) ` set [] \<union> snd ` set ?rs \<union> en_name ` set ?xs =
      enum_names desired \<union> (?S - fst ` set ?rs)"
    unfolding created_enum_names [OF assms(1)] list.set image_empty Diff_empty using rs by blast
  finally show ?thesis .
qed

end
