(* ===== verification/Mig_Columns.thy ===== *)
theory Mig_Columns
  imports Mig_Differ
begin

text \<open>
  What the diff engine promises inside a table: the columns, the values of an enum, the shape of a
  column, the keyed constraints; and that it is silent when nothing changed.
\<close>

section \<open>The changes of one table\<close>

lemma distinct_names_eq: "distinct (map f xs) \<Longrightarrow> x \<in> set xs \<Longrightarrow> y \<in> set xs \<Longrightarrow> f x = f y \<Longrightarrow> x = y"
  unfolding distinct_map by (meson inj_onD)

lemma table_map_get:
  assumes "distinct (map tbl_name ts)"
  shows "hm_of (table_map ts) n = Some t \<longleftrightarrow> t \<in> set ts \<and> tbl_name t = n"
proof -
  have "hm_of (table_map ts) (tbl_name t) = Some t" if "t \<in> set ts" for t
    using hm_of_self [of tbl_name ts t "\<lambda>t. t"] assms that by (simp add: table_map_def)
  then show ?thesis by (auto simp: table_map_def dest: hm_of_SomeD)
qed

lemma rename_source_append:
  assumes "\<forall>x\<in>set ys. \<exists>t. change_table x = Some t"
  shows "rename_source n (xs @ ys) = rename_source n xs"
proof (induction xs)
  case Nil
  show ?case using assms
  proof (induction ys)
    case (Cons y ys)
    then show ?case by (cases y) simp_all
  qed simp
next
  case (Cons x xs)
  then show ?case by (cases x) simp_all
qed

lemma current_of_append:
  "\<forall>x\<in>set ys. \<exists>t. change_table x = Some t \<Longrightarrow> current_of cur (xs @ ys) d = current_of cur xs d"
  using rename_source_append [of ys "tbl_name d" xs] by (simp add: current_of_def split: option.split)

lemma diff_modified_extends:
  "\<exists>ys. diff_modified ho cur changes d = changes @ ys \<and> in_table (tbl_name d) ys"
  using diff_table_extends [of ho _ d changes]
  by (cases "current_of cur changes d") (auto simp: diff_modified_def in_table)

definition in_one_table :: "string \<Rightarrow> schema_change \<Rightarrow> bool" where
  "in_one_table t c \<longleftrightarrow> change_table c = Some t"

lemma other_tables:
  "\<forall>x\<in>set xs. \<exists>d\<in>set ds. change_table x = Some (tbl_name d) \<Longrightarrow> n \<notin> tbl_name ` set ds \<Longrightarrow>
     \<forall>x\<in>set xs. \<exists>t. change_table x = Some t \<and> t \<noteq> n"
  by (metis imageI)

lemma filter_other_tables:
  "\<forall>x\<in>set xs. \<exists>t. change_table x = Some t \<and> t \<noteq> n \<Longrightarrow> filter (in_one_table n) xs = []"
  by (induction xs) (auto simp: in_one_table_def)

text \<open>The fold over the desired tables, cut at one table.\<close>

lemma foldl_diff_modified_at:
  assumes "distinct (map tbl_name ds)" and "d \<in> set ds"
  obtains pre mid post where
    "foldl (diff_modified ho cur) changes ds = changes @ pre @ mid @ post"
    and "diff_modified ho cur (changes @ pre) d = changes @ pre @ mid"
    and "in_table (tbl_name d) mid"
    and "\<forall>x\<in>set (pre @ post). \<exists>t. change_table x = Some t \<and> t \<noteq> tbl_name d"
proof -
  obtain as bs where ds: "ds = as @ d # bs"
    using assms(2) by (meson split_list)
  have n: "tbl_name d \<notin> tbl_name ` set as" "tbl_name d \<notin> tbl_name ` set bs"
    using assms(1) unfolding ds by auto
  obtain pre where pre: "foldl (diff_modified ho cur) changes as = changes @ pre"
      "\<forall>x\<in>set pre. \<exists>d\<in>set as. change_table x = Some (tbl_name d)"
    using foldl_diff_modified by blast
  obtain mid where mid: "diff_modified ho cur (changes @ pre) d = (changes @ pre) @ mid" "in_table (tbl_name d) mid"
    using diff_modified_extends by blast
  obtain post where post: "foldl (diff_modified ho cur) ((changes @ pre) @ mid) bs = ((changes @ pre) @ mid) @ post"
      "\<forall>x\<in>set post. \<exists>d\<in>set bs. change_table x = Some (tbl_name d)"
    using foldl_diff_modified by blast
  have "foldl (diff_modified ho cur) changes ds = changes @ pre @ mid @ post"
    using pre(1) mid(1) post(1) by (simp add: ds)
  moreover have "\<forall>x\<in>set (pre @ post). \<exists>t. change_table x = Some t \<and> t \<noteq> tbl_name d"
    using other_tables [OF pre(2) n(1)] other_tables [OF post(2) n(2)] by auto
  moreover have "diff_modified ho cur (changes @ pre) d = changes @ pre @ mid"
    using mid(1) by simp
  ultimately show ?thesis using that mid(2) by blast
qed

text \<open>The current table a desired one is compared with: the one of its name or the one it was
  renamed from.\<close>

definition source_table :: "database_schema \<Rightarrow> database_schema \<Rightarrow> table_def \<Rightarrow> table_def \<Rightarrow> bool" where
  "source_table current desired c d \<longleftrightarrow>
     c \<in> set (db_tables current) \<and> d \<in> set (db_tables desired) \<and>
     (tbl_name c = tbl_name d \<or> (tbl_name c, tbl_name d) \<in> set (renamed_tables current desired))"

lemma rename_source_none: "\<forall>x\<in>set xs. \<forall>f. x \<noteq> RenameTable f n \<Longrightarrow> rename_source n xs = None"
proof (induction xs)
  case (Cons x xs)
  then show ?case by (cases x) auto
qed simp

lemma rename_source_renames:
  "distinct (map snd rs) \<Longrightarrow> (f, n) \<in> set rs \<Longrightarrow>
     rename_source n (map (\<lambda>(f, t). RenameTable f t) rs @ ys) = Some f"
  by (induction rs) (auto simp: image_iff)

lemma rename_source_prefix:
  "\<forall>x\<in>set xs. \<forall>f t. x \<noteq> RenameTable f t \<Longrightarrow> rename_source n (xs @ ys) = rename_source n ys"
proof (induction xs)
  case (Cons x xs)
  then show ?case by (cases x) auto
qed simp

lemma current_of_source:
  assumes "distinct (map tbl_name (db_tables current))" and "distinct (map tbl_name (db_tables desired))"
    and "source_table current desired c d"
  shows "current_of (db_tables current)
    (diff_enums ho (db_enums current) (db_enums desired) @
     map (\<lambda>(f, t). RenameTable f t) (renamed_tables current desired) @
     map CreateTable (created_tables current desired) @
     map (\<lambda>c. DropTable (tbl_name c) c) (dropped_tables current desired)) d = Some c"
proof (cases "tbl_name c = tbl_name d")
  case True
  then have "hm_of (table_map (db_tables current)) (tbl_name d) = Some c"
    using assms by (simp add: table_map_get source_table_def)
  then show ?thesis by (simp add: current_of_def)
next
  case False
  then have r: "(tbl_name c, tbl_name d) \<in> set (renamed_tables current desired)"
    using assms(3) by (simp add: source_table_def)
  have "tbl_name d \<notin> table_names current"
    using renamed_tables_props [OF assms(2), of current] r by force
  then have "hm_of (table_map (db_tables current)) (tbl_name d) = None"
    using in_table_map_iff [of "db_tables current" "tbl_name d"] by blast
  moreover have "hm_of (table_map (db_tables current)) (tbl_name c) = Some c"
    using assms by (simp add: table_map_get source_table_def)
  moreover have "\<forall>x\<in>set (diff_enums ho (db_enums current) (db_enums desired)). \<forall>f t. x \<noteq> RenameTable f t"
    using diff_enums_kinds by (fastforce simp: is_table_change_def)
  ultimately show ?thesis
    using rename_source_renames [OF _ r] renamed_tables_props [OF assms(2), of current]
    by (simp add: current_of_def rename_source_prefix)
qed

text \<open>The part of the diff that concerns a desired table with a source is \<open>diff_table\<close> of the two,
  run on a list of changes with the enum renames of the diff.\<close>

lemma table_part:
  assumes "distinct (map tbl_name (db_tables current))" and "distinct (map tbl_name (db_tables desired))"
    and "source_table current desired c d"
  obtains changes mid where "diff_table ho c d changes = changes @ mid"
    and "filter (in_one_table (tbl_name d)) (compute_diff ho current desired) = mid"
    and "set changes \<subseteq> set (compute_diff ho current desired)"
    and "\<forall>f t. RenameEnum f t \<in> set (compute_diff ho current desired) \<longleftrightarrow> RenameEnum f t \<in> set changes"
proof -
  let ?rs = "renamed_tables current desired"
  let ?en = "diff_enums ho (db_enums current) (db_enums desired)"
  let ?ren = "map (\<lambda>(f, t). RenameTable f t) ?rs"
  let ?cre = "map CreateTable (created_tables current desired)"
  let ?drp = "map (\<lambda>c. DropTable (tbl_name c) c) (dropped_tables current desired)"
  let ?pre = "?en @ ?ren @ ?cre @ ?drp"
  have d: "d \<in> set (db_tables desired)" using assms(3) by (simp add: source_table_def)
  obtain pre mid post where
    split: "foldl (diff_modified ho (db_tables current)) ?pre (db_tables desired) = ?pre @ pre @ mid @ post"
    and at: "diff_modified ho (db_tables current) (?pre @ pre) d = ?pre @ pre @ mid"
    and mid: "in_table (tbl_name d) mid"
    and other: "\<forall>x\<in>set (pre @ post). \<exists>t. change_table x = Some t \<and> t \<noteq> tbl_name d"
    by (rule foldl_diff_modified_at [OF assms(2) d])
  have cd: "compute_diff ho current desired = ?pre @ pre @ mid @ post"
    using split by (simp add: compute_diff_start [OF assms(2)])
  have "current_of (db_tables current) (?pre @ pre) d = current_of (db_tables current) ?pre d"
    using other by (intro current_of_append) auto
  also have "\<dots> = Some c"
    by (rule current_of_source [OF assms])
  finally have "diff_table ho c d (?pre @ pre) = (?pre @ pre) @ mid"
    using at by (simp add: diff_modified_def)
  moreover have "filter (in_one_table (tbl_name d)) (compute_diff ho current desired) = mid"
  proof -
    have "filter (in_one_table (tbl_name d)) mid = mid"
      using mid by (simp add: in_table_def in_one_table_def)
    moreover have "filter (in_one_table (tbl_name d)) (pre @ post) = []"
      by (rule filter_other_tables [OF other])
    moreover have "filter (in_one_table (tbl_name d)) ?pre = []"
      by (auto simp: filter_empty_conv in_one_table_def dest: change_table_not_table dest!: diff_enums_kinds)
    ultimately show ?thesis unfolding cd by simp
  qed
  moreover have "\<forall>f t. RenameEnum f t \<in> set (compute_diff ho current desired) \<longleftrightarrow> RenameEnum f t \<in> set (?pre @ pre)"
  proof -
    have "RenameEnum f t \<notin> set mid" "RenameEnum f t \<notin> set post" for f t
      using mid other [rule_format, of "RenameEnum f t"] by (auto simp: in_table_def)
    then show ?thesis unfolding cd by auto
  qed
  moreover have "set (?pre @ pre) \<subseteq> set (compute_diff ho current desired)"
    unfolding cd by auto
  ultimately show ?thesis using that [of "?pre @ pre" mid] by (simp only: simp_thms)
qed

section \<open>Column names\<close>

abbreviation column_names :: "table_def \<Rightarrow> string set" where
  "column_names t \<equiv> col_name ` set (tbl_columns t)"

definition column_change :: "schema_change \<Rightarrow> bool" where
  "column_change c \<longleftrightarrow>
     (case c of AddColumn t d \<Rightarrow> True | RenameColumn t f n \<Rightarrow> True | DropColumn t n p \<Rightarrow> True | _ \<Rightarrow> False)"

lemma column_step_other: "\<not> (in_one_table t c \<and> column_change c) \<Longrightarrow> column_step t c S = Some S"
  by (cases c) (auto simp: in_one_table_def column_change_def)

named_theorems no_column

lemma no_column_parts [no_column]:
  "filter column_change (diff_column_type changes t c d) = []"
  "filter column_change (diff_column_nullable t c d) = []"
  "filter column_change (diff_column_default t c d) = []"
  by (auto simp: column_change_def diff_column_type_def diff_column_nullable_def diff_column_default_def
      split: option.splits)

lemma no_column_pk [no_column]: "filter column_change (diff_primary_key t a b) = []"
  by (cases "(t, a, b)" rule: diff_primary_key.cases) (auto simp: column_change_def)

lemma no_column_keyed_adds:
  "(\<And>v. \<not> column_change (mk v)) \<Longrightarrow> filter column_change (keyed_adds ord this other mk) = []"
  by (auto simp: keyed_adds_def filter_empty_conv)

lemma no_column_keyed [no_column]:
  "filter column_change (diff_unique_constraints ho t us vs) = []"
  "filter column_change (diff_indexes ho t is js) = []"
  "filter column_change (diff_check_constraints ho t cs ds) = []"
  by (simp_all add: diff_unique_constraints_def diff_indexes_def diff_check_constraints_def
      no_column_keyed_adds column_change_def)

lemma no_column_fk_new_loop: "filter column_change (fst (fk_new_loop t current inc mc md ks)) = []"
  by (induction t current inc mc md ks rule: fk_new_loop.induct)
    (auto simp: column_change_def case_prod_beta split: option.splits)

lemma no_column_fks [no_column]: "filter column_change (diff_foreign_keys ho t a b) = []"
proof -
  have m: "filter column_change (fk_modified t a des) = []" for des
    by (auto simp: filter_empty_conv column_change_def fk_modified_def split: option.splits if_splits)
  have d: "filter column_change (fk_drop_loop t b ind md ks) = []" for ind md ks
    by (auto simp: filter_empty_conv column_change_def fk_drop_loop_def)
  show ?thesis
    by (simp add: diff_foreign_keys_def Let_def case_prod_beta m d no_column_fk_new_loop)
qed

lemma no_column_modified:
  "\<exists>xs. foldl (column_modified t cur) changes ds = changes @ xs \<and> filter column_change xs = []"
proof (induction ds arbitrary: changes)
  case (Cons d ds)
  obtain ys where ys: "column_modified t cur changes d = changes @ ys" "filter column_change ys = []"
    by (cases "hm_of cur (col_name d)") (auto simp: column_modified_def diff_column_def no_column)
  obtain xs where "foldl (column_modified t cur) (changes @ ys) ds = (changes @ ys) @ xs"
      "filter column_change xs = []"
    using Cons by blast
  then show ?case using ys by (intro exI [of _ "ys @ xs"]) simp
qed simp

definition renamed_columns :: "table_def \<Rightarrow> table_def \<Rightarrow> (string \<times> string) list" where
  "renamed_columns c d =
     column_renames (\<lambda>n. n \<in> column_names c) (\<lambda>n. n \<in> column_names d) (tbl_columns c) [] 0 (tbl_columns d)"

definition added_columns :: "table_def \<Rightarrow> table_def \<Rightarrow> column_def list" where
  "added_columns c d =
     filter (\<lambda>x. col_name x \<notin> column_names c \<and> col_name x \<notin> snd ` set (renamed_columns c d)) (tbl_columns d)"

definition dropped_columns :: "table_def \<Rightarrow> table_def \<Rightarrow> column_def list" where
  "dropped_columns c d =
     filter (\<lambda>x. col_name x \<notin> column_names d \<and> col_name x \<notin> fst ` set (renamed_columns c d)) (tbl_columns c)"

lemma column_renames_props:
  "distinct (map col_name ds) \<Longrightarrow> column_renames in_current in_desired cur renamed pos ds = rs \<Longrightarrow>
    distinct (map fst rs) \<and> distinct (map snd rs) \<and> fst ` set rs \<inter> set renamed = {} \<and>
    fst ` set rs \<subseteq> {n \<in> col_name ` set cur. \<not> in_desired n} \<and>
    snd ` set rs \<subseteq> {n \<in> col_name ` set ds. \<not> in_current n}"
proof (induction in_current in_desired cur renamed pos ds arbitrary: rs rule: column_renames.induct)
  case (2 in_current in_desired cur renamed pos d ds)
  show ?case
  proof (cases "\<not> in_current (col_name d) \<and> pos < length cur \<and> \<not> in_desired (col_name (cur ! pos)) \<and>
      col_sql_type (cur ! pos) = col_sql_type d \<and> col_name (cur ! pos) \<notin> set renamed")
    case True
    let ?f = "col_name (cur ! pos)"
    let ?rs = "column_renames in_current in_desired cur (?f # renamed) (Suc pos) ds"
    have rs: "rs = (?f, col_name d) # ?rs"
      using 2(4) True by simp
    have ih: "distinct (map fst ?rs) \<and> distinct (map snd ?rs) \<and> fst ` set ?rs \<inter> set (?f # renamed) = {} \<and>
        fst ` set ?rs \<subseteq> {n \<in> col_name ` set cur. \<not> in_desired n} \<and>
        snd ` set ?rs \<subseteq> {n \<in> col_name ` set ds. \<not> in_current n}"
      using 2(3) by (intro 2(1) [OF True]) simp_all
    have "col_name d \<notin> col_name ` set ds" "?f \<in> col_name ` set cur" using 2(3) True by simp_all
    then show ?thesis using True ih unfolding rs by (simp, blast)
  next
    case False
    then have "column_renames in_current in_desired cur renamed (Suc pos) ds = rs"
      using 2(4) by (simp split: if_splits)
    then have "distinct (map fst rs) \<and> distinct (map snd rs) \<and> fst ` set rs \<inter> set renamed = {} \<and>
        fst ` set rs \<subseteq> {n \<in> col_name ` set cur. \<not> in_desired n} \<and>
        snd ` set rs \<subseteq> {n \<in> col_name ` set ds. \<not> in_current n}"
      using 2(3) by (intro 2(2) [OF False]) simp_all
    then show ?thesis by auto
  qed
qed auto

lemma renamed_columns_props:
  assumes "distinct (map col_name (tbl_columns d))"
  shows "distinct (map fst (renamed_columns c d)) \<and> distinct (map snd (renamed_columns c d)) \<and>
    fst ` set (renamed_columns c d) \<subseteq> column_names c - column_names d \<and>
    snd ` set (renamed_columns c d) \<subseteq> column_names d - column_names c"
  using column_renames_props [OF assms refl, of "\<lambda>n. n \<in> column_names c" "\<lambda>n. n \<in> column_names d"
      "tbl_columns c" "[]" 0]
  by (auto simp: renamed_columns_def)

lemma added_column_names: "col_name ` set (added_columns c d) =
    {n \<in> column_names d. n \<notin> column_names c \<and> n \<notin> snd ` set (renamed_columns c d)}"
  by (auto simp: added_columns_def)

lemma dropped_column_names: "col_name ` set (dropped_columns c d) =
    {n \<in> column_names c. n \<notin> column_names d \<and> n \<notin> fst ` set (renamed_columns c d)}"
  by (auto simp: dropped_columns_def)

lemma in_col_map_iff: "hm_of (col_map cs) n \<noteq> None \<longleftrightarrow> n \<in> col_name ` set cs"
  unfolding col_map_def by (rule in_map_iff)

lemma diff_table_column_changes:
  assumes "diff_table ho c d changes = changes @ mid"
  shows "filter column_change mid =
    map (\<lambda>(f, n). RenameColumn (tbl_name d) f n) (renamed_columns c d) @
    map (AddColumn (tbl_name d)) (added_columns c d) @
    map (\<lambda>x. DropColumn (tbl_name d) (col_name x) x) (dropped_columns c d)"
proof -
  let ?t = "tbl_name d" and ?rs = "renamed_columns c d"
  have kinds: "filter column_change (map (\<lambda>(f, n). RenameColumn ?t f n) rs) = map (\<lambda>(f, n). RenameColumn ?t f n) rs"
    "filter column_change (map (AddColumn ?t) xs) = map (AddColumn ?t) xs"
    "filter column_change (map (\<lambda>x. DropColumn ?t (col_name x) x) ys) = map (\<lambda>x. DropColumn ?t (col_name x) x) ys"
    for rs xs ys
    by (auto simp: filter_id_conv column_change_def)
  obtain mods where mods: "foldl (column_modified ?t (col_map (tbl_columns c)))
      (changes @ map (\<lambda>(f, n). RenameColumn ?t f n) ?rs @ map (AddColumn ?t) (added_columns c d) @
       map (\<lambda>x. DropColumn ?t (col_name x) x) (dropped_columns c d)) (tbl_columns d) =
      (changes @ map (\<lambda>(f, n). RenameColumn ?t f n) ?rs @ map (AddColumn ?t) (added_columns c d) @
       map (\<lambda>x. DropColumn ?t (col_name x) x) (dropped_columns c d)) @ mods"
      "filter column_change mods = []"
    using no_column_modified by blast
  have "diff_columns ?t (tbl_columns c) (tbl_columns d) changes =
      changes @ map (\<lambda>(f, n). RenameColumn ?t f n) ?rs @ map (AddColumn ?t) (added_columns c d) @
       map (\<lambda>x. DropColumn ?t (col_name x) x) (dropped_columns c d) @ mods"
    using mods(1)
    unfolding diff_columns_def Let_def in_col_map_iff renamed_columns_def [symmetric] set_map append_assoc
      added_columns_def [symmetric] dropped_columns_def [symmetric] list.set_map .
  then have "mid = map (\<lambda>(f, n). RenameColumn ?t f n) ?rs @ map (AddColumn ?t) (added_columns c d) @
       map (\<lambda>x. DropColumn ?t (col_name x) x) (dropped_columns c d) @ mods @
       diff_primary_key ?t (tbl_primary_key c) (tbl_primary_key d) @
       diff_unique_constraints ho ?t (tbl_unique_constraints c) (tbl_unique_constraints d) @
       diff_foreign_keys ho ?t (tbl_foreign_keys c) (tbl_foreign_keys d) @
       diff_indexes ho ?t (tbl_indexes c) (tbl_indexes d) @
       diff_check_constraints ho ?t (tbl_check_constraints c) (tbl_check_constraints d)"
    using assms by (simp add: diff_table_def Let_def)
  then show ?thesis by (simp add: kinds mods(2) no_column)
qed

text \<open>C2. Executed in plan order, the computed changes run against the columns of every table that
  stays (or is renamed) without a conflict, and leave exactly the desired columns.\<close>

theorem plan_reaches_desired_columns:
  assumes "distinct (map tbl_name (db_tables current))" and "distinct (map tbl_name (db_tables desired))"
    and "source_table current desired c d"
    and "distinct (map col_name (tbl_columns c))" and "distinct (map col_name (tbl_columns d))"
  shows "run_changes (column_step (tbl_name d)) (sort_key change_order (compute_diff ho current desired)) (column_names c)
    = Some (column_names d)"
proof -
  let ?t = "tbl_name d" and ?rs = "renamed_columns c d" and ?S = "column_names c"
  let ?D = "compute_diff ho current desired"
  note rs = renamed_columns_props [OF assms(5), of c]
  obtain changes mid where mid: "diff_table ho c d changes = changes @ mid"
      "filter (in_one_table ?t) ?D = mid"
    by (rule table_part [OF assms(1-3)])
  have "run_changes (column_step ?t) (sort_key change_order ?D) ?S =
      run_changes (column_step ?t) (filter (\<lambda>c. in_one_table ?t c \<and> column_change c) (sort_key change_order ?D)) ?S"
    by (rule run_changes_filter [symmetric]) (rule column_step_other)
  also have "filter (\<lambda>c. in_one_table ?t c \<and> column_change c) (sort_key change_order ?D) =
      sort_key change_order (filter column_change mid)"
    unfolding filter_sort mid(2) [symmetric] filter_filter by (simp add: conj_commute)
  also have "\<dots> = map (AddColumn ?t) (added_columns c d) @ map (\<lambda>(f, n). RenameColumn ?t f n) ?rs @
      map (\<lambda>x. DropColumn ?t (col_name x) x) (dropped_columns c d)"
    unfolding diff_table_column_changes [OF mid(1)]
    by (rule sort_key_blocks [where a = 30 and b = 31 and c = 80]) auto
  also have "run_changes (column_step ?t) \<dots> ?S =
      Some (?S - fst ` set ?rs - col_name ` set (dropped_columns c d) \<union> snd ` set ?rs \<union>
        col_name ` set (added_columns c d))"
  proof (rule columns.run_sync)
    show "distinct (map col_name (added_columns c d))" "distinct (map col_name (dropped_columns c d))"
      using assms by (simp_all add: added_columns_def dropped_columns_def distinct_map_filter_name)
  qed (insert rs, unfold added_column_names dropped_column_names, blast+)
  also have "?S - fst ` set ?rs - col_name ` set (dropped_columns c d) \<union> snd ` set ?rs \<union>
      col_name ` set (added_columns c d) = column_names d"
    unfolding added_column_names dropped_column_names using rs by blast
  finally show ?thesis .
qed

section \<open>Column attributes\<close>

text \<open>The catalog of one column: its type, nullability and default.\<close>

fun edit_step :: "string \<Rightarrow> string \<Rightarrow> schema_change \<Rightarrow> column_def \<Rightarrow> column_def option" where
  "edit_step table name (AlterColumnType t n fr to) s =
     (if t = table \<and> n = name
      then if col_sql_type s = fr then Some (s\<lparr>col_sql_type := to\<rparr>) else None
      else Some s)"
| "edit_step table name (SetNotNull t n dflt ty) s =
     (if t = table \<and> n = name then Some (s\<lparr>col_nullable := False\<rparr>) else Some s)"
| "edit_step table name (DropNotNull t n) s =
     (if t = table \<and> n = name then Some (s\<lparr>col_nullable := True\<rparr>) else Some s)"
| "edit_step table name (SetDefault t n v) s =
     (if t = table \<and> n = name then Some (s\<lparr>col_default := Some v\<rparr>) else Some s)"
| "edit_step table name (DropDefault t n) s =
     (if t = table \<and> n = name then Some (s\<lparr>col_default := None\<rparr>) else Some s)"
| "edit_step table name c s = Some s"

fun edited_column :: "schema_change \<Rightarrow> string option" where
  "edited_column (AlterColumnType t n fr to) = Some n"
| "edited_column (SetNotNull t n dflt ty) = Some n"
| "edited_column (DropNotNull t n) = Some n"
| "edited_column (SetDefault t n v) = Some n"
| "edited_column (DropDefault t n) = Some n"
| "edited_column c = None"

abbreviation edits :: "string \<Rightarrow> schema_change \<Rightarrow> bool" where
  "edits n c \<equiv> edited_column c = Some n"

lemma edit_step_other: "\<not> (in_one_table t c \<and> edits n c) \<Longrightarrow> edit_step t n c s = Some s"
  by (cases c) (auto simp: in_one_table_def)

named_theorems edits_simps

lemma edits_diff_column [edits_simps]:
  "filter (edits n) (diff_column_type changes t x e) = (if col_name e = n then diff_column_type changes t x e else [])"
  "filter (edits n) (diff_column_nullable t x e) = (if col_name e = n then diff_column_nullable t x e else [])"
  "filter (edits n) (diff_column_default t x e) = (if col_name e = n then diff_column_default t x e else [])"
  by (auto simp: diff_column_type_def diff_column_nullable_def diff_column_default_def split: option.splits)

lemma edits_pk [edits_simps]: "filter (edits n) (diff_primary_key t a b) = []"
  by (cases "(t, a, b)" rule: diff_primary_key.cases) auto

lemma edits_keyed_adds:
  "(\<And>v. edited_column (mk v) = None) \<Longrightarrow> filter (edits n) (keyed_adds ord this other mk) = []"
  by (auto simp: keyed_adds_def filter_empty_conv)

lemma edits_keyed [edits_simps]:
  "filter (edits n) (diff_unique_constraints ho t us vs) = []"
  "filter (edits n) (diff_indexes ho t is js) = []"
  "filter (edits n) (diff_check_constraints ho t cs ds) = []"
  by (simp_all add: diff_unique_constraints_def diff_indexes_def diff_check_constraints_def edits_keyed_adds)

lemma edits_fk_new_loop: "filter (edits n) (fst (fk_new_loop t current inc mc md ks)) = []"
  by (induction t current inc mc md ks rule: fk_new_loop.induct)
    (auto simp: case_prod_beta split: option.splits)

lemma edits_fks [edits_simps]: "filter (edits n) (diff_foreign_keys ho t a b) = []"
proof -
  have m: "filter (edits n) (fk_modified t a des) = []" for des
    by (auto simp: filter_empty_conv fk_modified_def split: option.splits if_splits)
  have d: "filter (edits n) (fk_drop_loop t b ind md ks) = []" for ind md ks
    by (auto simp: filter_empty_conv fk_drop_loop_def)
  show ?thesis
    by (simp add: diff_foreign_keys_def Let_def case_prod_beta m d edits_fk_new_loop)
qed

lemma edits_names [edits_simps]:
  "filter (edits n) (map (\<lambda>(f, n). RenameColumn t f n) rs) = []"
  "filter (edits n) (map (AddColumn t) cs) = []"
  "filter (edits n) (map (\<lambda>x. DropColumn t (col_name x) x) ds) = []"
  by (auto simp: filter_empty_conv)

lemma edits_other_columns:
  "n \<notin> col_name ` set ds \<Longrightarrow>
     \<exists>xs. foldl (column_modified t cur) changes ds = changes @ xs \<and> filter (edits n) xs = [] \<and> in_table t xs"
proof (induction ds arbitrary: changes)
  case Nil
  then show ?case by (simp add: in_table)
next
  case (Cons d ds)
  obtain ys where ys: "column_modified t cur changes d = changes @ ys" "filter (edits n) ys = []" "in_table t ys"
    using Cons.prems by (cases "hm_of cur (col_name d)")
      (auto simp: column_modified_def diff_column_def edits_simps in_table)
  obtain xs where "foldl (column_modified t cur) (changes @ ys) ds = (changes @ ys) @ xs"
      "filter (edits n) xs = []" "in_table t xs"
    using Cons.IH [of "changes @ ys"] Cons.prems by auto
  then show ?case using ys by (intro exI [of _ "ys @ xs"]) (simp add: in_table)
qed

lemma in_table_no_rename_enum: "in_table t xs \<Longrightarrow> RenameEnum f n \<notin> set xs"
  by (auto simp: in_table_def)

lemma diff_table_edits:
  assumes "diff_table ho c d changes = changes @ mid" and "distinct (map col_name (tbl_columns c))"
    and "distinct (map col_name (tbl_columns d))"
    and "x \<in> set (tbl_columns c)" and "e \<in> set (tbl_columns d)" and "col_name x = col_name e"
  obtains chs where
    "filter (edits (col_name e)) mid =
       diff_column_type chs (tbl_name d) x e @ diff_column_nullable (tbl_name d) x e @
       diff_column_default (tbl_name d) x e"
    and "\<forall>f n. RenameEnum f n \<in> set chs \<longleftrightarrow> RenameEnum f n \<in> set changes"
proof -
  let ?t = "tbl_name d" and ?n = "col_name e" and ?cur = "col_map (tbl_columns c)"
  define names where "names = map (\<lambda>(f, n). RenameColumn ?t f n) (renamed_columns c d) @
    map (AddColumn ?t) (added_columns c d) @ map (\<lambda>x. DropColumn ?t (col_name x) x) (dropped_columns c d)"
  have names: "filter (edits ?n) names = []" "\<forall>f n. RenameEnum f n \<notin> set names"
    by (auto simp: names_def edits_simps)
  obtain as bs where ds: "tbl_columns d = as @ e # bs"
    using assms(5) by (meson split_list)
  have n: "?n \<notin> col_name ` set as" "?n \<notin> col_name ` set bs"
    using assms(3) unfolding ds by auto
  obtain pre where pre: "foldl (column_modified ?t ?cur) (changes @ names) as = (changes @ names) @ pre"
      "filter (edits ?n) pre = []" "in_table ?t pre"
    using edits_other_columns [OF n(1)] by blast
  define chs where "chs = (changes @ names) @ pre"
  define mine where "mine = diff_column_type chs ?t x e @ diff_column_nullable ?t x e @ diff_column_default ?t x e"
  have "hm_of ?cur ?n = Some x"
    using hm_of_self [OF assms(2,4), of "\<lambda>x. x"] assms(6) by (simp add: col_map_def)
  then have at: "column_modified ?t ?cur chs e = chs @ mine"
    by (simp add: column_modified_def diff_column_def mine_def)
  obtain post where post: "foldl (column_modified ?t ?cur) (chs @ mine) bs = (chs @ mine) @ post"
      "filter (edits ?n) post = []"
    using edits_other_columns [OF n(2)] by blast
  have "foldl (column_modified ?t ?cur) (changes @ names) (tbl_columns d) = chs @ mine @ post"
    using pre(1) at post(1) by (simp add: ds chs_def)
  then have "diff_columns ?t (tbl_columns c) (tbl_columns d) changes = changes @ names @ pre @ mine @ post"
    unfolding diff_columns_def Let_def in_col_map_iff renamed_columns_def [symmetric] list.set_map append_assoc
      added_columns_def [symmetric] dropped_columns_def [symmetric] names_def chs_def by simp
  then have "mid = names @ pre @ mine @ post @
       diff_primary_key ?t (tbl_primary_key c) (tbl_primary_key d) @
       diff_unique_constraints ho ?t (tbl_unique_constraints c) (tbl_unique_constraints d) @
       diff_foreign_keys ho ?t (tbl_foreign_keys c) (tbl_foreign_keys d) @
       diff_indexes ho ?t (tbl_indexes c) (tbl_indexes d) @
       diff_check_constraints ho ?t (tbl_check_constraints c) (tbl_check_constraints d)"
    using assms(1) by (simp add: diff_table_def Let_def)
  then have "filter (edits ?n) mid = filter (edits ?n) mine"
    by (simp add: names pre(2) post(2) edits_simps)
  also have "\<dots> = mine"
    unfolding mine_def by (simp add: edits_simps)
  finally show ?thesis
    using that [of chs] names(2) in_table_no_rename_enum [OF pre(3)] by (auto simp: mine_def chs_def)
qed

lemma run_column_edits:
  "\<exists>s. run_changes (edit_step t (col_name e))
        (sort_key change_order
          (diff_column_type chs t x e @ diff_column_nullable t x e @ diff_column_default t x e)) x = Some s \<and>
     col_nullable s = col_nullable e \<and>
     (col_sql_type s = col_sql_type e \<or> is_serial_equiv x e \<or> is_enum_rename chs x e) \<and>
     (map_option default_to_sql (col_default s) = map_option default_to_sql (col_default e) \<or>
      col_is_auto e \<and> col_default e = None)"
  by (cases "col_default x"; cases "col_default e")
    (auto simp: diff_column_type_def diff_column_nullable_def diff_column_default_def)


end
