(* ===== verification/Mig_Diff_Safety.thy ===== *)
theory Mig_Diff_Safety
  imports Mig_Columns
begin

text \<open>
  Which changes the diff engine emits: none for an unchanged schema, only justified drops, new enum
  values and keyed constraints exactly where the two schemas differ; and the cases where it does
  not do what it means to. The witnesses of the theorems on the diff end the theory.
\<close>

section \<open>An unchanged schema\<close>

definition distinct_schema :: "database_schema \<Rightarrow> bool" where
  "distinct_schema s \<longleftrightarrow>
     distinct (map tbl_name (db_tables s)) \<and>
     (\<forall>t\<in>set (db_tables s). distinct (map col_name (tbl_columns t)))"

lemma keyed_adds_self [simp]: "perm_order ord \<Longrightarrow> keyed_adds ord m m mk = []"
  by (auto simp: keyed_adds_def filter_empty_conv hm_iter_mem)

lemma diff_primary_key_self [simp]: "diff_primary_key t pk pk = []"
  by (cases pk) simp_all

lemma fk_matched_self: "perm_order ord \<Longrightarrow> set (fk_matched fks (hm_iter ord (fk_name_map fks))) = fk_name ` set fks"
proof -
  assume ord: "perm_order ord"
  have "filter (\<lambda>(n, d). hm_of (fk_name_map fks) n \<noteq> None) (hm_iter ord (fk_name_map fks)) = hm_iter ord (fk_name_map fks)"
    using hm_iter_mem [OF ord, of _ _ "fk_name_map fks"] by (auto simp: filter_id_conv)
  then show ?thesis
    using hm_iter_fst_set [OF ord, of "fk_name_map fks"]
    by (simp add: fk_matched_def) (simp add: fk_name_map_def image_image)
qed

lemma diff_foreign_keys_self [simp]:
  assumes "hash_ord_ok ho"
  shows "diff_foreign_keys ho t fks fks = []"
proof -
  let ?des = "hm_iter (ho_fk_names ho t) (fk_name_map fks)"
  have p: "perm_order (ho_fk_names ho t)" "perm_order (ho_fk_desired_keys ho t)" "perm_order (ho_fk_current_keys ho t)"
    using assms by (simp_all add: hash_ord_ok_def)
  have "fk_modified t fks ?des = []"
    using hm_iter_mem [OF p(1), of _ _ "fk_name_map fks"]
    by (auto simp: fk_modified_def fk_changed_parts_def)
  moreover have "filter (\<lambda>fk. fk_name fk \<notin> set (fk_matched fks ?des)) fks = []"
    unfolding fk_matched_self [OF p(1)] by (simp add: filter_empty_conv)
  moreover have "hm_iter (ho_fk_desired_keys ho t) [] = ([] :: ((string \<times> string list) \<times> foreign_key_def) list)"
    "hm_iter (ho_fk_current_keys ho t) [] = ([] :: ((string \<times> string list) \<times> foreign_key_def) list)"
    using p(2,3) by (simp_all add: hm_iter_def perm_order_def) (metis mset_zero_iff)+
  ultimately show ?thesis
    by (simp add: diff_foreign_keys_def Let_def fk_key_map_def fk_drop_loop_def)
qed

lemma column_renames_none:
  "\<forall>d\<in>set ds. in_current (col_name d) \<Longrightarrow> column_renames in_current in_desired cur renamed pos ds = []"
  by (induction ds arbitrary: renamed pos) auto

lemma foldl_stay: "(\<And>x. x \<in> set xs \<Longrightarrow> f s x = s) \<Longrightarrow> foldl f s xs = s"
  by (induction xs) auto

lemma diff_columns_self:
  assumes "distinct (map col_name cs)"
  shows "diff_columns t cs cs changes = changes"
proof -
  have "column_modified t (col_map cs) ch d = ch" if "d \<in> set cs" for ch d
    using hm_of_self [OF assms that, of "\<lambda>x. x"]
    by (simp add: column_modified_def col_map_def diff_column_def diff_column_type_def
        diff_column_nullable_def diff_column_default_def split: option.split)
  then have m: "foldl (column_modified t (col_map cs)) changes cs = changes"
    by (rule foldl_stay)
  have "column_renames (\<lambda>n. n \<in> col_name ` set cs) (\<lambda>n. n \<in> col_name ` set cs) cs [] 0 cs = []"
    by (rule column_renames_none) simp
  moreover have "filter (\<lambda>d. col_name d \<notin> col_name ` set cs) cs = []"
    by (simp add: filter_empty_conv)
  ultimately show ?thesis
    unfolding diff_columns_def Let_def in_col_map_iff using m by simp
qed

lemma table_renames_none:
  "\<forall>d\<in>set ds. in_current (tbl_name d) \<Longrightarrow> table_renames in_current in_desired cur renamed ds = []"
  by (induction ds arbitrary: renamed) auto

lemma enum_renames_none:
  "\<forall>(n, d)\<in>set ds. in_current n \<Longrightarrow> enum_renames cur in_current in_desired matched ds = []"
  by (induction ds arbitrary: matched) auto

lemma diff_enums_self:
  assumes "hash_ord_ok ho"
  shows "diff_enums ho es es = []"
proof -
  let ?des = "hm_iter (ho_enums_desired ho) (enum_map es)"
  have des: "(n, d) \<in> set ?des \<longleftrightarrow> hm_of (enum_map es) n = Some d" for n d
    by (rule mem_enum_iter [OF assms])
  have in_es: "n \<in> en_name ` set es" if "(n, d) \<in> set ?des" for n d
    using that des enum_map_iff [of es n] by auto
  have "enum_renames cur (\<lambda>n. n \<in> en_name ` set es) in_desired [] ?des = []" for cur in_desired
    by (rule enum_renames_none) (use in_es in auto)
  moreover have "filter (\<lambda>(n, d). n \<notin> en_name ` set es) ?des = []"
    using in_es by (auto simp: filter_empty_conv)
  moreover have "concat (map (\<lambda>(n, d). case hm_of (enum_map es) n of
      Some c \<Rightarrow> new_enum_values c d n | None \<Rightarrow> []) ?des) = []"
    using des by (auto simp: new_enum_values_def)
  ultimately show ?thesis
    unfolding diff_enums_def Let_def enum_map_iff by simp
qed

text \<open>C37. Comparing a schema with itself yields no change.\<close>

theorem unchanged_schema_has_no_diff:
  assumes "hash_ord_ok ho" and "distinct_schema s"
  shows "compute_diff ho s s = []"
proof -
  have d: "distinct (map tbl_name (db_tables s))" using assms(2) by (simp add: distinct_schema_def)
  have r: "renamed_tables s s = []"
    unfolding renamed_tables_def by (rule table_renames_none) simp
  then have "created_tables s s = []" "dropped_tables s s = []"
    by (simp_all add: created_tables_def dropped_tables_def filter_empty_conv)
  moreover have "diff_modified ho (db_tables s) [] t = []" if "t \<in> set (db_tables s)" for t
  proof -
    have "current_of (db_tables s) [] t = Some t"
      using table_map_get [OF d, of "tbl_name t" t] that by (simp add: current_of_def)
    moreover have "perm_order (ho_uniques_desired ho n)" "perm_order (ho_uniques_current ho n)"
        "perm_order (ho_indexes_desired ho n)" "perm_order (ho_indexes_current ho n)"
        "perm_order (ho_checks_desired ho n)" "perm_order (ho_checks_current ho n)" for n
      using assms(1) by (simp_all add: hash_ord_ok_def)
    ultimately show ?thesis
      using that assms by (simp add: diff_modified_def diff_table_def Let_def diff_columns_self
          distinct_schema_def diff_unique_constraints_def diff_indexes_def diff_check_constraints_def)
  qed
  ultimately show ?thesis
    unfolding compute_diff_start [OF d] r
    by (simp add: diff_enums_self [OF assms(1)] foldl_stay)
qed

section \<open>Drops\<close>

lemma diff_table_drop_column:
  assumes "diff_table ho c d changes = changes @ mid" and "DropColumn t n p \<in> set mid"
  shows "t = tbl_name d \<and> n = col_name p \<and> p \<in> set (tbl_columns c) \<and> n \<notin> column_names d"
proof -
  have "DropColumn t n p \<in> set (filter column_change mid)"
    using assms(2) by (simp add: column_change_def)
  then show ?thesis
    unfolding diff_table_column_changes [OF assms(1)] by (auto simp: dropped_columns_def)
qed

lemma foldl_diff_modified_mem:
  "x \<in> set (foldl (diff_modified ho cur) changes ds) \<Longrightarrow>
     x \<in> set changes \<or>
     (\<exists>d\<in>set ds. \<exists>c\<in>set cur. \<exists>chs mid. diff_table ho c d chs = chs @ mid \<and> x \<in> set mid)"
proof (induction ds arbitrary: changes)
  case (Cons d ds)
  consider "x \<in> set (diff_modified ho cur changes d)"
    | "\<exists>d\<in>set ds. \<exists>c\<in>set cur. \<exists>chs mid. diff_table ho c d chs = chs @ mid \<and> x \<in> set mid"
    using Cons.IH [of "diff_modified ho cur changes d"] Cons.prems by auto
  then show ?case
  proof cases
    case 1
    show ?thesis
    proof (cases "current_of cur changes d")
      case None
      then show ?thesis using 1 by (simp add: diff_modified_def)
    next
      case (Some c)
      then have "c \<in> set cur"
        by (auto simp: current_of_def table_map_def bind_eq_Some_conv split: option.splits dest: hm_of_SomeD)
      moreover obtain mid where "diff_table ho c d changes = changes @ mid"
        using diff_table_extends by blast
      ultimately show ?thesis using 1 Some by (auto simp: diff_modified_def)
    qed
  qed auto
qed simp


section \<open>Values of an enum\<close>

text \<open>The catalog of one enum: its values in order; adding a value twice is a conflict.\<close>

fun value_step :: "string \<Rightarrow> schema_change \<Rightarrow> string list \<Rightarrow> string list option" where
  "value_step enum (AddEnumValue n v) vs =
     (if n \<noteq> enum then Some vs else if v \<in> set vs then None else Some (vs @ [v]))"
| "value_step enum c vs = Some vs"

fun adds_value :: "string \<Rightarrow> schema_change \<Rightarrow> bool" where
  "adds_value enum (AddEnumValue n v) \<longleftrightarrow> n = enum"
| "adds_value enum c \<longleftrightarrow> False"

lemma value_step_other: "\<not> adds_value n c \<Longrightarrow> value_step n c vs = Some vs"
  by (cases c) auto

lemma run_value_adds:
  "distinct ws \<Longrightarrow> set ws \<inter> set vs = {} \<Longrightarrow>
     run_changes (value_step n) (map (AddEnumValue n) ws) vs = Some (vs @ ws)"
  by (induction ws arbitrary: vs) auto

lemma filter_concat_at:
  assumes "distinct (map fst xs)" and "(n, d) \<in> set xs"
    and "\<And>m e. m \<noteq> n \<Longrightarrow> filter P (f m e) = []" and "filter P (f n d) = f n d"
  shows "filter P (concat (map (\<lambda>(m, e). f m e) xs)) = f n d"
proof -
  obtain as bs where xs: "xs = as @ (n, d) # bs"
    using assms(2) by (meson split_list)
  have "filter P (concat (map (\<lambda>(m, e). f m e) ys)) = []" if "n \<notin> fst ` set ys" for ys
    using that by (induction ys) (auto simp: assms(3))
  moreover have "n \<notin> fst ` set as" "n \<notin> fst ` set bs"
    using assms(1) unfolding xs by auto
  ultimately show ?thesis using assms(4) by (simp add: xs)
qed

lemma sort_key_const: "(\<And>x. x \<in> set xs \<Longrightarrow> f x = (a::nat)) \<Longrightarrow> sort_key f xs = xs"
  using sort_key_two_blocks [of xs f a "[]" "Suc a"] by simp

text \<open>An enum that is in both schemas keeps its values and gets the missing ones of the desired
  enum, each once, in the desired order.\<close>

theorem plan_reaches_desired_enum_values:
  assumes "hash_ord_ok ho" and "distinct (map tbl_name (db_tables desired))"
    and "distinct (map en_name (db_enums current))" and "distinct (map en_name (db_enums desired))"
    and "c \<in> set (db_enums current)" and "d \<in> set (db_enums desired)" and "en_name c = en_name d"
    and "distinct (en_variants d)"
  shows "run_changes (value_step (en_name d)) (sort_key change_order (compute_diff ho current desired)) (en_variants c) =
    Some (en_variants c @ filter (\<lambda>v. v \<notin> set (en_variants c)) (en_variants d))"
proof -
  let ?n = "en_name d" and ?D = "compute_diff ho current desired"
  let ?des = "hm_iter (ho_enums_desired ho) (enum_map (db_enums desired))"
  let ?f = "\<lambda>n d. case hm_of (enum_map (db_enums current)) n of Some c \<Rightarrow> new_enum_values c d n | None \<Rightarrow> []"
  let ?ws = "filter (\<lambda>v. v \<notin> set (en_variants c)) (en_variants d)"
  have get: "hm_of (enum_map es) (en_name e) = Some e" if "distinct (map en_name es)" "e \<in> set es" for es e
    using hm_of_self [OF that, of "\<lambda>e. e"] by (simp add: enum_map_def)
  have fnd: "?f ?n d = map (AddEnumValue ?n) ?ws"
    using get [OF assms(3,5)] by (simp add: assms(7) new_enum_values_def)
  obtain tail where t: "?D = diff_enums ho (db_enums current) (db_enums desired) @
       map (\<lambda>(f, t). RenameTable f t) (renamed_tables current desired) @
       map CreateTable (created_tables current desired) @
       map (\<lambda>c. DropTable (tbl_name c) c) (dropped_tables current desired) @ tail"
    and tail: "\<forall>x\<in>set tail. \<exists>d\<in>set (db_tables desired). change_table x = Some (tbl_name d)"
    by (rule compute_diff_shape [OF assms(2)])
  have "\<not> adds_value ?n x" if "change_table x = Some t" for x t
    using that by (cases x) simp_all
  then have "filter (adds_value ?n) tail = []"
    using tail by (auto simp: filter_empty_conv)
  moreover have "filter (adds_value ?n) (concat (map (\<lambda>(n, d). ?f n d) ?des)) = ?f ?n d"
  proof (rule filter_concat_at)
    show "distinct (map fst ?des)"
      using assms(1) by (simp add: hm_iter_distinct hash_ord_enums)
    show "(?n, d) \<in> set ?des"
      using get [OF assms(4,6)] by (simp add: mem_enum_iter [OF assms(1)])
    show "filter (adds_value ?n) (?f m e) = []" if "m \<noteq> ?n" for m e
      using that by (auto simp: new_enum_values_def filter_empty_conv split: option.split)
    show "filter (adds_value ?n) (?f ?n d) = ?f ?n d"
      unfolding fnd by (auto simp: filter_id_conv)
  qed
  moreover have "filter (adds_value ?n) (map (\<lambda>(f, t). RenameTable f t) rs) = []"
    "filter (adds_value ?n) (map CreateTable xs) = []"
    "filter (adds_value ?n) (map (\<lambda>c. DropTable (tbl_name c) c) ys) = []"
    "filter (adds_value ?n) (map (\<lambda>(f, t). RenameEnum f t) rs) = []"
    "filter (adds_value ?n) (map CreateEnum es) = []" for rs xs ys es
    by (auto simp: filter_empty_conv)
  ultimately have D: "filter (adds_value ?n) ?D = map (AddEnumValue ?n) ?ws"
    unfolding t diff_enums_shape [OF assms(1)] by (simp add: fnd)
  have "run_changes (value_step ?n) (sort_key change_order ?D) (en_variants c) =
      run_changes (value_step ?n) (filter (adds_value ?n) (sort_key change_order ?D)) (en_variants c)"
    by (rule run_changes_filter [symmetric]) (rule value_step_other)
  also have "filter (adds_value ?n) (sort_key change_order ?D) = map (AddEnumValue ?n) ?ws"
    unfolding filter_sort D by (rule sort_key_const [where a = 12]) auto
  also have "run_changes (value_step ?n) \<dots> (en_variants c) = Some (en_variants c @ ?ws)"
    using assms(8) by (intro run_value_adds) auto
  finally show ?thesis .
qed

section \<open>Keyed constraints\<close>

text \<open>The contract of the diffs that match by a key: what is added is what only the desired side has,
  what is dropped is what only the current side has.\<close>

locale keyed_diff =
  fixes diff :: "'v list \<Rightarrow> 'v list \<Rightarrow> schema_change list"
    and key :: "'v \<Rightarrow> 'k"
    and add :: "'v \<Rightarrow> schema_change" and drp :: "'v \<Rightarrow> schema_change"
    and ord_desired :: "'k list \<Rightarrow> 'k list" and ord_current :: "'k list \<Rightarrow> 'k list"
  assumes diff_keyed: "diff current desired =
      keyed_adds ord_desired (map (\<lambda>v. (key v, v)) desired) (map (\<lambda>v. (key v, v)) current) add @
      keyed_adds ord_current (map (\<lambda>v. (key v, v)) current) (map (\<lambda>v. (key v, v)) desired) drp"
begin

lemma set_adds:
  assumes "perm_order ord" and "distinct (map key this)"
  shows "set (keyed_adds ord (map (\<lambda>v. (key v, v)) this) (map (\<lambda>v. (key v, v)) other) mk) =
    mk ` {v \<in> set this. key v \<notin> key ` set other}"
proof -
  have get: "hm_of (map (\<lambda>v. (key v, v)) this) k = Some v \<longleftrightarrow> v \<in> set this \<and> key v = k" for k v
    using hm_of_self [OF assms(2), of v "\<lambda>v. v"] by (auto dest: hm_of_SomeD)
  have none: "hm_of (map (\<lambda>v. (key v, v)) other) k = None \<longleftrightarrow> k \<notin> key ` set other" for k
    by (force simp: hm_of_None_iff image_image)
  have "set (filter (\<lambda>(k, v). hm_of (map (\<lambda>v. (key v, v)) other) k = None) (hm_iter ord (map (\<lambda>v. (key v, v)) this))) =
      {(key v, v) |v. v \<in> set this \<and> key v \<notin> key ` set other}"
    by (auto simp: hm_iter_mem [OF assms(1)] get none)
  then show ?thesis
    by (force simp: keyed_adds_def)
qed

theorem set_diff:
  "perm_order ord_desired \<Longrightarrow> perm_order ord_current \<Longrightarrow> distinct (map key current) \<Longrightarrow>
     distinct (map key desired) \<Longrightarrow>
     set (diff current desired) =
       add ` {v \<in> set desired. key v \<notin> key ` set current} \<union>
       drp ` {v \<in> set current. key v \<notin> key ` set desired}"
  by (simp add: diff_keyed set_adds)

end

interpretation uniques: keyed_diff "diff_unique_constraints ho t" "\<lambda>u. sort (uq_columns u)"
  "\<lambda>u. AddUnique t (uq_name u) (uq_columns u)" "\<lambda>u. DropUnique t (uq_name u)"
  "ho_uniques_desired ho t" "ho_uniques_current ho t" for ho t
  by unfold_locales (simp add: diff_unique_constraints_def unique_map_def)

interpretation indexes: keyed_diff "diff_indexes ho t" "\<lambda>i. sort (idx_columns i)"
  "CreateIndex t" "\<lambda>i. DropIndex t (idx_name i)" "ho_indexes_desired ho t" "ho_indexes_current ho t" for ho t
  by unfold_locales (simp add: diff_indexes_def index_map_def)

interpretation checks: keyed_diff "diff_check_constraints ho t" ck_name
  "\<lambda>c. AddCheck t (ck_name c) (ck_expression c)" "\<lambda>c. DropCheck t (ck_name c)"
  "ho_checks_desired ho t" "ho_checks_current ho t" for ho t
  by unfold_locales (simp add: diff_check_constraints_def check_map_def)

text \<open>Unique constraints and indexes are matched by their set of columns and checks by their name:
  exactly those without a partner in the current schema are added, exactly those without one in
  the desired schema dropped.\<close>

theorem constraint_diffs_exact:
  assumes "hash_ord_ok ho"
    and "distinct (map (\<lambda>u. sort (uq_columns u)) us)" and "distinct (map (\<lambda>u. sort (uq_columns u)) us')"
    and "distinct (map (\<lambda>i. sort (idx_columns i)) is)" and "distinct (map (\<lambda>i. sort (idx_columns i)) is')"
    and "distinct (map ck_name cs)" and "distinct (map ck_name cs')"
  shows "set (diff_unique_constraints ho t us us') =
      (\<lambda>u. AddUnique t (uq_name u) (uq_columns u)) `
        {u \<in> set us'. sort (uq_columns u) \<notin> (\<lambda>u. sort (uq_columns u)) ` set us} \<union>
      (\<lambda>u. DropUnique t (uq_name u)) `
        {u \<in> set us. sort (uq_columns u) \<notin> (\<lambda>u. sort (uq_columns u)) ` set us'} \<and>
    set (diff_indexes ho t is is') =
      CreateIndex t ` {i \<in> set is'. sort (idx_columns i) \<notin> (\<lambda>i. sort (idx_columns i)) ` set is} \<union>
      (\<lambda>i. DropIndex t (idx_name i)) `
        {i \<in> set is. sort (idx_columns i) \<notin> (\<lambda>i. sort (idx_columns i)) ` set is'} \<and>
    set (diff_check_constraints ho t cs cs') =
      (\<lambda>c. AddCheck t (ck_name c) (ck_expression c)) ` {c \<in> set cs'. ck_name c \<notin> ck_name ` set cs} \<union>
      (\<lambda>c. DropCheck t (ck_name c)) ` {c \<in> set cs. ck_name c \<notin> ck_name ` set cs'}"
  using assms(1) uniques.set_diff [OF _ _ assms(2,3)] indexes.set_diff [OF _ _ assms(4,5)]
    checks.set_diff [OF _ _ assms(6,7)]
  by (simp add: hash_ord_ok_def)

section \<open>Missed and spurious changes\<close>

text \<open>A check whose expression changes while its name stays is never updated.\<close>

theorem changed_check_is_missed:
  assumes "hash_ord_ok ho" and "ck_name old = ck_name new"
  shows "diff_check_constraints ho t [old] [new] = []"
proof -
  have "set (diff_check_constraints ho t [old] [new]) = {}"
    using assms by (subst checks.set_diff) (auto simp: hash_ord_ok_def)
  then show ?thesis by simp
qed

lemma perm_single: "perm_order ord \<Longrightarrow> ord [x] = [x]"
  unfolding perm_order_def by (metis mset_single_iff mset.simps mset_zero_iff)

text \<open>A foreign key whose name and target change while its columns stay is reported twice: as the
  modification and, although the source takes it as "already handled", also as a drop.\<close>

theorem retargeted_foreign_key_also_dropped:
  assumes "hash_ord_ok ho" and "fk_name old \<noteq> fk_name new" and "fk_ref_table old \<noteq> fk_ref_table new"
    and "fk_columns old = fk_columns new"
  shows "diff_foreign_keys ho t [old] [new] =
    [ModifyForeignKey t (fk_name new) new old (change_kind_of (target_changed_parts old new)),
     DropForeignKey t (fk_name old) old]"
proof -
  have p: "perm_order (ho_fk_names ho t)" "perm_order (ho_fk_desired_keys ho t)" "perm_order (ho_fk_current_keys ho t)"
    using assms(1) by (simp_all add: hash_ord_ok_def)
  have one: "hm_iter ord [(k, v)] = [(k, v)]" if "perm_order ord" for ord k v
    using perm_single [OF that] by (simp add: hm_iter_def hm_of_def)
  have m: "fk_matched [old] [(fk_name new, new)] = []" "fk_modified t [old] [(fk_name new, new)] = []"
    using assms(2) by (simp_all add: fk_matched_def fk_modified_def fk_name_map_def hm_of_def)
  show ?thesis
    using assms(2-4) by (simp add: diff_foreign_keys_def Let_def fk_name_map_def one [OF p(1)] m fk_key_map_def
        one [OF p(2)] one [OF p(3)] hm_of_def same_cols_def fk_drop_loop_def)
qed

section \<open>Witnesses\<close>

definition users_before :: table_def where
  "users_before = sample_table ''users'' [sample_column ''id'' Integer] []"

definition users_after :: table_def where
  "users_after = sample_table ''users'' [sample_column ''id'' BigInt, sample_column ''email'' Text] []"

definition schema_before :: database_schema where
  "schema_before = \<lparr>db_tables = [users_before, sample_table ''logs'' [] []], db_enums = [sample_enum ''role'' [''admin'']]\<rparr>"

definition schema_after :: database_schema where
  "schema_after = \<lparr>db_tables = [users_after], db_enums = [sample_enum ''role'' [''admin'', ''guest'']]\<rparr>"

lemmas sample_defs = schema_before_def schema_after_def users_before_def users_after_def
  sample_table_def sample_column_def sample_enum_def sample_fk_def

lemma sample_source: "source_table schema_before schema_after users_before users_after"
  by (simp add: source_table_def sample_defs)

lemma desired_tables_witness:
  "run_changes table_step (sort_key change_order (compute_diff insertion_order schema_before schema_after)) {''users'', ''logs''} =
    Some ({''users''} \<union> {n \<in> {''users'', ''logs''} - {''users''}. skip_drop n \<and>
      n \<notin> fst ` set (renamed_tables schema_before schema_after)})"
  using plan_reaches_desired_tables [of schema_before schema_after insertion_order]
  by (simp add: sample_defs)

lemma desired_enums_witness:
  "run_changes enum_step (sort_key change_order (compute_diff insertion_order schema_before schema_after)) {''role''} =
    Some ({''role''} \<union> ({''role''} - fst ` set (renamed_enums insertion_order schema_before schema_after)))"
  using plan_reaches_desired_enums [of insertion_order schema_after schema_before]
  by (simp add: sample_defs)

lemma desired_columns_witness:
  "run_changes (column_step ''users'') (sort_key change_order (compute_diff insertion_order schema_before schema_after)) {''id''}
    = Some {''id'', ''email''}"
  using plan_reaches_desired_columns [OF _ _ sample_source, of insertion_order]
  by (simp add: sample_defs)


lemma desired_values_witness:
  "run_changes (value_step ''role'') (sort_key change_order (compute_diff insertion_order schema_before schema_after)) [''admin'']
    = Some [''admin'', ''guest'']"
  using plan_reaches_desired_enum_values [of insertion_order schema_after schema_before
      "sample_enum ''role'' [''admin'']" "sample_enum ''role'' [''admin'', ''guest'']"]
  by (simp add: sample_defs)

lemma unchanged_schema_witness: "compute_diff insertion_order schema_before schema_before = []"
  by (rule unchanged_schema_has_no_diff) (simp_all add: distinct_schema_def sample_defs)

lemma logs_dropped: "DropTable ''logs'' (sample_table ''logs'' [] []) \<in> set (compute_diff insertion_order schema_before schema_after)"
proof -
  have "list_ex (\<lambda>x. x = DropTable ''logs'' (sample_table ''logs'' [] [])) (compute_diff insertion_order schema_before schema_after)"
    by code_simp
  then show ?thesis by (auto simp: list_ex_iff)
qed


lemma constraint_diffs_witness:
  "set (diff_check_constraints insertion_order ''t'' [\<lparr>ck_name = ''a'', ck_expression = ''x > 0''\<rparr>] []) = {DropCheck ''t'' ''a''}"
  using constraint_diffs_exact [of insertion_order "[]" "[]" "[]" "[]" "[\<lparr>ck_name = ''a'', ck_expression = ''x > 0''\<rparr>]" "[]" "''t''"]
  by simp

lemma changed_check_witness:
  "diff_check_constraints insertion_order ''t'' [\<lparr>ck_name = ''a'', ck_expression = ''x > 0''\<rparr>]
    [\<lparr>ck_name = ''a'', ck_expression = ''x > 1''\<rparr>] = []"
  by (rule changed_check_is_missed) simp_all

lemma retargeted_key_witness:
  "diff_foreign_keys insertion_order ''t'' [sample_fk ''a'' ''c'' ''users''] [sample_fk ''b'' ''c'' ''people''] =
    [ModifyForeignKey ''t'' ''b'' (sample_fk ''b'' ''c'' ''people'') (sample_fk ''a'' ''c'' ''users'')
       (change_kind_of (target_changed_parts (sample_fk ''a'' ''c'' ''users'') (sample_fk ''b'' ''c'' ''people''))),
     DropForeignKey ''t'' ''a'' (sample_fk ''a'' ''c'' ''users'')]"
  using retargeted_foreign_key_also_dropped [of insertion_order "sample_fk ''a'' ''c'' ''users''" "sample_fk ''b'' ''c'' ''people''" "''t''"]
  by (simp add: sample_fk_def)

end
