(* ===== verification/Mir_Types.thy ===== *)
theory Mir_Types
  imports Doo_Prelude "HOL-Library.Word"
begin

text \<open>
  The mid-level representation of \<open>doo_mir/src/types.rs\<close>: programs, functions, blocks and the 57
  kinds of instruction, the operands an instruction reports as read, the name it reports as
  written, and the validation of functions and programs.

  An interned symbol stands for its string (\<open>sym\<close> and \<open>resolve\<close> are inverse), so symbols are
  strings here. A 64-bit float is its bit pattern. Source spans carry no meaning below and keep
  their two numbers.
\<close>

type_synonym sym = string
type_synonym f64 = "64 word"
type_synonym i64 = "64 word"

datatype type_id = TypeId "32 word"

record span =
  span_start :: "32 word"
  span_end :: "32 word"

section \<open>Operands\<close>

datatype mir_const = CInt i64 | CFloat f64 | CBool bool | CStr string | CNil

datatype mir_operand = Const mir_const | Local sym | Temp sym | Global sym | FuncRef sym

datatype binary_op =
  Add | Sub | Mul | Div | Mod | Eq | Ne | Lt | Le | Gt | Ge | AndOp | OrOp | Concat | NullCoalesce

datatype unary_op = Neg | NotOp

section \<open>Instructions\<close>

text \<open>The one enumeration of the source is cut along its section comments, for the sake of the time
  the datatype package needs: each group is a datatype, injected into \<open>mir_instr_kind\<close>.\<close>

datatype collection_instr =
    ArrayCreate sym "mir_operand list" type_id
  | ArrayGet sym mir_operand mir_operand type_id
  | ArraySet mir_operand mir_operand mir_operand type_id
  | ArrayLen sym mir_operand
  | ArrayContains sym mir_operand mir_operand type_id
  | ArrayPush mir_operand mir_operand
  | ArrayExtend mir_operand mir_operand type_id
  | ArraySlice sym mir_operand mir_operand mir_operand type_id
  | MapCreate sym "(mir_operand \<times> mir_operand) list" type_id type_id
  | MapGet sym mir_operand mir_operand type_id type_id
  | MapSet mir_operand mir_operand mir_operand type_id type_id
  | MapHas sym mir_operand mir_operand type_id type_id

datatype struct_instr =
    StructCreate sym sym "(sym \<times> mir_operand) list"
  | FieldGet sym mir_operand sym
  | FieldSet mir_operand sym mir_operand
  | TupleCreate sym "mir_operand list"
  | TupleGet sym mir_operand nat "type_id option"

datatype enum_instr =
    EnumCreate sym sym sym "mir_operand option"
  | EnumTag sym mir_operand
  | EnumGetTag sym mir_operand sym
  | EnumTagEquals sym mir_operand sym sym
  | EnumPayload sym mir_operand sym
  | EnumGetPayload sym mir_operand sym sym "32 word"

datatype call_instr =
    Call "sym option" sym "mir_operand list"
  | MethodCall "sym option" mir_operand type_id sym "mir_operand list" "type_id list" "type_id option"
  | FfiCall "sym option" sym sym "mir_operand list"
  | ClosureCreate sym sym "mir_operand list"
  | ClosureCall "sym option" mir_operand "mir_operand list"

datatype result_instr =
    WrapOk sym mir_operand
  | WrapErr sym mir_operand
  | IsOk sym mir_operand
  | UnwrapOk sym mir_operand "type_id option"
  | UnwrapErr sym mir_operand
  | ManualErrorExtract "sym list" sym mir_operand type_id type_id bool

datatype async_instr =
    Sleep mir_operand
  | Await sym mir_operand
  | Spawn sym sym "mir_operand list"
  | ScopeCreate sym
  | ScopeSpawn mir_operand sym "mir_operand list"
  | ScopeWait sym mir_operand

datatype mir_instr_kind =
    Move sym mir_operand
  | Copy sym mir_operand
  | Clone sym mir_operand
  | Drop sym
  | Borrow sym sym bool
  | Assign sym mir_operand
  | BinaryOp sym binary_op mir_operand mir_operand
  | UnaryOp sym unary_op mir_operand
  | Collection collection_instr
  | Struct struct_instr
  | Enum enum_instr
  | Calls call_instr
  | ResultOp result_instr
  | Cast sym mir_operand type_id
  | Print "mir_operand list" "type_id list" bool
  | TypeOf sym mir_operand type_id
  | InterfaceConstruct sym mir_operand type_id type_id
  | Panic mir_operand
  | Async async_instr

record mir_instr =
  kind :: mir_instr_kind
  instr_span :: span

section \<open>Operands and destinations of an instruction\<close>

text \<open>\<open>MirInstr::operands\<close>. The catch-all arm of the source covers \<open>Drop\<close>, \<open>Borrow\<close>,
  \<open>EnumCreate\<close> without payload, \<open>EnumGetTag\<close>, \<open>EnumTagEquals\<close>, \<open>EnumGetPayload\<close>,
  \<open>ManualErrorExtract\<close> and \<open>ScopeCreate\<close>.\<close>

fun collection_operands :: "collection_instr \<Rightarrow> mir_operand list" where
  "collection_operands (ArrayCreate d elements t) = elements"
| "collection_operands (ArrayGet d array index t) = [array, index]"
| "collection_operands (ArraySet array index v t) = [array, index, v]"
| "collection_operands (ArrayLen d array) = [array]"
| "collection_operands (ArrayContains d array v t) = [array, v]"
| "collection_operands (ArrayPush array v) = [array, v]"
| "collection_operands (ArrayExtend array other t) = [array, other]"
| "collection_operands (ArraySlice d array start stop t) = [array, start, stop]"
| "collection_operands (MapCreate d entries kt vt) = concat (map (\<lambda>(k, v). [k, v]) entries)"
| "collection_operands (MapGet d m k kt vt) = [m, k]"
| "collection_operands (MapSet m k v kt vt) = [m, k, v]"
| "collection_operands (MapHas d m k kt vt) = [m, k]"

fun struct_operands :: "struct_instr \<Rightarrow> mir_operand list" where
  "struct_operands (StructCreate d n fs) = map snd fs"
| "struct_operands (FieldGet d object f) = [object]"
| "struct_operands (FieldSet object f v) = [object, v]"
| "struct_operands (TupleCreate d elements) = elements"
| "struct_operands (TupleGet d tuple i t) = [tuple]"

fun enum_operands :: "enum_instr \<Rightarrow> mir_operand list" where
  "enum_operands (EnumCreate d n v (Some p)) = [p]"
| "enum_operands (EnumTag d v) = [v]"
| "enum_operands (EnumPayload d v variant) = [v]"
| "enum_operands _ = []"

fun call_operands :: "call_instr \<Rightarrow> mir_operand list" where
  "call_operands (Call d f args) = args"
| "call_operands (MethodCall d receiver rt m args ats ret) = receiver # args"
| "call_operands (FfiCall d l s args) = args"
| "call_operands (ClosureCreate d f captures) = captures"
| "call_operands (ClosureCall d closure args) = closure # args"

fun result_operands :: "result_instr \<Rightarrow> mir_operand list" where
  "result_operands (WrapOk d v) = [v]"
| "result_operands (WrapErr d v) = [v]"
| "result_operands (IsOk d v) = [v]"
| "result_operands (UnwrapOk d v t) = [v]"
| "result_operands (UnwrapErr d v) = [v]"
| "result_operands (ManualErrorExtract oks err r ot et ffi) = []"

fun async_operands :: "async_instr \<Rightarrow> mir_operand list" where
  "async_operands (Sleep ms) = [ms]"
| "async_operands (Await d handle) = [handle]"
| "async_operands (Spawn d f captures) = captures"
| "async_operands (ScopeCreate d) = []"
| "async_operands (ScopeSpawn scope f captures) = scope # captures"
| "async_operands (ScopeWait d scope) = [scope]"

fun kind_operands :: "mir_instr_kind \<Rightarrow> mir_operand list" where
  "kind_operands (Move d src) = [src]"
| "kind_operands (Copy d src) = [src]"
| "kind_operands (Clone d src) = [src]"
| "kind_operands (Drop v) = []"
| "kind_operands (Borrow d src m) = []"
| "kind_operands (Assign d v) = [v]"
| "kind_operands (BinaryOp d op lhs rhs) = [lhs, rhs]"
| "kind_operands (UnaryOp d op v) = [v]"
| "kind_operands (Collection c) = collection_operands c"
| "kind_operands (Struct c) = struct_operands c"
| "kind_operands (Enum c) = enum_operands c"
| "kind_operands (Calls c) = call_operands c"
| "kind_operands (ResultOp c) = result_operands c"
| "kind_operands (Cast d v t) = [v]"
| "kind_operands (Print vs ts sep) = vs"
| "kind_operands (TypeOf d v t) = [v]"
| "kind_operands (InterfaceConstruct d v ct it) = [v]"
| "kind_operands (Panic message) = [message]"
| "kind_operands (Async c) = async_operands c"

definition operands :: "mir_instr \<Rightarrow> mir_operand list" where
  "operands i = kind_operands (kind i)"

text \<open>\<open>MirInstr::destination\<close>. \<open>EnumGetTag\<close>, \<open>EnumTagEquals\<close>, \<open>EnumGetPayload\<close> and
  \<open>ManualErrorExtract\<close> fall into its catch-all arm.\<close>

fun collection_dest :: "collection_instr \<Rightarrow> sym option" where
  "collection_dest (ArrayCreate d elements t) = Some d"
| "collection_dest (ArrayGet d array index t) = Some d"
| "collection_dest (ArrayLen d array) = Some d"
| "collection_dest (ArrayContains d array v t) = Some d"
| "collection_dest (ArraySlice d array start stop t) = Some d"
| "collection_dest (MapCreate d entries kt vt) = Some d"
| "collection_dest (MapGet d m k kt vt) = Some d"
| "collection_dest (MapHas d m k kt vt) = Some d"
| "collection_dest _ = None"

fun struct_dest :: "struct_instr \<Rightarrow> sym option" where
  "struct_dest (StructCreate d n fs) = Some d"
| "struct_dest (FieldGet d object f) = Some d"
| "struct_dest (FieldSet object f v) = None"
| "struct_dest (TupleCreate d elements) = Some d"
| "struct_dest (TupleGet d tuple i t) = Some d"

fun enum_dest :: "enum_instr \<Rightarrow> sym option" where
  "enum_dest (EnumCreate d n v p) = Some d"
| "enum_dest (EnumTag d v) = Some d"
| "enum_dest (EnumPayload d v variant) = Some d"
| "enum_dest _ = None"

fun call_dest :: "call_instr \<Rightarrow> sym option" where
  "call_dest (Call d f args) = d"
| "call_dest (MethodCall d receiver rt m args ats ret) = d"
| "call_dest (FfiCall d l s args) = d"
| "call_dest (ClosureCreate d f captures) = Some d"
| "call_dest (ClosureCall d closure args) = d"

fun result_dest :: "result_instr \<Rightarrow> sym option" where
  "result_dest (WrapOk d v) = Some d"
| "result_dest (WrapErr d v) = Some d"
| "result_dest (IsOk d v) = Some d"
| "result_dest (UnwrapOk d v t) = Some d"
| "result_dest (UnwrapErr d v) = Some d"
| "result_dest (ManualErrorExtract oks err r ot et ffi) = None"

fun async_dest :: "async_instr \<Rightarrow> sym option" where
  "async_dest (Await d handle) = Some d"
| "async_dest (Spawn d f captures) = Some d"
| "async_dest (ScopeCreate d) = Some d"
| "async_dest (ScopeWait d scope) = Some d"
| "async_dest _ = None"

fun kind_dest :: "mir_instr_kind \<Rightarrow> sym option" where
  "kind_dest (Move d src) = Some d"
| "kind_dest (Copy d src) = Some d"
| "kind_dest (Clone d src) = Some d"
| "kind_dest (Drop v) = None"
| "kind_dest (Borrow d src m) = Some d"
| "kind_dest (Assign d v) = Some d"
| "kind_dest (BinaryOp d op lhs rhs) = Some d"
| "kind_dest (UnaryOp d op v) = Some d"
| "kind_dest (Collection c) = collection_dest c"
| "kind_dest (Struct c) = struct_dest c"
| "kind_dest (Enum c) = enum_dest c"
| "kind_dest (Calls c) = call_dest c"
| "kind_dest (ResultOp c) = result_dest c"
| "kind_dest (Cast d v t) = Some d"
| "kind_dest (Print vs ts sep) = None"
| "kind_dest (TypeOf d v t) = Some d"
| "kind_dest (InterfaceConstruct d v ct it) = Some d"
| "kind_dest (Panic message) = None"
| "kind_dest (Async c) = async_dest c"

definition destination :: "mir_instr \<Rightarrow> sym option" where
  "destination i = kind_dest (kind i)"

section \<open>Blocks, functions and programs\<close>

datatype mir_terminator =
    Return "mir_operand list"
  | Goto sym
  | Branch mir_operand sym sym
  | Switch mir_operand "(i64 \<times> sym) list" sym
  | Unreachable

record mir_block =
  blk_label :: sym
  blk_instructions :: "mir_instr list"
  blk_terminator :: mir_terminator

definition new_block :: "sym \<Rightarrow> mir_block" where
  "new_block label = \<lparr>blk_label = label, blk_instructions = [], blk_terminator = Unreachable\<rparr>"

record param_def =
  param_name :: sym
  param_type :: type_id

record local_def =
  local_name :: sym
  local_type :: type_id
  local_mutable :: bool

record ffi_linkage =
  ffi_library :: sym
  ffi_symbol :: "sym option"
  ffi_param_types :: "type_id list"
  ffi_return_type :: "type_id option"
  ffi_is_result :: bool

datatype escape_state = NoEscape | Escapes | UnknownEscape

type_synonym escape_result = "sym \<rightharpoonup> escape_state"

record mir_function =
  fn_name :: sym
  fn_params :: "param_def list"
  fn_return_type :: "type_id option"
  fn_error_type :: "type_id option"
  fn_blocks :: "mir_block list"
  fn_locals :: "local_def list"
  fn_ffi :: "ffi_linkage option"
  fn_span :: span
  fn_is_closure :: bool
  fn_captures_by_value :: bool
  fn_is_async :: bool
  fn_captures :: "sym list"
  fn_escape_info :: "escape_result option"

definition new_function :: "sym \<Rightarrow> mir_function" where
  "new_function name =
     \<lparr>fn_name = name, fn_params = [], fn_return_type = None, fn_error_type = None, fn_blocks = [],
      fn_locals = [], fn_ffi = None, fn_span = \<lparr>span_start = 0, span_end = 0\<rparr>, fn_is_closure = False,
      fn_captures_by_value = False, fn_is_async = False, fn_captures = [], fn_escape_info = None\<rparr>"

datatype global_kind = ConstGlobal | StaticGlobal

record mir_global =
  glob_name :: sym
  glob_type :: type_id
  glob_kind :: global_kind
  glob_value :: "mir_const option"

record decorator =
  dec_name :: sym
  dec_args :: "string list"

record field_def =
  fld_name :: sym
  fld_type :: type_id
  fld_optional :: bool
  fld_decorators :: "decorator list"
  fld_default :: "mir_const option"

record struct_def =
  st_name :: sym
  st_fields :: "field_def list"
  st_decorators :: "decorator list"

record variant_def =
  var_name :: sym
  var_index :: "32 word"
  var_payload :: "type_id option"
  var_decorators :: "decorator list"

record enum_def =
  enm_name :: sym
  enm_variants :: "variant_def list"

record interface_method =
  im_name :: sym
  im_param_types :: "type_id list"
  im_return_type :: "type_id option"
  im_error_type :: "type_id option"

record interface_def =
  if_name :: sym
  if_methods :: "interface_method list"

record mir_program =
  prog_functions :: "mir_function list"
  prog_globals :: "mir_global list"
  prog_structs :: "sym \<rightharpoonup> struct_def"
  prog_enums :: "sym \<rightharpoonup> enum_def"
  prog_interfaces :: "sym \<rightharpoonup> interface_def"
  prog_policies :: "sym \<rightharpoonup> string"
  prog_entry_point :: "sym option"

definition new_program :: mir_program where
  "new_program =
     \<lparr>prog_functions = [], prog_globals = [], prog_structs = Map.empty, prog_enums = Map.empty,
      prog_interfaces = Map.empty, prog_policies = Map.empty, prog_entry_point = None\<rparr>"

fun is_async_kind :: "mir_instr_kind \<Rightarrow> bool" where
  "is_async_kind (Async c) = True"
| "is_async_kind _ = False"

definition has_async_features :: "mir_program \<Rightarrow> bool" where
  "has_async_features p =
     list_ex (\<lambda>f. fn_is_async f \<or>
       list_ex (\<lambda>b. list_ex (\<lambda>i. is_async_kind (kind i)) (blk_instructions b)) (fn_blocks f))
       (prog_functions p)"

section \<open>Validation\<close>

datatype mir_error =
    UndefinedValue sym sym
  | TypeMismatch type_id type_id
  | InvalidTerminator sym

text \<open>The text of an error; the type ids of a mismatch are shown by \<open>TypeId\<close>'s \<open>Display\<close>.\<close>

definition mir_error_text :: "(type_id \<Rightarrow> string) \<Rightarrow> mir_error \<Rightarrow> string" where
  "mir_error_text show_type e =
     (case e of
        UndefinedValue n b \<Rightarrow> ''undefined value '' @ [CHR 0x27] @ n @ [CHR 0x27] @ '' in block '' @
          [CHR 0x27] @ b @ [CHR 0x27]
      | TypeMismatch x y \<Rightarrow> ''type mismatch: expected '' @ show_type x @ '', found '' @ show_type y
      | InvalidTerminator b \<Rightarrow> ''invalid terminator in block '' @ [CHR 0x27] @ b @ [CHR 0x27])"

definition known_value :: "sym list \<Rightarrow> sym \<Rightarrow> bool" where
  "known_value defined n \<longleftrightarrow> n \<in> set defined \<or> starts_with n ''@''"

fun validate_operands :: "sym \<Rightarrow> sym list \<Rightarrow> mir_operand list \<Rightarrow> mir_error option" where
  "validate_operands block defined [] = None"
| "validate_operands block defined (op # ops) =
     (case op of
        Local n \<Rightarrow> if known_value defined n then validate_operands block defined ops
                   else Some (UndefinedValue n block)
      | Temp n \<Rightarrow> if known_value defined n then validate_operands block defined ops
                  else Some (UndefinedValue n block)
      | _ \<Rightarrow> validate_operands block defined ops)"

text \<open>The sources of \<open>Borrow\<close> and \<open>Drop\<close>, which are symbols and not operands.\<close>

fun validate_source :: "sym \<Rightarrow> sym list \<Rightarrow> mir_instr_kind \<Rightarrow> mir_error option" where
  "validate_source block defined (Borrow d src m) =
     (if known_value defined src then None else Some (UndefinedValue src block))"
| "validate_source block defined (Drop v) =
     (if known_value defined v then None else Some (UndefinedValue v block))"
| "validate_source block defined _ = None"

definition define_dest :: "mir_instr \<Rightarrow> sym list \<Rightarrow> sym list" where
  "define_dest i defined = (case destination i of Some d \<Rightarrow> d # defined | None \<Rightarrow> defined)"

text \<open>The instructions of a block: an error, or the names defined after it.\<close>

fun validate_instrs :: "sym \<Rightarrow> sym list \<Rightarrow> mir_instr list \<Rightarrow> mir_error + sym list" where
  "validate_instrs block defined [] = Inr defined"
| "validate_instrs block defined (i # is) =
     (case validate_operands block defined (operands i) of
        Some e \<Rightarrow> Inl e
      | None \<Rightarrow>
          (case validate_source block defined (kind i) of
             Some e \<Rightarrow> Inl e
           | None \<Rightarrow> validate_instrs block (define_dest i defined) is))"

fun validate_blocks :: "sym list \<Rightarrow> mir_block list \<Rightarrow> mir_error + sym list" where
  "validate_blocks defined [] = Inr defined"
| "validate_blocks defined (b # bs) =
     (case validate_instrs (blk_label b) defined (blk_instructions b) of
        Inl e \<Rightarrow> Inl e
      | Inr defined' \<Rightarrow> validate_blocks defined' bs)"

definition predefined :: "mir_function \<Rightarrow> sym list" where
  "predefined f = map local_name (fn_locals f) @ map param_name (fn_params f)"

definition validate_function :: "mir_function \<Rightarrow> mir_error + unit" where
  "validate_function f =
     (case validate_blocks (predefined f) (fn_blocks f) of Inl e \<Rightarrow> Inl e | Inr _ \<Rightarrow> Inr ())"

fun validate_functions :: "mir_function list \<Rightarrow> mir_error + unit" where
  "validate_functions [] = Inr ()"
| "validate_functions (f # fs) =
     (case validate_function f of Inl e \<Rightarrow> Inl e | Inr _ \<Rightarrow> validate_functions fs)"

definition validate_program :: "mir_program \<Rightarrow> mir_error + unit" where
  "validate_program p = validate_functions (prog_functions p)"

end
