(* ===== verification/Mir_Optimize.thy ===== *)
theory Mir_Optimize
  imports Mir_Types "HOL-Library.Signed_Division"
begin

text \<open>
  The optimisation passes of \<open>doo_mir/src/optimize.rs\<close> and the pipeline that runs them to a fixed
  point. A pass maps a program to the flag it returns and the program it leaves; \<open>None\<close> is a
  panic of the compiler itself. Hash sets are lists, hash maps are maps. The arithmetic of 64-bit
  floats and whether the compiler was built with overflow checks are parameters
  (\<open>build_config\<close>).
\<close>

record build_config =
  overflow_checks :: bool
  f_add :: "f64 \<Rightarrow> f64 \<Rightarrow> f64"
  f_sub :: "f64 \<Rightarrow> f64 \<Rightarrow> f64"
  f_mul :: "f64 \<Rightarrow> f64 \<Rightarrow> f64"
  f_div :: "f64 \<Rightarrow> f64 \<Rightarrow> f64"
  f_neg :: "f64 \<Rightarrow> f64"
  f_eq :: "f64 \<Rightarrow> f64 \<Rightarrow> bool"
  f_lt :: "f64 \<Rightarrow> f64 \<Rightarrow> bool"
  f_le :: "f64 \<Rightarrow> f64 \<Rightarrow> bool"

type_synonym mir_pass = "mir_program \<Rightarrow> (bool \<times> mir_program) option"

section \<open>Passes over lists\<close>

text \<open>The loops \<open>for x in &mut xs\<close> of the passes: each element is replaced in place, the flags
  are joined, a panic ends it all.\<close>

fun pass_list :: "('a \<Rightarrow> (bool \<times> 'a) option) \<Rightarrow> 'a list \<Rightarrow> (bool \<times> 'a list) option" where
  "pass_list f [] = Some (False, [])"
| "pass_list f (x # xs) =
     (case f x of
        None \<Rightarrow> None
      | Some (c, y) \<Rightarrow>
          (case pass_list f xs of None \<Rightarrow> None | Some (c', ys) \<Rightarrow> Some (c \<or> c', y # ys)))"

definition pass_functions :: "(mir_function \<Rightarrow> (bool \<times> mir_function) option) \<Rightarrow> mir_pass" where
  "pass_functions f p =
     map_option (\<lambda>(c, fs). (c, p\<lparr>prog_functions := fs\<rparr>)) (pass_list f (prog_functions p))"

definition pass_blocks ::
    "(mir_instr list \<Rightarrow> (bool \<times> mir_instr list) option) \<Rightarrow> mir_function \<Rightarrow> (bool \<times> mir_function) option" where
  "pass_blocks g f =
     map_option (\<lambda>(c, bs). (c, f\<lparr>fn_blocks := bs\<rparr>))
       (pass_list (\<lambda>b. map_option (\<lambda>(c, is). (c, b\<lparr>blk_instructions := is\<rparr>)) (g (blk_instructions b)))
         (fn_blocks f))"

section \<open>Constant folding\<close>

datatype folding = Panics | NotFolded | Folded mir_const

text \<open>Division and remainder of 64-bit integers panic when the quotient does not fit, also in
  builds without overflow checks.\<close>

definition min_i64 :: i64 where
  "min_i64 = 0x8000000000000000"

definition fold_div :: "i64 \<Rightarrow> i64 \<Rightarrow> folding" where
  "fold_div l r =
     (if r = 0 then NotFolded else if l = min_i64 \<and> r = - 1 then Panics
      else Folded (CInt (word_of_int (sint l sdiv sint r))))"

definition fold_mod :: "i64 \<Rightarrow> i64 \<Rightarrow> folding" where
  "fold_mod l r =
     (if r = 0 then NotFolded else if l = min_i64 \<and> r = - 1 then Panics
      else Folded (CInt (word_of_int (sint l smod sint r))))"

fun fold_int :: "binary_op \<Rightarrow> i64 \<Rightarrow> i64 \<Rightarrow> folding" where
  "fold_int Add l r = Folded (CInt (l + r))"
| "fold_int Sub l r = Folded (CInt (l - r))"
| "fold_int Mul l r = Folded (CInt (l * r))"
| "fold_int Div l r = fold_div l r"
| "fold_int Mod l r = fold_mod l r"
| "fold_int Eq l r = Folded (CBool (l = r))"
| "fold_int Ne l r = Folded (CBool (l \<noteq> r))"
| "fold_int Lt l r = Folded (CBool (l <s r))"
| "fold_int Le l r = Folded (CBool (l \<le>s r))"
| "fold_int Gt l r = Folded (CBool (r <s l))"
| "fold_int Ge l r = Folded (CBool (r \<le>s l))"
| "fold_int _ l r = NotFolded"

fun fold_float :: "build_config \<Rightarrow> binary_op \<Rightarrow> f64 \<Rightarrow> f64 \<Rightarrow> folding" where
  "fold_float cfg Add l r = Folded (CFloat (f_add cfg l r))"
| "fold_float cfg Sub l r = Folded (CFloat (f_sub cfg l r))"
| "fold_float cfg Mul l r = Folded (CFloat (f_mul cfg l r))"
| "fold_float cfg Div l r = (if \<not> f_eq cfg r 0 then Folded (CFloat (f_div cfg l r)) else NotFolded)"
| "fold_float cfg Eq l r = Folded (CBool (f_eq cfg l r))"
| "fold_float cfg Ne l r = Folded (CBool (\<not> f_eq cfg l r))"
| "fold_float cfg Lt l r = Folded (CBool (f_lt cfg l r))"
| "fold_float cfg Le l r = Folded (CBool (f_le cfg l r))"
| "fold_float cfg Gt l r = Folded (CBool (f_lt cfg r l))"
| "fold_float cfg Ge l r = Folded (CBool (f_le cfg r l))"
| "fold_float cfg _ l r = NotFolded"

fun fold_bool :: "binary_op \<Rightarrow> bool \<Rightarrow> bool \<Rightarrow> folding" where
  "fold_bool AndOp l r = Folded (CBool (l \<and> r))"
| "fold_bool OrOp l r = Folded (CBool (l \<or> r))"
| "fold_bool Eq l r = Folded (CBool (l = r))"
| "fold_bool Ne l r = Folded (CBool (l \<noteq> r))"
| "fold_bool _ l r = NotFolded"

definition fold_binop :: "build_config \<Rightarrow> binary_op \<Rightarrow> mir_const \<Rightarrow> mir_const \<Rightarrow> folding" where
  "fold_binop cfg op lhs rhs =
     (case (lhs, rhs) of
        (CInt l, CInt r) \<Rightarrow> fold_int op l r
      | (CFloat l, CFloat r) \<Rightarrow> fold_float cfg op l r
      | (CBool l, CBool r) \<Rightarrow> fold_bool op l r
      | (CNil, c) \<Rightarrow> if op = NullCoalesce then Folded c else NotFolded
      | _ \<Rightarrow> NotFolded)"

definition fold_unaryop :: "build_config \<Rightarrow> unary_op \<Rightarrow> mir_const \<Rightarrow> folding" where
  "fold_unaryop cfg op c =
     (case (op, c) of
        (Neg, CInt v) \<Rightarrow> if overflow_checks cfg \<and> v = min_i64 then Panics else Folded (CInt (- v))
      | (Neg, CFloat v) \<Rightarrow> Folded (CFloat (f_neg cfg v))
      | (NotOp, CBool v) \<Rightarrow> Folded (CBool (\<not> v))
      | _ \<Rightarrow> NotFolded)"

definition fold_result :: "sym \<Rightarrow> mir_instr \<Rightarrow> folding \<Rightarrow> (bool \<times> mir_instr) option" where
  "fold_result dest i r =
     (case r of
        Panics \<Rightarrow> None
      | NotFolded \<Rightarrow> Some (False, i)
      | Folded c \<Rightarrow> Some (True, i\<lparr>kind := Assign dest (Const c)\<rparr>))"

definition fold_instr :: "build_config \<Rightarrow> mir_instr \<Rightarrow> (bool \<times> mir_instr) option" where
  "fold_instr cfg i =
     (case kind i of
        BinaryOp dest op (Const lc) (Const rc) \<Rightarrow> fold_result dest i (fold_binop cfg op lc rc)
      | UnaryOp dest op (Const c) \<Rightarrow> fold_result dest i (fold_unaryop cfg op c)
      | _ \<Rightarrow> Some (False, i))"

definition constant_folding :: "build_config \<Rightarrow> mir_pass" where
  "constant_folding cfg = pass_functions (pass_blocks (pass_list (fold_instr cfg)))"

section \<open>Dead code elimination\<close>

fun operand_names :: "mir_operand \<Rightarrow> sym list" where
  "operand_names (Local n) = [n]"
| "operand_names (Temp n) = [n]"
| "operand_names (Global n) = [n]"
| "operand_names (FuncRef n) = [n]"
| "operand_names (Const c) = []"

fun terminator_operands :: "mir_terminator \<Rightarrow> mir_operand list" where
  "terminator_operands (Return vs) = vs"
| "terminator_operands (Branch c t e) = [c]"
| "terminator_operands (Switch v cases d) = [v]"
| "terminator_operands _ = []"

definition used_names :: "mir_function \<Rightarrow> sym list" where
  "used_names f =
     concat (map (\<lambda>b. concat (map operand_names (terminator_operands (blk_terminator b))) @
                      concat (map (\<lambda>i. concat (map operand_names (operands i))) (blk_instructions b)))
       (fn_blocks f))"

fun has_side_effects :: "mir_instr_kind \<Rightarrow> bool" where
  "has_side_effects (Calls (Call d f args)) = True"
| "has_side_effects (Calls (MethodCall d r rt m args ats ret)) = True"
| "has_side_effects (Calls (FfiCall d l s args)) = True"
| "has_side_effects (Calls (ClosureCall d c args)) = True"
| "has_side_effects (Drop v) = True"
| "has_side_effects (Collection (ArraySet a i v t)) = True"
| "has_side_effects (Collection (ArrayPush a v)) = True"
| "has_side_effects (Collection (ArrayExtend a b t)) = True"
| "has_side_effects (Collection (MapSet m k v kt vt)) = True"
| "has_side_effects (Struct (FieldSet obj f v)) = True"
| "has_side_effects (Print vs ts sep) = True"
| "has_side_effects (Async (Spawn d f cs)) = True"
| "has_side_effects (Async (Await d h)) = True"
| "has_side_effects (Async (ScopeCreate d)) = True"
| "has_side_effects (Async (ScopeSpawn s f cs)) = True"
| "has_side_effects (Async (ScopeWait d s)) = True"
| "has_side_effects (ResultOp (WrapOk d v)) = True"
| "has_side_effects (ResultOp (WrapErr d v)) = True"
| "has_side_effects _ = False"

definition keep_instr :: "sym list \<Rightarrow> mir_instr \<Rightarrow> bool" where
  "keep_instr used i \<longleftrightarrow>
     has_side_effects (kind i) \<or>
     (case destination i of Some d \<Rightarrow> d \<in> set used | None \<Rightarrow> True)"

definition retain :: "('a \<Rightarrow> bool) \<Rightarrow> 'a list \<Rightarrow> bool \<times> 'a list" where
  "retain P xs = (length (filter P xs) \<noteq> length xs, filter P xs)"

definition eliminate_dead :: "mir_function \<Rightarrow> (bool \<times> mir_function) option" where
  "eliminate_dead f = pass_blocks (\<lambda>is. Some (retain (keep_instr (used_names f)) is)) f"

definition dead_code_elimination :: mir_pass where
  "dead_code_elimination = pass_functions eliminate_dead"

section \<open>Drop optimisation\<close>

fun dedup_drops :: "sym option \<Rightarrow> mir_instr list \<Rightarrow> mir_instr list" where
  "dedup_drops prev [] = []"
| "dedup_drops prev (i # is) =
     (case kind i of
        Drop v \<Rightarrow> if prev = Some v then dedup_drops prev is else i # dedup_drops (Some v) is
      | _ \<Rightarrow> i # dedup_drops None is)"

definition drop_block :: "mir_instr list \<Rightarrow> (bool \<times> mir_instr list) option" where
  "drop_block is = Some (length (dedup_drops None is) \<noteq> length is, dedup_drops None is)"

definition drop_optimization :: mir_pass where
  "drop_optimization = pass_functions (pass_blocks drop_block)"

section \<open>Constant propagation\<close>

definition maybe_replace :: "sym \<Rightarrow> mir_const \<Rightarrow> mir_operand \<Rightarrow> mir_operand" where
  "maybe_replace name c op =
     (case op of
        Local n \<Rightarrow> if n = name then Const c else op
      | Temp n \<Rightarrow> if n = name then Const c else op
      | _ \<Rightarrow> op)"

fun replace_operand_in_kind :: "sym \<Rightarrow> mir_const \<Rightarrow> mir_instr_kind \<Rightarrow> mir_instr_kind" where
  "replace_operand_in_kind n c (BinaryOp d op lhs rhs) =
     BinaryOp d op (maybe_replace n c lhs) (maybe_replace n c rhs)"
| "replace_operand_in_kind n c (UnaryOp d op v) = UnaryOp d op (maybe_replace n c v)"
| "replace_operand_in_kind n c (Assign d v) = Assign d (maybe_replace n c v)"
| "replace_operand_in_kind n c (Move d src) = Move d (maybe_replace n c src)"
| "replace_operand_in_kind n c (Copy d src) = Copy d (maybe_replace n c src)"
| "replace_operand_in_kind n c k = k"

definition replace_operands :: "(sym \<times> mir_const) list \<Rightarrow> mir_instr \<Rightarrow> mir_instr" where
  "replace_operands rs i = foldl (\<lambda>i (n, c). i\<lparr>kind := replace_operand_in_kind n c (kind i)\<rparr>) i rs"

definition known_operand :: "(sym \<rightharpoonup> mir_const) \<Rightarrow> mir_operand \<Rightarrow> (sym \<times> mir_const) option" where
  "known_operand known op =
     (case op of
        Local n \<Rightarrow> map_option (Pair n) (known n)
      | Temp n \<Rightarrow> map_option (Pair n) (known n)
      | _ \<Rightarrow> None)"

definition replacements :: "(sym \<rightharpoonup> mir_const) \<Rightarrow> mir_instr \<Rightarrow> (sym \<times> mir_const) list" where
  "replacements known i = List.map_filter (known_operand known) (operands i)"

text \<open>The tail of the loop body: a constant assignment is remembered, any other definition of a
  name makes it unknown.\<close>

definition track_constant :: "(sym \<rightharpoonup> mir_const) \<Rightarrow> mir_instr \<Rightarrow> (sym \<rightharpoonup> mir_const)" where
  "track_constant known i =
     (case kind i of
        Assign d (Const c) \<Rightarrow> known(d \<mapsto> c)
      | _ \<Rightarrow> (case destination i of Some d \<Rightarrow> known(d := None) | None \<Rightarrow> known))"

fun propagate_block :: "(sym \<rightharpoonup> mir_const) \<Rightarrow> mir_instr list \<Rightarrow> bool \<times> mir_instr list" where
  "propagate_block known [] = (False, [])"
| "propagate_block known (i # is) =
     (let rs = replacements known i; i' = replace_operands rs i;
          (c, is') = propagate_block (track_constant known i') is
      in (rs \<noteq> [] \<or> c, i' # is'))"

definition constant_propagation :: mir_pass where
  "constant_propagation = pass_functions (pass_blocks (\<lambda>is. Some (propagate_block Map.empty is)))"

section \<open>Copy propagation\<close>

text \<open>The pass follows the copies of a block but does not use what it finds.\<close>

definition copy_root :: "(sym \<rightharpoonup> sym) \<Rightarrow> sym \<Rightarrow> sym" where
  "copy_root copies src = (case copies src of Some r \<Rightarrow> r | None \<Rightarrow> src)"

definition copied_name :: "mir_instr_kind \<Rightarrow> (sym \<times> sym) option" where
  "copied_name k =
     (case k of
        Assign d (Local s) \<Rightarrow> Some (d, s) | Assign d (Temp s) \<Rightarrow> Some (d, s)
      | Move d (Local s) \<Rightarrow> Some (d, s) | Move d (Temp s) \<Rightarrow> Some (d, s)
      | Copy d (Local s) \<Rightarrow> Some (d, s) | Copy d (Temp s) \<Rightarrow> Some (d, s)
      | _ \<Rightarrow> None)"

definition track_copy :: "(sym \<rightharpoonup> sym) \<Rightarrow> mir_instr \<Rightarrow> (sym \<rightharpoonup> sym)" where
  "track_copy copies i =
     (case copied_name (kind i) of
        Some (d, s) \<Rightarrow> copies(d \<mapsto> copy_root copies s)
      | None \<Rightarrow> (case destination i of Some d \<Rightarrow> copies(d := None) | None \<Rightarrow> copies))"

definition copy_block :: "mir_instr list \<Rightarrow> (bool \<times> mir_instr list) option" where
  "copy_block is = (let copies = foldl track_copy Map.empty is in Some (False, is))"

definition copy_propagation :: mir_pass where
  "copy_propagation = pass_functions (pass_blocks copy_block)"

section \<open>Escape analysis\<close>

text \<open>The escaped names are a list without repetitions; \<open>mark_operand_escaped\<close> returns whether the
  name is new together with the list.\<close>

definition mark_operand_escaped :: "bool \<times> sym list \<Rightarrow> mir_operand \<Rightarrow> bool \<times> sym list" where
  "mark_operand_escaped s op =
     (case op of
        Local n \<Rightarrow> if n \<in> set (snd s) then s else (True, n # snd s)
      | Temp n \<Rightarrow> if n \<in> set (snd s) then s else (True, n # snd s)
      | Global n \<Rightarrow> if n \<in> set (snd s) then s else (True, n # snd s)
      | _ \<Rightarrow> s)"

fun direct_escapes :: "mir_instr_kind \<Rightarrow> mir_operand list" where
  "direct_escapes (Calls (FfiCall d l s args)) = args"
| "direct_escapes (Calls (ClosureCreate d f captures)) = captures"
| "direct_escapes (Async (Spawn d f captures)) = captures"
| "direct_escapes k = []"

definition return_operands :: "mir_terminator \<Rightarrow> mir_operand list" where
  "return_operands t = (case t of Return vs \<Rightarrow> vs | _ \<Rightarrow> [])"

definition escape_roots :: "mir_block list \<Rightarrow> mir_operand list" where
  "escape_roots bs =
     concat (map (\<lambda>b. return_operands (blk_terminator b) @
                      concat (map (\<lambda>i. direct_escapes (kind i)) (blk_instructions b))) bs)"

text \<open>The arms of the second pass: what escapes with a destination.\<close>

fun escape_flow :: "mir_instr_kind \<Rightarrow> (sym \<times> mir_operand list) option" where
  "escape_flow (Struct (StructCreate d n fs)) = Some (d, map snd fs)"
| "escape_flow (Collection (ArrayCreate d elements t)) = Some (d, elements)"
| "escape_flow (Collection (MapCreate d entries kt vt)) = Some (d, concat (map (\<lambda>(k, v). [k, v]) entries))"
| "escape_flow (Assign d v) = Some (d, [v])"
| "escape_flow (Move d src) = Some (d, [src])"
| "escape_flow (Copy d src) = Some (d, [src])"
| "escape_flow (Clone d src) = Some (d, [src])"
| "escape_flow k = None"

definition propagate_escape :: "bool \<times> sym list \<Rightarrow> mir_instr \<Rightarrow> bool \<times> sym list" where
  "propagate_escape s i =
     (case escape_flow (kind i) of
        Some (d, ops) \<Rightarrow> if d \<in> set (snd s) then foldl mark_operand_escaped s ops else s
      | None \<Rightarrow> s)"

definition escape_sweep :: "mir_instr list \<Rightarrow> bool \<times> sym list \<Rightarrow> bool \<times> sym list" where
  "escape_sweep is s = foldl propagate_escape s is"

text \<open>The names a sweep can add.\<close>

definition flow_names :: "mir_instr list \<Rightarrow> sym set" where
  "flow_names is =
     (\<Union>i\<in>set is. case escape_flow (kind i) of
        Some (d, ops) \<Rightarrow> \<Union>op\<in>set ops. set (operand_names op) | None \<Rightarrow> {})"

definition unescaped :: "mir_instr list \<Rightarrow> sym list \<Rightarrow> nat" where
  "unescaped is esc = card (flow_names is - set esc)"

lemma finite_flow_names [simp]: "finite (flow_names is)"
  by (auto simp: flow_names_def split: option.splits)

text \<open>What the two folds keep: a changed state has a new name of the given operands.\<close>

definition grows :: "sym set \<Rightarrow> bool \<times> sym list \<Rightarrow> bool \<times> sym list \<Rightarrow> bool" where
  "grows U s t \<longleftrightarrow> set (snd s) \<subseteq> set (snd t) \<and> set (snd t) \<subseteq> set (snd s) \<union> U \<and>
     (fst t \<longrightarrow> fst s \<or> (\<exists>n\<in>U. n \<in> set (snd t) \<and> n \<notin> set (snd s)))"

lemma grows_refl [simp, intro]: "grows U s s"
  by (simp add: grows_def)

lemma grows_trans: "grows U s t \<Longrightarrow> grows U t u \<Longrightarrow> grows U s u"
  unfolding grows_def by blast

lemma grows_mono: "grows U s t \<Longrightarrow> U \<subseteq> V \<Longrightarrow> grows V s t"
  unfolding grows_def by blast

lemma grows_mark: "grows (set (operand_names op)) s (mark_operand_escaped s op)"
  by (cases op) (auto simp: grows_def mark_operand_escaped_def)

lemma grows_foldl:
  assumes "\<And>x s. x \<in> set xs \<Longrightarrow> grows U s (f s x)"
  shows "grows U s (foldl f s xs)"
  using assms
proof (induction xs arbitrary: s)
  case (Cons x xs)
  have "grows U s (f s x)" by (rule Cons.prems) simp
  moreover have "grows U (f s x) (foldl f (f s x) xs)" by (rule Cons.IH) (simp add: Cons.prems)
  ultimately show ?case by (auto intro: grows_trans)
qed simp

lemma grows_marks:
  assumes "(\<Union>op\<in>set ops. set (operand_names op)) \<subseteq> U"
  shows "grows U s (foldl mark_operand_escaped s ops)"
  by (rule grows_foldl, rule grows_mono [OF grows_mark]) (use assms in blast)

lemma grows_sweep: "grows (flow_names is) s (escape_sweep is s)"
  unfolding escape_sweep_def
proof (rule grows_foldl)
  fix i s
  assume i: "i \<in> set is"
  show "grows (flow_names is) s (propagate_escape s i)"
  proof (cases "escape_flow (kind i)")
    case None
    then show ?thesis by (simp add: propagate_escape_def)
  next
    case (Some p)
    obtain d ops where p: "p = (d, ops)" by fastforce
    have "(\<Union>op\<in>set ops. set (operand_names op)) \<subseteq> flow_names is"
      using i Some p by (force simp: flow_names_def)
    then show ?thesis using Some p grows_marks by (simp add: propagate_escape_def)
  qed
qed

lemma unescaped_decreases:
  assumes "escape_sweep is (False, esc) = (True, esc')"
  shows "unescaped is esc' < unescaped is esc"
proof -
  have "grows (flow_names is) (False, esc) (True, esc')"
    using grows_sweep [of "is" "(False, esc)"] assms by simp
  then have "flow_names is - set esc' \<subset> flow_names is - set esc" by (auto simp: grows_def)
  then show ?thesis unfolding unescaped_def by (intro psubset_card_mono) simp_all
qed

function escape_loop :: "mir_instr list \<Rightarrow> sym list \<Rightarrow> sym list" where
  "escape_loop is esc =
     (case escape_sweep is (False, esc) of
        (changed, esc') \<Rightarrow> if changed then escape_loop is esc' else esc')"
  by pat_completeness auto
termination
  by (relation "measure (\<lambda>(is, esc). unescaped is esc)") (auto intro: unescaped_decreases)

declare escape_loop.simps [simp del]

definition block_instrs :: "mir_block list \<Rightarrow> mir_instr list" where
  "block_instrs bs = concat (map blk_instructions bs)"

definition escaped_names :: "mir_function \<Rightarrow> sym list" where
  "escaped_names f =
     escape_loop (block_instrs (fn_blocks f))
       (snd (foldl mark_operand_escaped (False, []) (escape_roots (fn_blocks f))))"

definition state_of :: "sym list \<Rightarrow> escape_result \<Rightarrow> mir_instr \<Rightarrow> escape_result" where
  "state_of escaped states i =
     (case destination i of
        Some d \<Rightarrow> states(d \<mapsto> if d \<in> set escaped then Escapes else NoEscape)
      | None \<Rightarrow> states)"

definition analyze_function :: "mir_function \<Rightarrow> escape_result" where
  "analyze_function f =
     foldl (state_of (escaped_names f)) Map.empty (block_instrs (fn_blocks f))"

definition escape_analysis :: mir_pass where
  "escape_analysis p =
     Some (False, p\<lparr>prog_functions :=
       map (\<lambda>f. f\<lparr>fn_escape_info := Some (analyze_function f)\<rparr>) (prog_functions p)\<rparr>)"

section \<open>The pipeline\<close>

definition default_pipeline :: "build_config \<Rightarrow> mir_pass list" where
  "default_pipeline cfg =
     [constant_folding cfg, constant_propagation, copy_propagation, dead_code_elimination,
      drop_optimization, escape_analysis]"

fun run_passes :: "mir_pass list \<Rightarrow> mir_pass" where
  "run_passes [] p = Some (False, p)"
| "run_passes (pass # passes) p =
     (case pass p of
        None \<Rightarrow> None
      | Some (c, p') \<Rightarrow>
          (case run_passes passes p' of None \<Rightarrow> None | Some (c', p'') \<Rightarrow> Some (c \<or> c', p'')))"

definition max_iterations :: nat where
  "max_iterations = 100"

text \<open>The loop of \<open>OptimizationPipeline::run\<close>: the number of rounds and the program it ends with.\<close>

function pipeline_loop :: "mir_pass list \<Rightarrow> nat \<Rightarrow> mir_program \<Rightarrow> (nat \<times> mir_program) option" where
  "pipeline_loop passes iterations p =
     (case run_passes passes p of
        None \<Rightarrow> None
      | Some (changed, p') \<Rightarrow>
          if \<not> changed \<or> Suc iterations \<ge> max_iterations then Some (Suc iterations, p')
          else pipeline_loop passes (Suc iterations) p')"
  by pat_completeness auto
termination
  by (relation "measure (\<lambda>(passes, n, p). max_iterations - n)") auto

declare pipeline_loop.simps [simp del]

definition run_pipeline :: "build_config \<Rightarrow> mir_program \<Rightarrow> (nat \<times> mir_program) option" where
  "run_pipeline cfg p = pipeline_loop (default_pipeline cfg) 0 p"

end
