(* ===== verification/Mir_Semantics.thy ===== *)
theory Mir_Semantics
  imports Mir_Optimize
begin

text \<open>
  A reference semantics of the representation, the yardstick for the passes. The scalar
  instructions (assignment, move, copy, the operators) are fixed here; every other instruction is
  a parameter of the machine: a function of its kind, of the values of what it reads and of the
  world (heap, tasks, output) that returns the values it writes and the new world. \<open>None\<close> stands
  for an abort.

  What an instruction reads and writes is more than \<open>operands\<close> and \<open>destination\<close> tell:
  \<open>hidden_operands\<close> and \<open>hidden_dests\<close> are what their catch-all arms leave out.
\<close>

section \<open>Machines\<close>

datatype 'v val = Scalar mir_const | FunVal sym | Obj 'v

type_synonym 'v env = "sym \<Rightarrow> 'v val option"

record ('v, 'w) machine =
  m_exec :: "mir_instr_kind \<Rightarrow> 'v val option list \<Rightarrow> 'w \<Rightarrow> ('v val option list \<times> 'w) option"
  m_binop :: "binary_op \<Rightarrow> 'v val option \<Rightarrow> 'v val option \<Rightarrow> 'v val option"
  m_unop :: "unary_op \<Rightarrow> 'v val option \<Rightarrow> 'v val option"

fun hidden_operands :: "mir_instr_kind \<Rightarrow> mir_operand list" where
  "hidden_operands (Drop v) = [Local v]"
| "hidden_operands (Borrow d src m) = [Local src]"
| "hidden_operands (Enum (EnumGetTag d v e)) = [v]"
| "hidden_operands (Enum (EnumTagEquals d tag v e)) = [tag]"
| "hidden_operands (Enum (EnumGetPayload d v var e n)) = [v]"
| "hidden_operands (ResultOp (ManualErrorExtract oks err r ot et ffi)) = [r]"
| "hidden_operands k = []"

fun hidden_dests :: "mir_instr_kind \<Rightarrow> sym list" where
  "hidden_dests (Enum (EnumGetTag d v e)) = [d]"
| "hidden_dests (Enum (EnumTagEquals d tag v e)) = [d]"
| "hidden_dests (Enum (EnumGetPayload d v var e n)) = [d]"
| "hidden_dests (ResultOp (ManualErrorExtract oks err r ot et ffi)) = oks @ [err]"
| "hidden_dests k = []"

definition all_operands :: "mir_instr_kind \<Rightarrow> mir_operand list" where
  "all_operands k = kind_operands k @ hidden_operands k"

definition all_dests :: "mir_instr_kind \<Rightarrow> sym list" where
  "all_dests k = (case kind_dest k of Some d \<Rightarrow> [d] | None \<Rightarrow> hidden_dests k)"

fun operand_value :: "'v env \<Rightarrow> mir_operand \<Rightarrow> 'v val option" where
  "operand_value env (Const c) = Some (Scalar c)"
| "operand_value env (Local n) = env n"
| "operand_value env (Temp n) = env n"
| "operand_value env (Global n) = env n"
| "operand_value env (FuncRef n) = Some (FunVal n)"

section \<open>Operators\<close>

text \<open>The integer operators by their mathematical meaning: the exact result, wrapped to 64 bits.\<close>

definition int_arith :: "binary_op \<Rightarrow> int \<Rightarrow> int \<Rightarrow> int option" where
  "int_arith op x y =
     (case op of
        Add \<Rightarrow> Some (x + y)
      | Sub \<Rightarrow> Some (x - y)
      | Mul \<Rightarrow> Some (x * y)
      | Div \<Rightarrow> if y = 0 then None else Some (x sdiv y)
      | Mod \<Rightarrow> if y = 0 then None else Some (x smod y)
      | _ \<Rightarrow> None)"

definition int_compare :: "binary_op \<Rightarrow> int \<Rightarrow> int \<Rightarrow> bool option" where
  "int_compare op x y =
     (case op of
        Eq \<Rightarrow> Some (x = y) | Ne \<Rightarrow> Some (x \<noteq> y) | Lt \<Rightarrow> Some (x < y)
      | Le \<Rightarrow> Some (x \<le> y) | Gt \<Rightarrow> Some (x > y) | Ge \<Rightarrow> Some (x \<ge> y)
      | _ \<Rightarrow> None)"

definition const_binop :: "build_config \<Rightarrow> binary_op \<Rightarrow> mir_const \<Rightarrow> mir_const \<Rightarrow> mir_const option" where
  "const_binop cfg op a b =
     (case (a, b) of
        (CInt l, CInt r) \<Rightarrow>
          (case int_compare op (sint l) (sint r) of
             Some t \<Rightarrow> Some (CBool t)
           | None \<Rightarrow> map_option (\<lambda>z. CInt (word_of_int z)) (int_arith op (sint l) (sint r)))
      | (CFloat l, CFloat r) \<Rightarrow>
          (case op of
             Add \<Rightarrow> Some (CFloat (f_add cfg l r)) | Sub \<Rightarrow> Some (CFloat (f_sub cfg l r))
           | Mul \<Rightarrow> Some (CFloat (f_mul cfg l r))
           | Div \<Rightarrow> if f_eq cfg r 0 then None else Some (CFloat (f_div cfg l r))
           | Eq \<Rightarrow> Some (CBool (f_eq cfg l r)) | Ne \<Rightarrow> Some (CBool (\<not> f_eq cfg l r))
           | Lt \<Rightarrow> Some (CBool (f_lt cfg l r)) | Le \<Rightarrow> Some (CBool (f_le cfg l r))
           | Gt \<Rightarrow> Some (CBool (f_lt cfg r l)) | Ge \<Rightarrow> Some (CBool (f_le cfg r l))
           | _ \<Rightarrow> None)
      | (CBool l, CBool r) \<Rightarrow>
          (case op of
             AndOp \<Rightarrow> Some (CBool (l \<and> r)) | OrOp \<Rightarrow> Some (CBool (l \<or> r))
           | Eq \<Rightarrow> Some (CBool (l = r)) | Ne \<Rightarrow> Some (CBool (l \<noteq> r)) | _ \<Rightarrow> None)
      | (CNil, c) \<Rightarrow> if op = NullCoalesce then Some c else None
      | _ \<Rightarrow> None)"

definition const_unop :: "build_config \<Rightarrow> unary_op \<Rightarrow> mir_const \<Rightarrow> mir_const option" where
  "const_unop cfg op c =
     (case (op, c) of
        (Neg, CInt v) \<Rightarrow> Some (CInt (word_of_int (- sint v)))
      | (Neg, CFloat v) \<Rightarrow> Some (CFloat (f_neg cfg v))
      | (NotOp, CBool v) \<Rightarrow> Some (CBool (\<not> v))
      | _ \<Rightarrow> None)"

text \<open>Operators on anything but two such constants are the machine's.\<close>

definition binop_value ::
    "build_config \<Rightarrow> ('v, 'w) machine \<Rightarrow> binary_op \<Rightarrow> 'v val option \<Rightarrow> 'v val option \<Rightarrow> 'v val option" where
  "binop_value cfg M op a b =
     (case (a, b) of
        (Some (Scalar x), Some (Scalar y)) \<Rightarrow>
          (case const_binop cfg op x y of Some c \<Rightarrow> Some (Scalar c) | None \<Rightarrow> m_binop M op a b)
      | _ \<Rightarrow> m_binop M op a b)"

definition unop_value ::
    "build_config \<Rightarrow> ('v, 'w) machine \<Rightarrow> unary_op \<Rightarrow> 'v val option \<Rightarrow> 'v val option" where
  "unop_value cfg M op a =
     (case a of
        Some (Scalar x) \<Rightarrow>
          (case const_unop cfg op x of Some c \<Rightarrow> Some (Scalar c) | None \<Rightarrow> m_unop M op a)
      | _ \<Rightarrow> m_unop M op a)"

section \<open>Execution\<close>

text \<open>Writing a list of values; a value that is missing leaves its name undefined.\<close>

fun write_all :: "sym list \<Rightarrow> 'v val option list \<Rightarrow> 'v env \<Rightarrow> 'v env" where
  "write_all (d # ds) vs env =
     write_all ds (tl vs) (env(d := (case vs of v # _ \<Rightarrow> v | [] \<Rightarrow> None)))"
| "write_all [] vs env = env"

definition exec_kind ::
    "build_config \<Rightarrow> ('v, 'w) machine \<Rightarrow> mir_instr_kind \<Rightarrow> 'v env \<times> 'w \<Rightarrow> ('v env \<times> 'w) option" where
  "exec_kind cfg M k s =
     (case k of
        Assign d v \<Rightarrow> Some ((fst s)(d := operand_value (fst s) v), snd s)
      | Move d v \<Rightarrow> Some ((fst s)(d := operand_value (fst s) v), snd s)
      | Copy d v \<Rightarrow> Some ((fst s)(d := operand_value (fst s) v), snd s)
      | BinaryOp d op l r \<Rightarrow>
          map_option (\<lambda>v. ((fst s)(d \<mapsto> v), snd s))
            (binop_value cfg M op (operand_value (fst s) l) (operand_value (fst s) r))
      | UnaryOp d op v \<Rightarrow>
          map_option (\<lambda>v. ((fst s)(d \<mapsto> v), snd s)) (unop_value cfg M op (operand_value (fst s) v))
      | _ \<Rightarrow>
          map_option (\<lambda>(vs, w). (write_all (all_dests k) vs (fst s), w))
            (m_exec M k (map (operand_value (fst s)) (all_operands k)) (snd s)))"

fun exec_instrs ::
    "build_config \<Rightarrow> ('v, 'w) machine \<Rightarrow> mir_instr list \<Rightarrow> 'v env \<times> 'w \<Rightarrow> ('v env \<times> 'w) option" where
  "exec_instrs cfg M [] s = Some s"
| "exec_instrs cfg M (i # is) s = Option.bind (exec_kind cfg M (kind i) s) (exec_instrs cfg M is)"

datatype ('v, 'w) outcome = OutOfFuel | Aborted | Returned "'v val option list" 'w

text \<open>Where a terminator goes: the label of the next block, or the end of the run.\<close>

definition next_label :: "'v env \<times> 'w \<Rightarrow> mir_terminator \<Rightarrow> ('v, 'w) outcome + sym" where
  "next_label s t =
     (case t of
        Return vs \<Rightarrow> Inl (Returned (map (operand_value (fst s)) vs) (snd s))
      | Goto l \<Rightarrow> Inr l
      | Branch c l r \<Rightarrow>
          (case operand_value (fst s) c of
             Some (Scalar (CBool b)) \<Rightarrow> Inr (if b then l else r) | _ \<Rightarrow> Inl Aborted)
      | Switch v cases dflt \<Rightarrow>
          (case operand_value (fst s) v of
             Some (Scalar (CInt n)) \<Rightarrow> Inr (case map_of cases n of Some l \<Rightarrow> l | None \<Rightarrow> dflt)
           | _ \<Rightarrow> Inl Aborted)
      | Unreachable \<Rightarrow> Inl Aborted)"

fun run_from ::
    "build_config \<Rightarrow> ('v, 'w) machine \<Rightarrow> mir_block list \<Rightarrow> nat \<Rightarrow> sym \<Rightarrow> 'v env \<times> 'w \<Rightarrow> ('v, 'w) outcome" where
  "run_from cfg M bs 0 l s = OutOfFuel"
| "run_from cfg M bs (Suc n) l s =
     (case find (\<lambda>b. blk_label b = l) bs of
        None \<Rightarrow> Aborted
      | Some b \<Rightarrow>
          (case exec_instrs cfg M (blk_instructions b) s of
             None \<Rightarrow> Aborted
           | Some s' \<Rightarrow>
               (case next_label s' (blk_terminator b) of
                  Inl r \<Rightarrow> r | Inr l' \<Rightarrow> run_from cfg M bs n l' s')))"

end
