(* ===== verification/Mir_Passes.thy ===== *)
theory Mir_Passes
  imports Mir_Semantics
begin

text \<open>
  The passes preserve what a function returns. Each of them maps the instructions of a block; the
  locale \<open>block_pass\<close> lifts a simulation of blocks to runs of functions, and is interpreted on
  the four passes that change instructions. The locale \<open>sound_passes\<close> carries this through the
  pipeline.
\<close>

section \<open>Regular programs\<close>

text \<open>\<open>operands\<close> and \<open>destination\<close> do not tell all: the passes are right for programs in which
  no name that is read behind their back is defined by an instruction that dead code elimination
  may remove, and no name written behind their back is defined by a scalar instruction.\<close>

definition hidden_names :: "mir_instr_kind \<Rightarrow> sym set" where
  "hidden_names k = (\<Union>op\<in>set (hidden_operands k). set (operand_names op))"

text \<open>The instructions that only compute a value: operators and reads, and the creation of a new object.
  What dead code elimination may remove is compared with this list, see \<open>removable_is_pure\<close>.\<close>

fun pure_kind :: "mir_instr_kind \<Rightarrow> bool" where
  "pure_kind (Move d v) = True"
| "pure_kind (Copy d v) = True"
| "pure_kind (Clone d v) = True"
| "pure_kind (Borrow d v m) = True"
| "pure_kind (Assign d v) = True"
| "pure_kind (BinaryOp d op l r) = True"
| "pure_kind (UnaryOp d op v) = True"
| "pure_kind (Cast d v t) = True"
| "pure_kind (TypeOf d v t) = True"
| "pure_kind (InterfaceConstruct d v ct it) = True"
| "pure_kind (Collection c) =
     (case c of
        ArrayCreate _ _ _ \<Rightarrow> True | ArrayGet _ _ _ _ \<Rightarrow> True | ArrayLen _ _ \<Rightarrow> True
      | ArrayContains _ _ _ _ \<Rightarrow> True | ArraySlice _ _ _ _ _ \<Rightarrow> True
      | MapCreate _ _ _ _ \<Rightarrow> True | MapGet _ _ _ _ _ \<Rightarrow> True | MapHas _ _ _ _ _ \<Rightarrow> True
      | _ \<Rightarrow> False)"
| "pure_kind (Struct c) = (case c of FieldSet _ _ _ \<Rightarrow> False | _ \<Rightarrow> True)"
| "pure_kind (Enum c) = True"
| "pure_kind (Calls c) = (case c of ClosureCreate _ _ _ \<Rightarrow> True | _ \<Rightarrow> False)"
| "pure_kind (ResultOp c) =
     (case c of IsOk _ _ \<Rightarrow> True | UnwrapOk _ _ _ \<Rightarrow> True | UnwrapErr _ _ \<Rightarrow> True | _ \<Rightarrow> False)"
| "pure_kind (Drop v) = False"
| "pure_kind (Print vs ts sep) = False"
| "pure_kind (Panic message) = False"
| "pure_kind (Async c) = False"

lemma removable_is_pure: "\<not> has_side_effects k \<Longrightarrow> kind_dest k = Some d \<Longrightarrow> pure_kind k"
  by (cases k rule: pure_kind.cases)
    (auto split: collection_instr.splits struct_instr.splits call_instr.splits result_instr.splits async_instr.splits
      elim: has_side_effects.elims)

definition pure_dest :: "mir_instr_kind \<Rightarrow> sym set" where
  "pure_dest k = (if pure_kind k then set_option (kind_dest k) else {})"

fun scalar_dest :: "mir_instr_kind \<Rightarrow> sym set" where
  "scalar_dest (Assign d v) = {d}"
| "scalar_dest (Move d v) = {d}"
| "scalar_dest (Copy d v) = {d}"
| "scalar_dest (BinaryOp d op l r) = {d}"
| "scalar_dest (UnaryOp d op v) = {d}"
| "scalar_dest k = {}"

text \<open>All that regularity looks at.\<close>

record shape =
  sh_hidden_reads :: "sym set"
  sh_hidden_writes :: "sym set"
  sh_pure :: "sym set"
  sh_scalar :: "sym set"

definition shape :: "mir_instr \<Rightarrow> shape" where
  "shape i = \<lparr>sh_hidden_reads = hidden_names (kind i), sh_hidden_writes = set (hidden_dests (kind i)),
     sh_pure = pure_dest (kind i), sh_scalar = scalar_dest (kind i)\<rparr>"

definition regular_shapes :: "shape set \<Rightarrow> bool" where
  "regular_shapes S \<longleftrightarrow>
     (\<forall>x\<in>S. \<forall>y\<in>S. sh_hidden_reads x \<inter> sh_pure y = {} \<and> sh_hidden_writes x \<inter> sh_scalar y = {})"

definition function_shapes :: "mir_function \<Rightarrow> shape set" where
  "function_shapes f = shape ` set (block_instrs (fn_blocks f))"

definition regular :: "mir_function \<Rightarrow> bool" where
  "regular f \<longleftrightarrow> regular_shapes (function_shapes f)"

definition regular_program :: "mir_program \<Rightarrow> bool" where
  "regular_program p \<longleftrightarrow> (\<forall>f\<in>set (prog_functions p). regular f)"

lemma regular_mono: "regular f \<Longrightarrow> function_shapes g \<subseteq> function_shapes f \<Longrightarrow> regular g"
  unfolding regular_def regular_shapes_def by blast

lemma regularD:
  assumes "regular f" and "i \<in> set (block_instrs (fn_blocks f))" and "j \<in> set (block_instrs (fn_blocks f))"
  shows "hidden_names (kind i) \<inter> pure_dest (kind j) = {}"
    and "set (hidden_dests (kind i)) \<inter> scalar_dest (kind j) = {}"
  using assms unfolding regular_def regular_shapes_def function_shapes_def
  by (force simp: shape_def)+

text \<open>What the passes rely on in a machine: the instructions that only compute a value leave the world
  alone, and dropping a value twice in a row either aborts or does no more
  than dropping it once.\<close>

definition machine_ok :: "('v, 'w) machine \<Rightarrow> bool" where
  "machine_ok M \<longleftrightarrow>
     (\<forall>k vs w us w'. pure_kind k \<and> m_exec M k vs w = Some (us, w') \<longrightarrow> w' = w) \<and>
     (\<forall>v vs w us w' us' w''. m_exec M (Drop v) vs w = Some (us, w') \<and>
        m_exec M (Drop v) vs w' = Some (us', w'') \<longrightarrow> w'' = w')"

section \<open>Lists of passes\<close>

lemma pass_list_map:
  assumes "pass_list f xs = Some (c, ys)" and "\<And>x c y. x \<in> set xs \<Longrightarrow> f x = Some (c, y) \<Longrightarrow> y = g x"
  shows "ys = map g xs"
  using assms
proof (induction xs arbitrary: c ys)
  case (Cons x xs)
  then show ?case by (fastforce split: option.splits)
qed simp

definition map_instrs :: "(mir_instr list \<Rightarrow> mir_instr list) \<Rightarrow> mir_function \<Rightarrow> mir_function" where
  "map_instrs h f =
     f\<lparr>fn_blocks := map (\<lambda>b. b\<lparr>blk_instructions := h (blk_instructions b)\<rparr>) (fn_blocks f)\<rparr>"

lemma map_instrs_blocks [simp]:
  "fn_blocks (map_instrs h f) = map (\<lambda>b. b\<lparr>blk_instructions := h (blk_instructions b)\<rparr>) (fn_blocks f)"
  by (simp add: map_instrs_def)

lemma pass_blocks_map:
  assumes "pass_blocks g f = Some (c, f')" and "\<And>is c js. g is = Some (c, js) \<Longrightarrow> js = h is"
  shows "f' = map_instrs h f"
proof -
  let ?g = "\<lambda>b. map_option (\<lambda>(c, is). (c, b\<lparr>blk_instructions := is\<rparr>)) (g (blk_instructions b))"
  obtain bs where bs: "pass_list ?g (fn_blocks f) = Some (c, bs)" "f' = f\<lparr>fn_blocks := bs\<rparr>"
    using assms(1) by (auto simp: pass_blocks_def)
  have "bs = map (\<lambda>b. b\<lparr>blk_instructions := h (blk_instructions b)\<rparr>) (fn_blocks f)"
    by (rule pass_list_map [OF bs(1)]) (use assms(2) in auto)
  then show ?thesis using bs(2) by (simp add: map_instrs_def)
qed

lemma pass_functions_map:
  assumes "pass_functions F p = Some (c, p')" and "\<And>f c g. F f = Some (c, g) \<Longrightarrow> g = G f"
  shows "prog_functions p' = map G (prog_functions p)"
proof -
  obtain fs where fs: "pass_list F (prog_functions p) = Some (c, fs)" "p' = p\<lparr>prog_functions := fs\<rparr>"
    using assms(1) by (auto simp: pass_functions_def)
  have "fs = map G (prog_functions p)"
    by (rule pass_list_map [OF fs(1)]) (use assms(2) in auto)
  then show ?thesis using fs(2) by simp
qed

section \<open>From blocks to runs\<close>

lemma find_map_option: "find P (map f xs) = map_option f (find (\<lambda>x. P (f x)) xs)"
  by (induction xs) auto

text \<open>What a program returns, its optimised form returns too: for every function, from every block,
  state and fuel.\<close>

definition refines_function :: "build_config \<Rightarrow> ('v, 'w) machine \<Rightarrow> mir_function \<Rightarrow> mir_function \<Rightarrow> bool" where
  "refines_function cfg M f g \<longleftrightarrow>
     (\<forall>n l s vs w. run_from cfg M (fn_blocks f) n l s = Returned vs w \<longrightarrow>
        run_from cfg M (fn_blocks g) n l s = Returned vs w)"

locale block_pass =
  fixes cfg :: build_config and M :: "('v, 'w) machine"
    and ok :: "mir_function \<Rightarrow> bool"
    and agree :: "mir_function \<Rightarrow> 'v env \<Rightarrow> 'v env \<Rightarrow> bool"
    and opt :: "mir_function \<Rightarrow> mir_instr list \<Rightarrow> mir_instr list"
  assumes block_simulation: "\<lbrakk>ok f; b \<in> set (fn_blocks f); agree f e e';
      exec_instrs cfg M (blk_instructions b) (e, w) = Some (e1, w1)\<rbrakk> \<Longrightarrow>
      \<exists>e1'. exec_instrs cfg M (opt f (blk_instructions b)) (e', w) = Some (e1', w1) \<and> agree f e1 e1'"
    and terminator_agrees: "\<lbrakk>ok f; b \<in> set (fn_blocks f); agree f e e';
      op \<in> set (terminator_operands (blk_terminator b))\<rbrakk> \<Longrightarrow> operand_value e op = operand_value e' op"
begin

lemma next_label_agrees:
  assumes "ok f" and "b \<in> set (fn_blocks f)" and "agree f e e'"
  shows "next_label (e, w) (blk_terminator b) = next_label (e', w) (blk_terminator b)"
  using terminator_agrees [OF assms] by (cases "blk_terminator b") (simp_all add: next_label_def)

lemma run_agrees:
  assumes "ok f" and "agree f e e'"
    and "run_from cfg M (fn_blocks f) n l (e, w) = Returned vs w'"
  shows "run_from cfg M (fn_blocks (map_instrs (opt f) f)) n l (e', w) = Returned vs w'"
  using assms(2,3)
proof (induction n arbitrary: l e e' w)
  case (Suc n)
  let ?opt = "\<lambda>b. b\<lparr>blk_instructions := opt f (blk_instructions b)\<rparr>"
  obtain b where b: "find (\<lambda>b. blk_label b = l) (fn_blocks f) = Some b"
    using Suc.prems(2) by (auto split: option.splits)
  then have mem: "b \<in> set (fn_blocks f)" by (metis find_Some_iff nth_mem)
  have fb: "find (\<lambda>b. blk_label b = l) (map ?opt (fn_blocks f)) = Some (?opt b)"
    using b by (simp add: find_map_option)
  obtain e1 w1 where x: "exec_instrs cfg M (blk_instructions b) (e, w) = Some (e1, w1)"
    using Suc.prems(2) b by (auto split: option.splits)
  obtain e1' where x': "exec_instrs cfg M (opt f (blk_instructions b)) (e', w) = Some (e1', w1)"
      and ag: "agree f e1 e1'"
    using block_simulation [OF assms(1) mem Suc.prems(1) x] by blast
  have nx: "next_label (e1, w1) (blk_terminator b) = next_label (e1', w1) (blk_terminator b)"
    by (rule next_label_agrees [OF assms(1) mem ag])
  show ?case
  proof (cases "next_label (e1, w1) (blk_terminator b)")
    case (Inl r)
    then show ?thesis using Suc.prems(2) b x x' nx fb by simp
  next
    case (Inr l')
    then have "run_from cfg M (fn_blocks f) n l' (e1, w1) = Returned vs w'"
      using Suc.prems(2) b x by simp
    from Suc.IH [OF ag this] show ?thesis using Inr x' nx fb by simp
  qed
qed simp

lemma run_refines:
  assumes "ok f" and "\<And>e. agree f e e"
  shows "refines_function cfg M f (map_instrs (opt f) f)"
  unfolding refines_function_def
proof (intro allI impI)
  fix n l vs w and s :: "'v env \<times> 'w"
  assume "run_from cfg M (fn_blocks f) n l s = Returned vs w"
  then show "run_from cfg M (fn_blocks (map_instrs (opt f) f)) n l s = Returned vs w"
    using run_agrees [OF assms(1) assms(2), of n l "fst s" "snd s"] by simp
qed

end

section \<open>Single instructions\<close>

lemma write_all_other: "n \<notin> set ds \<Longrightarrow> write_all ds vs e n = e n"
  by (induction ds vs e rule: write_all.induct) auto

lemma write_all_cong: "e n = e' n \<or> n \<in> set ds \<Longrightarrow> write_all ds vs e n = write_all ds vs e' n"
proof (induction ds arbitrary: vs e e')
  case (Cons d ds)
  show ?case unfolding write_all.simps by (rule Cons.IH) (use Cons.prems in auto)
qed simp

lemma scalar_dests:
  "all_dests (Assign d v) = [d]" "all_dests (Move d v) = [d]" "all_dests (Copy d v) = [d]"
  "all_dests (BinaryOp d op l r) = [d]" "all_dests (UnaryOp d u v) = [d]"
  by (simp_all add: all_dests_def)

lemma exec_opaque:
  "scalar_dest k = {} \<Longrightarrow> exec_kind cfg M k s =
     map_option (\<lambda>(vs, w). (write_all (all_dests k) vs (fst s), w))
       (m_exec M k (map (operand_value (fst s)) (all_operands k)) (snd s))"
  by (cases k) (simp_all add: exec_kind_def)

lemma exec_scalar_cases:
  assumes "scalar_dest k \<noteq> {}"
  obtains (assign) d v where "k = Assign d v" | (move) d v where "k = Move d v"
    | (copy) d v where "k = Copy d v" | (binary) d op l r where "k = BinaryOp d op l r"
    | (unary) d op v where "k = UnaryOp d op v"
  using assms by (cases k) auto

lemma exec_kind_other:
  assumes "exec_kind cfg M k s = Some s'" and "n \<notin> set (all_dests k)"
  shows "fst s' n = fst s n"
proof (cases "scalar_dest k = {}")
  case True
  then show ?thesis using assms by (auto simp: exec_opaque write_all_other)
next
  case False
  then show ?thesis
    by (cases rule: exec_scalar_cases) (use assms in \<open>auto simp: exec_kind_def scalar_dests\<close>)
qed

text \<open>What an instruction does depends on the values of its operands only.\<close>

lemma exec_kind_cong:
  assumes "exec_kind cfg M k (e, w) = Some (e1, w1)"
    and "\<And>op. op \<in> set (all_operands k) \<Longrightarrow> operand_value e op = operand_value e' op"
  shows "\<exists>e1'. exec_kind cfg M k (e', w) = Some (e1', w1) \<and>
    (\<forall>n. e n = e' n \<or> n \<in> set (all_dests k) \<longrightarrow> e1 n = e1' n)"
proof (cases "scalar_dest k = {}")
  case True
  have vs: "map (operand_value e) (all_operands k) = map (operand_value e') (all_operands k)"
    using assms(2) by simp
  obtain us where us: "m_exec M k (map (operand_value e) (all_operands k)) w = Some (us, w1)"
      "e1 = write_all (all_dests k) us e"
    using assms(1) True by (auto simp: exec_opaque)
  then have "exec_kind cfg M k (e', w) = Some (write_all (all_dests k) us e', w1)"
    using True by (simp add: exec_opaque flip: vs)
  moreover have "\<forall>n. e n = e' n \<or> n \<in> set (all_dests k) \<longrightarrow> e1 n = write_all (all_dests k) us e' n"
    unfolding us(2) by (blast intro: write_all_cong)
  ultimately show ?thesis by blast
next
  case False
  then show ?thesis
    by (cases rule: exec_scalar_cases)
      (use assms in \<open>auto simp: exec_kind_def scalar_dests all_operands_def\<close>)
qed

section \<open>Constant folding\<close>

lemma sint_eq_iff: "sint (x :: i64) = sint y \<longleftrightarrow> x = y"
  by (metis signed_word_eqI)

lemma sint_zero_iff: "sint (x :: i64) = 0 \<longleftrightarrow> x = 0"
  using sint_eq_iff [of x 0] by simp

lemma fold_int_value:
  "fold_int op l r = Folded c \<Longrightarrow> const_binop cfg op (CInt l) (CInt r) = Some c"
  by (cases op)
    (auto simp: const_binop_def int_compare_def int_arith_def fold_div_def fold_mod_def word_sless_alt
      word_sle_eq sint_eq_iff sint_zero_iff split: if_splits)

lemma fold_float_value:
  "fold_float cfg op l r = Folded c \<Longrightarrow> const_binop cfg op (CFloat l) (CFloat r) = Some c"
  by (cases op) (auto simp: const_binop_def split: if_splits)

lemma fold_bool_value:
  "fold_bool op l r = Folded c \<Longrightarrow> const_binop cfg op (CBool l) (CBool r) = Some c"
  by (cases op) (auto simp: const_binop_def)

lemma fold_binop_value: "fold_binop cfg op a b = Folded c \<Longrightarrow> const_binop cfg op a b = Some c"
  by (cases a; cases b)
    (auto simp: fold_binop_def fold_int_value fold_float_value fold_bool_value, auto simp: const_binop_def split: if_splits)

lemma fold_unaryop_value: "fold_unaryop cfg op a = Folded c \<Longrightarrow> const_unop cfg op a = Some c"
  by (cases op; cases a) (auto simp: fold_unaryop_def const_unop_def split: if_splits)

definition folded :: "build_config \<Rightarrow> mir_instr \<Rightarrow> mir_instr" where
  "folded cfg i = (case fold_instr cfg i of Some (c, i') \<Rightarrow> i' | None \<Rightarrow> i)"

lemma fold_instr_cases:
  obtains (panic) "fold_instr cfg i = None"
  | (same) "fold_instr cfg i = Some (False, i)"
  | (binary) d op a b c where "kind i = BinaryOp d op (Const a) (Const b)" "fold_binop cfg op a b = Folded c"
      "fold_instr cfg i = Some (True, i\<lparr>kind := Assign d (Const c)\<rparr>)"
  | (unary) d op a c where "kind i = UnaryOp d op (Const a)" "fold_unaryop cfg op a = Folded c"
      "fold_instr cfg i = Some (True, i\<lparr>kind := Assign d (Const c)\<rparr>)"
proof (cases "kind i")
  case (BinaryOp d op l r)
  show thesis
  proof (cases "\<exists>a b. l = Const a \<and> r = Const b")
    case True
    then obtain a b where "l = Const a" "r = Const b" by blast
    then show thesis using BinaryOp panic same binary [of d op a b]
      by (cases "fold_binop cfg op a b") (simp_all add: fold_instr_def fold_result_def)
  next
    case False
    then show thesis using BinaryOp same by (cases l; cases r) (simp_all add: fold_instr_def)
  qed
next
  case (UnaryOp d op v)
  show thesis
  proof (cases "\<exists>a. v = Const a")
    case True
    then obtain a where "v = Const a" by blast
    then show thesis using UnaryOp panic same unary [of d op a]
      by (cases "fold_unaryop cfg op a") (simp_all add: fold_instr_def fold_result_def)
  next
    case False
    then show thesis using UnaryOp same by (cases v) (simp_all add: fold_instr_def)
  qed
qed (use same in \<open>simp_all add: fold_instr_def\<close>)

lemma exec_folded: "exec_kind cfg M (kind (folded cfg i)) s = exec_kind cfg M (kind i) s"
  by (cases rule: fold_instr_cases [of cfg i])
    (simp_all add: folded_def exec_kind_def binop_value_def unop_value_def fold_binop_value fold_unaryop_value)

lemma shape_folded: "shape (folded cfg i) = shape i"
  by (cases rule: fold_instr_cases [of cfg i]) (simp_all add: folded_def shape_def hidden_names_def pure_dest_def)

lemma exec_map_folded: "exec_instrs cfg M (map (folded cfg) is) s = exec_instrs cfg M is s"
  by (induction "is" arbitrary: s) (auto simp: exec_folded intro: Option.bind_cong)

interpretation folding: block_pass cfg M "\<lambda>f. True" "\<lambda>f. (=)" "\<lambda>f. map (folded cfg)"
  for cfg :: build_config and M :: "('v, 'w) machine"
  by unfold_locales (auto simp: exec_map_folded)

section \<open>Constant propagation\<close>

text \<open>The constants a block knows are the values of their names.\<close>

definition knows :: "(sym \<rightharpoonup> mir_const) \<Rightarrow> 'v env \<Rightarrow> bool" where
  "knows known e \<longleftrightarrow> (\<forall>n c. known n = Some c \<longrightarrow> e n = Some (Scalar c))"

lemma knowsD: "knows known e \<Longrightarrow> known n = Some c \<Longrightarrow> e n = Some (Scalar c)"
  by (simp add: knows_def)

lemma replacements_known: "(n, c) \<in> set (replacements known i) \<Longrightarrow> known n = Some c"
  by (auto simp: replacements_def known_operand_def List.map_filter_def split: mir_operand.splits if_splits)

lemma maybe_replace_value:
  "e n = Some (Scalar c) \<Longrightarrow> operand_value e (maybe_replace n c op) = operand_value e op"
  by (cases op) (auto simp: maybe_replace_def)

lemma exec_replace_kind:
  "fst s n = Some (Scalar c) \<Longrightarrow> exec_kind cfg M (replace_operand_in_kind n c k) s = exec_kind cfg M k s"
  by (cases k) (simp_all add: exec_kind_def maybe_replace_value)

lemma shape_replace_kind:
  "shape (i\<lparr>kind := replace_operand_in_kind n c (kind i)\<rparr>) = shape i"
  by (cases "kind i") (simp_all add: shape_def hidden_names_def pure_dest_def)

lemma exec_replace_operands:
  assumes "\<And>n c. (n, c) \<in> set rs \<Longrightarrow> fst s n = Some (Scalar c)"
  shows "exec_kind cfg M (kind (replace_operands rs i)) s = exec_kind cfg M (kind i) s"
  using assms
proof (induction rs arbitrary: i)
  case (Cons p rs)
  obtain n c where p: "p = (n, c)" by fastforce
  have "exec_kind cfg M (kind (replace_operands rs (i\<lparr>kind := replace_operand_in_kind n c (kind i)\<rparr>))) s =
      exec_kind cfg M (replace_operand_in_kind n c (kind i)) s"
    using Cons.IH [of "i\<lparr>kind := replace_operand_in_kind n c (kind i)\<rparr>"] Cons.prems by simp
  then show ?case
    using Cons.prems [of n c] p by (simp add: replace_operands_def exec_replace_kind)
qed (simp add: replace_operands_def)

lemma shape_replace_operands: "shape (replace_operands rs i) = shape i"
proof (induction rs arbitrary: i)
  case (Cons p rs)
  obtain n c where "p = (n, c)" by fastforce
  then show ?case using Cons [of "i\<lparr>kind := replace_operand_in_kind n c (kind i)\<rparr>"]
    by (simp add: replace_operands_def shape_replace_kind)
qed (simp add: replace_operands_def)

lemma shape_eq:
  assumes "shape i = shape j"
  shows "set (hidden_dests (kind i)) = set (hidden_dests (kind j))" "scalar_dest (kind i) = scalar_dest (kind j)"
  using assms by (simp_all add: shape_def)

lemma all_dests_Some: "kind_dest k = Some d \<Longrightarrow> all_dests k = [d]"
  by (simp add: all_dests_def)

lemma track_constant_knows:
  assumes "knows known (fst s)" and "exec_kind cfg M (kind i) s = Some s'"
    and "set (hidden_dests (kind i)) \<inter> dom known = {}"
  shows "knows (track_constant known i) (fst s')"
proof (cases "\<exists>d c. kind i = Assign d (Const c)")
  case True
  then show ?thesis
    using assms by (auto simp: exec_kind_def track_constant_def knows_def)
next
  case False
  then have t: "track_constant known i =
      (case destination i of Some d \<Rightarrow> known(d := None) | None \<Rightarrow> known)"
    by (auto simp: track_constant_def split: mir_instr_kind.splits mir_operand.splits)
  show ?thesis unfolding knows_def
  proof (intro allI impI)
    fix n c
    assume n: "track_constant known i n = Some c"
    have kn: "known n = Some c" and nd: "kind_dest (kind i) \<noteq> Some n"
      using n by (auto simp: t destination_def split: option.splits if_splits)
    have "n \<notin> set (all_dests (kind i))"
    proof (cases "kind_dest (kind i)")
      case None
      then show ?thesis using assms(3) kn by (auto simp: all_dests_def)
    next
      case (Some d)
      then show ?thesis using nd by (simp add: all_dests_def)
    qed
    then have "fst s' n = fst s n" by (rule exec_kind_other [OF assms(2)])
    then show "fst s' n = Some (Scalar c)" using knowsD [OF assms(1) kn] by simp
  qed
qed

lemma track_constant_dom: "dom (track_constant known i) \<subseteq> dom known \<union> scalar_dest (kind i)"
  by (auto simp: track_constant_def split: mir_instr_kind.splits mir_operand.splits option.splits if_splits)

lemma exec_propagate_block:
  assumes "knows known (fst s)" and "exec_instrs cfg M is s = Some s'"
    and "dom known \<subseteq> S" and "\<And>i. i \<in> set is \<Longrightarrow> scalar_dest (kind i) \<subseteq> S"
    and "\<And>i. i \<in> set is \<Longrightarrow> set (hidden_dests (kind i)) \<inter> S = {}"
  shows "exec_instrs cfg M (snd (propagate_block known is)) s = Some s'"
  using assms
proof (induction "is" arbitrary: known s)
  case (Cons i "is")
  let ?i = "replace_operands (replacements known i) i"
  obtain s1 where s1: "exec_kind cfg M (kind i) s = Some s1" "exec_instrs cfg M is s1 = Some s'"
    using Cons.prems(2) by (auto split: bind_splits)
  have x: "exec_kind cfg M (kind ?i) s = Some s1"
    unfolding s1(1) [symmetric]
    by (rule exec_replace_operands) (rule knowsD [OF Cons.prems(1) replacements_known])
  have sh: "set (hidden_dests (kind ?i)) = set (hidden_dests (kind i))" "scalar_dest (kind ?i) = scalar_dest (kind i)"
    using shape_eq [OF shape_replace_operands] by metis+
  have hid: "set (hidden_dests (kind ?i)) \<inter> dom known = {}"
    using Cons.prems(3) Cons.prems(5) [of i] sh by auto
  have "exec_instrs cfg M (snd (propagate_block (track_constant known ?i) is)) s1 = Some s'"
  proof (rule Cons.IH [OF track_constant_knows [OF Cons.prems(1) x hid] s1(2)])
    show "dom (track_constant known ?i) \<subseteq> S"
      using track_constant_dom [of known ?i] Cons.prems(3) Cons.prems(4) [of i] sh by auto
  qed (use Cons.prems(4,5) in auto)
  then show ?case using x by (simp add: Let_def case_prod_beta)
qed simp

lemma block_in_function: "b \<in> set (fn_blocks f) \<Longrightarrow> i \<in> set (blk_instructions b) \<Longrightarrow> i \<in> set (block_instrs (fn_blocks f))"
  by (auto simp: block_instrs_def)

lemma exec_propagated:
  assumes "regular f" and "b \<in> set (fn_blocks f)"
    and "exec_instrs cfg M (blk_instructions b) s = Some s'"
  shows "exec_instrs cfg M (snd (propagate_block Map.empty (blk_instructions b))) s = Some s'"
proof (rule exec_propagate_block [OF _ assms(3), where S = "\<Union>j\<in>set (blk_instructions b). scalar_dest (kind j)"])
  show "set (hidden_dests (kind i)) \<inter> (\<Union>j\<in>set (blk_instructions b). scalar_dest (kind j)) = {}"
    if "i \<in> set (blk_instructions b)" for i
    using regularD(2) [OF assms(1) block_in_function [OF assms(2) that] block_in_function [OF assms(2)]] by blast
qed (auto simp: knows_def)

interpretation propagation: block_pass cfg M regular "\<lambda>f. (=)" "\<lambda>f is. snd (propagate_block Map.empty is)"
  for cfg :: build_config and M :: "('v, 'w) machine"
  by unfold_locales (auto intro: exec_propagated)

section \<open>Dead code elimination\<close>

definition hidden_reads :: "mir_function \<Rightarrow> sym set" where
  "hidden_reads f = (\<Union>i\<in>set (block_instrs (fn_blocks f)). hidden_names (kind i))"

text \<open>Two environments agree where the function looks.\<close>

definition agree_used :: "mir_function \<Rightarrow> 'v env \<Rightarrow> 'v env \<Rightarrow> bool" where
  "agree_used f e e' \<longleftrightarrow> (\<forall>n\<in>set (used_names f) \<union> hidden_reads f. e n = e' n)"

lemma operand_value_agree:
  "(\<And>n. n \<in> set (operand_names op) \<Longrightarrow> e n = e' n) \<Longrightarrow> operand_value e op = operand_value e' op"
  by (cases op) simp_all

lemma used_operand_names:
  assumes "b \<in> set (fn_blocks f)" and "i \<in> set (blk_instructions b)" and "op \<in> set (all_operands (kind i))"
  shows "set (operand_names op) \<subseteq> set (used_names f) \<union> hidden_reads f"
  using assms block_in_function [OF assms(1,2)]
  by (fastforce simp: all_operands_def used_names_def operands_def hidden_reads_def hidden_names_def)

lemma used_terminator_names:
  assumes "b \<in> set (fn_blocks f)" and "op \<in> set (terminator_operands (blk_terminator b))"
  shows "set (operand_names op) \<subseteq> set (used_names f)"
  using assms by (fastforce simp: used_names_def)

lemma machine_ok_pure:
  assumes "machine_ok M" and "\<not> has_side_effects k" and "kind_dest k = Some d"
    and "m_exec M k vs w = Some (us, w')"
  shows "w' = w"
  using assms removable_is_pure unfolding machine_ok_def by metis

lemma pure_keeps_world:
  assumes "machine_ok M" and "\<not> has_side_effects k" and "kind_dest k = Some d"
    and "exec_kind cfg M k (e, w) = Some (e1, w1)"
  shows "w1 = w"
proof (cases "scalar_dest k = {}")
  case True
  then show ?thesis using assms(4) machine_ok_pure [OF assms(1-3)] by (auto simp: exec_opaque)
next
  case False
  then show ?thesis by (cases rule: exec_scalar_cases) (use assms(4) in \<open>auto simp: exec_kind_def\<close>)
qed

lemma exec_retained:
  assumes "regular f" and "machine_ok M" and "b \<in> set (fn_blocks f)" and "set is \<subseteq> set (blk_instructions b)"
    and "agree_used f e e'" and "exec_instrs cfg M is (e, w) = Some (e1, w1)"
  shows "\<exists>e1'. exec_instrs cfg M (filter (keep_instr (used_names f)) is) (e', w) = Some (e1', w1) \<and>
    agree_used f e1 e1'"
  using assms(4-)
proof (induction "is" arbitrary: e e' w)
  case (Cons i "is")
  obtain e2 w2 where x: "exec_kind cfg M (kind i) (e, w) = Some (e2, w2)"
      and rest: "exec_instrs cfg M is (e2, w2) = Some (e1, w1)"
    using Cons.prems(3) by (auto split: bind_splits)
  have i: "i \<in> set (blk_instructions b)" and sub: "set is \<subseteq> set (blk_instructions b)"
    using Cons.prems(1) by simp_all
  show ?case
  proof (cases "keep_instr (used_names f) i")
    case True
    have "operand_value e op = operand_value e' op" if "op \<in> set (all_operands (kind i))" for op
      using used_operand_names [OF assms(3) i that] Cons.prems(2)
      by (intro operand_value_agree) (auto simp: agree_used_def)
    from exec_kind_cong [OF x this] obtain e2' where
        x': "exec_kind cfg M (kind i) (e', w) = Some (e2', w2)"
        and ag: "\<forall>n. e n = e' n \<or> n \<in> set (all_dests (kind i)) \<longrightarrow> e2 n = e2' n" by blast
    have "agree_used f e2 e2'" using ag Cons.prems(2) by (auto simp: agree_used_def)
    from Cons.IH [OF sub this rest] show ?thesis using True x' by simp
  next
    case False
    then obtain d where d: "kind_dest (kind i) = Some d" "d \<notin> set (used_names f)" "\<not> has_side_effects (kind i)"
      by (auto simp: keep_instr_def destination_def split: option.splits)
    have "d \<notin> hidden_reads f"
    proof
      assume "d \<in> hidden_reads f"
      then obtain j where j: "j \<in> set (block_instrs (fn_blocks f))" "d \<in> hidden_names (kind j)"
        by (auto simp: hidden_reads_def)
      have "d \<in> pure_dest (kind i)" using d removable_is_pure by (simp add: pure_dest_def)
      then show False
        using regularD(1) [OF assms(1) j(1) block_in_function [OF assms(3) i]] j(2) by blast
    qed
    moreover have "e2 n = e n" if "n \<noteq> d" for n
      using exec_kind_other [OF x, of n] that by (simp add: all_dests_Some [OF d(1)])
    ultimately have ag: "agree_used f e2 e'"
      using Cons.prems(2) d(2) unfolding agree_used_def by (metis UnE)
    have "w2 = w" by (rule pure_keeps_world [OF assms(2) d(3,1) x])
    from Cons.IH [OF sub ag rest] show ?thesis using False \<open>w2 = w\<close> by simp
  qed
qed simp

interpretation elimination: block_pass cfg M "\<lambda>f. regular f \<and> machine_ok M" agree_used
    "\<lambda>f. filter (keep_instr (used_names f))"
  for cfg :: build_config and M :: "('v, 'w) machine"
proof
  fix f b and e e' :: "'v env" and w e1 w1
  assume "regular f \<and> machine_ok M" "b \<in> set (fn_blocks f)" "agree_used f e e'"
    "exec_instrs cfg M (blk_instructions b) (e, w) = Some (e1, w1)"
  then show "\<exists>e1'. exec_instrs cfg M (filter (keep_instr (used_names f)) (blk_instructions b)) (e', w) =
      Some (e1', w1) \<and> agree_used f e1 e1'"
    using exec_retained [of f M b "blk_instructions b"] by blast
next
  fix f b and e e' :: "'v env" and op
  assume "b \<in> set (fn_blocks f)" "agree_used f e e'" "op \<in> set (terminator_operands (blk_terminator b))"
  then show "operand_value e op = operand_value e' op"
    using used_terminator_names [of b f op] by (intro operand_value_agree) (auto simp: agree_used_def)
qed

section \<open>Duplicate drops\<close>

definition just_dropped :: "('v, 'w) machine \<Rightarrow> sym option \<Rightarrow> 'v env \<times> 'w \<Rightarrow> bool" where
  "just_dropped M prev s \<longleftrightarrow>
     (case prev of Some v \<Rightarrow> \<exists>us w. m_exec M (Drop v) [fst s v] w = Some (us, snd s) | None \<Rightarrow> True)"

lemma exec_drop:
  "exec_kind cfg M (Drop v) s = map_option (\<lambda>(us, w). (fst s, w)) (m_exec M (Drop v) [fst s v] (snd s))"
  by (cases "m_exec M (Drop v) [fst s v] (snd s)") (auto simp: exec_opaque all_dests_def all_operands_def)

lemma exec_dedup_drops:
  assumes "machine_ok M" and "just_dropped M prev s" and "exec_instrs cfg M is s = Some s'"
  shows "exec_instrs cfg M (dedup_drops prev is) s = Some s'"
  using assms(2,3)
proof (induction "is" arbitrary: prev s)
  case (Cons i "is")
  obtain s1 where s1: "exec_kind cfg M (kind i) s = Some s1" "exec_instrs cfg M is s1 = Some s'"
    using Cons.prems(2) by (auto split: bind_splits)
  show ?case
  proof (cases "\<exists>v. kind i = Drop v")
    case True
    then obtain v where v: "kind i = Drop v" by blast
    obtain us w where d: "m_exec M (Drop v) [fst s v] (snd s) = Some (us, w)" "s1 = (fst s, w)"
      using s1(1) v by (auto simp: exec_drop)
    have jd: "just_dropped M (Some v) s1" using d by (auto simp: just_dropped_def)
    show ?thesis
    proof (cases "prev = Some v")
      case True
      then obtain us0 w0 where "m_exec M (Drop v) [fst s v] w0 = Some (us0, snd s)"
        using Cons.prems(1) by (auto simp: just_dropped_def)
      then have "w = snd s" using assms(1) d(1) unfolding machine_ok_def by blast
      then have "s1 = s" using d(2) by simp
      then show ?thesis using Cons.IH [OF Cons.prems(1)] s1(2) v True by simp
    next
      case False
      then show ?thesis using Cons.IH [OF jd s1(2)] s1(1) v by simp
    qed
  next
    case False
    then have "dedup_drops prev (i # is) = i # dedup_drops None is" by (cases "kind i") simp_all
    then show ?thesis using Cons.IH [OF _ s1(2), of None] s1(1) by (simp add: just_dropped_def)
  qed
qed simp

interpretation drops: block_pass cfg M "\<lambda>f. machine_ok M" "\<lambda>f. (=)" "\<lambda>f. dedup_drops None"
  for cfg :: build_config and M :: "('v, 'w) machine"
  by unfold_locales (auto intro: exec_dedup_drops simp: just_dropped_def)

section \<open>Programs\<close>

definition refines :: "build_config \<Rightarrow> ('v, 'w) machine \<Rightarrow> mir_program \<Rightarrow> mir_program \<Rightarrow> bool" where
  "refines cfg M p q \<longleftrightarrow> list_all2 (refines_function cfg M) (prog_functions p) (prog_functions q)"

lemma refines_refl: "refines cfg M p p"
  by (simp add: refines_def refines_function_def list.rel_refl)

lemma refines_function_trans:
  "refines_function cfg M f g \<Longrightarrow> refines_function cfg M g h \<Longrightarrow> refines_function cfg M f h"
  by (simp add: refines_function_def)

lemma refines_trans: "refines cfg M p q \<Longrightarrow> refines cfg M q r \<Longrightarrow> refines cfg M p r"
  unfolding refines_def
  by (rule list_all2_trans [of "refines_function cfg M" "refines_function cfg M" "refines_function cfg M"])
    (auto intro: refines_function_trans)

definition sound_pass :: "build_config \<Rightarrow> ('v, 'w) machine \<Rightarrow> mir_pass \<Rightarrow> bool" where
  "sound_pass cfg M pass \<longleftrightarrow>
     (\<forall>p c p'. pass p = Some (c, p') \<and> regular_program p \<and> machine_ok M \<longrightarrow>
        regular_program p' \<and> refines cfg M p p')"

lemma sound_pass_map:
  assumes "\<And>p c p'. pass p = Some (c, p') \<Longrightarrow> prog_functions p' = map G (prog_functions p)"
    and "\<And>f. regular f \<Longrightarrow> regular (G f)"
    and "\<And>f. regular f \<Longrightarrow> machine_ok M \<Longrightarrow> refines_function cfg M f (G f)"
  shows "sound_pass cfg M pass"
  unfolding sound_pass_def
proof (intro allI impI, elim conjE)
  fix p c p'
  assume p: "pass p = Some (c, p')" "regular_program p" "machine_ok M"
  note fs = assms(1) [OF p(1)]
  have "regular_program p'" using p(2) by (auto simp: regular_program_def fs intro: assms(2))
  moreover have "refines cfg M p p'"
    using p(2,3) by (auto simp: refines_def fs list_all2_map2 regular_program_def intro!: list.rel_refl_strong assms(3))
  ultimately show "regular_program p' \<and> refines cfg M p p'" by blast
qed

lemma function_shapes_Union:
  "function_shapes f = (\<Union>b\<in>set (fn_blocks f). shape ` set (blk_instructions b))"
  by (auto simp: function_shapes_def block_instrs_def)

lemma regular_map_instrs:
  assumes "regular f" and "\<And>is. shape ` set (h is) \<subseteq> shape ` set is"
  shows "regular (map_instrs h f)"
proof (rule regular_mono [OF assms(1)])
  show "function_shapes (map_instrs h f) \<subseteq> function_shapes f"
    using assms(2) by (simp add: function_shapes_Union UN_mono)
qed

lemma shape_map_folded: "shape ` set (map (folded cfg) is) \<subseteq> shape ` set is"
  by (auto simp: shape_folded)

lemma shape_propagate_block: "shape ` set (snd (propagate_block known is)) = shape ` set is"
  by (induction known "is" rule: propagate_block.induct)
    (simp_all add: Let_def case_prod_beta shape_replace_operands)

lemma dedup_drops_Cons:
  "dedup_drops prev (i # is) =
     (if \<exists>v. kind i = Drop v \<and> prev = Some v then dedup_drops prev is
      else i # dedup_drops (case kind i of Drop v \<Rightarrow> Some v | _ \<Rightarrow> None) is)"
  by (cases "kind i") simp_all

lemma set_dedup_drops: "set (dedup_drops prev is) \<subseteq> set is"
proof (induction "is" arbitrary: prev)
  case (Cons i "is")
  then show ?case unfolding dedup_drops_Cons by (simp add: subset_insertI2 insert_mono)
qed simp

lemma fold_list_map:
  "pass_list (fold_instr cfg) is = Some (c, js) \<Longrightarrow> js = map (folded cfg) is"
  by (erule pass_list_map) (simp add: folded_def)

lemma sound_folding: "sound_pass cfg M (constant_folding cfg)"
proof (rule sound_pass_map)
  show "prog_functions p' = map (map_instrs (map (folded cfg))) (prog_functions p)"
    if "constant_folding cfg p = Some (c, p')" for p c p'
    by (rule pass_functions_map [OF that [unfolded constant_folding_def]])
      (erule pass_blocks_map, rule fold_list_map)
  show "refines_function cfg M f (map_instrs (map (folded cfg)) f)" for f
    by (rule folding.run_refines) simp_all
qed (rule regular_map_instrs, assumption, rule shape_map_folded)

lemma sound_propagation: "sound_pass cfg M constant_propagation"
proof (rule sound_pass_map)
  show "prog_functions p' = map (map_instrs (\<lambda>is. snd (propagate_block Map.empty is))) (prog_functions p)"
    if "constant_propagation p = Some (c, p')" for p c p'
    by (rule pass_functions_map [OF that [unfolded constant_propagation_def]])
      (erule pass_blocks_map, simp)
  show "refines_function cfg M f (map_instrs (\<lambda>is. snd (propagate_block Map.empty is)) f)"
    if "regular f" for f
    by (rule propagation.run_refines [OF that]) simp
qed (rule regular_map_instrs, assumption, simp add: shape_propagate_block)

lemma map_instrs_id: "map_instrs (\<lambda>is. is) f = f"
  by (simp add: map_instrs_def)

lemma copy_propagation_id: "copy_propagation p = Some (c, p') \<Longrightarrow> prog_functions p' = map (\<lambda>f. f) (prog_functions p)"
  unfolding copy_propagation_def
  by (erule pass_functions_map) (drule pass_blocks_map [where h = "\<lambda>is. is"], simp_all add: copy_block_def map_instrs_id)

lemma sound_copy: "sound_pass cfg M copy_propagation"
  by (rule sound_pass_map [OF copy_propagation_id]) (simp_all add: refines_function_def)

lemma sound_elimination: "sound_pass cfg M dead_code_elimination"
proof (rule sound_pass_map)
  show "prog_functions p' = map (\<lambda>f. map_instrs (filter (keep_instr (used_names f))) f) (prog_functions p)"
    if "dead_code_elimination p = Some (c, p')" for p c p'
    by (rule pass_functions_map [OF that [unfolded dead_code_elimination_def]])
      (simp add: eliminate_dead_def, erule pass_blocks_map, simp add: retain_def)
  show "regular (map_instrs (filter (keep_instr (used_names f))) f)" if "regular f" for f
    by (rule regular_map_instrs [OF that]) auto
  show "refines_function cfg M f (map_instrs (filter (keep_instr (used_names f))) f)"
    if "regular f" "machine_ok M" for f
    by (rule elimination.run_refines) (simp_all add: that agree_used_def)
qed

lemma sound_drops: "sound_pass cfg M drop_optimization"
proof (rule sound_pass_map)
  show "prog_functions p' = map (map_instrs (dedup_drops None)) (prog_functions p)"
    if "drop_optimization p = Some (c, p')" for p c p'
    by (rule pass_functions_map [OF that [unfolded drop_optimization_def]])
      (erule pass_blocks_map, simp add: drop_block_def)
  show "refines_function cfg M f (map_instrs (dedup_drops None) f)" if "machine_ok M" for f
    by (rule drops.run_refines [OF that]) simp
qed (rule regular_map_instrs, assumption, rule image_mono, rule set_dedup_drops)

lemma sound_escape: "sound_pass cfg M escape_analysis"
  by (rule sound_pass_map [where G = "\<lambda>f. f\<lparr>fn_escape_info := Some (analyze_function f)\<rparr>"])
    (auto simp: escape_analysis_def refines_function_def regular_def function_shapes_def)

section \<open>The pipeline\<close>

locale sound_passes =
  fixes cfg :: build_config and M :: "('v, 'w) machine" and passes :: "mir_pass list"
  assumes all_sound: "pass \<in> set passes \<Longrightarrow> sound_pass cfg M pass"
begin

lemma run_passes_sound:
  assumes "run_passes ps p = Some (c, p')" and "set ps \<subseteq> set passes" and "regular_program p" and "machine_ok M"
  shows "regular_program p' \<and> refines cfg M p p'"
  using assms
proof (induction ps arbitrary: c p)
  case (Cons pass ps)
  obtain c1 q where q1: "pass p = Some (c1, q)" using Cons.prems(1) by (cases "pass p") auto
  then obtain c2 where q: "pass p = Some (c1, q)" "run_passes ps q = Some (c2, p')"
    using Cons.prems(1) by (cases "run_passes ps q") auto
  have "sound_pass cfg M pass" using all_sound Cons.prems(2) by simp
  then have "regular_program q \<and> refines cfg M p q"
    using Cons.prems(3,4) q(1) unfolding sound_pass_def by blast
  moreover from this have "regular_program p' \<and> refines cfg M q p'"
    using Cons.IH [OF q(2)] Cons.prems by auto
  ultimately show ?case using refines_trans by blast
qed (simp add: refines_refl)

lemma pipeline_sound:
  assumes "pipeline_loop passes n p = Some (m, p')" and "regular_program p" and "machine_ok M"
  shows "regular_program p' \<and> refines cfg M p p'"
  using assms(1,2)
proof (induction "max_iterations - n" arbitrary: n p rule: less_induct)
  case less
  obtain c q where q: "run_passes passes p = Some (c, q)"
    using less.prems(1) by (subst (asm) pipeline_loop.simps) (auto split: option.splits)
  have s: "regular_program q \<and> refines cfg M p q"
    using run_passes_sound [OF q order_refl less.prems(2) assms(3)] .
  show ?case
  proof (cases "\<not> c \<or> max_iterations \<le> Suc n")
    case True
    then have "p' = q" using less.prems(1) q by (subst (asm) pipeline_loop.simps) simp
    then show ?thesis using s by simp
  next
    case False
    then have "pipeline_loop passes (Suc n) q = Some (m, p')"
      using less.prems(1) q by (subst (asm) pipeline_loop.simps) simp
    moreover have "max_iterations - Suc n < max_iterations - n" using False by (auto simp: max_iterations_def)
    ultimately have "regular_program p' \<and> refines cfg M q p'" using less.hyps s by blast
    then show ?thesis using s refines_trans by blast
  qed
qed

end

interpretation default: sound_passes cfg M "default_pipeline cfg"
  for cfg :: build_config and M :: "('v, 'w) machine"
  by unfold_locales
    (auto simp: default_pipeline_def sound_folding sound_propagation sound_copy sound_elimination
      sound_drops sound_escape)

text \<open>C3. On a machine whose value-computing instructions (the list \<open>pure_kind\<close>: operators, reads and the
  creation of objects, but no call, write, drop, output or task) leave the world alone and on which dropping
  a value again right away does nothing more, whatever a function of a regular program returns, with whatever
  effect on the world, its optimised form returns with the same effect. A program is regular if no name that
  an instruction reads or writes without reporting it is the result of an instruction of that list, or of a
  scalar instruction.\<close>

theorem pipeline_preserves_results:
  assumes "regular_program p" and "machine_ok M" and "run_pipeline cfg p = Some (rounds, p')"
    and "j < length (prog_functions p)"
    and "run_from cfg M (fn_blocks (prog_functions p ! j)) fuel label s = Returned vs w"
  shows "run_from cfg M (fn_blocks (prog_functions p' ! j)) fuel label s = Returned vs w"
proof -
  have "refines cfg M p p'"
    using default.pipeline_sound [OF _ assms(1,2)] assms(3) by (simp add: run_pipeline_def)
  then have "refines_function cfg M (prog_functions p ! j) (prog_functions p' ! j)"
    using assms(4) by (auto simp: refines_def dest: list_all2_nthD)
  then show ?thesis using assms(5) unfolding refines_function_def by blast
qed

end
