(* ===== verification/Mir_Checks.thy ===== *)
theory Mir_Checks
  imports Mir_Passes "HOL-Library.Sublist"
begin

text \<open>
  What the single passes and the validation compute: validation finds every use of an undefined
  value, folding is the reference arithmetic, escape analysis is the closure of its rules,
  duplicate drops collapse, the pipeline stops. The rest are cases in which the passes fall short.
\<close>

section \<open>Validation\<close>

text \<open>The names a use of which is checked.\<close>

fun checked_operand :: "mir_operand \<Rightarrow> sym set" where
  "checked_operand (Local n) = {n}"
| "checked_operand (Temp n) = {n}"
| "checked_operand op = {}"

fun checked_source :: "mir_instr_kind \<Rightarrow> sym set" where
  "checked_source (Borrow d src m) = {src}"
| "checked_source (Drop v) = {v}"
| "checked_source k = {}"

definition checked_names :: "mir_instr \<Rightarrow> sym set" where
  "checked_names i = (\<Union>op\<in>set (operands i). checked_operand op) \<union> checked_source (kind i)"

definition defined_names :: "mir_instr list \<Rightarrow> sym set" where
  "defined_names is = (\<Union>i\<in>set is. set_option (destination i))"

text \<open>Every use is of a name defined before it, in the order of the blocks.\<close>

fun well_defined :: "sym set \<Rightarrow> mir_instr list \<Rightarrow> bool" where
  "well_defined D [] = True"
| "well_defined D (i # is) =
     ((\<forall>n\<in>checked_names i. n \<in> D \<or> starts_with n ''@'') \<and> well_defined (D \<union> set_option (destination i)) is)"

lemma well_defined_append:
  "well_defined D (xs @ ys) \<longleftrightarrow> well_defined D xs \<and> well_defined (D \<union> defined_names xs) ys"
  by (induction xs arbitrary: D) (auto simp: defined_names_def Un_assoc)

lemma validate_operands_None:
  "validate_operands b D ops = None \<longleftrightarrow> (\<forall>op\<in>set ops. \<forall>n\<in>checked_operand op. known_value D n)"
  by (induction ops) (auto split: mir_operand.splits)

lemma validate_source_None:
  "validate_source b D k = None \<longleftrightarrow> (\<forall>n\<in>checked_source k. known_value D n)"
  by (cases k) auto

lemma set_define_dest: "set (define_dest i D) = set D \<union> set_option (destination i)"
  by (auto simp: define_dest_def split: option.splits)

lemma validate_step:
  "validate_instrs b D (i # is) =
     (if \<forall>n\<in>checked_names i. known_value D n then validate_instrs b (define_dest i D) is
      else validate_instrs b D [i])"
  using validate_operands_None [of b D "operands i"] validate_source_None [of b D "kind i"]
  by (auto simp: checked_names_def split: option.splits)

lemma validate_single_error:
  assumes "\<not> (\<forall>n\<in>checked_names i. known_value D n)"
  shows "\<exists>n\<in>checked_names i. \<not> known_value D n \<and> validate_instrs b D [i] = Inl (UndefinedValue n b)"
proof -
  have ops: "\<exists>op\<in>set ops. \<exists>n\<in>checked_operand op. \<not> known_value D n \<and> e = UndefinedValue n b"
    if "validate_operands b D ops = Some e" for ops e
    using that by (induction ops) (auto split: mir_operand.splits if_splits)
  have src: "\<exists>n\<in>checked_source k. \<not> known_value D n \<and> e = UndefinedValue n b"
    if "validate_source b D k = Some e" for k e
    using that by (cases k) (auto split: if_splits)
  show ?thesis
  proof (cases "validate_operands b D (operands i)")
    case (Some e)
    then show ?thesis using ops [OF Some] by (fastforce simp: checked_names_def)
  next
    case None
    then have "validate_source b D (kind i) \<noteq> None"
      using assms validate_operands_None [of b D "operands i"] validate_source_None [of b D "kind i"]
      by (auto simp: checked_names_def)
    then obtain e where e: "validate_source b D (kind i) = Some e" by blast
    from src [OF this] show ?thesis using None e by (auto simp: checked_names_def)
  qed
qed

lemma validate_instrs_result:
  "if well_defined (set D) is
   then \<exists>D'. validate_instrs b D is = Inr D' \<and> set D' = set D \<union> defined_names is
   else \<exists>i\<in>set is. \<exists>n\<in>checked_names i. n \<notin> set D \<and> validate_instrs b D is = Inl (UndefinedValue n b)"
proof (induction "is" arbitrary: D)
  case (Cons i "is")
  show ?case
  proof (cases "\<forall>n\<in>checked_names i. known_value D n")
    case True
    have dn: "set D \<union> defined_names (i # is) = set (define_dest i D) \<union> defined_names is"
      by (auto simp: set_define_dest defined_names_def)
    have wd: "well_defined (set D) (i # is) = well_defined (set (define_dest i D)) is"
      using True by (simp add: known_value_def set_define_dest)
    show ?thesis
      using Cons [of "define_dest i D"] True unfolding wd dn validate_step [of b D i "is"]
      by (auto simp: set_define_dest split: if_splits)
  next
    case False
    then obtain n where "n \<in> checked_names i" "\<not> known_value D n" "validate_instrs b D [i] = Inl (UndefinedValue n b)"
      using validate_single_error by blast
    moreover from this have "\<not> well_defined (set D) (i # is)" by (auto simp: known_value_def)
    ultimately show ?thesis
      using False unfolding validate_step [of b D i "is"] by (auto simp: known_value_def)
  qed
qed (simp add: defined_names_def)

definition undefined_use :: "mir_block list \<Rightarrow> sym set \<Rightarrow> mir_error \<Rightarrow> bool" where
  "undefined_use bs D e \<longleftrightarrow>
     (\<exists>b\<in>set bs. \<exists>i\<in>set (blk_instructions b). \<exists>n\<in>checked_names i.
        n \<notin> D \<and> e = UndefinedValue n (blk_label b))"

lemma undefined_use_Cons: "undefined_use bs D' e \<Longrightarrow> D \<subseteq> D' \<Longrightarrow> undefined_use (b # bs) D e"
  unfolding undefined_use_def by (meson list.set_intros(2) subsetD)

lemma validate_blocks_result:
  "if well_defined (set D) (block_instrs bs) then \<exists>D'. validate_blocks D bs = Inr D'
   else \<exists>e. undefined_use bs (set D) e \<and> validate_blocks D bs = Inl e"
proof (induction bs arbitrary: D)
  case (Cons b bs)
  note r = validate_instrs_result [of D "blk_instructions b" "blk_label b"]
  show ?case
  proof (cases "well_defined (set D) (blk_instructions b)")
    case True
    then obtain D' where d: "validate_instrs (blk_label b) D (blk_instructions b) = Inr D'"
        "set D' = set D \<union> defined_names (blk_instructions b)" using r by auto
    have wd: "well_defined (set D) (block_instrs (b # bs)) = well_defined (set D') (block_instrs bs)"
      using True by (simp add: block_instrs_def well_defined_append d(2))
    have "set D \<subseteq> set D'" using d(2) by simp
    then show ?thesis using Cons [of D'] d(1) undefined_use_Cons unfolding wd
      by (simp split: if_splits) blast
  next
    case False
    then obtain e where "validate_instrs (blk_label b) D (blk_instructions b) = Inl e" "undefined_use (b # bs) (set D) e"
      using r unfolding undefined_use_def by (metis list.set_intros(1))
    moreover have "\<not> well_defined (set D) (block_instrs (b # bs))"
      using False by (simp add: block_instrs_def well_defined_append)
    ultimately show ?thesis by auto
  qed
qed (simp add: block_instrs_def)

lemma well_defined_nth:
  "well_defined D is \<longleftrightarrow>
     (\<forall>k<length is. \<forall>n\<in>checked_names (is ! k). n \<in> D \<union> defined_names (take k is) \<or> starts_with n ''@'')"
proof (induction "is" arbitrary: D)
  case (Cons i "is")
  show ?case
    unfolding well_defined.simps Cons [of "D \<union> set_option (destination i)"] length_Cons All_less_Suc2
    by (simp add: defined_names_def Un_assoc)
qed simp


section \<open>Folding\<close>

text \<open>The operands on which the compiler itself panics.\<close>

definition division_overflows :: "binary_op \<Rightarrow> mir_const \<Rightarrow> mir_const \<Rightarrow> bool" where
  "division_overflows op a b \<longleftrightarrow> (op = Div \<or> op = Mod) \<and> a = CInt min_i64 \<and> b = CInt (- 1)"

lemma fold_int_exact:
  "fold_int op l r =
     (if division_overflows op (CInt l) (CInt r) then Panics
      else case const_binop cfg op (CInt l) (CInt r) of Some c \<Rightarrow> Folded c | None \<Rightarrow> NotFolded)"
  by (cases op)
    (simp_all add: const_binop_def int_compare_def int_arith_def fold_div_def fold_mod_def word_sless_alt
      word_sle_eq sint_eq_iff sint_zero_iff division_overflows_def)

text \<open>C35. Folding computes the exact result of an operator on two constants, wrapped to 64 bits, and
  folds nothing else; but the compiler panics on the least integer divided by minus one and, when
  built with overflow checks, on its negation.\<close>

theorem folding_is_exact:
  "fold_binop cfg op a b =
     (if division_overflows op a b then Panics
      else case const_binop cfg op a b of Some c \<Rightarrow> Folded c | None \<Rightarrow> NotFolded) \<and>
   fold_unaryop cfg u a =
     (if overflow_checks cfg \<and> u = Neg \<and> a = CInt min_i64 then Panics
      else case const_unop cfg u a of Some c \<Rightarrow> Folded c | None \<Rightarrow> NotFolded)"
proof
  have f: "fold_float cfg op l r = (case const_binop cfg op (CFloat l) (CFloat r) of Some c \<Rightarrow> Folded c | None \<Rightarrow> NotFolded)"
    for l r by (cases op) (simp_all add: const_binop_def)
  have b: "fold_bool op l r = (case const_binop cfg op (CBool l) (CBool r) of Some c \<Rightarrow> Folded c | None \<Rightarrow> NotFolded)"
    for l r by (cases op) (simp_all add: const_binop_def)
  show "fold_binop cfg op a b = (if division_overflows op a b then Panics
      else case const_binop cfg op a b of Some c \<Rightarrow> Folded c | None \<Rightarrow> NotFolded)"
    by (cases a; cases b) (auto simp: fold_binop_def fold_int_exact [of op _ _ cfg] f b division_overflows_def,
        auto simp: const_binop_def)
  show "fold_unaryop cfg u a = (if overflow_checks cfg \<and> u = Neg \<and> a = CInt min_i64 then Panics
      else case const_unop cfg u a of Some c \<Rightarrow> Folded c | None \<Rightarrow> NotFolded)"
    by (cases u; cases a) (auto simp: fold_unaryop_def const_unop_def)
qed

lemma fold_instr_again: "fold_instr cfg i = Some (c, i') \<Longrightarrow> fold_instr cfg i' = Some (False, i')"
  by (cases rule: fold_instr_cases [of cfg i]) (auto simp: fold_instr_def)

lemma pass_list_again:
  assumes "pass_list f xs = Some (c, ys)"
    and "\<And>x c y. x \<in> set xs \<Longrightarrow> f x = Some (c, y) \<Longrightarrow> f y = Some (False, y)"
  shows "pass_list f ys = Some (False, ys)"
  using assms
proof (induction xs arbitrary: c ys)
  case (Cons x xs)
  obtain c1 y where y: "f x = Some (c1, y)" using Cons.prems(1) by (cases "f x") auto
  then obtain c2 zs where zs: "pass_list f xs = Some (c2, zs)" "ys = y # zs"
    using Cons.prems(1) by (cases "pass_list f xs") auto
  have "pass_list f zs = Some (False, zs)" using Cons.IH [OF zs(1)] Cons.prems(2) by auto
  moreover have "f y = Some (False, y)" using Cons.prems(2) y by (meson list.set_intros(1))
  ultimately show ?case using zs(2) by simp
qed simp

lemma pass_blocks_again:
  assumes "pass_blocks g f = Some (c, f')" and "\<And>is c js. g is = Some (c, js) \<Longrightarrow> g js = Some (False, js)"
  shows "pass_blocks g f' = Some (False, f')"
proof -
  let ?g = "\<lambda>b. map_option (\<lambda>(c, is). (c, b\<lparr>blk_instructions := is\<rparr>)) (g (blk_instructions b))"
  obtain bs where bs: "pass_list ?g (fn_blocks f) = Some (c, bs)" "f' = f\<lparr>fn_blocks := bs\<rparr>"
    using assms(1) by (auto simp: pass_blocks_def)
  have "pass_list ?g bs = Some (False, bs)"
    by (rule pass_list_again [OF bs(1)]) (use assms(2) in \<open>fastforce\<close>)
  then show ?thesis using bs(2) by (simp add: pass_blocks_def)
qed

lemma pass_functions_again:
  assumes "pass_functions F p = Some (c, p')" and "\<And>f c g. F f = Some (c, g) \<Longrightarrow> F g = Some (False, g)"
  shows "pass_functions F p' = Some (False, p')"
proof -
  obtain fs where fs: "pass_list F (prog_functions p) = Some (c, fs)" "p' = p\<lparr>prog_functions := fs\<rparr>"
    using assms(1) by (auto simp: pass_functions_def)
  have "pass_list F fs = Some (False, fs)"
    by (rule pass_list_again [OF fs(1)]) (use assms(2) in auto)
  then show ?thesis using fs(2) by (simp add: pass_functions_def)
qed

text \<open>One round of folding is enough: a second one neither panics nor changes anything.\<close>

theorem folding_is_done_in_one_round:
  assumes "constant_folding cfg p = Some (c, p')"
  shows "constant_folding cfg p' = Some (False, p')"
  using assms unfolding constant_folding_def
  by (rule pass_functions_again)
    (erule pass_blocks_again, erule pass_list_again, rule fold_instr_again)

section \<open>Drops\<close>

definition drop_of :: "mir_instr \<Rightarrow> sym option" where
  "drop_of i = (case kind i of Drop v \<Rightarrow> Some v | _ \<Rightarrow> None)"

lemma dedup_drops_drop_of:
  "dedup_drops prev (i # is) =
     (if drop_of i \<noteq> None \<and> drop_of i = prev then dedup_drops prev is else i # dedup_drops (drop_of i) is)"
  by (cases "kind i") (auto simp: drop_of_def)

definition no_repeated_drop :: "mir_instr list \<Rightarrow> bool" where
  "no_repeated_drop is \<longleftrightarrow> successively (\<lambda>i j. drop_of i = None \<or> drop_of i \<noteq> drop_of j) is"

lemma dedup_drops_successive:
  "no_repeated_drop (dedup_drops prev is) \<and>
   (dedup_drops prev is \<noteq> [] \<longrightarrow> prev = None \<or> drop_of (hd (dedup_drops prev is)) \<noteq> prev)"
proof (induction "is" arbitrary: prev)
  case (Cons i "is")
  show ?case
    using Cons [of prev] Cons [of "drop_of i"]
    by (cases "dedup_drops (drop_of i) is") (auto simp: dedup_drops_drop_of no_repeated_drop_def simp del: dedup_drops.simps(2))
qed (simp add: no_repeated_drop_def)

lemma dedup_drops_fixed:
  "no_repeated_drop is \<Longrightarrow> is = [] \<or> prev = None \<or> drop_of (hd is) \<noteq> prev \<Longrightarrow> dedup_drops prev is = is"
proof (induction "is" arbitrary: prev)
  case (Cons i "is")
  have "dedup_drops (drop_of i) is = is"
    using Cons.prems(1) by (intro Cons.IH) (cases "is"; auto simp: no_repeated_drop_def)+
  then show ?case using Cons.prems(2) by (auto simp: dedup_drops_drop_of simp del: dedup_drops.simps(2))
qed simp

lemma subseq_dedup_drops: "subseq (dedup_drops prev is) is"
  by (induction "is" arbitrary: prev) (simp_all add: dedup_drops_drop_of list_emb_Cons del: dedup_drops.simps(2))

lemma dedup_drops_others:
  "filter (\<lambda>i. drop_of i = None) (dedup_drops prev is) = filter (\<lambda>i. drop_of i = None) is"
  by (induction "is" arbitrary: prev) (simp_all add: dedup_drops_drop_of del: dedup_drops.simps(2))

text \<open>Of a run of drops of one value a single one stays: afterwards no drop repeats the instruction
  before it, only drops were removed, and a second round changes nothing.\<close>

theorem repeated_drops_collapse:
  "no_repeated_drop (dedup_drops None is) \<and> subseq (dedup_drops None is) is \<and>
   filter (\<lambda>i. drop_of i = None) (dedup_drops None is) = filter (\<lambda>i. drop_of i = None) is \<and>
   drop_block (dedup_drops None is) = Some (False, dedup_drops None is)"
  using dedup_drops_successive [of None "is"]
  by (simp add: subseq_dedup_drops dedup_drops_others drop_block_def dedup_drops_fixed)

section \<open>Escape analysis\<close>

fun variables :: "mir_operand \<Rightarrow> sym set" where
  "variables (Local n) = {n}"
| "variables (Temp n) = {n}"
| "variables (Global n) = {n}"
| "variables op = {}"

text \<open>The operand is stored into, or moved or copied to, the name.\<close>

inductive stored :: "mir_instr_kind \<Rightarrow> sym \<Rightarrow> mir_operand \<Rightarrow> bool" where
  field: "(f, v) \<in> set fs \<Longrightarrow> stored (Struct (StructCreate d n fs)) d v"
| element: "v \<in> set elements \<Longrightarrow> stored (Collection (ArrayCreate d elements t)) d v"
| map_key: "(k, v) \<in> set entries \<Longrightarrow> stored (Collection (MapCreate d entries kt vt)) d k"
| map_value: "(k, v) \<in> set entries \<Longrightarrow> stored (Collection (MapCreate d entries kt vt)) d v"
| assigned: "stored (Assign d v) d v"
| moved: "stored (Move d v) d v"
| copied: "stored (Copy d v) d v"
| cloned: "stored (Clone d v) d v"

text \<open>The operand leaves the function: to foreign code, into a closure or into another task.\<close>

inductive leaves :: "mir_instr_kind \<Rightarrow> mir_operand \<Rightarrow> bool" where
  foreign: "v \<in> set args \<Longrightarrow> leaves (Calls (FfiCall d l s args)) v"
| captured: "v \<in> set captures \<Longrightarrow> leaves (Calls (ClosureCreate d f captures)) v"
| spawned: "v \<in> set captures \<Longrightarrow> leaves (Async (Spawn d f captures)) v"

text \<open>The names whose values may outlive the function.\<close>

inductive escapes :: "mir_function \<Rightarrow> sym \<Rightarrow> bool" for f where
  returned: "b \<in> set (fn_blocks f) \<Longrightarrow> blk_terminator b = Return vs \<Longrightarrow> v \<in> set vs \<Longrightarrow>
    n \<in> variables v \<Longrightarrow> escapes f n"
| leaving: "i \<in> set (block_instrs (fn_blocks f)) \<Longrightarrow> leaves (kind i) v \<Longrightarrow> n \<in> variables v \<Longrightarrow> escapes f n"
| within: "escapes f d \<Longrightarrow> i \<in> set (block_instrs (fn_blocks f)) \<Longrightarrow> stored (kind i) d v \<Longrightarrow>
    n \<in> variables v \<Longrightarrow> escapes f n"

lemma stored_iff: "stored k d v \<longleftrightarrow> (\<exists>ops. escape_flow k = Some (d, ops) \<and> v \<in> set ops)"
proof
  show "\<exists>ops. escape_flow k = Some (d, ops) \<and> v \<in> set ops" if "stored k d v"
    using that by cases force+
  show "stored k d v" if "\<exists>ops. escape_flow k = Some (d, ops) \<and> v \<in> set ops"
    using that by (cases k rule: escape_flow.cases) (auto intro: stored.intros)
qed

lemma leaves_iff: "leaves k v \<longleftrightarrow> v \<in> set (direct_escapes k)"
proof
  show "v \<in> set (direct_escapes k)" if "leaves k v" using that by cases auto
  show "leaves k v" if "v \<in> set (direct_escapes k)"
    using that by (cases k rule: direct_escapes.cases) (auto intro: leaves.intros)
qed

lemma root_iff:
  "v \<in> set (escape_roots (fn_blocks f)) \<longleftrightarrow>
     (\<exists>b\<in>set (fn_blocks f). \<exists>vs. blk_terminator b = Return vs \<and> v \<in> set vs) \<or>
     (\<exists>i\<in>set (block_instrs (fn_blocks f)). leaves (kind i) v)"
proof -
  have "w \<in> set (return_operands t) \<longleftrightarrow> (\<exists>vs. t = Return vs \<and> w \<in> set vs)" for w t
    by (cases t) (simp_all add: return_operands_def)
  then show ?thesis by (simp add: escape_roots_def block_instrs_def leaves_iff) blast
qed

lemma root: "op \<in> set (escape_roots (fn_blocks f)) \<Longrightarrow> n \<in> variables op \<Longrightarrow> escapes f n"
  by (auto simp: root_iff intro: returned leaving)

lemma flow:
  assumes "escapes f d" and "i \<in> set (block_instrs (fn_blocks f))" and "escape_flow (kind i) = Some (d, ops)"
    and "op \<in> set ops" and "n \<in> variables op"
  shows "escapes f n"
  using within [OF assms(1,2) _ assms(5)] assms(3,4) by (auto simp: stored_iff)

lemma set_mark: "set (snd (mark_operand_escaped s op)) = set (snd s) \<union> variables op"
  by (cases op) (auto simp: mark_operand_escaped_def)

lemma set_marks: "set (snd (foldl mark_operand_escaped s ops)) = set (snd s) \<union> (\<Union>op\<in>set ops. variables op)"
  by (induction ops arbitrary: s) (auto simp: set_mark)

lemma mark_quiet: "\<not> fst (mark_operand_escaped s op) \<Longrightarrow> mark_operand_escaped s op = s"
  by (cases op) (auto simp: mark_operand_escaped_def split: if_splits)

lemma mark_flag: "fst s \<Longrightarrow> fst (mark_operand_escaped s op)"
  by (cases op) (auto simp: mark_operand_escaped_def)

text \<open>A fold of steps that only raise the flag, and raise it when they change the state, changes
  nothing when the flag stays down.\<close>

lemma foldl_flag:
  assumes "\<And>x s. fst s \<Longrightarrow> fst (f s x)" and "fst s"
  shows "fst (foldl f s xs)"
  using assms(2)
proof (induction xs arbitrary: s)
  case (Cons x xs)
  show ?case using Cons.IH [OF assms(1) [OF Cons.prems]] by simp
qed simp

lemma foldl_quiet:
  assumes "\<And>x s. fst s \<Longrightarrow> fst (f s x)" and "\<And>x s. \<not> fst (f s x) \<Longrightarrow> f s x = s"
    and "\<not> fst (foldl f s xs)"
  shows "foldl f s xs = s \<and> (\<forall>x\<in>set xs. f s x = s)"
  using assms(3)
proof (induction xs arbitrary: s)
  case (Cons x xs)
  have "\<not> fst (f s x)" using Cons.prems foldl_flag [of f "f s x" xs, OF assms(1)] by auto
  then have "f s x = s" by (rule assms(2))
  then show ?case using Cons by simp
qed simp

lemma marks_quiet: "\<not> fst (foldl mark_operand_escaped s ops) \<Longrightarrow> foldl mark_operand_escaped s ops = s"
  using foldl_quiet [of mark_operand_escaped s ops, OF mark_flag mark_quiet] by blast

lemma propagate_escape_quiet: "\<not> fst (propagate_escape s i) \<Longrightarrow> propagate_escape s i = s"
  by (auto simp: propagate_escape_def intro: marks_quiet split: option.splits if_splits)

lemma propagate_escape_flag: "fst s \<Longrightarrow> fst (propagate_escape s i)"
  using foldl_flag [of mark_operand_escaped s, OF mark_flag]
  by (simp add: propagate_escape_def split: option.splits)

lemma sweep_sound:
  assumes "set (snd s) \<subseteq> Collect (escapes f)" and "set is \<subseteq> set (block_instrs (fn_blocks f))"
  shows "set (snd (escape_sweep is s)) \<subseteq> Collect (escapes f)"
  using assms unfolding escape_sweep_def
proof (induction "is" arbitrary: s)
  case (Cons i "is")
  have "set (snd (propagate_escape s i)) \<subseteq> Collect (escapes f)"
    using Cons.prems flow [of f _ i]
    by (auto simp: propagate_escape_def set_marks split: option.splits)
  then show ?case using Cons by simp
qed simp

lemma escape_loop_sound:
  assumes "set esc \<subseteq> Collect (escapes f)" and "is = block_instrs (fn_blocks f)"
  shows "set (escape_loop is esc) \<subseteq> Collect (escapes f)"
  using assms
proof (induction "is" esc rule: escape_loop.induct)
  case (1 "is" esc)
  obtain c esc' where s: "escape_sweep is (False, esc) = (c, esc')" by fastforce
  have e: "set esc' \<subseteq> Collect (escapes f)"
    using sweep_sound [of "(False, esc)" f "is"] 1(2,3) s by simp
  show ?case
    using 1(1) [OF s [symmetric]] e 1(3) s by (subst escape_loop.simps) simp
qed

lemma escape_loop_closed:
  "set esc \<subseteq> set (escape_loop is esc) \<and>
   (\<forall>i d ops. i \<in> set is \<and> escape_flow (kind i) = Some (d, ops) \<and> d \<in> set (escape_loop is esc) \<longrightarrow>
      (\<Union>op\<in>set ops. variables op) \<subseteq> set (escape_loop is esc))"
proof (induction "is" esc rule: escape_loop.induct)
  case (1 "is" esc)
  obtain c esc' where s: "escape_sweep is (False, esc) = (c, esc')" by fastforce
  have sub: "set esc \<subseteq> set esc'" using grows_sweep [of "is" "(False, esc)"] s by (simp add: grows_def)
  show ?case
  proof (cases c)
    case True
    have "escape_loop is esc = escape_loop is esc'" using s True by (subst escape_loop.simps) simp
    then show ?thesis using 1 [OF s [symmetric] True] sub by auto
  next
    case False
    have loop: "escape_loop is esc = esc'" using s False by (subst escape_loop.simps) simp
    have q: "escape_sweep is (False, esc) = (False, esc) \<and> (\<forall>i\<in>set is. propagate_escape (False, esc) i = (False, esc))"
      unfolding escape_sweep_def
      by (rule foldl_quiet [OF propagate_escape_flag propagate_escape_quiet])
        (use s False in \<open>auto simp: escape_sweep_def\<close>)
    then have eq: "esc' = esc" using s by simp
    have "(\<Union>op\<in>set ops. variables op) \<subseteq> set esc"
      if i: "i \<in> set is" "escape_flow (kind i) = Some (d, ops)" "d \<in> set esc" for i d ops
    proof -
      have "foldl mark_operand_escaped (False, esc) ops = (False, esc)"
        using q i by (auto simp: propagate_escape_def)
      then show ?thesis using set_marks [of "(False, esc)" ops] by auto
    qed
    then show ?thesis unfolding loop eq by blast
  qed
qed

lemma escaped_names_exact: "set (escaped_names f) = Collect (escapes f)"
proof
  let ?roots = "snd (foldl mark_operand_escaped (False, []) (escape_roots (fn_blocks f)))"
  have roots: "set ?roots = (\<Union>op\<in>set (escape_roots (fn_blocks f)). variables op)" by (simp add: set_marks)
  have closed: "set ?roots \<subseteq> set (escaped_names f)"
    "\<And>i d ops. i \<in> set (block_instrs (fn_blocks f)) \<Longrightarrow> escape_flow (kind i) = Some (d, ops) \<Longrightarrow>
       d \<in> set (escaped_names f) \<Longrightarrow> (\<Union>op\<in>set ops. variables op) \<subseteq> set (escaped_names f)"
    using escape_loop_closed [of ?roots "block_instrs (fn_blocks f)"] unfolding escaped_names_def by blast+
  show "set (escaped_names f) \<subseteq> Collect (escapes f)"
    unfolding escaped_names_def by (rule escape_loop_sound) (auto simp: roots intro: root)
  show "Collect (escapes f) \<subseteq> set (escaped_names f)"
  proof (intro subsetI, elim CollectE)
    fix n
    assume "escapes f n"
    then show "n \<in> set (escaped_names f)"
    proof induction
      case (returned b vs v n)
      then have "n \<in> set ?roots" unfolding roots using root_iff [of v f] by blast
      then show ?case using closed(1) by blast
    next
      case (leaving i v n)
      then have "n \<in> set ?roots" unfolding roots using root_iff [of v f] by blast
      then show ?case using closed(1) by blast
    next
      case (within d i v n)
      then obtain ops where "escape_flow (kind i) = Some (d, ops)" "v \<in> set ops"
        by (auto simp: stored_iff)
      then show ?case using closed(2) within(2,4,5) by blast
    qed
  qed
qed

lemma analyze_states:
  "foldl (state_of E) m is n =
     (if n \<in> defined_names is then Some (if n \<in> set E then Escapes else NoEscape) else m n)"
proof (induction "is" arbitrary: m)
  case (Cons i "is")
  show ?case unfolding foldl_Cons Cons
    by (cases "destination i") (simp_all add: state_of_def defined_names_def)
qed (simp add: defined_names_def)


section \<open>Rounds of the pipeline\<close>

lemma pipeline_loop_rounds:
  assumes "pipeline_loop passes n p = Some (m, p')" and "n < max_iterations"
  shows "n < m \<and> m \<le> max_iterations \<and>
    (m < max_iterations \<longrightarrow> (\<exists>q. run_passes passes q = Some (False, p')))"
  using assms
proof (induction "max_iterations - n" arbitrary: n p rule: less_induct)
  case less
  obtain c q where q: "run_passes passes p = Some (c, q)"
    using less.prems(1) by (subst (asm) pipeline_loop.simps) (auto split: option.splits)
  show ?case
  proof (cases "\<not> c \<or> max_iterations \<le> Suc n")
    case True
    then have "m = Suc n" "p' = q" using less.prems(1) q by (subst (asm) pipeline_loop.simps; simp)+
    then show ?thesis using True q less.prems(2) by auto
  next
    case False
    then have "pipeline_loop passes (Suc n) q = Some (m, p')"
      using less.prems(1) q by (subst (asm) pipeline_loop.simps) simp
    then show ?thesis using less.hyps [of "Suc n" q] less.prems(2) False by force
  qed
qed

text \<open>The pipeline stops after at most a hundred rounds; when it needs fewer, its last round
  reported no change.\<close>

theorem pipeline_stops:
  assumes "run_pipeline cfg p = Some (rounds, p')"
  shows "0 < rounds \<and> rounds \<le> 100 \<and>
    (rounds < 100 \<longrightarrow> (\<exists>q. run_passes (default_pipeline cfg) q = Some (False, p')))"
  using pipeline_loop_rounds [OF assms [unfolded run_pipeline_def]] by (simp add: max_iterations_def)

lemma pipeline_loop_stuck:
  assumes "run_passes passes p = Some (True, p)" and "n < max_iterations"
  shows "pipeline_loop passes n p = Some (max_iterations, p)"
  using assms(2)
proof (induction "max_iterations - n" arbitrary: n rule: less_induct)
  case less
  show ?case
  proof (cases "max_iterations \<le> Suc n")
    case True
    then show ?thesis using assms(1) less.prems by (subst pipeline_loop.simps) simp
  next
    case False
    then have "pipeline_loop passes (Suc n) p = Some (max_iterations, p)"
      by (intro less.hyps) auto
    then show ?thesis using assms(1) False by (subst pipeline_loop.simps) simp
  qed
qed

section \<open>Samples\<close>

definition instr :: "mir_instr_kind \<Rightarrow> mir_instr" where
  "instr k = \<lparr>kind = k, instr_span = \<lparr>span_start = 0, span_end = 0\<rparr>\<rparr>"

definition one_block :: "mir_instr_kind list \<Rightarrow> mir_terminator \<Rightarrow> mir_function" where
  "one_block ks t = (new_function ''main'')
     \<lparr>fn_blocks := [\<lparr>blk_label = ''entry'', blk_instructions = map instr ks, blk_terminator = t\<rparr>]\<rparr>"

definition one_function :: "mir_function \<Rightarrow> mir_program" where
  "one_function f = new_program\<lparr>prog_functions := [f]\<rparr>"

text \<open>A constant passed to a call: the pass reports a replacement in every round and makes none.\<close>

definition constant_argument :: mir_function where
  "constant_argument =
     one_block [Assign ''x'' (Const (CInt 1)), Calls (Call None ''f'' [Local ''x''])] (Return [])"

definition analysed :: "mir_function \<Rightarrow> mir_function" where
  "analysed f = f\<lparr>fn_escape_info := Some (analyze_function f)\<rparr>"

lemma one_function_same: "F f = Some (c, f) \<Longrightarrow> pass_functions F (one_function f) = Some (c, one_function f)"
  by (simp add: pass_functions_def one_function_def)

lemma one_block_same:
  assumes "fn_blocks f = [b]" and "g (blk_instructions b) = Some (c, blk_instructions b)"
  shows "pass_blocks g f = Some (c, f)"
  using assms by (cases f) (simp add: pass_blocks_def)

lemma constant_argument_round:
  assumes "fn_blocks f = fn_blocks constant_argument"
  shows "run_passes (default_pipeline cfg) (one_function f) = Some (True, one_function (analysed f))"
proof -
  define call where "call = instr (Calls (Call None ''f'' [Local ''x'']))"
  define b where "b = \<lparr>blk_label = ''entry'', blk_instructions = [instr (Assign ''x'' (Const (CInt 1))), call],
    blk_terminator = Return []\<rparr>"
  have f: "fn_blocks f = [b]"
    by (simp add: assms b_def call_def constant_argument_def one_block_def)
  note defs = b_def call_def instr_def
  have "constant_folding cfg (one_function f) = Some (False, one_function f)"
    unfolding constant_folding_def
    by (intro one_function_same one_block_same [OF f]) (simp add: defs fold_instr_def)
  moreover have "constant_propagation (one_function f) = Some (True, one_function f)"
    unfolding constant_propagation_def
    by (intro one_function_same one_block_same [OF f])
      (simp add: defs replacements_def replace_operands_def track_constant_def known_operand_def
        operands_def List.map_filter_def)
  moreover have "copy_propagation (one_function f) = Some (False, one_function f)"
    unfolding copy_propagation_def by (intro one_function_same one_block_same [OF f]) (simp add: copy_block_def)
  moreover have "dead_code_elimination (one_function f) = Some (False, one_function f)"
    unfolding dead_code_elimination_def
    by (intro one_function_same)
      (simp add: eliminate_dead_def, intro one_block_same [OF f],
        simp add: f defs retain_def keep_instr_def used_names_def operands_def destination_def)
  moreover have "drop_optimization (one_function f) = Some (False, one_function f)"
    unfolding drop_optimization_def
    by (intro one_function_same one_block_same [OF f]) (simp add: defs drop_block_def)
  moreover have "escape_analysis (one_function f) = Some (False, one_function (analysed f))"
    by (simp add: escape_analysis_def one_function_def analysed_def)
  ultimately show ?thesis by (simp add: default_pipeline_def)
qed

lemma constant_argument_rounds:
  "run_pipeline cfg (one_function constant_argument) =
     Some (100, one_function (analysed constant_argument))"
proof -
  have again: "analysed (analysed constant_argument) = analysed constant_argument"
    by (simp add: analysed_def analyze_function_def escaped_names_def)
  have "run_pipeline cfg (one_function constant_argument) =
      pipeline_loop (default_pipeline cfg) (Suc 0) (one_function (analysed constant_argument))"
    unfolding run_pipeline_def
    by (subst pipeline_loop.simps) (simp add: constant_argument_round max_iterations_def)
  also have "\<dots> = Some (max_iterations, one_function (analysed constant_argument))"
  proof (rule pipeline_loop_stuck)
    have "fn_blocks (analysed constant_argument) = fn_blocks constant_argument" by (simp add: analysed_def)
    from constant_argument_round [OF this, of cfg]
    show "run_passes (default_pipeline cfg) (one_function (analysed constant_argument)) =
        Some (True, one_function (analysed constant_argument))" by (simp only: again)
  qed (simp add: max_iterations_def)
  finally show ?thesis by (simp add: max_iterations_def)
qed

text \<open>Constant propagation reports a change whenever it finds an operand it knows, also where it
  cannot replace it: a program with a constant argument keeps the pipeline busy for all of its
  hundred rounds, though it never changes.\<close>

theorem constant_argument_takes_all_rounds:
  "run_pipeline cfg (one_function constant_argument) =
     Some (100, one_function (analysed constant_argument))"
  by (rule constant_argument_rounds)

section \<open>Where the passes fall short\<close>

definition dropped_clone :: mir_function where
  "dropped_clone =
     (one_block [Clone ''%1'' (Local ''x''), Drop ''%1''] (Return []))\<lparr>fn_params := [\<lparr>param_name = ''x'', param_type = TypeId 1\<rparr>]\<rparr>"

text \<open>Dead code elimination looks at \<open>operands\<close> only, which does not report what a drop reads: it
  removes the definition of a value that is dropped later, and what validation accepted it now
  rejects.\<close>

theorem elimination_breaks_drops:
  "validate_function dropped_clone = Inr () \<and>
   (\<exists>f. eliminate_dead dropped_clone = Some (True, f) \<and>
     validate_function f = Inl (UndefinedValue ''%1'' ''entry''))"
proof -
  define f where "f = dropped_clone\<lparr>fn_blocks :=
    [\<lparr>blk_label = ''entry'', blk_instructions = [instr (Drop ''%1'')], blk_terminator = Return []\<rparr>]\<rparr>"
  have "eliminate_dead dropped_clone = Some (True, f)"
    by (simp add: eliminate_dead_def pass_blocks_def dropped_clone_def one_block_def instr_def f_def
        retain_def keep_instr_def used_names_def operands_def destination_def)
  moreover have "validate_function f = Inl (UndefinedValue ''%1'' ''entry'')"
    by (simp add: validate_function_def predefined_def f_def dropped_clone_def instr_def operands_def
        known_value_def starts_with_def one_block_def new_function_def)
  moreover have "validate_function dropped_clone = Inr ()"
    by (simp add: validate_function_def predefined_def dropped_clone_def instr_def operands_def
        known_value_def starts_with_def one_block_def new_function_def define_dest_def destination_def)
  ultimately show ?thesis by blast
qed

text \<open>Constant propagation forgets a constant only when \<open>destination\<close> reports the new definition,
  which it does not for the reads of enum tags and payloads: the constant outlives the
  redefinition of its name.\<close>

theorem propagation_keeps_stale_constant:
  "map kind (snd (propagate_block Map.empty (map instr
      [Assign ''t'' (Const (CInt 1)), Enum (EnumGetTag ''t'' (Local ''e'') ''Color''), Assign ''y'' (Local ''t'')]))) =
    [Assign ''t'' (Const (CInt 1)), Enum (EnumGetTag ''t'' (Local ''e'') ''Color''), Assign ''y'' (Const (CInt 1))]"
  by (simp add: instr_def replacements_def replace_operands_def track_constant_def known_operand_def
      operands_def destination_def List.map_filter_def maybe_replace_def)

section \<open>Witnesses\<close>

text \<open>A machine whose world is what was printed.\<close>

definition printer :: "(unit, unit val option list) machine" where
  "printer = \<lparr>m_exec = \<lambda>k vs w. (case k of Print ops ts sep \<Rightarrow> Some ([], w @ vs) | _ \<Rightarrow> None),
     m_binop = \<lambda>op a b. None, m_unop = \<lambda>op a. None\<rparr>"

definition plain_config :: build_config where
  "plain_config = \<lparr>overflow_checks = True, f_add = (+), f_sub = (-), f_mul = (*), f_div = (\<lambda>x y. x),
     f_neg = uminus, f_eq = (=), f_lt = (<), f_le = (\<le>)\<rparr>"

definition print_product :: mir_function where
  "print_product =
     one_block [BinaryOp ''a'' Add (Const (CInt 2)) (Const (CInt 3)),
                BinaryOp ''b'' Mul (Temp ''a'') (Const (CInt 7)), Print [Temp ''b''] [TypeId 1] True]
       (Return [Temp ''a''])"

lemma printer_ok: "machine_ok printer"
  by (auto simp: machine_ok_def printer_def split: mir_instr_kind.splits)

lemma print_product_regular: "regular_program (one_function print_product)"
  by (simp add: regular_program_def one_function_def regular_def regular_shapes_def function_shapes_def
      print_product_def one_block_def block_instrs_def instr_def shape_def hidden_names_def)

lemma print_product_run:
  "run_from plain_config printer (fn_blocks (prog_functions (one_function print_product) ! 0)) 1 ''entry''
     (Map.empty, []) = Returned [Some (Scalar (CInt 5))] [Some (Scalar (CInt 35))]"
  by (simp add: one_function_def print_product_def one_block_def instr_def exec_kind_def binop_value_def
      const_binop_def int_compare_def int_arith_def printer_def next_label_def all_operands_def all_dests_def)

lemma pipeline_preserves_witness:
  "\<exists>rounds p'. run_pipeline plain_config (one_function print_product) = Some (rounds, p') \<and>
     run_from plain_config printer (fn_blocks (prog_functions p' ! 0)) 1 ''entry'' (Map.empty, []) =
       Returned [Some (Scalar (CInt 5))] [Some (Scalar (CInt 35))]"
proof -
  have "\<not> Option.is_none (run_pipeline plain_config (one_function print_product))" by code_simp
  then obtain rounds p' where r: "run_pipeline plain_config (one_function print_product) = Some (rounds, p')"
    by (cases "run_pipeline plain_config (one_function print_product)") auto
  from pipeline_preserves_results [OF print_product_regular printer_ok r _ print_product_run] r
  show ?thesis by (auto simp: one_function_def)
qed

lemma pipeline_stops_witness:
  "\<exists>rounds p'. run_pipeline plain_config (one_function constant_argument) = Some (rounds, p') \<and> rounds \<le> 100"
  using constant_argument_rounds [of plain_config] pipeline_stops by blast

lemma one_round_witness:
  "\<exists>p'. constant_folding plain_config (one_function print_product) = Some (True, p') \<and>
     constant_folding plain_config p' = Some (False, p')"
proof -
  have "\<exists>p'. constant_folding plain_config (one_function print_product) = Some (True, p')"
    by (simp add: constant_folding_def pass_functions_def pass_blocks_def one_function_def print_product_def
        one_block_def instr_def fold_instr_def fold_result_def fold_binop_def)
  then show ?thesis using folding_is_done_in_one_round by blast
qed


end
