(* ===== verification/Core_Span.thy ===== *)
theory Core_Span
  imports Doo_Prelude
begin

text \<open>
  Source locations (\<open>doo_core/src/span.rs\<close>): spans of byte offsets, and the index that turns an
  offset into a line and a column. Offsets are 32-bit in the source; the lexer refuses inputs of
  more than ten megabytes, so none of the sums below wraps and natural numbers stand for them.
\<close>

section \<open>Spans\<close>

record src_span =
  sp_file_id :: nat
  sp_start :: nat
  sp_end :: nat

definition new_span :: "nat \<Rightarrow> nat \<Rightarrow> nat \<Rightarrow> src_span" where
  "new_span file_id start stop = \<lparr>sp_file_id = file_id, sp_start = start, sp_end = stop\<rparr>"

definition span_from_offsets :: "nat \<Rightarrow> nat \<Rightarrow> src_span" where
  "span_from_offsets start stop = new_span 0 start stop"

definition empty_span :: src_span where
  "empty_span = new_span 0 0 0"

definition dummy_span :: src_span where
  "dummy_span = new_span 0xFFFFFFFF 0 0"

text \<open>The length underflows, a panic, when the end is before the start.\<close>

definition span_len :: "src_span \<Rightarrow> nat option" where
  "span_len s = (if sp_start s \<le> sp_end s then Some (sp_end s - sp_start s) else None)"

definition span_is_empty :: "src_span \<Rightarrow> bool" where
  "span_is_empty s \<longleftrightarrow> sp_start s = sp_end s"

definition span_is_dummy :: "src_span \<Rightarrow> bool" where
  "span_is_dummy s \<longleftrightarrow> sp_file_id s = 0xFFFFFFFF"

definition merge_spans :: "src_span \<Rightarrow> src_span \<Rightarrow> src_span" where
  "merge_spans a b =
     \<lparr>sp_file_id = sp_file_id a, sp_start = min (sp_start a) (sp_start b), sp_end = max (sp_end a) (sp_end b)\<rparr>"

text \<open>The characters of a source that begin at byte offsets.\<close>

fun char_indices :: "nat \<Rightarrow> ustr \<Rightarrow> (nat \<times> nat) list" where
  "char_indices i [] = []"
| "char_indices i (c # s) = (i, c) # char_indices (i + utf8_size c) s"

text \<open>Slicing by byte offsets; a slice that does not begin or end at a character is a panic.\<close>

fun drop_bytes :: "nat \<Rightarrow> ustr \<Rightarrow> ustr option" where
  "drop_bytes n s =
     (if n = 0 then Some s
      else case s of [] \<Rightarrow> None | c # r \<Rightarrow> if utf8_size c \<le> n then drop_bytes (n - utf8_size c) r else None)"

fun take_bytes :: "nat \<Rightarrow> ustr \<Rightarrow> ustr option" where
  "take_bytes n s =
     (if n = 0 then Some []
      else case s of
             [] \<Rightarrow> None
           | c # r \<Rightarrow> if utf8_size c \<le> n then map_option ((#) c) (take_bytes (n - utf8_size c) r) else None)"

declare drop_bytes.simps [simp del] take_bytes.simps [simp del]

definition extract_span :: "src_span \<Rightarrow> ustr \<Rightarrow> ustr option" where
  "extract_span s source =
     Option.bind (span_len s) (\<lambda>n. Option.bind (drop_bytes (sp_start s) source) (take_bytes n))"

section \<open>Lines\<close>

definition new_line_index :: "ustr \<Rightarrow> nat list" where
  "new_line_index source =
     0 # map (\<lambda>(i, c). i + 1) (filter (\<lambda>(i, c). c = 10) (char_indices 0 source))"

text \<open>\<open>slice::binary_search\<close> on a sorted slice without repetitions: the index of the element, or the
  index at which it would be inserted.\<close>

definition binary_search :: "nat list \<Rightarrow> nat \<Rightarrow> nat + nat" where
  "binary_search xs x =
     (let i = length (takeWhile (\<lambda>y. y < x) xs) in if i < length xs \<and> xs ! i = x then Inl i else Inr i)"

definition line_col :: "nat list \<Rightarrow> nat \<Rightarrow> nat \<times> nat" where
  "line_col starts off =
     (let line = (case binary_search starts off of Inl i \<Rightarrow> i | Inr i \<Rightarrow> i - 1);
          start = (if line < length starts then starts ! line else 0)
      in (line + 1, off - start + 1))"

text \<open>Line 0 is not a line: the subtraction underflows, a panic in a debug build and no line in a
  release build.\<close>

definition line_range :: "nat list \<Rightarrow> nat \<Rightarrow> src_span option" where
  "line_range starts line =
     (let i = line - 1
      in if 0 < line \<and> i < length starts
         then Some (new_span 0 (starts ! i) (if i + 1 < length starts then starts ! (i + 1) else starts ! i))
         else None)"

section \<open>What they compute\<close>

text \<open>The newlines that end before an offset, and the offset at which the line begins.\<close>

definition newlines_before :: "ustr \<Rightarrow> nat \<Rightarrow> nat" where
  "newlines_before source off = length (filter (\<lambda>(i, c). c = 10 \<and> i < off) (char_indices 0 source))"

lemma char_indices_ge: "(i, c) \<in> set (char_indices k s) \<Longrightarrow> k \<le> i"
  by (induction s arbitrary: k) fastforce+

lemma utf8_size_pos [simp]: "0 < utf8_size c"
  by (simp add: utf8_size_def)

lemma sorted_char_indices: "sorted_wrt (<) (map fst (char_indices k s))"
proof (induction s arbitrary: k)
  case (Cons c s)
  have "k < i" if "(i, d) \<in> set (char_indices (k + utf8_size c) s)" for i d
    using char_indices_ge [OF that] utf8_size_pos [of c] by linarith
  then show ?case using Cons by auto
qed simp

lemma sorted_line_starts: "sorted_wrt (<) (new_line_index source)"
proof -
  have "sorted_wrt (<) (map fst (filter (\<lambda>(i, c). c = 10) (char_indices 0 source)))"
    using sorted_char_indices [of 0 source] by (simp add: sorted_wrt_map sorted_wrt_filter)
  then show ?thesis
    by (simp add: new_line_index_def sorted_wrt_map case_prod_beta)
qed

lemma takeWhile_sorted:
  assumes "sorted_wrt (<) (xs :: nat list)" and "\<And>a b. a < b \<Longrightarrow> P b \<Longrightarrow> P a"
  shows "takeWhile P xs = filter P xs"
  using assms(1)
proof (induction xs)
  case (Cons y xs)
  have "filter P xs = []" if "\<not> P y"
    using Cons.prems assms(2) that by (auto simp: filter_empty_conv)
  then show ?case using Cons by simp
qed simp

lemma filter_le_nth:
  assumes "sorted_wrt (<) (xs :: nat list)" and "i < length (filter (\<lambda>y. y \<le> x) xs)"
  shows "xs ! i = filter (\<lambda>y. y \<le> x) xs ! i"
proof -
  have "filter (\<lambda>y. y \<le> x) xs = takeWhile (\<lambda>y. y \<le> x) xs"
    using takeWhile_sorted [OF assms(1), of "\<lambda>y. y \<le> x"] by simp
  then show ?thesis using assms(2) by (simp add: takeWhile_nth)
qed

lemma starts_before:
  "length (filter (\<lambda>y. y \<le> off) (new_line_index source)) = Suc (newlines_before source off)"
  by (simp add: new_line_index_def newlines_before_def filter_map comp_def Suc_le_eq)
    (rule arg_cong [where f = length], rule filter_cong, auto)

lemma count_le:
  assumes "sorted_wrt (<) (xs :: nat list)"
  shows "length (filter (\<lambda>y. y \<le> x) xs) = length (filter (\<lambda>y. y < x) xs) + (if x \<in> set xs then 1 else 0)"
  using assms by (induction xs) (auto simp: filter_empty_conv)

lemma binary_search_line:
  assumes "sorted_wrt (<) (xs :: nat list)"
  shows "(case binary_search xs x of Inl i \<Rightarrow> i | Inr i \<Rightarrow> i - 1) = length (filter (\<lambda>y. y \<le> x) xs) - 1"
proof -
  let ?i = "length (filter (\<lambda>y. y < x) xs)"
  have i: "length (takeWhile (\<lambda>y. y < x) xs) = ?i"
    using takeWhile_sorted [OF assms, of "\<lambda>y. y < x"] by simp
  have "x \<in> set xs \<longleftrightarrow> ?i < length xs \<and> xs ! ?i = x"
  proof
    assume x: "x \<in> set xs"
    then have len: "length (filter (\<lambda>y. y \<le> x) xs) = Suc ?i" using count_le [OF assms, of x] by simp
    then have "?i < length xs" using length_filter_le [of "\<lambda>y. y \<le> x" xs] by simp
    moreover have "xs ! ?i \<le> x" using filter_le_nth [OF assms, of ?i x] len nth_mem [of ?i "filter (\<lambda>y. y \<le> x) xs"]
      by simp
    moreover have "\<not> xs ! ?i < x"
      using nth_length_takeWhile [of "\<lambda>y. y < x" xs] calculation(1) i by simp
    ultimately show "?i < length xs \<and> xs ! ?i = x" by simp
  qed (metis nth_mem)
  then show ?thesis using count_le [OF assms, of x] by (simp add: binary_search_def Let_def i)
qed

definition line_begin :: "ustr \<Rightarrow> nat \<Rightarrow> nat" where
  "line_begin source off = Max {y \<in> set (new_line_index source). y \<le> off}"

lemma last_filter_Max:
  assumes "sorted_wrt (<) (xs :: nat list)" and "filter P xs \<noteq> []"
  shows "filter P xs ! (length (filter P xs) - 1) = Max {y \<in> set xs. P y}"
proof -
  let ?ys = "filter P xs"
  have srt: "sorted_wrt (<) ?ys" using assms(1) by (rule sorted_wrt_filter)
  have "Max (set ?ys) = last ?ys"
  proof (rule Max_eqI)
    show "y \<le> last ?ys" if "y \<in> set ?ys" for y
    proof -
      obtain k where k: "k < length ?ys" "y = ?ys ! k" using \<open>y \<in> set ?ys\<close> by (metis in_set_conv_nth)
      show ?thesis
        using sorted_wrt_nth_less [OF srt, of k "length ?ys - 1"] k assms(2)
        by (cases "k = length ?ys - 1") (auto simp: last_conv_nth intro: less_imp_le)
    qed
    show "last ?ys \<in> set ?ys" using assms(2) by (rule last_in_set)
  qed simp
  then show ?thesis using assms(2) by (simp add: last_conv_nth)
qed

text \<open>Line and column of an offset: one more than the newlines before it, and one more than its
  distance from the last line start that is not after it.\<close>

theorem line_col_counts_lines:
  "line_col (new_line_index source) off =
     (newlines_before source off + 1, off - line_begin source off + 1)"
proof -
  let ?xs = "new_line_index source" and ?ys = "filter (\<lambda>y. y \<le> off) (new_line_index source)"
  have len: "length ?ys = Suc (newlines_before source off)" by (rule starts_before)
  then have line: "(case binary_search ?xs off of Inl i \<Rightarrow> i | Inr i \<Rightarrow> i - 1) = newlines_before source off"
    using binary_search_line [OF sorted_line_starts, of source off] by simp
  have "newlines_before source off < length ?xs"
    using len length_filter_le [of "\<lambda>y. y \<le> off" ?xs] by simp
  moreover have "?xs ! newlines_before source off = line_begin source off"
  proof -
    have ne: "?ys \<noteq> []" using len by (cases ?ys) simp_all
    have "?xs ! newlines_before source off = ?ys ! newlines_before source off"
      using filter_le_nth [OF sorted_line_starts, of "newlines_before source off" off source] len by simp
    also have "\<dots> = line_begin source off"
      using last_filter_Max [OF sorted_line_starts ne] len by (simp add: line_begin_def)
    finally show ?thesis .
  qed
  ultimately show ?thesis by (simp add: line_col_def line Let_def)
qed

text \<open>The range of the last line is empty whatever the line holds: without a next line its end is its
  start.\<close>

theorem last_line_range_is_empty:
  "line_range (new_line_index (ascii ''ab'')) 1 = Some (new_span 0 0 0)"
  by code_simp

end
