(* ===== verification/Sem_Scope.thy ===== *)
theory Sem_Scope
  imports Core_Span "HOL-Library.Word"
begin

text \<open>
  The scope manager of the semantic analysis (\<open>doo_analysis/src/semantic/scope.rs\<close>): a vector of
  scopes linked by their parent index, the declaration and lookup of symbols through the chain of
  parents, and the suggestion of a similar name for an unknown one.

  A scope's hash map is an association list without repeated names; the order in which its keys
  are visited is a parameter. A loop along the parents is a partial function: \<open>None\<close> is an index
  out of range (a panic) or no end.
\<close>

datatype symbol_kind =
  SkVariable | SkParameter | SkFunction | SkStruct | SkEnum | SkType | SkImport | SkLoopVar | SkConst | SkStatic

record symbol =
  sy_name :: ustr
  sy_kind :: symbol_kind
  sy_type_id :: "32 word option"
  sy_mutable :: bool
  sy_span :: src_span
  sy_used :: bool

datatype scope_kind = ScGlobal | ScFunction | ScBlock | ScLoop

record scope =
  sc_parent :: "nat option"
  sc_symbols :: "(ustr \<times> symbol) list"
  sc_kind :: scope_kind

definition new_scope :: "scope_kind \<Rightarrow> nat option \<Rightarrow> scope" where
  "new_scope kind parent = \<lparr>sc_parent = parent, sc_symbols = [], sc_kind = kind\<rparr>"

record scope_manager =
  sm_scopes :: "scope list"
  sm_current :: nat

datatype scope_error =
    Redeclaration ustr src_span src_span
  | Undeclared ustr src_span "ustr option"

definition scope_error_message :: "scope_error \<Rightarrow> ustr" where
  "scope_error_message e =
     (case e of
        Redeclaration n s t \<Rightarrow>
          ascii ''Variable '' @ [39] @ n @ [39] @ ascii '' already declared in this scope''
      | Undeclared n s g \<Rightarrow> ascii ''Undefined variable '' @ [39] @ n @ [39])"

section \<open>Entering and leaving\<close>

definition new_manager :: scope_manager where
  "new_manager = \<lparr>sm_scopes = [new_scope ScGlobal None], sm_current = 0\<rparr>"

definition current_scope :: "scope_manager \<Rightarrow> scope" where
  "current_scope m = sm_scopes m ! sm_current m"

definition enter_scope :: "scope_kind \<Rightarrow> scope_manager \<Rightarrow> scope_manager" where
  "enter_scope kind m =
     (let scopes = sm_scopes m @ [new_scope kind (Some (sm_current m))]
      in m\<lparr>sm_scopes := scopes, sm_current := length scopes - 1\<rparr>)"

definition exit_scope :: "scope_manager \<Rightarrow> scope_manager" where
  "exit_scope m =
     (case sc_parent (current_scope m) of Some p \<Rightarrow> m\<lparr>sm_current := p\<rparr> | None \<Rightarrow> m)"

partial_function (option) exit_to_kind :: "scope_kind \<Rightarrow> scope_manager \<Rightarrow> scope_manager option" where
  [code]: "exit_to_kind target m =
     (if sm_current m < length (sm_scopes m) then
        if sc_kind (current_scope m) \<noteq> target \<and> sc_parent (current_scope m) \<noteq> None
        then exit_to_kind target (exit_scope m) else Some m
      else None)"

section \<open>Symbols\<close>

definition define_symbol :: "symbol \<Rightarrow> scope_manager \<Rightarrow> (scope_error + unit) \<times> scope_manager" where
  "define_symbol sy m =
     (let sc = current_scope m
      in case map_of (sc_symbols sc) (sy_name sy) of
           Some orig \<Rightarrow> (Inl (Redeclaration (sy_name sy) (sy_span orig) (sy_span sy)), m)
         | None \<Rightarrow> (Inr (),
             m\<lparr>sm_scopes := (sm_scopes m)[sm_current m := sc\<lparr>sc_symbols := (sy_name sy, sy) # sc_symbols sc\<rparr>]\<rparr>))"

text \<open>The loops \<open>while let Some(idx) = scope_idx\<close>: the index at which \<open>f\<close> holds first.\<close>

partial_function (option) walk :: "(scope \<Rightarrow> bool) \<Rightarrow> scope list \<Rightarrow> nat option \<Rightarrow> nat option option" where
  [code]: "walk f scopes idx =
     (case idx of
        None \<Rightarrow> Some None
      | Some i \<Rightarrow>
          if i < length scopes
          then if f (scopes ! i) then Some (Some i) else walk f scopes (sc_parent (scopes ! i))
          else None)"

definition declares :: "ustr \<Rightarrow> scope \<Rightarrow> bool" where
  "declares name sc \<longleftrightarrow> map_of (sc_symbols sc) name \<noteq> None"

definition lookup_symbol :: "scope_manager \<Rightarrow> ustr \<Rightarrow> symbol option option" where
  "lookup_symbol m name =
     map_option (\<lambda>r. case r of Some i \<Rightarrow> map_of (sc_symbols (sm_scopes m ! i)) name | None \<Rightarrow> None)
       (walk (declares name) (sm_scopes m) (Some (sm_current m)))"

definition set_used :: "ustr \<Rightarrow> scope \<Rightarrow> scope" where
  "set_used name sc =
     sc\<lparr>sc_symbols := map (\<lambda>(n, sy). (n, if n = name then sy\<lparr>sy_used := True\<rparr> else sy)) (sc_symbols sc)\<rparr>"

text \<open>\<open>lookup_mut\<close> followed by the assignment of \<open>mark_used\<close>.\<close>

definition mark_used :: "ustr \<Rightarrow> scope_manager \<Rightarrow> scope_manager option" where
  "mark_used name m =
     map_option
       (\<lambda>r. case r of
              Some i \<Rightarrow> m\<lparr>sm_scopes := (sm_scopes m)[i := set_used name (sm_scopes m ! i)]\<rparr>
            | None \<Rightarrow> m)
       (walk (declares name) (sm_scopes m) (Some (sm_current m)))"

definition in_kind :: "scope_kind \<Rightarrow> scope_manager \<Rightarrow> bool option" where
  "in_kind k m =
     map_option (\<lambda>r. r \<noteq> None) (walk (\<lambda>sc. sc_kind sc = k) (sm_scopes m) (Some (sm_current m)))"

definition in_loop :: "scope_manager \<Rightarrow> bool option" where
  "in_loop m = in_kind ScLoop m"

definition in_function :: "scope_manager \<Rightarrow> bool option" where
  "in_function m = in_kind ScFunction m"

type_synonym key_order = "ustr list \<Rightarrow> ustr list"

definition scope_keys :: "key_order \<Rightarrow> scope \<Rightarrow> ustr list" where
  "scope_keys ord sc = ord (map fst (sc_symbols sc))"

definition unused_symbols :: "key_order \<Rightarrow> scope_manager \<Rightarrow> symbol list" where
  "unused_symbols ord m =
     filter (\<lambda>sy. \<not> sy_used sy \<and> (sy_kind sy = SkVariable \<or> sy_kind sy = SkParameter))
       (concat (map (\<lambda>sc. map (\<lambda>n. the (map_of (sc_symbols sc) n)) (scope_keys ord sc)) (sm_scopes m)))"

section \<open>Suggestions\<close>

definition is_internal :: "ustr \<Rightarrow> bool" where
  "is_internal key \<longleftrightarrow> take 2 key = [95, 95]"

text \<open>The keys are pushed scope by scope along the parents.\<close>

partial_function (option) visible_from :: "key_order \<Rightarrow> scope list \<Rightarrow> nat option \<Rightarrow> ustr list option" where
  [code]: "visible_from ord scopes idx =
     (case idx of
        None \<Rightarrow> Some []
      | Some i \<Rightarrow>
          if i < length scopes
          then Option.bind (visible_from ord scopes (sc_parent (scopes ! i)))
                 (\<lambda>rest. Some (filter (\<lambda>key. \<not> is_internal key) (scope_keys ord (scopes ! i)) @ rest))
          else None)"

definition collect_visible_names :: "key_order \<Rightarrow> scope_manager \<Rightarrow> ustr list option" where
  "collect_visible_names ord m = visible_from ord (sm_scopes m) (Some (sm_current m))"

text \<open>The inner loop of \<open>levenshtein\<close>: the cells of one row, over the characters of \<open>b\<close>. Both rows
  have one cell more than \<open>b\<close> has bytes.\<close>

fun lev_cells :: "nat \<Rightarrow> nat list \<Rightarrow> nat list \<Rightarrow> nat \<Rightarrow> ustr \<Rightarrow> nat list" where
  "lev_cells ac prev row j [] = row"
| "lev_cells ac prev row j (bc # bs) =
     (let cost = (if ac = bc then 0 else 1)
      in lev_cells ac prev
           (row[j + 1 := min (min (prev ! j + cost) (prev ! (j + 1) + 1)) (row ! j + 1)]) (j + 1) bs)"

fun lev_rows :: "ustr \<Rightarrow> nat list \<Rightarrow> nat list \<Rightarrow> nat \<Rightarrow> ustr \<Rightarrow> nat list" where
  "lev_rows b prev row i [] = prev"
| "lev_rows b prev row i (ac # as) =
     lev_rows b (lev_cells ac prev (row[0 := i + 1]) 0 b) prev (i + 1) as"

definition levenshtein :: "ustr \<Rightarrow> ustr \<Rightarrow> nat" where
  "levenshtein a b =
     (if utf8_len a = 0 then utf8_len b
      else if utf8_len b = 0 then utf8_len a
      else lev_rows b [0..<utf8_len b + 1] (replicate (utf8_len b + 1) 0) 0 a ! utf8_len b)"

definition max_distance :: nat where
  "max_distance = 3"

definition better :: "ustr \<Rightarrow> (ustr \<times> nat) option \<Rightarrow> ustr \<Rightarrow> (ustr \<times> nat) option" where
  "better name best candidate =
     (if candidate = name then best
      else let dist = levenshtein name candidate
           in if dist \<le> max_distance \<and> (best = None \<or> dist < snd (the best))
              then Some (candidate, dist) else best)"

definition find_suggestion :: "key_order \<Rightarrow> scope_manager \<Rightarrow> ustr \<Rightarrow> ustr option option" where
  "find_suggestion ord m name =
     map_option (\<lambda>visible. map_option fst (foldl (better name) None visible))
       (collect_visible_names ord m)"

end
