(* ===== verification/Sem_Scoping.thy ===== *)
theory Sem_Scoping
  imports Sem_Scope
begin

text \<open>
  The scope manager implements a stack of symbol tables: its operations keep the vector of scopes
  well formed, every walk along the parents ends, and each operation is the stack operation on
  the chain of scopes from the current one to the global one. The edit distance behind the
  suggestions is exact for ASCII names.
\<close>

section \<open>The chain of parents\<close>

definition wf_scope :: "nat \<Rightarrow> scope \<Rightarrow> bool" where
  "wf_scope i sc \<longleftrightarrow>
     (case sc_parent sc of None \<Rightarrow> i = 0 | Some p \<Rightarrow> p < i) \<and>
     distinct (map fst (sc_symbols sc)) \<and> (\<forall>(n, sy)\<in>set (sc_symbols sc). sy_name sy = n)"

definition wf_scopes :: "scope list \<Rightarrow> bool" where
  "wf_scopes ss \<longleftrightarrow> (\<forall>i<length ss. wf_scope i (ss ! i))"

definition wf_manager :: "scope_manager \<Rightarrow> bool" where
  "wf_manager m \<longleftrightarrow> wf_scopes (sm_scopes m) \<and> sm_current m < length (sm_scopes m)"

function ancestors :: "scope list \<Rightarrow> nat \<Rightarrow> nat list" where
  "ancestors ss i =
     i # (case sc_parent (ss ! i) of None \<Rightarrow> [] | Some p \<Rightarrow> if p < i then ancestors ss p else [])"
  by pat_completeness auto
termination
  by (relation "measure snd") auto

declare ancestors.simps [simp del]

lemma ancestors_not_Nil [simp]: "ancestors ss i \<noteq> []"
  by (subst ancestors.simps) simp

lemma hd_ancestors [simp]: "hd (ancestors ss i) = i"
  by (subst ancestors.simps) simp

lemma ancestors_le: "k \<in> set (ancestors ss i) \<Longrightarrow> k \<le> i"
proof (induction ss i rule: ancestors.induct)
  case (1 ss i)
  have "k = i \<or> (\<exists>p<i. sc_parent (ss ! i) = Some p \<and> k \<in> set (ancestors ss p))"
    using 1(2) by (subst (asm) ancestors.simps) (auto split: option.splits if_splits)
  then show ?case using 1(1) by fastforce
qed

lemma ancestors_cong:
  assumes "\<And>k. k \<le> i \<Longrightarrow> sc_parent (ss ! k) = sc_parent (ts ! k)"
  shows "ancestors ss i = ancestors ts i"
  using assms
proof (induction ss i rule: ancestors.induct)
  case (1 ss i)
  have "ancestors ss p = ancestors ts p" if "sc_parent (ss ! i) = Some p" "p < i" for p
    using 1(1) [OF that] 1(2) that(2) by simp
  then show ?case using 1(2) [of i]
    by (subst (1 2) ancestors.simps) (auto split: option.splits)
qed

lemma wf_parent: "wf_scopes ss \<Longrightarrow> i < length ss \<Longrightarrow> sc_parent (ss ! i) = Some p \<Longrightarrow> p < i"
  by (auto simp: wf_scopes_def wf_scope_def split: option.splits)

lemma wf_no_parent: "wf_scopes ss \<Longrightarrow> i < length ss \<Longrightarrow> sc_parent (ss ! i) = None \<longleftrightarrow> i = 0"
  by (auto simp: wf_scopes_def wf_scope_def split: option.splits)

lemma ancestors_step:
  assumes "wf_scopes ss" and "i < length ss"
  shows "ancestors ss i = i # (case sc_parent (ss ! i) of None \<Rightarrow> [] | Some p \<Rightarrow> ancestors ss p)"
  using wf_parent [OF assms] by (subst ancestors.simps) (simp split: option.splits)

text \<open>Induction along the parents of a well-formed vector.\<close>

lemma parent_induct [consumes 2, case_names global inner]:
  assumes "wf_scopes ss" and "i < length ss"
    and "\<And>i. i < length ss \<Longrightarrow> sc_parent (ss ! i) = None \<Longrightarrow> P i"
    and "\<And>i p. i < length ss \<Longrightarrow> sc_parent (ss ! i) = Some p \<Longrightarrow> p < length ss \<Longrightarrow> P p \<Longrightarrow> P i"
  shows "P i"
  using assms(2)
proof (induction i rule: less_induct)
  case (less i)
  show ?case
  proof (cases "sc_parent (ss ! i)")
    case None
    then show ?thesis using assms(3) less.prems by blast
  next
    case (Some p)
    then have "p < i" by (rule wf_parent [OF assms(1) less.prems])
    then show ?thesis using less assms(4) [OF less.prems Some] by simp
  qed
qed

lemma walk_ancestors:
  assumes "wf_scopes ss" and "i < length ss"
  shows "walk f ss (Some i) = Some (find (\<lambda>k. f (ss ! k)) (ancestors ss i))"
  using assms
proof (induction i rule: parent_induct)
  case (global i)
  then show ?case using ancestors_step [OF assms(1) global(1)]
    by (subst walk.simps) (simp add: walk.simps [of f ss None])
next
  case (inner i p)
  then show ?case using ancestors_step [OF assms(1) inner(1)] by (subst walk.simps) simp
qed

lemma visible_ancestors:
  assumes "wf_scopes ss" and "i < length ss"
  shows "visible_from ord ss (Some i) =
    Some (concat (map (\<lambda>k. filter (\<lambda>key. \<not> is_internal key) (scope_keys ord (ss ! k))) (ancestors ss i)))"
  using assms
proof (induction i rule: parent_induct)
  case (global i)
  then show ?case using ancestors_step [OF assms(1) global(1)]
    by (subst visible_from.simps) (simp add: visible_from.simps [of ord ss None])
next
  case (inner i p)
  then show ?case using ancestors_step [OF assms(1) inner(1)] by (subst visible_from.simps) simp
qed

section \<open>The stack of tables\<close>

type_synonym table = "ustr \<rightharpoonup> symbol"
type_synonym table_stack = "(scope_kind \<times> table) list"

definition abs_scope :: "scope \<Rightarrow> scope_kind \<times> table" where
  "abs_scope sc = (sc_kind sc, map_of (sc_symbols sc))"

definition abs_stack :: "scope_manager \<Rightarrow> table_stack" where
  "abs_stack m = map (\<lambda>k. abs_scope (sm_scopes m ! k)) (ancestors (sm_scopes m) (sm_current m))"

fun stack_lookup :: "table_stack \<Rightarrow> ustr \<Rightarrow> symbol option" where
  "stack_lookup [] n = None"
| "stack_lookup ((k, t) # st) n = (case t n of Some sy \<Rightarrow> Some sy | None \<Rightarrow> stack_lookup st n)"

fun stack_exit :: "table_stack \<Rightarrow> table_stack" where
  "stack_exit (t # u # st) = u # st"
| "stack_exit st = st"

fun stack_define :: "symbol \<Rightarrow> table_stack \<Rightarrow> table_stack option" where
  "stack_define sy ((k, t) # st) = (if t (sy_name sy) = None then Some ((k, t(sy_name sy \<mapsto> sy)) # st) else None)"
| "stack_define sy [] = None"

fun stack_mark :: "ustr \<Rightarrow> table_stack \<Rightarrow> table_stack" where
  "stack_mark n [] = []"
| "stack_mark n ((k, t) # st) =
     (case t n of Some sy \<Rightarrow> (k, t(n \<mapsto> sy\<lparr>sy_used := True\<rparr>)) # st | None \<Rightarrow> (k, t) # stack_mark n st)"

section \<open>The invariant\<close>

lemma wf_new_manager [wf_intros]: "wf_manager new_manager"
  by (simp add: wf_manager_def wf_scopes_def wf_scope_def new_manager_def new_scope_def)

lemma wf_enter_scope [wf_intros]: "wf_manager m \<Longrightarrow> wf_manager (enter_scope k m)"
  by (auto simp: wf_manager_def wf_scopes_def wf_scope_def enter_scope_def new_scope_def nth_append less_Suc_eq)

lemma wf_exit_scope [wf_intros]: "wf_manager m \<Longrightarrow> wf_manager (exit_scope m)"
  by (auto simp: wf_manager_def exit_scope_def current_scope_def dest: wf_parent split: option.splits)

text \<open>A scope replaced by one with the same parent.\<close>

lemma wf_update:
  assumes "wf_manager m" and "wf_scope i sc"
  shows "wf_manager (m\<lparr>sm_scopes := (sm_scopes m)[i := sc]\<rparr>)"
  using assms by (cases "i < length (sm_scopes m)") (simp_all add: wf_manager_def wf_scopes_def nth_list_update)

lemma wf_define_symbol [wf_intros]:
  assumes "wf_manager m"
  shows "wf_manager (snd (define_symbol sy m))"
proof (cases "map_of (sc_symbols (current_scope m)) (sy_name sy)")
  case None
  have "wf_scope (sm_current m) (current_scope m)"
    using assms by (simp add: wf_manager_def wf_scopes_def current_scope_def)
  then have "wf_scope (sm_current m)
      ((current_scope m)\<lparr>sc_symbols := (sy_name sy, sy) # sc_symbols (current_scope m)\<rparr>)"
    using None by (auto simp: wf_scope_def map_of_eq_None_iff split: option.splits)
  then show ?thesis using wf_update [OF assms] None by (simp add: define_symbol_def Let_def)
qed (simp add: define_symbol_def assms)

lemma set_used_simps [simp]:
  "sc_parent (set_used n sc) = sc_parent sc" "sc_kind (set_used n sc) = sc_kind sc"
  "map fst (sc_symbols (set_used n sc)) = map fst (sc_symbols sc)"
  by (simp_all add: set_used_def case_prod_beta)

lemma map_of_mark:
  "map_of (map (\<lambda>(k, v). (k, if k = n then g v else v)) xs) x =
     (if x = n then map_option g (map_of xs x) else map_of xs x)"
  by (induction xs) auto

lemma map_of_set_used:
  "map_of (sc_symbols (set_used n sc)) =
     (\<lambda>x. if x = n then map_option (\<lambda>sy. sy\<lparr>sy_used := True\<rparr>) (map_of (sc_symbols sc) x) else map_of (sc_symbols sc) x)"
  by (rule ext) (simp add: set_used_def map_of_mark)

lemma wf_set_used: "wf_scope i sc \<Longrightarrow> wf_scope i (set_used n sc)"
  by (auto simp: wf_scope_def) (auto simp: set_used_def split: if_splits)

lemma wf_mark_used [wf_intros]:
  assumes "wf_manager m" and "mark_used n m = Some m'"
  shows "wf_manager m'"
proof -
  obtain r where r: "walk (declares n) (sm_scopes m) (Some (sm_current m)) = Some r"
    using assms(2) by (auto simp: mark_used_def)
  show ?thesis
  proof (cases r)
    case None
    then show ?thesis using assms r by (simp add: mark_used_def)
  next
    case (Some i)
    have "find (\<lambda>k. declares n (sm_scopes m ! k)) (ancestors (sm_scopes m) (sm_current m)) = Some i"
      using r Some walk_ancestors [of "sm_scopes m" "sm_current m" "declares n"] assms(1) by (simp add: wf_manager_def)
    then have "i \<in> set (ancestors (sm_scopes m) (sm_current m))" by (auto simp: find_Some_iff)
    then have "i < length (sm_scopes m)" using ancestors_le assms(1) by (fastforce simp: wf_manager_def)
    then have "wf_scope i (set_used n (sm_scopes m ! i))"
      using assms(1) by (auto simp: wf_manager_def wf_scopes_def intro: wf_set_used)
    then show ?thesis using assms r Some wf_update by (auto simp: mark_used_def)
  qed
qed

section \<open>Refinement\<close>

lemma abs_stack_new: "abs_stack new_manager = [(ScGlobal, Map.empty)]"
  by (simp add: abs_stack_def new_manager_def ancestors.simps new_scope_def abs_scope_def)

lemma abs_stack_enter:
  assumes "wf_manager m"
  shows "abs_stack (enter_scope k m) = (k, Map.empty) # abs_stack m"
proof -
  let ?ss = "sm_scopes m" and ?new = "new_scope k (Some (sm_current m))"
  have cur: "sm_current m < length ?ss" using assms by (simp add: wf_manager_def)
  have "ancestors (?ss @ [?new]) (length ?ss) = length ?ss # ancestors (?ss @ [?new]) (sm_current m)"
    using cur by (subst ancestors.simps) (simp add: new_scope_def)
  also have "ancestors (?ss @ [?new]) (sm_current m) = ancestors ?ss (sm_current m)"
    using cur by (intro ancestors_cong) (simp add: nth_append)
  finally have anc: "ancestors (?ss @ [?new]) (length ?ss) = length ?ss # ancestors ?ss (sm_current m)" .
  have "map (\<lambda>i. abs_scope ((?ss @ [?new]) ! i)) (ancestors ?ss (sm_current m)) =
      map (\<lambda>i. abs_scope (?ss ! i)) (ancestors ?ss (sm_current m))"
    using cur ancestors_le by (fastforce simp: nth_append intro!: map_cong)
  then show ?thesis
    by (simp add: abs_stack_def enter_scope_def Let_def anc) (simp add: new_scope_def abs_scope_def)
qed

lemma abs_stack_exit:
  assumes "wf_manager m"
  shows "abs_stack (exit_scope m) = stack_exit (abs_stack m)"
proof -
  have a: "ancestors (sm_scopes m) (sm_current m) =
      sm_current m # (case sc_parent (current_scope m) of None \<Rightarrow> [] | Some p \<Rightarrow> ancestors (sm_scopes m) p)"
    using assms unfolding current_scope_def wf_manager_def by (blast intro: ancestors_step)
  show ?thesis
  proof (cases "sc_parent (current_scope m)")
    case None
    then show ?thesis using a by (simp add: abs_stack_def exit_scope_def)
  next
    case (Some p)
    obtain x xs where "ancestors (sm_scopes m) p = x # xs" by (cases "ancestors (sm_scopes m) p") simp_all
    then show ?thesis using a Some by (simp add: abs_stack_def exit_scope_def)
  qed
qed

lemma stack_lookup_find:
  "stack_lookup (map (\<lambda>k. abs_scope (ss ! k)) ks) n =
     Option.bind (find (\<lambda>k. declares n (ss ! k)) ks) (\<lambda>k. map_of (sc_symbols (ss ! k)) n)"
  by (induction ks) (auto simp: abs_scope_def declares_def split: option.splits)

lemma lookup_refines:
  assumes "wf_manager m"
  shows "lookup_symbol m n = Some (stack_lookup (abs_stack m) n)"
  using assms walk_ancestors [of "sm_scopes m" "sm_current m" "declares n"]
  by (auto simp: wf_manager_def lookup_symbol_def abs_stack_def stack_lookup_find split: bind_splits option.splits)

text \<open>Replacing a scope by one with the same parent, seen on the stack.\<close>

lemma ancestors_update:
  "sc_parent sc = sc_parent (ss ! i) \<Longrightarrow> ancestors (ss[i := sc]) j = ancestors ss j"
  by (cases "i < length ss") (auto intro!: ancestors_cong simp: nth_list_update list_update_beyond)

lemma abs_stack_define:
  assumes "wf_manager m"
  shows "case stack_define sy (abs_stack m) of
      Some st \<Rightarrow> fst (define_symbol sy m) = Inr () \<and> abs_stack (snd (define_symbol sy m)) = st
    | None \<Rightarrow> (\<exists>orig. map_of (sc_symbols (current_scope m)) (sy_name sy) = Some orig \<and>
        define_symbol sy m = (Inl (Redeclaration (sy_name sy) (sy_span orig) (sy_span sy)), m))"
proof -
  let ?ss = "sm_scopes m" and ?i = "sm_current m"
  have i: "?i < length ?ss" using assms by (simp add: wf_manager_def)
  obtain ks where ks: "ancestors ?ss ?i = ?i # ks" by (metis ancestors.simps)
  have "\<forall>k\<in>set ks. k < ?i"
    using ancestors_step [of ?ss ?i] assms i ks wf_parent [of ?ss ?i] ancestors_le
    by (fastforce simp: wf_manager_def split: option.splits)
  then have tail: "map (\<lambda>k. abs_scope (?ss[?i := sc] ! k)) ks = map (\<lambda>k. abs_scope (?ss ! k)) ks" for sc
    by (intro map_cong) auto
  show ?thesis
  proof (cases "map_of (sc_symbols (current_scope m)) (sy_name sy)")
    case None
    let ?sc = "(current_scope m)\<lparr>sc_symbols := (sy_name sy, sy) # sc_symbols (current_scope m)\<rparr>"
    have anc: "ancestors (?ss[?i := ?sc]) ?i = ?i # ks"
      using ks ancestors_update [of ?sc ?ss ?i ?i] by (simp add: current_scope_def)
    have "abs_stack (snd (define_symbol sy m)) = abs_scope ?sc # map (\<lambda>k. abs_scope (?ss ! k)) ks"
      using None i by (simp add: define_symbol_def Let_def abs_stack_def anc tail)
    moreover have "stack_define sy (abs_stack m) = Some (abs_scope ?sc # map (\<lambda>k. abs_scope (?ss ! k)) ks)"
      using None by (simp add: abs_stack_def ks) (simp add: abs_scope_def current_scope_def)
    ultimately show ?thesis using None by (simp add: define_symbol_def Let_def)
  next
    case (Some orig)
    then have "stack_define sy (abs_stack m) = None"
      by (simp add: abs_stack_def ks) (simp add: abs_scope_def current_scope_def)
    then show ?thesis using Some by (simp add: define_symbol_def Let_def)
  qed
qed

lemma stack_mark_find:
  assumes "distinct ks" and "set ks \<subseteq> {..<length ss}"
  shows "stack_mark n (map (\<lambda>k. abs_scope (ss ! k)) ks) =
    (case find (\<lambda>k. declares n (ss ! k)) ks of
       Some i \<Rightarrow> map (\<lambda>k. abs_scope (ss[i := set_used n (ss ! i)] ! k)) ks
     | None \<Rightarrow> map (\<lambda>k. abs_scope (ss ! k)) ks)"
  using assms
proof (induction ks)
  case (Cons k ks)
  show ?case
  proof (cases "declares n (ss ! k)")
    case True
    then obtain sy where sy: "map_of (sc_symbols (ss ! k)) n = Some sy" by (auto simp: declares_def)
    have "map (\<lambda>j. abs_scope (ss[k := set_used n (ss ! k)] ! j)) ks = map (\<lambda>j. abs_scope (ss ! j)) ks"
      using Cons.prems(1) by (intro map_cong) (auto, metis nth_list_update_neq)
    moreover have "map_of (sc_symbols (set_used n (ss ! k))) =
        (map_of (sc_symbols (ss ! k)))(n \<mapsto> sy\<lparr>sy_used := True\<rparr>)"
      by (rule ext) (simp add: map_of_set_used sy)
    ultimately show ?thesis using True sy Cons.prems(2) by (simp add: abs_scope_def)
  next
    case False
    then have none: "map_of (sc_symbols (ss ! k)) n = None" by (simp add: declares_def)
    show ?thesis
    proof (cases "find (\<lambda>k. declares n (ss ! k)) ks")
      case None
      then show ?thesis using Cons False none by (simp add: abs_scope_def)
    next
      case (Some i)
      then have "i \<in> set ks" by (auto simp: find_Some_iff)
      then have "i \<noteq> k" using Cons.prems(1) by auto
      then show ?thesis using Cons False none Some by (simp add: abs_scope_def)
    qed
  qed
qed simp

lemma distinct_ancestors:
  assumes "wf_scopes ss" and "i < length ss"
  shows "distinct (ancestors ss i)"
  using assms
proof (induction i rule: parent_induct)
  case (global i)
  then show ?case using ancestors_step [OF assms(1) global(1)] by simp
next
  case (inner i p)
  have "p < i" by (rule wf_parent [OF assms(1) inner(1,2)])
  then have "i \<notin> set (ancestors ss p)" using ancestors_le by fastforce
  then show ?case using ancestors_step [OF assms(1) inner(1)] inner by simp
qed

lemma abs_stack_mark:
  assumes "wf_manager m"
  shows "\<exists>m'. mark_used n m = Some m' \<and> abs_stack m' = stack_mark n (abs_stack m)"
proof -
  let ?ss = "sm_scopes m" and ?ks = "ancestors (sm_scopes m) (sm_current m)"
  have wf: "wf_scopes ?ss" "sm_current m < length ?ss" using assms by (simp_all add: wf_manager_def)
  have "set ?ks \<subseteq> {..<length ?ss}" using ancestors_le wf(2) by fastforce
  note mk = stack_mark_find [OF distinct_ancestors [OF wf] this, of n]
  show ?thesis
    using walk_ancestors [OF wf, of "declares n"] mk
    by (cases "find (\<lambda>k. declares n (?ss ! k)) ?ks")
      (simp_all add: mark_used_def abs_stack_def ancestors_update)
qed

fun stack_exit_to :: "scope_kind \<Rightarrow> table_stack \<Rightarrow> table_stack" where
  "stack_exit_to k (t # u # st) = (if fst t = k then t # u # st else stack_exit_to k (u # st))"
| "stack_exit_to k st = st"

lemma exit_to_kind_refines:
  assumes "wf_manager m"
  shows "\<exists>m'. exit_to_kind k m = Some m' \<and> wf_manager m' \<and> abs_stack m' = stack_exit_to k (abs_stack m)"
proof -
  have "\<exists>m'. exit_to_kind k (m\<lparr>sm_current := i\<rparr>) = Some m' \<and> wf_manager m' \<and>
      abs_stack m' = stack_exit_to k (abs_stack (m\<lparr>sm_current := i\<rparr>))"
    if "wf_scopes (sm_scopes m)" and i: "i < length (sm_scopes m)" for i
    using that
  proof (induction i rule: parent_induct)
    case (global i)
    have wf: "wf_manager (m\<lparr>sm_current := i\<rparr>)" using that(1) global by (simp add: wf_manager_def)
    have "abs_stack (m\<lparr>sm_current := i\<rparr>) = [abs_scope (sm_scopes m ! i)]"
      using global(2) by (simp add: abs_stack_def ancestors_step [OF that(1) global(1)])
    then show ?case using wf global by (subst exit_to_kind.simps) (simp add: current_scope_def)
  next
    case (inner i p)
    have wf: "wf_manager (m\<lparr>sm_current := i\<rparr>)" using that(1) inner(1) by (simp add: wf_manager_def)
    have ex: "exit_scope (m\<lparr>sm_current := i\<rparr>) = m\<lparr>sm_current := p\<rparr>"
      using inner(2) by (simp add: exit_scope_def current_scope_def)
    have st: "abs_stack (m\<lparr>sm_current := i\<rparr>) = abs_scope (sm_scopes m ! i) # abs_stack (m\<lparr>sm_current := p\<rparr>)"
      using inner(2) by (simp add: abs_stack_def ancestors_step [OF that(1) inner(1)])
    obtain t st' where t: "abs_stack (m\<lparr>sm_current := p\<rparr>) = t # st'"
      by (cases "abs_stack (m\<lparr>sm_current := p\<rparr>)") (simp_all add: abs_stack_def)
    show ?case
    proof (cases "sc_kind (sm_scopes m ! i) = k")
      case True
      then show ?thesis using wf st t inner(1)
        by (subst exit_to_kind.simps) (simp add: current_scope_def abs_scope_def)
    next
      case False
      then show ?thesis using inner st t
        by (subst exit_to_kind.simps) (simp add: current_scope_def abs_scope_def ex)
    qed
  qed
  from this [of "sm_current m"] show ?thesis using assms by (simp add: wf_manager_def)
qed

lemma in_kind_refines:
  assumes "wf_manager m"
  shows "in_kind k m = Some (k \<in> fst ` set (abs_stack m))"
proof -
  have "find P xs \<noteq> None \<longleftrightarrow> (\<exists>x\<in>set xs. P x)" for P and xs :: "nat list" by (induction xs) auto
  then show ?thesis
    using assms walk_ancestors [of "sm_scopes m" "sm_current m" "\<lambda>sc. sc_kind sc = k"]
    by (auto simp: wf_manager_def in_kind_def abs_stack_def abs_scope_def image_iff)
qed

text \<open>C24. Every operation of the scope manager is the operation on the stack of symbol tables that the
  chain of parents stands for; none of its loops runs forever or leaves the vector.\<close>

theorem scopes_refine_stack:
  assumes "wf_manager m"
  shows "abs_stack (enter_scope k m) = (k, Map.empty) # abs_stack m \<and>
    abs_stack (exit_scope m) = stack_exit (abs_stack m) \<and>
    (\<exists>m'. exit_to_kind k m = Some m' \<and> abs_stack m' = stack_exit_to k (abs_stack m)) \<and>
    lookup_symbol m n = Some (stack_lookup (abs_stack m) n) \<and>
    (\<exists>m'. mark_used n m = Some m' \<and> abs_stack m' = stack_mark n (abs_stack m)) \<and>
    in_loop m = Some (ScLoop \<in> fst ` set (abs_stack m)) \<and>
    in_function m = Some (ScFunction \<in> fst ` set (abs_stack m)) \<and>
    (case stack_define sy (abs_stack m) of
       Some st \<Rightarrow> fst (define_symbol sy m) = Inr () \<and> abs_stack (snd (define_symbol sy m)) = st
     | None \<Rightarrow> (\<exists>orig. map_of (sc_symbols (current_scope m)) (sy_name sy) = Some orig \<and>
         define_symbol sy m = (Inl (Redeclaration (sy_name sy) (sy_span orig) (sy_span sy)), m)))"
  using exit_to_kind_refines [OF assms, of k]
  by (auto simp: abs_stack_enter [OF assms] abs_stack_exit [OF assms] lookup_refines [OF assms]
      in_loop_def in_function_def in_kind_refines [OF assms] abs_stack_mark [OF assms]
      intro: abs_stack_define [OF assms])

section \<open>Reachable managers\<close>

inductive manager_step :: "scope_manager \<Rightarrow> scope_manager \<Rightarrow> bool" where
  enters: "manager_step m (enter_scope k m)"
| exits: "manager_step m (exit_scope m)"
| exits_to: "exit_to_kind k m = Some m' \<Longrightarrow> manager_step m m'"
| declared: "manager_step m (snd (define_symbol sy m))"
| marks: "mark_used n m = Some m' \<Longrightarrow> manager_step m m'"

inductive_cases manager_stepE: "manager_step m m'"

lemma wf_exit_to_kind [wf_intros]: "wf_manager m \<Longrightarrow> exit_to_kind k m = Some m' \<Longrightarrow> wf_manager m'"
  using exit_to_kind_refines [of m k] by auto

lemma manager_step_wf: "manager_step m m' \<Longrightarrow> wf_manager m \<Longrightarrow> wf_manager m'"
  by (erule manager_stepE) (auto intro: wf_intros)

lemma stack_exit_global: "st \<noteq> [] \<Longrightarrow> stack_exit st \<noteq> [] \<and> last (stack_exit st) = last st"
  by (cases st rule: stack_exit.cases) simp_all

lemma abs_stack_not_Nil [simp]: "abs_stack m \<noteq> []"
  by (simp add: abs_stack_def)

lemma stack_exit_to_last: "st \<noteq> [] \<Longrightarrow> fst (last (stack_exit_to k st)) = fst (last st)"
  by (induction k st rule: stack_exit_to.induct) auto

lemma stack_mark_kinds: "map fst (stack_mark n st) = map fst st"
  by (induction n st rule: stack_mark.induct) (auto split: option.splits)

lemma stack_define_kinds: "stack_define sy st = Some st' \<Longrightarrow> map fst st' = map fst st"
  by (cases "(sy, st)" rule: stack_define.cases) (auto split: if_splits)

lemma last_kind: "map fst xs = map fst ys \<Longrightarrow> xs \<noteq> [] \<Longrightarrow> fst (last xs) = fst (last ys)"
  by (metis last_map list.map_disc_iff)

lemma manager_step_global:
  assumes "manager_step m m'" and "wf_manager m"
  shows "fst (last (abs_stack m')) = fst (last (abs_stack m))"
  using assms(1)
proof cases
  case (enters k)
  then show ?thesis using assms(2) by (simp add: abs_stack_enter)
next
  case exits
  then show ?thesis using assms(2) stack_exit_global [of "abs_stack m"] by (simp add: abs_stack_exit)
next
  case (exits_to k)
  then show ?thesis using exit_to_kind_refines [OF assms(2), of k] by (auto simp: stack_exit_to_last)
next
  case (declared sy)
  then show ?thesis
    using abs_stack_define [OF assms(2), of sy] stack_define_kinds [of sy "abs_stack m"]
    by (cases "stack_define sy (abs_stack m)") (auto intro: last_kind)
next
  case (marks n)
  then show ?thesis using abs_stack_mark [OF assms(2), of n] stack_mark_kinds [of n "abs_stack m"] last_kind
    by (metis abs_stack_not_Nil option.inject)
qed

text \<open>C25. Whatever sequence of operations made a scope manager, its vector is well formed (each parent
  comes before its children, no name is declared twice in a scope, and every symbol is stored
  under its own name) and the global scope is still at the bottom of its chain.\<close>

theorem reachable_managers_are_well_formed:
  assumes "manager_step\<^sup>*\<^sup>* new_manager m"
  shows "wf_manager m \<and> fst (last (abs_stack m)) = ScGlobal"
  using assms
proof induction
  case base
  then show ?case by (simp add: wf_new_manager abs_stack_new)
next
  case (step m m')
  then show ?case using manager_step_wf manager_step_global by metis
qed

section \<open>Blocks\<close>

text \<open>What the analysis does with a block: declarations and nested blocks between entering and
  leaving a scope.\<close>

datatype ('x, 'k) block_stmt = Decl 'x | Block 'k "('x, 'k) block_stmt list"

fun run_stmt :: "('k \<Rightarrow> 's \<Rightarrow> 's) \<Rightarrow> ('s \<Rightarrow> 's) \<Rightarrow> ('x \<Rightarrow> 's \<Rightarrow> 's) \<Rightarrow> ('x, 'k) block_stmt \<Rightarrow> 's \<Rightarrow> 's" where
  "run_stmt enter leave declare_in (Decl x) s = declare_in x s"
| "run_stmt enter leave declare_in (Block k body) s =
     leave (foldl (\<lambda>s st. run_stmt enter leave declare_in st s) (enter k s) body)"

text \<open>The interface of a scoped table: its state can be viewed as a stack, of which entering pushes
  an element, leaving pops one and a declaration changes the first.\<close>

locale scoped_table =
  fixes wf :: "'s \<Rightarrow> bool" and view :: "'s \<Rightarrow> 't list"
    and enter :: "'k \<Rightarrow> 's \<Rightarrow> 's" and leave :: "'s \<Rightarrow> 's" and declare_in :: "'x \<Rightarrow> 's \<Rightarrow> 's"
    and fresh :: "'k \<Rightarrow> 't" and upd :: "'x \<Rightarrow> 't \<Rightarrow> 't"
  assumes wf_enter: "wf s \<Longrightarrow> wf (enter k s)" and wf_leave: "wf s \<Longrightarrow> wf (leave s)"
    and wf_declare: "wf s \<Longrightarrow> wf (declare_in x s)"
    and view_enter: "wf s \<Longrightarrow> view (enter k s) = fresh k # view s"
    and view_leave: "wf s \<Longrightarrow> view s = t # u # st \<Longrightarrow> view (leave s) = u # st"
    and view_declare: "wf s \<Longrightarrow> view s = t # st \<Longrightarrow> view (declare_in x s) = upd x t # st"
    and view_not_Nil: "wf s \<Longrightarrow> view s \<noteq> []"
begin

lemma run_stmt_tail:
  "wf s \<Longrightarrow> wf (run_stmt enter leave declare_in st s) \<and>
     tl (view (run_stmt enter leave declare_in st s)) = tl (view s) \<and>
     ((\<exists>k body. st = Block k body) \<longrightarrow> view (run_stmt enter leave declare_in st s) = view s)"
proof (induction st arbitrary: s)
  case (Decl x)
  obtain t ts where "view s = t # ts" using view_not_Nil [OF Decl] by (cases "view s") auto
  then show ?case using Decl wf_declare view_declare by simp
next
  case (Block k body)
  let ?run = "\<lambda>s st. run_stmt enter leave declare_in st s"
  have "wf (foldl ?run s' b) \<and> tl (view (foldl ?run s' b)) = tl (view s')"
    if "wf s'" "set b \<subseteq> set body" for s' b
    using that
  proof (induction b arbitrary: s')
    case (Cons st b)
    then show ?case using Block.IH [of st s'] by auto
  qed simp
  note body = this [OF wf_enter [OF Block.prems, of k] order_refl]
  let ?s = "foldl ?run (enter k s) body"
  have tl: "tl (view ?s) = view s" using body view_enter [OF Block.prems] by simp
  obtain t where t: "view ?s = t # view s"
    using tl view_not_Nil [of ?s] body by (cases "view ?s") auto
  obtain u st where u: "view s = u # st" using view_not_Nil [OF Block.prems] by (cases "view s") auto
  have "view (leave ?s) = view s" using view_leave [of ?s t u st] body t u by simp
  then show ?case using body wf_leave by simp
qed

lemma block_transparent: "wf s \<Longrightarrow> view (run_stmt enter leave declare_in (Block k body) s) = view s"
  using run_stmt_tail by blast

end

definition declare_top :: "symbol \<Rightarrow> scope_kind \<times> table \<Rightarrow> scope_kind \<times> table" where
  "declare_top sy t = (case stack_define sy [t] of Some st \<Rightarrow> hd st | None \<Rightarrow> t)"

interpretation scopes: scoped_table wf_manager abs_stack enter_scope exit_scope
    "\<lambda>sy m. snd (define_symbol sy m)" "\<lambda>k. (k, Map.empty)" declare_top
proof
  show "abs_stack (snd (define_symbol sy m)) = declare_top sy t # st"
    if "wf_manager m" "abs_stack m = t # st" for m sy t st
    using abs_stack_define [OF that(1), of sy] that(2)
    by (cases t) (auto simp: declare_top_def split: if_splits)
qed (simp_all add: wf_enter_scope wf_exit_scope wf_define_symbol abs_stack_enter abs_stack_exit)

text \<open>A block leaves no trace: whatever it declares and however it nests further blocks, afterwards
  every name means what it meant before.\<close>

theorem block_leaves_no_trace:
  assumes "wf_manager m"
  shows "lookup_symbol (run_stmt enter_scope exit_scope (\<lambda>sy m. snd (define_symbol sy m)) (Block k body) m) n =
    lookup_symbol m n"
proof -
  let ?m = "run_stmt enter_scope exit_scope (\<lambda>sy m. snd (define_symbol sy m)) (Block k body) m"
  have "wf_manager ?m" using scopes.run_stmt_tail [OF assms] by blast
  then show ?thesis using assms scopes.block_transparent [OF assms] by (simp add: lookup_refines)
qed

section \<open>Edit distance\<close>

text \<open>An alignment of two words and what it costs.\<close>

inductive edits :: "'a list \<Rightarrow> 'a list \<Rightarrow> nat \<Rightarrow> bool" where
  same: "edits [] [] 0"
| keep: "edits xs ys n \<Longrightarrow> edits (x # xs) (x # ys) n"
| replace: "edits xs ys n \<Longrightarrow> edits (x # xs) (y # ys) (Suc n)"
| delete: "edits xs ys n \<Longrightarrow> edits (x # xs) ys (Suc n)"
| insert: "edits xs ys n \<Longrightarrow> edits xs (y # ys) (Suc n)"

fun edit :: "'a list \<Rightarrow> 'a list \<Rightarrow> nat" where
  "edit [] ys = length ys"
| "edit (x # xs) [] = Suc (length xs)"
| "edit (x # xs) (y # ys) =
     min (min (edit xs ys + (if x = y then 0 else 1)) (edit xs (y # ys) + 1)) (edit (x # xs) ys + 1)"

lemma edit_Nil2 [simp]: "edit xs [] = length xs"
  by (cases xs) simp_all

lemma edits_edit: "edits xs ys (edit xs ys)"
proof (induction xs ys rule: edit.induct)
  case (1 ys)
  show ?case by (induction ys) (auto intro: edits.intros)
next
  case (2 x xs)
  show ?case by (simp, induction xs arbitrary: x) (auto intro: edits.intros)
next
  case (3 x xs y ys)
  then show ?case by (auto simp: min_def intro: edits.intros)
qed

lemma edit_delete: "edit (x # xs) ys \<le> Suc (edit xs ys)"
  by (cases ys) simp_all

lemma edit_insert: "edit xs (y # ys) \<le> Suc (edit xs ys)"
  by (cases xs) simp_all

lemma edit_least: "edits xs ys n \<Longrightarrow> edit xs ys \<le> n"
proof (induction rule: edits.induct)
  case (delete xs ys n x)
  then show ?case using edit_delete [of x xs ys] by linarith
next
  case (insert xs ys n y)
  then show ?case using edit_insert [of xs y ys] by linarith
next
  case (keep xs ys n x)
  then show ?case by (simp add: min_le_iff_disj)
next
  case (replace xs ys n x y)
  then show ?case by (simp add: min_le_iff_disj)
qed simp

lemma edits_append: "edits xs ys n \<Longrightarrow> edits us vs k \<Longrightarrow> edits (xs @ us) (ys @ vs) (n + k)"
  by (induction rule: edits.induct) (auto intro: edits.intros)

lemma edits_rev: "edits xs ys n \<Longrightarrow> edits (rev xs) (rev ys) n"
proof (induction rule: edits.induct)
  case (keep xs ys n x)
  then show ?case using edits_append [OF keep(2) edits.keep [OF same, of x]] by simp
next
  case (replace xs ys n x y)
  then show ?case using edits_append [OF replace(2) edits.replace [OF same, of x y]] by simp
next
  case (delete xs ys n x)
  then show ?case using edits_append [OF delete(2) edits.delete [OF same, of x]] by simp
next
  case (insert xs ys n y)
  then show ?case using edits_append [OF insert(2) edits.insert [OF same, of y]] by simp
qed (simp add: same)

text \<open>Row \<open>i\<close> of the table: the distances of the first \<open>i\<close> characters of one word to the prefixes
  of the other.\<close>

definition dist_at :: "ustr \<Rightarrow> ustr \<Rightarrow> nat \<Rightarrow> nat \<Rightarrow> nat" where
  "dist_at a b i j = edit (rev (take i a)) (rev (take j b))"

definition is_row :: "ustr \<Rightarrow> ustr \<Rightarrow> nat \<Rightarrow> nat list \<Rightarrow> bool" where
  "is_row a b i row \<longleftrightarrow> length row = length b + 1 \<and> (\<forall>j\<le>length b. row ! j = dist_at a b i j)"

lemma dist_at_0 [simp]: "dist_at a b i 0 = min i (length a)" "j \<le> length b \<Longrightarrow> dist_at a b 0 j = j"
  by (simp_all add: dist_at_def)

lemma dist_at_Suc:
  assumes "i < length a" and "j < length b"
  shows "dist_at a b (Suc i) (Suc j) =
    min (min (dist_at a b i j + (if a ! i = b ! j then 0 else 1)) (dist_at a b i (Suc j) + 1)) (dist_at a b (Suc i) j + 1)"
  using assms by (simp add: dist_at_def take_Suc_conv_app_nth)

lemma lev_cells_row:
  assumes "i < length a" and "is_row a b i prev" and "length row = length b + 1"
    and "j \<le> length b" and "\<forall>k\<le>j. row ! k = dist_at a b (Suc i) k"
  shows "is_row a b (Suc i) (lev_cells (a ! i) prev row j (drop j b))"
  using assms(3-)
proof (induction "length b - j" arbitrary: j row)
  case 0
  then show ?case by (simp add: is_row_def)
next
  case (Suc d)
  then have j: "j < length b" by simp
  have dr: "drop j b = b ! j # drop (Suc j) b" by (rule Cons_nth_drop_Suc [symmetric, OF j])
  let ?c = "min (min (prev ! j + (if a ! i = b ! j then 0 else 1)) (prev ! (j + 1) + 1)) (row ! j + 1)"
  have c: "?c = dist_at a b (Suc i) (Suc j)"
    using assms(2) Suc.prems(3) j by (simp add: dist_at_Suc [OF assms(1) j] is_row_def)
  have "is_row a b (Suc i) (lev_cells (a ! i) prev (row[j + 1 := ?c]) (j + 1) (drop (j + 1) b))"
  proof (rule Suc.hyps(1))
    show "\<forall>k\<le>j + 1. row[j + 1 := ?c] ! k = dist_at a b (Suc i) k"
      using Suc.prems(1,3) j c by (auto simp: nth_list_update le_Suc_eq)
  qed (use Suc.hyps(2) Suc.prems(1) j in simp_all)
  then show ?case unfolding dr by (simp add: Let_def)
qed

lemma lev_rows_row:
  assumes "is_row a b i prev" and "length row = length b + 1" and "i \<le> length a"
  shows "is_row a b (length a) (lev_rows b prev row i (drop i a))"
  using assms
proof (induction "length a - i" arbitrary: i prev row)
  case 0
  then show ?case by simp
next
  case (Suc d)
  then have i: "i < length a" by simp
  have dr: "drop i a = a ! i # drop (Suc i) a" by (rule Cons_nth_drop_Suc [symmetric, OF i])
  let ?new = "lev_cells (a ! i) prev (row[0 := i + 1]) 0 b"
  have new: "is_row a b (Suc i) ?new"
    using lev_cells_row [OF i Suc.prems(1), of "row[0 := i + 1]" 0] Suc.prems(2) i by simp
  have "is_row a b (length a) (lev_rows b ?new prev (Suc i) (drop (Suc i) a))"
    using Suc.hyps(2) Suc.prems(1) i by (intro Suc.hyps(1) new) (simp_all add: is_row_def)
  then show ?case unfolding dr by simp
qed

lemma levenshtein_edit:
  assumes "is_ascii a" and "is_ascii b"
  shows "levenshtein a b = edit (rev a) (rev b)"
proof (cases "a = [] \<or> b = []")
  case True
  then show ?thesis using assms by (auto simp: levenshtein_def utf8_len_ascii)
next
  case False
  have row: "is_row a b (length a) (lev_rows b [0..<length b + 1] (replicate (length b + 1) 0) 0 (drop 0 a))"
    by (rule lev_rows_row) (simp_all add: is_row_def nth_append del: upt_Suc)
  have "levenshtein a b = lev_rows b [0..<length b + 1] (replicate (length b + 1) 0) 0 a ! length b"
    using False assms by (simp add: levenshtein_def utf8_len_ascii del: upt_Suc)
  also have "\<dots> = dist_at a b (length a) (length b)" using row by (simp add: is_row_def del: upt_Suc)
  finally show ?thesis by (simp add: dist_at_def)
qed

text \<open>C26. For ASCII words the distance is exact: some alignment costs this much and none costs less.\<close>

theorem levenshtein_is_edit_distance:
  assumes "is_ascii a" and "is_ascii b"
  shows "edits a b (levenshtein a b) \<and> (\<forall>n. edits a b n \<longrightarrow> levenshtein a b \<le> n)"
proof
  show "edits a b (levenshtein a b)"
    using edits_rev [OF edits_edit [of "rev a" "rev b"]] by (simp add: levenshtein_edit [OF assms])
  show "\<forall>n. edits a b n \<longrightarrow> levenshtein a b \<le> n"
    using edit_least [OF edits_rev] by (auto simp: levenshtein_edit [OF assms])
qed

text \<open>Beyond ASCII it is not: the rows are as long as the bytes, but only the cells of the characters
  are computed, and the last cell keeps its initial value.\<close>

theorem levenshtein_counts_bytes:
  "levenshtein [120] [233] = 0 \<and> edits [120 :: nat] [233] 1 \<and> \<not> edits [120 :: nat] [233] 0"
proof -
  have "levenshtein [120] [233] = 0" by code_simp
  moreover have "edits [120 :: nat] [233] 1" using edits.replace [OF same] by simp
  moreover have "\<not> edits [120 :: nat] [233] 0" using edit_least by fastforce
  ultimately show ?thesis by blast
qed

section \<open>Suggestions\<close>

definition visible :: "scope_manager \<Rightarrow> ustr \<Rightarrow> bool" where
  "visible m n \<longleftrightarrow> \<not> is_internal n \<and> stack_lookup (abs_stack m) n \<noteq> None"

lemma stack_lookup_declared:
  "stack_lookup (map (\<lambda>k. abs_scope (ss ! k)) ks) n \<noteq> None \<longleftrightarrow>
     (\<exists>k\<in>set ks. n \<in> fst ` set (sc_symbols (ss ! k)))"
proof (induction ks)
  case (Cons k ks)
  show ?case
  proof (cases "map_of (sc_symbols (ss ! k)) n")
    case None
    then have "n \<notin> fst ` set (sc_symbols (ss ! k))" by (simp add: map_of_eq_None_iff)
    then show ?thesis using Cons None by (simp add: abs_scope_def)
  next
    case (Some sy)
    then have "n \<in> fst ` set (sc_symbols (ss ! k))" by (force dest: map_of_SomeD)
    then show ?thesis using Some by (simp add: abs_scope_def)
  qed
qed simp

lemma collect_visible:
  assumes "wf_manager m" and "perm_order ord"
  shows "\<exists>vis. collect_visible_names ord m = Some vis \<and> set vis = Collect (visible m)"
proof -
  have "collect_visible_names ord m = Some (concat (map (\<lambda>k. filter (\<lambda>key. \<not> is_internal key)
      (scope_keys ord (sm_scopes m ! k))) (ancestors (sm_scopes m) (sm_current m))))"
    using assms(1) visible_ancestors [of "sm_scopes m" "sm_current m" ord]
    by (simp add: collect_visible_names_def wf_manager_def)
  moreover have "visible m n \<longleftrightarrow> \<not> is_internal n \<and>
      (\<exists>k\<in>set (ancestors (sm_scopes m) (sm_current m)). n \<in> fst ` set (sc_symbols (sm_scopes m ! k)))" for n
    using stack_lookup_declared [of "sm_scopes m"] by (simp add: visible_def abs_stack_def)
  ultimately show ?thesis
    by (auto simp: scope_keys_def perm_order_set [OF assms(2)])
qed

definition closest :: "ustr \<Rightarrow> ustr set \<Rightarrow> ustr option \<Rightarrow> bool" where
  "closest name C r \<longleftrightarrow>
     (case r of
        None \<Rightarrow> \<forall>c\<in>C. c \<noteq> name \<longrightarrow> max_distance < levenshtein name c
      | Some s \<Rightarrow> s \<in> C \<and> s \<noteq> name \<and> levenshtein name s \<le> max_distance \<and>
          (\<forall>c\<in>C. c \<noteq> name \<longrightarrow> levenshtein name s \<le> levenshtein name c))"

definition best_so_far :: "ustr \<Rightarrow> ustr set \<Rightarrow> (ustr \<times> nat) option \<Rightarrow> bool" where
  "best_so_far name C best \<longleftrightarrow>
     closest name C (map_option fst best) \<and> (\<forall>s d. best = Some (s, d) \<longrightarrow> d = levenshtein name s)"

lemma better_best:
  assumes "best_so_far name C best"
  shows "best_so_far name (insert c C) (better name best c)"
  using assms
  by (cases best) (auto simp: best_so_far_def better_def closest_def Let_def)

lemma foldl_better: "best_so_far name (set xs) (foldl (better name) None xs)"
proof (induction xs rule: rev_induct)
  case (snoc c xs)
  then show ?case using better_best [OF snoc] by simp
qed (simp add: best_so_far_def closest_def)

text \<open>The suggestion for an unknown name is a visible name other than it, at most three edits away,
  and no visible name is closer; there is none only if no visible name is within three edits.\<close>

theorem suggestion_is_closest:
  assumes "wf_manager m" and "perm_order ord"
  shows "\<exists>r. find_suggestion ord m name = Some r \<and> closest name (Collect (visible m)) r"
proof -
  obtain vis where vis: "collect_visible_names ord m = Some vis" "set vis = Collect (visible m)"
    using collect_visible [OF assms] by blast
  show ?thesis using foldl_better [of name vis] vis by (simp add: find_suggestion_def best_so_far_def)
qed

section \<open>Witnesses\<close>

definition sample_symbol :: "string \<Rightarrow> symbol" where
  "sample_symbol n = \<lparr>sy_name = ascii n, sy_kind = SkVariable, sy_type_id = None, sy_mutable = False,
     sy_span = \<lparr>sp_file_id = 0, sp_start = 0, sp_end = 0\<rparr>, sy_used = False\<rparr>"

definition count_in_function :: scope_manager where
  "count_in_function = snd (define_symbol (sample_symbol ''count'') (enter_scope ScFunction new_manager))"

lemma wf_count_in_function: "wf_manager count_in_function"
  unfolding count_in_function_def by (intro wf_define_symbol wf_enter_scope wf_new_manager)

lemma refine_witness:
  "lookup_symbol count_in_function (ascii ''count'') =
     Some (stack_lookup (abs_stack count_in_function) (ascii ''count'')) \<and>
   in_function count_in_function = Some (ScFunction \<in> fst ` set (abs_stack count_in_function))"
  using scopes_refine_stack [OF wf_count_in_function] by blast

lemma reachable_witness: "wf_manager count_in_function \<and> fst (last (abs_stack count_in_function)) = ScGlobal"
proof (rule reachable_managers_are_well_formed)
  show "manager_step\<^sup>*\<^sup>* new_manager count_in_function"
    unfolding count_in_function_def
    by (rule rtranclp.rtrancl_into_rtrancl, rule r_into_rtranclp, rule manager_step.enters, rule manager_step.declared)
qed

lemma no_trace_witness:
  "lookup_symbol (run_stmt enter_scope exit_scope (\<lambda>sy m. snd (define_symbol sy m))
      (Block ScLoop [Decl (sample_symbol ''count''), Block ScBlock []]) count_in_function) (ascii ''count'') =
    lookup_symbol count_in_function (ascii ''count'')"
  by (rule block_leaves_no_trace [OF wf_count_in_function])

lemma edit_distance_witness:
  "edits (ascii ''cuont'') (ascii ''count'') (levenshtein (ascii ''cuont'') (ascii ''count''))"
  using levenshtein_is_edit_distance [of "ascii ''cuont''" "ascii ''count''"]
  by (simp add: is_ascii_def ascii_def)

lemma suggestion_witness:
  "\<exists>r. find_suggestion (\<lambda>ks. ks) count_in_function (ascii ''cuont'') = Some r \<and>
     closest (ascii ''cuont'') (Collect (visible count_in_function)) r"
  by (rule suggestion_is_closest [OF wf_count_in_function]) simp

end
