(* ===== verification/Lex_Token.thy ===== *)
theory Lex_Token
  imports Core_Span
begin

text \<open>
  The tokens of the lexer (\<open>doo_frontend/src/lexer/token.rs\<close>). The 84 kinds of the source's flat
  enumeration are grouped the way the source's own predicates group them: a keyword, a literal, an
  operator, a delimiter or a punctuation mark, besides the end of the file and the error. The
  descriptions of keywords and marks are their text between backquotes.
\<close>

section \<open>Kinds\<close>

datatype keyword =
    KwLet | KwMut | KwFn | KwImport | KwAs | KwStruct | KwEnum | KwInterface | KwIf | KwElse
    | KwFor | KwIn | KwReturn | KwBreak | KwContinue | KwPrint | KwOk | KwErr | KwNil | KwMatch
    | KwTrue | KwFalse | KwConst | KwStatic | KwImpl | KwPolicy | KwAsync | KwAwait | KwGo
    | KwScope

datatype literal_kind =
    LiInteger | LiFloat | LiString | LiStringTemplate | LiIdent

datatype operator_kind =
    OpPlus | OpMinus | OpStar | OpSlash | OpPercent | OpEqEq | OpNotEq | OpLt | OpGt | OpLtEq
    | OpGtEq | OpBang | OpAndAnd | OpOrOr | OpAnd | OpOr | OpEq | OpPlusEq | OpMinusEq
    | OpStarEq | OpSlashEq | OpPercentEq | OpPlusPlus | OpMinusMinus | OpArrow | OpFatArrow

datatype delimiter_kind =
    DlLParen | DlRParen | DlLBrace | DlRBrace | DlLBracket | DlRBracket

datatype punct_kind =
    PuComma | PuSemi | PuDot | PuDotDot | PuDotDotEq | PuSpread | PuColon | PuColonColon
    | PuQuestion | PuQuestionQuestion | PuAt | PuHash | PuTilde | PuDollar | PuUnderscore

datatype token_kind =
    TkEof | TkError | TkKeyword keyword | TkLiteral literal_kind | TkOperator operator_kind
  | TkDelimiter delimiter_kind | TkPunct punct_kind

record token =
  tk_kind :: token_kind
  tk_text :: ustr
  tk_span :: src_span

definition new_token :: "token_kind \<Rightarrow> ustr \<Rightarrow> src_span \<Rightarrow> token" where
  "new_token kind txt sp = \<lparr>tk_kind = kind, tk_text = txt, tk_span = sp\<rparr>"

definition token_is_eof :: "token \<Rightarrow> bool" where
  "token_is_eof t \<longleftrightarrow> tk_kind t = TkEof"

definition token_is_error :: "token \<Rightarrow> bool" where
  "token_is_error t \<longleftrightarrow> tk_kind t = TkError"

section \<open>Texts\<close>

primrec keyword_text :: "keyword \<Rightarrow> string" where
  "keyword_text KwLet = ''let''"
| "keyword_text KwMut = ''mut''"
| "keyword_text KwFn = ''fn''"
| "keyword_text KwImport = ''import''"
| "keyword_text KwAs = ''as''"
| "keyword_text KwStruct = ''struct''"
| "keyword_text KwEnum = ''enum''"
| "keyword_text KwInterface = ''interface''"
| "keyword_text KwIf = ''if''"
| "keyword_text KwElse = ''else''"
| "keyword_text KwFor = ''for''"
| "keyword_text KwIn = ''in''"
| "keyword_text KwReturn = ''return''"
| "keyword_text KwBreak = ''break''"
| "keyword_text KwContinue = ''continue''"
| "keyword_text KwPrint = ''print''"
| "keyword_text KwOk = ''Ok''"
| "keyword_text KwErr = ''Err''"
| "keyword_text KwNil = ''nil''"
| "keyword_text KwMatch = ''match''"
| "keyword_text KwTrue = ''true''"
| "keyword_text KwFalse = ''false''"
| "keyword_text KwConst = ''const''"
| "keyword_text KwStatic = ''static''"
| "keyword_text KwImpl = ''impl''"
| "keyword_text KwPolicy = ''policy''"
| "keyword_text KwAsync = ''async''"
| "keyword_text KwAwait = ''await''"
| "keyword_text KwGo = ''go''"
| "keyword_text KwScope = ''scope''"

primrec operator_text :: "operator_kind \<Rightarrow> string" where
  "operator_text OpPlus = ''+''"
| "operator_text OpMinus = ''-''"
| "operator_text OpStar = ''*''"
| "operator_text OpSlash = ''/''"
| "operator_text OpPercent = ''%''"
| "operator_text OpEqEq = ''==''"
| "operator_text OpNotEq = ''!=''"
| "operator_text OpLt = ''<''"
| "operator_text OpGt = ''>''"
| "operator_text OpLtEq = ''<=''"
| "operator_text OpGtEq = ''>=''"
| "operator_text OpBang = ''!''"
| "operator_text OpAndAnd = ''&&''"
| "operator_text OpOrOr = ''||''"
| "operator_text OpAnd = ''&''"
| "operator_text OpOr = ''|''"
| "operator_text OpEq = ''=''"
| "operator_text OpPlusEq = ''+=''"
| "operator_text OpMinusEq = ''-=''"
| "operator_text OpStarEq = ''*=''"
| "operator_text OpSlashEq = ''/=''"
| "operator_text OpPercentEq = ''%=''"
| "operator_text OpPlusPlus = ''++''"
| "operator_text OpMinusMinus = ''--''"
| "operator_text OpArrow = ''->''"
| "operator_text OpFatArrow = ''=>''"

primrec delimiter_text :: "delimiter_kind \<Rightarrow> string" where
  "delimiter_text DlLParen = ''(''"
| "delimiter_text DlRParen = '')''"
| "delimiter_text DlLBrace = ''{''"
| "delimiter_text DlRBrace = ''}''"
| "delimiter_text DlLBracket = ''[''"
| "delimiter_text DlRBracket = '']''"

primrec punct_text :: "punct_kind \<Rightarrow> string" where
  "punct_text PuComma = '',''"
| "punct_text PuSemi = '';''"
| "punct_text PuDot = ''.''"
| "punct_text PuDotDot = ''..''"
| "punct_text PuDotDotEq = ''..=''"
| "punct_text PuSpread = ''...''"
| "punct_text PuColon = '':''"
| "punct_text PuColonColon = ''::''"
| "punct_text PuQuestion = ''?''"
| "punct_text PuQuestionQuestion = ''??''"
| "punct_text PuAt = ''@''"
| "punct_text PuHash = ''#''"
| "punct_text PuTilde = ''~''"
| "punct_text PuDollar = ''$''"
| "punct_text PuUnderscore = ''_''"

primrec literal_text :: "literal_kind \<Rightarrow> string" where
  "literal_text LiInteger = ''integer''"
| "literal_text LiFloat = ''float''"
| "literal_text LiString = ''string''"
| "literal_text LiStringTemplate = ''string template''"
| "literal_text LiIdent = ''identifier''"

section \<open>Predicates and descriptions\<close>

fun keyword_str :: "token_kind \<Rightarrow> string option" where
  "keyword_str (TkKeyword k) = Some (keyword_text k)"
| "keyword_str _ = None"

definition is_keyword :: "token_kind \<Rightarrow> bool" where
  "is_keyword k \<longleftrightarrow> keyword_str k \<noteq> None"

fun is_literal_kind :: "token_kind \<Rightarrow> bool" where
  "is_literal_kind (TkLiteral l) \<longleftrightarrow> l \<noteq> LiIdent"
| "is_literal_kind (TkKeyword k) \<longleftrightarrow> k \<in> {KwTrue, KwFalse, KwNil}"
| "is_literal_kind _ \<longleftrightarrow> False"

fun is_operator_kind :: "token_kind \<Rightarrow> bool" where
  "is_operator_kind (TkOperator _) \<longleftrightarrow> True"
| "is_operator_kind _ \<longleftrightarrow> False"

fun is_delimiter_kind :: "token_kind \<Rightarrow> bool" where
  "is_delimiter_kind (TkDelimiter _) \<longleftrightarrow> True"
| "is_delimiter_kind _ \<longleftrightarrow> False"

definition backquoted :: "string \<Rightarrow> string" where
  "backquoted s = ''`'' @ s @ ''`''"

primrec kind_description :: "token_kind \<Rightarrow> string" where
  "kind_description TkEof = ''end of file''"
| "kind_description TkError = ''error''"
| "kind_description (TkKeyword k) = backquoted (keyword_text k)"
| "kind_description (TkLiteral l) = literal_text l"
| "kind_description (TkOperator x) = backquoted (operator_text x)"
| "kind_description (TkDelimiter d) = backquoted (delimiter_text d)"
| "kind_description (TkPunct p) = backquoted (punct_text p)"

end
