(* ===== verification/Lex_Lexer.thy ===== *)
theory Lex_Lexer
  imports Lex_Token
begin

text \<open>
  The lexer (\<open>doo_frontend/src/lexer/lexer.rs\<close>): a cursor over the characters of the source with
  its line, column and byte offset, one scanner per kind of token, and the loop that collects
  tokens up to the end of the file.

  The Unicode classes \<open>char::is_alphabetic\<close> and \<open>char::is_alphanumeric\<close> are parameters. Lines,
  columns and offsets are 32-bit in the source and natural numbers here: an input of more than ten
  megabytes is refused before anything is scanned.
\<close>

section \<open>The cursor\<close>

definition max_input_size :: nat where
  "max_input_size = 10 * 1024 * 1024"

definition max_token_count :: nat where
  "max_token_count = 1000000"

definition max_string_length :: nat where
  "max_string_length = 100000"

definition max_identifier_length :: nat where
  "max_identifier_length = 1000"

record lexer =
  lx_source :: ustr
  lx_chars :: ustr
  lx_pos :: nat
  lx_line :: nat
  lx_col :: nat
  lx_offset :: nat
  lx_file_id :: nat

definition new_lexer :: "ustr \<Rightarrow> nat \<Rightarrow> lexer" where
  "new_lexer source file_id =
     \<lparr>lx_source = source, lx_chars = source, lx_pos = 0, lx_line = 1, lx_col = 1, lx_offset = 0,
      lx_file_id = file_id\<rparr>"

definition at_end :: "lexer \<Rightarrow> bool" where
  "at_end l \<longleftrightarrow> length (lx_chars l) \<le> lx_pos l"

definition current :: "lexer \<Rightarrow> nat" where
  "current l = (if lx_pos l < length (lx_chars l) then lx_chars l ! lx_pos l else 0)"

definition peek :: "lexer \<Rightarrow> nat option" where
  "peek l = (if lx_pos l + 1 < length (lx_chars l) then Some (lx_chars l ! (lx_pos l + 1)) else None)"

definition advance :: "lexer \<Rightarrow> lexer" where
  "advance l =
     (if at_end l then l
      else l\<lparr>lx_offset := lx_offset l + utf8_size (current l), lx_col := lx_col l + 1, lx_pos := lx_pos l + 1\<rparr>)"

definition next_line :: "lexer \<Rightarrow> lexer" where
  "next_line l = l\<lparr>lx_line := lx_line l + 1, lx_col := 1\<rparr>"

definition make_token :: "lexer \<Rightarrow> token_kind \<Rightarrow> ustr \<Rightarrow> token" where
  "make_token l kind txt =
     new_token kind txt (new_span (lx_file_id l) (lx_offset l) (lx_offset l + utf8_len txt))"

definition make_token_at :: "lexer \<Rightarrow> token_kind \<Rightarrow> ustr \<Rightarrow> nat \<Rightarrow> token" where
  "make_token_at l kind txt start = new_token kind txt (new_span (lx_file_id l) start (lx_offset l))"

definition error_token :: "lexer \<Rightarrow> string \<Rightarrow> token" where
  "error_token l msg = new_token TkError (ascii msg) (new_span (lx_file_id l) (lx_offset l) (lx_offset l))"

section \<open>What a scanner may do to the cursor\<close>

text \<open>Moving the cursor: any number of advances and line breaks. Every scanner below moves the
  cursor only, except that of numbers, which sets it back; their loops end because an advance
  leaves fewer characters.\<close>

inductive moves :: "lexer \<Rightarrow> lexer \<Rightarrow> bool" where
  moves_refl [simp, intro]: "moves l l"
| moves_advance [intro]: "moves l m \<Longrightarrow> moves l (advance m)"
| moves_next_line [intro]: "moves l m \<Longrightarrow> moves l (next_line m)"

lemma moves_trans: "moves l m \<Longrightarrow> moves k l \<Longrightarrow> moves k m"
  by (induction rule: moves.induct) auto

definition remaining :: "lexer \<Rightarrow> nat" where
  "remaining l = length (lx_chars l) - lx_pos l"

lemma remaining_next_line [simp]: "remaining (next_line l) = remaining l"
  by (simp add: next_line_def remaining_def)

lemma at_end_next_line [simp]: "at_end (next_line l) = at_end l"
  by (simp add: next_line_def at_end_def)

lemma remaining_advance_le: "remaining (advance l) \<le> remaining l"
  by (auto simp: advance_def remaining_def intro: diff_le_mono2)

lemma remaining_advance: "\<not> at_end l \<Longrightarrow> remaining (advance l) < remaining l"
  by (simp add: advance_def remaining_def at_end_def)

lemma moves_remaining: "moves l m \<Longrightarrow> remaining m \<le> remaining l"
  by (induction rule: moves.induct) (auto intro: order_trans [OF remaining_advance_le])

lemma moves_advance_remaining: "moves (advance l) m \<Longrightarrow> \<not> at_end l \<Longrightarrow> remaining m < remaining l"
  using moves_remaining [of "advance l" m] remaining_advance [of l] by simp

text \<open>The loop that advances while a test of the current character holds.\<close>

function advance_while :: "(nat \<Rightarrow> bool) \<Rightarrow> lexer \<Rightarrow> lexer" where
  "advance_while P l = (if \<not> at_end l \<and> P (current l) then advance_while P (advance l) else l)"
  by pat_completeness auto
termination by (relation "measure (\<lambda>(P, l). remaining l)") (auto intro: remaining_advance)

declare advance_while.simps [simp del]

lemma moves_advance_while: "moves k l \<Longrightarrow> moves k (advance_while P l)"
proof (induction P l rule: advance_while.induct)
  case (1 P l)
  then show ?case by (auto simp: advance_while.simps [of P l])
qed

section \<open>Characters\<close>

abbreviation ch :: "char \<Rightarrow> nat" where
  "ch c \<equiv> of_char c"

definition is_ascii_digit :: "nat \<Rightarrow> bool" where
  "is_ascii_digit c \<longleftrightarrow> 48 \<le> c \<and> c \<le> 57"

section \<open>Whitespace and comments\<close>

function skip_block_comment :: "nat \<Rightarrow> lexer \<Rightarrow> lexer" where
  "skip_block_comment depth l =
     (if \<not> at_end l \<and> 0 < depth then
        if current l = ch CHR ''/'' \<and> peek l = Some (ch CHR ''*'') then
          skip_block_comment (depth + 1) (advance (advance l))
        else if current l = ch CHR ''*'' \<and> peek l = Some (ch CHR ''/'') then
          skip_block_comment (depth - 1) (advance (advance l))
        else if current l = 10 then skip_block_comment depth (next_line (advance l))
        else skip_block_comment depth (advance l)
      else l)"
  by pat_completeness auto
termination
  by (relation "measure (\<lambda>(d, l). remaining l)")
    (auto intro: remaining_advance moves_advance_remaining)

declare skip_block_comment.simps [simp del]

lemma moves_skip_block_comment: "moves k l \<Longrightarrow> moves k (skip_block_comment d l)"
proof (induction d l rule: skip_block_comment.induct)
  case (1 d l)
  then show ?case by (simp add: skip_block_comment.simps [of d l] moves_advance moves_next_line)
qed

function skip_whitespace_and_comments :: "lexer \<Rightarrow> lexer" where
  "skip_whitespace_and_comments l =
     (if at_end l then l
      else if current l \<in> {32, 9, 13} then skip_whitespace_and_comments (advance l)
      else if current l = 10 then skip_whitespace_and_comments (next_line (advance l))
      else if current l = ch CHR ''/'' \<and> peek l = Some (ch CHR ''/'') then
        skip_whitespace_and_comments (advance_while (\<lambda>c. c \<noteq> 10) (advance (advance l)))
      else if current l = ch CHR ''/'' \<and> peek l = Some (ch CHR ''*'') then
        skip_whitespace_and_comments (skip_block_comment 1 (advance (advance l)))
      else l)"
  by pat_completeness auto
termination
  by (relation "measure remaining")
    (auto intro!: moves_advance_remaining moves_advance_while moves_skip_block_comment)

declare skip_whitespace_and_comments.simps [simp del]

lemma moves_skip_whitespace_and_comments: "moves k l \<Longrightarrow> moves k (skip_whitespace_and_comments l)"
proof (induction l rule: skip_whitespace_and_comments.induct)
  case (1 l)
  then show ?case
    by (simp add: skip_whitespace_and_comments.simps [of l] moves_advance moves_next_line
        moves_advance_while moves_skip_block_comment)
qed

section \<open>String literals\<close>

text \<open>After an error the scanner skips to the closing quote, or the three closing quotes of a
  multi-line string, and past them.\<close>

function to_quote :: "lexer \<Rightarrow> lexer" where
  "to_quote l =
     (if \<not> at_end l \<and> current l \<noteq> ch CHR 0x22
      then to_quote (advance (if current l = 10 then next_line l else l))
      else l)"
  by pat_completeness auto
termination by (relation "measure remaining") (auto intro: remaining_advance less_le_trans [OF remaining_advance])

declare to_quote.simps [simp del]

definition skip_string :: "lexer \<Rightarrow> lexer" where
  "skip_string l = (let l = to_quote l in if \<not> at_end l then advance l else l)"

definition at_closing_quotes :: "lexer \<Rightarrow> bool" where
  "at_closing_quotes l \<longleftrightarrow>
     current l = ch CHR 0x22 \<and>
     lx_pos l + 1 < length (lx_chars l) \<and> lx_chars l ! (lx_pos l + 1) = ch CHR 0x22 \<and>
     lx_pos l + 2 < length (lx_chars l) \<and> lx_chars l ! (lx_pos l + 2) = ch CHR 0x22"

function skip_multiline_string :: "lexer \<Rightarrow> lexer" where
  "skip_multiline_string l =
     (if at_end l then l
      else if at_closing_quotes l then advance (advance (advance l))
      else skip_multiline_string (advance (if current l = 10 then next_line l else l)))"
  by pat_completeness auto
termination by (relation "measure remaining") (auto intro: remaining_advance less_le_trans [OF remaining_advance])

declare skip_multiline_string.simps [simp del]

lemma moves_line_advance: "moves k l \<Longrightarrow> moves k (advance (if b then next_line l else l))"
  by auto

lemma moves_to_quote: "moves k l \<Longrightarrow> moves k (to_quote l)"
proof (induction l rule: to_quote.induct)
  case (1 l)
  then show ?case using moves_line_advance [of k l] by (simp add: to_quote.simps [of l])
qed

lemma moves_skip_string: "moves k l \<Longrightarrow> moves k (skip_string l)"
  by (simp add: skip_string_def Let_def moves_to_quote moves_advance)

lemma moves_skip_multiline_string: "moves k l \<Longrightarrow> moves k (skip_multiline_string l)"
proof (induction l rule: skip_multiline_string.induct)
  case (1 l)
  then show ?case
    using moves_line_advance [of k l] by (simp add: skip_multiline_string.simps [of l] moves_advance)
qed

text \<open>An interpolation is copied up to the brace that matches its first one.\<close>

function copy_interpolation :: "nat \<Rightarrow> ustr \<Rightarrow> lexer \<Rightarrow> ustr \<times> lexer" where
  "copy_interpolation depth val l =
     (if \<not> at_end l \<and> 0 < depth then
        let c = current l;
            depth = (if c = ch CHR ''{'' then depth + 1 else if c = ch CHR ''}'' then depth - 1 else depth);
            l = (if c = 10 then next_line l else l)
        in copy_interpolation depth (val @ [c]) (advance l)
      else (val, l))"
  by pat_completeness auto
termination
  by (relation "measure (\<lambda>(d, v, l). remaining l)")
    (auto simp: Let_def intro: remaining_advance less_le_trans [OF remaining_advance])

declare copy_interpolation.simps [simp del]

lemma moves_copy_interpolation: "moves k l \<Longrightarrow> moves k (snd (copy_interpolation d v l))"
proof (induction d v l rule: copy_interpolation.induct)
  case (1 d v l)
  then show ?case
    using moves_line_advance [of k l] by (simp add: copy_interpolation.simps [of d v l] Let_def)
qed

definition scan_interpolation :: "ustr \<Rightarrow> lexer \<Rightarrow> ustr \<times> lexer" where
  "scan_interpolation val l =
     (let val = val @ [current l]; l = advance l; val = val @ [current l]; l = advance l
      in copy_interpolation 1 val l)"

lemma moves_scan_interpolation: "moves k (advance l) \<Longrightarrow> moves k (snd (scan_interpolation v l))"
  by (simp add: scan_interpolation_def Let_def moves_copy_interpolation moves_advance)

subsection \<open>Escapes\<close>

function copy_hex :: "ustr \<Rightarrow> lexer \<Rightarrow> ustr \<times> lexer" where
  "copy_hex hex l =
     (if \<not> at_end l \<and> current l \<noteq> ch CHR ''}'' \<and> utf8_len hex < 6
      then copy_hex (hex @ [current l]) (advance l) else (hex, l))"
  by pat_completeness auto
termination by (relation "measure (\<lambda>(h, l). remaining l)") (auto intro: remaining_advance)

declare copy_hex.simps [simp del]

lemma moves_copy_hex: "moves k l \<Longrightarrow> moves k (snd (copy_hex h l))"
proof (induction h l rule: copy_hex.induct)
  case (1 h l)
  then show ?case by (auto simp: copy_hex.simps [of h l])
qed

definition hex_digit :: "nat \<Rightarrow> nat option" where
  "hex_digit c =
     (if 48 \<le> c \<and> c \<le> 57 then Some (c - 48)
      else if 97 \<le> c \<and> c \<le> 102 then Some (c - 87)
      else if 65 \<le> c \<and> c \<le> 70 then Some (c - 55)
      else None)"

fun hex_digits :: "nat \<Rightarrow> ustr \<Rightarrow> nat option" where
  "hex_digits n [] = Some n"
| "hex_digits n (c # s) = (case hex_digit c of None \<Rightarrow> None | Some d \<Rightarrow> hex_digits (16 * n + d) s)"

text \<open>\<open>u32::from_str_radix\<close> on at most six digits, which do not overflow; a leading plus sign is
  accepted, and neither an empty string nor a sign alone is a number.\<close>

definition parse_hex :: "ustr \<Rightarrow> nat option" where
  "parse_hex s =
     (let digits = (case s of c # r \<Rightarrow> if c = ch CHR ''+'' then r else s | [] \<Rightarrow> [])
      in if digits = [] then None else hex_digits 0 digits)"

definition char_from_u32 :: "nat \<Rightarrow> nat option" where
  "char_from_u32 n = (if n < 0x110000 \<and> \<not> (0xD800 \<le> n \<and> n < 0xE000) then Some n else None)"

definition simple_escape :: "nat \<Rightarrow> nat option" where
  "simple_escape c =
     (if c = ch CHR ''n'' then Some 10
      else if c = ch CHR ''r'' then Some 13
      else if c = ch CHR ''t'' then Some 9
      else if c = ch CHR 0x5C then Some (ch CHR 0x5C)
      else if c = ch CHR 0x22 then Some (ch CHR 0x22)
      else if c = ch CHR ''0'' then Some 0
      else if c = ch CHR ''$'' then Some (ch CHR ''$'')
      else None)"

definition bad_unicode :: "ustr \<Rightarrow> ustr" where
  "bad_unicode hex = ascii ''Invalid unicode escape: '' @ [ch CHR 0x5C] @ ascii ''u{'' @ hex @ ascii ''}''"

definition bare_unicode :: ustr where
  "bare_unicode =
     ascii ''Invalid escape sequence: '' @ [ch CHR 0x5C] @ ascii ''u (expected '' @ [ch CHR 0x5C] @ ascii ''u{XXXX})''"

definition bad_escape :: "nat \<Rightarrow> ustr" where
  "bad_escape c = ascii ''Invalid escape sequence: '' @ [ch CHR 0x5C, c]"

text \<open>The escape that begins at the cursor, after the backslash: the value and cursor with which the
  string goes on, or the message of the error.\<close>

definition scan_unicode :: "ustr \<Rightarrow> lexer \<Rightarrow> (ustr \<times> lexer, ustr \<times> lexer) sum" where
  "scan_unicode val l =
     (let l = advance l
      in if \<not> at_end l \<and> current l = ch CHR ''{'' then
           let (hex, l) = copy_hex [] (advance l);
               closed = (\<not> at_end l \<and> current l = ch CHR ''}'');
               l = (if closed then advance l else l)
           in case (if closed then Option.bind (parse_hex hex) char_from_u32 else None) of
                Some c \<Rightarrow> Inr (val @ [c], l)
              | None \<Rightarrow> Inl (bad_unicode hex, l)
         else Inl (bare_unicode, l))"

definition scan_escape :: "ustr \<Rightarrow> lexer \<Rightarrow> (ustr \<times> lexer, ustr \<times> lexer) sum" where
  "scan_escape val l =
     (let l = advance l
      in if at_end l then Inr (val, l)
         else if current l = ch CHR ''u'' then scan_unicode val l
         else case simple_escape (current l) of
                Some c \<Rightarrow> Inr (val @ [c], advance l)
              | None \<Rightarrow> Inl (bad_escape (current l), l))"

lemma moves_scan_unicode:
  "moves k l \<Longrightarrow> (case scan_unicode v l of Inl (e, m) \<Rightarrow> moves k m | Inr (w, m) \<Rightarrow> moves k m)"
  using moves_copy_hex [of k "advance (advance l)" "[]"]
  by (auto simp: scan_unicode_def Let_def moves_advance split: prod.splits option.splits)

lemma moves_scan_escape:
  assumes "moves k (advance l)"
  shows "case scan_escape v l of Inl (e, m) \<Rightarrow> moves k m | Inr (w, m) \<Rightarrow> moves k m"
  using assms moves_scan_unicode [of k "advance l" v]
  by (simp add: scan_escape_def Let_def moves_advance split: option.splits)

lemma scan_interpolation_remaining:
  "\<not> at_end l \<Longrightarrow> scan_interpolation v l = (w, m) \<Longrightarrow> remaining m < remaining l"
  using moves_scan_interpolation [OF moves_refl, of l v] by (simp add: moves_advance_remaining)

lemma scan_escape_remaining:
  "\<not> at_end l \<Longrightarrow> scan_escape v l = Inr (w, m) \<Longrightarrow> remaining m < remaining l"
  using moves_scan_escape [OF moves_refl, of l v] by (simp add: moves_advance_remaining)

subsection \<open>Strings on one line\<close>

definition string_kind :: "bool \<Rightarrow> token_kind" where
  "string_kind interp = TkLiteral (if interp then LiStringTemplate else LiString)"

function scan_string_loop :: "nat \<Rightarrow> ustr \<Rightarrow> nat \<Rightarrow> bool \<Rightarrow> lexer \<Rightarrow> token \<times> lexer" where
  "scan_string_loop start val n interp l =
     (if at_end l then (make_token_at l TkError (ascii ''Unterminated string'') start, l)
      else if current l = ch CHR 0x22 then
        let l = advance l in (make_token_at l (string_kind interp) val start, l)
      else if max_string_length < n + 1 then
        let l = skip_string l in (make_token_at l TkError (ascii ''String literal too long'') start, l)
      else if current l = ch CHR ''$'' \<and> peek l = Some (ch CHR ''{'') then
        case scan_interpolation val l of (val, l) \<Rightarrow> scan_string_loop start val (n + 1) True l
      else if current l = ch CHR 0x5C then
        case scan_escape val l of
          Inl (msg, l) \<Rightarrow> let l = skip_string l in (make_token_at l TkError msg start, l)
        | Inr (val, l) \<Rightarrow> scan_string_loop start val (n + 1) interp l
      else if current l = 10 then
        scan_string_loop start (val @ [10]) (n + 1) interp (advance (next_line l))
      else scan_string_loop start (val @ [current l]) (n + 1) interp (advance l))"
  by pat_completeness auto
termination
  by (relation "measure (\<lambda>(s, v, n, i, l). remaining l)")
    (auto intro: remaining_advance less_le_trans [OF remaining_advance]
       scan_interpolation_remaining [OF _ sym] scan_escape_remaining [OF _ sym] scan_escape_remaining)

declare scan_string_loop.simps [simp del]

definition scan_string :: "lexer \<Rightarrow> token \<times> lexer" where
  "scan_string l = scan_string_loop (lx_offset l) [] 0 False (advance l)"

subsection \<open>Strings on several lines\<close>

text \<open>\<open>str::lines\<close>: the lines without their newline, nor the carriage return before it; an empty
  last line is not one.\<close>

definition strip_cr :: "ustr \<Rightarrow> ustr" where
  "strip_cr s = (if s \<noteq> [] \<and> last s = 13 then butlast s else s)"

fun str_lines :: "ustr \<Rightarrow> ustr \<Rightarrow> ustr list" where
  "str_lines acc [] = (if acc = [] then [] else [acc])"
| "str_lines acc (c # s) = (if c = 10 then strip_cr acc # str_lines [] s else str_lines (acc @ [c]) s)"

fun trim_line :: "nat \<Rightarrow> nat \<Rightarrow> ustr \<Rightarrow> ustr" where
  "trim_line indent stripped [] = []"
| "trim_line indent stripped (c # s) =
     (if c = 32 \<or> c = 9
      then if indent \<le> stripped + 1 then s else trim_line indent (stripped + 1) s
      else c # s)"

fun join_lines :: "ustr list \<Rightarrow> ustr" where
  "join_lines [] = []"
| "join_lines [x] = x"
| "join_lines (x # y # xs) = x @ 10 # join_lines (y # xs)"

definition trim_multiline_string :: "ustr \<Rightarrow> nat \<Rightarrow> ustr" where
  "trim_multiline_string raw indent = join_lines (map (trim_line indent 0) (str_lines [] raw))"

function scan_multiline_loop :: "nat \<Rightarrow> ustr \<Rightarrow> nat \<Rightarrow> bool \<Rightarrow> lexer \<Rightarrow> token \<times> lexer" where
  "scan_multiline_loop start val n interp l =
     (if at_end l then (make_token_at l TkError (ascii ''Unterminated multi-line string'') start, l)
      else if at_closing_quotes l then
        let indent = lx_col l - 1; l = advance (advance (advance l))
        in (make_token_at l (string_kind interp) (trim_multiline_string val indent) start, l)
      else if max_string_length < n + 1 then
        let l = skip_multiline_string l
        in (make_token_at l TkError (ascii ''String literal too long'') start, l)
      else if current l = ch CHR ''$'' \<and> peek l = Some (ch CHR ''{'') then
        case scan_interpolation val l of (val, l) \<Rightarrow> scan_multiline_loop start val (n + 1) True l
      else if current l = ch CHR 0x5C then
        case scan_escape val l of
          Inl (msg, l) \<Rightarrow> let l = skip_multiline_string l in (make_token_at l TkError msg start, l)
        | Inr (val, l) \<Rightarrow> scan_multiline_loop start val (n + 1) interp l
      else if current l = 10 then
        scan_multiline_loop start (val @ [10]) (n + 1) interp (advance (next_line l))
      else scan_multiline_loop start (val @ [current l]) (n + 1) interp (advance l))"
  by pat_completeness auto
termination
  by (relation "measure (\<lambda>(s, v, n, i, l). remaining l)")
    (auto intro: remaining_advance less_le_trans [OF remaining_advance]
       scan_interpolation_remaining [OF _ sym] scan_escape_remaining [OF _ sym] scan_escape_remaining)

declare scan_multiline_loop.simps [simp del]

definition skip_first_newline :: "lexer \<Rightarrow> lexer" where
  "skip_first_newline l =
     (if \<not> at_end l \<and> current l = 10 then next_line (advance l)
      else if \<not> at_end l \<and> current l = 13 then
        let l = advance l; l = (if \<not> at_end l \<and> current l = 10 then advance l else l) in next_line l
      else l)"

definition scan_multiline_string :: "lexer \<Rightarrow> token \<times> lexer" where
  "scan_multiline_string l =
     scan_multiline_loop (lx_offset l) [] 0 False (skip_first_newline (advance (advance (advance l))))"

section \<open>Numbers, names and marks\<close>

definition slice_chars :: "lexer \<Rightarrow> nat \<Rightarrow> ustr" where
  "slice_chars l start = take (lx_pos l - start) (drop start (lx_chars l))"

definition scan_digits :: "lexer \<Rightarrow> lexer" where
  "scan_digits l = advance_while is_ascii_digit l"

definition scan_fraction :: "lexer \<Rightarrow> bool \<times> lexer" where
  "scan_fraction l =
     (if \<not> at_end l \<and> current l = ch CHR ''.'' then
        case peek l of
          Some c \<Rightarrow> if is_ascii_digit c then (True, scan_digits (advance l)) else (False, l)
        | None \<Rightarrow> (False, l)
      else (False, l))"

text \<open>An exponent without digits sets the position back, and only the position.\<close>

definition scan_exponent :: "bool \<Rightarrow> lexer \<Rightarrow> bool \<times> lexer" where
  "scan_exponent is_float l =
     (if \<not> at_end l \<and> (current l = ch CHR ''e'' \<or> current l = ch CHR ''E'') then
        let exp_pos = lx_pos l;
            l = advance l;
            l = (if \<not> at_end l \<and> (current l = ch CHR ''+'' \<or> current l = ch CHR ''-'') then advance l else l)
        in if \<not> at_end l \<and> is_ascii_digit (current l) then (True, scan_digits l)
           else (is_float, l\<lparr>lx_pos := exp_pos\<rparr>)
      else (is_float, l))"

definition scan_number :: "lexer \<Rightarrow> token \<times> lexer" where
  "scan_number l =
     (let start = lx_offset l; start_pos = lx_pos l;
          (is_float, l) = scan_fraction (scan_digits l);
          (is_float, l) = scan_exponent is_float l;
          kind = TkLiteral (if is_float then LiFloat else LiInteger)
      in (make_token_at l kind (slice_chars l start_pos) start, l))"

subsection \<open>Identifiers and keywords\<close>

definition keyword_table :: "(string \<times> keyword) list" where
  "keyword_table =
   [(''const'', KwConst), (''static'', KwStatic), (''impl'', KwImpl), (''let'', KwLet),
    (''mut'', KwMut), (''fn'', KwFn), (''import'', KwImport), (''as'', KwAs),
    (''struct'', KwStruct), (''enum'', KwEnum), (''interface'', KwInterface),
    (''match'', KwMatch), (''if'', KwIf), (''else'', KwElse), (''for'', KwFor), (''in'', KwIn),
    (''return'', KwReturn), (''break'', KwBreak), (''continue'', KwContinue),
    (''print'', KwPrint), (''Ok'', KwOk), (''Err'', KwErr), (''nil'', KwNil), (''true'', KwTrue),
    (''false'', KwFalse), (''policy'', KwPolicy), (''async'', KwAsync), (''await'', KwAwait),
    (''go'', KwGo), (''scope'', KwScope)]"

definition table_lookup :: "(string \<times> 'a) list \<Rightarrow> ustr \<Rightarrow> 'a option" where
  "table_lookup tbl s = map_of (map (\<lambda>(t, k). (ascii t, k)) tbl) s"

definition is_ident_char :: "(nat \<Rightarrow> bool) \<Rightarrow> nat \<Rightarrow> bool" where
  "is_ident_char alnum c \<longleftrightarrow> alnum c \<or> c = ch CHR ''_''"

text \<open>The loop over an identifier: whether it was too long, in which case the rest is skipped.\<close>

function ident_loop :: "(nat \<Rightarrow> bool) \<Rightarrow> nat \<Rightarrow> lexer \<Rightarrow> bool \<times> lexer" where
  "ident_loop alnum n l =
     (if \<not> at_end l \<and> is_ident_char alnum (current l) then
        if max_identifier_length < n + 1 then (True, advance_while (is_ident_char alnum) l)
        else ident_loop alnum (n + 1) (advance l)
      else (False, l))"
  by pat_completeness auto
termination by (relation "measure (\<lambda>(a, n, l). remaining l)") (auto intro: remaining_advance)

declare ident_loop.simps [simp del]

definition scan_identifier :: "(nat \<Rightarrow> bool) \<Rightarrow> lexer \<Rightarrow> token \<times> lexer" where
  "scan_identifier alnum l =
     (let start = lx_offset l; start_pos = lx_pos l; (too_long, l) = ident_loop alnum 0 l
      in if too_long then (make_token_at l TkError (ascii ''Identifier too long'') start, l)
         else let txt = slice_chars l start_pos
              in if txt = ascii ''_'' then (make_token_at l (TkPunct PuUnderscore) (ascii ''_'') start, l)
                 else let kind = (case table_lookup keyword_table txt of
                                    Some k \<Rightarrow> TkKeyword k | None \<Rightarrow> TkLiteral LiIdent)
                      in (make_token_at l kind txt start, l))"

subsection \<open>Operators and punctuation\<close>

definition three_char_table :: "(string \<times> token_kind) list" where
  "three_char_table =
   [(''..='', TkPunct PuDotDotEq), (''...'', TkPunct PuSpread)]"

definition two_char_table :: "(string \<times> token_kind) list" where
  "two_char_table =
   [(''=='', TkOperator OpEqEq), (''!='', TkOperator OpNotEq), (''<='', TkOperator OpLtEq),
    (''>='', TkOperator OpGtEq), (''&&'', TkOperator OpAndAnd), (''||'', TkOperator OpOrOr),
    (''++'', TkOperator OpPlusPlus), (''--'', TkOperator OpMinusMinus),
    (''+='', TkOperator OpPlusEq), (''-='', TkOperator OpMinusEq), (''*='', TkOperator OpStarEq),
    (''/='', TkOperator OpSlashEq), (''%='', TkOperator OpPercentEq),
    (''->'', TkOperator OpArrow), (''=>'', TkOperator OpFatArrow), (''..'', TkPunct PuDotDot),
    (''::'', TkPunct PuColonColon), (''??'', TkPunct PuQuestionQuestion)]"

definition one_char_table :: "(char \<times> token_kind) list" where
  "one_char_table =
   [(CHR ''+'', TkOperator OpPlus), (CHR ''-'', TkOperator OpMinus),
    (CHR ''*'', TkOperator OpStar), (CHR ''/'', TkOperator OpSlash),
    (CHR ''%'', TkOperator OpPercent), (CHR ''='', TkOperator OpEq),
    (CHR ''!'', TkOperator OpBang), (CHR ''<'', TkOperator OpLt), (CHR ''>'', TkOperator OpGt),
    (CHR ''&'', TkOperator OpAnd), (CHR ''|'', TkOperator OpOr),
    (CHR ''('', TkDelimiter DlLParen), (CHR '')'', TkDelimiter DlRParen),
    (CHR ''{'', TkDelimiter DlLBrace), (CHR ''}'', TkDelimiter DlRBrace),
    (CHR ''['', TkDelimiter DlLBracket), (CHR '']'', TkDelimiter DlRBracket),
    (CHR '','', TkPunct PuComma), (CHR '';'', TkPunct PuSemi), (CHR ''.'', TkPunct PuDot),
    (CHR '':'', TkPunct PuColon), (CHR ''?'', TkPunct PuQuestion), (CHR ''@'', TkPunct PuAt),
    (CHR ''#'', TkPunct PuHash), (CHR ''~'', TkPunct PuTilde), (CHR ''$'', TkPunct PuDollar),
    (CHR ''_'', TkPunct PuUnderscore)]"

definition three_char_kind :: "lexer \<Rightarrow> token_kind option" where
  "three_char_kind l =
     (if lx_pos l + 2 < length (lx_chars l)
      then table_lookup three_char_table (take 3 (drop (lx_pos l) (lx_chars l))) else None)"

definition two_char_kind :: "lexer \<Rightarrow> token_kind option" where
  "two_char_kind l =
     (case peek l of Some c \<Rightarrow> table_lookup two_char_table [current l, c] | None \<Rightarrow> None)"

definition one_char_kind :: "nat \<Rightarrow> token_kind" where
  "one_char_kind c =
     (case map_of (map (\<lambda>(t, k). (ch t, k)) one_char_table) c of Some k \<Rightarrow> k | None \<Rightarrow> TkError)"

definition scan_operator :: "lexer \<Rightarrow> token \<times> lexer" where
  "scan_operator l =
     (let start = lx_offset l; c = current l
      in case three_char_kind l of
           Some k \<Rightarrow>
             let txt = take 3 (drop (lx_pos l) (lx_chars l)); l = advance (advance (advance l))
             in (make_token_at l k txt start, l)
         | None \<Rightarrow>
             (case two_char_kind l of
                Some k \<Rightarrow>
                  let txt = [c, the (peek l)]; l = advance (advance l) in (make_token_at l k txt start, l)
              | None \<Rightarrow> let l = advance l in (make_token_at l (one_char_kind c) [c] start, l)))"

section \<open>Tokens\<close>

definition is_triple_quote :: "lexer \<Rightarrow> bool" where
  "is_triple_quote l \<longleftrightarrow>
     lx_pos l + 2 < length (lx_chars l) \<and> lx_chars l ! (lx_pos l + 1) = ch CHR 0x22 \<and>
     lx_chars l ! (lx_pos l + 2) = ch CHR 0x22"

definition next_token :: "(nat \<Rightarrow> bool) \<Rightarrow> (nat \<Rightarrow> bool) \<Rightarrow> lexer \<Rightarrow> token \<times> lexer" where
  "next_token alpha alnum l =
     (let l = skip_whitespace_and_comments l; c = current l
      in if at_end l then (make_token l TkEof [], l)
         else if c = ch CHR 0x22 then if is_triple_quote l then scan_multiline_string l else scan_string l
         else if is_ascii_digit c then scan_number l
         else if alpha c \<or> c = ch CHR ''_'' then scan_identifier alnum l
         else scan_operator l)"

function tokenize_loop ::
    "(nat \<Rightarrow> bool) \<Rightarrow> (nat \<Rightarrow> bool) \<Rightarrow> token list \<Rightarrow> lexer \<Rightarrow> token list \<times> lexer" where
  "tokenize_loop alpha alnum tokens l =
     (if max_token_count \<le> length tokens then (tokens @ [error_token l ''Too many tokens''], l)
      else case next_token alpha alnum l of
             (t, l) \<Rightarrow> if tk_kind t = TkEof then (tokens @ [t], l)
                      else tokenize_loop alpha alnum (tokens @ [t]) l)"
  by pat_completeness auto
termination by (relation "measure (\<lambda>(a, b, ts, l). max_token_count - length ts)") auto

declare tokenize_loop.simps [simp del]

definition tokenize :: "(nat \<Rightarrow> bool) \<Rightarrow> (nat \<Rightarrow> bool) \<Rightarrow> lexer \<Rightarrow> token list \<times> lexer" where
  "tokenize alpha alnum l =
     (if max_input_size < utf8_len (lx_source l) then ([error_token l ''Input too large''], l)
      else tokenize_loop alpha alnum [] l)"

end
