(* ===== verification/Lex_Scanning.thy ===== *)
theory Lex_Scanning
  imports Lex_Lexer
begin

text \<open>
  What the scanners of the lexer share: the contract of a token scanner, as a locale interpreted by
  the scanner of every kind of token, the agreement of byte offsets with positions, the texts of
  tokens, and the progress of the loop that collects them.
\<close>

section \<open>Offsets and positions\<close>

definition in_sync :: "lexer \<Rightarrow> bool" where
  "in_sync l \<longleftrightarrow> lx_pos l \<le> length (lx_chars l) \<and> lx_offset l = utf8_len (take (lx_pos l) (lx_chars l))"

definition same_input :: "lexer \<Rightarrow> lexer \<Rightarrow> bool" where
  "same_input l m \<longleftrightarrow> lx_source m = lx_source l \<and> lx_chars m = lx_chars l \<and> lx_file_id m = lx_file_id l"

lemma utf8_len_append [simp]: "utf8_len (s @ t) = utf8_len s + utf8_len t"
  by (simp add: utf8_len_def)

lemma utf8_len_Nil [simp]: "utf8_len [] = 0"
  by simp

lemma utf8_len_Cons: "utf8_len (c # s) = utf8_size c + utf8_len s"
  by (simp add: utf8_len_def)

lemma same_input_refl [simp]: "same_input l l"
  by (simp add: same_input_def)

lemma same_input_trans: "same_input k l \<Longrightarrow> same_input l m \<Longrightarrow> same_input k m"
  by (simp add: same_input_def)

lemma same_input_advance [simp]: "same_input k (advance l) = same_input k l"
  by (simp add: same_input_def advance_def)

lemma same_input_next_line [simp]: "same_input k (next_line l) = same_input k l"
  by (simp add: same_input_def next_line_def)

lemma moves_same_input: "moves l m \<Longrightarrow> same_input l m"
  by (induction rule: moves.induct) simp_all

lemma in_sync_advance: "in_sync l \<Longrightarrow> in_sync (advance l)"
  by (auto simp: in_sync_def advance_def at_end_def current_def take_Suc_conv_app_nth utf8_len_Cons)

lemma in_sync_next_line: "in_sync l \<Longrightarrow> in_sync (next_line l)"
  by (simp add: in_sync_def next_line_def)

lemma moves_in_sync: "moves l m \<Longrightarrow> in_sync l \<Longrightarrow> in_sync m"
  by (induction rule: moves.induct) (auto intro: in_sync_advance in_sync_next_line)

lemma moves_pos: "moves l m \<Longrightarrow> lx_pos l \<le> lx_pos m"
  by (induction rule: moves.induct) (auto simp: advance_def next_line_def)

lemma drop_bytes_utf8_len: "drop_bytes (utf8_len a) (a @ b) = Some b"
  by (induction a) (simp_all add: drop_bytes.simps utf8_len_Cons utf8_len_def [of "[]"])

lemma take_bytes_utf8_len: "take_bytes (utf8_len a) (a @ b) = Some a"
  by (induction a) (simp_all add: take_bytes.simps utf8_len_Cons utf8_len_def [of "[]"])

lemma extract_span_between:
  "extract_span (new_span f (utf8_len a) (utf8_len (a @ b))) (a @ b @ c) = Some b"
  by (simp add: extract_span_def span_len_def new_span_def drop_bytes_utf8_len take_bytes_utf8_len)

lemma extract_span_cut:
  assumes "in_sync l" "in_sync m" "same_input l m" "lx_pos l \<le> lx_pos m"
  shows "extract_span (new_span f (lx_offset l) (lx_offset m)) (lx_chars l) = Some (slice_chars m (lx_pos l))"
proof -
  let ?a = "take (lx_pos l) (lx_chars l)" and ?b = "slice_chars m (lx_pos l)" and ?c = "drop (lx_pos m) (lx_chars l)"
  have b: "?b = take (lx_pos m - lx_pos l) (drop (lx_pos l) (lx_chars l))"
    using assms(3) by (simp add: slice_chars_def same_input_def)
  have ab: "take (lx_pos m) (lx_chars l) = ?a @ ?b"
    using assms(4) take_add [of "lx_pos l" "lx_pos m - lx_pos l" "lx_chars l"] by (simp add: b)
  then have "lx_chars l = ?a @ ?b @ ?c"
    using append_take_drop_id [of "lx_pos m" "lx_chars l"] by simp
  moreover have "lx_offset l = utf8_len ?a" using assms(1) by (simp add: in_sync_def)
  moreover have "lx_offset m = utf8_len (?a @ ?b)"
    using assms(2,3) ab by (simp add: in_sync_def same_input_def)
  ultimately show ?thesis using extract_span_between [of f ?a ?b ?c] by simp
qed

section \<open>The contract of a token scanner\<close>

text \<open>Where a scanner is called, it moves the cursor past the character it begins at, and the span of
  its token runs from the offset where it began to the one where it ended.\<close>

locale token_scanner =
  fixes called_at :: "lexer \<Rightarrow> bool" and scan :: "lexer \<Rightarrow> token \<times> lexer"
  assumes scan_moves: "called_at l \<Longrightarrow> moves (advance l) (snd (scan l))"
    and scan_span: "called_at l \<Longrightarrow>
      tk_span (fst (scan l)) = new_span (lx_file_id l) (lx_offset l) (lx_offset (snd (scan l)))"
begin

lemma scan_from: "called_at l \<Longrightarrow> moves l (snd (scan l))"
  using moves_trans [OF scan_moves] by blast

lemma scan_remaining: "called_at l \<Longrightarrow> \<not> at_end l \<Longrightarrow> remaining (snd (scan l)) < remaining l"
  by (rule moves_advance_remaining [OF scan_moves])

lemma scan_same_input: "called_at l \<Longrightarrow> same_input l (snd (scan l))"
  by (rule moves_same_input [OF scan_from])

lemma scan_in_sync: "called_at l \<Longrightarrow> in_sync l \<Longrightarrow> in_sync (snd (scan l))"
  by (rule moves_in_sync [OF scan_from])

lemma scan_extract:
  assumes "called_at l" "in_sync l"
  shows "extract_span (tk_span (fst (scan l))) (lx_chars l) = Some (slice_chars (snd (scan l)) (lx_pos l))"
  using extract_span_cut [OF assms(2) scan_in_sync scan_same_input moves_pos] assms scan_from
  by (simp add: scan_span)

end

lemma file_id_moves: "moves l m \<Longrightarrow> lx_file_id m = lx_file_id l"
  using moves_same_input [of l m] by (simp add: same_input_def)

definition spanned :: "nat \<Rightarrow> nat \<Rightarrow> token \<times> lexer \<Rightarrow> bool" where
  "spanned file start r \<longleftrightarrow> tk_span (fst r) = new_span file start (lx_offset (snd r))"

lemma spanned_make_token_at [simp]: "spanned f start (make_token_at l k t start, l) \<longleftrightarrow> lx_file_id l = f"
  by (auto simp: spanned_def make_token_at_def new_token_def new_span_def)

lemma scan_string_loop_contract:
  "moves k l \<Longrightarrow>
    moves k (snd (scan_string_loop start v n i l)) \<and>
    spanned (lx_file_id k) start (scan_string_loop start v n i l)"
proof (induction start v n i l rule: scan_string_loop.induct)
  case (1 start v n i l)
  obtain w m where interp: "scan_interpolation v l = (w, m)" by fastforce
  have moved: "moves k (advance l)" "moves k (advance (next_line l))" "moves k (skip_string l)"
    using "1.prems" by (auto intro: moves_skip_string)
  have m: "moves k m" using moves_scan_interpolation [OF moved(1), of v] interp by simp
  have esc: "case scan_escape v l of Inl (e, m) \<Rightarrow> moves k (skip_string m) | Inr (w, m) \<Rightarrow> moves k m"
    using moves_scan_escape [OF moved(1), of v]
    by (auto split: sum.splits intro: moves_skip_string)
  show ?case
    using 1 moved m esc interp
    by (subst (1 2) scan_string_loop.simps)
      (auto simp: Let_def file_id_moves split: sum.splits)
qed

lemma scan_multiline_loop_contract:
  "moves k l \<Longrightarrow>
    moves k (snd (scan_multiline_loop start v n i l)) \<and>
    spanned (lx_file_id k) start (scan_multiline_loop start v n i l)"
proof (induction start v n i l rule: scan_multiline_loop.induct)
  case (1 start v n i l)
  obtain w m where interp: "scan_interpolation v l = (w, m)" by fastforce
  have moved: "moves k (advance l)" "moves k (advance (next_line l))" "moves k (skip_multiline_string l)"
      "moves k (advance (advance (advance l)))"
    using "1.prems" by (auto intro: moves_skip_multiline_string)
  have m: "moves k m" using moves_scan_interpolation [OF moved(1), of v] interp by simp
  have esc: "case scan_escape v l of Inl (e, m) \<Rightarrow> moves k (skip_multiline_string m) | Inr (w, m) \<Rightarrow> moves k m"
    using moves_scan_escape [OF moved(1), of v]
    by (auto split: sum.splits intro: moves_skip_multiline_string)
  show ?case
    using 1 moved m esc interp
    by (subst (1 2) scan_multiline_loop.simps)
      (auto simp: Let_def file_id_moves split: sum.splits)
qed

lemma moves_ident_loop: "moves k l \<Longrightarrow> moves k (snd (ident_loop a n l))"
proof (induction a n l rule: ident_loop.induct)
  case (1 a n l)
  then show ?case by (auto simp: ident_loop.simps [of a n l] moves_advance_while)
qed

lemma moves_skip_first_newline: "moves k l \<Longrightarrow> moves k (skip_first_newline l)"
  by (auto simp: skip_first_newline_def Let_def)

lemma file_id_advance [simp]: "lx_file_id (advance l) = lx_file_id l"
  by (simp add: advance_def)

lemma spanned_iff: "spanned f start r \<longleftrightarrow> tk_span (fst r) = new_span f start (lx_offset (snd r))"
  by (simp add: spanned_def)

interpretation plain_string: token_scanner "\<lambda>l. True" scan_string
proof
  fix l
  note contract = scan_string_loop_contract [OF moves_refl, of "advance l" "lx_offset l" "[]" 0 False]
  show "moves (advance l) (snd (scan_string l))"
    using contract by (simp add: scan_string_def)
  show "tk_span (fst (scan_string l)) = new_span (lx_file_id l) (lx_offset l) (lx_offset (snd (scan_string l)))"
    using contract by (simp add: scan_string_def spanned_iff)
qed

interpretation multiline_string: token_scanner "\<lambda>l. True" scan_multiline_string
proof
  fix l
  have "moves (advance l) (skip_first_newline (advance (advance (advance l))))"
    by (rule moves_skip_first_newline) auto
  note contract = scan_multiline_loop_contract [OF this, of "lx_offset l" "[]" 0 False]
  show "moves (advance l) (snd (scan_multiline_string l))"
    using contract by (simp add: scan_multiline_string_def)
  show "tk_span (fst (scan_multiline_string l)) =
      new_span (lx_file_id l) (lx_offset l) (lx_offset (snd (scan_multiline_string l)))"
    using contract by (simp add: scan_multiline_string_def spanned_iff)
qed

interpretation operator_token: token_scanner "\<lambda>l. True" scan_operator
proof
  fix l
  show "moves (advance l) (snd (scan_operator l))"
    by (auto simp: scan_operator_def Let_def split: option.splits)
  show "tk_span (fst (scan_operator l)) = new_span (lx_file_id l) (lx_offset l) (lx_offset (snd (scan_operator l)))"
    by (auto simp: scan_operator_def Let_def make_token_at_def new_token_def split: option.splits)
qed

text \<open>An identifier begins at one of its characters, which the first round of the loop takes.\<close>

interpretation name_token: token_scanner "\<lambda>l. \<not> at_end l \<and> is_ident_char alnum (current l)"
    "scan_identifier alnum" for alnum
proof
  fix l
  assume "\<not> at_end l \<and> is_ident_char alnum (current l)"
  then have "ident_loop alnum 0 l = ident_loop alnum 1 (advance l)"
    by (simp add: ident_loop.simps [of alnum 0 l] max_identifier_length_def)
  then have "moves (advance l) (snd (ident_loop alnum 0 l))"
    using moves_ident_loop [of "advance l" "advance l" alnum 1] by simp
  then show "moves (advance l) (snd (scan_identifier alnum l))"
    and "tk_span (fst (scan_identifier alnum l)) =
      new_span (lx_file_id l) (lx_offset l) (lx_offset (snd (scan_identifier alnum l)))"
    by (auto simp: scan_identifier_def Let_def make_token_at_def new_token_def file_id_moves
        split: prod.splits)
qed

subsection \<open>Numbers\<close>

text \<open>A number whose exponent has no digits is the one scanner that sets the cursor back. The cursor
  is clean when no exponent letter follows a digit anywhere in the source.\<close>

definition is_exponent_letter :: "nat \<Rightarrow> bool" where
  "is_exponent_letter c \<longleftrightarrow> c = ch CHR ''e'' \<or> c = ch CHR ''E''"

definition no_exponents :: "ustr \<Rightarrow> bool" where
  "no_exponents s \<longleftrightarrow>
     list_all (\<lambda>i. is_ascii_digit (s ! i) \<longrightarrow> \<not> is_exponent_letter (s ! (i + 1))) [0..<length s - 1]"

definition after_digit :: "lexer \<Rightarrow> bool" where
  "after_digit l \<longleftrightarrow> 0 < lx_pos l \<and> lx_pos l \<le> length (lx_chars l) \<and> is_ascii_digit (lx_chars l ! (lx_pos l - 1))"

lemma after_digit_advance: "\<not> at_end l \<Longrightarrow> is_ascii_digit (current l) \<Longrightarrow> after_digit (advance l)"
  by (simp add: after_digit_def advance_def at_end_def current_def)

lemma after_digit_scan_digits:
  "after_digit l \<Longrightarrow> after_digit (advance_while is_ascii_digit l)"
proof (induction "is_ascii_digit" l rule: advance_while.induct)
  case (1 l)
  then show ?case by (auto simp: advance_while.simps [of _ l] intro: after_digit_advance)
qed

lemma scan_digits_first:
  "\<not> at_end l \<Longrightarrow> is_ascii_digit (current l) \<Longrightarrow> scan_digits l = scan_digits (advance l)"
  by (simp add: scan_digits_def advance_while.simps [of _ l])

lemma no_exponent_after_digit:
  assumes "after_digit l" "no_exponents (lx_chars l)" "\<not> at_end l"
  shows "\<not> is_exponent_letter (current l)"
proof -
  have "lx_pos l - 1 \<in> set [0..<length (lx_chars l) - 1]"
    using assms(1,3) by (auto simp: after_digit_def at_end_def)
  then show ?thesis
    using assms by (auto simp: no_exponents_def list_all_iff after_digit_def current_def at_end_def)
qed

lemma scan_fraction_cursor:
  assumes "after_digit l"
  shows "moves l (snd (scan_fraction l)) \<and> after_digit (snd (scan_fraction l))"
proof (cases "\<not> at_end l \<and> current l = ch CHR ''.'' \<and> peek l \<noteq> None \<and> is_ascii_digit (the (peek l))")
  case True
  then obtain c where c: "peek l = Some c" "is_ascii_digit c" by auto
  then have "\<not> at_end (advance l)" "current (advance l) = c"
    by (auto simp: peek_def at_end_def advance_def current_def split: if_splits)
  then have "after_digit (scan_digits (advance l))"
    using c(2) scan_digits_first [of "advance l"] after_digit_scan_digits after_digit_advance
    by (simp add: scan_digits_def)
  then show ?thesis
    using True c by (simp add: scan_fraction_def scan_digits_def moves_advance_while moves_advance)
next
  case False
  then show ?thesis using assms by (auto simp: scan_fraction_def split: option.splits)
qed

lemma scan_number_cursor:
  assumes "\<not> at_end l" "is_ascii_digit (current l)"
  defines "m \<equiv> snd (scan_fraction (scan_digits l))"
  shows "moves (advance l) m" "after_digit m"
proof -
  have "moves (advance l) (scan_digits l)" "after_digit (scan_digits l)"
    using assms(1,2) scan_digits_first [of l] after_digit_scan_digits [OF after_digit_advance [of l]]
    by (simp_all add: scan_digits_def moves_advance_while)
  then show "moves (advance l) m" "after_digit m"
    using scan_fraction_cursor [of "scan_digits l"] by (auto simp: m_def intro: moves_trans)
qed

interpretation number_token: token_scanner
    "\<lambda>l. \<not> at_end l \<and> is_ascii_digit (current l) \<and> no_exponents (lx_chars l)" scan_number
proof
  fix l
  assume l: "\<not> at_end l \<and> is_ascii_digit (current l) \<and> no_exponents (lx_chars l)"
  define m where "m = snd (scan_fraction (scan_digits l))"
  have m: "moves (advance l) m" "after_digit m" using scan_number_cursor l by (auto simp: m_def)
  then have "no_exponents (lx_chars m)" using l moves_same_input [of "advance l" m] by (simp add: same_input_def advance_def)
  then have "scan_exponent b m = (b, m)" for b
    using no_exponent_after_digit [OF m(2)] by (auto simp: scan_exponent_def is_exponent_letter_def)
  then show "moves (advance l) (snd (scan_number l))"
    and "tk_span (fst (scan_number l)) = new_span (lx_file_id l) (lx_offset l) (lx_offset (snd (scan_number l)))"
    using m file_id_moves [OF m(1)]
    by (auto simp: scan_number_def Let_def make_token_at_def new_token_def m_def split: prod.splits)
qed

section \<open>The texts of tokens\<close>

text \<open>A verbatim token has the text of the source it stands for: every kind but strings, whose text is
  their value, and errors, whose text is a message.\<close>

fun is_verbatim :: "token_kind \<Rightarrow> bool" where
  "is_verbatim TkError \<longleftrightarrow> False"
| "is_verbatim (TkLiteral l) \<longleftrightarrow> l \<noteq> LiString \<and> l \<noteq> LiStringTemplate"
| "is_verbatim _ \<longleftrightarrow> True"

definition verbatim :: "lexer \<Rightarrow> token \<times> lexer \<Rightarrow> bool" where
  "verbatim l r \<longleftrightarrow> is_verbatim (tk_kind (fst r)) \<longrightarrow> tk_text (fst r) = slice_chars (snd r) (lx_pos l)"

lemma tk_make_token_at [simp]:
  "tk_kind (make_token_at l k t start) = k" "tk_text (make_token_at l k t start) = t"
  by (simp_all add: make_token_at_def new_token_def)

lemma tk_make_token [simp]: "tk_kind (make_token l k t) = k" "tk_text (make_token l k t) = t"
  by (simp_all add: make_token_def new_token_def)

lemma string_kind_not_verbatim [simp]: "\<not> is_verbatim (string_kind b)"
  by (simp add: string_kind_def)

lemma scan_string_loop_kind: "\<not> is_verbatim (tk_kind (fst (scan_string_loop start v n i l)))"
proof (induction start v n i l rule: scan_string_loop.induct)
  case (1 start v n i l)
  then show ?case
    by (subst scan_string_loop.simps) (auto simp: Let_def split: prod.splits sum.splits)
qed

lemma scan_multiline_loop_kind: "\<not> is_verbatim (tk_kind (fst (scan_multiline_loop start v n i l)))"
proof (induction start v n i l rule: scan_multiline_loop.induct)
  case (1 start v n i l)
  then show ?case
    by (subst scan_multiline_loop.simps) (auto simp: Let_def split: prod.splits sum.splits)
qed

lemma verbatim_strings: "verbatim l (scan_string l)" "verbatim l (scan_multiline_string l)"
  by (simp_all add: verbatim_def scan_string_def scan_multiline_string_def scan_string_loop_kind
      scan_multiline_loop_kind)

lemma verbatim_number: "verbatim l (scan_number l)"
  by (simp add: verbatim_def scan_number_def Let_def split: prod.splits)

lemma verbatim_identifier: "verbatim l (scan_identifier a l)"
  by (auto simp: verbatim_def scan_identifier_def Let_def split: prod.splits)

lemma lx_chars_advance [simp]: "lx_chars (advance l) = lx_chars l"
  by (simp add: advance_def)

lemma lx_pos_advance: "\<not> at_end l \<Longrightarrow> lx_pos (advance l) = lx_pos l + 1"
  by (simp add: advance_def)

lemma at_end_iff: "at_end l \<longleftrightarrow> length (lx_chars l) \<le> lx_pos l"
  by (simp add: at_end_def)

lemma verbatim_operator:
  assumes "\<not> at_end l"
  shows "verbatim l (scan_operator l)"
proof -
  let ?cs = "lx_chars l" and ?p = "lx_pos l"
  have one: "slice_chars (advance l) ?p = [current l]"
    using assms by (simp add: slice_chars_def lx_pos_advance at_end_iff current_def Cons_nth_drop_Suc [symmetric])
  have two: "slice_chars (advance (advance l)) ?p = [current l, the (peek l)]" if "peek l \<noteq> None"
  proof -
    have "?p + 1 < length ?cs" using that by (auto simp: peek_def split: if_splits)
    then show ?thesis
      by (simp add: slice_chars_def lx_pos_advance at_end_iff current_def peek_def Cons_nth_drop_Suc [symmetric])
  qed
  have three: "slice_chars (advance (advance (advance l))) ?p = take 3 (drop ?p ?cs)" if "?p + 2 < length ?cs"
    using that by (simp add: slice_chars_def lx_pos_advance at_end_iff)
  show ?thesis
  proof (cases "three_char_kind l")
    case (Some k)
    then have "?p + 2 < length ?cs" by (simp add: three_char_kind_def split: if_splits)
    then show ?thesis using Some three by (simp add: scan_operator_def verbatim_def Let_def)
  next
    case None
    then show ?thesis
      using one two by (cases "two_char_kind l")
        (auto simp: scan_operator_def verbatim_def Let_def two_char_kind_def split: option.splits)
  qed
qed

lemma slice_chars_same: "same_input l m \<Longrightarrow> slice_chars m p = take (lx_pos m - p) (drop p (lx_chars l))"
  by (simp add: slice_chars_def same_input_def)

section \<open>One token\<close>

text \<open>What the source relies on in Rust's Unicode classes: a letter is alphanumeric, and on ASCII they
  are the letters, and the letters and digits.\<close>

definition ascii_letter :: "nat \<Rightarrow> bool" where
  "ascii_letter c \<longleftrightarrow> (65 \<le> c \<and> c \<le> 90) \<or> (97 \<le> c \<and> c \<le> 122)"

definition ascii_alphanumeric :: "nat \<Rightarrow> bool" where
  "ascii_alphanumeric c \<longleftrightarrow> ascii_letter c \<or> is_ascii_digit c"

definition unicode_classes :: "(nat \<Rightarrow> bool) \<Rightarrow> (nat \<Rightarrow> bool) \<Rightarrow> bool" where
  "unicode_classes alpha alnum \<longleftrightarrow>
     (\<forall>c. alpha c \<longrightarrow> alnum c) \<and>
     (\<forall>c<128. alpha c = ascii_letter c \<and> alnum c = ascii_alphanumeric c)"

text \<open>The token scanned at a character that is not skipped.\<close>

definition scan_token :: "(nat \<Rightarrow> bool) \<Rightarrow> (nat \<Rightarrow> bool) \<Rightarrow> lexer \<Rightarrow> token \<times> lexer" where
  "scan_token alpha alnum l =
     (if current l = ch CHR 0x22 then if is_triple_quote l then scan_multiline_string l else scan_string l
      else if is_ascii_digit (current l) then scan_number l
      else if alpha (current l) \<or> current l = ch CHR ''_'' then scan_identifier alnum l
      else scan_operator l)"

lemma next_token_scan:
  "next_token alpha alnum l =
     (let l = skip_whitespace_and_comments l
      in if at_end l then (make_token l TkEof [], l) else scan_token alpha alnum l)"
  by (simp add: next_token_def scan_token_def Let_def)

lemma verbatim_scan_token: "\<not> at_end l \<Longrightarrow> verbatim l (scan_token alpha alnum l)"
  by (simp add: scan_token_def verbatim_strings verbatim_number verbatim_identifier verbatim_operator)

interpretation any_token: token_scanner
    "\<lambda>l. \<not> at_end l \<and> no_exponents (lx_chars l) \<and> unicode_classes alpha alnum" "scan_token alpha alnum" for alpha alnum
proof
  fix l
  assume l: "\<not> at_end l \<and> no_exponents (lx_chars l) \<and> unicode_classes alpha alnum"
  then have ident: "is_ident_char alnum (current l)" if "alpha (current l) \<or> current l = ch CHR ''_''"
    using that by (auto simp: is_ident_char_def unicode_classes_def)
  show "moves (advance l) (snd (scan_token alpha alnum l))"
    using l ident plain_string.scan_moves multiline_string.scan_moves number_token.scan_moves [of l]
      name_token.scan_moves [of l alnum] operator_token.scan_moves
    by (simp add: scan_token_def)
  show "tk_span (fst (scan_token alpha alnum l)) =
      new_span (lx_file_id l) (lx_offset l) (lx_offset (snd (scan_token alpha alnum l)))"
    using l ident plain_string.scan_span multiline_string.scan_span number_token.scan_span [of l]
      name_token.scan_span [of l alnum] operator_token.scan_span
    by (simp add: scan_token_def)
qed

lemma skip_in_sync: "in_sync l \<Longrightarrow> in_sync (skip_whitespace_and_comments l)"
  by (rule moves_in_sync [OF moves_skip_whitespace_and_comments]) simp_all

lemma skip_same_input: "same_input l (skip_whitespace_and_comments l)"
  by (rule moves_same_input [OF moves_skip_whitespace_and_comments]) simp

lemma next_token_cut:
  assumes sync: "in_sync l" and src: "no_exponents (lx_chars l)" and classes: "unicode_classes alpha alnum"
    and nxt: "next_token alpha alnum l = (t, m)"
  shows "in_sync m \<and> same_input l m \<and>
    (is_verbatim (tk_kind t) \<longrightarrow> extract_span (tk_span t) (lx_chars l) = Some (tk_text t))"
proof -
  define k where "k = skip_whitespace_and_comments l"
  have k: "in_sync k" "same_input l k" "lx_chars k = lx_chars l"
    using skip_in_sync [OF sync] skip_same_input [of l] by (simp_all add: k_def same_input_def)
  show ?thesis
  proof (cases "at_end k")
    case True
    then have "t = make_token k TkEof []" "m = k"
      using nxt by (auto simp: next_token_scan k_def [symmetric] Let_def)
    then show ?thesis
      using k extract_span_cut [OF k(1,1), of "lx_file_id k"]
      by (simp add: make_token_def new_token_def slice_chars_def)
  next
    case False
    then have "scan_token alpha alnum k = (t, m)"
      using nxt by (simp add: next_token_scan k_def [symmetric] Let_def)
    moreover have at: "\<not> at_end k \<and> no_exponents (lx_chars k) \<and> unicode_classes alpha alnum"
      using False src classes k(3) by simp
    ultimately show ?thesis
      using any_token.scan_in_sync [OF at k(1)] any_token.scan_same_input [OF at]
        any_token.scan_extract [OF at k(1)] verbatim_scan_token [OF False, of alpha alnum] k
      by (auto simp: verbatim_def intro: same_input_trans)
  qed
qed

lemma tokenize_loop_cut:
  "in_sync l \<Longrightarrow> no_exponents (lx_chars l) \<Longrightarrow> unicode_classes alpha alnum \<Longrightarrow>
    t \<in> set (fst (tokenize_loop alpha alnum ts l)) \<Longrightarrow> is_verbatim (tk_kind t) \<Longrightarrow>
    t \<in> set ts \<or> extract_span (tk_span t) (lx_chars l) = Some (tk_text t)"
proof (induction alpha alnum ts l rule: tokenize_loop.induct)
  case (1 alpha alnum ts l)
  obtain u m where u: "next_token alpha alnum l = (u, m)" by fastforce
  note cut = next_token_cut [OF "1.prems"(1-3) u]
  show ?case
  proof (cases "max_token_count \<le> length ts \<or> tk_kind u = TkEof")
    case True
    then show ?thesis
      using "1.prems" u cut
      by (auto simp: tokenize_loop.simps [of alpha alnum ts l] error_token_def new_token_def split: if_splits)
  next
    case False
    moreover from False have "t \<in> set (fst (tokenize_loop alpha alnum (ts @ [u]) m))"
      using "1.prems"(4) u by (simp add: tokenize_loop.simps [of alpha alnum ts l])
    ultimately have "t \<in> set (ts @ [u]) \<or> extract_span (tk_span t) (lx_chars m) = Some (tk_text t)"
      using "1.IH" [of u m] "1.prems" u cut by (simp add: same_input_def)
    then show ?thesis
      using "1.prems"(5) cut by (auto simp: same_input_def)
  qed
qed

section \<open>Progress\<close>

lemma scan_exponent_cursor:
  "same_input l (snd (scan_exponent b l)) \<and> lx_pos l \<le> lx_pos (snd (scan_exponent b l))"
proof -
  have "moves l k \<Longrightarrow> moves l (scan_digits k)" for k
    by (simp add: scan_digits_def moves_advance_while)
  then have m: "moves l (advance l)" "moves l (advance (advance l))" "moves l (scan_digits (advance l))"
      "moves l (scan_digits (advance (advance l)))"
    by auto
  note eqs = this [THEN moves_same_input] this [THEN moves_pos]
  show ?thesis
    using eqs by (auto simp: scan_exponent_def Let_def same_input_def)
qed

lemma scan_number_progress:
  assumes "\<not> at_end l" "is_ascii_digit (current l)"
  shows "same_input l (snd (scan_number l)) \<and> remaining (snd (scan_number l)) < remaining l"
proof -
  define m where "m = snd (scan_fraction (scan_digits l))"
  have "moves (advance l) m" using scan_number_cursor(1) [OF assms] by (simp add: m_def)
  then have m: "same_input l m" "remaining m < remaining l"
    using moves_same_input [of "advance l" m] moves_advance_remaining [of l m] assms(1)
    by (simp_all add: same_input_def advance_def)
  have "snd (scan_number l) = snd (scan_exponent (fst (scan_fraction (scan_digits l))) m)"
    by (simp add: scan_number_def Let_def m_def case_prod_beta)
  then show ?thesis
    using m scan_exponent_cursor [of m "fst (scan_fraction (scan_digits l))"]
    by (auto simp: same_input_def remaining_def intro: le_less_trans diff_le_mono2)
qed

lemma scan_token_progress:
  assumes "\<not> at_end l" "unicode_classes alpha alnum"
  shows "same_input l (snd (scan_token alpha alnum l)) \<and>
    remaining (snd (scan_token alpha alnum l)) < remaining l"
proof -
  have ident: "is_ident_char alnum (current l)" if "alpha (current l) \<or> current l = ch CHR ''_''"
    using that assms(2) by (auto simp: is_ident_char_def unicode_classes_def)
  show ?thesis
    using assms(1) ident scan_number_progress [of l]
      plain_string.scan_remaining plain_string.scan_same_input
      multiline_string.scan_remaining multiline_string.scan_same_input
      operator_token.scan_remaining operator_token.scan_same_input
      name_token.scan_remaining [where alnum = alnum] name_token.scan_same_input [where alnum = alnum]
    by (simp add: scan_token_def)
qed

lemma string_kind_not_eof [simp]: "string_kind b \<noteq> TkEof"
  by (simp add: string_kind_def)

lemma table_lookup_not_eof:
  "TkEof \<notin> snd ` set tbl \<Longrightarrow> table_lookup tbl s \<noteq> Some TkEof"
  by (force simp: table_lookup_def dest: map_of_SomeD)

lemma mark_kinds_not_eof:
  "three_char_kind l \<noteq> Some TkEof" "two_char_kind l \<noteq> Some TkEof" "one_char_kind c \<noteq> TkEof"
proof -
  show "three_char_kind l \<noteq> Some TkEof" "two_char_kind l \<noteq> Some TkEof"
    using table_lookup_not_eof [of three_char_table] table_lookup_not_eof [of two_char_table]
    by (auto simp: three_char_kind_def two_char_kind_def three_char_table_def two_char_table_def split: option.splits)
  have "TkEof \<notin> snd ` set one_char_table" by (simp add: one_char_table_def)
  then show "one_char_kind c \<noteq> TkEof"
    by (force simp: one_char_kind_def dest: map_of_SomeD split: option.splits)
qed

lemma not_verbatim_not_eof: "\<not> is_verbatim k \<Longrightarrow> k \<noteq> TkEof"
  by auto

lemma scanners_not_eof:
  "tk_kind (fst (scan_string l)) \<noteq> TkEof" "tk_kind (fst (scan_multiline_string l)) \<noteq> TkEof"
  "tk_kind (fst (scan_number l)) \<noteq> TkEof" "tk_kind (fst (scan_identifier alnum l)) \<noteq> TkEof"
  "tk_kind (fst (scan_operator l)) \<noteq> TkEof"
proof -
  show "tk_kind (fst (scan_string l)) \<noteq> TkEof" "tk_kind (fst (scan_multiline_string l)) \<noteq> TkEof"
    by (simp_all add: scan_string_def scan_multiline_string_def not_verbatim_not_eof
        scan_string_loop_kind scan_multiline_loop_kind)
  show "tk_kind (fst (scan_number l)) \<noteq> TkEof" "tk_kind (fst (scan_identifier alnum l)) \<noteq> TkEof"
    by (simp_all add: scan_number_def scan_identifier_def Let_def split: prod.splits option.splits)
  show "tk_kind (fst (scan_operator l)) \<noteq> TkEof"
    using mark_kinds_not_eof(1,2) [of l] mark_kinds_not_eof(3) [of "current l"]
    by (cases "three_char_kind l"; cases "two_char_kind l") (auto simp: scan_operator_def Let_def)
qed

lemma scan_token_not_eof: "tk_kind (fst (scan_token alpha alnum l)) \<noteq> TkEof"
  by (simp add: scan_token_def scanners_not_eof)

lemma next_token_progress:
  assumes "unicode_classes alpha alnum" "next_token alpha alnum l = (t, m)" "tk_kind t \<noteq> TkEof"
  shows "remaining m < remaining l"
proof -
  define k where "k = skip_whitespace_and_comments l"
  have "remaining k \<le> remaining l"
    by (simp add: k_def moves_remaining [OF moves_skip_whitespace_and_comments])
  moreover have k: "\<not> at_end k \<and> scan_token alpha alnum k = (t, m)"
    using assms(2,3) by (auto simp: next_token_scan k_def [symmetric] Let_def split: if_splits)
  ultimately show ?thesis using scan_token_progress [of k, OF _ assms(1)] by fastforce
qed

lemma tokenize_loop_ends:
  "unicode_classes alpha alnum \<Longrightarrow> length ts + remaining l < max_token_count \<Longrightarrow>
    \<forall>u\<in>set ts. tk_kind u \<noteq> TkEof \<Longrightarrow>
    \<exists>us t. fst (tokenize_loop alpha alnum ts l) = us @ [t] \<and> tk_kind t = TkEof \<and>
      (\<forall>u\<in>set us. tk_kind u \<noteq> TkEof) \<and> length us \<le> length ts + remaining l"
proof (induction alpha alnum ts l rule: tokenize_loop.induct)
  case (1 alpha alnum ts l)
  obtain u m where u: "next_token alpha alnum l = (u, m)" by fastforce
  have le: "\<not> max_token_count \<le> length ts" using "1.prems"(2) by simp
  show ?case
  proof (cases "tk_kind u = TkEof")
    case True
    then show ?thesis
      using u le "1.prems"(3) by (simp add: tokenize_loop.simps [of alpha alnum ts l])
  next
    case False
    have less: "remaining m < remaining l" by (rule next_token_progress [OF "1.prems"(1) u False])
    have "\<exists>us t. fst (tokenize_loop alpha alnum (ts @ [u]) m) = us @ [t] \<and> tk_kind t = TkEof \<and>
        (\<forall>u\<in>set us. tk_kind u \<noteq> TkEof) \<and> length us \<le> length (ts @ [u]) + remaining m"
      by (rule "1.IH" [OF le u [symmetric] False "1.prems"(1)]) (use less "1.prems"(2,3) False in auto)
    then show ?thesis
      using less u False le by (force simp: tokenize_loop.simps [of alpha alnum ts l])
  qed
qed

section \<open>Strings\<close>

text \<open>The rest of the input.\<close>

definition rest :: "lexer \<Rightarrow> ustr" where
  "rest l = drop (lx_pos l) (lx_chars l)"

lemma at_end_rest: "at_end l \<longleftrightarrow> rest l = []"
  by (simp add: at_end_def rest_def)

lemma current_rest: "rest l = c # r \<Longrightarrow> current l = c"
  by (metis current_def drop_eq_Nil list.distinct(1) not_le nth_via_drop rest_def)

lemma rest_advance [simp]: "rest (advance l) = tl (rest l)"
  by (simp add: rest_def advance_def at_end_def drop_Suc tl_drop)

lemma rest_next_line [simp]: "rest (next_line l) = rest l"
  by (simp add: rest_def next_line_def)

lemma rest_new_lexer [simp]: "rest (new_lexer s f) = s"
  by (simp add: rest_def new_lexer_def)

text \<open>A string literal with the value \<open>s\<close>: quotes, backslashes and dollars escaped.\<close>

definition escape_char :: "nat \<Rightarrow> ustr" where
  "escape_char c = (if c \<in> {ch CHR 0x22, ch CHR 0x5C, ch CHR ''$''} then [ch CHR 0x5C, c] else [c])"

definition string_literal :: "ustr \<Rightarrow> ustr" where
  "string_literal s = ch CHR 0x22 # concat (map escape_char s) @ [ch CHR 0x22]"

lemma scan_string_loop_literal:
  assumes "n + length s \<le> max_string_length" "rest l = concat (map escape_char s) @ [ch CHR 0x22]"
  shows "\<exists>m. scan_string_loop start v n False l = (make_token_at m (TkLiteral LiString) (v @ s) start, m) \<and> rest m = []"
  using assms
proof (induction s arbitrary: v n l)
  case Nil
  then show ?case
    using current_rest [of l]
    by (intro exI [of _ "advance l"])
      (simp add: scan_string_loop.simps [of start v n False l] at_end_rest string_kind_def Let_def)
next
  case (Cons c s)
  show ?case
  proof (cases "c \<in> {ch CHR 0x22, ch CHR 0x5C, ch CHR ''$''}")
    case True
    then have r: "rest l = ch CHR 0x5C # c # concat (map escape_char s) @ [ch CHR 0x22]"
      using Cons.prems(2) by (simp add: escape_char_def [of c])
    then have "current l = ch CHR 0x5C" by (rule current_rest)
    moreover have "scan_escape v l = Inr (v @ [c], advance (advance l))"
      using True r current_rest [of "advance l" c]
      by (auto simp: scan_escape_def Let_def at_end_rest simple_escape_def)
    ultimately have "scan_string_loop start v n False l =
        scan_string_loop start (v @ [c]) (n + 1) False (advance (advance l))"
      using Cons.prems(1) r by (simp add: scan_string_loop.simps [of start v n False l] at_end_rest)
    then show ?thesis
      using Cons.IH [of "n + 1" "advance (advance l)" "v @ [c]"] Cons.prems(1) r by simp
  next
    case False
    then have r: "rest l = c # concat (map escape_char s) @ [ch CHR 0x22]"
      using Cons.prems(2) by (simp add: escape_char_def [of c])
    then have cur: "current l = c" by (rule current_rest)
    have "scan_string_loop start v n False l =
        scan_string_loop start (v @ [c]) (n + 1) False (advance (if c = 10 then next_line l else l))"
      using Cons.prems(1) r cur False
      by (simp add: scan_string_loop.simps [of start v n False l] at_end_rest)
    then show ?thesis
      using Cons.IH [of "n + 1" "advance (if c = 10 then next_line l else l)" "v @ [c]"] Cons.prems(1) r by simp
  qed
qed

end
