(* ===== verification/Lex_Checks.thy ===== *)
theory Lex_Checks
  imports Lex_Scanning "HOL-Library.Code_Target_Nat"
begin

text \<open>
  The properties of the lexer, with their witnesses, and the places where it does not do what its
  comments say.
\<close>

section \<open>The end of the file\<close>

lemma unicode_classes_ascii: "unicode_classes ascii_letter ascii_alphanumeric"
  by (simp add: unicode_classes_def ascii_alphanumeric_def)

text \<open>C27. a source within the limits is scanned to its end, in at most one token per character before
  the end: the last token is the end of the file, and no other is.\<close>

theorem tokenize_ends_with_eof:
  assumes "unicode_classes alpha alnum" "utf8_len source \<le> max_input_size" "length source < max_token_count"
  shows "\<exists>tokens t. fst (tokenize alpha alnum (new_lexer source file)) = tokens @ [t] \<and> tk_kind t = TkEof \<and>
    (\<forall>u\<in>set tokens. tk_kind u \<noteq> TkEof) \<and> length tokens \<le> length source"
  using tokenize_loop_ends [OF assms(1), of "[]" "new_lexer source file"] assms(2,3)
  by (simp add: tokenize_def new_lexer_def remaining_def)

theorem tokenize_ends_with_eof_witness:
  "\<exists>tokens t. fst (tokenize ascii_letter ascii_alphanumeric (new_lexer (ascii ''let x = 1'') 0)) = tokens @ [t] \<and>
    tk_kind t = TkEof \<and> (\<forall>u\<in>set tokens. tk_kind u \<noteq> TkEof) \<and> length tokens \<le> length (ascii ''let x = 1'')"
  by (rule tokenize_ends_with_eof [OF unicode_classes_ascii])
    (simp_all add: max_input_size_def max_token_count_def ascii_def utf8_len_def utf8_size_def)

section \<open>Spans\<close>

text \<open>C28. in a source where no exponent letter follows a digit, the span of every token but strings and
  errors cuts the token's text out of the source.\<close>

theorem spans_cut_token_texts:
  assumes "unicode_classes alpha alnum" "no_exponents source"
    and "t \<in> set (fst (tokenize alpha alnum (new_lexer source file)))" "is_verbatim (tk_kind t)"
  shows "extract_span (tk_span t) source = Some (tk_text t)"
  using assms tokenize_loop_cut [of "new_lexer source file" alpha alnum t "[]"]
  by (auto simp: tokenize_def new_lexer_def in_sync_def error_token_def new_token_def split: if_splits)

theorem spans_cut_token_texts_witness:
  "extract_span (new_span 0 4 6) (ascii ''a = fn'') = Some (ascii ''fn'')"
proof -
  have "no_exponents (ascii ''a = fn'')" by code_simp
  moreover have "fst (tokenize ascii_letter ascii_alphanumeric (new_lexer (ascii ''a = fn'') 0)) ! 2 =
      new_token (TkKeyword KwFn) (ascii ''fn'') (new_span 0 4 6)"
    and "2 < length (fst (tokenize ascii_letter ascii_alphanumeric (new_lexer (ascii ''a = fn'') 0)))"
    by code_simp+
  ultimately show ?thesis
    using spans_cut_token_texts [OF unicode_classes_ascii, of "ascii ''a = fn''" _ 0] nth_mem
    by (fastforce simp: new_token_def)
qed

text \<open>Without the hypothesis it fails: after an exponent without digits the position goes back and the
  offset does not, so the spans of the tokens that follow are one too far, here past the end.\<close>

theorem exponent_without_digits_shifts_spans:
  "map tk_span (fst (tokenize ascii_letter ascii_alphanumeric (new_lexer (ascii ''1e'') 0))) =
     [new_span 0 0 2, new_span 0 2 3, new_span 0 3 3]"
  "map tk_text (fst (tokenize ascii_letter ascii_alphanumeric (new_lexer (ascii ''1e'') 0))) =
     [ascii ''1'', ascii ''e'', []]"
  by code_simp+

section \<open>Round trips\<close>

lemma lx_source_new_lexer: "lx_source (new_lexer s f) = s"
  by (simp add: new_lexer_def)

lemma utf8_size_le: "utf8_size c \<le> 4"
  by (simp add: utf8_size_def)

lemma utf8_len_le: "utf8_len s \<le> 4 * length s"
proof (induction s)
  case (Cons c s)
  then show ?case using utf8_size_le [of c] by (simp add: utf8_len_Cons)
qed simp

lemma utf8_len_string_literal: "utf8_len (string_literal s) \<le> 8 * length s + 8"
proof -
  have two: "length (escape_char c) \<le> 2" for c by (simp add: escape_char_def)
  have "length (concat (map escape_char s)) \<le> 2 * length s"
  proof (induction s)
    case (Cons c s)
    then show ?case using two [of c] by simp
  qed simp
  then show ?thesis using utf8_len_le [of "string_literal s"] by (simp add: string_literal_def)
qed

lemma is_triple_quote_rest: "is_triple_quote l \<longleftrightarrow> (\<exists>a r. rest l = a # ch CHR 0x22 # ch CHR 0x22 # r)"
proof -
  have "(\<exists>a r. xs = a # b # b # r) \<longleftrightarrow> 2 < length xs \<and> xs ! 1 = b \<and> xs ! 2 = b" for xs and b :: nat
    by (cases xs rule: list.exhaust [OF _ list.exhaust [OF _ list.exhaust]]) (auto simp: numeral_2_eq_2)
  then show ?thesis
    by (simp add: is_triple_quote_def rest_def less_diff_conv) (auto simp: add.commute)
qed

text \<open>C29. every value of at most the maximal length is the text of the string token of its literal.\<close>

theorem string_literal_roundtrip:
  assumes "length s \<le> max_string_length"
  shows "map (\<lambda>t. (tk_kind t, tk_text t)) (fst (tokenize alpha alnum (new_lexer (string_literal s) file))) =
    [(TkLiteral LiString, s), (TkEof, [])]"
proof -
  let ?l = "new_lexer (string_literal s) file"
  have r: "rest ?l = ch CHR 0x22 # concat (map escape_char s) @ [ch CHR 0x22]"
    by (simp add: string_literal_def)
  have cur: "current ?l = ch CHR 0x22" using r by (rule current_rest)
  have open1: "\<not> is_triple_quote ?l"
    using r by (cases s) (auto simp: is_triple_quote_rest escape_char_def)
  have more: "\<not> at_end ?l" using r by (simp add: at_end_rest string_literal_def)
  have skip: "skip_whitespace_and_comments ?l = ?l"
    by (subst skip_whitespace_and_comments.simps) (simp add: cur more)
  have body: "rest (advance ?l) = concat (map escape_char s) @ [ch CHR 0x22]" using r by simp
  obtain m where m: "scan_string ?l = (make_token_at m (TkLiteral LiString) s (lx_offset ?l), m)" "rest m = []"
    using scan_string_loop_literal [of 0 s "advance ?l" "lx_offset ?l" "[]"] assms body
    by (auto simp: scan_string_def)
  have first: "next_token alpha alnum ?l = (make_token_at m (TkLiteral LiString) s (lx_offset ?l), m)"
    using skip more cur open1 m(1) by (simp add: next_token_def)
  have "skip_whitespace_and_comments m = m"
    using m(2) by (simp add: skip_whitespace_and_comments.simps [of m] at_end_rest)
  then have second: "next_token alpha alnum m = (make_token m TkEof [], m)"
    using m(2) by (simp add: next_token_def at_end_rest)
  have "utf8_len (string_literal s) \<le> max_input_size"
    using utf8_len_string_literal [of s] assms by (simp add: max_input_size_def max_string_length_def)
  then show ?thesis
    using first second
    by (simp add: tokenize_def tokenize_loop.simps [of _ _ "[]"] tokenize_loop.simps [of _ _ "[_]"]
        max_token_count_def lx_source_new_lexer)
qed

theorem string_literal_roundtrip_witness:
  "map (\<lambda>t. (tk_kind t, tk_text t))
     (fst (tokenize ascii_letter ascii_alphanumeric (new_lexer (string_literal (ascii ''$a'')) 0))) =
   [(TkLiteral LiString, ascii ''$a''), (TkEof, [])]"
  by (rule string_literal_roundtrip) (simp add: max_string_length_def ascii_def)

text \<open>The indentation of a closing triple quote is counted one too large after a line break inside the
  string, so one blank too many goes: the text was indented by one more than the quotes.\<close>

theorem closing_quotes_indent_one_too_large:
  "map tk_text (fst (tokenize ascii_letter ascii_alphanumeric
     (new_lexer (ascii [CHR 0x22, CHR 0x22, CHR 0x22, CHR 0x0A, CHR '' '', CHR '' '', CHR ''a'', CHR 0x0A, CHR '' '',
        CHR 0x22, CHR 0x22, CHR 0x22]) 0))) = [[97, 10], []]"
  by code_simp

text \<open>With no indentation a blank is removed all the same.\<close>

theorem trim_removes_one_without_indent: "trim_multiline_string (ascii '' a'') 0 = ascii ''a''"
  by code_simp

text \<open>The text of a keyword or mark.\<close>

fun fixed_text :: "token_kind \<Rightarrow> string option" where
  "fixed_text (TkKeyword k) = Some (keyword_text k)"
| "fixed_text (TkOperator x) = Some (operator_text x)"
| "fixed_text (TkDelimiter d) = Some (delimiter_text d)"
| "fixed_text (TkPunct p) = Some (punct_text p)"
| "fixed_text _ = None"


lemma is_ascii_current: "is_ascii (lx_chars l) \<Longrightarrow> \<not> at_end l \<Longrightarrow> current l < 128"
  by (simp add: is_ascii_def list_all_length at_end_def current_def)

lemma classes_at:
  assumes "unicode_classes alpha alnum" "is_ascii (lx_chars l)" "\<not> at_end l"
  shows "alpha (current l) = ascii_letter (current l)"
    "is_ident_char alnum (current l) = is_ident_char ascii_alphanumeric (current l)"
  using assms is_ascii_current [OF assms(2,3)] by (simp_all add: unicode_classes_def is_ident_char_def)

lemma advance_while_ascii:
  "unicode_classes alpha alnum \<Longrightarrow> is_ascii (lx_chars l) \<Longrightarrow>
    advance_while (is_ident_char alnum) l = advance_while (is_ident_char ascii_alphanumeric) l"
proof (induction "is_ident_char alnum" l rule: advance_while.induct)
  case (1 l)
  then show ?case
    using classes_at(2) [OF "1.prems"] advance_while.simps [of "is_ident_char alnum" l]
      advance_while.simps [of "is_ident_char ascii_alphanumeric" l]
    by (cases "at_end l") auto
qed

lemma ident_loop_ascii:
  "unicode_classes alpha alnum \<Longrightarrow> is_ascii (lx_chars l) \<Longrightarrow>
    ident_loop alnum n l = ident_loop ascii_alphanumeric n l"
proof (induction alnum n l rule: ident_loop.induct)
  case (1 alnum n l)
  then show ?case
    using classes_at(2) [OF "1.prems"] ident_loop.simps [of alnum n l]
      ident_loop.simps [of ascii_alphanumeric n l] advance_while_ascii [OF "1.prems"]
    by (cases "at_end l") auto
qed

lemma scan_token_ascii:
  assumes "unicode_classes alpha alnum" "is_ascii (lx_chars l)" "\<not> at_end l"
  shows "scan_token alpha alnum l = scan_token ascii_letter ascii_alphanumeric l"
  using classes_at(1) [OF assms] ident_loop_ascii [OF assms(1,2)]
  by (simp add: scan_token_def scan_identifier_def)

lemma next_token_ascii:
  assumes "unicode_classes alpha alnum" "is_ascii (lx_chars l)"
  shows "next_token alpha alnum l = next_token ascii_letter ascii_alphanumeric l"
proof -
  have "is_ascii (lx_chars (skip_whitespace_and_comments l))"
    using assms(2) skip_same_input [of l] by (simp add: same_input_def)
  then show ?thesis using scan_token_ascii [OF assms(1)] by (simp add: next_token_scan Let_def)
qed

lemma next_token_same_input:
  assumes "unicode_classes alpha alnum"
  shows "same_input l (snd (next_token alpha alnum l))"
proof -
  define k where "k = skip_whitespace_and_comments l"
  have "same_input l k" by (simp add: k_def skip_same_input)
  then show ?thesis
    using scan_token_progress [OF _ assms, of k]
    by (auto simp: next_token_scan k_def [symmetric] Let_def intro: same_input_trans)
qed

lemma tokenize_loop_ascii:
  "unicode_classes alpha alnum \<Longrightarrow> is_ascii (lx_chars l) \<Longrightarrow>
    tokenize_loop alpha alnum ts l = tokenize_loop ascii_letter ascii_alphanumeric ts l"
proof (induction alpha alnum ts l rule: tokenize_loop.induct)
  case (1 alpha alnum ts l)
  obtain u m where u: "next_token alpha alnum l = (u, m)" by fastforce
  then have "is_ascii (lx_chars m)"
    using next_token_same_input [OF "1.prems"(1), of l] "1.prems"(2) by (simp add: same_input_def)
  then show ?case
    using "1.IH" [of u m] "1.prems" u next_token_ascii [OF "1.prems"]
    by (simp add: tokenize_loop.simps [of alpha alnum ts l] tokenize_loop.simps [of ascii_letter ascii_alphanumeric ts l])
qed

definition lexes_to :: "(nat \<Rightarrow> bool) \<Rightarrow> (nat \<Rightarrow> bool) \<Rightarrow> string \<Rightarrow> token_kind \<Rightarrow> bool" where
  "lexes_to alpha alnum s k \<longleftrightarrow>
     map (\<lambda>t. (tk_kind t, tk_text t)) (fst (tokenize alpha alnum (new_lexer (ascii s) 0))) =
       [(k, ascii s), (TkEof, [])]"

lemma lexes_to_ascii:
  assumes "unicode_classes alpha alnum" "is_ascii (ascii s)"
  shows "lexes_to alpha alnum s k = lexes_to ascii_letter ascii_alphanumeric s k"
  using tokenize_loop_ascii [OF assms(1), of "new_lexer (ascii s) 0" "[]"] assms(2)
  by (simp add: lexes_to_def tokenize_def new_lexer_def)

lemma keyword_lexes: "lexes_to ascii_letter ascii_alphanumeric (keyword_text k) (TkKeyword k)"
  by (induction k) code_simp+

lemma operator_lexes: "lexes_to ascii_letter ascii_alphanumeric (operator_text k) (TkOperator k)"
  by (induction k) code_simp+

lemma delimiter_lexes: "lexes_to ascii_letter ascii_alphanumeric (delimiter_text k) (TkDelimiter k)"
  by (induction k) code_simp+

lemma punct_lexes: "lexes_to ascii_letter ascii_alphanumeric (punct_text k) (TkPunct k)"
  by (induction k) code_simp+

lemma fixed_texts_ascii:
  "is_ascii (ascii (keyword_text k))" "is_ascii (ascii (operator_text x))"
  "is_ascii (ascii (delimiter_text d))" "is_ascii (ascii (punct_text p))"
proof -
  show "is_ascii (ascii (keyword_text k))" by (induction k) code_simp+
  show "is_ascii (ascii (operator_text x))" by (induction x) code_simp+
  show "is_ascii (ascii (delimiter_text d))" by (induction d) code_simp+
  show "is_ascii (ascii (punct_text p))" by (induction p) code_simp+
qed

text \<open>C30. the text of every keyword, operator, delimiter and punctuation mark is scanned as that one
  token, whatever the Unicode classes are beyond ASCII.\<close>

theorem fixed_texts_lex_to_themselves:
  assumes "unicode_classes alpha alnum" "fixed_text k = Some s"
  shows "map (\<lambda>t. (tk_kind t, tk_text t)) (fst (tokenize alpha alnum (new_lexer (ascii s) 0))) =
    [(k, ascii s), (TkEof, [])]"
  using assms fixed_texts_ascii keyword_lexes operator_lexes delimiter_lexes punct_lexes
    lexes_to_ascii [OF assms(1), of s k]
  by (cases k) (auto simp: lexes_to_def)

theorem fixed_texts_lex_to_themselves_witness:
  "map (\<lambda>t. (tk_kind t, tk_text t))
     (fst (tokenize ascii_letter ascii_alphanumeric (new_lexer (ascii ''..='') 0))) =
   [(TkPunct PuDotDotEq, ascii ''..=''), (TkEof, [])]"
  by (rule fixed_texts_lex_to_themselves [OF unicode_classes_ascii]) simp

end
