(* ===== verification/Core_Types.thy ===== *)
theory Core_Types
  imports Doo_Prelude
begin

text \<open>
  The type registry (\<open>doo_core/src/types/registry.rs\<close>): every type of a program under an id and a
  name, the constructors of composite types, which intern by the name they compose, and the
  compatibility of types. The coarser test of ids alone is \<open>doo_analysis/src/types/compat.rs\<close>.

  A type id is a number (32 bits in the source: the counter wraps after four billion types, which no
  program has). The two hash maps of the registry are only looked up, so they are maps here; the map
  of JSON names of a structure is an association list.
\<close>

type_synonym tid = nat

section \<open>Kinds of types\<close>

definition ty_void :: tid where "ty_void = 0"
definition ty_bool :: tid where "ty_bool = 1"
definition ty_int :: tid where "ty_int = 2"
definition ty_float :: tid where "ty_float = 3"
definition ty_str :: tid where "ty_str = 4"
definition ty_any :: tid where "ty_any = 5"
definition ty_error :: tid where "ty_error = 6"
definition primitive_end :: nat where "primitive_end = 99"

datatype type_kind =
    TyVoid | TyBool | TyInt | TyFloat | TyStr
  | TyArray tid
  | TyMap tid tid
  | TyOptional tid
  | TyResult tid tid
  | TyTuple "tid list"
  | TyStruct ustr "(ustr \<times> tid \<times> bool) list" "(ustr \<times> ustr) list"
  | TyEnum ustr "(ustr \<times> tid option) list"
  | TyInterface ustr "(ustr \<times> tid list \<times> tid option \<times> tid option) list"
  | TyFunction "tid list" tid
  | TyRef ustr
  | TyAny | TyError
  | TyParam ustr

record type_info =
  ti_id :: tid
  ti_kind :: type_kind
  ti_name :: ustr

fun kind_is_copy :: "type_kind \<Rightarrow> bool" where
  "kind_is_copy TyVoid \<longleftrightarrow> True"
| "kind_is_copy TyBool \<longleftrightarrow> True"
| "kind_is_copy TyInt \<longleftrightarrow> True"
| "kind_is_copy TyFloat \<longleftrightarrow> True"
| "kind_is_copy (TyInterface _ _) \<longleftrightarrow> True"
| "kind_is_copy (TyParam _) \<longleftrightarrow> True"
| "kind_is_copy _ \<longleftrightarrow> False"

definition info_is_copy :: "type_info \<Rightarrow> bool" where
  "info_is_copy i \<longleftrightarrow> kind_is_copy (ti_kind i)"

definition info_needs_drop :: "type_info \<Rightarrow> bool" where
  "info_needs_drop i \<longleftrightarrow> \<not> info_is_copy i"

subsection \<open>Layout\<close>

record target_layout =
  pointer_size :: nat
  i64_size :: nat
  f64_size :: nat
  word_alignment :: nat

definition layout_x86_64 :: target_layout where
  "layout_x86_64 = \<lparr>pointer_size = 8, i64_size = 8, f64_size = 8, word_alignment = 8\<rparr>"

definition layout_wasm32 :: target_layout where
  "layout_wasm32 = \<lparr>pointer_size = 4, i64_size = 8, f64_size = 8, word_alignment = 4\<rparr>"

fun kind_size :: "target_layout \<Rightarrow> type_kind \<Rightarrow> nat" where
  "kind_size t TyVoid = 0"
| "kind_size t TyBool = 1"
| "kind_size t TyInt = i64_size t"
| "kind_size t TyFloat = f64_size t"
| "kind_size t TyStr = pointer_size t * 2"
| "kind_size t (TyArray _) = pointer_size t * 2 + i64_size t"
| "kind_size t (TyMap _ _) = pointer_size t"
| "kind_size t (TyOptional _) = word_alignment t + pointer_size t"
| "kind_size t (TyResult _ _) = word_alignment t + pointer_size t * 2"
| "kind_size t (TyTuple es) = length es * word_alignment t"
| "kind_size t (TyStruct _ fs _) = length fs * word_alignment t"
| "kind_size t (TyEnum _ _) = word_alignment t + pointer_size t"
| "kind_size t (TyInterface _ _) = pointer_size t * 2"
| "kind_size t (TyFunction _ _) = pointer_size t"
| "kind_size t (TyRef _) = pointer_size t"
| "kind_size t TyAny = word_alignment t + pointer_size t"
| "kind_size t TyError = pointer_size t * 2"
| "kind_size t (TyParam _) = pointer_size t"

definition size_bytes_for_target :: "target_layout \<Rightarrow> type_info \<Rightarrow> nat" where
  "size_bytes_for_target t i = kind_size t (ti_kind i)"

definition size_bytes :: "type_info \<Rightarrow> nat" where
  "size_bytes i = size_bytes_for_target layout_x86_64 i"

definition llvm_type :: "type_info \<Rightarrow> string" where
  "llvm_type i =
     (case ti_kind i of
        TyVoid \<Rightarrow> ''void'' | TyBool \<Rightarrow> ''i1'' | TyInt \<Rightarrow> ''i64'' | TyFloat \<Rightarrow> ''double'' | _ \<Rightarrow> ''ptr'')"

section \<open>The registry\<close>

record registry =
  reg_types :: "tid \<rightharpoonup> type_info"
  reg_names :: "ustr \<rightharpoonup> tid"
  reg_next :: tid

definition reg_get :: "registry \<Rightarrow> tid \<Rightarrow> type_info option" where
  "reg_get r i = reg_types r i"

definition reg_lookup :: "registry \<Rightarrow> ustr \<Rightarrow> tid option" where
  "reg_lookup r n = reg_names r n"

definition insert_type :: "tid \<Rightarrow> ustr \<Rightarrow> type_kind \<Rightarrow> registry \<Rightarrow> registry" where
  "insert_type i name kind r =
     r\<lparr>reg_types := (reg_types r)(i \<mapsto> \<lparr>ti_id = i, ti_kind = kind, ti_name = name\<rparr>),
       reg_names := (reg_names r)(name \<mapsto> i)\<rparr>"

definition register_builtin :: "tid \<Rightarrow> string \<Rightarrow> type_kind \<Rightarrow> registry \<Rightarrow> registry" where
  "register_builtin i name kind r = insert_type i (ascii name) kind r"

definition new_registry :: registry where
  "new_registry =
     (let r = \<lparr>reg_types = Map.empty, reg_names = Map.empty, reg_next = primitive_end + 1\<rparr>;
          r = register_builtin ty_void ''Void'' TyVoid r;
          r = register_builtin ty_bool ''Bool'' TyBool r;
          r = register_builtin ty_int ''Int'' TyInt r;
          r = register_builtin ty_float ''Float'' TyFloat r;
          r = register_builtin ty_str ''Str'' TyStr r;
          r = register_builtin ty_any ''Any'' TyAny r
      in register_builtin ty_error ''Error'' TyError r)"

definition register_type :: "ustr \<Rightarrow> type_kind \<Rightarrow> registry \<Rightarrow> tid \<times> registry" where
  "register_type name kind r =
     (case reg_names r name of
        Some i \<Rightarrow> (i, r)
      | None \<Rightarrow> let i = reg_next r in (i, insert_type i name kind (r\<lparr>reg_next := i + 1\<rparr>)))"

subsection \<open>Named types\<close>

definition declare_named :: "ustr \<Rightarrow> registry \<Rightarrow> tid \<times> registry" where
  "declare_named name r =
     (case reg_names r name of Some i \<Rightarrow> (i, r) | None \<Rightarrow> register_type name (TyRef name) r)"

definition redefine :: "ustr \<Rightarrow> type_kind \<Rightarrow> registry \<Rightarrow> tid \<times> registry" where
  "redefine name kind r =
     (case declare_named name r of
        (i, r) \<Rightarrow>
          (i, case reg_types r i of
                None \<Rightarrow> r
              | Some info \<Rightarrow>
                  r\<lparr>reg_types := (reg_types r)(i \<mapsto> info\<lparr>ti_kind := kind, ti_name := name\<rparr>)\<rparr>))"

definition define_struct ::
    "ustr \<Rightarrow> (ustr \<times> tid \<times> bool) list \<Rightarrow> (ustr \<times> ustr) list \<Rightarrow> registry \<Rightarrow> tid \<times> registry" where
  "define_struct name fs json r = redefine name (TyStruct name fs json) r"

definition define_enum :: "ustr \<Rightarrow> (ustr \<times> tid option) list \<Rightarrow> registry \<Rightarrow> tid \<times> registry" where
  "define_enum name vs r = redefine name (TyEnum name vs) r"

definition define_interface ::
    "ustr \<Rightarrow> (ustr \<times> tid list \<times> tid option \<times> tid option) list \<Rightarrow> registry \<Rightarrow> tid \<times> registry" where
  "define_interface name ms r = redefine name (TyInterface name ms) r"

definition register_struct ::
    "ustr \<Rightarrow> (ustr \<times> tid \<times> bool) list \<Rightarrow> (ustr \<times> ustr) list \<Rightarrow> registry \<Rightarrow> tid \<times> registry" where
  "register_struct name fs json r = register_type name (TyStruct name fs json) r"

definition register_enum :: "ustr \<Rightarrow> (ustr \<times> tid option) list \<Rightarrow> registry \<Rightarrow> tid \<times> registry" where
  "register_enum name vs r = register_type name (TyEnum name vs) r"

definition register_interface ::
    "ustr \<Rightarrow> (ustr \<times> tid list \<times> tid option \<times> tid option) list \<Rightarrow> registry \<Rightarrow> tid \<times> registry" where
  "register_interface name ms r = register_type name (TyInterface name ms) r"

subsection \<open>Composite types\<close>

definition name_or_unknown :: "registry \<Rightarrow> tid \<Rightarrow> ustr" where
  "name_or_unknown r i = (case reg_get r i of Some info \<Rightarrow> ti_name info | None \<Rightarrow> ascii ''?'')"

fun join_names :: "ustr list \<Rightarrow> ustr" where
  "join_names [] = []"
| "join_names [n] = n"
| "join_names (n # m # ns) = n @ ascii '', '' @ join_names (m # ns)"

definition array_name :: "registry \<Rightarrow> tid \<Rightarrow> ustr" where
  "array_name r e = ascii ''['' @ name_or_unknown r e @ ascii '']''"

definition register_array :: "tid \<Rightarrow> registry \<Rightarrow> tid \<times> registry" where
  "register_array e r = register_type (array_name r e) (TyArray e) r"

definition map_name :: "registry \<Rightarrow> tid \<Rightarrow> tid \<Rightarrow> ustr" where
  "map_name r k v = ascii ''Map<'' @ name_or_unknown r k @ ascii '', '' @ name_or_unknown r v @ ascii ''>''"

definition register_map :: "tid \<Rightarrow> tid \<Rightarrow> registry \<Rightarrow> tid \<times> registry" where
  "register_map k v r = register_type (map_name r k v) (TyMap k v) r"

definition tuple_name :: "registry \<Rightarrow> tid list \<Rightarrow> ustr" where
  "tuple_name r es = ascii ''('' @ join_names (map (name_or_unknown r) es) @ ascii '')''"

definition register_tuple :: "tid list \<Rightarrow> registry \<Rightarrow> tid \<times> registry" where
  "register_tuple es r = register_type (tuple_name r es) (TyTuple es) r"

definition function_name :: "registry \<Rightarrow> tid list \<Rightarrow> tid \<Rightarrow> ustr" where
  "function_name r ps t =
     ascii ''('' @ join_names (map (name_or_unknown r) ps) @ ascii '') -> '' @ name_or_unknown r t"

definition register_function :: "tid list \<Rightarrow> tid \<Rightarrow> registry \<Rightarrow> tid \<times> registry" where
  "register_function ps t r = register_type (function_name r ps t) (TyFunction ps t) r"

definition optional_name :: "registry \<Rightarrow> tid \<Rightarrow> ustr" where
  "optional_name r i = name_or_unknown r i @ ascii ''?''"

definition register_optional :: "tid \<Rightarrow> registry \<Rightarrow> tid \<times> registry" where
  "register_optional i r = register_type (optional_name r i) (TyOptional i) r"

definition result_name :: "registry \<Rightarrow> tid \<Rightarrow> tid \<Rightarrow> ustr" where
  "result_name r t e = name_or_unknown r t @ ascii '' ! '' @ name_or_unknown r e"

definition register_result :: "tid \<Rightarrow> tid \<Rightarrow> registry \<Rightarrow> tid \<times> registry" where
  "register_result t e r = register_type (result_name r t e) (TyResult t e) r"

definition type_param_key :: "ustr \<Rightarrow> ustr" where
  "type_param_key name = ascii ''__typeparam_'' @ name"

definition register_type_param :: "ustr \<Rightarrow> registry \<Rightarrow> tid \<times> registry" where
  "register_type_param name r =
     (case reg_names r (type_param_key name) of
        Some i \<Rightarrow> (i, r)
      | None \<Rightarrow> register_type (type_param_key name) (TyParam name) r)"

subsection \<open>Questions\<close>

definition type_param_name :: "registry \<Rightarrow> tid \<Rightarrow> ustr option" where
  "type_param_name r i =
     (case reg_get r i of
        Some info \<Rightarrow> (case ti_kind info of TyParam n \<Rightarrow> Some n | _ \<Rightarrow> None)
      | None \<Rightarrow> None)"

definition is_type_param :: "registry \<Rightarrow> tid \<Rightarrow> bool" where
  "is_type_param r i =
     (case reg_get r i of
        Some info \<Rightarrow> (case ti_kind info of TyParam n \<Rightarrow> True | _ \<Rightarrow> False)
      | None \<Rightarrow> False)"

definition display_name :: "registry \<Rightarrow> tid \<Rightarrow> ustr" where
  "display_name r i = (case reg_get r i of Some info \<Rightarrow> ti_name info | None \<Rightarrow> ascii (''T'' @ show_nat i))"

definition reg_is_copy :: "registry \<Rightarrow> tid \<Rightarrow> bool" where
  "reg_is_copy r i = (case reg_get r i of Some info \<Rightarrow> info_is_copy info | None \<Rightarrow> False)"

definition reg_needs_drop :: "registry \<Rightarrow> tid \<Rightarrow> bool" where
  "reg_needs_drop r i = (case reg_get r i of Some info \<Rightarrow> info_needs_drop info | None \<Rightarrow> True)"

section \<open>Compatibility\<close>

definition is_optional_kind :: "type_kind \<Rightarrow> bool" where
  "is_optional_kind k = (case k of TyOptional _ \<Rightarrow> True | _ \<Rightarrow> False)"

definition nil_to_optional :: "registry \<Rightarrow> tid \<Rightarrow> tid \<Rightarrow> bool" where
  "nil_to_optional r actual expected \<longleftrightarrow>
     actual = ty_void \<and>
     (case reg_get r expected of Some e \<Rightarrow> is_optional_kind (ti_kind e) | None \<Rightarrow> False)"

definition resolve_ref :: "registry \<Rightarrow> ustr \<Rightarrow> tid \<Rightarrow> tid option" where
  "resolve_ref r name self = (case reg_lookup r name of Some i \<Rightarrow> if i \<noteq> self then Some i else None | None \<Rightarrow> None)"

text \<open>The arms of the match over the two kinds, grouped by the expected one: the answer, or the pairs
  of ids that have to be compatible instead.\<close>

datatype type_question = Answer bool | Compare tid tid | CompareBoth tid tid tid tid

definition compare_ref :: "tid option \<Rightarrow> (tid \<Rightarrow> type_question) \<Rightarrow> type_question" where
  "compare_ref target go = (case target of Some i \<Rightarrow> go i | None \<Rightarrow> Answer False)"

definition compat_step :: "registry \<Rightarrow> tid \<Rightarrow> tid \<Rightarrow> type_kind \<Rightarrow> type_kind \<Rightarrow> type_question" where
  "compat_step r actual expected a e =
     (let by_ref = (case a of
                      TyRef n \<Rightarrow> compare_ref (resolve_ref r n actual) (\<lambda>i. Compare i expected)
                    | _ \<Rightarrow> Answer False)
      in case e of
           TyArray y \<Rightarrow> (case a of TyArray x \<Rightarrow> Compare x y | _ \<Rightarrow> by_ref)
         | TyMap k' v' \<Rightarrow> (case a of TyMap k v \<Rightarrow> CompareBoth k k' v v' | _ \<Rightarrow> by_ref)
         | TyOptional y \<Rightarrow> (case a of TyOptional x \<Rightarrow> Compare x y | _ \<Rightarrow> Compare actual y)
         | TyInterface _ _ \<Rightarrow> Answer True
         | TyRef n \<Rightarrow>
             (case a of
                TyRef _ \<Rightarrow> by_ref
              | _ \<Rightarrow> compare_ref (resolve_ref r n expected) (\<lambda>i. Compare actual i))
         | _ \<Rightarrow> by_ref)"

definition compat_cases :: "registry \<Rightarrow> tid \<Rightarrow> tid \<Rightarrow> type_question" where
  "compat_cases r actual expected =
     (if actual = expected then Answer True
      else if actual = ty_any \<or> expected = ty_any then Answer True
      else if nil_to_optional r actual expected then Answer True
      else case (reg_get r actual, reg_get r expected) of
             (Some a, Some e) \<Rightarrow> compat_step r actual expected (ti_kind a) (ti_kind e)
           | _ \<Rightarrow> Answer False)"

text \<open>The recursion follows the ids a kind mentions, so on an arbitrary registry it need not end;
  \<open>None\<close> stands for that.\<close>

partial_function (option) is_compatible :: "registry \<Rightarrow> tid \<Rightarrow> tid \<Rightarrow> bool option" where
  "is_compatible r actual expected =
     (case compat_cases r actual expected of
        Answer b \<Rightarrow> Some b
      | Compare x y \<Rightarrow> is_compatible r x y
      | CompareBoth k k' v v' \<Rightarrow>
          Option.bind (is_compatible r k k') (\<lambda>b. if b then is_compatible r v v' else Some False))"

subsection \<open>By ids alone\<close>

definition numeric_types :: "tid list" where
  "numeric_types = [ty_int, ty_float]"

definition assignable :: "tid \<Rightarrow> tid \<Rightarrow> bool" where
  "assignable source target \<longleftrightarrow>
     source = target \<or> target = ty_any \<or> source = ty_any \<or> (source = ty_int \<and> target = ty_float)"

definition comparable :: "tid \<Rightarrow> tid \<Rightarrow> bool" where
  "comparable a b \<longleftrightarrow> a = b \<or> (a \<in> set numeric_types \<and> b \<in> set numeric_types)"

definition arithmetic_types :: "tid \<Rightarrow> tid \<Rightarrow> bool" where
  "arithmetic_types a b \<longleftrightarrow> a \<in> set numeric_types \<and> b \<in> set numeric_types"

definition string_concat :: "tid \<Rightarrow> tid \<Rightarrow> bool" where
  "string_concat a b \<longleftrightarrow> a = ty_str \<or> b = ty_str"

end
