(* ===== verification/Core_Typing.thy ===== *)
theory Core_Typing
  imports Core_Types
begin

text \<open>
  The registry as an invariant: ids and names are in bijection, a composite type mentions only types
  registered before it, and a reference that was never defined names itself. Every registry a
  program can build has it, which is why compatibility always has an answer.
\<close>

section \<open>Consistent registries\<close>

fun components :: "type_kind \<Rightarrow> tid list" where
  "components (TyArray e) = [e]"
| "components (TyMap k v) = [k, v]"
| "components (TyOptional i) = [i]"
| "components (TyResult t e) = [t, e]"
| "components (TyTuple es) = es"
| "components (TyFunction ps t) = ps @ [t]"
| "components _ = []"

definition well_placed :: "type_info \<Rightarrow> bool" where
  "well_placed info \<longleftrightarrow>
     (\<forall>c\<in>set (components (ti_kind info)). c < ti_id info) \<and>
     (\<forall>n. ti_kind info = TyRef n \<longrightarrow> n = ti_name info)"

definition consistent :: "registry \<Rightarrow> bool" where
  "consistent r \<longleftrightarrow>
     (\<forall>i info. reg_types r i = Some info \<longrightarrow>
        ti_id info = i \<and> i < reg_next r \<and> reg_names r (ti_name info) = Some i \<and> well_placed info) \<and>
     (\<forall>n i. reg_names r n = Some i \<longrightarrow> (\<exists>info. reg_types r i = Some info \<and> ti_name info = n)) \<and>
     primitive_end < reg_next r"

definition known_types :: "registry \<Rightarrow> tid list \<Rightarrow> bool" where
  "known_types r cs \<longleftrightarrow> (\<forall>c\<in>set cs. reg_types r c \<noteq> None)"

text \<open>What registering another type leaves alone, and what defining a named one does.\<close>

definition extends :: "registry \<Rightarrow> registry \<Rightarrow> bool" where
  "extends r r' \<longleftrightarrow> reg_types r \<subseteq>\<^sub>m reg_types r' \<and> reg_names r \<subseteq>\<^sub>m reg_names r'"

definition keeps_ids :: "registry \<Rightarrow> registry \<Rightarrow> bool" where
  "keeps_ids r r' \<longleftrightarrow> dom (reg_types r) \<subseteq> dom (reg_types r') \<and> reg_names r \<subseteq>\<^sub>m reg_names r'"

lemma consistent_info:
  "consistent r \<Longrightarrow> reg_types r i = Some info \<Longrightarrow>
    ti_id info = i \<and> i < reg_next r \<and> reg_names r (ti_name info) = Some i \<and> well_placed info"
  by (simp add: consistent_def)

lemma consistent_name:
  "consistent r \<Longrightarrow> reg_names r n = Some i \<Longrightarrow> \<exists>info. reg_types r i = Some info \<and> ti_name info = n"
  by (simp add: consistent_def)

lemma consistentI:
  assumes "\<And>i info. reg_types r i = Some info \<Longrightarrow>
      ti_id info = i \<and> i < reg_next r \<and> reg_names r (ti_name info) = Some i \<and> well_placed info"
    and "\<And>n i. reg_names r n = Some i \<Longrightarrow> \<exists>info. reg_types r i = Some info \<and> ti_name info = n"
    and "primitive_end < reg_next r"
  shows "consistent r"
  using assms by (simp add: consistent_def)

lemma known_below: "consistent r \<Longrightarrow> known_types r cs \<Longrightarrow> c \<in> set cs \<Longrightarrow> c < reg_next r"
  using consistent_info by (fastforce simp: known_types_def)

lemma extends_refl [simp]: "extends r r"
  by (simp add: extends_def)

lemma extends_trans: "extends r s \<Longrightarrow> extends s t \<Longrightarrow> extends r t"
  by (auto simp: extends_def intro: map_le_trans)

lemma extends_keeps_ids: "extends r s \<Longrightarrow> keeps_ids r s"
  by (auto simp: extends_def keeps_ids_def dest: map_le_implies_dom_le)

lemma extends_get: "extends r s \<Longrightarrow> reg_types r i = Some info \<Longrightarrow> reg_types s i = Some info"
  by (auto simp: extends_def map_le_def dom_def)

section \<open>Registration\<close>

text \<open>The contract of an operation that adds a type: where its precondition holds it keeps the
  registry consistent, changes no type and no name, and returns a registered type.\<close>

locale type_registration =
  fixes can_register :: "registry \<Rightarrow> bool" and register :: "registry \<Rightarrow> tid \<times> registry"
  assumes keeps_consistent: "consistent r \<Longrightarrow> can_register r \<Longrightarrow> consistent (snd (register r))"
    and only_adds: "consistent r \<Longrightarrow> can_register r \<Longrightarrow> extends r (snd (register r))"
    and registered: "consistent r \<Longrightarrow> can_register r \<Longrightarrow> reg_types (snd (register r)) (fst (register r)) \<noteq> None"
begin

lemma keeps_types:
  assumes "consistent r" "can_register r" "reg_types r i = Some info"
  shows "reg_types (snd (register r)) i = Some info"
  using extends_get [OF only_adds] assms by blast

lemma keeps_known:
  assumes "consistent r" "can_register r" "known_types r cs"
  shows "known_types (snd (register r)) cs"
  using keeps_types [OF assms(1,2)] assms(3) by (auto simp: known_types_def)

lemma result_below_next: "consistent r \<Longrightarrow> can_register r \<Longrightarrow> fst (register r) < reg_next (snd (register r))"
  using consistent_info [OF keeps_consistent] registered by blast

end

definition placeable :: "ustr \<Rightarrow> type_kind \<Rightarrow> registry \<Rightarrow> bool" where
  "placeable name kind r \<longleftrightarrow> known_types r (components kind) \<and> (\<forall>n. kind = TyRef n \<longrightarrow> n = name)"

lemma register_type_cases:
  assumes "consistent r"
  obtains (taken) i info where "reg_names r name = Some i" "reg_types r i = Some info" "ti_name info = name"
      "register_type name kind r = (i, r)"
  | (new) "reg_names r name = None" "reg_types r (reg_next r) = None"
      "register_type name kind r =
        (reg_next r, insert_type (reg_next r) name kind (r\<lparr>reg_next := reg_next r + 1\<rparr>))"
proof (cases "reg_names r name")
  case None
  moreover have "reg_types r (reg_next r) = None"
    using consistent_info [OF assms, of "reg_next r"] by (cases "reg_types r (reg_next r)") auto
  ultimately show thesis using new by (simp add: register_type_def Let_def)
next
  case (Some i)
  then show thesis using taken consistent_name [OF assms Some] by (auto simp: register_type_def)
qed

lemma consistent_insert:
  assumes "consistent r" "placeable name kind r" "reg_names r name = None"
  shows "consistent (insert_type (reg_next r) name kind (r\<lparr>reg_next := reg_next r + 1\<rparr>))"
proof -
  have new: "reg_types r (reg_next r) = None"
    using consistent_info [OF assms(1), of "reg_next r"] by (cases "reg_types r (reg_next r)") auto
  have "well_placed \<lparr>ti_id = reg_next r, ti_kind = kind, ti_name = name\<rparr>"
    using assms(2) known_below [OF assms(1)] by (auto simp: well_placed_def placeable_def)
  then show ?thesis
    using assms(1,3) new consistent_name [OF assms(1), of _ "reg_next r"] unfolding consistent_def insert_type_def
    by (auto simp: less_Suc_eq split: if_splits)
qed

interpretation register: type_registration "placeable name kind" "register_type name kind" for name kind
proof
  fix r
  assume r: "consistent r" and p: "placeable name kind r"
  show "consistent (snd (register_type name kind r))"
    using r p consistent_insert by (cases rule: register_type_cases [OF r, of name kind]) simp_all
  show "extends r (snd (register_type name kind r))"
    using r by (cases rule: register_type_cases [OF r, of name kind])
      (auto simp: extends_def insert_type_def map_le_def dom_def)
  show "reg_types (snd (register_type name kind r)) (fst (register_type name kind r)) \<noteq> None"
    using r by (cases rule: register_type_cases [OF r, of name kind]) (auto simp: insert_type_def)
qed

lemma declare_named_register: "declare_named name r = register_type name (TyRef name) r"
  by (simp add: declare_named_def register_type_def split: option.splits)

lemma register_type_param_register: "register_type_param name r = register_type (type_param_key name) (TyParam name) r"
  by (simp add: register_type_param_def register_type_def split: option.splits)

interpretation named: type_registration "\<lambda>r. True" "declare_named name" for name
  using register.keeps_consistent [of _ name "TyRef name"] register.only_adds [of _ name "TyRef name"]
    register.registered [of _ name "TyRef name"]
  by unfold_locales (simp_all add: declare_named_register placeable_def known_types_def)

text \<open>Defining a named type gives its id the new kind and changes nothing else.\<close>

lemma consistent_redefine:
  assumes r: "consistent r" and kind: "components kind = []" "\<And>n. kind \<noteq> TyRef n"
  shows "consistent (snd (redefine name kind r))" "keeps_ids r (snd (redefine name kind r))"
    "\<exists>info. reg_types (snd (redefine name kind r)) (fst (redefine name kind r)) = Some info \<and>
       ti_kind info = kind \<and> ti_name info = name"
    "i \<noteq> fst (redefine name kind r) \<Longrightarrow>
       reg_types r i = Some info \<Longrightarrow> reg_types (snd (redefine name kind r)) i = Some info"
proof -
  obtain j s where d: "declare_named name r = (j, s)" by fastforce
  have s: "consistent s" "extends r s" using named.keeps_consistent [OF r, of name] named.only_adds [OF r, of name] d by simp_all
  have "reg_names s name = Some j"
    using d r by (cases rule: register_type_cases [OF r, of name "TyRef name"])
      (auto simp: declare_named_register insert_type_def)
  then obtain info where info: "reg_types s j = Some info" "ti_name info = name"
    using consistent_name [OF s(1)] by blast
  then have red: "redefine name kind r =
      (j, s\<lparr>reg_types := (reg_types s)(j \<mapsto> info\<lparr>ti_kind := kind\<rparr>)\<rparr>)"
    by (cases info) (simp add: redefine_def d)
  have wp: "well_placed (info\<lparr>ti_kind := kind\<rparr>)" using kind by (simp add: well_placed_def)
  show "consistent (snd (redefine name kind r))"
  proof (rule consistentI)
    fix i x
    assume "reg_types (snd (redefine name kind r)) i = Some x"
    then show "ti_id x = i \<and> i < reg_next (snd (redefine name kind r)) \<and>
        reg_names (snd (redefine name kind r)) (ti_name x) = Some i \<and> well_placed x"
      using consistent_info [OF s(1), of i] consistent_info [OF s(1) info(1)] wp
      by (auto simp: red split: if_splits)
  next
    fix n i
    assume "reg_names (snd (redefine name kind r)) n = Some i"
    then show "\<exists>x. reg_types (snd (redefine name kind r)) i = Some x \<and> ti_name x = n"
      using consistent_name [OF s(1), of n i] info(1) by (auto simp: red)
  next
    show "primitive_end < reg_next (snd (redefine name kind r))" using s(1) by (simp add: red consistent_def)
  qed
  show "keeps_ids r (snd (redefine name kind r))"
    using extends_keeps_ids [OF s(2)] info(1) by (auto simp: red keeps_ids_def)
  show "\<exists>info. reg_types (snd (redefine name kind r)) (fst (redefine name kind r)) = Some info \<and>
       ti_kind info = kind \<and> ti_name info = name"
    using info by (simp add: red)
  show "i \<noteq> fst (redefine name kind r) \<Longrightarrow> reg_types r i = Some info \<Longrightarrow>
      reg_types (snd (redefine name kind r)) i = Some info" for info
    using extends_get [OF s(2)] by (simp add: red)
qed

section \<open>Reachable registries\<close>

text \<open>One step builds a type with a constructor of the registry, over types it has.\<close>

inductive registry_step :: "registry \<Rightarrow> registry \<Rightarrow> bool" where
  step_array: "known_types r [e] \<Longrightarrow> registry_step r (snd (register_array e r))"
| step_map: "known_types r [k, v] \<Longrightarrow> registry_step r (snd (register_map k v r))"
| step_tuple: "known_types r es \<Longrightarrow> registry_step r (snd (register_tuple es r))"
| step_function: "known_types r (t # ps) \<Longrightarrow> registry_step r (snd (register_function ps t r))"
| step_optional: "known_types r [i] \<Longrightarrow> registry_step r (snd (register_optional i r))"
| step_result: "known_types r [t, e] \<Longrightarrow> registry_step r (snd (register_result t e r))"
| step_param: "registry_step r (snd (register_type_param n r))"
| step_register_struct: "registry_step r (snd (register_struct n fs json r))"
| step_register_enum: "registry_step r (snd (register_enum n vs r))"
| step_register_interface: "registry_step r (snd (register_interface n ms r))"
| step_declare: "registry_step r (snd (declare_named n r))"
| step_struct: "registry_step r (snd (define_struct n fs json r))"
| step_enum: "registry_step r (snd (define_enum n vs r))"
| step_interface: "registry_step r (snd (define_interface n ms r))"

inductive reachable_registry :: "registry \<Rightarrow> bool" where
  reach_new: "reachable_registry new_registry"
| reach_step: "reachable_registry r \<Longrightarrow> registry_step r s \<Longrightarrow> reachable_registry s"

lemma consistent_new: "consistent new_registry"
  by (auto simp: consistent_def new_registry_def register_builtin_def insert_type_def Let_def well_placed_def
      ty_void_def ty_bool_def ty_int_def ty_float_def ty_str_def ty_any_def ty_error_def primitive_end_def
      ascii_def split: if_splits)

lemma registry_step_consistent:
  assumes "registry_step r s" "consistent r"
  shows "consistent s \<and> keeps_ids r s"
  using assms(1)
proof cases
  have reg: "consistent (snd (register_type n k r)) \<and> keeps_ids r (snd (register_type n k r))"
    if "placeable n k r" for n k
    using register.keeps_consistent [OF assms(2) that] register.only_adds [OF assms(2) that]
    by (simp add: extends_keeps_ids)
  have red: "consistent (snd (redefine n k r)) \<and> keeps_ids r (snd (redefine n k r))"
    if "components k = []" "\<And>m. k \<noteq> TyRef m" for n k
    using consistent_redefine(1,2) [OF assms(2) that] by simp
  note defs = placeable_def known_types_def register_array_def register_map_def register_tuple_def
    register_function_def register_optional_def register_result_def register_type_param_register
    register_struct_def register_enum_def register_interface_def declare_named_register
    define_struct_def define_enum_def define_interface_def
  {
    case step_array then show ?thesis using reg by (simp add: defs) next
    case step_map then show ?thesis using reg by (simp add: defs) next
    case step_tuple then show ?thesis using reg by (simp add: defs) next
    case step_function then show ?thesis using reg by (simp add: defs) next
    case step_optional then show ?thesis using reg by (simp add: defs) next
    case step_result then show ?thesis using reg by (simp add: defs) next
    case step_param then show ?thesis using reg by (simp add: defs) next
    case step_register_struct then show ?thesis using reg by (simp add: defs) next
    case step_register_enum then show ?thesis using reg by (simp add: defs) next
    case step_register_interface then show ?thesis using reg by (simp add: defs) next
    case step_declare then show ?thesis using reg by (simp add: defs) next
    case step_struct then show ?thesis using red by (simp add: defs) next
    case step_enum then show ?thesis using red by (simp add: defs) next
    case step_interface then show ?thesis using red by (simp add: defs)
  }
qed

lemma reachable_consistent: "reachable_registry r \<Longrightarrow> consistent r"
  by (induction rule: reachable_registry.induct) (simp_all add: consistent_new registry_step_consistent)

text \<open>C12. In every registry a program can build, each type carries its own id, which is below the counter
  for the next one, and its name is registered for it; each registered name leads to a type of that name; a
  composite type mentions only types registered before it; and registering or defining another type never
  takes an id or a name away.\<close>

theorem registry_is_bijective:
  assumes "reachable_registry r" "registry_step r s"
  shows "(\<forall>i info. reg_types s i = Some info \<longrightarrow>
        ti_id info = i \<and> i < reg_next s \<and> reg_names s (ti_name info) = Some i \<and>
        (\<forall>c\<in>set (components (ti_kind info)). c < i)) \<and>
    (\<forall>n i. reg_names s n = Some i \<longrightarrow> (\<exists>info. reg_types s i = Some info \<and> ti_name info = n)) \<and>
    (\<forall>n i. reg_names r n = Some i \<longrightarrow> reg_names s n = Some i) \<and> dom (reg_types r) \<subseteq> dom (reg_types s)"
proof -
  have s: "consistent s" "keeps_ids r s"
    using registry_step_consistent [OF assms(2) reachable_consistent [OF assms(1)]] by simp_all
  have "reg_names s n = Some i" if "reg_names r n = Some i" for n i
    using s(2) that by (metis domI keeps_ids_def map_le_def)
  moreover have "ti_id info = i \<and> i < reg_next s \<and> reg_names s (ti_name info) = Some i \<and>
      (\<forall>c\<in>set (components (ti_kind info)). c < i)" if "reg_types s i = Some info" for i info
    using consistent_info [OF s(1) that] by (auto simp: well_placed_def)
  ultimately show ?thesis
    using s(2) consistent_name [OF s(1)] unfolding keeps_ids_def by blast
qed

section \<open>Compatibility\<close>

text \<open>Every step of the comparison goes to smaller ids.\<close>

fun smaller_step :: "nat \<Rightarrow> type_question \<Rightarrow> bool" where
  "smaller_step n (Answer b) \<longleftrightarrow> True"
| "smaller_step n (Compare x y) \<longleftrightarrow> x + y < n"
| "smaller_step n (CompareBoth k k' v v') \<longleftrightarrow> k + k' < n \<and> v + v' < n"

lemma no_self_reference:
  assumes "consistent r" "reg_types r i = Some info" "ti_kind info = TyRef n"
  shows "resolve_ref r n i = None"
  using consistent_info [OF assms(1,2)] assms(3) by (auto simp: resolve_ref_def reg_lookup_def well_placed_def)

lemma compat_step_smaller:
  assumes "\<forall>c\<in>set (components ka). c < a" "\<forall>c\<in>set (components ke). c < e"
    and "\<And>n. ka = TyRef n \<Longrightarrow> resolve_ref r n a = None" "\<And>n. ke = TyRef n \<Longrightarrow> resolve_ref r n e = None"
  shows "smaller_step (a + e) (compat_step r a e ka ke)"
proof -
  have ref: "(case ka of TyRef n \<Rightarrow> compare_ref (resolve_ref r n a) (\<lambda>i. Compare i e) | _ \<Rightarrow> Answer False) = Answer False"
    using assms(3) by (simp add: compare_ref_def split: type_kind.split)
  show ?thesis
    using assms(1,2,4) unfolding compat_step_def Let_def ref
    by (cases ke) (auto simp: compare_ref_def split: type_kind.split intro: add_strict_mono)
qed

lemma compat_cases_smaller:
  assumes "consistent r"
  shows "smaller_step (a + e) (compat_cases r a e)"
proof -
  have "smaller_step (a + e) (compat_step r a e (ti_kind x) (ti_kind y))"
    if "reg_types r a = Some x" "reg_types r e = Some y" for x y
    using consistent_info [OF assms that(1)] consistent_info [OF assms that(2)]
      no_self_reference [OF assms that(1)] no_self_reference [OF assms that(2)]
    by (intro compat_step_smaller) (auto simp: well_placed_def)
  then show ?thesis
    by (simp add: compat_cases_def reg_get_def split: option.split)
qed

lemma is_compatible_returns:
  "consistent r \<Longrightarrow> \<exists>b. is_compatible r a e = Some b"
proof (induction "a + e" arbitrary: a e rule: less_induct)
  case less
  note smaller = compat_cases_smaller [OF less.prems, of a e]
  show ?case
  proof (cases "compat_cases r a e")
    case (Answer b)
    then show ?thesis by (simp add: is_compatible.simps [of r a e])
  next
    case (Compare x y)
    then show ?thesis using smaller less.hyps [of x y] less.prems by (simp add: is_compatible.simps [of r a e])
  next
    case (CompareBoth k k' v v')
    then obtain b c where "is_compatible r k k' = Some b" "is_compatible r v v' = Some c"
      using smaller less.hyps [of k k'] less.hyps [of v v'] less.prems by auto
    then show ?thesis using CompareBoth by (cases b) (auto simp: is_compatible.simps [of r a e])
  qed
qed

text \<open>C17. on every registry a program can build, compatibility has an answer for any two ids, however
  the types refer to each other.\<close>

theorem compatibility_terminates:
  assumes "reachable_registry r"
  shows "\<exists>b. is_compatible r actual expected = Some b"
  by (rule is_compatible_returns [OF reachable_consistent [OF assms]])

text \<open>Outside those it may run for ever: two references that name each other.\<close>

definition mutual_references :: registry where
  "mutual_references =
     snd (register_type (ascii ''A'') (TyRef (ascii ''B'')) (snd (register_type (ascii ''B'') (TyRef (ascii ''A'')) new_registry)))"

lemma mutual_references_step:
  "compat_cases mutual_references 100 ty_int = Compare 101 ty_int"
  "compat_cases mutual_references 101 ty_int = Compare 100 ty_int"
  by code_simp+

theorem reference_cycle_never_answers:
  "is_compatible mutual_references 100 ty_int = None"
proof -
  have "\<not> (r = mutual_references \<and> e = ty_int \<and> (a = 100 \<or> a = 101))" if "is_compatible r a e = Some b" for r a e b
  proof (rule is_compatible.raw_induct
      [where P = "\<lambda>r a e b. \<not> (r = mutual_references \<and> e = ty_int \<and> (a = 100 \<or> a = 101))", OF _ that])
    fix f :: "registry \<Rightarrow> tid \<Rightarrow> tid \<Rightarrow> bool option" and r a e b
    assume IH: "\<And>r a e b. f r a e = Some b \<Longrightarrow> \<not> (r = mutual_references \<and> e = ty_int \<and> (a = 100 \<or> a = 101))"
    assume "(case compat_cases r a e of Answer b \<Rightarrow> Some b | Compare x y \<Rightarrow> f r x y
      | CompareBoth k k' v v' \<Rightarrow> Option.bind (f r k k') (\<lambda>b. if b then f r v v' else Some False)) = Some b"
    then show "\<not> (r = mutual_references \<and> e = ty_int \<and> (a = 100 \<or> a = 101))"
      using IH [of mutual_references 100 ty_int] IH [of mutual_references 101 ty_int] mutual_references_step
      by auto
  qed
  then show ?thesis by (cases "is_compatible mutual_references 100 ty_int") auto
qed

section \<open>Interning\<close>

text \<open>The constructors of composite types.\<close>

fun intern :: "type_kind \<Rightarrow> registry \<Rightarrow> tid \<times> registry" where
  "intern (TyArray e) r = register_array e r"
| "intern (TyMap k v) r = register_map k v r"
| "intern (TyTuple es) r = register_tuple es r"
| "intern (TyFunction ps t) r = register_function ps t r"
| "intern (TyOptional i) r = register_optional i r"
| "intern (TyResult t e) r = register_result t e r"
| "intern _ r = (0, r)"

definition is_composite :: "type_kind \<Rightarrow> bool" where
  "is_composite k \<longleftrightarrow>
     (case k of TyArray _ \<Rightarrow> True | TyMap _ _ \<Rightarrow> True | TyTuple _ \<Rightarrow> True | TyFunction _ _ \<Rightarrow> True
      | TyOptional _ \<Rightarrow> True | TyResult _ _ \<Rightarrow> True | _ \<Rightarrow> False)"

fun composed_name :: "registry \<Rightarrow> type_kind \<Rightarrow> ustr" where
  "composed_name r (TyArray e) = array_name r e"
| "composed_name r (TyMap k v) = map_name r k v"
| "composed_name r (TyTuple es) = tuple_name r es"
| "composed_name r (TyFunction ps t) = function_name r ps t"
| "composed_name r (TyOptional i) = optional_name r i"
| "composed_name r (TyResult t e) = result_name r t e"
| "composed_name r _ = []"

lemma intern_register: "is_composite k \<Longrightarrow> intern k r = register_type (composed_name r k) k r"
  by (cases k) (simp_all add: is_composite_def register_array_def register_map_def register_tuple_def
      register_function_def register_optional_def register_result_def)

lemma composite_not_ref: "is_composite k \<Longrightarrow> k \<noteq> TyRef n"
  by (auto simp: is_composite_def)

lemma name_or_unknown_extends:
  "extends r s \<Longrightarrow> reg_types r i \<noteq> None \<Longrightarrow> name_or_unknown s i = name_or_unknown r i"
  using extends_get [of r s i] by (auto simp: name_or_unknown_def reg_get_def)

lemma composed_name_extends:
  assumes "extends r s" "known_types r (components k)"
  shows "composed_name s k = composed_name r k"
proof -
  have same: "\<forall>c\<in>set (components k). name_or_unknown s c = name_or_unknown r c"
    using assms(2) name_or_unknown_extends [OF assms(1)] by (auto simp: known_types_def)
  then have "map (name_or_unknown s) cs = map (name_or_unknown r) cs" if "set cs \<subseteq> set (components k)" for cs
    using that by auto
  note names = this [of "components k"] this [of "butlast (components k)"]
  show ?thesis
    using same names
    by (cases k) (auto simp: array_name_def map_name_def tuple_name_def function_name_def optional_name_def
        result_name_def cong: map_cong)
qed

text \<open>interning a composite type over registered types adds at most that type; asking again
  returns the same id and adds nothing; and the id stands for the type asked for, unless a type of
  the same composed name was there before.\<close>

theorem interning_is_idempotent:
  assumes "reachable_registry r" "is_composite k" "known_types r (components k)" "intern k r = (i, s)"
  shows "extends r s \<and> intern k s = (i, s) \<and> display_name s i = composed_name r k \<and>
    (reg_names r (composed_name r k) = None \<longrightarrow> (\<exists>info. reg_types s i = Some info \<and> ti_kind info = k))"
proof -
  note r = reachable_consistent [OF assms(1)]
  have p: "placeable (composed_name r k) k r"
    using assms(2,3) by (simp add: placeable_def composite_not_ref)
  have reg: "register_type (composed_name r k) k r = (i, s)" using assms(2,4) by (simp add: intern_register)
  have ext: "extends r s" using register.only_adds [OF r p] by (simp add: reg)
  have "reg_names s (composed_name r k) = Some i \<and> display_name s i = composed_name r k \<and>
      (reg_names r (composed_name r k) = None \<longrightarrow> (\<exists>info. reg_types s i = Some info \<and> ti_kind info = k))"
    using reg by (cases rule: register_type_cases [OF r, of "composed_name r k" k])
      (auto simp: insert_type_def display_name_def reg_get_def)
  then show ?thesis
    using ext composed_name_extends [OF ext assms(3)]
    by (simp add: intern_register [OF assms(2)] register_type_def)
qed

section \<open>Witnesses and a collision\<close>

definition int_array :: "tid \<times> registry" where
  "int_array = register_array ty_int new_registry"

lemma reachable_int_array: "reachable_registry (snd int_array)"
  unfolding int_array_def
  by (rule reach_step [OF reach_new step_array]) (code_simp)

theorem registry_is_bijective_witness:
  "reg_types (snd int_array) 100 = Some \<lparr>ti_id = 100, ti_kind = TyArray ty_int, ti_name = ascii ''[Int]''\<rparr> \<and>
    100 < reg_next (snd int_array) \<and> reg_names (snd int_array) (ascii ''[Int]'') = Some 100"
proof -
  have step: "registry_step new_registry (snd int_array)"
    unfolding int_array_def by (rule step_array) code_simp
  have "reg_types (snd int_array) 100 = Some \<lparr>ti_id = 100, ti_kind = TyArray ty_int, ti_name = ascii ''[Int]''\<rparr>"
    by code_simp
  with registry_is_bijective [OF reach_new step, THEN conjunct1, rule_format, OF this] show ?thesis by simp
qed

theorem compatibility_terminates_witness: "\<exists>b. is_compatible (snd int_array) 100 ty_any = Some b"
  by (rule compatibility_terminates [OF reachable_int_array])

theorem interning_is_idempotent_witness:
  "extends new_registry (snd int_array) \<and> intern (TyArray ty_int) (snd int_array) = int_array \<and>
    display_name (snd int_array) (fst int_array) = ascii ''[Int]''"
proof -
  have "extends new_registry (snd int_array) \<and> intern (TyArray ty_int) (snd int_array) = (fst int_array, snd int_array) \<and>
      display_name (snd int_array) (fst int_array) = composed_name new_registry (TyArray ty_int) \<and>
      (reg_names new_registry (composed_name new_registry (TyArray ty_int)) = None \<longrightarrow>
        (\<exists>info. reg_types (snd int_array) (fst int_array) = Some info \<and> ti_kind info = TyArray ty_int))"
    by (rule interning_is_idempotent [OF reach_new]) (simp_all add: is_composite_def int_array_def known_types_def
        new_registry_def register_builtin_def insert_type_def Let_def ty_int_def ty_float_def ty_str_def ty_any_def
        ty_error_def)
  moreover have "composed_name new_registry (TyArray ty_int) = ascii ''[Int]''" by code_simp
  ultimately show ?thesis by simp
qed

text \<open>The name of an optional function is that of a function with an optional result: whichever comes
  second gets the id of the first.\<close>

theorem optional_function_names_collide:
  "let (f, r) = register_function [ty_int] ty_int new_registry;
       (optional_f, r) = register_optional f r;
       (optional_int, r) = register_optional ty_int r;
       (g, r) = register_function [ty_int] optional_int r
   in g = optional_f \<and> map_option ti_kind (reg_get r g) = Some (TyOptional f)"
  by code_simp

end
