(* ===== verification/Core_Errors.thy ===== *)
theory Core_Errors
  imports Core_Span
begin

text \<open>
  Error codes and compiler errors (\<open>doo_core/src/errors/codes.rs\<close>). The source's flat enumeration
  of codes is grouped by its own sections, one datatype each. A message is a list of Unicode scalar
  values.
\<close>

section \<open>Codes\<close>

datatype syntax_error =
    UnexpectedToken | UnclosedDelimiter | InvalidNumberLiteral | InvalidStringLiteral
  | InvalidEscapeSequence | UnterminatedString | InvalidCharacter | MissingSemicolon
  | InvalidExpression | ExpectedIdentifier | InvalidPattern | InvalidTypeExpr
  | MissingFunctionBody | InvalidOperator | UnexpectedEof | InvalidAssignTarget
  | MissingClosingParen | MissingClosingBrace | MissingClosingBracket | ExpectedTypeAnnotation
  | InvalidDecoratorSyntax | ExpectedBlock | ExpectedExprAfterOp | InvalidMatchSyntax
  | InvalidForSyntax | InvalidConstExpr

datatype type_error =
    TypeMismatch | UnknownType | CannotInferType | TypeAnnotationRequired | IncompatibleTypes
  | CannotConvert | InvalidReturnType | TupleLengthMismatch | TypeParameterCount
  | InvalidTypeForOperation | InvalidConditionType | InvalidCast | ReturnTypeMismatch
  | ArgCountMismatch | InvalidArrayElementType | InvalidMapKeyType | IfElseBranchMismatch
  | NilWithNonOptional

datatype ownership_error =
    ConcurrentMutableBorrow | AssignToImmutable

datatype name_error =
    UndefinedVariable | UndefinedFunction | UndefinedType | UndefinedField | UndefinedMethod
  | UndefinedVariant | NameAlreadyDefined | PrivateItemAccess | InvalidPath

datatype declaration_error =
    DuplicateParameter | DuplicateField | DuplicateVariant | InvalidSignature | MissingReturn
  | UnreachableCode | InvalidDecorator | ConflictingDecorators | InvalidDefaultValue
  | MissingOkReturn | ErrWithoutErrorType | TryInNonResultFunction | UnhandledResult
  | PanicWithoutMessage | MissingStructField | UnknownStructField | NonExhaustiveMatch
  | UnreachablePattern | BreakOutsideLoop | ContinueOutsideLoop | ReturnOutsideFunction
  | DuplicateMethod | DuplicateConst

datatype import_error =
    ModuleNotFound | ImportNotFound | CircularImport | InvalidImportPath | PrivateImport

datatype http_error =
    InvalidRouteHandler | DuplicateRoute | InvalidMiddleware | InvalidCorsConfig
  | InvalidRateLimit | FfiFunctionNotFound | FfiTypeMismatch

datatype database_error =
    DatabaseNotConnected | InvalidSqlQuery | ModelNotFound | MigrationFailed
  | InvalidDatabaseUrl | QueryBuilderUnknownModel | QueryBuilderUnknownField
  | QueryBuilderMissingWhere | QueryBuilderInvalidChain

datatype validation_error =
    InvalidEmail | InvalidUrl | BelowMinimum | AboveMaximum | PatternNotMatched
  | RequiredFieldMissing

datatype internal_error =
    InternalError | CodegenFailed | LlvmError | IoError

datatype error_code =
    SyntaxError syntax_error
  | TypeError type_error
  | OwnershipError ownership_error
  | NameError name_error
  | DeclarationError declaration_error
  | ImportError import_error
  | HttpError http_error
  | DatabaseError database_error
  | ValidationError validation_error
  | InternalFailure internal_error

primrec syntax_error_code :: "syntax_error \<Rightarrow> string" where
  "syntax_error_code UnexpectedToken = ''E0001''"
| "syntax_error_code UnclosedDelimiter = ''E0002''"
| "syntax_error_code InvalidNumberLiteral = ''E0003''"
| "syntax_error_code InvalidStringLiteral = ''E0004''"
| "syntax_error_code InvalidEscapeSequence = ''E0005''"
| "syntax_error_code UnterminatedString = ''E0006''"
| "syntax_error_code InvalidCharacter = ''E0007''"
| "syntax_error_code MissingSemicolon = ''E0008''"
| "syntax_error_code InvalidExpression = ''E0009''"
| "syntax_error_code ExpectedIdentifier = ''E0010''"
| "syntax_error_code InvalidPattern = ''E0011''"
| "syntax_error_code InvalidTypeExpr = ''E0012''"
| "syntax_error_code MissingFunctionBody = ''E0013''"
| "syntax_error_code InvalidOperator = ''E0014''"
| "syntax_error_code UnexpectedEof = ''E0015''"
| "syntax_error_code InvalidAssignTarget = ''E0016''"
| "syntax_error_code MissingClosingParen = ''E0017''"
| "syntax_error_code MissingClosingBrace = ''E0018''"
| "syntax_error_code MissingClosingBracket = ''E0019''"
| "syntax_error_code ExpectedTypeAnnotation = ''E0020''"
| "syntax_error_code InvalidDecoratorSyntax = ''E0021''"
| "syntax_error_code ExpectedBlock = ''E0022''"
| "syntax_error_code ExpectedExprAfterOp = ''E0023''"
| "syntax_error_code InvalidMatchSyntax = ''E0024''"
| "syntax_error_code InvalidForSyntax = ''E0025''"
| "syntax_error_code InvalidConstExpr = ''E0026''"

primrec type_error_code :: "type_error \<Rightarrow> string" where
  "type_error_code TypeMismatch = ''E0100''"
| "type_error_code UnknownType = ''E0101''"
| "type_error_code CannotInferType = ''E0102''"
| "type_error_code TypeAnnotationRequired = ''E0103''"
| "type_error_code IncompatibleTypes = ''E0104''"
| "type_error_code CannotConvert = ''E0105''"
| "type_error_code InvalidReturnType = ''E0106''"
| "type_error_code TupleLengthMismatch = ''E0107''"
| "type_error_code TypeParameterCount = ''E0108''"
| "type_error_code InvalidTypeForOperation = ''E0109''"
| "type_error_code InvalidConditionType = ''E0110''"
| "type_error_code InvalidCast = ''E0111''"
| "type_error_code ReturnTypeMismatch = ''E0112''"
| "type_error_code ArgCountMismatch = ''E0113''"
| "type_error_code InvalidArrayElementType = ''E0114''"
| "type_error_code InvalidMapKeyType = ''E0115''"
| "type_error_code IfElseBranchMismatch = ''E0116''"
| "type_error_code NilWithNonOptional = ''E0117''"

primrec ownership_error_code :: "ownership_error \<Rightarrow> string" where
  "ownership_error_code ConcurrentMutableBorrow = ''E0201''"
| "ownership_error_code AssignToImmutable = ''E0205''"

primrec name_error_code :: "name_error \<Rightarrow> string" where
  "name_error_code UndefinedVariable = ''E0300''"
| "name_error_code UndefinedFunction = ''E0301''"
| "name_error_code UndefinedType = ''E0302''"
| "name_error_code UndefinedField = ''E0303''"
| "name_error_code UndefinedMethod = ''E0304''"
| "name_error_code UndefinedVariant = ''E0305''"
| "name_error_code NameAlreadyDefined = ''E0306''"
| "name_error_code PrivateItemAccess = ''E0307''"
| "name_error_code InvalidPath = ''E0308''"

primrec declaration_error_code :: "declaration_error \<Rightarrow> string" where
  "declaration_error_code DuplicateParameter = ''E0400''"
| "declaration_error_code DuplicateField = ''E0401''"
| "declaration_error_code DuplicateVariant = ''E0402''"
| "declaration_error_code InvalidSignature = ''E0403''"
| "declaration_error_code MissingReturn = ''E0404''"
| "declaration_error_code UnreachableCode = ''E0405''"
| "declaration_error_code InvalidDecorator = ''E0406''"
| "declaration_error_code ConflictingDecorators = ''E0407''"
| "declaration_error_code InvalidDefaultValue = ''E0408''"
| "declaration_error_code MissingOkReturn = ''E0409''"
| "declaration_error_code ErrWithoutErrorType = ''E0410''"
| "declaration_error_code TryInNonResultFunction = ''E0411''"
| "declaration_error_code UnhandledResult = ''E0412''"
| "declaration_error_code PanicWithoutMessage = ''E0413''"
| "declaration_error_code MissingStructField = ''E0414''"
| "declaration_error_code UnknownStructField = ''E0415''"
| "declaration_error_code NonExhaustiveMatch = ''E0416''"
| "declaration_error_code UnreachablePattern = ''E0417''"
| "declaration_error_code BreakOutsideLoop = ''E0418''"
| "declaration_error_code ContinueOutsideLoop = ''E0419''"
| "declaration_error_code ReturnOutsideFunction = ''E0420''"
| "declaration_error_code DuplicateMethod = ''E0421''"
| "declaration_error_code DuplicateConst = ''E0422''"

primrec import_error_code :: "import_error \<Rightarrow> string" where
  "import_error_code ModuleNotFound = ''E0500''"
| "import_error_code ImportNotFound = ''E0501''"
| "import_error_code CircularImport = ''E0502''"
| "import_error_code InvalidImportPath = ''E0503''"
| "import_error_code PrivateImport = ''E0504''"

primrec http_error_code :: "http_error \<Rightarrow> string" where
  "http_error_code InvalidRouteHandler = ''E0600''"
| "http_error_code DuplicateRoute = ''E0601''"
| "http_error_code InvalidMiddleware = ''E0602''"
| "http_error_code InvalidCorsConfig = ''E0603''"
| "http_error_code InvalidRateLimit = ''E0604''"
| "http_error_code FfiFunctionNotFound = ''E0605''"
| "http_error_code FfiTypeMismatch = ''E0606''"

primrec database_error_code :: "database_error \<Rightarrow> string" where
  "database_error_code DatabaseNotConnected = ''E0700''"
| "database_error_code InvalidSqlQuery = ''E0701''"
| "database_error_code ModelNotFound = ''E0702''"
| "database_error_code MigrationFailed = ''E0703''"
| "database_error_code InvalidDatabaseUrl = ''E0704''"
| "database_error_code QueryBuilderUnknownModel = ''E0705''"
| "database_error_code QueryBuilderUnknownField = ''E0706''"
| "database_error_code QueryBuilderMissingWhere = ''E0707''"
| "database_error_code QueryBuilderInvalidChain = ''E0708''"

primrec validation_error_code :: "validation_error \<Rightarrow> string" where
  "validation_error_code InvalidEmail = ''E0800''"
| "validation_error_code InvalidUrl = ''E0801''"
| "validation_error_code BelowMinimum = ''E0802''"
| "validation_error_code AboveMaximum = ''E0803''"
| "validation_error_code PatternNotMatched = ''E0804''"
| "validation_error_code RequiredFieldMissing = ''E0805''"

primrec internal_error_code :: "internal_error \<Rightarrow> string" where
  "internal_error_code InternalError = ''E0900''"
| "internal_error_code CodegenFailed = ''E0901''"
| "internal_error_code LlvmError = ''E0902''"
| "internal_error_code IoError = ''E0903''"

primrec code_text :: "error_code \<Rightarrow> string" where
  "code_text (SyntaxError c) = syntax_error_code c"
| "code_text (TypeError c) = type_error_code c"
| "code_text (OwnershipError c) = ownership_error_code c"
| "code_text (NameError c) = name_error_code c"
| "code_text (DeclarationError c) = declaration_error_code c"
| "code_text (ImportError c) = import_error_code c"
| "code_text (HttpError c) = http_error_code c"
| "code_text (DatabaseError c) = database_error_code c"
| "code_text (ValidationError c) = validation_error_code c"
| "code_text (InternalFailure c) = internal_error_code c"

primrec syntax_error_title :: "syntax_error \<Rightarrow> string" where
  "syntax_error_title UnexpectedToken = ''UNEXPECTED TOKEN''"
| "syntax_error_title UnclosedDelimiter = ''UNCLOSED DELIMITER''"
| "syntax_error_title InvalidNumberLiteral = ''INVALID NUMBER''"
| "syntax_error_title InvalidStringLiteral = ''INVALID STRING''"
| "syntax_error_title InvalidEscapeSequence = ''INVALID ESCAPE''"
| "syntax_error_title UnterminatedString = ''UNTERMINATED STRING''"
| "syntax_error_title InvalidCharacter = ''INVALID CHARACTER''"
| "syntax_error_title MissingSemicolon = ''MISSING SEMICOLON''"
| "syntax_error_title InvalidExpression = ''INVALID EXPRESSION''"
| "syntax_error_title ExpectedIdentifier = ''EXPECTED IDENTIFIER''"
| "syntax_error_title InvalidPattern = ''INVALID PATTERN''"
| "syntax_error_title InvalidTypeExpr = ''INVALID TYPE''"
| "syntax_error_title MissingFunctionBody = ''MISSING BODY''"
| "syntax_error_title InvalidOperator = ''INVALID OPERATOR''"
| "syntax_error_title UnexpectedEof = ''UNEXPECTED EOF''"
| "syntax_error_title InvalidAssignTarget = ''INVALID ASSIGN''"
| "syntax_error_title MissingClosingParen = ''MISSING `)`''"
| "syntax_error_title MissingClosingBrace = ''MISSING `}`''"
| "syntax_error_title MissingClosingBracket = ''MISSING `]`''"
| "syntax_error_title ExpectedTypeAnnotation = ''EXPECTED TYPE''"
| "syntax_error_title InvalidDecoratorSyntax = ''INVALID DECORATOR''"
| "syntax_error_title ExpectedBlock = ''EXPECTED BLOCK''"
| "syntax_error_title ExpectedExprAfterOp = ''EXPECTED EXPRESSION''"
| "syntax_error_title InvalidMatchSyntax = ''INVALID MATCH''"
| "syntax_error_title InvalidForSyntax = ''INVALID FOR''"
| "syntax_error_title InvalidConstExpr = ''INVALID CONST EXPR''"

primrec type_error_title :: "type_error \<Rightarrow> string" where
  "type_error_title TypeMismatch = ''TYPE MISMATCH''"
| "type_error_title UnknownType = ''UNKNOWN TYPE''"
| "type_error_title CannotInferType = ''CANNOT INFER TYPE''"
| "type_error_title TypeAnnotationRequired = ''TYPE REQUIRED''"
| "type_error_title IncompatibleTypes = ''INCOMPATIBLE TYPES''"
| "type_error_title CannotConvert = ''CANNOT CONVERT''"
| "type_error_title InvalidReturnType = ''INVALID RETURN TYPE''"
| "type_error_title TupleLengthMismatch = ''TUPLE MISMATCH''"
| "type_error_title TypeParameterCount = ''TYPE PARAM COUNT''"
| "type_error_title InvalidTypeForOperation = ''INVALID TYPE FOR OP''"
| "type_error_title InvalidConditionType = ''INVALID CONDITION''"
| "type_error_title InvalidCast = ''INVALID CAST''"
| "type_error_title ReturnTypeMismatch = ''RETURN MISMATCH''"
| "type_error_title ArgCountMismatch = ''WRONG ARGS''"
| "type_error_title InvalidArrayElementType = ''INVALID ARRAY ELEM''"
| "type_error_title InvalidMapKeyType = ''INVALID MAP KEY''"
| "type_error_title IfElseBranchMismatch = ''BRANCH MISMATCH''"
| "type_error_title NilWithNonOptional = ''NIL NON-OPTIONAL''"

primrec ownership_error_title :: "ownership_error \<Rightarrow> string" where
  "ownership_error_title ConcurrentMutableBorrow = ''CONCURRENT MUTABLE BORROW''"
| "ownership_error_title AssignToImmutable = ''IMMUTABLE ASSIGN''"

primrec name_error_title :: "name_error \<Rightarrow> string" where
  "name_error_title UndefinedVariable = ''UNDEFINED VARIABLE''"
| "name_error_title UndefinedFunction = ''UNDEFINED FUNCTION''"
| "name_error_title UndefinedType = ''UNDEFINED TYPE''"
| "name_error_title UndefinedField = ''UNDEFINED FIELD''"
| "name_error_title UndefinedMethod = ''UNDEFINED METHOD''"
| "name_error_title UndefinedVariant = ''UNDEFINED VARIANT''"
| "name_error_title NameAlreadyDefined = ''ALREADY DEFINED''"
| "name_error_title PrivateItemAccess = ''PRIVATE ACCESS''"
| "name_error_title InvalidPath = ''INVALID PATH''"

primrec declaration_error_title :: "declaration_error \<Rightarrow> string" where
  "declaration_error_title DuplicateParameter = ''DUPLICATE PARAM''"
| "declaration_error_title DuplicateField = ''DUPLICATE FIELD''"
| "declaration_error_title DuplicateVariant = ''DUPLICATE VARIANT''"
| "declaration_error_title InvalidSignature = ''INVALID SIGNATURE''"
| "declaration_error_title MissingReturn = ''MISSING RETURN''"
| "declaration_error_title UnreachableCode = ''UNREACHABLE CODE''"
| "declaration_error_title InvalidDecorator = ''INVALID DECORATOR''"
| "declaration_error_title ConflictingDecorators = ''CONFLICTING DECORATORS''"
| "declaration_error_title InvalidDefaultValue = ''INVALID DEFAULT''"
| "declaration_error_title MissingOkReturn = ''MISSING OK''"
| "declaration_error_title ErrWithoutErrorType = ''ERR NO ERROR TYPE''"
| "declaration_error_title TryInNonResultFunction = ''TRY NO RESULT''"
| "declaration_error_title UnhandledResult = ''UNHANDLED RESULT''"
| "declaration_error_title PanicWithoutMessage = ''PANIC NO MSG''"
| "declaration_error_title MissingStructField = ''MISSING FIELD''"
| "declaration_error_title UnknownStructField = ''UNKNOWN FIELD''"
| "declaration_error_title NonExhaustiveMatch = ''NON-EXHAUSTIVE''"
| "declaration_error_title UnreachablePattern = ''UNREACHABLE PATTERN''"
| "declaration_error_title BreakOutsideLoop = ''BREAK OUTSIDE LOOP''"
| "declaration_error_title ContinueOutsideLoop = ''CONTINUE OUTSIDE LOOP''"
| "declaration_error_title ReturnOutsideFunction = ''RETURN OUTSIDE FN''"
| "declaration_error_title DuplicateMethod = ''DUPLICATE METHOD''"
| "declaration_error_title DuplicateConst = ''DUPLICATE CONST''"

primrec import_error_title :: "import_error \<Rightarrow> string" where
  "import_error_title ModuleNotFound = ''MODULE NOT FOUND''"
| "import_error_title ImportNotFound = ''IMPORT NOT FOUND''"
| "import_error_title CircularImport = ''CIRCULAR IMPORT''"
| "import_error_title InvalidImportPath = ''INVALID IMPORT''"
| "import_error_title PrivateImport = ''PRIVATE IMPORT''"

primrec http_error_title :: "http_error \<Rightarrow> string" where
  "http_error_title InvalidRouteHandler = ''INVALID HANDLER''"
| "http_error_title DuplicateRoute = ''DUPLICATE ROUTE''"
| "http_error_title InvalidMiddleware = ''INVALID MIDDLEWARE''"
| "http_error_title InvalidCorsConfig = ''INVALID CORS''"
| "http_error_title InvalidRateLimit = ''INVALID RATE LIMIT''"
| "http_error_title FfiFunctionNotFound = ''FFI NOT FOUND''"
| "http_error_title FfiTypeMismatch = ''FFI TYPE MISMATCH''"

primrec database_error_title :: "database_error \<Rightarrow> string" where
  "database_error_title DatabaseNotConnected = ''DB NOT CONNECTED''"
| "database_error_title InvalidSqlQuery = ''INVALID SQL''"
| "database_error_title ModelNotFound = ''MODEL NOT FOUND''"
| "database_error_title MigrationFailed = ''MIGRATION FAILED''"
| "database_error_title InvalidDatabaseUrl = ''INVALID DB URL''"
| "database_error_title QueryBuilderUnknownModel = ''QB UNKNOWN MODEL''"
| "database_error_title QueryBuilderUnknownField = ''QB UNKNOWN FIELD''"
| "database_error_title QueryBuilderMissingWhere = ''QB MISSING WHERE''"
| "database_error_title QueryBuilderInvalidChain = ''QB INVALID CHAIN''"

primrec validation_error_title :: "validation_error \<Rightarrow> string" where
  "validation_error_title InvalidEmail = ''INVALID EMAIL''"
| "validation_error_title InvalidUrl = ''INVALID URL''"
| "validation_error_title BelowMinimum = ''BELOW MINIMUM''"
| "validation_error_title AboveMaximum = ''ABOVE MAXIMUM''"
| "validation_error_title PatternNotMatched = ''PATTERN NOT MATCHED''"
| "validation_error_title RequiredFieldMissing = ''REQUIRED FIELD''"

primrec internal_error_title :: "internal_error \<Rightarrow> string" where
  "internal_error_title InternalError = ''INTERNAL ERROR''"
| "internal_error_title CodegenFailed = ''CODEGEN FAILED''"
| "internal_error_title LlvmError = ''LLVM ERROR''"
| "internal_error_title IoError = ''IO ERROR''"

primrec error_title :: "error_code \<Rightarrow> string" where
  "error_title (SyntaxError c) = syntax_error_title c"
| "error_title (TypeError c) = type_error_title c"
| "error_title (OwnershipError c) = ownership_error_title c"
| "error_title (NameError c) = name_error_title c"
| "error_title (DeclarationError c) = declaration_error_title c"
| "error_title (ImportError c) = import_error_title c"
| "error_title (HttpError c) = http_error_title c"
| "error_title (DatabaseError c) = database_error_title c"
| "error_title (ValidationError c) = validation_error_title c"
| "error_title (InternalFailure c) = internal_error_title c"

definition code_table :: "(string \<times> error_code) list" where
  "code_table = [
    (''E0001'', SyntaxError UnexpectedToken),
    (''E0002'', SyntaxError UnclosedDelimiter),
    (''E0003'', SyntaxError InvalidNumberLiteral),
    (''E0004'', SyntaxError InvalidStringLiteral),
    (''E0005'', SyntaxError InvalidEscapeSequence),
    (''E0006'', SyntaxError UnterminatedString),
    (''E0007'', SyntaxError InvalidCharacter),
    (''E0008'', SyntaxError MissingSemicolon),
    (''E0009'', SyntaxError InvalidExpression),
    (''E0010'', SyntaxError ExpectedIdentifier),
    (''E0011'', SyntaxError InvalidPattern),
    (''E0012'', SyntaxError InvalidTypeExpr),
    (''E0013'', SyntaxError MissingFunctionBody),
    (''E0014'', SyntaxError InvalidOperator),
    (''E0015'', SyntaxError UnexpectedEof),
    (''E0016'', SyntaxError InvalidAssignTarget),
    (''E0017'', SyntaxError MissingClosingParen),
    (''E0018'', SyntaxError MissingClosingBrace),
    (''E0019'', SyntaxError MissingClosingBracket),
    (''E0020'', SyntaxError ExpectedTypeAnnotation),
    (''E0021'', SyntaxError InvalidDecoratorSyntax),
    (''E0022'', SyntaxError ExpectedBlock),
    (''E0023'', SyntaxError ExpectedExprAfterOp),
    (''E0024'', SyntaxError InvalidMatchSyntax),
    (''E0025'', SyntaxError InvalidForSyntax),
    (''E0026'', SyntaxError InvalidConstExpr),
    (''E0100'', TypeError TypeMismatch),
    (''E0101'', TypeError UnknownType),
    (''E0102'', TypeError CannotInferType),
    (''E0103'', TypeError TypeAnnotationRequired),
    (''E0104'', TypeError IncompatibleTypes),
    (''E0105'', TypeError CannotConvert),
    (''E0106'', TypeError InvalidReturnType),
    (''E0107'', TypeError TupleLengthMismatch),
    (''E0108'', TypeError TypeParameterCount),
    (''E0109'', TypeError InvalidTypeForOperation),
    (''E0110'', TypeError InvalidConditionType),
    (''E0111'', TypeError InvalidCast),
    (''E0112'', TypeError ReturnTypeMismatch),
    (''E0113'', TypeError ArgCountMismatch),
    (''E0114'', TypeError InvalidArrayElementType),
    (''E0115'', TypeError InvalidMapKeyType),
    (''E0116'', TypeError IfElseBranchMismatch),
    (''E0117'', TypeError NilWithNonOptional),
    (''E0201'', OwnershipError ConcurrentMutableBorrow),
    (''E0205'', OwnershipError AssignToImmutable),
    (''E0300'', NameError UndefinedVariable),
    (''E0301'', NameError UndefinedFunction),
    (''E0302'', NameError UndefinedType),
    (''E0303'', NameError UndefinedField),
    (''E0304'', NameError UndefinedMethod),
    (''E0305'', NameError UndefinedVariant),
    (''E0306'', NameError NameAlreadyDefined),
    (''E0307'', NameError PrivateItemAccess),
    (''E0308'', NameError InvalidPath),
    (''E0400'', DeclarationError DuplicateParameter),
    (''E0401'', DeclarationError DuplicateField),
    (''E0402'', DeclarationError DuplicateVariant),
    (''E0403'', DeclarationError InvalidSignature),
    (''E0404'', DeclarationError MissingReturn),
    (''E0405'', DeclarationError UnreachableCode),
    (''E0406'', DeclarationError InvalidDecorator),
    (''E0407'', DeclarationError ConflictingDecorators),
    (''E0408'', DeclarationError InvalidDefaultValue),
    (''E0409'', DeclarationError MissingOkReturn),
    (''E0410'', DeclarationError ErrWithoutErrorType),
    (''E0411'', DeclarationError TryInNonResultFunction),
    (''E0412'', DeclarationError UnhandledResult),
    (''E0413'', DeclarationError PanicWithoutMessage),
    (''E0414'', DeclarationError MissingStructField),
    (''E0415'', DeclarationError UnknownStructField),
    (''E0416'', DeclarationError NonExhaustiveMatch),
    (''E0417'', DeclarationError UnreachablePattern),
    (''E0418'', DeclarationError BreakOutsideLoop),
    (''E0419'', DeclarationError ContinueOutsideLoop),
    (''E0420'', DeclarationError ReturnOutsideFunction),
    (''E0421'', DeclarationError DuplicateMethod),
    (''E0422'', DeclarationError DuplicateConst),
    (''E0500'', ImportError ModuleNotFound),
    (''E0501'', ImportError ImportNotFound),
    (''E0502'', ImportError CircularImport),
    (''E0503'', ImportError InvalidImportPath),
    (''E0504'', ImportError PrivateImport),
    (''E0600'', HttpError InvalidRouteHandler),
    (''E0601'', HttpError DuplicateRoute),
    (''E0602'', HttpError InvalidMiddleware),
    (''E0603'', HttpError InvalidCorsConfig),
    (''E0604'', HttpError InvalidRateLimit),
    (''E0605'', HttpError FfiFunctionNotFound),
    (''E0606'', HttpError FfiTypeMismatch),
    (''E0700'', DatabaseError DatabaseNotConnected),
    (''E0701'', DatabaseError InvalidSqlQuery),
    (''E0702'', DatabaseError ModelNotFound),
    (''E0703'', DatabaseError MigrationFailed),
    (''E0704'', DatabaseError InvalidDatabaseUrl),
    (''E0705'', DatabaseError QueryBuilderUnknownModel),
    (''E0706'', DatabaseError QueryBuilderUnknownField),
    (''E0707'', DatabaseError QueryBuilderMissingWhere),
    (''E0708'', DatabaseError QueryBuilderInvalidChain),
    (''E0800'', ValidationError InvalidEmail),
    (''E0801'', ValidationError InvalidUrl),
    (''E0802'', ValidationError BelowMinimum),
    (''E0803'', ValidationError AboveMaximum),
    (''E0804'', ValidationError PatternNotMatched),
    (''E0805'', ValidationError RequiredFieldMissing),
    (''E0900'', InternalFailure InternalError),
    (''E0901'', InternalFailure CodegenFailed),
    (''E0902'', InternalFailure LlvmError),
    (''E0903'', InternalFailure IoError)]"

definition error_from_code :: "string \<Rightarrow> error_code option" where
  "error_from_code s = map_of code_table s"

section \<open>Severity and category\<close>

datatype error_severity = SevNote | SevWarning | SevError | SevIce

definition error_code_severity :: "error_code \<Rightarrow> error_severity" where
  "error_code_severity c =
    (if c = DeclarationError UnreachableCode \<or> c = DeclarationError UnreachablePattern then SevWarning
     else if c \<in> {InternalFailure InternalError, InternalFailure CodegenFailed, InternalFailure LlvmError}
     then SevIce else SevError)"

datatype error_category =
    CatSyntax | CatType | CatOwnership | CatName | CatDeclaration | CatImport | CatHttp
  | CatDatabase | CatValidation | CatInternal

text \<open>The digits after the letter are read as a number; every code has four of them.\<close>

definition code_number :: "error_code \<Rightarrow> nat" where
  "code_number c = foldl (\<lambda>n d. 10 * n + (of_char d - 48)) 0 (tl (code_text c))"

definition error_category_of :: "error_code \<Rightarrow> error_category" where
  "error_category_of c =
    (let n = code_number c in
     if 1 \<le> n \<and> n \<le> 99 then CatSyntax
     else if 100 \<le> n \<and> n \<le> 199 then CatType
     else if 200 \<le> n \<and> n \<le> 299 then CatOwnership
     else if 300 \<le> n \<and> n \<le> 399 then CatName
     else if 400 \<le> n \<and> n \<le> 499 then CatDeclaration
     else if 500 \<le> n \<and> n \<le> 599 then CatImport
     else if 600 \<le> n \<and> n \<le> 699 then CatHttp
     else if 700 \<le> n \<and> n \<le> 799 then CatDatabase
     else if 800 \<le> n \<and> n \<le> 899 then CatValidation
     else CatInternal)"

section \<open>Errors\<close>

record compiler_error =
  ce_code :: error_code
  ce_message :: ustr
  ce_span :: src_span
  ce_severity :: error_severity
  ce_labels :: "(src_span \<times> ustr) list"
  ce_suggestion :: "ustr option"
  ce_notes :: "ustr list"

definition new_error :: "error_code \<Rightarrow> ustr \<Rightarrow> src_span \<Rightarrow> compiler_error" where
  "new_error c msg sp =
    \<lparr>ce_code = c, ce_message = msg, ce_span = sp, ce_severity = error_code_severity c, ce_labels = [],
     ce_suggestion = None, ce_notes = []\<rparr>"

definition with_severity :: "compiler_error \<Rightarrow> error_severity \<Rightarrow> compiler_error" where
  "with_severity e s = e\<lparr>ce_severity := s\<rparr>"

definition with_label :: "compiler_error \<Rightarrow> src_span \<Rightarrow> ustr \<Rightarrow> compiler_error" where
  "with_label e sp l = e\<lparr>ce_labels := ce_labels e @ [(sp, l)]\<rparr>"

definition with_suggestion :: "compiler_error \<Rightarrow> ustr \<Rightarrow> compiler_error" where
  "with_suggestion e s = e\<lparr>ce_suggestion := Some s\<rparr>"

definition with_note :: "compiler_error \<Rightarrow> ustr \<Rightarrow> compiler_error" where
  "with_note e n = e\<lparr>ce_notes := ce_notes e @ [n]\<rparr>"

definition error_is_fatal :: "compiler_error \<Rightarrow> bool" where
  "error_is_fatal e \<longleftrightarrow> ce_severity e = SevError \<or> ce_severity e = SevIce"

definition error_is_warning :: "compiler_error \<Rightarrow> bool" where
  "error_is_warning e \<longleftrightarrow> ce_severity e = SevWarning"

definition show_error :: "compiler_error \<Rightarrow> ustr" where
  "show_error e =
    ascii (code_text (ce_code e) @ '' '' @ error_title (ce_code e) @ '': '') @ ce_message e"

section \<open>Codes and their texts\<close>

lemma code_table_texts: "list_all (\<lambda>(s, c). code_text c = s) code_table"
  by code_simp

definition digits_number :: "string \<Rightarrow> nat" where
  "digits_number s = foldl (\<lambda>n d. 10 * n + (of_char d - 48)) 0 (tl s)"

lemma code_table_sorted: "successively (<) (map (digits_number \<circ> fst) code_table)"
  by code_simp

lemma code_table_distinct: "distinct (map fst code_table)"
proof -
  have "distinct (map (digits_number \<circ> fst) code_table)"
    using code_table_sorted by (simp add: successively_conv_sorted_wrt strict_sorted_iff)
  then show ?thesis by (auto simp: distinct_map inj_on_def)
qed

lemma code_table_complete: "List.member (map snd code_table) c"
proof (cases c)
  case (SyntaxError e) then show ?thesis by (simp only:, induct e; code_simp)
next
  case (TypeError e) then show ?thesis by (simp only:, induct e; code_simp)
next
  case (OwnershipError e) then show ?thesis by (simp only:, induct e; code_simp)
next
  case (NameError e) then show ?thesis by (simp only:, induct e; code_simp)
next
  case (DeclarationError e) then show ?thesis by (simp only:, induct e; code_simp)
next
  case (ImportError e) then show ?thesis by (simp only:, induct e; code_simp)
next
  case (HttpError e) then show ?thesis by (simp only:, induct e; code_simp)
next
  case (DatabaseError e) then show ?thesis by (simp only:, induct e; code_simp)
next
  case (ValidationError e) then show ?thesis by (simp only:, induct e; code_simp)
next
  case (InternalFailure e) then show ?thesis by (simp only:, induct e; code_simp)
qed

lemma code_table_reads: "error_from_code (code_text c) = Some c"
proof -
  obtain t where "(t, c) \<in> set code_table"
    using code_table_complete [of c] by auto
  moreover from this have "t = code_text c"
    using code_table_texts by (auto simp: list_all_iff)
  ultimately show ?thesis
    by (simp add: error_from_code_def code_table_distinct)
qed

text \<open>C40. The text of a code reads back as that code, and no other text reads as one.\<close>

theorem error_codes_round_trip: "error_from_code s = Some c \<longleftrightarrow> s = code_text c"
proof -
  have "s = code_text c" if "(s, c) \<in> set code_table"
    using that code_table_texts by (auto simp: list_all_iff)
  then show ?thesis
    using code_table_reads [of c] by (auto simp: error_from_code_def dest: map_of_SomeD)
qed

text \<open>The number of a code lies in the range of the section it stands in.\<close>

lemma categories_follow_sections:
  "error_category_of (SyntaxError a) = CatSyntax"
  "error_category_of (TypeError b) = CatType"
  "error_category_of (OwnershipError d) = CatOwnership"
  "error_category_of (NameError e) = CatName"
  "error_category_of (DeclarationError f) = CatDeclaration"
  "error_category_of (ImportError g) = CatImport"
  "error_category_of (HttpError h) = CatHttp"
  "error_category_of (DatabaseError i) = CatDatabase"
  "error_category_of (ValidationError j) = CatValidation"
  "error_category_of (InternalFailure k) = CatInternal"
proof -
  show "error_category_of (SyntaxError a) = CatSyntax" by (induct a) (simp_all add: error_category_of_def code_number_def)
  show "error_category_of (TypeError b) = CatType" by (induct b) (simp_all add: error_category_of_def code_number_def)
  show "error_category_of (OwnershipError d) = CatOwnership" by (induct d) (simp_all add: error_category_of_def code_number_def)
  show "error_category_of (NameError e) = CatName" by (induct e) (simp_all add: error_category_of_def code_number_def)
  show "error_category_of (DeclarationError f) = CatDeclaration" by (induct f) (simp_all add: error_category_of_def code_number_def)
  show "error_category_of (ImportError g) = CatImport" by (induct g) (simp_all add: error_category_of_def code_number_def)
  show "error_category_of (HttpError h) = CatHttp" by (induct h) (simp_all add: error_category_of_def code_number_def)
  show "error_category_of (DatabaseError i) = CatDatabase" by (induct i) (simp_all add: error_category_of_def code_number_def)
  show "error_category_of (ValidationError j) = CatValidation" by (induct j) (simp_all add: error_category_of_def code_number_def)
  show "error_category_of (InternalFailure k) = CatInternal" by (induct k) (simp_all add: error_category_of_def code_number_def)
qed

end
