(* ===== verification/Hir_Types.thy ===== *)
theory Hir_Types
  imports Core_Span Core_Types "HOL-Library.Word"
begin

text \<open>
  The high-level representation (\<open>doo_hir/src/types.rs\<close>): expressions, statements, patterns and
  items after desugaring. Every expression carries its type, once known, and its span. A 64-bit
  float is its bit pattern.
\<close>

section \<open>Constants and operators\<close>

datatype hir_ownership = Owned | Moved | Borrowed bool | Cloned

definition default_ownership :: hir_ownership where
  "default_ownership = Owned"

datatype const_value = HcInt "64 word" | HcFloat "64 word" | HcBool bool | HcStr ustr | HcNil

fun const_type :: "const_value \<Rightarrow> tid" where
  "const_type (HcInt _) = ty_int"
| "const_type (HcFloat _) = ty_float"
| "const_type (HcBool _) = ty_bool"
| "const_type (HcStr _) = ty_str"
| "const_type HcNil = ty_void"

datatype hir_bin_op =
  HbAdd | HbSub | HbMul | HbDiv | HbMod | HbEq | HbNotEq | HbLt | HbGt | HbLtEq | HbGtEq | HbIn
| HbAnd | HbOr | HbBitAnd | HbBitOr | HbNullCoalesce

datatype hir_unary_op = HuNeg | HuNot

section \<open>Expressions, statements and patterns\<close>

datatype hir_expr = HirExpr (he_kind: hir_expr_kind) (he_type: "tid option") (he_span: src_span)
and hir_expr_kind =
    HConst const_value
  | HLocal ustr
  | HGlobal ustr
  | HBinOp hir_bin_op hir_expr hir_expr
  | HUnaryOp hir_unary_op hir_expr
  | HCall hir_expr "hir_expr list"
  | HMethodCall hir_expr ustr "hir_expr list"
  | HField hir_expr ustr
  | HIndex hir_expr hir_expr
  | HArray "hir_expr list"
  | HMap "(hir_expr \<times> hir_expr) list"
  | HTuple "hir_expr list"
  | HStruct ustr "(ustr \<times> hir_expr) list"
  | HEnumVariant ustr ustr "hir_expr list"
  | HSpread hir_expr
  | HIf hir_expr hir_expr "hir_expr option"
  | HBlock "hir_stmt list" "hir_expr option"
  | HMatch "hir_expr list" "hir_match_arm list"
  | HRange hir_expr hir_expr bool
  | HOk hir_expr
  | HErr hir_expr
  | HTry hir_expr
  | HUnwrapOrPanic hir_expr hir_expr
  | HRouteBlock "hir_expr list"
  | HMove hir_expr
  | HBorrow hir_expr bool
  | HClone hir_expr
  | HClosure "(ustr \<times> tid option) list" hir_expr
  | HCast hir_expr tid
  | HAwait hir_expr
  | HSpawn hir_expr
  | HScopeBlock "hir_stmt list"
and hir_stmt = HirStmt (hs_kind: hir_stmt_kind) (hs_span: src_span)
and hir_stmt_kind =
    SLet ustr "tid option" hir_expr bool hir_ownership
  | STupleLet "ustr list" "tid option list" hir_expr bool
  | SAssign hir_expr hir_expr
  | SExpr hir_expr
  | SReturn "hir_expr list"
  | SBreak
  | SContinue
  | SDrop ustr
  | SIf hir_expr "hir_stmt list" "hir_stmt list option"
  | SWhile hir_expr "hir_stmt list" "hir_stmt list"
  | SManualErrorExtract "ustr list" ustr hir_expr
and hir_match_arm =
    HirMatchArm (arm_pattern: hir_match_pattern) (arm_guard: "hir_expr option") (arm_body: hir_expr) (arm_span: src_span)
and hir_match_pattern =
    PLiteral hir_expr
  | PCondition hir_expr
  | PWildcard
  | PEnumVariant ustr ustr
  | PEnumVariantPayload ustr ustr "ustr list"
  | PTuple "hir_match_pattern list"

definition new_hir_expr :: "hir_expr_kind \<Rightarrow> src_span \<Rightarrow> hir_expr" where
  "new_hir_expr k s = HirExpr k None s"

definition hir_expr_with_type :: "hir_expr_kind \<Rightarrow> tid \<Rightarrow> src_span \<Rightarrow> hir_expr" where
  "hir_expr_with_type k t s = HirExpr k (Some t) s"

definition new_hir_stmt :: "hir_stmt_kind \<Rightarrow> src_span \<Rightarrow> hir_stmt" where
  "new_hir_stmt k s = HirStmt k s"

section \<open>Items\<close>

record hir_decorator =
  hd_name :: ustr
  hd_args :: "hir_expr list"
  hd_span :: src_span

record hir_param =
  hp_name :: ustr
  hp_type :: "tid option"
  hp_span :: src_span

record hir_function =
  hf_name :: ustr
  hf_type_params :: "ustr list"
  hf_params :: "hir_param list"
  hf_return_type :: "tid option"
  hf_error_type :: "tid option"
  hf_body :: "hir_stmt list"
  hf_decorators :: "hir_decorator list"
  hf_is_async :: bool
  hf_span :: src_span

record hir_const =
  hc_name :: ustr
  hc_is_public :: bool
  hc_value :: "const_value option"
  hc_value_expr :: hir_expr
  hc_type :: tid
  hc_span :: src_span

record hir_static =
  hst_name :: ustr
  hst_is_public :: bool
  hst_type :: "tid option"
  hst_span :: src_span

record hir_field =
  hfd_name :: ustr
  hfd_type :: "tid option"
  hfd_is_public :: bool
  hfd_is_optional :: bool
  hfd_default :: "hir_expr option"
  hfd_decorators :: "hir_decorator list"
  hfd_span :: src_span

record hir_struct =
  hsr_name :: ustr
  hsr_type_params :: "ustr list"
  hsr_fields :: "hir_field list"
  hsr_decorators :: "hir_decorator list"
  hsr_span :: src_span

record hir_variant =
  hv_name :: ustr
  hv_payload :: "tid option"
  hv_decorators :: "hir_decorator list"
  hv_span :: src_span

record hir_enum =
  hen_name :: ustr
  hen_variants :: "hir_variant list"
  hen_span :: src_span

record hir_interface_method =
  him_name :: ustr
  him_params :: "hir_param list"
  him_return_type :: "tid option"
  him_error_type :: "tid option"
  him_span :: src_span

record hir_interface =
  hif_name :: ustr
  hif_methods :: "hir_interface_method list"
  hif_span :: src_span

datatype hir_import_item = HiSymbol ustr | HiAlias ustr ustr | HiWildcard

record hir_import =
  him_path :: "ustr list"
  him_items :: "hir_import_item list"
  him_import_span :: src_span

record hir_policy =
  hpo_name :: ustr
  hpo_for_struct :: ustr
  hpo_rules :: "(ustr \<times> ustr) list"
  hpo_span :: src_span

datatype hir_item =
    IConst hir_const
  | IStatic hir_static
  | IFunction hir_function
  | IStruct hir_struct
  | IEnum hir_enum
  | IInterface hir_interface
  | IImport hir_import
  | IPolicy hir_policy

record hir_program =
  hpr_items :: "hir_item list"
  hpr_span :: src_span

section \<open>Recursion over the representation\<close>

text \<open>The passes below recurse over lists of sub-terms with \<open>fold\<close>. A member of a list is smaller than
  the list, and their case distinctions are congruent.\<close>

lemmas hir_case_cong [fundef_cong] =
  hir_expr_kind.case_cong hir_stmt_kind.case_cong hir_match_pattern.case_cong

lemma size_member: "x \<in> set xs \<Longrightarrow> f x \<le> size_list f xs"
  by (simp add: size_list_estimation')

lemma expr_member [termination_simp]: "(e :: hir_expr) \<in> set es \<Longrightarrow> size e < Suc (Suc (size_list size es + n))"
  using size_member [of e es size] by simp

lemma stmt_member [termination_simp]: "(e :: hir_stmt) \<in> set es \<Longrightarrow> size e < Suc (Suc (size_list size es + n))"
  using size_member [of e es size] by simp

end
