(* ===== verification/Own_Borrow.thy ===== *)
theory Own_Borrow
  imports Hir_Types
begin

text \<open>
  The borrow checker (\<open>doo_analysis/src/borrow/mod.rs\<close>): the borrows that are active for each
  variable, taken by the uses of an expression and released at the end of a scope, and the errors a
  use meets when it conflicts with them.
\<close>

section \<open>Errors\<close>

datatype borrow_error_kind =
    ConcurrentMutableBorrow ustr src_span
  | BorrowWhileMutablyBorrowed ustr src_span
  | ModifyWhileBorrowed ustr src_span

record borrow_error =
  be_kind :: borrow_error_kind
  be_span :: src_span

definition concurrent_mut :: "ustr \<Rightarrow> src_span \<Rightarrow> src_span \<Rightarrow> borrow_error" where
  "concurrent_mut name existing at = \<lparr>be_kind = ConcurrentMutableBorrow name existing, be_span = at\<rparr>"

definition borrow_while_mut :: "ustr \<Rightarrow> src_span \<Rightarrow> src_span \<Rightarrow> borrow_error" where
  "borrow_while_mut name mut_span at = \<lparr>be_kind = BorrowWhileMutablyBorrowed name mut_span, be_span = at\<rparr>"

definition quoted_name :: "ustr \<Rightarrow> ustr" where
  "quoted_name n = [39] @ n @ [39]"

definition borrow_error_message :: "borrow_error \<Rightarrow> ustr" where
  "borrow_error_message e =
     (case be_kind e of
        ConcurrentMutableBorrow v _ \<Rightarrow> ascii ''Cannot mutably borrow '' @ quoted_name v @ ascii '' - already borrowed''
      | BorrowWhileMutablyBorrowed v _ \<Rightarrow> ascii ''Cannot borrow '' @ quoted_name v @ ascii '' - already mutably borrowed''
      | ModifyWhileBorrowed v _ \<Rightarrow> ascii ''Cannot modify '' @ quoted_name v @ ascii '' - currently borrowed'')"

section \<open>Active borrows\<close>

record borrow_info =
  bi_borrower :: ustr
  bi_mutable :: bool
  bi_span :: src_span
  bi_depth :: nat

record borrow_checker =
  bc_active :: "ustr \<rightharpoonup> borrow_info list"
  bc_depth :: nat
  bc_errors :: "borrow_error list"

definition new_borrow_checker :: borrow_checker where
  "new_borrow_checker = \<lparr>bc_active = Map.empty, bc_depth = 0, bc_errors = []\<rparr>"

definition is_synthetic :: "ustr \<Rightarrow> bool" where
  "is_synthetic name \<longleftrightarrow> take 2 name = ascii ''__''"

definition active_borrows :: "borrow_checker \<Rightarrow> ustr \<Rightarrow> borrow_info list" where
  "active_borrows c name = (case bc_active c name of Some bs \<Rightarrow> bs | None \<Rightarrow> [])"

definition add_borrow :: "ustr \<Rightarrow> bool \<Rightarrow> src_span \<Rightarrow> borrow_checker \<Rightarrow> borrow_checker" where
  "add_borrow name mutable s c =
     (let info = \<lparr>bi_borrower = ascii ''expr@'' @ ascii (show_nat (sp_start s)), bi_mutable = mutable,
                  bi_span = s, bi_depth = bc_depth c\<rparr>
      in c\<lparr>bc_active := (bc_active c)(name \<mapsto> active_borrows c name @ [info])\<rparr>)"

definition report_borrow :: "borrow_error \<Rightarrow> borrow_checker \<Rightarrow> borrow_checker" where
  "report_borrow e c = c\<lparr>bc_errors := bc_errors c @ [e]\<rparr>"

definition try_immutable_borrow :: "ustr \<Rightarrow> src_span \<Rightarrow> borrow_checker \<Rightarrow> borrow_checker" where
  "try_immutable_borrow name s c =
     (if is_synthetic name then c
      else case find bi_mutable (active_borrows c name) of
             Some b \<Rightarrow> report_borrow (borrow_while_mut name (bi_span b) s) c
           | None \<Rightarrow> add_borrow name False s c)"

definition try_mutable_borrow :: "ustr \<Rightarrow> src_span \<Rightarrow> borrow_checker \<Rightarrow> borrow_checker" where
  "try_mutable_borrow name s c =
     (if is_synthetic name then c
      else case active_borrows c name of
             b # _ \<Rightarrow> report_borrow (concurrent_mut name (bi_span b) s) c
           | [] \<Rightarrow> add_borrow name True s c)"

definition borrow_enter :: "borrow_checker \<Rightarrow> borrow_checker" where
  "borrow_enter c = c\<lparr>bc_depth := bc_depth c + 1\<rparr>"

definition borrow_exit :: "borrow_checker \<Rightarrow> borrow_checker" where
  "borrow_exit c =
     c\<lparr>bc_active := (\<lambda>n. map_option (filter (\<lambda>b. bi_depth b < bc_depth c)) (bc_active c n)),
       bc_depth := bc_depth c - 1\<rparr>"

definition forget_borrows :: "ustr \<Rightarrow> borrow_checker \<Rightarrow> borrow_checker" where
  "forget_borrows name c = c\<lparr>bc_active := (bc_active c)(name := None)\<rparr>"

definition forget_binding :: "ustr \<Rightarrow> borrow_checker \<Rightarrow> borrow_checker" where
  "forget_binding name c = (if name \<noteq> ascii ''_'' then forget_borrows name c else c)"

section \<open>Checking\<close>

function borrow_expr :: "bool \<Rightarrow> hir_expr \<Rightarrow> borrow_checker \<Rightarrow> borrow_checker"
  and borrow_stmt :: "hir_stmt \<Rightarrow> borrow_checker \<Rightarrow> borrow_checker"
  and borrow_pattern :: "hir_match_pattern \<Rightarrow> borrow_checker \<Rightarrow> borrow_checker"
where
  "borrow_expr mut (HirExpr kind t s) c =
    (case kind of
      HConst _ \<Rightarrow> c
    | HGlobal _ \<Rightarrow> c
    | HLocal name \<Rightarrow> if mut then try_mutable_borrow name s c else try_immutable_borrow name s c
    | HBinOp _ l r \<Rightarrow> borrow_expr False r (borrow_expr False l c)
    | HUnaryOp _ e \<Rightarrow> borrow_expr False e c
    | HCall f args \<Rightarrow> fold (borrow_expr False) args (borrow_expr False f c)
    | HMethodCall e _ args \<Rightarrow> fold (borrow_expr False) args (borrow_expr False e c)
    | HField e _ \<Rightarrow> borrow_expr mut e c
    | HIndex e i \<Rightarrow> borrow_expr False i (borrow_expr mut e c)
    | HArray es \<Rightarrow> fold (borrow_expr False) es c
    | HTuple es \<Rightarrow> fold (borrow_expr False) es c
    | HMap kvs \<Rightarrow> fold (\<lambda>(k, v) c. borrow_expr False v (borrow_expr False k c)) kvs c
    | HStruct _ fs \<Rightarrow> fold (\<lambda>(_, v) c. borrow_expr False v c) fs c
    | HEnumVariant _ _ es \<Rightarrow> fold (borrow_expr False) es c
    | HIf cond a b \<Rightarrow>
        (let c = borrow_expr False a (borrow_expr False cond c)
         in case b of Some e \<Rightarrow> borrow_expr False e c | None \<Rightarrow> c)
    | HMatch vs arms \<Rightarrow>
        fold (\<lambda>arm c.
            case arm of HirMatchArm p g body _ \<Rightarrow>
              (let c = borrow_pattern p c; c = (case g of Some e \<Rightarrow> borrow_expr False e c | None \<Rightarrow> c)
               in borrow_expr False body c))
          arms (fold (borrow_expr False) vs c)
    | HBlock ss e \<Rightarrow>
        (let c = fold borrow_stmt ss (borrow_enter c); c = (case e of Some e \<Rightarrow> borrow_expr False e c | None \<Rightarrow> c)
         in borrow_exit c)
    | HRange a b _ \<Rightarrow> borrow_expr False b (borrow_expr False a c)
    | HOk e \<Rightarrow> borrow_expr False e c
    | HErr e \<Rightarrow> borrow_expr False e c
    | HTry e \<Rightarrow> borrow_expr False e c
    | HMove e \<Rightarrow> borrow_expr False e c
    | HClone e \<Rightarrow> borrow_expr False e c
    | HUnwrapOrPanic e msg \<Rightarrow> borrow_exit (borrow_expr False msg (borrow_expr False e (borrow_enter c)))
    | HBorrow e m \<Rightarrow> borrow_expr m e c
    | HClosure _ e \<Rightarrow> borrow_exit (borrow_expr False e (borrow_enter c))
    | HSpread e \<Rightarrow> borrow_expr False e c
    | HRouteBlock es \<Rightarrow> fold (borrow_expr False) es c
    | HCast e _ \<Rightarrow> borrow_expr False e c
    | HAwait e \<Rightarrow> borrow_expr False e c
    | HSpawn e \<Rightarrow> borrow_expr False e c
    | HScopeBlock ss \<Rightarrow> fold borrow_stmt ss c)"
| "borrow_stmt (HirStmt kind s) c =
    (case kind of
      SLet name _ v _ _ \<Rightarrow> forget_borrows name (borrow_expr False v c)
    | STupleLet names _ v _ \<Rightarrow> fold forget_borrows names (borrow_expr False v c)
    | SManualErrorExtract names err e \<Rightarrow> forget_binding err (fold forget_binding names (borrow_expr False e c))
    | SAssign target v \<Rightarrow>
        (let c = borrow_expr False v c
         in case he_kind target of HLocal name \<Rightarrow> forget_borrows name c | _ \<Rightarrow> c)
    | SExpr e \<Rightarrow> borrow_expr False e c
    | SReturn es \<Rightarrow> fold (borrow_expr False) es c
    | SIf cond a b \<Rightarrow>
        (let c = borrow_exit (borrow_expr False cond (borrow_enter c));
             c = borrow_exit (fold borrow_stmt a (borrow_enter c))
         in case b of Some ss \<Rightarrow> borrow_exit (fold borrow_stmt ss (borrow_enter c)) | None \<Rightarrow> c)
    | SWhile cond body inc \<Rightarrow>
        (let c = borrow_exit (borrow_expr False cond (borrow_enter c))
         in borrow_exit (fold borrow_stmt inc (fold borrow_stmt body (borrow_enter c))))
    | SBreak \<Rightarrow> c
    | SContinue \<Rightarrow> c
    | SDrop _ \<Rightarrow> c)"
| "borrow_pattern p c =
    (case p of
      PLiteral e \<Rightarrow> borrow_expr False e c
    | PCondition e \<Rightarrow> borrow_expr False e c
    | PWildcard \<Rightarrow> c
    | PEnumVariant _ _ \<Rightarrow> c
    | PEnumVariantPayload _ _ _ \<Rightarrow> c
    | PTuple ps \<Rightarrow> fold borrow_pattern ps c)"
  by pat_completeness auto
termination
  by (relation "measure (\<lambda>a. case a of
        Inl (m, e, c) \<Rightarrow> size e | Inr (Inl (s, c)) \<Rightarrow> size s | Inr (Inr (p, c)) \<Rightarrow> size p)")
    (auto simp: termination_simp)

declare borrow_pattern.simps [simp del]

definition borrow_function :: "hir_function \<Rightarrow> borrow_checker \<Rightarrow> borrow_checker" where
  "borrow_function f c = fold borrow_stmt (hf_body f) (c\<lparr>bc_active := Map.empty, bc_depth := 0\<rparr>)"

definition borrow_item :: "hir_item \<Rightarrow> borrow_checker \<Rightarrow> borrow_checker" where
  "borrow_item item c = (case item of IFunction f \<Rightarrow> borrow_function f c | _ \<Rightarrow> c)"

definition check_borrows :: "hir_program \<Rightarrow> borrow_checker \<Rightarrow> (borrow_error list, unit) sum" where
  "check_borrows p c =
     (let c = fold borrow_item (hpr_items p) c
      in if bc_errors c = [] then Inr () else Inl (bc_errors c))"

end
