(* ===== verification/Own_Borrowing.thy ===== *)
theory Own_Borrowing
  imports Own_Borrow
begin

text \<open>
  What the borrow checker keeps: the scope depth it entered with, the exclusion of every mutable
  borrow, the borrows of the scopes around it; and that only mutable borrows can make it complain.
  Each is a relation between checkers; the locale \<open>borrow_relation\<close> carries one through the whole
  program by a single mutual induction.
\<close>

section \<open>Mutable borrows in the source\<close>

function mutating_expr :: "hir_expr \<Rightarrow> bool"
  and mutating_stmt :: "hir_stmt \<Rightarrow> bool"
  and mutating_pattern :: "hir_match_pattern \<Rightarrow> bool"
where
  "mutating_expr (HirExpr kind t s) =
    (case kind of
      HBorrow e m \<Rightarrow> m \<or> mutating_expr e
    | HConst _ \<Rightarrow> False
    | HGlobal _ \<Rightarrow> False
    | HLocal _ \<Rightarrow> False
    | HBinOp _ l r \<Rightarrow> mutating_expr l \<or> mutating_expr r
    | HUnaryOp _ e \<Rightarrow> mutating_expr e
    | HCall f args \<Rightarrow> mutating_expr f \<or> (\<exists>e\<in>set args. mutating_expr e)
    | HMethodCall f _ args \<Rightarrow> mutating_expr f \<or> (\<exists>e\<in>set args. mutating_expr e)
    | HField e _ \<Rightarrow> mutating_expr e
    | HIndex e i \<Rightarrow> mutating_expr e \<or> mutating_expr i
    | HArray es \<Rightarrow> \<exists>e\<in>set es. mutating_expr e
    | HTuple es \<Rightarrow> \<exists>e\<in>set es. mutating_expr e
    | HMap kvs \<Rightarrow> \<exists>kv\<in>set kvs. mutating_expr (fst kv) \<or> mutating_expr (snd kv)
    | HStruct _ fs \<Rightarrow> \<exists>f\<in>set fs. mutating_expr (snd f)
    | HEnumVariant _ _ es \<Rightarrow> \<exists>e\<in>set es. mutating_expr e
    | HIf c a b \<Rightarrow> mutating_expr c \<or> mutating_expr a \<or> (case b of Some e \<Rightarrow> mutating_expr e | None \<Rightarrow> False)
    | HMatch vs arms \<Rightarrow>
        (\<exists>e\<in>set vs. mutating_expr e) \<or>
        (\<exists>arm\<in>set arms. case arm of HirMatchArm p g body _ \<Rightarrow>
           mutating_pattern p \<or> (case g of Some e \<Rightarrow> mutating_expr e | None \<Rightarrow> False) \<or> mutating_expr body)
    | HBlock ss e \<Rightarrow> (\<exists>s\<in>set ss. mutating_stmt s) \<or> (case e of Some e \<Rightarrow> mutating_expr e | None \<Rightarrow> False)
    | HRange a b _ \<Rightarrow> mutating_expr a \<or> mutating_expr b
    | HOk e \<Rightarrow> mutating_expr e
    | HErr e \<Rightarrow> mutating_expr e
    | HTry e \<Rightarrow> mutating_expr e
    | HMove e \<Rightarrow> mutating_expr e
    | HClone e \<Rightarrow> mutating_expr e
    | HUnwrapOrPanic e msg \<Rightarrow> mutating_expr e \<or> mutating_expr msg
    | HClosure _ e \<Rightarrow> mutating_expr e
    | HSpread e \<Rightarrow> mutating_expr e
    | HRouteBlock es \<Rightarrow> \<exists>e\<in>set es. mutating_expr e
    | HCast e _ \<Rightarrow> mutating_expr e
    | HAwait e \<Rightarrow> mutating_expr e
    | HSpawn e \<Rightarrow> mutating_expr e
    | HScopeBlock ss \<Rightarrow> \<exists>s\<in>set ss. mutating_stmt s)"
| "mutating_stmt (HirStmt kind s) =
    (case kind of
      SLet _ _ v _ _ \<Rightarrow> mutating_expr v
    | STupleLet _ _ v _ \<Rightarrow> mutating_expr v
    | SManualErrorExtract _ _ e \<Rightarrow> mutating_expr e
    | SAssign _ v \<Rightarrow> mutating_expr v
    | SExpr e \<Rightarrow> mutating_expr e
    | SReturn es \<Rightarrow> \<exists>e\<in>set es. mutating_expr e
    | SIf c a b \<Rightarrow>
        mutating_expr c \<or> (\<exists>s\<in>set a. mutating_stmt s) \<or>
        (case b of Some ss \<Rightarrow> \<exists>s\<in>set ss. mutating_stmt s | None \<Rightarrow> False)
    | SWhile c body inc \<Rightarrow> mutating_expr c \<or> (\<exists>s\<in>set body. mutating_stmt s) \<or> (\<exists>s\<in>set inc. mutating_stmt s)
    | SBreak \<Rightarrow> False
    | SContinue \<Rightarrow> False
    | SDrop _ \<Rightarrow> False)"
| "mutating_pattern p =
    (case p of
      PLiteral e \<Rightarrow> mutating_expr e
    | PCondition e \<Rightarrow> mutating_expr e
    | PWildcard \<Rightarrow> False
    | PEnumVariant _ _ \<Rightarrow> False
    | PEnumVariantPayload _ _ _ \<Rightarrow> False
    | PTuple ps \<Rightarrow> \<exists>p\<in>set ps. mutating_pattern p)"
  by pat_completeness auto
termination
  by (relation "measure (\<lambda>a. case a of Inl e \<Rightarrow> size e | Inr (Inl s) \<Rightarrow> size s | Inr (Inr p) \<Rightarrow> size p)")
    (auto simp: termination_simp)

declare mutating_pattern.simps [simp del]

lemma not_mutating_arm:
  assumes "\<not> mutating_expr (HirExpr (HMatch vs arms) t s)" "HirMatchArm p g body sp \<in> set arms"
  shows "\<not> mutating_pattern p \<and> (\<forall>e. g = Some e \<longrightarrow> \<not> mutating_expr e) \<and> \<not> mutating_expr body"
proof -
  have "\<not> (case HirMatchArm p g body sp of HirMatchArm p g body _ \<Rightarrow>
      mutating_pattern p \<or> (case g of Some e \<Rightarrow> mutating_expr e | None \<Rightarrow> False) \<or> mutating_expr body)"
    using assms by (simp only: mutating_expr.simps hir_expr_kind.case) blast
  then show ?thesis by auto
qed

section \<open>Relations every check respects\<close>

text \<open>A relation between checkers that every use and every forgotten variable respects, and that
  passes from the inside of a block to the block, is respected by every expression, statement and
  pattern. With \<open>mutates\<close> false, only those without mutable borrows are meant.\<close>

locale borrow_relation =
  fixes mutates :: bool and R :: "borrow_checker \<Rightarrow> borrow_checker \<Rightarrow> bool"
  assumes refl_R: "R c c"
    and trans_R: "R c d \<Longrightarrow> R d e \<Longrightarrow> R c e"
    and try_imm: "R c (try_immutable_borrow n s c)"
    and try_mut: "mutates \<Longrightarrow> R c (try_mutable_borrow n s c)"
    and forget: "R c (forget_borrows n c)"
    and block: "R (borrow_enter c) d \<Longrightarrow> R c (borrow_exit d)"
begin

lemma fold_from: "R d c \<Longrightarrow> (\<And>x c. x \<in> set xs \<Longrightarrow> R d c \<Longrightarrow> R d (f x c)) \<Longrightarrow> R d (fold f xs c)"
  by (induction xs arbitrary: c) simp_all

lemma uses_from:
  "R d c \<Longrightarrow> R d (try_immutable_borrow n s c)" "mutates \<Longrightarrow> R d c \<Longrightarrow> R d (try_mutable_borrow n s c)"
  "R d c \<Longrightarrow> R d (forget_borrows n c)" "R d c \<Longrightarrow> R d (forget_binding n c)"
  using trans_R try_imm try_mut forget by (auto simp: forget_binding_def)

lemma block_from: "R (borrow_enter c) x \<Longrightarrow> R d c \<Longrightarrow> R d (borrow_exit x)"
  using block trans_R by blast

definition keeps :: "(borrow_checker \<Rightarrow> borrow_checker) \<Rightarrow> bool" where
  "keeps f \<longleftrightarrow> (\<forall>d c. R d c \<longrightarrow> R d (f c))"

lemma keepsI: "(\<And>d c. R d c \<Longrightarrow> R d (f c)) \<Longrightarrow> keeps f"
  by (simp add: keeps_def)

lemma expr_from: "keeps (borrow_expr m e) \<Longrightarrow> R d c \<Longrightarrow> R d (borrow_expr m e c)"
  by (simp add: keeps_def)

lemma stmt_from: "keeps (borrow_stmt st) \<Longrightarrow> R d c \<Longrightarrow> R d (borrow_stmt st c)"
  by (simp add: keeps_def)

lemma pattern_from: "keeps (borrow_pattern p) \<Longrightarrow> R d c \<Longrightarrow> R d (borrow_pattern p c)"
  by (simp add: keeps_def)

lemma keeps_pattern:
  "keeps (borrow_expr False e) \<Longrightarrow> keeps (borrow_pattern (PLiteral e))"
  "keeps (borrow_expr False e) \<Longrightarrow> keeps (borrow_pattern (PCondition e))"
  "keeps (borrow_pattern PWildcard)" "keeps (borrow_pattern (PEnumVariant a b))"
  "keeps (borrow_pattern (PEnumVariantPayload a b ns))"
  "(\<And>p. p \<in> set ps \<Longrightarrow> keeps (borrow_pattern p)) \<Longrightarrow> keeps (borrow_pattern (PTuple ps))"
  by (simp_all add: keeps_def borrow_pattern.simps fold_from)

lemmas steps = refl_R uses_from fold_from expr_from stmt_from pattern_from

lemma scope_expr: "keeps (borrow_expr m e) \<Longrightarrow> R d c \<Longrightarrow> R d (borrow_exit (borrow_expr m e (borrow_enter c)))"
  by (rule block_from) (simp_all add: expr_from refl_R)

lemma scope_exprs:
  "keeps (borrow_expr m e) \<Longrightarrow> keeps (borrow_expr n f) \<Longrightarrow> R d c \<Longrightarrow>
    R d (borrow_exit (borrow_expr n f (borrow_expr m e (borrow_enter c))))"
  by (rule block_from) (simp_all add: expr_from refl_R)

lemma scope_stmts:
  "(\<And>st. st \<in> set ss \<Longrightarrow> keeps (borrow_stmt st)) \<Longrightarrow> R d c \<Longrightarrow>
    R d (borrow_exit (fold borrow_stmt ss (borrow_enter c)))"
  by (rule block_from) (auto intro!: steps)

lemma scope_stmts_expr:
  "(\<And>st. st \<in> set ss \<Longrightarrow> keeps (borrow_stmt st)) \<Longrightarrow> keeps (borrow_expr m e) \<Longrightarrow> R d c \<Longrightarrow>
    R d (borrow_exit (borrow_expr m e (fold borrow_stmt ss (borrow_enter c))))"
  by (rule block_from) (auto intro!: steps)

lemma scope_stmts_stmts:
  "(\<And>st. st \<in> set ss \<Longrightarrow> keeps (borrow_stmt st)) \<Longrightarrow> (\<And>st. st \<in> set ts \<Longrightarrow> keeps (borrow_stmt st)) \<Longrightarrow>
    R d c \<Longrightarrow> R d (borrow_exit (fold borrow_stmt ts (fold borrow_stmt ss (borrow_enter c))))"
  by (rule block_from) (auto intro!: steps)

lemmas scopes = scope_expr scope_exprs scope_stmts scope_stmts_expr scope_stmts_stmts

lemma check_keeps:
  "\<forall>m. mutates \<or> \<not> m \<and> \<not> mutating_expr e \<longrightarrow> keeps (borrow_expr m e)"
  "\<forall>m t s d c. mutates \<or> \<not> m \<and> \<not> mutating_expr (HirExpr k t s) \<longrightarrow> R d c \<longrightarrow>
     R d (borrow_expr m (HirExpr k t s) c)"
  "mutates \<or> \<not> mutating_stmt st \<longrightarrow> keeps (borrow_stmt st)"
  "\<forall>s d c. mutates \<or> \<not> mutating_stmt (HirStmt sk s) \<longrightarrow> R d c \<longrightarrow> R d (borrow_stmt (HirStmt sk s) c)"
  "(mutates \<or> \<not> mutating_pattern (arm_pattern arm) \<longrightarrow> keeps (borrow_pattern (arm_pattern arm))) \<and>
   (\<forall>e. arm_guard arm = Some e \<longrightarrow> mutates \<or> \<not> mutating_expr e \<longrightarrow> keeps (borrow_expr False e)) \<and>
   (mutates \<or> \<not> mutating_expr (arm_body arm) \<longrightarrow> keeps (borrow_expr False (arm_body arm)))"
  "mutates \<or> \<not> mutating_pattern p \<longrightarrow> keeps (borrow_pattern p)"
proof (induction e and k and st and sk and arm and p)
  case (HirExpr k t s)
  then show ?case unfolding keeps_def by blast
next
  case (HirStmt k s)
  then show ?case unfolding keeps_def by blast
next
  case (HMatch vs arms)
  have arm: "keeps (\<lambda>c. case arm of HirMatchArm p g body _ \<Rightarrow>
      (let c = borrow_pattern p c; c = (case g of Some e \<Rightarrow> borrow_expr False e c | None \<Rightarrow> c)
       in borrow_expr False body c))"
    if "arm \<in> set arms" "mutates \<or> \<not> mutating_expr (HirExpr (HMatch vs arms) t s)" for arm t s
  proof (cases arm)
    case (HirMatchArm p g body sp)
    have "keeps (borrow_pattern p)" "\<And>e. g = Some e \<Longrightarrow> keeps (borrow_expr False e)" "keeps (borrow_expr False body)"
    proof -
      have nm: "mutates \<or> \<not> mutating_pattern p \<and> (\<forall>e. g = Some e \<longrightarrow> \<not> mutating_expr e) \<and> \<not> mutating_expr body"
        using not_mutating_arm [of vs arms t s p g body sp] that HirMatchArm by blast
      note ih = HMatch(2) [OF that(1), unfolded HirMatchArm hir_match_arm.sel]
      show "keeps (borrow_pattern p)" "\<And>e. g = Some e \<Longrightarrow> keeps (borrow_expr False e)" "keeps (borrow_expr False body)"
        using ih nm by blast+
    qed
    then show ?thesis
      unfolding HirMatchArm by (cases g) (auto simp: Let_def intro!: keepsI steps)
  qed
  have "R d (fold (\<lambda>arm c. case arm of HirMatchArm p g body _ \<Rightarrow>
      (let c = borrow_pattern p c; c = (case g of Some e \<Rightarrow> borrow_expr False e c | None \<Rightarrow> c)
       in borrow_expr False body c)) arms c)"
    if "R d c" "mutates \<or> \<not> mutating_expr (HirExpr (HMatch vs arms) t s)" for d c t s
    using arm that by (intro fold_from) (auto simp: keeps_def)
  note arms = this
  show ?case
  proof (intro allI impI)
    fix m t s d c
    assume ok: "mutates \<or> \<not> m \<and> \<not> mutating_expr (HirExpr (HMatch vs arms) t s)" and "R d c"
    then have "R d (fold (borrow_expr False) vs c)"
      using HMatch(1) by (intro fold_from) (auto intro: expr_from)
    moreover have "mutates \<or> \<not> mutating_expr (HirExpr (HMatch vs arms) t s)" using ok by blast
    ultimately show "R d (borrow_expr m (HirExpr (HMatch vs arms) t s) c)"
      using arms [of d "fold (borrow_expr False) vs c" t s] by (simp del: mutating_expr.simps)
  qed
next
  case (HBlock ss e)
  then show ?case by (auto simp: Let_def split: option.splits intro!: steps scopes)
next
  case (HUnwrapOrPanic e msg)
  then show ?case by (auto intro!: steps scopes)
next
  case (HClosure ps e)
  then show ?case by (auto intro!: steps scopes)
next
  case (SIf cond a b)
  then show ?case by (auto simp: Let_def split: option.splits intro!: steps scopes)
next
  case (SWhile cond a b)
  then show ?case by (auto simp: Let_def intro!: steps scopes)
qed (auto simp: Let_def mutating_pattern.simps
    split: option.splits hir_expr_kind.splits intro!: keeps_pattern steps)

lemma expr_keeps: "mutates \<or> \<not> m \<and> \<not> mutating_expr e \<Longrightarrow> R c (borrow_expr m e c)"
  using check_keeps(1) [of e] refl_R unfolding keeps_def by blast

lemma stmts_keep: "mutates \<or> (\<forall>st\<in>set ss. \<not> mutating_stmt st) \<Longrightarrow> R c (fold borrow_stmt ss c)"
  using check_keeps(3) by (intro fold_from refl_R) (auto simp: keeps_def)

end


section \<open>Exclusion\<close>

text \<open>A variable has either one borrow or only shared ones, and no borrow is from a scope already left.\<close>

definition exclusive :: "borrow_checker \<Rightarrow> bool" where
  "exclusive c \<longleftrightarrow> (\<forall>n. (\<forall>b\<in>set (active_borrows c n). bi_depth b \<le> bc_depth c) \<and>
     (length (active_borrows c n) \<le> 1 \<or> (\<forall>b\<in>set (active_borrows c n). \<not> bi_mutable b)))"

definition stays_exclusive :: "borrow_checker \<Rightarrow> borrow_checker \<Rightarrow> bool" where
  "stays_exclusive c d \<longleftrightarrow> bc_depth d = bc_depth c \<and> (exclusive c \<longrightarrow> exclusive d)"

definition outer_borrows :: "nat \<Rightarrow> borrow_checker \<Rightarrow> ustr \<Rightarrow> borrow_info list" where
  "outer_borrows k c n = filter (\<lambda>b. bi_depth b < k) (active_borrows c n)"

definition keeps_outer :: "borrow_checker \<Rightarrow> borrow_checker \<Rightarrow> bool" where
  "keeps_outer c d \<longleftrightarrow> bc_depth d = bc_depth c \<and>
     (\<forall>n. outer_borrows (bc_depth c) d n = outer_borrows (bc_depth c) c n \<or> outer_borrows (bc_depth c) d n = [])"

definition stays_quiet :: "borrow_checker \<Rightarrow> borrow_checker \<Rightarrow> bool" where
  "stays_quiet c d \<longleftrightarrow>
     (\<forall>n. \<forall>b\<in>set (active_borrows c n). \<not> bi_mutable b) \<longrightarrow>
     (\<forall>n. \<forall>b\<in>set (active_borrows d n). \<not> bi_mutable b) \<and> bc_errors d = bc_errors c"

lemma active_add [simp]:
  "active_borrows (add_borrow n m s c) k =
    (if k = n then active_borrows c n @ [\<lparr>bi_borrower = ascii ''expr@'' @ ascii (show_nat (sp_start s)), bi_mutable = m,
       bi_span = s, bi_depth = bc_depth c\<rparr>] else active_borrows c k)"
  "bc_depth (add_borrow n m s c) = bc_depth c" "bc_errors (add_borrow n m s c) = bc_errors c"
  by (simp_all add: add_borrow_def active_borrows_def Let_def)

lemma active_report [simp]:
  "active_borrows (report_borrow e c) = active_borrows c" "bc_depth (report_borrow e c) = bc_depth c"
  by (simp_all add: report_borrow_def active_borrows_def fun_eq_iff)

lemma report_in [simp]: "bc_errors (report_borrow e c) = bc_errors c @ [e]"
  by (simp add: report_borrow_def)

lemma active_forget [simp]:
  "active_borrows (forget_borrows n c) k = (if k = n then [] else active_borrows c k)"
  "bc_depth (forget_borrows n c) = bc_depth c" "bc_errors (forget_borrows n c) = bc_errors c"
  by (simp_all add: forget_borrows_def active_borrows_def)

lemma active_scope [simp]:
  "active_borrows (borrow_enter c) = active_borrows c" "bc_depth (borrow_enter c) = Suc (bc_depth c)"
  "bc_errors (borrow_enter c) = bc_errors c"
  "active_borrows (borrow_exit c) n = filter (\<lambda>b. bi_depth b < bc_depth c) (active_borrows c n)"
  "bc_depth (borrow_exit c) = bc_depth c - 1" "bc_errors (borrow_exit c) = bc_errors c"
  by (simp_all add: borrow_enter_def borrow_exit_def active_borrows_def fun_eq_iff split: option.split)

lemma try_immutable_cases:
  obtains "try_immutable_borrow n s c = c"
  | e where "try_immutable_borrow n s c = report_borrow e c" "\<exists>b\<in>set (active_borrows c n). bi_mutable b"
  | "try_immutable_borrow n s c = add_borrow n False s c" "\<forall>b\<in>set (active_borrows c n). \<not> bi_mutable b"
proof (cases "is_synthetic n")
  case True
  then show ?thesis using that(1) by (simp add: try_immutable_borrow_def)
next
  case False
  show ?thesis
  proof (cases "find bi_mutable (active_borrows c n)")
    case None
    then have "\<forall>b\<in>set (active_borrows c n). \<not> bi_mutable b" by (auto simp: find_None_iff)
    then show ?thesis using that(3) False None by (simp add: try_immutable_borrow_def)
  next
    case (Some b)
    then have "\<exists>b\<in>set (active_borrows c n). bi_mutable b" by (auto simp: find_Some_iff)
    then show ?thesis using that(2) False Some by (simp add: try_immutable_borrow_def)
  qed
qed

lemma try_mutable_cases:
  obtains "try_mutable_borrow n s c = c"
  | e where "try_mutable_borrow n s c = report_borrow e c" "active_borrows c n \<noteq> []"
  | "try_mutable_borrow n s c = add_borrow n True s c" "active_borrows c n = []"
  by (cases "active_borrows c n") (force simp: try_mutable_borrow_def split: if_splits)+

lemma exclusive_report: "exclusive c \<Longrightarrow> exclusive (report_borrow e c)"
  by (simp add: exclusive_def)

lemma exclusive_exit: "exclusive c \<Longrightarrow> exclusive (borrow_exit c)"
  unfolding exclusive_def
  by (auto intro: le_trans [OF length_filter_le])

interpretation exclusion: borrow_relation True stays_exclusive
proof unfold_locales
  fix c d e n s
  show "stays_exclusive c c" by (simp add: stays_exclusive_def)
  show "stays_exclusive c d \<Longrightarrow> stays_exclusive d e \<Longrightarrow> stays_exclusive c e" by (simp add: stays_exclusive_def)
  show "stays_exclusive c (try_immutable_borrow n s c)"
    by (rule try_immutable_cases [of n s c]) (auto simp: stays_exclusive_def exclusive_def)
  show "stays_exclusive c (try_mutable_borrow n s c)"
    by (rule try_mutable_cases [of n s c]) (auto simp: stays_exclusive_def exclusive_def)
  show "stays_exclusive c (forget_borrows n c)"
    by (auto simp: stays_exclusive_def exclusive_def)
  show "stays_exclusive (borrow_enter c) d \<Longrightarrow> stays_exclusive c (borrow_exit d)"
    by (auto simp: stays_exclusive_def exclusive_exit) (auto simp: exclusive_def le_SucI intro: exclusive_exit)
qed

interpretation scoping: borrow_relation True keeps_outer
proof unfold_locales
  fix c d e n s
  show "keeps_outer c c" by (simp add: keeps_outer_def)
  show "keeps_outer c d \<Longrightarrow> keeps_outer d e \<Longrightarrow> keeps_outer c e" unfolding keeps_outer_def by metis
  show "keeps_outer c (try_immutable_borrow n s c)"
    by (rule try_immutable_cases [of n s c]) (auto simp: keeps_outer_def outer_borrows_def)
  show "keeps_outer c (try_mutable_borrow n s c)"
    by (rule try_mutable_cases [of n s c]) (auto simp: keeps_outer_def outer_borrows_def)
  show "keeps_outer c (forget_borrows n c)"
    by (auto simp: keeps_outer_def outer_borrows_def)
  show "keeps_outer c (borrow_exit d)" if "keeps_outer (borrow_enter c) d"
  proof -
    have narrow: "outer_borrows k x n = filter (\<lambda>b. bi_depth b < k) (outer_borrows (Suc k) x n)" for k x n
      by (induction "active_borrows x n") (auto simp: outer_borrows_def intro!: filter_cong)
    have "outer_borrows (bc_depth c) d n = outer_borrows (bc_depth c) c n \<or> outer_borrows (bc_depth c) d n = []" for n
    proof -
      have "outer_borrows (Suc (bc_depth c)) d n = outer_borrows (Suc (bc_depth c)) c n \<or>
          outer_borrows (Suc (bc_depth c)) d n = []"
        using that by (simp add: keeps_outer_def outer_borrows_def)
      then show ?thesis
        unfolding narrow [of "bc_depth c" d] narrow [of "bc_depth c" c] by auto
    qed
    moreover have "outer_borrows (bc_depth c) (borrow_exit d) n = outer_borrows (bc_depth c) d n" for n
      using that by (auto simp: keeps_outer_def outer_borrows_def intro!: filter_cong)
    ultimately show ?thesis using that by (simp add: keeps_outer_def)
  qed
qed

interpretation silence: borrow_relation False stays_quiet
proof unfold_locales
  fix c d e n s
  show "stays_quiet c c" by (simp add: stays_quiet_def)
  show "stays_quiet c d \<Longrightarrow> stays_quiet d e \<Longrightarrow> stays_quiet c e"
    unfolding stays_quiet_def by metis
  show "stays_quiet c (try_immutable_borrow n s c)"
    by (rule try_immutable_cases [of n s c]) (auto simp: stays_quiet_def)
  show "stays_quiet c (forget_borrows n c)" by (auto simp: stays_quiet_def)
  show "stays_quiet (borrow_enter c) d \<Longrightarrow> stays_quiet c (borrow_exit d)" by (auto simp: stays_quiet_def)
qed auto

definition errors_grow :: "borrow_checker \<Rightarrow> borrow_checker \<Rightarrow> bool" where
  "errors_grow c d \<longleftrightarrow> set (bc_errors c) \<subseteq> set (bc_errors d)"

interpretation reports: borrow_relation True errors_grow
proof unfold_locales
  fix c d e n s
  show "errors_grow c (try_immutable_borrow n s c)"
    by (rule try_immutable_cases [of n s c]) (auto simp: errors_grow_def)
  show "errors_grow c (try_mutable_borrow n s c)"
    by (rule try_mutable_cases [of n s c]) (auto simp: errors_grow_def)
qed (auto simp: errors_grow_def)

section \<open>Functions and programs\<close>

lemma errors_of_later_items:
  "set (bc_errors c) \<subseteq> set (bc_errors (fold borrow_item items c))"
proof (induction items arbitrary: c)
  case (Cons item items)
  have "set (bc_errors c) \<subseteq> set (bc_errors (borrow_item item c))"
  proof (cases item)
    case (IFunction f)
    have "errors_grow (c\<lparr>bc_active := Map.empty, bc_depth := 0\<rparr>) (borrow_function f c)"
      unfolding borrow_function_def by (rule reports.stmts_keep) simp
    then show ?thesis by (simp add: IFunction borrow_item_def errors_grow_def)
  qed (simp_all add: borrow_item_def)
  then show ?case using Cons by force
qed simp

lemma conflicting_use_reports:
  assumes "active_borrows c x = b # bs" "\<not> is_synthetic x"
  shows "concurrent_mut x (bi_span b) s \<in> set (bc_errors (try_mutable_borrow x s c))"
  using assms by (simp add: try_mutable_borrow_def)

text \<open>C13. No function leaves a mutable borrow beside another borrow of the same variable, whatever its
  body does, and the checker is back at the depth it started from.\<close>
theorem borrows_stay_exclusive:
  "exclusive (borrow_function f c) \<and> bc_depth (borrow_function f c) = 0"
proof -
  let ?start = "c\<lparr>bc_active := Map.empty, bc_depth := 0\<rparr>"
  have "exclusive ?start" by (simp add: exclusive_def active_borrows_def)
  moreover have "stays_exclusive ?start (borrow_function f c)"
    unfolding borrow_function_def by (rule exclusion.stmts_keep) simp
  ultimately show ?thesis by (simp add: stays_exclusive_def)
qed

text \<open>The borrows a block takes are released at its end: afterwards every variable has the borrows
  it had before, or none where the block assigned it.\<close>
theorem scope_borrows_are_released:
  "active_borrows (borrow_expr m (HirExpr (HBlock ss e) t s) c) n
     \<in> {filter (\<lambda>b. bi_depth b \<le> bc_depth c) (active_borrows c n), []}"
proof -
  let ?d = "case e of Some e \<Rightarrow> borrow_expr False e (fold borrow_stmt ss (borrow_enter c))
    | None \<Rightarrow> fold borrow_stmt ss (borrow_enter c)"
  have stmts: "keeps_outer (borrow_enter c) (fold borrow_stmt ss (borrow_enter c))"
    by (rule scoping.stmts_keep) simp
  then have "keeps_outer (borrow_enter c) ?d"
    using scoping.trans_R [OF stmts scoping.expr_keeps] by (cases e) simp_all
  moreover have "active_borrows (borrow_exit ?d) n = outer_borrows (bc_depth ?d) ?d n"
    by (simp add: outer_borrows_def)
  ultimately show ?thesis
    by (auto simp: keeps_outer_def outer_borrows_def Let_def less_Suc_eq_le)
qed

section \<open>The trace of a function\<close>

text \<open>What a function does to the borrows, in the order of its source: the uses of variables, the bindings and
  assignments that end the borrows of a name, and the beginnings and ends of scopes.\<close>

datatype borrow_event = BvUse bool ustr src_span | BvForget ustr | BvEnter | BvExit

fun run_event :: "borrow_event \<Rightarrow> borrow_checker \<Rightarrow> borrow_checker" where
  "run_event (BvUse m n s) c = (if m then try_mutable_borrow n s c else try_immutable_borrow n s c)"
| "run_event (BvForget n) c = forget_borrows n c"
| "run_event BvEnter c = borrow_enter c"
| "run_event BvExit c = borrow_exit c"

definition scoped :: "borrow_event list \<Rightarrow> borrow_event list" where
  "scoped es = BvEnter # es @ [BvExit]"

definition forgets :: "ustr list \<Rightarrow> borrow_event list" where
  "forgets ns = map BvForget (filter (\<lambda>n. n \<noteq> ascii ''_'') ns)"

function trace_expr :: "bool \<Rightarrow> hir_expr \<Rightarrow> borrow_event list"
  and trace_stmt :: "hir_stmt \<Rightarrow> borrow_event list"
  and trace_pattern :: "hir_match_pattern \<Rightarrow> borrow_event list"
where
  "trace_expr m (HirExpr kind t s) =
    (case kind of
      HConst _ \<Rightarrow> []
    | HGlobal _ \<Rightarrow> []
    | HLocal name \<Rightarrow> [BvUse m name s]
    | HBinOp _ l r \<Rightarrow> trace_expr False l @ trace_expr False r
    | HUnaryOp _ e \<Rightarrow> trace_expr False e
    | HCall f args \<Rightarrow> trace_expr False f @ concat (map (trace_expr False) args)
    | HMethodCall e _ args \<Rightarrow> trace_expr False e @ concat (map (trace_expr False) args)
    | HField e _ \<Rightarrow> trace_expr m e
    | HIndex e i \<Rightarrow> trace_expr m e @ trace_expr False i
    | HArray es \<Rightarrow> concat (map (trace_expr False) es)
    | HTuple es \<Rightarrow> concat (map (trace_expr False) es)
    | HMap kvs \<Rightarrow> concat (map (\<lambda>(k, v). trace_expr False k @ trace_expr False v) kvs)
    | HStruct _ fs \<Rightarrow> concat (map (\<lambda>(_, v). trace_expr False v) fs)
    | HEnumVariant _ _ es \<Rightarrow> concat (map (trace_expr False) es)
    | HIf cond a b \<Rightarrow>
        trace_expr False cond @ trace_expr False a @ (case b of Some e \<Rightarrow> trace_expr False e | None \<Rightarrow> [])
    | HMatch vs arms \<Rightarrow>
        concat (map (trace_expr False) vs) @
        concat (map (\<lambda>arm. case arm of HirMatchArm p g body _ \<Rightarrow>
          trace_pattern p @ (case g of Some e \<Rightarrow> trace_expr False e | None \<Rightarrow> []) @ trace_expr False body) arms)
    | HBlock ss e \<Rightarrow>
        scoped (concat (map trace_stmt ss) @ (case e of Some e \<Rightarrow> trace_expr False e | None \<Rightarrow> []))
    | HRange a b _ \<Rightarrow> trace_expr False a @ trace_expr False b
    | HOk e \<Rightarrow> trace_expr False e
    | HErr e \<Rightarrow> trace_expr False e
    | HTry e \<Rightarrow> trace_expr False e
    | HMove e \<Rightarrow> trace_expr False e
    | HClone e \<Rightarrow> trace_expr False e
    | HUnwrapOrPanic e msg \<Rightarrow> scoped (trace_expr False e @ trace_expr False msg)
    | HBorrow e m \<Rightarrow> trace_expr m e
    | HClosure _ e \<Rightarrow> scoped (trace_expr False e)
    | HSpread e \<Rightarrow> trace_expr False e
    | HRouteBlock es \<Rightarrow> concat (map (trace_expr False) es)
    | HCast e _ \<Rightarrow> trace_expr False e
    | HAwait e \<Rightarrow> trace_expr False e
    | HSpawn e \<Rightarrow> trace_expr False e
    | HScopeBlock ss \<Rightarrow> concat (map trace_stmt ss))"
| "trace_stmt (HirStmt kind s) =
    (case kind of
      SLet name _ v _ _ \<Rightarrow> trace_expr False v @ [BvForget name]
    | STupleLet names _ v _ \<Rightarrow> trace_expr False v @ map BvForget names
    | SManualErrorExtract names err e \<Rightarrow> trace_expr False e @ forgets (names @ [err])
    | SAssign target v \<Rightarrow>
        trace_expr False v @ (case he_kind target of HLocal name \<Rightarrow> [BvForget name] | _ \<Rightarrow> [])
    | SExpr e \<Rightarrow> trace_expr False e
    | SReturn es \<Rightarrow> concat (map (trace_expr False) es)
    | SIf cond a b \<Rightarrow>
        scoped (trace_expr False cond) @ scoped (concat (map trace_stmt a)) @
        (case b of Some ss \<Rightarrow> scoped (concat (map trace_stmt ss)) | None \<Rightarrow> [])
    | SWhile cond body inc \<Rightarrow>
        scoped (trace_expr False cond) @ scoped (concat (map trace_stmt body) @ concat (map trace_stmt inc))
    | SBreak \<Rightarrow> []
    | SContinue \<Rightarrow> []
    | SDrop _ \<Rightarrow> [])"
| "trace_pattern p =
    (case p of
      PLiteral e \<Rightarrow> trace_expr False e
    | PCondition e \<Rightarrow> trace_expr False e
    | PWildcard \<Rightarrow> []
    | PEnumVariant _ _ \<Rightarrow> []
    | PEnumVariantPayload _ _ _ \<Rightarrow> []
    | PTuple ps \<Rightarrow> concat (map trace_pattern ps))"
  by pat_completeness auto
termination
  by (relation "measure (\<lambda>a. case a of Inl (m, e) \<Rightarrow> size e | Inr (Inl s) \<Rightarrow> size s | Inr (Inr p) \<Rightarrow> size p)")
    (auto simp: termination_simp)

declare trace_pattern.simps [simp del]

definition function_trace :: "hir_function \<Rightarrow> borrow_event list" where
  "function_trace f = concat (map trace_stmt (hf_body f))"

lemma run_scoped [simp]: "fold run_event (scoped es) c = borrow_exit (fold run_event es (borrow_enter c))"
  by (simp add: scoped_def)

lemma run_forgets [simp]: "fold run_event (forgets ns) c = fold forget_binding ns c"
  by (induction ns arbitrary: c) (simp_all add: forgets_def forget_binding_def)

lemma run_forget_all [simp]: "fold run_event (map BvForget ns) c = fold forget_borrows ns c"
  by (induction ns arbitrary: c) simp_all

lemma run_concat: "(\<And>x. x \<in> set xs \<Longrightarrow> \<forall>c. f x c = fold run_event (h x) c) \<Longrightarrow>
    fold f xs c = fold run_event (concat (map h xs)) c"
  by (induction xs arbitrary: c) simp_all

lemmas runs_of_lists = run_concat [where h = "trace_expr False"] run_concat [where h = trace_stmt]
  run_concat [where h = trace_pattern]

lemma checking_is_a_run:
  "\<forall>m c. borrow_expr m e c = fold run_event (trace_expr m e) c"
  "\<And>t s. \<forall>m c. borrow_expr m (HirExpr k t s) c = fold run_event (trace_expr m (HirExpr k t s)) c"
  "\<forall>c. borrow_stmt st c = fold run_event (trace_stmt st) c"
  "\<And>s. \<forall>c. borrow_stmt (HirStmt sk s) c = fold run_event (trace_stmt (HirStmt sk s)) c"
  "(\<forall>c. borrow_pattern (arm_pattern arm) c = fold run_event (trace_pattern (arm_pattern arm)) c) \<and>
   (\<forall>e. arm_guard arm = Some e \<longrightarrow> (\<forall>m c. borrow_expr m e c = fold run_event (trace_expr m e) c)) \<and>
   (\<forall>m c. borrow_expr m (arm_body arm) c = fold run_event (trace_expr m (arm_body arm)) c)"
  "\<forall>c. borrow_pattern p c = fold run_event (trace_pattern p) c"
proof (induction e and k and st and sk and arm and p)
  case (HirExpr k t s)
  then show ?case by blast
next
  case (HirStmt k s)
  then show ?case by blast
next
  case (HMatch vs arms)
  have vs: "fold (borrow_expr False) vs c = fold run_event (concat (map (trace_expr False) vs)) c" for c
    using HMatch(1) by (intro run_concat) blast
  have arms: "fold (\<lambda>arm c. case arm of HirMatchArm p g body _ \<Rightarrow>
        (let c = borrow_pattern p c; c = (case g of Some e \<Rightarrow> borrow_expr False e c | None \<Rightarrow> c)
         in borrow_expr False body c)) arms c =
      fold run_event (concat (map (\<lambda>arm. case arm of HirMatchArm p g body _ \<Rightarrow>
        trace_pattern p @ (case g of Some e \<Rightarrow> trace_expr False e | None \<Rightarrow> []) @ trace_expr False body) arms)) c"
    (is "fold ?f arms c = fold run_event (concat (map ?h arms)) c") for c
  proof (rule run_concat)
    fix arm assume arm: "arm \<in> set arms"
    obtain p g body sp where a: "arm = HirMatchArm p g body sp" by (cases arm)
    note ih = HMatch(2) [OF arm, unfolded a hir_match_arm.sel]
    show "\<forall>c. ?f arm c = fold run_event (?h arm) c"
      unfolding a using ih by (cases g) (simp_all add: Let_def)
  qed
  show ?case by (simp add: vs arms)
next
  case (HMap kvs)
  have "fold (\<lambda>(k, v) c. borrow_expr False v (borrow_expr False k c)) kvs c =
      fold run_event (concat (map (\<lambda>(k, v). trace_expr False k @ trace_expr False v) kvs)) c" for c
    by (rule run_concat) (use HMap in force)
  then show ?case by simp
next
  case (HStruct n fs)
  have "fold (\<lambda>(_, v) c. borrow_expr False v c) fs c =
      fold run_event (concat (map (\<lambda>(_, v). trace_expr False v) fs)) c" for c
    by (rule run_concat) (use HStruct in force)
  then show ?case by simp
next
  case (SManualErrorExtract names err e)
  have "forget_binding err (fold forget_binding names c) = fold forget_binding (names @ [err]) c" for c
    by simp
  then show ?case using SManualErrorExtract by simp
next
  case (SAssign target v)
  then show ?case by (simp split: hir_expr_kind.split)
qed (simp_all add: runs_of_lists borrow_pattern.simps trace_pattern.simps Let_def split: option.split)

section \<open>Borrows along a trace\<close>

text \<open>Events that, begun a number of scopes inside a scope, never leave it.\<close>

fun stays_inside :: "nat \<Rightarrow> borrow_event list \<Rightarrow> bool" where
  "stays_inside d [] \<longleftrightarrow> True"
| "stays_inside d (BvEnter # es) \<longleftrightarrow> stays_inside (Suc d) es"
| "stays_inside d (BvExit # es) \<longleftrightarrow> (case d of 0 \<Rightarrow> False | Suc k \<Rightarrow> stays_inside k es)"
| "stays_inside d (BvUse m n s # es) \<longleftrightarrow> stays_inside d es"
| "stays_inside d (BvForget n # es) \<longleftrightarrow> stays_inside d es"

definition held :: "ustr \<Rightarrow> nat \<Rightarrow> borrow_checker \<Rightarrow> bool" where
  "held x k c \<longleftrightarrow> (\<exists>b\<in>set (active_borrows c x). bi_depth b \<le> k)"

text \<open>Every active borrow is from a use of the trace and from a scope that is open.\<close>

definition traced_borrows :: "borrow_event set \<Rightarrow> borrow_checker \<Rightarrow> bool" where
  "traced_borrows E c \<longleftrightarrow>
     (\<forall>n. \<forall>b\<in>set (active_borrows c n). bi_depth b \<le> bc_depth c \<and> (\<exists>m. BvUse m n (bi_span b) \<in> E))"

lemma run_use_cases:
  obtains "run_event (BvUse m n s) c = c" "is_synthetic n"
  | e where "run_event (BvUse m n s) c = report_borrow e c" "active_borrows c n \<noteq> []"
  | "run_event (BvUse m n s) c = add_borrow n m s c"
proof (cases "is_synthetic n")
  case True
  then show thesis using that(1) by (simp add: try_mutable_borrow_def try_immutable_borrow_def)
next
  case False
  show thesis
  proof (cases m)
    case True
    then show thesis
      using that(2,3) False by (cases "active_borrows c n") (auto simp: try_mutable_borrow_def)
  next
    case shared: False
    show thesis
    proof (cases "find bi_mutable (active_borrows c n)")
      case None
      then show thesis using that(3) False shared by (simp add: try_immutable_borrow_def)
    next
      case (Some b)
      then have "active_borrows c n \<noteq> []" by auto
      then show thesis using that(2) False shared Some by (simp add: try_immutable_borrow_def)
    qed
  qed
qed

lemma traced_event:
  assumes "traced_borrows E c"
  shows "traced_borrows (insert ev E) (run_event ev c)"
proof (cases ev)
  case (BvUse m n s)
  show ?thesis
    unfolding BvUse
    by (rule run_use_cases [of m n s c]) (use assms in \<open>auto simp: traced_borrows_def\<close>)
qed (use assms in \<open>fastforce simp: traced_borrows_def\<close>)+

lemma traced_run: "traced_borrows E c \<Longrightarrow> traced_borrows (E \<union> set es) (fold run_event es c)"
proof (induction es arbitrary: E c)
  case (Cons ev es)
  then show ?case using traced_event [of E c ev] Cons.IH [of "insert ev E" "run_event ev c"] by simp
qed simp

lemma use_holds:
  assumes "traced_borrows E c" "\<not> is_synthetic x"
  shows "held x (bc_depth c) (run_event (BvUse m x s) c) \<and> bc_depth (run_event (BvUse m x s) c) = bc_depth c"
proof (rule run_use_cases [of m x s c])
  fix e assume "run_event (BvUse m x s) c = report_borrow e c" "active_borrows c x \<noteq> []"
  moreover from this obtain b where "b \<in> set (active_borrows c x)" by (cases "active_borrows c x") auto
  ultimately show ?thesis using assms(1) by (auto simp: held_def traced_borrows_def simp del: run_event.simps)
qed (use assms(2) in \<open>auto simp: held_def simp del: run_event.simps\<close>)

lemma held_run:
  "held x k c \<Longrightarrow> bc_depth c = k + d \<Longrightarrow> stays_inside d es \<Longrightarrow> BvForget x \<notin> set es \<Longrightarrow> held x k (fold run_event es c)"
proof (induction d es arbitrary: c rule: stays_inside.induct)
  case (3 d es)
  then obtain j where j: "d = Suc j" "stays_inside j es" by (auto split: nat.splits)
  have "held x k (borrow_exit c)" using 3(2,3) j(1) by (auto simp: held_def)
  then show ?case using 3(1) [OF j(1), of "borrow_exit c"] 3(3,5) j by simp
next
  case (4 d m n s es)
  have "held x k (run_event (BvUse m n s) c) \<and> bc_depth (run_event (BvUse m n s) c) = bc_depth c"
    by (rule run_use_cases [of m n s c]) (use 4 in \<open>auto simp: held_def\<close>)
  then show ?case using 4 by simp
qed (auto simp: held_def)

lemma run_errors: "set (bc_errors c) \<subseteq> set (bc_errors (fold run_event es c))"
proof (induction es arbitrary: c)
  case (Cons ev es)
  have "set (bc_errors c) \<subseteq> set (bc_errors (run_event ev c))"
  proof (cases ev)
    case (BvUse m n s)
    show ?thesis unfolding BvUse by (rule run_use_cases [of m n s c]) auto
  qed simp_all
  then show ?case using Cons [of "run_event ev c"] by simp
qed simp

lemma borrow_function_run:
  "borrow_function f c = fold run_event (function_trace f) (c\<lparr>bc_active := Map.empty, bc_depth := 0\<rparr>)"
  unfolding borrow_function_def function_trace_def using checking_is_a_run(3) by (intro run_concat) blast

lemma conflict_is_reported:
  assumes "traced_borrows {} c" "\<not> is_synthetic x" "stays_inside 0 mid" "BvForget x \<notin> set mid"
  shows "\<exists>s0 m0. concurrent_mut x s0 s2 \<in> set (bc_errors (fold run_event (us @ BvUse m x s1 # mid @ BvUse True x s2 # vs) c)) \<and>
    BvUse m0 x s0 \<in> set (us @ BvUse m x s1 # mid)"
proof -
  let ?d = "fold run_event us c"
  let ?e = "fold run_event (us @ BvUse m x s1 # mid) c"
  have "traced_borrows (set us) ?d" using traced_run [OF assms(1), of us] by simp
  from use_holds [OF this assms(2), where m = m and s = s1] have "held x (bc_depth ?d) ?e"
    using held_run [OF _ _ assms(3,4), where k = "bc_depth ?d" and c = "run_event (BvUse m x s1) ?d"] by simp
  then obtain b bs where b: "active_borrows ?e x = b # bs"
    by (cases "active_borrows ?e x") (auto simp: held_def)
  have "traced_borrows (set (us @ BvUse m x s1 # mid)) ?e"
    using traced_run [OF assms(1), of "us @ BvUse m x s1 # mid"] by simp
  then have "\<exists>m0. BvUse m0 x (bi_span b) \<in> set (us @ BvUse m x s1 # mid)"
    unfolding traced_borrows_def using b by (metis list.set_intros(1))
  then obtain m0 where "BvUse m0 x (bi_span b) \<in> set (us @ BvUse m x s1 # mid)" ..
  moreover have "concurrent_mut x (bi_span b) s2 \<in> set (bc_errors (run_event (BvUse True x s2) ?e))"
    using conflicting_use_reports [OF b assms(2)] by simp
  then have "concurrent_mut x (bi_span b) s2 \<in> set (bc_errors (fold run_event vs (run_event (BvUse True x s2) ?e)))"
    using run_errors by blast
  ultimately show ?thesis by auto
qed

text \<open>C18. A program is rejected when some function of it uses or borrows a variable and later, before the scope
  of that use is left and the name bound or assigned again, borrows it mutably; the error names the variable, an
  earlier use of it and the place of the mutable borrow. Only the compiler's own variables, whose names begin with
  two underscores, are exempt.\<close>
theorem conflicting_borrow_is_rejected:
  assumes "IFunction f \<in> set (hpr_items p)"
    and "function_trace f = us @ BvUse m x s1 # mid @ BvUse True x s2 # vs"
    and "stays_inside 0 mid" and "BvForget x \<notin> set mid" and "take 2 x \<noteq> ascii ''__''"
  shows "\<exists>errors s0 m0. check_borrows p c = Inl errors \<and>
    \<lparr>be_kind = ConcurrentMutableBorrow x s0, be_span = s2\<rparr> \<in> set errors \<and>
    BvUse m0 x s0 \<in> set (us @ BvUse m x s1 # mid)"
proof -
  obtain earlier later where items: "hpr_items p = earlier @ IFunction f # later"
    using assms(1) by (meson split_list)
  let ?c = "(fold borrow_item earlier c)\<lparr>bc_active := Map.empty, bc_depth := 0\<rparr>"
  have "traced_borrows {} ?c" by (simp add: traced_borrows_def active_borrows_def)
  from conflict_is_reported [OF this _ assms(3,4)] obtain s0 m0
    where found: "concurrent_mut x s0 s2 \<in> set (bc_errors (borrow_function f (fold borrow_item earlier c)))"
      "BvUse m0 x s0 \<in> set (us @ BvUse m x s1 # mid)"
    using assms(5) unfolding borrow_function_run assms(2) is_synthetic_def by blast
  then have "concurrent_mut x s0 s2 \<in> set (bc_errors (fold borrow_item (hpr_items p) c))"
    using errors_of_later_items by (fastforce simp: items borrow_item_def)
  then show ?thesis using found(2) by (auto simp: check_borrows_def concurrent_mut_def Let_def)
qed

text \<open>Only a mutable borrow can be in conflict: a program with none is accepted.\<close>
theorem shared_borrows_are_accepted:
  assumes "\<forall>f. IFunction f \<in> set (hpr_items p) \<longrightarrow> (\<forall>st\<in>set (hf_body f). \<not> mutating_stmt st)"
  shows "check_borrows p new_borrow_checker = Inr ()"
proof -
  have item: "bc_errors (borrow_item i c) = bc_errors c" if "i \<in> set (hpr_items p)" for i c
  proof (cases i)
    case (IFunction f)
    have "stays_quiet (c\<lparr>bc_active := Map.empty, bc_depth := 0\<rparr>) (borrow_function f c)"
      unfolding borrow_function_def using assms that IFunction by (intro silence.stmts_keep) blast
    then show ?thesis by (simp add: IFunction borrow_item_def stays_quiet_def active_borrows_def)
  qed (simp_all add: borrow_item_def)
  have "bc_errors (fold borrow_item is c) = bc_errors c" if "set is \<subseteq> set (hpr_items p)" for "is" c
    using that item by (induction "is" arbitrary: c) auto
  then show ?thesis by (simp add: check_borrows_def new_borrow_checker_def Let_def)
qed

section \<open>Examples\<close>

definition sample_local :: "ustr \<Rightarrow> hir_expr" where
  "sample_local x = HirExpr (HLocal x) None (new_span 0 7 8)"

definition sample_program :: "hir_stmt list \<Rightarrow> hir_program" where
  "sample_program body = \<lparr>hpr_items = [IFunction \<lparr>hf_name = [], hf_type_params = [], hf_params = [], hf_return_type = None,
     hf_error_type = None, hf_body = body, hf_decorators = [], hf_is_async = False, hf_span = empty_span\<rparr>],
     hpr_span = empty_span\<rparr>"

definition sample_use :: hir_stmt where
  "sample_use = HirStmt (SExpr (sample_local [120])) empty_span"

definition sample_mutation :: hir_stmt where
  "sample_mutation = HirStmt (SExpr (HirExpr (HBorrow (sample_local [120]) True) None empty_span)) empty_span"

theorem conflicting_borrow_is_rejected_witness:
  "\<exists>errors s0. check_borrows (sample_program [sample_use, sample_mutation]) new_borrow_checker = Inl errors \<and>
     \<lparr>be_kind = ConcurrentMutableBorrow [120] s0, be_span = new_span 0 7 8\<rparr> \<in> set errors"
proof -
  let ?f = "\<lparr>hf_name = [], hf_type_params = [], hf_params = [], hf_return_type = None, hf_error_type = None,
     hf_body = [sample_use, sample_mutation], hf_decorators = [], hf_is_async = False, hf_span = empty_span\<rparr>"
  have "function_trace ?f = [] @ BvUse False [120] (new_span 0 7 8) # [] @ BvUse True [120] (new_span 0 7 8) # []"
    by (simp add: function_trace_def sample_use_def sample_mutation_def sample_local_def)
  from conflicting_borrow_is_rejected [OF _ this, of "sample_program [sample_use, sample_mutation]" new_borrow_checker]
  show ?thesis by (auto simp: sample_program_def ascii_def)
qed

theorem shared_borrows_are_accepted_witness:
  "check_borrows (sample_program [sample_use, sample_use]) new_borrow_checker = Inr ()"
  by (rule shared_borrows_are_accepted) (auto simp: sample_program_def sample_use_def sample_local_def)

end
