(* ===== verification/Own_Ownership.thy ===== *)
theory Own_Ownership
  imports Hir_Types
begin

text \<open>
  The ownership analysis (\<open>doo_analysis/src/ownership/mod.rs\<close>): a first pass over a function notes
  where each variable is used, a second one decides for each use whether the value is moved, copied,
  cloned or borrowed.
\<close>

section \<open>Decisions and results\<close>

datatype decision = DMove | DCopy | DClone | DBorrow bool

record use_location =
  ul_name :: ustr
  ul_span :: src_span

definition new_use_location :: "ustr \<Rightarrow> src_span \<Rightarrow> use_location" where
  "new_use_location n s = \<lparr>ul_name = n, ul_span = s\<rparr>"

type_synonym ownership_results = "use_location \<rightharpoonup> decision"

definition new_ownership_results :: ownership_results where
  "new_ownership_results = Map.empty"

definition record_decision :: "ustr \<Rightarrow> src_span \<Rightarrow> decision \<Rightarrow> ownership_results \<Rightarrow> ownership_results" where
  "record_decision n s d r = r(new_use_location n s \<mapsto> d)"

definition get_decision :: "ownership_results \<Rightarrow> ustr \<Rightarrow> src_span \<Rightarrow> decision option" where
  "get_decision r n s = r (new_use_location n s)"

text \<open>By name, the first location in the order in which the hash map is iterated.\<close>

definition get_decision_by_name :: "use_location list \<Rightarrow> ownership_results \<Rightarrow> ustr \<Rightarrow> decision option" where
  "get_decision_by_name order r n = Option.bind (find (\<lambda>l. ul_name l = n) order) r"

section \<open>The analyzer\<close>

record ownership_error =
  oe_message :: ustr
  oe_span :: src_span

record var_info =
  vi_uses :: "src_span list"
  vi_type :: "tid option"
  vi_mutable :: bool
  vi_ownership :: hir_ownership

record ownership_analyzer =
  oa_vars :: "ustr \<rightharpoonup> var_info"
  oa_idx :: nat
  oa_errors :: "ownership_error list"
  oa_results :: ownership_results

definition new_ownership_analyzer :: ownership_analyzer where
  "new_ownership_analyzer =
     \<lparr>oa_vars = Map.empty, oa_idx = 0, oa_errors = [], oa_results = new_ownership_results\<rparr>"

definition register_var :: "ustr \<Rightarrow> tid option \<Rightarrow> bool \<Rightarrow> ownership_analyzer \<Rightarrow> ownership_analyzer" where
  "register_var n t m a =
     a\<lparr>oa_vars := (oa_vars a)(n \<mapsto> \<lparr>vi_uses = [], vi_type = t, vi_mutable = m, vi_ownership = Owned\<rparr>)\<rparr>"

definition next_stmt :: "ownership_analyzer \<Rightarrow> ownership_analyzer" where
  "next_stmt a = a\<lparr>oa_idx := oa_idx a + 1\<rparr>"

subsection \<open>Counting uses\<close>

definition count_use :: "ustr \<Rightarrow> src_span \<Rightarrow> ownership_analyzer \<Rightarrow> ownership_analyzer" where
  "count_use n s a =
     (case oa_vars a n of
        Some info \<Rightarrow> a\<lparr>oa_vars := (oa_vars a)(n \<mapsto> info\<lparr>vi_uses := vi_uses info @ [s]\<rparr>)\<rparr>
      | None \<Rightarrow> a)"

text \<open>The names a tuple unpacks to, each with the type at its index, if there is one.\<close>

fun tuple_bindings :: "ustr list \<Rightarrow> tid option list \<Rightarrow> (ustr \<times> tid option) list" where
  "tuple_bindings [] ts = []"
| "tuple_bindings (n # ns) [] = (n, None) # tuple_bindings ns []"
| "tuple_bindings (n # ns) (t # ts) = (n, t) # tuple_bindings ns ts"

definition register_named :: "ustr \<Rightarrow> ownership_analyzer \<Rightarrow> ownership_analyzer" where
  "register_named n a = (if n \<noteq> ascii ''_'' then register_var n None False a else a)"

function count_uses_expr :: "hir_expr \<Rightarrow> ownership_analyzer \<Rightarrow> ownership_analyzer"
  and count_uses_stmt :: "hir_stmt \<Rightarrow> ownership_analyzer \<Rightarrow> ownership_analyzer"
  and count_uses_pattern :: "hir_match_pattern \<Rightarrow> ownership_analyzer \<Rightarrow> ownership_analyzer"
where
  "count_uses_expr (HirExpr kind t s) a =
    (case kind of
      HLocal name \<Rightarrow> count_use name s a
    | HBinOp _ l r \<Rightarrow> count_uses_expr r (count_uses_expr l a)
    | HUnaryOp _ e \<Rightarrow> count_uses_expr e a
    | HCall f args \<Rightarrow> fold count_uses_expr args (count_uses_expr f a)
    | HMethodCall e _ args \<Rightarrow> fold count_uses_expr args (count_uses_expr e a)
    | HField e _ \<Rightarrow> count_uses_expr e a
    | HIndex e i \<Rightarrow> count_uses_expr i (count_uses_expr e a)
    | HArray es \<Rightarrow> fold count_uses_expr es a
    | HTuple es \<Rightarrow> fold count_uses_expr es a
    | HMap kvs \<Rightarrow> fold (\<lambda>(k, v) a. count_uses_expr v (count_uses_expr k a)) kvs a
    | HStruct _ fs \<Rightarrow> fold (\<lambda>(_, v) a. count_uses_expr v a) fs a
    | HEnumVariant _ _ es \<Rightarrow> fold count_uses_expr es a
    | HIf cond x y \<Rightarrow>
        (let a = count_uses_expr x (count_uses_expr cond a)
         in case y of Some e \<Rightarrow> count_uses_expr e a | None \<Rightarrow> a)
    | HMatch vs arms \<Rightarrow>
        fold (\<lambda>arm a.
            case arm of HirMatchArm p g body _ \<Rightarrow>
              (let a = count_uses_pattern p a; a = (case g of Some e \<Rightarrow> count_uses_expr e a | None \<Rightarrow> a)
               in count_uses_expr body a))
          arms (fold count_uses_expr vs a)
    | HBlock ss e \<Rightarrow>
        (let a = fold count_uses_stmt ss a in case e of Some e \<Rightarrow> count_uses_expr e a | None \<Rightarrow> a)
    | HRange x y _ \<Rightarrow> count_uses_expr y (count_uses_expr x a)
    | HOk e \<Rightarrow> count_uses_expr e a
    | HErr e \<Rightarrow> count_uses_expr e a
    | HTry e \<Rightarrow> count_uses_expr e a
    | HMove e \<Rightarrow> count_uses_expr e a
    | HClone e \<Rightarrow> count_uses_expr e a
    | HUnwrapOrPanic e m \<Rightarrow> count_uses_expr m (count_uses_expr e a)
    | HBorrow e _ \<Rightarrow> count_uses_expr e a
    | HClosure _ _ \<Rightarrow> a
    | HSpread e \<Rightarrow> count_uses_expr e a
    | HRouteBlock es \<Rightarrow> fold count_uses_expr es a
    | HCast e _ \<Rightarrow> count_uses_expr e a
    | HAwait e \<Rightarrow> count_uses_expr e a
    | HSpawn e \<Rightarrow> count_uses_expr e a
    | HScopeBlock ss \<Rightarrow> fold count_uses_stmt ss a
    | HConst _ \<Rightarrow> a
    | HGlobal _ \<Rightarrow> a)"
| "count_uses_stmt (HirStmt kind s) a =
    (case kind of
      SLet name t v m _ \<Rightarrow> count_uses_expr v (register_var name t m a)
    | STupleLet names ts v m \<Rightarrow>
        count_uses_expr v (fold (\<lambda>(n, t). register_var n t m) (tuple_bindings names ts) a)
    | SManualErrorExtract names err e \<Rightarrow> count_uses_expr e (register_named err (fold register_named names a))
    | SAssign target v \<Rightarrow> count_uses_expr v (count_uses_expr target a)
    | SExpr e \<Rightarrow> count_uses_expr e a
    | SReturn es \<Rightarrow> fold count_uses_expr es a
    | SIf cond x y \<Rightarrow>
        (let a = fold count_uses_stmt x (count_uses_expr cond a)
         in case y of Some ss \<Rightarrow> fold count_uses_stmt ss a | None \<Rightarrow> a)
    | SWhile cond body inc \<Rightarrow> fold count_uses_stmt inc (fold count_uses_stmt body (count_uses_expr cond a))
    | SBreak \<Rightarrow> a
    | SContinue \<Rightarrow> a
    | SDrop _ \<Rightarrow> a)"
| "count_uses_pattern p a =
    (case p of
      PLiteral e \<Rightarrow> count_uses_expr e a
    | PCondition e \<Rightarrow> count_uses_expr e a
    | PWildcard \<Rightarrow> a
    | PEnumVariant _ _ \<Rightarrow> a
    | PEnumVariantPayload _ _ _ \<Rightarrow> a
    | PTuple ps \<Rightarrow> fold count_uses_pattern ps a)"
  by pat_completeness auto
termination
  by (relation "measure (\<lambda>a. case a of
        Inl (e, c) \<Rightarrow> size e | Inr (Inl (s, c)) \<Rightarrow> size s | Inr (Inr (p, c)) \<Rightarrow> size p)")
    (auto simp: termination_simp)

declare count_uses_pattern.simps [simp del]

subsection \<open>Deciding\<close>

definition is_copy_type :: "tid option \<Rightarrow> bool" where
  "is_copy_type t \<longleftrightarrow>
     (case t of Some i \<Rightarrow> i = ty_int \<or> i = ty_float \<or> i = ty_bool \<or> i = ty_void | None \<Rightarrow> False)"

definition is_mutating_method :: "ustr \<Rightarrow> bool" where
  "is_mutating_method m \<longleftrightarrow>
     m \<in> {ascii ''push'', ascii ''pop'', ascii ''sort'', ascii ''reverse'', ascii ''clear'', ascii ''remove''}"

definition record_use :: "ustr \<Rightarrow> src_span \<Rightarrow> decision \<Rightarrow> ownership_analyzer \<Rightarrow> ownership_analyzer" where
  "record_use n s d a = a\<lparr>oa_results := record_decision n s d (oa_results a)\<rparr>"

definition decide_use :: "ustr \<Rightarrow> src_span \<Rightarrow> ownership_analyzer \<Rightarrow> decision \<times> ownership_analyzer" where
  "decide_use n s a =
     (case oa_vars a n of
        None \<Rightarrow> (DMove, record_use n s DMove a)
      | Some info \<Rightarrow>
          (let future_uses = length (filter (\<lambda>u. sp_start s < sp_start u) (vi_uses info));
               d = (if future_uses = 0 then DMove else if is_copy_type (vi_type info) then DCopy else DClone)
           in (d, record_use n s d a)))"

definition check_assignable :: "hir_expr \<Rightarrow> src_span \<Rightarrow> ownership_analyzer \<Rightarrow> ownership_analyzer" where
  "check_assignable target s a =
     (case he_kind target of
        HLocal name \<Rightarrow>
          (case oa_vars a name of
             Some info \<Rightarrow>
               if \<not> vi_mutable info
               then a\<lparr>oa_errors := oa_errors a @ [\<lparr>oe_message =
                  ascii ''Cannot assign to immutable variable '' @ [39] @ name @ [39], oe_span = s\<rparr>]\<rparr>
               else a
           | None \<Rightarrow> a)
      | _ \<Rightarrow> a)"

function analyze_expr :: "hir_expr \<Rightarrow> ownership_analyzer \<Rightarrow> ownership_analyzer"
  and analyze_stmt :: "hir_stmt \<Rightarrow> ownership_analyzer \<Rightarrow> ownership_analyzer"
  and analyze_pattern :: "hir_match_pattern \<Rightarrow> ownership_analyzer \<Rightarrow> ownership_analyzer"
where
  "analyze_expr (HirExpr kind t s) a =
    (case kind of
      HLocal name \<Rightarrow> snd (decide_use name s a)
    | HBinOp _ l r \<Rightarrow> analyze_expr r (analyze_expr l a)
    | HUnaryOp _ e \<Rightarrow> analyze_expr e a
    | HCall f args \<Rightarrow> fold analyze_expr args (analyze_expr f a)
    | HMethodCall e _ args \<Rightarrow>
        fold analyze_expr args
          (case he_kind e of HLocal name \<Rightarrow> record_use name (he_span e) (DBorrow True) a | _ \<Rightarrow> analyze_expr e a)
    | HField e _ \<Rightarrow>
        (case he_kind e of HLocal name \<Rightarrow> record_use name (he_span e) (DBorrow False) a | _ \<Rightarrow> analyze_expr e a)
    | HIndex e i \<Rightarrow>
        analyze_expr i
          (case he_kind e of HLocal name \<Rightarrow> record_use name (he_span e) (DBorrow False) a | _ \<Rightarrow> analyze_expr e a)
    | HArray es \<Rightarrow> fold analyze_expr es a
    | HTuple es \<Rightarrow> fold analyze_expr es a
    | HMap kvs \<Rightarrow> fold (\<lambda>(k, v) a. analyze_expr v (analyze_expr k a)) kvs a
    | HStruct _ fs \<Rightarrow> fold (\<lambda>(_, v) a. analyze_expr v a) fs a
    | HEnumVariant _ _ es \<Rightarrow> fold analyze_expr es a
    | HIf cond x y \<Rightarrow>
        (let a = analyze_expr x (analyze_expr cond a) in case y of Some e \<Rightarrow> analyze_expr e a | None \<Rightarrow> a)
    | HMatch vs arms \<Rightarrow>
        fold (\<lambda>arm a.
            case arm of HirMatchArm p g body _ \<Rightarrow>
              (let a = analyze_pattern p a; a = (case g of Some e \<Rightarrow> analyze_expr e a | None \<Rightarrow> a)
               in analyze_expr body a))
          arms (fold analyze_expr vs a)
    | HBlock ss e \<Rightarrow>
        (let a = fold analyze_stmt ss a in case e of Some e \<Rightarrow> analyze_expr e a | None \<Rightarrow> a)
    | HRange x y _ \<Rightarrow> analyze_expr y (analyze_expr x a)
    | HOk e \<Rightarrow> analyze_expr e a
    | HErr e \<Rightarrow> analyze_expr e a
    | HTry e \<Rightarrow> analyze_expr e a
    | HMove e \<Rightarrow> analyze_expr e a
    | HClone e \<Rightarrow> analyze_expr e a
    | HUnwrapOrPanic e m \<Rightarrow> analyze_expr m (analyze_expr e a)
    | HBorrow e _ \<Rightarrow> analyze_expr e a
    | HClosure _ _ \<Rightarrow> a
    | HSpread e \<Rightarrow> analyze_expr e a
    | HRouteBlock es \<Rightarrow> fold analyze_expr es a
    | HCast e _ \<Rightarrow> analyze_expr e a
    | HAwait e \<Rightarrow> analyze_expr e a
    | HSpawn e \<Rightarrow> analyze_expr e a
    | HScopeBlock ss \<Rightarrow> fold analyze_stmt ss a
    | HConst _ \<Rightarrow> a
    | HGlobal _ \<Rightarrow> a)"
| "analyze_stmt (HirStmt kind s) a =
    (case kind of
      SLet _ _ v _ _ \<Rightarrow> analyze_expr v a
    | STupleLet _ _ v _ \<Rightarrow> analyze_expr v a
    | SManualErrorExtract _ _ e \<Rightarrow> analyze_expr e a
    | SAssign target v \<Rightarrow> analyze_expr v (check_assignable target s a)
    | SExpr e \<Rightarrow> analyze_expr e a
    | SReturn es \<Rightarrow> fold analyze_expr es a
    | SIf cond x y \<Rightarrow>
        (let a = fold analyze_stmt x (analyze_expr cond a)
         in case y of Some ss \<Rightarrow> fold analyze_stmt ss a | None \<Rightarrow> a)
    | SWhile cond body inc \<Rightarrow> fold analyze_stmt inc (fold analyze_stmt body (analyze_expr cond a))
    | SBreak \<Rightarrow> a
    | SContinue \<Rightarrow> a
    | SDrop _ \<Rightarrow> a)"
| "analyze_pattern p a =
    (case p of
      PLiteral e \<Rightarrow> analyze_expr e a
    | PCondition e \<Rightarrow> analyze_expr e a
    | PWildcard \<Rightarrow> a
    | PEnumVariant _ _ \<Rightarrow> a
    | PEnumVariantPayload _ _ _ \<Rightarrow> a
    | PTuple ps \<Rightarrow> fold analyze_pattern ps a)"
  by pat_completeness auto
termination
  by (relation "measure (\<lambda>a. case a of
        Inl (e, c) \<Rightarrow> size e | Inr (Inl (s, c)) \<Rightarrow> size s | Inr (Inr (p, c)) \<Rightarrow> size p)")
    (auto simp: termination_simp)

declare analyze_pattern.simps [simp del]

section \<open>Functions and programs\<close>

definition register_param :: "hir_param \<Rightarrow> ownership_analyzer \<Rightarrow> ownership_analyzer" where
  "register_param p a = register_var (hp_name p) (hp_type p) (hp_name p = ascii ''self'') a"

definition analyze_hir_function :: "hir_function \<Rightarrow> ownership_analyzer \<Rightarrow> ownership_analyzer" where
  "analyze_hir_function f a =
     (let a = a\<lparr>oa_vars := Map.empty, oa_idx := 0\<rparr>;
          a = fold register_param (hf_params f) a;
          a = fold (\<lambda>s a. next_stmt (count_uses_stmt s a)) (hf_body f) a;
          a = a\<lparr>oa_idx := 0\<rparr>
      in fold (\<lambda>s a. next_stmt (analyze_stmt s a)) (hf_body f) a)"

definition analyze_item :: "hir_item \<Rightarrow> ownership_analyzer \<Rightarrow> ownership_analyzer" where
  "analyze_item item a = (case item of IFunction f \<Rightarrow> analyze_hir_function f a | _ \<Rightarrow> a)"

definition analyze_ownership ::
    "hir_program \<Rightarrow> ownership_analyzer \<Rightarrow> (ownership_error list, ownership_results) sum \<times> ownership_analyzer" where
  "analyze_ownership p a =
     (let a = fold analyze_item (hpr_items p) a
      in (if oa_errors a = [] then Inr (oa_results a) else Inl (oa_errors a), a))"

definition take_results :: "ownership_analyzer \<Rightarrow> ownership_results \<times> ownership_analyzer" where
  "take_results a = (oa_results a, a\<lparr>oa_results := new_ownership_results\<rparr>)"

end
