(* ===== verification/Hir_Subterms.thy ===== *)
theory Hir_Subterms
  imports Hir_Types
begin

text \<open>
  What a piece of the high-level representation contains: every expression and statement in it, itself
  included, without exception (receivers, payloads, patterns, guards, closures and spawned bodies too). The
  walks of the analyses and of the extraction are compared with it.
\<close>

section \<open>Everything inside an expression, a statement or a pattern\<close>

type_synonym hir_term = "hir_expr + hir_stmt"

function terms_expr :: "hir_expr \<Rightarrow> hir_term set"
  and terms_stmt :: "hir_stmt \<Rightarrow> hir_term set"
  and terms_pattern :: "hir_match_pattern \<Rightarrow> hir_term set"
where
  "terms_expr (HirExpr kind t s) = insert (Inl (HirExpr kind t s))
    (case kind of
      HBinOp _ l r \<Rightarrow> terms_expr l \<union> terms_expr r
    | HUnaryOp _ e \<Rightarrow> terms_expr e
    | HCall f args \<Rightarrow> terms_expr f \<union> (\<Union>e\<in>set args. terms_expr e)
    | HMethodCall e _ args \<Rightarrow> terms_expr e \<union> (\<Union>e\<in>set args. terms_expr e)
    | HField e _ \<Rightarrow> terms_expr e
    | HIndex e i \<Rightarrow> terms_expr e \<union> terms_expr i
    | HArray es \<Rightarrow> \<Union>e\<in>set es. terms_expr e
    | HTuple es \<Rightarrow> \<Union>e\<in>set es. terms_expr e
    | HMap kvs \<Rightarrow> \<Union>kv\<in>set kvs. terms_expr (fst kv) \<union> terms_expr (snd kv)
    | HStruct _ fs \<Rightarrow> \<Union>f\<in>set fs. terms_expr (snd f)
    | HEnumVariant _ _ es \<Rightarrow> \<Union>e\<in>set es. terms_expr e
    | HIf cond x y \<Rightarrow> terms_expr cond \<union> terms_expr x \<union> (case y of Some e \<Rightarrow> terms_expr e | None \<Rightarrow> {})
    | HBlock ss e \<Rightarrow> (\<Union>s\<in>set ss. terms_stmt s) \<union> (case e of Some e \<Rightarrow> terms_expr e | None \<Rightarrow> {})
    | HMatch vs arms \<Rightarrow>
        (\<Union>e\<in>set vs. terms_expr e) \<union>
        (\<Union>arm\<in>set arms. case arm of HirMatchArm p g body _ \<Rightarrow>
           terms_pattern p \<union> (case g of Some e \<Rightarrow> terms_expr e | None \<Rightarrow> {}) \<union> terms_expr body)
    | HRange x y _ \<Rightarrow> terms_expr x \<union> terms_expr y
    | HOk e \<Rightarrow> terms_expr e
    | HErr e \<Rightarrow> terms_expr e
    | HTry e \<Rightarrow> terms_expr e
    | HMove e \<Rightarrow> terms_expr e
    | HClone e \<Rightarrow> terms_expr e
    | HBorrow e _ \<Rightarrow> terms_expr e
    | HAwait e \<Rightarrow> terms_expr e
    | HSpread e \<Rightarrow> terms_expr e
    | HUnwrapOrPanic e m \<Rightarrow> terms_expr e \<union> terms_expr m
    | HCast e _ \<Rightarrow> terms_expr e
    | HRouteBlock es \<Rightarrow> \<Union>e\<in>set es. terms_expr e
    | HScopeBlock ss \<Rightarrow> \<Union>s\<in>set ss. terms_stmt s
    | HSpawn e \<Rightarrow> terms_expr e
    | HClosure _ e \<Rightarrow> terms_expr e
    | HLocal _ \<Rightarrow> {}
    | HConst _ \<Rightarrow> {}
    | HGlobal _ \<Rightarrow> {})"
| "terms_stmt (HirStmt kind s) = insert (Inr (HirStmt kind s))
    (case kind of
      SLet _ _ v _ _ \<Rightarrow> terms_expr v
    | STupleLet _ _ v _ \<Rightarrow> terms_expr v
    | SAssign target v \<Rightarrow> terms_expr target \<union> terms_expr v
    | SExpr e \<Rightarrow> terms_expr e
    | SReturn es \<Rightarrow> \<Union>e\<in>set es. terms_expr e
    | SIf cond x y \<Rightarrow>
        terms_expr cond \<union> (\<Union>s\<in>set x. terms_stmt s) \<union> (case y of Some ss \<Rightarrow> \<Union>s\<in>set ss. terms_stmt s | None \<Rightarrow> {})
    | SWhile cond body inc \<Rightarrow> terms_expr cond \<union> (\<Union>s\<in>set body. terms_stmt s) \<union> (\<Union>s\<in>set inc. terms_stmt s)
    | SManualErrorExtract _ _ e \<Rightarrow> terms_expr e
    | SBreak \<Rightarrow> {}
    | SContinue \<Rightarrow> {}
    | SDrop _ \<Rightarrow> {})"
| "terms_pattern p =
    (case p of
      PLiteral e \<Rightarrow> terms_expr e
    | PCondition e \<Rightarrow> terms_expr e
    | PWildcard \<Rightarrow> {}
    | PEnumVariant _ _ \<Rightarrow> {}
    | PEnumVariantPayload _ _ _ \<Rightarrow> {}
    | PTuple ps \<Rightarrow> \<Union>p\<in>set ps. terms_pattern p)"
  by pat_completeness auto
termination
  by (relation "measure (\<lambda>a. case a of Inl e \<Rightarrow> size e | Inr (Inl s) \<Rightarrow> size s | Inr (Inr p) \<Rightarrow> size p)")
    (auto simp: termination_simp)

declare terms_pattern.simps [simp del]

definition terms_body :: "hir_stmt list \<Rightarrow> hir_term set" where
  "terms_body ss = (\<Union>s\<in>set ss. terms_stmt s)"

section \<open>Mentions of variables\<close>

text \<open>The mentions of variables with their spans, and the names alone.\<close>

definition mentions :: "hir_term set \<Rightarrow> (ustr \<times> src_span) set" where
  "mentions T = {(n, s). \<exists>t. Inl (HirExpr (HLocal n) t s) \<in> T}"

definition mentioned :: "hir_term set \<Rightarrow> ustr set" where
  "mentioned T = fst ` mentions T"

lemma mentions_simps [simp]:
  "mentions {} = {}"
  "mentions (A \<union> B) = mentions A \<union> mentions B"
  "mentions (\<Union>x\<in>I. f x) = (\<Union>x\<in>I. mentions (f x))"
  "mentions (insert (Inr st) A) = mentions A"
  "mentions (insert (Inl (HirExpr k t s)) A) = (case k of HLocal n \<Rightarrow> insert (n, s) (mentions A) | _ \<Rightarrow> mentions A)"
  by (auto simp: mentions_def split: hir_expr_kind.split)

lemma mentioned_simps [simp]:
  "mentioned {} = {}"
  "mentioned (A \<union> B) = mentioned A \<union> mentioned B"
  "mentioned (\<Union>x\<in>I. f x) = (\<Union>x\<in>I. mentioned (f x))"
  "mentioned (insert (Inr st) A) = mentioned A"
  "mentioned (insert (Inl (HirExpr k t s)) A) = (case k of HLocal n \<Rightarrow> insert n (mentioned A) | _ \<Rightarrow> mentioned A)"
  by (simp_all add: mentioned_def image_Un image_UN split: hir_expr_kind.split)

end
