(* ===== verification/Own_Uses.thy ===== *)
theory Own_Uses
  imports Own_Ownership Hir_Subterms
begin

text \<open>
  What the ownership analysis computes. Both of its passes are runs over one trace of the function,
  the bindings and uses in the order in which the source has them; on the trace a decision depends
  only on the uses that come later. The counterexamples at the end show where the order of the
  source is not the order of the program.
\<close>

section \<open>The trace of a function\<close>

datatype use_event =
    EvBind ustr "tid option" bool
  | EvUse ustr src_span
  | EvBorrow ustr src_span bool
  | EvCount ustr src_span
  | EvAssign ustr src_span

text \<open>The target of an assignment is counted, but no decision is made in it.\<close>

fun counted_only :: "use_event \<Rightarrow> use_event list" where
  "counted_only (EvBind n t m) = [EvBind n t m]"
| "counted_only (EvUse n s) = [EvCount n s]"
| "counted_only (EvBorrow n s m) = [EvCount n s]"
| "counted_only (EvCount n s) = [EvCount n s]"
| "counted_only (EvAssign n s) = []"

definition assign_events :: "hir_expr \<Rightarrow> src_span \<Rightarrow> use_event list" where
  "assign_events target s = (case he_kind target of HLocal n \<Rightarrow> [EvAssign n s] | _ \<Rightarrow> [])"

definition named_events :: "ustr \<Rightarrow> use_event list" where
  "named_events n = (if n \<noteq> ascii ''_'' then [EvBind n None False] else [])"

definition object_events :: "bool \<Rightarrow> hir_expr \<Rightarrow> use_event list \<Rightarrow> use_event list" where
  "object_events m e es = (case he_kind e of HLocal n \<Rightarrow> [EvBorrow n (he_span e) m] | _ \<Rightarrow> es)"

function events_expr :: "hir_expr \<Rightarrow> use_event list"
  and events_stmt :: "hir_stmt \<Rightarrow> use_event list"
  and events_pattern :: "hir_match_pattern \<Rightarrow> use_event list"
where
  "events_expr (HirExpr kind t s) =
    (case kind of
      HLocal name \<Rightarrow> [EvUse name s]
    | HBinOp _ l r \<Rightarrow> events_expr l @ events_expr r
    | HUnaryOp _ e \<Rightarrow> events_expr e
    | HCall f args \<Rightarrow> events_expr f @ concat (map events_expr args)
    | HMethodCall e _ args \<Rightarrow> object_events True e (events_expr e) @ concat (map events_expr args)
    | HField e _ \<Rightarrow> object_events False e (events_expr e)
    | HIndex e i \<Rightarrow> object_events False e (events_expr e) @ events_expr i
    | HArray es \<Rightarrow> concat (map events_expr es)
    | HTuple es \<Rightarrow> concat (map events_expr es)
    | HMap kvs \<Rightarrow> concat (map (\<lambda>(k, v). events_expr k @ events_expr v) kvs)
    | HStruct _ fs \<Rightarrow> concat (map (\<lambda>(_, v). events_expr v) fs)
    | HEnumVariant _ _ es \<Rightarrow> concat (map events_expr es)
    | HIf cond x y \<Rightarrow>
        events_expr cond @ events_expr x @ (case y of Some e \<Rightarrow> events_expr e | None \<Rightarrow> [])
    | HMatch vs arms \<Rightarrow>
        concat (map events_expr vs) @
        concat (map (\<lambda>arm. case arm of HirMatchArm p g body _ \<Rightarrow>
          events_pattern p @ (case g of Some e \<Rightarrow> events_expr e | None \<Rightarrow> []) @ events_expr body) arms)
    | HBlock ss e \<Rightarrow> concat (map events_stmt ss) @ (case e of Some e \<Rightarrow> events_expr e | None \<Rightarrow> [])
    | HRange x y _ \<Rightarrow> events_expr x @ events_expr y
    | HOk e \<Rightarrow> events_expr e
    | HErr e \<Rightarrow> events_expr e
    | HTry e \<Rightarrow> events_expr e
    | HMove e \<Rightarrow> events_expr e
    | HClone e \<Rightarrow> events_expr e
    | HUnwrapOrPanic e m \<Rightarrow> events_expr e @ events_expr m
    | HBorrow e _ \<Rightarrow> events_expr e
    | HClosure _ _ \<Rightarrow> []
    | HSpread e \<Rightarrow> events_expr e
    | HRouteBlock es \<Rightarrow> concat (map events_expr es)
    | HCast e _ \<Rightarrow> events_expr e
    | HAwait e \<Rightarrow> events_expr e
    | HSpawn e \<Rightarrow> events_expr e
    | HScopeBlock ss \<Rightarrow> concat (map events_stmt ss)
    | HConst _ \<Rightarrow> []
    | HGlobal _ \<Rightarrow> [])"
| "events_stmt (HirStmt kind s) =
    (case kind of
      SLet name t v m _ \<Rightarrow> EvBind name t m # events_expr v
    | STupleLet names ts v m \<Rightarrow> map (\<lambda>(n, t). EvBind n t m) (tuple_bindings names ts) @ events_expr v
    | SManualErrorExtract names err e \<Rightarrow> concat (map named_events names) @ named_events err @ events_expr e
    | SAssign target v \<Rightarrow> concat (map counted_only (events_expr target)) @ assign_events target s @ events_expr v
    | SExpr e \<Rightarrow> events_expr e
    | SReturn es \<Rightarrow> concat (map events_expr es)
    | SIf cond x y \<Rightarrow>
        events_expr cond @ concat (map events_stmt x) @
        (case y of Some ss \<Rightarrow> concat (map events_stmt ss) | None \<Rightarrow> [])
    | SWhile cond body inc \<Rightarrow> events_expr cond @ concat (map events_stmt body) @ concat (map events_stmt inc)
    | SBreak \<Rightarrow> []
    | SContinue \<Rightarrow> []
    | SDrop _ \<Rightarrow> [])"
| "events_pattern p =
    (case p of
      PLiteral e \<Rightarrow> events_expr e
    | PCondition e \<Rightarrow> events_expr e
    | PWildcard \<Rightarrow> []
    | PEnumVariant _ _ \<Rightarrow> []
    | PEnumVariantPayload _ _ _ \<Rightarrow> []
    | PTuple ps \<Rightarrow> concat (map events_pattern ps))"
  by pat_completeness auto
termination
  by (relation "measure (\<lambda>a. case a of Inl e \<Rightarrow> size e | Inr (Inl s) \<Rightarrow> size s | Inr (Inr p) \<Rightarrow> size p)")
    (auto simp: termination_simp)

declare events_pattern.simps [simp del]

definition function_events :: "hir_function \<Rightarrow> use_event list" where
  "function_events f =
     map (\<lambda>p. EvBind (hp_name p) (hp_type p) (hp_name p = ascii ''self'')) (hf_params f) @
     concat (map events_stmt (hf_body f))"

section \<open>The passes as runs over the trace\<close>

fun count_event :: "use_event \<Rightarrow> ownership_analyzer \<Rightarrow> ownership_analyzer" where
  "count_event (EvBind n t m) a = register_var n t m a"
| "count_event (EvUse n s) a = count_use n s a"
| "count_event (EvBorrow n s m) a = count_use n s a"
| "count_event (EvCount n s) a = count_use n s a"
| "count_event (EvAssign n s) a = a"

fun decide_event :: "use_event \<Rightarrow> ownership_analyzer \<Rightarrow> ownership_analyzer" where
  "decide_event (EvBind n t m) a = a"
| "decide_event (EvUse n s) a = snd (decide_use n s a)"
| "decide_event (EvBorrow n s m) a = record_use n s (DBorrow m) a"
| "decide_event (EvCount n s) a = a"
| "decide_event (EvAssign n s) a = check_assignable (HirExpr (HLocal n) None s) s a"

lemma fold_events:
  "(\<And>x. x \<in> set xs \<Longrightarrow> f x = fold g (h x)) \<Longrightarrow> fold f xs = fold g (concat (map h xs))"
  by (induction xs) (simp_all add: fun_eq_iff)

lemma fold_events_at:
  "(\<And>x. x \<in> set xs \<Longrightarrow> \<forall>a. f x a = fold g (h x) a) \<Longrightarrow> fold f xs a = fold g (concat (map h xs)) a"
  using fold_events [of xs f g h] by (simp add: fun_eq_iff)

lemmas count_lists = fold_events_at [where g = count_event and h = events_expr]
  fold_events_at [where g = count_event and h = events_stmt] fold_events_at [where g = count_event and h = events_pattern]

lemma count_counted [simp]: "fold count_event (concat (map counted_only es)) = fold count_event es"
proof (induction es)
  case (Cons e es)
  then show ?case by (cases e) (simp_all add: fun_eq_iff)
qed simp

lemma decide_counted [simp]: "fold decide_event (concat (map counted_only es)) = (\<lambda>a. a)"
proof (induction es)
  case (Cons e es)
  then show ?case by (cases e) (simp_all add: fun_eq_iff)
qed (simp add: fun_eq_iff)

lemma count_bindings: "fold count_event (map (\<lambda>(n, t). EvBind n t m) bs) = fold (\<lambda>(n, t). register_var n t m) bs"
  by (induction bs) (auto simp: fun_eq_iff)

lemma decide_bindings [simp]: "fold decide_event (map (\<lambda>(n, t). EvBind n t m) bs) = (\<lambda>a. a)"
  by (induction bs) (auto simp: fun_eq_iff)

lemma count_named: "fold count_event (named_events n) = register_named n"
  by (simp add: named_events_def register_named_def fun_eq_iff)

lemma count_names: "fold count_event (concat (map named_events ns)) = fold register_named ns"
  by (induction ns) (simp_all add: fun_eq_iff count_named)

lemma decide_named [simp]: "fold decide_event (named_events n) = (\<lambda>a. a)"
  by (simp add: named_events_def fun_eq_iff)

lemma decide_names [simp]: "fold decide_event (concat (map named_events ns)) = (\<lambda>a. a)"
  by (induction ns) (simp_all add: fun_eq_iff)

lemma count_object: "count_uses_expr e = fold count_event es \<Longrightarrow> fold count_event (object_events m e es) = count_uses_expr e"
  by (cases e; cases "he_kind e") (simp_all add: object_events_def fun_eq_iff)

lemma count_assign [simp]: "fold count_event (assign_events e s) = (\<lambda>a. a)"
  by (simp add: assign_events_def fun_eq_iff split: hir_expr_kind.split)

lemma decide_assign: "fold decide_event (assign_events e s) = check_assignable e s"
  by (simp add: assign_events_def check_assignable_def fun_eq_iff split: hir_expr_kind.split)

lemma count_uses_is_a_run:
  "count_uses_expr e = fold count_event (events_expr e)"
  "\<And>t s. count_uses_expr (HirExpr k t s) = fold count_event (events_expr (HirExpr k t s))"
  "count_uses_stmt st = fold count_event (events_stmt st)"
  "\<And>s. count_uses_stmt (HirStmt sk s) = fold count_event (events_stmt (HirStmt sk s))"
  "count_uses_pattern (arm_pattern arm) = fold count_event (events_pattern (arm_pattern arm)) \<and>
   (\<forall>e. arm_guard arm = Some e \<longrightarrow> count_uses_expr e = fold count_event (events_expr e)) \<and>
   count_uses_expr (arm_body arm) = fold count_event (events_expr (arm_body arm))"
  "count_uses_pattern p = fold count_event (events_pattern p)"
proof (induction e and k and st and sk and arm and p)
  case (HirExpr k t s)
  then show ?case by blast
next
  case (HirStmt k s)
  then show ?case by blast
next
  case (HMatch vs arms)
  have vs: "fold count_uses_expr vs = fold count_event (concat (map events_expr vs))"
    using HMatch(1) by (rule fold_events)
  have arms: "fold (\<lambda>arm a. case arm of HirMatchArm p g body _ \<Rightarrow>
        (let a = count_uses_pattern p a; a = (case g of Some e \<Rightarrow> count_uses_expr e a | None \<Rightarrow> a)
         in count_uses_expr body a)) arms =
      fold count_event (concat (map (\<lambda>arm. case arm of HirMatchArm p g body _ \<Rightarrow>
        events_pattern p @ (case g of Some e \<Rightarrow> events_expr e | None \<Rightarrow> []) @ events_expr body) arms))"
    (is "fold ?f arms = fold count_event (concat (map ?h arms))")
  proof (rule fold_events)
    fix arm assume arm: "arm \<in> set arms"
    obtain p g body sp where a: "arm = HirMatchArm p g body sp" by (cases arm)
    note ih = HMatch(2) [OF arm, unfolded a hir_match_arm.sel]
    show "?f arm = fold count_event (?h arm)"
      unfolding a using ih by (cases g) (simp_all add: fun_eq_iff Let_def)
  qed
  show ?case by (simp add: vs arms fun_eq_iff)
next
  case (HMethodCall e m args)
  then show ?case by (simp add: count_object count_lists fun_eq_iff)
next
  case (HField e f)
  then show ?case by (simp add: count_object fun_eq_iff)
next
  case (HIndex e i)
  then show ?case by (simp add: count_object fun_eq_iff)
next
  case (HMap kvs)
  have "fold (\<lambda>(k, v) a. count_uses_expr v (count_uses_expr k a)) kvs =
      fold count_event (concat (map (\<lambda>(k, v). events_expr k @ events_expr v) kvs))"
    by (rule fold_events) (use HMap in \<open>force simp: fun_eq_iff\<close>)
  then show ?case by simp
next
  case (HStruct n fs)
  have "fold (\<lambda>(_, v) a. count_uses_expr v a) fs = fold count_event (concat (map (\<lambda>(_, v). events_expr v) fs))"
    by (rule fold_events) (use HStruct in \<open>force simp: fun_eq_iff\<close>)
  then show ?case by simp
next
  case (STupleLet names ts v m)
  then show ?case by (simp add: count_bindings fun_eq_iff)
next
  case (SManualErrorExtract names err e)
  then show ?case by (simp add: count_named count_names fun_eq_iff)
qed (simp_all add: fun_eq_iff count_lists count_uses_pattern.simps events_pattern.simps Let_def split: option.split)

lemma decide_object:
  "analyze_expr e = fold decide_event (events_expr e) \<Longrightarrow>
    fold decide_event (object_events m e (events_expr e)) a =
      (case he_kind e of HLocal name \<Rightarrow> record_use name (he_span e) (DBorrow m) a | _ \<Rightarrow> analyze_expr e a)"
  by (cases "he_kind e") (simp_all add: object_events_def)

lemmas decide_lists = fold_events_at [where g = decide_event and h = events_expr]
  fold_events_at [where g = decide_event and h = events_stmt] fold_events_at [where g = decide_event and h = events_pattern]

lemma analysis_is_a_run:
  "analyze_expr e = fold decide_event (events_expr e)"
  "\<And>t s. analyze_expr (HirExpr k t s) = fold decide_event (events_expr (HirExpr k t s))"
  "analyze_stmt st = fold decide_event (events_stmt st)"
  "\<And>s. analyze_stmt (HirStmt sk s) = fold decide_event (events_stmt (HirStmt sk s))"
  "analyze_pattern (arm_pattern arm) = fold decide_event (events_pattern (arm_pattern arm)) \<and>
   (\<forall>e. arm_guard arm = Some e \<longrightarrow> analyze_expr e = fold decide_event (events_expr e)) \<and>
   analyze_expr (arm_body arm) = fold decide_event (events_expr (arm_body arm))"
  "analyze_pattern p = fold decide_event (events_pattern p)"
proof (induction e and k and st and sk and arm and p)
  case (HirExpr k t s)
  then show ?case by blast
next
  case (HirStmt k s)
  then show ?case by blast
next
  case (HMatch vs arms)
  have vs: "fold analyze_expr vs = fold decide_event (concat (map events_expr vs))"
    using HMatch(1) by (rule fold_events)
  have arms: "fold (\<lambda>arm a. case arm of HirMatchArm p g body _ \<Rightarrow>
        (let a = analyze_pattern p a; a = (case g of Some e \<Rightarrow> analyze_expr e a | None \<Rightarrow> a)
         in analyze_expr body a)) arms =
      fold decide_event (concat (map (\<lambda>arm. case arm of HirMatchArm p g body _ \<Rightarrow>
        events_pattern p @ (case g of Some e \<Rightarrow> events_expr e | None \<Rightarrow> []) @ events_expr body) arms))"
    (is "fold ?f arms = fold decide_event (concat (map ?h arms))")
  proof (rule fold_events)
    fix arm assume arm: "arm \<in> set arms"
    obtain p g body sp where a: "arm = HirMatchArm p g body sp" by (cases arm)
    note ih = HMatch(2) [OF arm, unfolded a hir_match_arm.sel]
    show "?f arm = fold decide_event (?h arm)"
      unfolding a using ih by (cases g) (simp_all add: fun_eq_iff Let_def)
  qed
  show ?case by (simp add: vs arms fun_eq_iff)
next
  case (HMethodCall e m args)
  then show ?case by (simp add: decide_object decide_lists fun_eq_iff)
next
  case (HField e f)
  then show ?case by (simp add: decide_object fun_eq_iff)
next
  case (HIndex e i)
  then show ?case by (simp add: decide_object fun_eq_iff)
next
  case (HMap kvs)
  have "fold (\<lambda>(k, v) a. analyze_expr v (analyze_expr k a)) kvs =
      fold decide_event (concat (map (\<lambda>(k, v). events_expr k @ events_expr v) kvs))"
    by (rule fold_events) (use HMap in \<open>force simp: fun_eq_iff\<close>)
  then show ?case by simp
next
  case (HStruct n fs)
  have "fold (\<lambda>(_, v) a. analyze_expr v a) fs = fold decide_event (concat (map (\<lambda>(_, v). events_expr v) fs))"
    by (rule fold_events) (use HStruct in \<open>force simp: fun_eq_iff\<close>)
  then show ?case by simp
next
  case (SAssign target v)
  then show ?case by (simp add: decide_assign fun_eq_iff)
qed (simp_all add: fun_eq_iff decide_lists analyze_pattern.simps events_pattern.simps Let_def split: option.split)

section \<open>Decisions on the trace\<close>

fun event_use :: "use_event \<Rightarrow> (ustr \<times> src_span) option" where
  "event_use (EvBind n t m) = None"
| "event_use (EvUse n s) = Some (n, s)"
| "event_use (EvBorrow n s m) = Some (n, s)"
| "event_use (EvCount n s) = Some (n, s)"
| "event_use (EvAssign n s) = None"

definition used_at :: "use_event list \<Rightarrow> ustr \<Rightarrow> src_span \<Rightarrow> bool" where
  "used_at es n s \<longleftrightarrow> (\<exists>ev\<in>set es. event_use ev = Some (n, s))"

definition rebinds :: "use_event list \<Rightarrow> ustr \<Rightarrow> bool" where
  "rebinds es n \<longleftrightarrow> (\<exists>t m. EvBind n t m \<in> set es)"

lemma decide_keeps_vars [simp]: "oa_vars (decide_event ev a) = oa_vars a"
  by (cases ev) (simp_all add: decide_use_def record_use_def check_assignable_def Let_def split: option.split)

lemma decide_run_vars [simp]: "oa_vars (fold decide_event es a) = oa_vars a"
  by (induction es arbitrary: a) simp_all

lemma decide_use_local: "oa_vars a = oa_vars b \<Longrightarrow> fst (decide_use n s a) = fst (decide_use n s b)"
  by (simp add: decide_use_def split: option.split)

lemma decided_by_events:
  assumes "get_decision (oa_results (fold decide_event es a)) n s = Some d"
  shows "get_decision (oa_results a) n s = Some d \<or> d = fst (decide_use n s a) \<or> (\<exists>m. d = DBorrow m)"
  using assms
proof (induction es arbitrary: a)
  case (Cons ev es)
  have "fst (decide_use n s (decide_event ev a)) = fst (decide_use n s a)" by (rule decide_use_local) simp
  then have "get_decision (oa_results (decide_event ev a)) n s = Some d \<or> d = fst (decide_use n s a) \<or> (\<exists>m. d = DBorrow m)"
    using Cons.IH [of "decide_event ev a"] Cons.prems by simp
  then show ?case
    by (cases ev) (auto simp: decide_use_def record_use_def check_assignable_def get_decision_def record_decision_def
        new_use_location_def Let_def split: option.splits if_splits)
qed simp

lemma counted_vars:
  assumes "oa_vars a n = Some info" "\<not> rebinds es n"
  shows "\<exists>us. oa_vars (fold count_event es a) n = Some (info\<lparr>vi_uses := vi_uses info @ us\<rparr>) \<and> set us = {s. used_at es n s}"
  using assms
proof (induction es arbitrary: a info)
  case Nil
  then show ?case by (simp add: used_at_def)
next
  case (Cons ev es)
  have keep: "oa_vars (count_event ev a) n = Some (info\<lparr>vi_uses := vi_uses info @ us\<rparr>)"
    if "us = (case event_use ev of Some (k, s) \<Rightarrow> if k = n then [s] else [] | None \<Rightarrow> [])" for us
    using that Cons.prems
    by (cases ev) (auto simp: register_var_def count_use_def rebinds_def split: option.split)
  define us where "us = (case event_use ev of Some (k, s) \<Rightarrow> if k = n then [s] else [] | None \<Rightarrow> [])"
  have "\<not> rebinds es n" using Cons.prems by (simp add: rebinds_def)
  then obtain vs where vs: "oa_vars (fold count_event es (count_event ev a)) n =
      Some (info\<lparr>vi_uses := (vi_uses info @ us) @ vs\<rparr>)" "set vs = {s. used_at es n s}"
    using Cons.IH [OF keep [OF us_def]] by auto
  have "set (us @ vs) = {s. used_at (ev # es) n s}"
    using vs(2) by (auto simp: us_def used_at_def split: option.splits if_splits)
  then show ?case using vs(1) by (intro exI [of _ "us @ vs"]) simp
qed

section \<open>Functions\<close>

lemma count_use_vars: "oa_vars (count_use n s a) = (oa_vars a)(n := map_option (\<lambda>i. i\<lparr>vi_uses := vi_uses i @ [s]\<rparr>) (oa_vars a n))"
  by (cases "oa_vars a n") (simp_all add: count_use_def fun_eq_iff)

lemma count_event_local: "oa_vars a = oa_vars b \<Longrightarrow> oa_vars (count_event ev a) = oa_vars (count_event ev b)"
  by (cases ev) (simp_all only: count_event.simps count_use_vars, simp add: register_var_def)

lemma count_run_local: "oa_vars a = oa_vars b \<Longrightarrow> oa_vars (fold count_event es a) = oa_vars (fold count_event es b)"
proof (induction es arbitrary: a b)
  case (Cons ev es)
  show ?case using Cons.IH [OF count_event_local [OF Cons.prems, of ev]] by simp
qed simp

lemma count_keeps_results [simp]: "oa_results (fold count_event es a) = oa_results a"
proof (induction es arbitrary: a)
  case (Cons ev es)
  then show ?case by (cases ev) (simp_all add: register_var_def count_use_def split: option.split)
qed simp

lemma decide_use_results: "oa_results (snd (decide_use n s a)) = record_decision n s (fst (decide_use n s a)) (oa_results a)"
  by (cases "oa_vars a n") (simp_all add: decide_use_def record_use_def Let_def)

lemma check_assignable_results [simp]: "oa_results (check_assignable e s a) = oa_results a"
  by (simp add: check_assignable_def split: hir_expr_kind.split option.split)

lemma decide_event_local:
  assumes "oa_vars a = oa_vars b" "oa_results a = oa_results b"
  shows "oa_results (decide_event ev a) = oa_results (decide_event ev b)"
  using assms(2) decide_use_local [OF assms(1)]
  by (cases ev) (simp_all only: decide_event.simps decide_use_results check_assignable_results, simp add: record_use_def)

lemma decide_run_local:
  "oa_vars a = oa_vars b \<Longrightarrow> oa_results a = oa_results b \<Longrightarrow>
    oa_results (fold decide_event es a) = oa_results (fold decide_event es b)"
proof (induction es arbitrary: a b)
  case (Cons ev es)
  then show ?case using decide_event_local [of a b ev] Cons.IH [of "decide_event ev a" "decide_event ev b"] by simp
qed simp

lemma count_body:
  "oa_vars (fold (\<lambda>s a. next_stmt (count_uses_stmt s a)) ss a) = oa_vars (fold count_event (concat (map events_stmt ss)) a)
   \<and> oa_results (fold (\<lambda>s a. next_stmt (count_uses_stmt s a)) ss a) = oa_results a"
proof (induction ss arbitrary: a)
  case (Cons st ss)
  then show ?case
    by (simp add: count_uses_is_a_run(3) next_stmt_def) (rule count_run_local, simp)
qed simp

lemma decide_body:
  "oa_vars (fold (\<lambda>s a. next_stmt (analyze_stmt s a)) ss a) = oa_vars a
   \<and> oa_results (fold (\<lambda>s a. next_stmt (analyze_stmt s a)) ss a) = oa_results (fold decide_event (concat (map events_stmt ss)) a)"
proof (induction ss arbitrary: a)
  case (Cons st ss)
  then show ?case
    by (simp add: analysis_is_a_run(3) next_stmt_def) (rule decide_run_local, simp_all)
qed simp

lemma register_params:
  "fold register_param ps a = fold count_event (map (\<lambda>p. EvBind (hp_name p) (hp_type p) (hp_name p = ascii ''self'')) ps) a"
  by (induction ps arbitrary: a) (simp_all add: register_param_def)

text \<open>The variables the decisions are made with.\<close>

definition counted :: "hir_function \<Rightarrow> ownership_analyzer \<Rightarrow> ownership_analyzer" where
  "counted f a = fold count_event (function_events f) (a\<lparr>oa_vars := Map.empty, oa_idx := 0\<rparr>)"

lemma analyze_function_runs:
  "oa_results (analyze_hir_function f a) =
    oa_results (fold decide_event (concat (map events_stmt (hf_body f))) (counted f a))"
proof -
  let ?a = "fold register_param (hf_params f) (a\<lparr>oa_vars := Map.empty, oa_idx := 0\<rparr>)"
  have "oa_vars (counted f a) = oa_vars (fold count_event (concat (map events_stmt (hf_body f))) ?a)"
    "oa_results (counted f a) = oa_results ?a"
    by (simp_all add: counted_def function_events_def register_params)
  then show ?thesis
    using count_body [of "hf_body f" ?a] decide_body
    by (simp add: analyze_hir_function_def Let_def) (rule decide_run_local, simp_all)
qed

lemma counted_info:
  assumes "function_events f = pre @ EvBind n t m # post" "\<not> rebinds post n"
  obtains us where "oa_vars (counted f a) n = Some \<lparr>vi_uses = us, vi_type = t, vi_mutable = m, vi_ownership = Owned\<rparr>"
    "set us = {s. used_at post n s}"
  using counted_vars [OF _ assms(2), of "register_var n t m (fold count_event pre (a\<lparr>oa_vars := Map.empty, oa_idx := 0\<rparr>))"]
  by (auto simp: counted_def assms(1) register_var_def)

lemma later_uses_decide:
  assumes "function_events f = pre @ EvBind n t m # post" "\<not> rebinds post n"
    and "get_decision (oa_results (analyze_hir_function f new_ownership_analyzer)) n s = Some d" "\<forall>m. d \<noteq> DBorrow m"
  shows "d = (if \<exists>s'. used_at post n s' \<and> sp_start s < sp_start s'
              then if is_copy_type t then DCopy else DClone else DMove)"
proof -
  let ?a = "counted f new_ownership_analyzer"
  obtain us where info: "oa_vars ?a n = Some \<lparr>vi_uses = us, vi_type = t, vi_mutable = m, vi_ownership = Owned\<rparr>"
    "set us = {s. used_at post n s}"
    using counted_info [OF assms(1,2)] by blast
  have "oa_results ?a = Map.empty" by (simp add: counted_def new_ownership_analyzer_def new_ownership_results_def)
  then have "d = fst (decide_use n s ?a)"
    using decided_by_events [of "concat (map events_stmt (hf_body f))" ?a n s d] assms(3,4)
    by (auto simp: analyze_function_runs get_decision_def)
  moreover have "filter (\<lambda>u. sp_start s < sp_start u) us = [] \<longleftrightarrow> \<not> (\<exists>s'. used_at post n s' \<and> sp_start s < sp_start s')"
    using info(2) by (auto simp: filter_empty_conv)
  ultimately show ?thesis by (simp add: decide_use_def info(1) Let_def)
qed

text \<open>C16. Every decision about a variable, unless it is a borrow, follows from the uses after the last
  binding of its name: a move if none of them is later in the source, else a copy of a primitive and
  a clone of anything else.\<close>
theorem decisions_follow_later_uses:
  assumes "function_events f = pre @ EvBind n t m # post" "\<not> rebinds post n"
    and "get_decision (oa_results (analyze_hir_function f new_ownership_analyzer)) n s = Some d" "\<forall>m. d \<noteq> DBorrow m"
  shows "d = (if \<exists>s'. used_at post n s' \<and> sp_start s < sp_start s'
              then if is_copy_type t then DCopy else DClone else DMove)"
  using later_uses_decide [OF assms] .

section \<open>The trace has every mention outside of closures\<close>

text \<open>The variables mentioned in the closures of a term, and the uses of a trace: every mention of a variable in
  the source is a use of the trace, unless it stands in a closure.\<close>

definition closure_mentions :: "hir_term \<Rightarrow> ustr set" where
  "closure_mentions x =
     (case x of
        Inl e \<Rightarrow> (case he_kind e of HClosure _ b \<Rightarrow> mentioned (terms_expr b) | _ \<Rightarrow> {})
      | Inr _ \<Rightarrow> {})"

definition captured :: "hir_term set \<Rightarrow> ustr set" where
  "captured T = (\<Union>x\<in>T. closure_mentions x)"

lemma captured_simps [simp]:
  "captured {} = {}"
  "captured (A \<union> B) = captured A \<union> captured B"
  "captured (\<Union>x\<in>I. f x) = (\<Union>x\<in>I. captured (f x))"
  "captured (insert (Inr st) A) = captured A"
  "captured (insert (Inl (HirExpr k t s)) A) =
     (case k of HClosure _ b \<Rightarrow> mentioned (terms_expr b) | _ \<Rightarrow> {}) \<union> captured A"
  by (auto simp: captured_def closure_mentions_def)

definition uses_in :: "use_event list \<Rightarrow> (ustr \<times> src_span) set" where
  "uses_in es = {(n, s). used_at es n s}"

lemma uses_in_simps [simp]:
  "uses_in [] = {}"
  "uses_in (xs @ ys) = uses_in xs \<union> uses_in ys"
  "uses_in (ev # es) = set_option (event_use ev) \<union> uses_in es"
  by (auto simp: uses_in_def used_at_def)

lemma uses_in_concat [simp]: "uses_in (concat (map h xs)) = (\<Union>x\<in>set xs. uses_in (h x))"
  by (induction xs) simp_all

lemma uses_in_object [simp]: "uses_in (object_events m e (events_expr e)) = uses_in (events_expr e)"
  by (cases e; cases "he_kind e") (simp_all add: object_events_def)

lemma uses_in_counted [simp]: "uses_in (counted_only ev) = set_option (event_use ev)"
  by (cases ev) simp_all

lemma uses_in_counted_all [simp]: "(\<Union>ev\<in>set es. set_option (event_use ev)) = uses_in es"
  by (induction es) simp_all

lemma mentioned_closure: "mentions T \<subseteq> mentioned T \<times> UNIV"
  by (force simp: mentioned_def)

definition traced :: "hir_term set \<Rightarrow> use_event list \<Rightarrow> bool" where
  "traced T es \<longleftrightarrow> mentions T \<subseteq> uses_in es \<union> captured T \<times> UNIV"

lemma traced_Un: "traced A xs \<Longrightarrow> traced B ys \<Longrightarrow> traced (A \<union> B) (xs @ ys)"
  by (auto simp: traced_def)

lemma traced_UN: "(\<And>x. x \<in> set xs \<Longrightarrow> traced (f x) (h x)) \<Longrightarrow> traced (\<Union>x\<in>set xs. f x) (concat (map h xs))"
  by (fastforce simp: traced_def)

lemma all_mentions_are_traced:
  "traced (terms_expr e) (events_expr e)"
  "\<And>t s. traced (terms_expr (HirExpr k t s)) (events_expr (HirExpr k t s))"
  "traced (terms_stmt st) (events_stmt st)"
  "\<And>s. traced (terms_stmt (HirStmt sk s)) (events_stmt (HirStmt sk s))"
  "traced (terms_pattern (arm_pattern arm)) (events_pattern (arm_pattern arm)) \<and>
   (\<forall>e. arm_guard arm = Some e \<longrightarrow> traced (terms_expr e) (events_expr e)) \<and>
   traced (terms_expr (arm_body arm)) (events_expr (arm_body arm))"
  "traced (terms_pattern p) (events_pattern p)"
proof (induction e and k and st and sk and arm and p)
  case (HirExpr k t s)
  then show ?case by blast
next
  case (HirStmt k s)
  then show ?case by blast
next
  case (HMatch vs arms)
  let ?T = "\<lambda>arm. case arm of HirMatchArm p g body _ \<Rightarrow>
           terms_pattern p \<union> (case g of Some e \<Rightarrow> terms_expr e | None \<Rightarrow> {}) \<union> terms_expr body"
  let ?h = "\<lambda>arm. case arm of HirMatchArm p g body _ \<Rightarrow>
        events_pattern p @ (case g of Some e \<Rightarrow> events_expr e | None \<Rightarrow> []) @ events_expr body"
  have arms: "traced (\<Union>arm\<in>set arms. ?T arm) (concat (map ?h arms))"
  proof (rule traced_UN)
    fix arm assume arm: "arm \<in> set arms"
    obtain p g body sp where a: "arm = HirMatchArm p g body sp" by (cases arm)
    note ih = HMatch(2) [OF arm, unfolded a hir_match_arm.sel]
    show "traced (?T arm) (?h arm)"
      unfolding a using ih by (cases g) (auto simp: traced_def)
  qed
  have vs: "traced (\<Union>e\<in>set vs. terms_expr e) (concat (map events_expr vs))" using HMatch(1) by (rule traced_UN)
  show ?case using traced_Un [OF vs arms] by (simp add: traced_def)
next
  case (HClosure ps b)
  then show ?case using mentioned_closure by (auto simp: traced_def)
next
  case (SAssign target v)
  then show ?case by (fastforce simp: traced_def)
next
  case (HMap kvs)
  have "traced (\<Union>kv\<in>set kvs. terms_expr (fst kv) \<union> terms_expr (snd kv))
      (concat (map (\<lambda>(k, v). events_expr k @ events_expr v) kvs))"
    by (rule traced_UN) (use HMap in \<open>force simp: traced_def\<close>)
  then show ?case by (simp add: traced_def)
next
  case (HStruct n fs)
  have "traced (\<Union>f\<in>set fs. terms_expr (snd f)) (concat (map (\<lambda>(_, v). events_expr v) fs))"
    by (rule traced_UN) (use HStruct in \<open>force simp: traced_def\<close>)
  then show ?case by (simp add: traced_def)
qed (fastforce simp: traced_def terms_pattern.simps events_pattern.simps split: option.split)+


section \<open>Examples\<close>

definition use_at :: "nat \<Rightarrow> hir_expr" where
  "use_at k = HirExpr (HLocal [120]) None (new_span 0 k (k + 1))"

definition nil_at :: "nat \<Rightarrow> hir_expr" where
  "nil_at k = HirExpr (HConst HcNil) None (new_span 0 k (k + 1))"

definition sample_statement :: "hir_stmt_kind \<Rightarrow> hir_stmt" where
  "sample_statement k = HirStmt k empty_span"

definition sample_function :: "hir_stmt list \<Rightarrow> hir_function" where
  "sample_function body = \<lparr>hf_name = [], hf_type_params = [],
     hf_params = [\<lparr>hp_name = [120], hp_type = Some ty_str, hp_span = empty_span\<rparr>], hf_return_type = None,
     hf_error_type = None, hf_body = body, hf_decorators = [], hf_is_async = False, hf_span = empty_span\<rparr>"

definition decision_at :: "hir_stmt list \<Rightarrow> nat \<Rightarrow> decision option" where
  "decision_at body k =
     get_decision (oa_results (analyze_hir_function (sample_function body) new_ownership_analyzer)) [120] (new_span 0 k (k + 1))"

definition use_twice :: "hir_stmt list" where
  "use_twice = [sample_statement (SExpr (use_at 5)), sample_statement (SExpr (use_at 9))]"

lemma use_twice_events:
  "function_events (sample_function use_twice) =
    [] @ EvBind [120] (Some ty_str) False # [EvUse [120] (new_span 0 5 6), EvUse [120] (new_span 0 9 10)]"
  by (simp add: function_events_def sample_function_def use_twice_def sample_statement_def use_at_def ascii_def)

lemma use_twice_decisions: "decision_at use_twice 5 = Some DClone" "decision_at use_twice 9 = Some DMove"
  by code_simp+

theorem decisions_follow_later_uses_witness:
  "DClone = (if \<exists>s'. used_at [EvUse [120] (new_span 0 5 6), EvUse [120] (new_span 0 9 10)] [120] s' \<and>
                sp_start (new_span 0 5 6) < sp_start s'
             then if is_copy_type (Some ty_str) then DCopy else DClone else DMove)"
  by (rule decisions_follow_later_uses [OF use_twice_events])
    (use use_twice_decisions in \<open>simp_all add: rebinds_def decision_at_def\<close>)


text \<open>A use in the body of a loop is a move, though the next iteration uses the variable again.\<close>

lemma loop_uses_are_moved:
  "decision_at [sample_statement (SWhile (nil_at 1) [sample_statement (SExpr (use_at 5))] [])] 5 = Some DMove"
  by code_simp

text \<open>An inner binding of the same name forgets the uses of the outer variable: the first use is a move
  in spite of the second.\<close>

lemma shadowing_forgets_uses:
  "decision_at (use_twice @ [sample_statement (SIf (nil_at 11) [sample_statement (SLet [120] (Some ty_int) (nil_at 13) False Owned)] None)]) 5
    = Some DMove"
  by code_simp

text \<open>A closure's uses of an outer variable are not counted.\<close>

lemma closures_are_not_counted:
  "decision_at [sample_statement (SExpr (use_at 5)), sample_statement (SExpr (HirExpr (HClosure [] (use_at 9)) None empty_span))] 5 = Some DMove"
  by code_simp

end
