(* ===== verification/Own_Drops.thy ===== *)
theory Own_Drops
  imports Own_Ownership
begin

text \<open>
  Drop insertion (\<open>doo_analysis/src/ownership/drop_insertion.rs\<close>): the last use of every variable is
  looked up, in the order of the source, and a drop statement is inserted after it; a return inside a
  nested block gets its own drops. Hash maps and sets are iterated in an order the program does not
  control, the argument \<open>ord\<close>.
\<close>

section \<open>The inserter\<close>

record drop_inserter =
  di_last_use :: "(ustr \<times> nat) list"
  di_last_span :: "ustr \<rightharpoonup> src_span"
  di_needs :: "ustr set"
  di_idx :: nat
  di_results :: "ownership_results option"

definition new_drop_inserter :: drop_inserter where
  "new_drop_inserter =
     \<lparr>di_last_use = [], di_last_span = Map.empty, di_needs = {}, di_idx = 0, di_results = None\<rparr>"

definition with_ownership_results :: "ownership_results \<Rightarrow> drop_inserter" where
  "with_ownership_results r =
     \<lparr>di_last_use = [], di_last_span = Map.empty, di_needs = {}, di_idx = 0, di_results = Some r\<rparr>"

definition needs_drop_of :: "ustr \<Rightarrow> drop_inserter \<Rightarrow> drop_inserter" where
  "needs_drop_of n d = d\<lparr>di_needs := insert n (di_needs d)\<rparr>"

definition needs_drop_named :: "ustr \<Rightarrow> drop_inserter \<Rightarrow> drop_inserter" where
  "needs_drop_named n d = (if n \<noteq> ascii ''_'' then needs_drop_of n d else d)"

definition note_use :: "ustr \<Rightarrow> src_span \<Rightarrow> drop_inserter \<Rightarrow> drop_inserter" where
  "note_use n s d =
     d\<lparr>di_last_use := di_last_use d @ [(n, di_idx d)], di_last_span := (di_last_span d)(n \<mapsto> s)\<rparr>"

definition note_outer_use :: "ustr \<Rightarrow> src_span \<Rightarrow> drop_inserter \<Rightarrow> drop_inserter" where
  "note_outer_use n s d =
     (if n \<in> di_needs d \<or> hm_of (di_last_use d) n \<noteq> None then note_use n s d else d)"

definition next_index :: "drop_inserter \<Rightarrow> drop_inserter" where
  "next_index d = d\<lparr>di_idx := di_idx d + 1\<rparr>"

section \<open>Uses in spawned bodies and closures\<close>

text \<open>A body that runs elsewhere is only scanned for variables of the function around it; the bodies
  nested inside it are not.\<close>

function scan_spawn_expr :: "hir_expr \<Rightarrow> drop_inserter \<Rightarrow> drop_inserter"
  and scan_spawn_stmt :: "hir_stmt \<Rightarrow> drop_inserter \<Rightarrow> drop_inserter"
where
  "scan_spawn_expr (HirExpr kind t s) d =
    (case kind of
      HLocal name \<Rightarrow> note_outer_use name s d
    | HBinOp _ l r \<Rightarrow> scan_spawn_expr r (scan_spawn_expr l d)
    | HUnaryOp _ e \<Rightarrow> scan_spawn_expr e d
    | HCall f args \<Rightarrow> fold (scan_spawn_expr) args (scan_spawn_expr f d)
    | HMethodCall e _ args \<Rightarrow> fold (scan_spawn_expr) args (scan_spawn_expr e d)
    | HField e _ \<Rightarrow> scan_spawn_expr e d
    | HIndex e i \<Rightarrow> scan_spawn_expr i (scan_spawn_expr e d)
    | HArray es \<Rightarrow> fold (scan_spawn_expr) es d
    | HTuple es \<Rightarrow> fold (scan_spawn_expr) es d
    | HMap kvs \<Rightarrow> fold (\<lambda>(k, v) d. scan_spawn_expr v (scan_spawn_expr k d)) kvs d
    | HStruct _ fs \<Rightarrow> fold (\<lambda>(_, v) d. scan_spawn_expr v d) fs d
    | HEnumVariant _ _ es \<Rightarrow> fold (scan_spawn_expr) es d
    | HIf cond x y \<Rightarrow>
        (let d = scan_spawn_expr x (scan_spawn_expr cond d)
         in case y of Some e \<Rightarrow> scan_spawn_expr e d | None \<Rightarrow> d)
    | HBlock ss e \<Rightarrow>
        (let d = fold (scan_spawn_stmt) ss d in case e of Some e \<Rightarrow> scan_spawn_expr e d | None \<Rightarrow> d)
    | HMatch vs arms \<Rightarrow>
        fold (\<lambda>arm d.
            case arm of HirMatchArm p g body _ \<Rightarrow>
              (let d = (case g of Some e \<Rightarrow> scan_spawn_expr e d | None \<Rightarrow> d) in scan_spawn_expr body d))
          arms (fold (scan_spawn_expr) vs d)
    | HRange x y _ \<Rightarrow> scan_spawn_expr y (scan_spawn_expr x d)
    | HOk e \<Rightarrow> scan_spawn_expr e d
    | HErr e \<Rightarrow> scan_spawn_expr e d
    | HTry e \<Rightarrow> scan_spawn_expr e d
    | HMove e \<Rightarrow> scan_spawn_expr e d
    | HClone e \<Rightarrow> scan_spawn_expr e d
    | HBorrow e _ \<Rightarrow> scan_spawn_expr e d
    | HAwait e \<Rightarrow> scan_spawn_expr e d
    | HSpread e \<Rightarrow> scan_spawn_expr e d
    | HUnwrapOrPanic e m \<Rightarrow> scan_spawn_expr m (scan_spawn_expr e d)
    | HCast e _ \<Rightarrow> scan_spawn_expr e d
    | HRouteBlock es \<Rightarrow> fold (scan_spawn_expr) es d
    | HScopeBlock ss \<Rightarrow> fold (scan_spawn_stmt) ss d
    | HSpawn _ \<Rightarrow> d
    | HClosure _ _ \<Rightarrow> d
    | HConst _ \<Rightarrow> d
    | HGlobal _ \<Rightarrow> d)"
| "scan_spawn_stmt (HirStmt kind s) d =
    (case kind of
      SLet _ _ v _ _ \<Rightarrow> scan_spawn_expr v d
    | STupleLet _ _ v _ \<Rightarrow> scan_spawn_expr v d
    | SAssign target v \<Rightarrow> scan_spawn_expr v (scan_spawn_expr target d)
    | SExpr e \<Rightarrow> scan_spawn_expr e d
    | SReturn es \<Rightarrow> fold (scan_spawn_expr) es d
    | SIf cond x y \<Rightarrow>
        (let d = fold (scan_spawn_stmt) x (scan_spawn_expr cond d)
         in case y of Some ss \<Rightarrow> fold (scan_spawn_stmt) ss d | None \<Rightarrow> d)
    | SWhile cond body inc \<Rightarrow> fold (scan_spawn_stmt) inc (fold (scan_spawn_stmt) body (scan_spawn_expr cond d))
    | SManualErrorExtract _ _ e \<Rightarrow> scan_spawn_expr e d
    | SBreak \<Rightarrow> d
    | SContinue \<Rightarrow> d
    | SDrop _ \<Rightarrow> d)"
  by pat_completeness auto
termination
  by (relation "measure (\<lambda>a. case a of Inl (e, c) \<Rightarrow> size e | Inr (s, c) \<Rightarrow> size s)")
    (auto simp: termination_simp)

function scan_closure_expr :: "ustr set \<Rightarrow> hir_expr \<Rightarrow> drop_inserter \<Rightarrow> drop_inserter"
  and scan_closure_stmt :: "ustr set \<Rightarrow> hir_stmt \<Rightarrow> drop_inserter \<Rightarrow> drop_inserter"
where
  "scan_closure_expr ps (HirExpr kind t s) d =
    (case kind of
      HLocal name \<Rightarrow> if name \<in> ps then d else note_outer_use name s d
    | HBinOp _ l r \<Rightarrow> scan_closure_expr ps r (scan_closure_expr ps l d)
    | HUnaryOp _ e \<Rightarrow> scan_closure_expr ps e d
    | HCall f args \<Rightarrow> fold (scan_closure_expr ps) args (scan_closure_expr ps f d)
    | HMethodCall e _ args \<Rightarrow> fold (scan_closure_expr ps) args (scan_closure_expr ps e d)
    | HField e _ \<Rightarrow> scan_closure_expr ps e d
    | HIndex e i \<Rightarrow> scan_closure_expr ps i (scan_closure_expr ps e d)
    | HArray es \<Rightarrow> fold (scan_closure_expr ps) es d
    | HTuple es \<Rightarrow> fold (scan_closure_expr ps) es d
    | HMap kvs \<Rightarrow> fold (\<lambda>(k, v) d. scan_closure_expr ps v (scan_closure_expr ps k d)) kvs d
    | HStruct _ fs \<Rightarrow> fold (\<lambda>(_, v) d. scan_closure_expr ps v d) fs d
    | HEnumVariant _ _ es \<Rightarrow> fold (scan_closure_expr ps) es d
    | HIf cond x y \<Rightarrow>
        (let d = scan_closure_expr ps x (scan_closure_expr ps cond d)
         in case y of Some e \<Rightarrow> scan_closure_expr ps e d | None \<Rightarrow> d)
    | HBlock ss e \<Rightarrow>
        (let d = fold (scan_closure_stmt ps) ss d in case e of Some e \<Rightarrow> scan_closure_expr ps e d | None \<Rightarrow> d)
    | HMatch vs arms \<Rightarrow>
        fold (\<lambda>arm d.
            case arm of HirMatchArm p g body _ \<Rightarrow>
              (let d = (case g of Some e \<Rightarrow> scan_closure_expr ps e d | None \<Rightarrow> d) in scan_closure_expr ps body d))
          arms (fold (scan_closure_expr ps) vs d)
    | HRange x y _ \<Rightarrow> scan_closure_expr ps y (scan_closure_expr ps x d)
    | HOk e \<Rightarrow> scan_closure_expr ps e d
    | HErr e \<Rightarrow> scan_closure_expr ps e d
    | HTry e \<Rightarrow> scan_closure_expr ps e d
    | HMove e \<Rightarrow> scan_closure_expr ps e d
    | HClone e \<Rightarrow> scan_closure_expr ps e d
    | HBorrow e _ \<Rightarrow> scan_closure_expr ps e d
    | HAwait e \<Rightarrow> scan_closure_expr ps e d
    | HSpread e \<Rightarrow> scan_closure_expr ps e d
    | HUnwrapOrPanic e m \<Rightarrow> scan_closure_expr ps m (scan_closure_expr ps e d)
    | HCast e _ \<Rightarrow> scan_closure_expr ps e d
    | HRouteBlock es \<Rightarrow> fold (scan_closure_expr ps) es d
    | HScopeBlock ss \<Rightarrow> fold (scan_closure_stmt ps) ss d
    | HSpawn _ \<Rightarrow> d
    | HClosure _ _ \<Rightarrow> d
    | HConst _ \<Rightarrow> d
    | HGlobal _ \<Rightarrow> d)"
| "scan_closure_stmt ps (HirStmt kind s) d =
    (case kind of
      SLet _ _ v _ _ \<Rightarrow> scan_closure_expr ps v d
    | STupleLet _ _ v _ \<Rightarrow> scan_closure_expr ps v d
    | SAssign target v \<Rightarrow> scan_closure_expr ps v (scan_closure_expr ps target d)
    | SExpr e \<Rightarrow> scan_closure_expr ps e d
    | SReturn es \<Rightarrow> fold (scan_closure_expr ps) es d
    | SIf cond x y \<Rightarrow>
        (let d = fold (scan_closure_stmt ps) x (scan_closure_expr ps cond d)
         in case y of Some ss \<Rightarrow> fold (scan_closure_stmt ps) ss d | None \<Rightarrow> d)
    | SWhile cond body inc \<Rightarrow> fold (scan_closure_stmt ps) inc (fold (scan_closure_stmt ps) body (scan_closure_expr ps cond d))
    | SManualErrorExtract _ _ e \<Rightarrow> scan_closure_expr ps e d
    | SBreak \<Rightarrow> d
    | SContinue \<Rightarrow> d
    | SDrop _ \<Rightarrow> d)"
  by pat_completeness auto
termination
  by (relation "measure (\<lambda>a. case a of Inl (ps, e, c) \<Rightarrow> size e | Inr (ps, s, c) \<Rightarrow> size s)")
    (auto simp: termination_simp)

section \<open>Uses of a function\<close>

function scan_expr :: "hir_expr \<Rightarrow> drop_inserter \<Rightarrow> drop_inserter"
  and scan_stmt :: "hir_stmt \<Rightarrow> drop_inserter \<Rightarrow> drop_inserter"
  and scan_pattern :: "hir_match_pattern \<Rightarrow> drop_inserter \<Rightarrow> drop_inserter"
where
  "scan_expr (HirExpr kind t s) d =
    (case kind of
      HLocal name \<Rightarrow> note_use name s d
    | HBinOp _ l r \<Rightarrow> scan_expr r (scan_expr l d)
    | HUnaryOp _ e \<Rightarrow> scan_expr e d
    | HCall f args \<Rightarrow> fold scan_expr args (scan_expr f d)
    | HMethodCall e _ args \<Rightarrow> fold scan_expr args (scan_expr e d)
    | HField e _ \<Rightarrow> scan_expr e d
    | HIndex e i \<Rightarrow> scan_expr i (scan_expr e d)
    | HArray es \<Rightarrow> fold scan_expr es d
    | HTuple es \<Rightarrow> fold scan_expr es d
    | HMap kvs \<Rightarrow> fold (\<lambda>(k, v) d. scan_expr v (scan_expr k d)) kvs d
    | HStruct _ fs \<Rightarrow> fold (\<lambda>(_, v) d. scan_expr v d) fs d
    | HEnumVariant _ _ es \<Rightarrow> fold scan_expr es d
    | HIf cond x y \<Rightarrow>
        (let d = scan_expr x (scan_expr cond d) in case y of Some e \<Rightarrow> scan_expr e d | None \<Rightarrow> d)
    | HMatch vs arms \<Rightarrow>
        fold (\<lambda>arm d.
            case arm of HirMatchArm p g body _ \<Rightarrow>
              (let d = scan_pattern p d; d = (case g of Some e \<Rightarrow> scan_expr e d | None \<Rightarrow> d)
               in scan_expr body d))
          arms (fold scan_expr vs d)
    | HBlock ss e \<Rightarrow>
        (let d = fold scan_stmt ss d in case e of Some e \<Rightarrow> scan_expr e d | None \<Rightarrow> d)
    | HRange x y _ \<Rightarrow> scan_expr y (scan_expr x d)
    | HOk e \<Rightarrow> scan_expr e d
    | HErr e \<Rightarrow> scan_expr e d
    | HTry e \<Rightarrow> scan_expr e d
    | HMove e \<Rightarrow> scan_expr e d
    | HClone e \<Rightarrow> scan_expr e d
    | HUnwrapOrPanic e m \<Rightarrow> scan_expr m (scan_expr e d)
    | HBorrow e _ \<Rightarrow> scan_expr e d
    | HClosure ps body \<Rightarrow> scan_closure_expr (fst ` set ps) body d
    | HSpread e \<Rightarrow> scan_expr e d
    | HRouteBlock es \<Rightarrow> fold scan_expr es d
    | HCast e _ \<Rightarrow> scan_expr e d
    | HAwait e \<Rightarrow> scan_expr e d
    | HSpawn body \<Rightarrow> scan_spawn_expr body d
    | HScopeBlock ss \<Rightarrow> fold scan_stmt ss d
    | HConst _ \<Rightarrow> d
    | HGlobal _ \<Rightarrow> d)"
| "scan_stmt (HirStmt kind s) d =
    (case kind of
      SLet name _ v _ _ \<Rightarrow> scan_expr v (needs_drop_of name d)
    | STupleLet names _ v _ \<Rightarrow> scan_expr v (fold needs_drop_of names d)
    | SManualErrorExtract names err e \<Rightarrow> scan_expr e (needs_drop_named err (fold needs_drop_named names d))
    | SAssign target v \<Rightarrow> scan_expr v (scan_expr target d)
    | SExpr e \<Rightarrow> scan_expr e d
    | SReturn es \<Rightarrow> fold scan_expr es d
    | SIf cond x y \<Rightarrow>
        (let d = scan_expr cond d;
             saved = di_idx d;
             d = (fold (\<lambda>st d. next_index (scan_stmt st d)) x d)\<lparr>di_idx := saved\<rparr>
         in case y of Some ss \<Rightarrow> fold (\<lambda>st d. next_index (scan_stmt st d)) ss d | None \<Rightarrow> d)
    | SWhile cond body inc \<Rightarrow>
        (let d = scan_expr cond d;
             saved = di_idx d;
             d = fold (\<lambda>st d. next_index (scan_stmt st d)) body d;
             d = fold (\<lambda>st d. next_index (scan_stmt st d)) inc d
         in d\<lparr>di_idx := saved\<rparr>)
    | SBreak \<Rightarrow> d
    | SContinue \<Rightarrow> d
    | SDrop _ \<Rightarrow> d)"
| "scan_pattern p d =
    (case p of
      PLiteral e \<Rightarrow> scan_expr e d
    | PCondition e \<Rightarrow> scan_expr e d
    | PWildcard \<Rightarrow> d
    | PEnumVariant _ _ \<Rightarrow> d
    | PEnumVariantPayload _ _ _ \<Rightarrow> d
    | PTuple ps \<Rightarrow> fold scan_pattern ps d)"
  by pat_completeness auto
termination
  by (relation "measure (\<lambda>a. case a of
        Inl (e, c) \<Rightarrow> size e | Inr (Inl (s, c)) \<Rightarrow> size s | Inr (Inr (p, c)) \<Rightarrow> size p)")
    (auto simp: termination_simp)

declare scan_pattern.simps [simp del]

definition find_last_uses :: "hir_stmt list \<Rightarrow> drop_inserter \<Rightarrow> drop_inserter" where
  "find_last_uses ss d = fold (\<lambda>st d. next_index (scan_stmt st d)) ss d"

section \<open>Drops after the last uses\<close>

definition moved_at_last_use :: "drop_inserter \<Rightarrow> ustr \<Rightarrow> bool" where
  "moved_at_last_use d n \<longleftrightarrow>
     (case di_results d of
        Some r \<Rightarrow>
          (case di_last_span d n of
             Some s \<Rightarrow> get_decision r n s = Some DMove
           | None \<Rightarrow> False)
      | None \<Rightarrow> False)"

definition compute_drops :: "(ustr list \<Rightarrow> ustr list) \<Rightarrow> drop_inserter \<Rightarrow> (nat \<times> ustr) list" where
  "compute_drops ord d =
     rev (sort_key fst (rev
       (map (\<lambda>(n, i). (i + 1, n))
         (filter (\<lambda>(n, _). n \<in> di_needs d \<and> \<not> moved_at_last_use d n) (hm_iter ord (di_last_use d))))))"

definition drop_stmt :: "ustr \<Rightarrow> hir_stmt" where
  "drop_stmt n = new_hir_stmt (SDrop n) dummy_span"

definition insert_at :: "nat \<Rightarrow> 'a \<Rightarrow> 'a list \<Rightarrow> 'a list" where
  "insert_at i x xs = take i xs @ x # drop i xs"

fun apply_drops :: "hir_stmt list \<Rightarrow> (nat \<times> ustr) list \<Rightarrow> hir_stmt list" where
  "apply_drops ss [] = ss"
| "apply_drops ss ((i, n) # drops) =
     apply_drops (if i \<le> length ss then insert_at i (drop_stmt n) ss else ss) drops"

section \<open>Drops before early returns\<close>

function collect_local_names :: "hir_expr \<Rightarrow> ustr set \<Rightarrow> ustr set" where
  "collect_local_names (HirExpr kind t s) names =
    (case kind of
      HLocal name \<Rightarrow> insert name names
    | HBinOp _ l r \<Rightarrow> collect_local_names r (collect_local_names l names)
    | HUnaryOp _ e \<Rightarrow> collect_local_names e names
    | HCall f args \<Rightarrow> fold collect_local_names args (collect_local_names f names)
    | HMethodCall e _ args \<Rightarrow> fold collect_local_names args (collect_local_names e names)
    | HField e _ \<Rightarrow> collect_local_names e names
    | HIndex e i \<Rightarrow> collect_local_names i (collect_local_names e names)
    | HIf cond x y \<Rightarrow>
        (let names = collect_local_names x (collect_local_names cond names)
         in case y of Some e \<Rightarrow> collect_local_names e names | None \<Rightarrow> names)
    | HOk e \<Rightarrow> collect_local_names e names
    | HErr e \<Rightarrow> collect_local_names e names
    | HTry e \<Rightarrow> collect_local_names e names
    | HMove e \<Rightarrow> collect_local_names e names
    | HClone e \<Rightarrow> collect_local_names e names
    | HAwait e \<Rightarrow> collect_local_names e names
    | HSpread e \<Rightarrow> collect_local_names e names
    | HBorrow e _ \<Rightarrow> collect_local_names e names
    | HCast e _ \<Rightarrow> collect_local_names e names
    | HArray es \<Rightarrow> fold collect_local_names es names
    | HTuple es \<Rightarrow> fold collect_local_names es names
    | HStruct _ fs \<Rightarrow> fold (\<lambda>(_, v) names. collect_local_names v names) fs names
    | _ \<Rightarrow> names)"
  by pat_completeness auto
termination by (relation "measure (\<lambda>(e, n). size e)") (auto simp: termination_simp)

function insert_return_drops :: "(ustr list \<Rightarrow> ustr list) \<Rightarrow> ustr list \<Rightarrow> hir_stmt \<Rightarrow> hir_stmt list" where
  "insert_return_drops ord live (HirStmt kind s) =
    (case kind of
      SReturn es \<Rightarrow>
        map drop_stmt (filter (\<lambda>n. n \<notin> fold collect_local_names es {}) (ord (remdups live))) @ [HirStmt kind s]
    | SIf cond x y \<Rightarrow>
        [HirStmt (SIf cond (concat (map (insert_return_drops ord live) x))
           (case y of Some ss \<Rightarrow> Some (concat (map (insert_return_drops ord live) ss)) | None \<Rightarrow> None)) s]
    | SWhile cond body inc \<Rightarrow> [HirStmt (SWhile cond (concat (map (insert_return_drops ord live) body)) inc) s]
    | _ \<Rightarrow> [HirStmt kind s])"
  by pat_completeness auto
termination by (relation "measure (\<lambda>(ord, l, s). size s)") (auto simp: termination_simp)

definition early_return_step ::
    "(ustr list \<Rightarrow> ustr list) \<Rightarrow> ustr list \<Rightarrow> hir_stmt \<Rightarrow> ustr set \<Rightarrow> hir_stmt \<times> ustr set" where
  "early_return_step ord dropped st gone =
     (let alive = filter (\<lambda>n. n \<notin> gone) dropped
      in case hs_kind st of
           SDrop n \<Rightarrow> (st, insert n gone)
         | SIf cond x y \<Rightarrow>
             (HirStmt (SIf cond (concat (map (insert_return_drops ord alive) x))
                (map_option (\<lambda>ss. concat (map (insert_return_drops ord alive) ss)) y)) (hs_span st), gone)
         | SWhile cond body inc \<Rightarrow>
             (HirStmt (SWhile cond (concat (map (insert_return_drops ord alive) body)) inc) (hs_span st), gone)
         | _ \<Rightarrow> (st, gone))"

fun insert_early_return_drops ::
    "(ustr list \<Rightarrow> ustr list) \<Rightarrow> ustr list \<Rightarrow> ustr set \<Rightarrow> hir_stmt list \<Rightarrow> hir_stmt list" where
  "insert_early_return_drops ord dropped gone [] = []"
| "insert_early_return_drops ord dropped gone (st # ss) =
     (let (st, gone) = early_return_step ord dropped st gone
      in st # insert_early_return_drops ord dropped gone ss)"

section \<open>Functions and programs\<close>

definition insert_drops_function ::
    "(ustr list \<Rightarrow> ustr list) \<Rightarrow> hir_function \<Rightarrow> drop_inserter \<Rightarrow> hir_function \<times> drop_inserter" where
  "insert_drops_function ord f d =
     (let d = find_last_uses (hf_body f) (d\<lparr>di_last_use := [], di_last_span := Map.empty, di_needs := {}, di_idx := 0\<rparr>);
          drops = compute_drops ord d;
          body = apply_drops (hf_body f) drops
      in (f\<lparr>hf_body := insert_early_return_drops ord (map snd drops) {} body\<rparr>, d))"

fun insert_drops_items ::
    "(ustr list \<Rightarrow> ustr list) \<Rightarrow> hir_item list \<Rightarrow> drop_inserter \<Rightarrow> hir_item list \<times> drop_inserter" where
  "insert_drops_items ord [] d = ([], d)"
| "insert_drops_items ord (item # items) d =
     (let (item, d) =
            (case item of
               IFunction f \<Rightarrow> (let (f, d) = insert_drops_function ord f d in (IFunction f, d))
             | _ \<Rightarrow> (item, d));
          (items, d) = insert_drops_items ord items d
      in (item # items, d))"

definition insert_drops_program ::
    "(ustr list \<Rightarrow> ustr list) \<Rightarrow> hir_program \<Rightarrow> drop_inserter \<Rightarrow> hir_program \<times> drop_inserter" where
  "insert_drops_program ord p d =
     (let (items, d) = insert_drops_items ord (hpr_items p) d in (p\<lparr>hpr_items := items\<rparr>, d))"

end
