(* ===== verification/Own_Dropping.thy ===== *)
theory Own_Dropping
  imports Own_Drops Hir_Subterms "HOL-Library.Code_Target_Nat"
begin

text \<open>
  Where drops end up: the scan for last uses never marks a position before the statement it reads, so
  a drop that is inserted in the body of a function stands after every use of its variable. The
  examples at the end show the drops that come too late, in the wrong place, or too early.
\<close>

section \<open>The uses a scan sees\<close>

function outer_expr :: "ustr set \<Rightarrow> hir_expr \<Rightarrow> ustr set"
  and outer_stmt :: "ustr set \<Rightarrow> hir_stmt \<Rightarrow> ustr set"
where
  "outer_expr ps (HirExpr kind t s) =
    (case kind of
      HLocal name \<Rightarrow> if name \<in> ps then {} else {name}
    | HBinOp _ l r \<Rightarrow> outer_expr ps l \<union> outer_expr ps r
    | HUnaryOp _ e \<Rightarrow> outer_expr ps e
    | HCall f args \<Rightarrow> outer_expr ps f \<union> (\<Union>e\<in>set args. outer_expr ps e)
    | HMethodCall e _ args \<Rightarrow> outer_expr ps e \<union> (\<Union>e\<in>set args. outer_expr ps e)
    | HField e _ \<Rightarrow> outer_expr ps e
    | HIndex e i \<Rightarrow> outer_expr ps e \<union> outer_expr ps i
    | HArray es \<Rightarrow> \<Union>e\<in>set es. outer_expr ps e
    | HTuple es \<Rightarrow> \<Union>e\<in>set es. outer_expr ps e
    | HMap kvs \<Rightarrow> \<Union>kv\<in>set kvs. outer_expr ps (fst kv) \<union> outer_expr ps (snd kv)
    | HStruct _ fs \<Rightarrow> \<Union>f\<in>set fs. outer_expr ps (snd f)
    | HEnumVariant _ _ es \<Rightarrow> \<Union>e\<in>set es. outer_expr ps e
    | HIf cond x y \<Rightarrow>
        outer_expr ps cond \<union> outer_expr ps x \<union> (case y of Some e \<Rightarrow> outer_expr ps e | None \<Rightarrow> {})
    | HBlock ss e \<Rightarrow> (\<Union>s\<in>set ss. outer_stmt ps s) \<union> (case e of Some e \<Rightarrow> outer_expr ps e | None \<Rightarrow> {})
    | HMatch vs arms \<Rightarrow>
        (\<Union>e\<in>set vs. outer_expr ps e) \<union>
        (\<Union>arm\<in>set arms. case arm of HirMatchArm p g body _ \<Rightarrow>
           (case g of Some e \<Rightarrow> outer_expr ps e | None \<Rightarrow> {}) \<union> outer_expr ps body)
    | HRange x y _ \<Rightarrow> outer_expr ps x \<union> outer_expr ps y
    | HOk e \<Rightarrow> outer_expr ps e
    | HErr e \<Rightarrow> outer_expr ps e
    | HTry e \<Rightarrow> outer_expr ps e
    | HMove e \<Rightarrow> outer_expr ps e
    | HClone e \<Rightarrow> outer_expr ps e
    | HBorrow e _ \<Rightarrow> outer_expr ps e
    | HAwait e \<Rightarrow> outer_expr ps e
    | HSpread e \<Rightarrow> outer_expr ps e
    | HUnwrapOrPanic e m \<Rightarrow> outer_expr ps e \<union> outer_expr ps m
    | HCast e _ \<Rightarrow> outer_expr ps e
    | HRouteBlock es \<Rightarrow> \<Union>e\<in>set es. outer_expr ps e
    | HScopeBlock ss \<Rightarrow> \<Union>s\<in>set ss. outer_stmt ps s
    | HSpawn _ \<Rightarrow> {}
    | HClosure _ _ \<Rightarrow> {}
    | HConst _ \<Rightarrow> {}
    | HGlobal _ \<Rightarrow> {})"
| "outer_stmt ps (HirStmt kind s) =
    (case kind of
      SLet _ _ v _ _ \<Rightarrow> outer_expr ps v
    | STupleLet _ _ v _ \<Rightarrow> outer_expr ps v
    | SAssign target v \<Rightarrow> outer_expr ps target \<union> outer_expr ps v
    | SExpr e \<Rightarrow> outer_expr ps e
    | SReturn es \<Rightarrow> \<Union>e\<in>set es. outer_expr ps e
    | SIf cond x y \<Rightarrow>
        outer_expr ps cond \<union> (\<Union>s\<in>set x. outer_stmt ps s) \<union>
        (case y of Some ss \<Rightarrow> \<Union>s\<in>set ss. outer_stmt ps s | None \<Rightarrow> {})
    | SWhile cond body inc \<Rightarrow>
        outer_expr ps cond \<union> (\<Union>s\<in>set body. outer_stmt ps s) \<union> (\<Union>s\<in>set inc. outer_stmt ps s)
    | SManualErrorExtract _ _ e \<Rightarrow> outer_expr ps e
    | SBreak \<Rightarrow> {}
    | SContinue \<Rightarrow> {}
    | SDrop _ \<Rightarrow> {})"
  by pat_completeness auto
termination
  by (relation "measure (\<lambda>a. case a of Inl (ps, e) \<Rightarrow> size e | Inr (ps, s) \<Rightarrow> size s)")
    (auto simp: termination_simp)

function used_expr :: "hir_expr \<Rightarrow> ustr set"
  and used_stmt :: "hir_stmt \<Rightarrow> ustr set"
  and used_pattern :: "hir_match_pattern \<Rightarrow> ustr set"
where
  "used_expr (HirExpr kind t s) =
    (case kind of
      HLocal name \<Rightarrow> {name}
    | HBinOp _ l r \<Rightarrow> used_expr l \<union> used_expr r
    | HUnaryOp _ e \<Rightarrow> used_expr e
    | HCall f args \<Rightarrow> used_expr f \<union> (\<Union>e\<in>set args. used_expr e)
    | HMethodCall e _ args \<Rightarrow> used_expr e \<union> (\<Union>e\<in>set args. used_expr e)
    | HField e _ \<Rightarrow> used_expr e
    | HIndex e i \<Rightarrow> used_expr e \<union> used_expr i
    | HArray es \<Rightarrow> \<Union>e\<in>set es. used_expr e
    | HTuple es \<Rightarrow> \<Union>e\<in>set es. used_expr e
    | HMap kvs \<Rightarrow> \<Union>kv\<in>set kvs. used_expr (fst kv) \<union> used_expr (snd kv)
    | HStruct _ fs \<Rightarrow> \<Union>f\<in>set fs. used_expr (snd f)
    | HEnumVariant _ _ es \<Rightarrow> \<Union>e\<in>set es. used_expr e
    | HIf cond x y \<Rightarrow> used_expr cond \<union> used_expr x \<union> (case y of Some e \<Rightarrow> used_expr e | None \<Rightarrow> {})
    | HBlock ss e \<Rightarrow> (\<Union>s\<in>set ss. used_stmt s) \<union> (case e of Some e \<Rightarrow> used_expr e | None \<Rightarrow> {})
    | HMatch vs arms \<Rightarrow>
        (\<Union>e\<in>set vs. used_expr e) \<union>
        (\<Union>arm\<in>set arms. case arm of HirMatchArm p g body _ \<Rightarrow>
           used_pattern p \<union> (case g of Some e \<Rightarrow> used_expr e | None \<Rightarrow> {}) \<union> used_expr body)
    | HRange x y _ \<Rightarrow> used_expr x \<union> used_expr y
    | HOk e \<Rightarrow> used_expr e
    | HErr e \<Rightarrow> used_expr e
    | HTry e \<Rightarrow> used_expr e
    | HMove e \<Rightarrow> used_expr e
    | HClone e \<Rightarrow> used_expr e
    | HBorrow e _ \<Rightarrow> used_expr e
    | HAwait e \<Rightarrow> used_expr e
    | HSpread e \<Rightarrow> used_expr e
    | HUnwrapOrPanic e m \<Rightarrow> used_expr e \<union> used_expr m
    | HCast e _ \<Rightarrow> used_expr e
    | HRouteBlock es \<Rightarrow> \<Union>e\<in>set es. used_expr e
    | HScopeBlock ss \<Rightarrow> \<Union>s\<in>set ss. used_stmt s
    | HSpawn body \<Rightarrow> outer_expr {} body
    | HClosure ps body \<Rightarrow> outer_expr (fst ` set ps) body
    | HConst _ \<Rightarrow> {}
    | HGlobal _ \<Rightarrow> {})"
| "used_stmt (HirStmt kind s) =
    (case kind of
      SLet _ _ v _ _ \<Rightarrow> used_expr v
    | STupleLet _ _ v _ \<Rightarrow> used_expr v
    | SAssign target v \<Rightarrow> used_expr target \<union> used_expr v
    | SExpr e \<Rightarrow> used_expr e
    | SReturn es \<Rightarrow> \<Union>e\<in>set es. used_expr e
    | SIf cond x y \<Rightarrow>
        used_expr cond \<union> (\<Union>s\<in>set x. used_stmt s) \<union> (case y of Some ss \<Rightarrow> \<Union>s\<in>set ss. used_stmt s | None \<Rightarrow> {})
    | SWhile cond body inc \<Rightarrow> used_expr cond \<union> (\<Union>s\<in>set body. used_stmt s) \<union> (\<Union>s\<in>set inc. used_stmt s)
    | SManualErrorExtract _ _ e \<Rightarrow> used_expr e
    | SBreak \<Rightarrow> {}
    | SContinue \<Rightarrow> {}
    | SDrop _ \<Rightarrow> {})"
| "used_pattern p =
    (case p of
      PLiteral e \<Rightarrow> used_expr e
    | PCondition e \<Rightarrow> used_expr e
    | PWildcard \<Rightarrow> {}
    | PEnumVariant _ _ \<Rightarrow> {}
    | PEnumVariantPayload _ _ _ \<Rightarrow> {}
    | PTuple ps \<Rightarrow> \<Union>p\<in>set ps. used_pattern p)"
  by pat_completeness auto
termination
  by (relation "measure (\<lambda>a. case a of Inl e \<Rightarrow> size e | Inr (Inl s) \<Rightarrow> size s | Inr (Inr p) \<Rightarrow> size p)")
    (auto simp: termination_simp)

declare used_pattern.simps [simp del]

section \<open>The scan marks no position before the statement it reads\<close>

definition last_of :: "drop_inserter \<Rightarrow> ustr \<Rightarrow> nat option" where
  "last_of d n = hm_of (di_last_use d) n"

definition marks :: "ustr set \<Rightarrow> drop_inserter \<Rightarrow> drop_inserter \<Rightarrow> bool" where
  "marks X c d \<longleftrightarrow> di_idx c \<le> di_idx d \<and> di_needs c \<subseteq> di_needs d \<and> di_results d = di_results c \<and>
     (\<forall>n. last_of d n = last_of c n \<or> (\<exists>i\<ge>di_idx c. last_of d n = Some i)) \<and>
     (\<forall>n\<in>X. n \<in> di_needs c \<longrightarrow> (\<exists>i\<ge>di_idx c. last_of d n = Some i))"

definition scans :: "(drop_inserter \<Rightarrow> drop_inserter) \<Rightarrow> ustr set \<Rightarrow> bool" where
  "scans f X \<longleftrightarrow> (\<forall>c. marks X c (f c))"

lemma marks_refl: "marks {} c c"
  by (simp add: marks_def)

lemma marks_trans:
  assumes "marks X c d" "marks Y d e"
  shows "marks (X \<union> Y) c e"
  unfolding marks_def
proof (intro conjI allI ballI impI)
  show "di_idx c \<le> di_idx e" "di_needs c \<subseteq> di_needs e" "di_results e = di_results c"
    using assms by (auto simp: marks_def)
  show "last_of e n = last_of c n \<or> (\<exists>i\<ge>di_idx c. last_of e n = Some i)" for n
    using assms unfolding marks_def by (metis le_trans)
  show "\<exists>i\<ge>di_idx c. last_of e n = Some i" if "n \<in> X \<union> Y" "n \<in> di_needs c" for n
    using that assms unfolding marks_def by (metis UnE le_trans subsetD)
qed

lemma marks_step: "marks X c d \<Longrightarrow> scans f Y \<Longrightarrow> marks (X \<union> Y) c (f d)"
  using marks_trans by (simp add: scans_def)

lemma marks_fold:
  "marks X c d \<Longrightarrow> (\<And>x. x \<in> set xs \<Longrightarrow> scans (f x) (h x)) \<Longrightarrow> marks (X \<union> (\<Union>x\<in>set xs. h x)) c (fold f xs d)"
proof (induction xs arbitrary: X d)
  case (Cons x xs)
  have "marks (X \<union> h x) c (f x d)" using Cons.prems by (intro marks_step) auto
  then have "marks ((X \<union> h x) \<union> (\<Union>x\<in>set xs. h x)) c (fold f xs (f x d))"
    using Cons.prems by (intro Cons.IH) auto
  then show ?case by (simp add: Un_assoc)
qed simp

lemma scans_marks: "scans f X \<Longrightarrow> marks X c (f c)"
  by (simp add: scans_def)

lemma scans_fold: "(\<And>x. x \<in> set xs \<Longrightarrow> scans (f x) (h x)) \<Longrightarrow> marks (\<Union>x\<in>set xs. h x) c (fold f xs c)"
  using marks_fold [OF marks_refl, of xs f h c] by (simp only: Un_empty_left)

lemma scans_comp: "scans f X \<Longrightarrow> scans g Y \<Longrightarrow> scans (\<lambda>d. g (f d)) (X \<union> Y)"
  by (meson marks_step scans_def)

lemma scansI: "(\<And>c. marks X c (f c)) \<Longrightarrow> scans f X"
  by (simp add: scans_def)

lemma last_note [simp]: "last_of (note_use n s d) m = (if m = n then Some (di_idx d) else last_of d m)"
  by (simp add: last_of_def note_use_def hm_of_def)

lemma note_use_fields [simp]:
  "di_idx (note_use n s d) = di_idx d" "di_needs (note_use n s d) = di_needs d" "di_results (note_use n s d) = di_results d"
  by (simp_all add: note_use_def)

lemma marks_note_use: "marks {n} c (note_use n s c)"
  by (simp add: marks_def)

lemma marks_outer_use: "marks {n} c (note_outer_use n s c)"
  by (cases "n \<in> di_needs c \<or> last_of c n \<noteq> None") (auto simp: marks_def note_outer_use_def last_of_def [symmetric])

lemmas mark_rules = marks_refl marks_note_use marks_outer_use scans_fold marks_fold

lemmas closure_rules = mark_rules
  marks_step [where f = "scan_closure_expr ps e" for ps e] scans_marks [where f = "scan_closure_expr ps e" for ps e]
  marks_step [where f = "scan_closure_stmt ps e" for ps e] scans_marks [where f = "scan_closure_stmt ps e" for ps e]


lemma closure_scan:
  "scans (scan_closure_expr ps e) (outer_expr ps e)"
  "\<And>t s. scans (scan_closure_expr ps (HirExpr k t s)) (outer_expr ps (HirExpr k t s))"
  "scans (scan_closure_stmt ps st) (outer_stmt ps st)"
  "\<And>s. scans (scan_closure_stmt ps (HirStmt sk s)) (outer_stmt ps (HirStmt sk s))"
  "(\<forall>e. arm_guard arm = Some e \<longrightarrow> scans (scan_closure_expr ps e) (outer_expr ps e)) \<and>
   scans (scan_closure_expr ps (arm_body arm)) (outer_expr ps (arm_body arm))"
  "used_pattern p = used_pattern p"
proof (induction e and k and st and sk and arm and p)
  case (HirExpr k t s)
  then show ?case by blast
next
  case (HirStmt k s)
  then show ?case by blast
next
  case (HMatch vs arms)
  have arm: "scans (\<lambda>d. case arm of HirMatchArm p g body _ \<Rightarrow>
        (let d = (case g of Some e \<Rightarrow> scan_closure_expr ps e d | None \<Rightarrow> d) in scan_closure_expr ps body d))
      (case arm of HirMatchArm p g body _ \<Rightarrow>
         (case g of Some e \<Rightarrow> outer_expr ps e | None \<Rightarrow> {}) \<union> outer_expr ps body)"
    if "arm \<in> set arms" for arm
  proof -
    obtain p g body sp where a: "arm = HirMatchArm p g body sp" by (cases arm)
    note ih = HMatch(2) [OF that, unfolded a hir_match_arm.sel]
    show ?thesis
      unfolding a using ih by (cases g) (simp_all add: Let_def scans_comp)
  qed
  show ?case
    by (rule scansI) (simp, intro marks_fold scans_fold arm HMatch(1))
next
  case (HMap kvs)
  have step: "scans (case kv of (k, v) \<Rightarrow> \<lambda>d. scan_closure_expr ps v (scan_closure_expr ps k d))
      (outer_expr ps (fst kv) \<union> outer_expr ps (snd kv))" if "kv \<in> set kvs" for kv
    using HMap(1) [OF that] HMap(2) [OF that] by (cases kv) (simp add: scans_comp)
  show ?case by (rule scansI) (simp, rule scans_fold [OF step])
next
  case (HStruct n fs)
  have step: "scans (case f of (_, v) \<Rightarrow> \<lambda>d. scan_closure_expr ps v d) (outer_expr ps (snd f))" if "f \<in> set fs" for f
    using HStruct [OF that] by (cases f) simp
  show ?case by (rule scansI) (simp, rule scans_fold [OF step])
next
  case (HirMatchArm p g body s)
  then show ?case by simp
qed (rule scansI, auto simp: Let_def split: option.split intro!: closure_rules)+

text \<open>The two scans of bodies are the same, a spawned body having no parameters.\<close>

lemma fold_same: "(\<And>x. x \<in> set xs \<Longrightarrow> f x = g x) \<Longrightarrow> fold f xs = fold g xs"
  by (induction xs) (simp_all add: fun_eq_iff)

lemma spawn_scan_is_closure_scan:
  "scan_spawn_expr e = scan_closure_expr {} e"
  "\<And>t s. scan_spawn_expr (HirExpr k t s) = scan_closure_expr {} (HirExpr k t s)"
  "scan_spawn_stmt st = scan_closure_stmt {} st"
  "\<And>s. scan_spawn_stmt (HirStmt sk s) = scan_closure_stmt {} (HirStmt sk s)"
  "(\<forall>e. arm_guard arm = Some e \<longrightarrow> scan_spawn_expr e = scan_closure_expr {} e) \<and>
   scan_spawn_expr (arm_body arm) = scan_closure_expr {} (arm_body arm)"
  "used_pattern p = used_pattern p"
proof (induction e and k and st and sk and arm and p)
  case (HirExpr k t s)
  then show ?case by blast
next
  case (HirStmt k s)
  then show ?case by blast
next
  case (HMatch vs arms)
  have vs: "fold scan_spawn_expr vs = fold (scan_closure_expr {}) vs" using HMatch(1) by (rule fold_same)
  have arms: "fold (\<lambda>arm d. case arm of HirMatchArm p g body _ \<Rightarrow>
        (let d = (case g of Some e \<Rightarrow> scan_spawn_expr e d | None \<Rightarrow> d) in scan_spawn_expr body d)) arms =
      fold (\<lambda>arm d. case arm of HirMatchArm p g body _ \<Rightarrow>
        (let d = (case g of Some e \<Rightarrow> scan_closure_expr {} e d | None \<Rightarrow> d) in scan_closure_expr {} body d)) arms"
    (is "fold ?f arms = fold ?g arms")
  proof (rule fold_same)
    fix arm assume arm: "arm \<in> set arms"
    obtain p g body sp where a: "arm = HirMatchArm p g body sp" by (cases arm)
    note ih = HMatch(2) [OF arm, unfolded a hir_match_arm.sel]
    show "?f arm = ?g arm" unfolding a using ih by (cases g) (simp_all add: Let_def)
  qed
  show ?case by (rule ext) (simp add: vs arms)
next
  case (HMap kvs)
  have "fold (\<lambda>(k, v) d. scan_spawn_expr v (scan_spawn_expr k d)) kvs =
      fold (\<lambda>(k, v) d. scan_closure_expr {} v (scan_closure_expr {} k d)) kvs"
    by (rule fold_same) (use HMap in \<open>force simp: fun_eq_iff\<close>)
  then show ?case by (intro ext) simp
next
  case (HStruct n fs)
  have "fold (\<lambda>(_, v) d. scan_spawn_expr v d) fs = fold (\<lambda>(_, v) d. scan_closure_expr {} v d) fs"
    by (rule fold_same) (use HStruct in \<open>force simp: fun_eq_iff\<close>)
  then show ?case by (intro ext) simp
qed (simp_all add: fun_eq_iff fold_same [of _ scan_spawn_expr "scan_closure_expr {}"]
    fold_same [of _ scan_spawn_stmt "scan_closure_stmt {}"] Let_def split: option.split)

text \<open>The scan of the function itself, where nested blocks count their statements and give the position
  back.\<close>

lemma needs_fields [simp]:
  "last_of (needs_drop_of n d) = last_of d" "di_idx (needs_drop_of n d) = di_idx d"
  "di_needs (needs_drop_of n d) = insert n (di_needs d)" "di_results (needs_drop_of n d) = di_results d"
  by (simp_all add: needs_drop_of_def last_of_def fun_eq_iff)

lemma marks_needs: "marks X c d \<Longrightarrow> marks X c (needs_drop_of n d)"
  by (auto simp: marks_def)

lemma marks_named: "marks X c d \<Longrightarrow> marks X c (needs_drop_named n d)"
  by (simp add: needs_drop_named_def marks_needs)

lemma marks_fold_same: "marks X c d \<Longrightarrow> (\<And>x d. marks X c d \<Longrightarrow> marks X c (f x d)) \<Longrightarrow> marks X c (fold f xs d)"
  by (induction xs arbitrary: d) simp_all

lemma marks_after: "marks {} c d \<Longrightarrow> scans f X \<Longrightarrow> marks X c (f d)"
  using marks_step [of "{}"] by simp

lemma marks_next: "marks X c d \<Longrightarrow> marks X c (next_index d)"
  by (simp add: marks_def next_index_def last_of_def)

lemma marks_restore: "marks X c d \<Longrightarrow> di_idx c \<le> i \<Longrightarrow> marks X c (d\<lparr>di_idx := i\<rparr>)"
  by (simp add: marks_def last_of_def)

lemma marks_idx: "marks X c d \<Longrightarrow> di_idx c \<le> di_idx d"
  by (simp add: marks_def)

lemma scans_next: "scans f X \<Longrightarrow> scans (\<lambda>d. next_index (f d)) X"
  by (simp add: scans_def marks_next)

lemmas scan_rules = mark_rules
  marks_step [where f = "scan_expr e" for e] scans_marks [where f = "scan_expr e" for e]
  marks_step [where f = "scan_stmt e" for e] scans_marks [where f = "scan_stmt e" for e]
  marks_step [where f = "scan_pattern e" for e] scans_marks [where f = "scan_pattern e" for e]

lemma block_marks:
  "marks X c d \<Longrightarrow> (\<And>st. st \<in> set ss \<Longrightarrow> scans (scan_stmt st) (used_stmt st)) \<Longrightarrow>
    marks (X \<union> (\<Union>st\<in>set ss. used_stmt st)) c (fold (\<lambda>st d. next_index (scan_stmt st d)) ss d)"
  by (rule marks_fold) (simp_all add: scans_next)

lemma pattern_steps:
  "scan_pattern (PLiteral e) d = scan_expr e d" "scan_pattern (PCondition e) d = scan_expr e d"
  "scan_pattern PWildcard d = d" "scan_pattern (PEnumVariant a b) d = d" "scan_pattern (PEnumVariantPayload a b ns) d = d"
  "scan_pattern (PTuple ps) d = fold scan_pattern ps d"
  "used_pattern (PLiteral e) = used_expr e" "used_pattern (PCondition e) = used_expr e"
  "used_pattern PWildcard = {}" "used_pattern (PEnumVariant a b) = {}" "used_pattern (PEnumVariantPayload a b ns) = {}"
  "used_pattern (PTuple ps) = (\<Union>p\<in>set ps. used_pattern p)"
  by (simp_all add: scan_pattern.simps used_pattern.simps [of "PLiteral e"] used_pattern.simps [of "PCondition e"]
    used_pattern.simps [of PWildcard] used_pattern.simps [of "PEnumVariant a b"]
    used_pattern.simps [of "PEnumVariantPayload a b ns"] used_pattern.simps [of "PTuple ps"])

lemma scan_marks:
  "scans (scan_expr e) (used_expr e)"
  "\<And>t s. scans (scan_expr (HirExpr k t s)) (used_expr (HirExpr k t s))"
  "scans (scan_stmt st) (used_stmt st)"
  "\<And>s. scans (scan_stmt (HirStmt sk s)) (used_stmt (HirStmt sk s))"
  "scans (scan_pattern (arm_pattern arm)) (used_pattern (arm_pattern arm)) \<and>
   (\<forall>e. arm_guard arm = Some e \<longrightarrow> scans (scan_expr e) (used_expr e)) \<and>
   scans (scan_expr (arm_body arm)) (used_expr (arm_body arm))"
  "scans (scan_pattern p) (used_pattern p)"
proof (induction e and k and st and sk and arm and p)
  case (HirExpr k t s)
  then show ?case by blast
next
  case (HirStmt k s)
  then show ?case by blast
next
  case (HMatch vs arms)
  have arm: "scans (\<lambda>d. case arm of HirMatchArm p g body _ \<Rightarrow>
        (let d = scan_pattern p d; d = (case g of Some e \<Rightarrow> scan_expr e d | None \<Rightarrow> d) in scan_expr body d))
      (case arm of HirMatchArm p g body _ \<Rightarrow>
         used_pattern p \<union> (case g of Some e \<Rightarrow> used_expr e | None \<Rightarrow> {}) \<union> used_expr body)"
    if "arm \<in> set arms" for arm
  proof -
    obtain p g body sp where a: "arm = HirMatchArm p g body sp" by (cases arm)
    note ih = HMatch(2) [OF that, unfolded a hir_match_arm.sel]
    show ?thesis
      unfolding a using ih
      by (cases g) (auto simp: Let_def intro!: scans_comp [where g = "scan_expr e" for e])
  qed
  show ?case by (rule scansI) (simp, intro marks_fold scans_fold arm HMatch(1))
next
  case (HMap kvs)
  have step: "scans (case kv of (k, v) \<Rightarrow> \<lambda>d. scan_expr v (scan_expr k d)) (used_expr (fst kv) \<union> used_expr (snd kv))"
    if "kv \<in> set kvs" for kv
    using HMap(1) [OF that] HMap(2) [OF that] by (cases kv) (simp add: scans_comp)
  show ?case by (rule scansI) (simp, rule scans_fold [OF step])
next
  case (HStruct n fs)
  have step: "scans (case f of (_, v) \<Rightarrow> \<lambda>d. scan_expr v d) (used_expr (snd f))" if "f \<in> set fs" for f
    using HStruct [OF that] by (cases f) simp
  show ?case by (rule scansI) (simp, rule scans_fold [OF step])
next
  case (HSpawn body)
  show ?case by (rule scansI) (simp add: spawn_scan_is_closure_scan scans_marks closure_scan)
next
  case (HClosure ps body)
  show ?case by (rule scansI) (simp add: scans_marks closure_scan)
next
  case (SIf cond x y)
  show ?case
  proof (rule scansI)
    fix s c
    let ?c = "scan_expr cond c"
    let ?d = "(fold (\<lambda>st d. next_index (scan_stmt st d)) x ?c)\<lparr>di_idx := di_idx ?c\<rparr>"
    have cond: "marks (used_expr cond) c ?c" using SIf(1) by (rule scans_marks)
    then have x: "marks (used_expr cond \<union> (\<Union>st\<in>set x. used_stmt st)) c ?d"
      using SIf(2) by (intro marks_restore block_marks) (auto dest: marks_idx)
    show "marks (used_stmt (HirStmt (SIf cond x y) s)) c (scan_stmt (HirStmt (SIf cond x y) s) c)"
      using x SIf(3) block_marks [OF x] by (cases y) (simp_all add: Let_def)
  qed
next
  case (SWhile cond body inc)
  show ?case
  proof (rule scansI)
    fix s c
    let ?c = "scan_expr cond c"
    have cond: "marks (used_expr cond) c ?c" using SWhile(1) by (rule scans_marks)
    have "marks (used_expr cond \<union> (\<Union>st\<in>set body. used_stmt st) \<union> (\<Union>st\<in>set inc. used_stmt st)) c
      (fold (\<lambda>st d. next_index (scan_stmt st d)) inc (fold (\<lambda>st d. next_index (scan_stmt st d)) body ?c))"
      using SWhile(2,3) cond by (intro block_marks)
    then show "marks (used_stmt (HirStmt (SWhile cond body inc) s)) c (scan_stmt (HirStmt (SWhile cond body inc) s) c)"
      using marks_idx [OF cond] by (simp add: Let_def marks_restore)
  qed
next
  case (SLet n t v m o')
  then show ?case by (intro scansI) (simp add: marks_after marks_needs marks_refl)
next
  case (STupleLet ns ts v m)
  then show ?case by (intro scansI) (simp add: marks_after marks_needs marks_fold_same marks_refl)
next
  case (SManualErrorExtract ns err v)
  then show ?case by (intro scansI) (simp add: marks_after marks_named marks_fold_same marks_refl)
next
  case (HirMatchArm p g body s)
  then show ?case by simp
qed (rule scansI, auto simp: Let_def pattern_steps split: option.split intro!: scan_rules)+

section \<open>Positions of the statements of a body\<close>

fun binds :: "hir_stmt \<Rightarrow> ustr set" where
  "binds (HirStmt kind s) =
    (case kind of
      SLet n _ _ _ _ \<Rightarrow> {n}
    | STupleLet ns _ _ _ \<Rightarrow> set ns
    | SManualErrorExtract ns err _ \<Rightarrow> set (err # ns) - {ascii ''_''}
    | _ \<Rightarrow> {})"

lemma needs_fold:
  "di_needs (fold needs_drop_of ns d) = di_needs d \<union> set ns"
  "di_needs (fold needs_drop_named ns d) = di_needs d \<union> (set ns - {ascii ''_''})"
  by (induction ns arbitrary: d) (auto simp: needs_drop_named_def)

lemma scan_binds: "binds st \<subseteq> di_needs (scan_stmt st d)"
proof (cases st)
  case (HirStmt k s)
  have expr: "di_needs d \<subseteq> di_needs (scan_expr v d)" for v d
    using scans_marks [OF scan_marks(1)] by (simp add: marks_def)
  show ?thesis unfolding HirStmt
    by (cases k) (auto simp: needs_fold needs_drop_named_def intro!: expr [THEN subsetD])
qed

lemma find_last_uses_Cons: "find_last_uses (st # ss) d = find_last_uses ss (next_index (scan_stmt st d))"
  by (simp add: find_last_uses_def)

lemma next_index_fields [simp]:
  "di_idx (next_index d) = Suc (di_idx d)" "di_needs (next_index d) = di_needs d" "last_of (next_index d) = last_of d"
  by (simp_all add: next_index_def last_of_def fun_eq_iff)

lemma find_last_uses_marks:
  "marks {} d (find_last_uses ss d)" "di_idx d + length ss \<le> di_idx (find_last_uses ss d)"
proof (induction ss arbitrary: d)
  case (Cons st ss)
  have st: "marks {} d (next_index (scan_stmt st d))" "Suc (di_idx d) \<le> di_idx (next_index (scan_stmt st d))" for d
    using scans_marks [OF scan_marks(3), of st d] by (auto simp: marks_def next_index_def last_of_def)
  {
    case 1
    show ?case using marks_trans [OF st(1) Cons.IH(1)] by (simp add: find_last_uses_Cons)
  next
    case 2
    show ?case
      using st(2) [of d] Cons.IH(2) [of "next_index (scan_stmt st d)"] by (simp add: find_last_uses_Cons)
  }
qed (simp_all add: find_last_uses_def marks_refl)

lemma find_last_uses_append: "find_last_uses (xs @ ys) d = find_last_uses ys (find_last_uses xs d)"
  by (simp add: find_last_uses_def)

text \<open>After its binding, a variable's last use is at or after every statement that uses it.\<close>

lemma last_use_bound:
  assumes ss: "ss = early @ binder # rest" and n: "n \<in> binds binder"
    and k: "length early < k" "k < length ss" "n \<in> used_stmt (ss ! k)"
  shows "\<exists>i\<ge>di_idx d + k. last_of (find_last_uses ss d) n = Some i"
proof -
  let ?d = "find_last_uses (take k ss) d"
  have take: "take k ss = early @ binder # take (k - length early - 1) rest"
    using k(1) by (simp add: ss take_Cons')
  have "n \<in> di_needs (scan_stmt binder (find_last_uses early d))" using n scan_binds by blast
  then have "n \<in> di_needs (find_last_uses (binder # take (k - length early - 1) rest) (find_last_uses early d))"
    using find_last_uses_marks(1) unfolding find_last_uses_Cons
    by (fastforce simp: marks_def next_index_def)
  then have needs: "n \<in> di_needs ?d" by (simp add: take find_last_uses_append)
  have "di_idx d + k \<le> di_idx ?d" using find_last_uses_marks(2) [of d "take k ss"] k(2) by simp
  moreover obtain i where "di_idx ?d \<le> i" "last_of (scan_stmt (ss ! k) ?d) n = Some i"
    using scans_marks [OF scan_marks(3), of "ss ! k" ?d] k(3) needs unfolding marks_def by blast
  moreover have "di_idx ?d \<le> di_idx (next_index (scan_stmt (ss ! k) ?d))"
    using scans_marks [OF scan_marks(3), of "ss ! k" ?d] by (simp add: marks_def)
  moreover have "find_last_uses ss d = find_last_uses (drop (Suc k) ss) (next_index (scan_stmt (ss ! k) ?d))"
    using id_take_nth_drop [OF k(2)] by (metis find_last_uses_append find_last_uses_Cons)
  moreover have "marks {} (next_index (scan_stmt (ss ! k) ?d)) (find_last_uses (drop (Suc k) ss) (next_index (scan_stmt (ss ! k) ?d)))"
    by (rule find_last_uses_marks)
  then have "last_of (find_last_uses (drop (Suc k) ss) (next_index (scan_stmt (ss ! k) ?d))) n = last_of (scan_stmt (ss ! k) ?d) n \<or>
      (\<exists>j\<ge>di_idx (next_index (scan_stmt (ss ! k) ?d)). last_of (find_last_uses (drop (Suc k) ss) (next_index (scan_stmt (ss ! k) ?d))) n = Some j)"
    unfolding marks_def by (metis next_index_fields(3))
  ultimately show ?thesis by auto
qed

section \<open>What the scan overlooks\<close>

text \<open>Inside a closure or a spawned body, the scan of the function reads neither further closures and spawned
  bodies nor match patterns, and takes a parameter of the closure for another variable.\<close>

definition inner_parts :: "hir_term \<Rightarrow> ustr set" where
  "inner_parts x =
     (case x of
        Inl e \<Rightarrow>
          (case he_kind e of
             HClosure _ b \<Rightarrow> mentioned (terms_expr b)
           | HSpawn b \<Rightarrow> mentioned (terms_expr b)
           | HMatch _ arms \<Rightarrow> \<Union>arm\<in>set arms. mentioned (terms_pattern (arm_pattern arm))
           | _ \<Rightarrow> {})
      | Inr _ \<Rightarrow> {})"

definition inner_mentions :: "hir_term set \<Rightarrow> ustr set" where
  "inner_mentions T = (\<Union>x\<in>T. inner_parts x)"

definition overlooked_in :: "hir_term \<Rightarrow> ustr set" where
  "overlooked_in x =
     (case x of
        Inl e \<Rightarrow>
          (case he_kind e of
             HClosure ps b \<Rightarrow> fst ` set ps \<union> inner_mentions (terms_expr b)
           | HSpawn b \<Rightarrow> inner_mentions (terms_expr b)
           | _ \<Rightarrow> {})
      | Inr _ \<Rightarrow> {})"

definition overlooked :: "hir_term set \<Rightarrow> ustr set" where
  "overlooked T = (\<Union>x\<in>T. overlooked_in x)"

lemma inner_mentions_simps [simp]:
  "inner_mentions {} = {}"
  "inner_mentions (A \<union> B) = inner_mentions A \<union> inner_mentions B"
  "inner_mentions (\<Union>x\<in>I. f x) = (\<Union>x\<in>I. inner_mentions (f x))"
  "inner_mentions (insert (Inr st) A) = inner_mentions A"
  "inner_mentions (insert (Inl (HirExpr k t s)) A) =
     (case k of
        HClosure _ b \<Rightarrow> mentioned (terms_expr b)
      | HSpawn b \<Rightarrow> mentioned (terms_expr b)
      | HMatch _ arms \<Rightarrow> \<Union>arm\<in>set arms. mentioned (terms_pattern (arm_pattern arm))
      | _ \<Rightarrow> {}) \<union> inner_mentions A"
  by (auto simp: inner_mentions_def inner_parts_def)

lemma overlooked_simps [simp]:
  "overlooked {} = {}"
  "overlooked (A \<union> B) = overlooked A \<union> overlooked B"
  "overlooked (\<Union>x\<in>I. f x) = (\<Union>x\<in>I. overlooked (f x))"
  "overlooked (insert (Inr st) A) = overlooked A"
  "overlooked (insert (Inl (HirExpr k t s)) A) =
     (case k of
        HClosure ps b \<Rightarrow> fst ` set ps \<union> inner_mentions (terms_expr b)
      | HSpawn b \<Rightarrow> inner_mentions (terms_expr b)
      | _ \<Rightarrow> {}) \<union> overlooked A"
  by (auto simp: overlooked_def overlooked_in_def)

definition outer_sees :: "ustr set \<Rightarrow> hir_term set \<Rightarrow> ustr set \<Rightarrow> bool" where
  "outer_sees ps T X \<longleftrightarrow> mentioned T \<subseteq> X \<union> ps \<union> inner_mentions T"

lemma outer_sees_Un: "outer_sees ps A X \<Longrightarrow> outer_sees ps B Y \<Longrightarrow> outer_sees ps (A \<union> B) (X \<union> Y)"
  by (auto simp: outer_sees_def)

lemma outer_sees_UN:
  "(\<And>x. x \<in> I \<Longrightarrow> outer_sees ps (f x) (h x)) \<Longrightarrow> outer_sees ps (\<Union>x\<in>I. f x) (\<Union>x\<in>I. h x)"
  by (fastforce simp: outer_sees_def)

lemma outer_uses_are_complete:
  "outer_sees ps (terms_expr e) (outer_expr ps e)"
  "\<And>t s. outer_sees ps (terms_expr (HirExpr k t s)) (outer_expr ps (HirExpr k t s))"
  "outer_sees ps (terms_stmt st) (outer_stmt ps st)"
  "\<And>s. outer_sees ps (terms_stmt (HirStmt sk s)) (outer_stmt ps (HirStmt sk s))"
  "(\<forall>e. arm_guard arm = Some e \<longrightarrow> outer_sees ps (terms_expr e) (outer_expr ps e)) \<and>
   outer_sees ps (terms_expr (arm_body arm)) (outer_expr ps (arm_body arm))"
  "terms_pattern p = terms_pattern p"
proof (induction e and k and st and sk and arm and p)
  case (HirExpr k t s)
  then show ?case by blast
next
  case (HirStmt k s)
  then show ?case by blast
next
  case (HMatch vs arms)
  let ?P = "\<Union>arm\<in>set arms. mentioned (terms_pattern (arm_pattern arm))"
  let ?T = "\<lambda>arm. case arm of HirMatchArm p g body _ \<Rightarrow>
           terms_pattern p \<union> (case g of Some e \<Rightarrow> terms_expr e | None \<Rightarrow> {}) \<union> terms_expr body"
  let ?X = "\<lambda>arm. case arm of HirMatchArm p g body _ \<Rightarrow>
           (case g of Some e \<Rightarrow> outer_expr ps e | None \<Rightarrow> {}) \<union> outer_expr ps body"
  have arm: "mentioned (?T arm) \<subseteq> ?X arm \<union> ps \<union> inner_mentions (?T arm) \<union> ?P" if "arm \<in> set arms" for arm
  proof -
    obtain p g body sp where a: "arm = HirMatchArm p g body sp" by (cases arm)
    note ih = HMatch(2) [OF that, unfolded a hir_match_arm.sel]
    have "mentioned (terms_pattern p) \<subseteq> ?P" using that a by force
    then show ?thesis unfolding a using ih by (cases g) (auto simp: outer_sees_def)
  qed
  have vs: "outer_sees ps (\<Union>e\<in>set vs. terms_expr e) (\<Union>e\<in>set vs. outer_expr ps e)"
    using HMatch(1) by (rule outer_sees_UN)
  have "mentioned (\<Union>arm\<in>set arms. ?T arm) \<subseteq> (\<Union>arm\<in>set arms. ?X arm) \<union> ps \<union> inner_mentions (\<Union>arm\<in>set arms. ?T arm) \<union> ?P"
    unfolding mentioned_simps inner_mentions_simps using arm by (simp only: UN_subset_iff) blast
  then show ?case using vs by (auto simp: outer_sees_def)
next
  case (HMap kvs)
  have "outer_sees ps (\<Union>kv\<in>set kvs. terms_expr (fst kv) \<union> terms_expr (snd kv))
      (\<Union>kv\<in>set kvs. outer_expr ps (fst kv) \<union> outer_expr ps (snd kv))"
    by (rule outer_sees_UN) (use HMap in \<open>force simp: outer_sees_def\<close>)
  then show ?case by (simp add: outer_sees_def)
next
  case (HStruct n fs)
  have "outer_sees ps (\<Union>f\<in>set fs. terms_expr (snd f)) (\<Union>f\<in>set fs. outer_expr ps (snd f))"
    by (rule outer_sees_UN) (use HStruct in \<open>force simp: outer_sees_def\<close>)
  then show ?case by (simp add: outer_sees_def)
next
  case (HirMatchArm p g body s)
  then show ?case by simp
qed (fastforce simp: outer_sees_def split: option.split)+

definition scan_sees :: "hir_term set \<Rightarrow> ustr set \<Rightarrow> bool" where
  "scan_sees T X \<longleftrightarrow> mentioned T \<subseteq> X \<union> overlooked T"

lemma scan_sees_Un: "scan_sees A X \<Longrightarrow> scan_sees B Y \<Longrightarrow> scan_sees (A \<union> B) (X \<union> Y)"
  by (auto simp: scan_sees_def)

lemma scan_sees_UN:
  "(\<And>x. x \<in> I \<Longrightarrow> scan_sees (f x) (h x)) \<Longrightarrow> scan_sees (\<Union>x\<in>I. f x) (\<Union>x\<in>I. h x)"
  by (fastforce simp: scan_sees_def)

lemma used_are_complete:
  "scan_sees (terms_expr e) (used_expr e)"
  "\<And>t s. scan_sees (terms_expr (HirExpr k t s)) (used_expr (HirExpr k t s))"
  "scan_sees (terms_stmt st) (used_stmt st)"
  "\<And>s. scan_sees (terms_stmt (HirStmt sk s)) (used_stmt (HirStmt sk s))"
  "scan_sees (terms_pattern (arm_pattern arm)) (used_pattern (arm_pattern arm)) \<and>
   (\<forall>e. arm_guard arm = Some e \<longrightarrow> scan_sees (terms_expr e) (used_expr e)) \<and>
   scan_sees (terms_expr (arm_body arm)) (used_expr (arm_body arm))"
  "scan_sees (terms_pattern p) (used_pattern p)"
proof (induction e and k and st and sk and arm and p)
  case (HirExpr k t s)
  then show ?case by blast
next
  case (HirStmt k s)
  then show ?case by blast
next
  case (HMatch vs arms)
  let ?T = "\<lambda>arm. case arm of HirMatchArm p g body _ \<Rightarrow>
           terms_pattern p \<union> (case g of Some e \<Rightarrow> terms_expr e | None \<Rightarrow> {}) \<union> terms_expr body"
  let ?X = "\<lambda>arm. case arm of HirMatchArm p g body _ \<Rightarrow>
           used_pattern p \<union> (case g of Some e \<Rightarrow> used_expr e | None \<Rightarrow> {}) \<union> used_expr body"
  have arms: "scan_sees (\<Union>arm\<in>set arms. ?T arm) (\<Union>arm\<in>set arms. ?X arm)"
  proof (rule scan_sees_UN)
    fix arm assume arm: "arm \<in> set arms"
    obtain p g body sp where a: "arm = HirMatchArm p g body sp" by (cases arm)
    note ih = HMatch(2) [OF arm, unfolded a hir_match_arm.sel]
    show "scan_sees (?T arm) (?X arm)" unfolding a using ih by (cases g) (auto simp: scan_sees_def)
  qed
  have vs: "scan_sees (\<Union>e\<in>set vs. terms_expr e) (\<Union>e\<in>set vs. used_expr e)" using HMatch(1) by (rule scan_sees_UN)
  show ?case using scan_sees_Un [OF vs arms] by (simp add: scan_sees_def)
next
  case (HClosure ps b)
  then show ?case using outer_uses_are_complete(1) [of "fst ` set ps" b] by (auto simp: scan_sees_def outer_sees_def)
next
  case (HSpawn b)
  then show ?case using outer_uses_are_complete(1) [of "{}" b] by (auto simp: scan_sees_def outer_sees_def)
next
  case (HMap kvs)
  have "scan_sees (\<Union>kv\<in>set kvs. terms_expr (fst kv) \<union> terms_expr (snd kv))
      (\<Union>kv\<in>set kvs. used_expr (fst kv) \<union> used_expr (snd kv))"
    by (rule scan_sees_UN) (use HMap in \<open>force simp: scan_sees_def\<close>)
  then show ?case by (simp add: scan_sees_def)
next
  case (HStruct n fs)
  have "scan_sees (\<Union>f\<in>set fs. terms_expr (snd f)) (\<Union>f\<in>set fs. used_expr (snd f))"
    by (rule scan_sees_UN) (use HStruct in \<open>force simp: scan_sees_def\<close>)
  then show ?case by (simp add: scan_sees_def)
qed (fastforce simp: scan_sees_def terms_pattern.simps used_pattern.simps split: option.split)+

section \<open>Where the drops go\<close>

lemma insert_at_append: "i \<le> length xs \<Longrightarrow> insert_at i x (xs @ ys) = insert_at i x xs @ ys"
  by (simp add: insert_at_def)

lemma apply_drops_append:
  "(\<forall>(i, n)\<in>set drops. i \<le> length xs) \<Longrightarrow> apply_drops (xs @ ys) drops = apply_drops xs drops @ ys"
proof (induction drops arbitrary: xs)
  case (Cons p drops)
  obtain i n where p: "p = (i, n)" by force
  have "\<forall>(j, m)\<in>set drops. j \<le> length (insert_at i (drop_stmt n) xs)"
    using Cons.prems by (auto simp: insert_at_def)
  then show ?case using Cons.prems Cons.IH by (simp add: p insert_at_append)
qed simp

lemma apply_drops_members: "set (apply_drops ss drops) \<subseteq> set ss \<union> drop_stmt ` snd ` set drops"
proof (induction drops arbitrary: ss)
  case (Cons p drops)
  obtain i n where p: "p = (i, n)" by force
  have "set (insert_at i (drop_stmt n) ss) \<subseteq> insert (drop_stmt n) (set ss)"
    by (auto simp: insert_at_def dest: in_set_takeD in_set_dropD)
  then show ?case
    using Cons [of ss] Cons [of "insert_at i (drop_stmt n) ss"] by (auto simp: p)
qed simp

lemma drop_stmt_inj [simp]: "drop_stmt n = drop_stmt m \<longleftrightarrow> n = m"
  by (simp add: drop_stmt_def new_hir_stmt_def)

lemma after_drop:
  assumes "sorted_wrt (\<lambda>a b. fst b \<le> fst a) drops" "distinct (map snd drops)"
    and "(i, n) \<in> set drops" "drop_stmt n \<notin> set ss"
    and "apply_drops ss drops = pre @ drop_stmt n # post"
  shows "set post \<subseteq> set (drop i ss) \<union> range drop_stmt"
  using assms
proof (induction drops arbitrary: ss pre post)
  case (Cons p drops)
  obtain j m where p: "p = (j, m)" by force
  let ?r = "apply_drops (take j ss) drops"
  show ?case
  proof (cases "j \<le> length ss")
    case False
    then have run: "apply_drops ss drops = pre @ drop_stmt n # post" using Cons.prems(5) by (simp add: p)
    then have "drop_stmt n \<in> drop_stmt ` snd ` set drops"
      using apply_drops_members [of ss drops] Cons.prems(4) by auto
    then have "(i, n) \<in> set drops" using Cons.prems(2,3) by (force simp: p)
    then show ?thesis using Cons.IH [OF _ _ _ Cons.prems(4) run] Cons.prems(1,2) by simp
  next
    case True
    have "\<forall>(i, n)\<in>set drops. i \<le> length (take j ss)" using Cons.prems(1) True by (auto simp: p)
    then have split: "apply_drops ss (p # drops) = ?r @ drop_stmt m # drop j ss"
      using True apply_drops_append [of drops "take j ss" "drop_stmt m # drop j ss"]
      by (simp add: p insert_at_def)
    show ?thesis
    proof (cases "n = m")
      case n: True
      have i: "i = j" using Cons.prems(2,3) n by (force simp: p)
      have "drop_stmt m \<notin> set ?r"
        using apply_drops_members [of "take j ss" drops] Cons.prems(2,4) n
        by (force simp: p dest: in_set_takeD)
      moreover have "drop_stmt m \<notin> set (drop j ss)" using Cons.prems(4) n by (auto dest: in_set_dropD)
      ultimately have "post = drop j ss"
        using Cons.prems(5) split n by (simp add: append_Cons_eq_iff)
      then show ?thesis by (simp add: i)
    next
      case False
      have "(i, n) \<in> set drops" "i \<le> j" using Cons.prems(1,3) False by (auto simp: p)
      have "drop_stmt n \<notin> set (drop_stmt m # drop j ss)" using False Cons.prems(4) by (auto dest: in_set_dropD)
      then obtain post' where post': "?r = pre @ drop_stmt n # post'" "post = post' @ drop_stmt m # drop j ss"
        using Cons.prems(5) split by (auto simp: append_eq_append_conv2 Cons_eq_append_conv append_eq_Cons_conv)
      have "set post' \<subseteq> set (drop i (take j ss)) \<union> range drop_stmt"
        using Cons.prems \<open>(i, n) \<in> set drops\<close> post'(1) by (intro Cons.IH) (auto dest: in_set_takeD)
      moreover have "set (drop i (take j ss)) \<subseteq> set (drop i ss)"
        by (auto simp: drop_take dest: in_set_takeD)
      moreover have "set (drop j ss) \<subseteq> set (drop i ss)" using \<open>i \<le> j\<close> by (rule set_drop_subset_set_drop)
      ultimately show ?thesis by (auto simp: post'(2))
    qed
  qed
qed simp

lemma compute_drops_sorted: "sorted_wrt (\<lambda>a b. fst b \<le> fst a) (compute_drops ord d)"
  using sorted_map_sort_key by (simp add: compute_drops_def sorted_wrt_rev sorted_wrt_map)

lemma compute_drops_mem:
  "perm_order ord \<Longrightarrow> (p, n) \<in> set (compute_drops ord d) \<longleftrightarrow>
    (\<exists>i. p = Suc i \<and> last_of d n = Some i) \<and> n \<in> di_needs d \<and> \<not> moved_at_last_use d n"
  by (auto simp: compute_drops_def last_of_def hm_iter_mem)

lemma compute_drops_distinct:
  assumes "perm_order ord"
  shows "distinct (map snd (compute_drops ord d))"
proof -
  let ?f = "filter (\<lambda>(n, _). n \<in> di_needs d \<and> \<not> moved_at_last_use d n) (hm_iter ord (di_last_use d))"
  have "mset (map snd (compute_drops ord d)) = mset (map fst ?f)"
    unfolding compute_drops_def by (simp add: image_mset.compositionality comp_def case_prod_beta)
  then show ?thesis
    using mset_eq_imp_distinct_iff [of "map snd (compute_drops ord d)" "map fst ?f"]
      distinct_map_filter [OF hm_iter_distinct [OF assms]] by simp
qed

lemma mentioned_drop [simp]: "mentioned (terms_stmt (drop_stmt n)) = {}"
  by (simp add: drop_stmt_def new_hir_stmt_def)

lemma insert_return_mentions:
  "(\<Union>r\<in>set (insert_return_drops ord live st). mentioned (terms_stmt r)) = mentioned (terms_stmt st)"
proof (induction ord live st rule: insert_return_drops.induct)
  case (1 ord live kind s)
  show ?case
  proof (cases kind)
    case (SIf c x y)
    then show ?thesis using 1 by (cases y) auto
  next
    case (SWhile c b i)
    then show ?thesis using 1 by auto
  qed auto
qed

definition same_mentions :: "hir_stmt \<Rightarrow> hir_stmt \<Rightarrow> bool" where
  "same_mentions st r \<longleftrightarrow> mentioned (terms_stmt r) = mentioned (terms_stmt st) \<and> (\<forall>n. hs_kind r = SDrop n \<longrightarrow> hs_kind st = SDrop n)"

lemma early_step_same: "same_mentions st (fst (early_return_step ord dropped st gone))"
proof (cases st)
  case (HirStmt k s)
  have ret: "(\<Union>st\<in>set x. \<Union>r\<in>set (insert_return_drops ord live st). mentioned (terms_stmt r)) =
      (\<Union>st\<in>set x. mentioned (terms_stmt st))" for x live
    by (simp add: insert_return_mentions)
  show ?thesis
    by (cases k) (auto simp: HirStmt early_return_step_def same_mentions_def Let_def ret split: option.split)
qed

lemma early_same: "list_all2 same_mentions ss (insert_early_return_drops ord dropped gone ss)"
proof (induction ss arbitrary: gone)
  case (Cons st ss)
  then show ?case
    using early_step_same [of st ord dropped gone]
    by (cases "early_return_step ord dropped st gone") simp
qed simp


section \<open>Examples\<close>

definition drop_x :: hir_expr where
  "drop_x = HirExpr (HLocal [120]) None (new_span 0 7 8)"

definition drop_nil :: hir_expr where
  "drop_nil = HirExpr (HConst HcNil) None empty_span"

definition stmt_of :: "hir_stmt_kind \<Rightarrow> hir_stmt" where
  "stmt_of k = HirStmt k empty_span"

definition let_x :: hir_stmt where
  "let_x = stmt_of (SLet [120] None drop_nil False Owned)"

definition read_x :: hir_stmt where
  "read_x = stmt_of (SExpr (HirExpr (HField drop_x [102]) None empty_span))"

definition with_drops :: "hir_stmt list \<Rightarrow> hir_stmt list" where
  "with_drops body =
     hf_body (fst (insert_drops_function (\<lambda>ns. ns)
       \<lparr>hf_name = [], hf_type_params = [], hf_params = [], hf_return_type = None, hf_error_type = None, hf_body = body,
        hf_decorators = [], hf_is_async = False, hf_span = empty_span\<rparr> new_drop_inserter))"

lemmas drop_sample_defs = with_drops_def drop_x_def drop_nil_def stmt_of_def let_x_def read_x_def

lemma sample_drops: "with_drops [let_x, read_x, stmt_of SBreak] = [let_x, read_x, drop_stmt [120], stmt_of SBreak]"
  by code_simp


text \<open>The position is not given back after an else block: the drop of a variable read after one falls
  behind the end of the body and is left out.\<close>

lemma drop_after_else_is_lost:
  "with_drops [let_x, stmt_of (SIf drop_nil [] (Some [stmt_of SBreak, stmt_of SBreak])), read_x] =
    [let_x, stmt_of (SIf drop_nil [] (Some [stmt_of SBreak, stmt_of SBreak])), read_x]"
  by code_simp

text \<open>A return in a nested block drops variables that are only declared later.\<close>

lemma return_drops_undeclared:
  "with_drops [stmt_of (SIf drop_nil [stmt_of (SReturn [])] None), let_x, read_x] =
    [stmt_of (SIf drop_nil [drop_stmt [120], stmt_of (SReturn [])] None), let_x, read_x, drop_stmt [120]]"
  by code_simp

text \<open>A variable that is returned inside an enum variant is dropped before the return.\<close>

lemma return_drops_payload:
  "insert_return_drops (\<lambda>ns. ns) [[120]] (stmt_of (SReturn [HirExpr (HEnumVariant e v [drop_x]) None empty_span])) =
    [drop_stmt [120], stmt_of (SReturn [HirExpr (HEnumVariant e v [drop_x]) None empty_span])]"
  by (simp add: stmt_of_def drop_x_def)

text \<open>The bodies nested in a spawned body are not scanned: the variable is dropped before they use it.\<close>

lemma nested_capture_is_dropped:
  "with_drops [let_x, read_x, stmt_of (SExpr (HirExpr (HSpawn (HirExpr (HClosure [] drop_x) None empty_span)) None empty_span))] =
    [let_x, read_x, drop_stmt [120],
     stmt_of (SExpr (HirExpr (HSpawn (HirExpr (HClosure [] drop_x) None empty_span)) None empty_span))]"
  by code_simp

text \<open>A variable of a nested block is dropped outside of it.\<close>

lemma inner_variable_is_dropped_outside:
  "with_drops [stmt_of (SIf drop_nil [let_x, read_x] None), stmt_of SBreak, stmt_of SContinue] =
    [stmt_of (SIf drop_nil [let_x, read_x] None), stmt_of SBreak, drop_stmt [120], stmt_of SContinue]"
  by code_simp

end
