(* ===== verification/Sem_Exhaustive.thy ===== *)
theory Sem_Exhaustive
  imports Hir_Types
begin

text \<open>
  Exhaustiveness of matches (\<open>doo_analysis/src/semantic/exhaustiveness.rs\<close>): what the arms of a match
  cover, the type of a matched expression where the representation has none, and the pass over a
  program that reports the missing cases and the arms no value reaches. The way a float is printed
  is an argument, \<open>float\<close>: a covered float literal is remembered by it.
\<close>

section \<open>Errors\<close>

datatype exhaustiveness_error_kind = NonExhaustive "ustr list" | UnreachablePattern

record exhaustiveness_error =
  ee_kind :: exhaustiveness_error_kind
  ee_span :: src_span

definition exhaustiveness_message :: "exhaustiveness_error \<Rightarrow> ustr" where
  "exhaustiveness_message e =
     (case ee_kind e of
        NonExhaustive missing \<Rightarrow> ascii ''non-exhaustive match: missing '' @ join_names missing
      | UnreachablePattern \<Rightarrow> ascii ''unreachable pattern'')"

section \<open>Covered patterns\<close>

record covered_patterns =
  cv_wildcard :: bool
  cv_bools :: "bool set"
  cv_variants :: "ustr set"
  cv_literals :: "ustr set"

definition new_covered :: covered_patterns where
  "new_covered = \<lparr>cv_wildcard = False, cv_bools = {}, cv_variants = {}, cv_literals = {}\<rparr>"

definition add_wildcard :: "covered_patterns \<Rightarrow> covered_patterns" where
  "add_wildcard v = v\<lparr>cv_wildcard := True\<rparr>"

definition add_bool :: "bool \<Rightarrow> covered_patterns \<Rightarrow> covered_patterns" where
  "add_bool b v = v\<lparr>cv_bools := insert b (cv_bools v)\<rparr>"

definition add_enum_variant :: "ustr \<Rightarrow> covered_patterns \<Rightarrow> covered_patterns" where
  "add_enum_variant n v = v\<lparr>cv_variants := insert n (cv_variants v)\<rparr>"

definition add_literal :: "ustr \<Rightarrow> covered_patterns \<Rightarrow> covered_patterns" where
  "add_literal n v = v\<lparr>cv_literals := insert n (cv_literals v)\<rparr>"

definition check_bool_exhaustive :: "covered_patterns \<Rightarrow> (ustr list, unit) sum" where
  "check_bool_exhaustive v =
     (let missing = (if True \<notin> cv_bools v then [ascii ''true''] else []) @
                    (if False \<notin> cv_bools v then [ascii ''false''] else [])
      in if missing = [] then Inr () else Inl missing)"

definition variant_label :: "ustr \<Rightarrow> ustr \<Rightarrow> ustr" where
  "variant_label enum variant = enum @ ascii ''::'' @ variant"

definition check_enum_exhaustive ::
    "covered_patterns \<Rightarrow> ustr \<Rightarrow> (ustr \<times> tid option) list \<Rightarrow> (ustr list, unit) sum" where
  "check_enum_exhaustive v enum variants =
     (let missing = map (\<lambda>(n, _). variant_label enum n) (filter (\<lambda>(n, _). n \<notin> cv_variants v) variants)
      in if missing = [] then Inr () else Inl missing)"

definition is_exhaustive :: "covered_patterns \<Rightarrow> tid \<Rightarrow> registry \<Rightarrow> (ustr list, unit) sum" where
  "is_exhaustive v t r =
     (if cv_wildcard v then Inr ()
      else if t = ty_bool then check_bool_exhaustive v
      else case map_option ti_kind (reg_get r t) of
             Some (TyEnum name variants) \<Rightarrow> check_enum_exhaustive v name variants
           | _ \<Rightarrow> Inl [ascii ''_''])"

section \<open>Types of matched expressions\<close>

definition infer_method_return_type :: "registry \<Rightarrow> tid \<Rightarrow> ustr \<Rightarrow> tid option" where
  "infer_method_return_type r receiver m =
     (case map_option ti_kind (reg_get r receiver) of
        Some (TyArray element) \<Rightarrow>
          if m \<in> {ascii ''get'', ascii ''first'', ascii ''last'', ascii ''pop'', ascii ''shift''} then Some element
          else if m = ascii ''len'' then Some ty_int
          else if m = ascii ''isEmpty'' then Some ty_bool
          else if m = ascii ''contains'' then Some ty_bool
          else None
      | Some (TyMap _ val) \<Rightarrow>
          if m = ascii ''get'' then Some val
          else if m = ascii ''len'' then Some ty_int
          else if m \<in> {ascii ''isEmpty'', ascii ''has'', ascii ''containsKey'', ascii ''containsValue''} then Some ty_bool
          else None
      | Some TyStr \<Rightarrow>
          if m \<in> {ascii ''len'', ascii ''indexOf'', ascii ''charCode''} then Some ty_int
          else if m \<in> {ascii ''isEmpty'', ascii ''contains'', ascii ''startsWith'', ascii ''endsWith''} then Some ty_bool
          else if m \<in> {ascii ''trim'', ascii ''toUpperCase'', ascii ''toLowerCase'', ascii ''substr'', ascii ''replace''}
            then Some ty_str
          else if m = ascii ''charAt'' then Some ty_str
          else None
      | _ \<Rightarrow> None)"

definition indexed_type :: "registry \<Rightarrow> tid \<Rightarrow> tid option" where
  "indexed_type r obj =
     (case map_option ti_kind (reg_get r obj) of
        Some (TyArray element) \<Rightarrow> Some element
      | Some (TyMap _ val) \<Rightarrow> Some val
      | Some TyStr \<Rightarrow> Some ty_str
      | Some (TyTuple (e # _)) \<Rightarrow> Some e
      | _ \<Rightarrow> None)"

definition field_type :: "registry \<Rightarrow> tid \<Rightarrow> ustr \<Rightarrow> tid option" where
  "field_type r obj field =
     (case map_option ti_kind (reg_get r obj) of
        Some (TyStruct _ fs _) \<Rightarrow> map_option (\<lambda>(_, t, _). t) (find (\<lambda>(n, _). n = field) fs)
      | _ \<Rightarrow> None)"

function infer_expr_type :: "registry \<Rightarrow> (ustr \<rightharpoonup> tid) \<Rightarrow> hir_expr \<Rightarrow> tid option" where
  "infer_expr_type r locals (HirExpr kind t s) =
    (case kind of
      HConst c \<Rightarrow> Some (const_type c)
    | HLocal name \<Rightarrow> (case locals name of Some lt \<Rightarrow> Some lt | None \<Rightarrow> t)
    | HIndex obj _ \<Rightarrow>
        Option.bind (case he_type obj of Some ot \<Rightarrow> Some ot | None \<Rightarrow> infer_expr_type r locals obj) (indexed_type r)
    | HField obj field \<Rightarrow>
        Option.bind (case he_type obj of Some ot \<Rightarrow> Some ot | None \<Rightarrow> infer_expr_type r locals obj)
          (\<lambda>ot. field_type r ot field)
    | HMethodCall receiver m _ \<Rightarrow>
        Option.bind (case he_type receiver of Some ot \<Rightarrow> Some ot | None \<Rightarrow> infer_expr_type r locals receiver)
          (\<lambda>ot. infer_method_return_type r ot m)
    | _ \<Rightarrow> None)"
  by pat_completeness auto
termination by (relation "measure (\<lambda>(r, l, e). size e)") auto

definition expr_type_or_inferred :: "registry \<Rightarrow> (ustr \<rightharpoonup> tid) \<Rightarrow> hir_expr \<Rightarrow> tid option" where
  "expr_type_or_inferred r locals e = (case he_type e of Some t \<Rightarrow> Some t | None \<Rightarrow> infer_expr_type r locals e)"

section \<open>One match\<close>

record exhaustiveness_checker =
  ex_registry :: registry
  ex_errors :: "exhaustiveness_error list"
  ex_locals :: "ustr \<rightharpoonup> tid"

definition new_exhaustiveness_checker :: "registry \<Rightarrow> exhaustiveness_checker" where
  "new_exhaustiveness_checker r = \<lparr>ex_registry = r, ex_errors = [], ex_locals = Map.empty\<rparr>"

definition push_exhaustiveness ::
    "exhaustiveness_error_kind \<Rightarrow> src_span \<Rightarrow> exhaustiveness_checker \<Rightarrow> exhaustiveness_checker" where
  "push_exhaustiveness k s c = c\<lparr>ex_errors := ex_errors c @ [\<lparr>ee_kind = k, ee_span = s\<rparr>]\<rparr>"

definition process_literal_pattern :: "(64 word \<Rightarrow> ustr) \<Rightarrow> hir_expr \<Rightarrow> covered_patterns \<Rightarrow> covered_patterns" where
  "process_literal_pattern float e v =
     (case he_kind e of
        HConst k \<Rightarrow>
          (case k of
             HcBool b \<Rightarrow> add_bool b v
           | HcInt i \<Rightarrow> add_literal (ascii (show_int (sint i))) v
           | HcFloat f \<Rightarrow> add_literal (float f) v
           | HcStr s \<Rightarrow> add_literal s v
           | HcNil \<Rightarrow> add_literal (ascii ''nil'') v)
      | _ \<Rightarrow> v)"

definition process_pattern :: "(64 word \<Rightarrow> ustr) \<Rightarrow> hir_match_pattern \<Rightarrow> covered_patterns \<Rightarrow> covered_patterns" where
  "process_pattern float p v =
     (case p of
        PWildcard \<Rightarrow> add_wildcard v
      | PLiteral e \<Rightarrow> process_literal_pattern float e v
      | PCondition _ \<Rightarrow> v
      | PEnumVariant _ n \<Rightarrow> add_enum_variant n v
      | PEnumVariantPayload _ n _ \<Rightarrow> add_enum_variant n v
      | PTuple ps \<Rightarrow> if PWildcard \<in> set ps then add_wildcard v else v)"

text \<open>The loop over the arms: once something covers every value, the arms that follow are reported.
  In the source a second flag is set together with the wildcard of the covered patterns.\<close>

fun process_arms ::
    "(64 word \<Rightarrow> ustr) \<Rightarrow> hir_match_arm list \<Rightarrow> covered_patterns \<Rightarrow> exhaustiveness_checker
      \<Rightarrow> covered_patterns \<times> exhaustiveness_checker" where
  "process_arms float [] v c = (v, c)"
| "process_arms float (arm # arms) v c =
     (if cv_wildcard v then process_arms float arms v (push_exhaustiveness UnreachablePattern (arm_span arm) c)
      else process_arms float arms (process_pattern float (arm_pattern arm) v) c)"

definition pattern_enum :: "hir_match_pattern \<Rightarrow> ustr option" where
  "pattern_enum p =
     (case p of PEnumVariant e _ \<Rightarrow> Some e | PEnumVariantPayload e _ _ \<Rightarrow> Some e | _ \<Rightarrow> None)"

definition effective_type :: "registry \<Rightarrow> tid \<Rightarrow> hir_match_arm list \<Rightarrow> tid" where
  "effective_type r t arms =
     (if t = ty_any then
        (case List.map_filter (pattern_enum \<circ> arm_pattern) arms of
           name # _ \<Rightarrow> (case reg_lookup r name of Some e \<Rightarrow> e | None \<Rightarrow> t)
         | [] \<Rightarrow> t)
      else t)"

definition check_match_exhaustive ::
    "(64 word \<Rightarrow> ustr) \<Rightarrow> tid \<Rightarrow> hir_match_arm list \<Rightarrow> src_span \<Rightarrow> exhaustiveness_checker \<Rightarrow> exhaustiveness_checker" where
  "check_match_exhaustive float t arms s c =
     (let (v, c) = process_arms float arms new_covered c
      in case is_exhaustive v (effective_type (ex_registry c) t arms) (ex_registry c) of
           Inl missing \<Rightarrow> push_exhaustiveness (NonExhaustive missing) s c
         | Inr _ \<Rightarrow> c)"

section \<open>Statements, expressions and programs\<close>

definition set_local :: "ustr \<Rightarrow> tid \<Rightarrow> exhaustiveness_checker \<Rightarrow> exhaustiveness_checker" where
  "set_local n t c = c\<lparr>ex_locals := (ex_locals c)(n \<mapsto> t)\<rparr>"

definition track_let :: "ustr \<Rightarrow> hir_expr \<Rightarrow> exhaustiveness_checker \<Rightarrow> exhaustiveness_checker" where
  "track_let name e c =
     (case expr_type_or_inferred (ex_registry c) (ex_locals c) e of Some t \<Rightarrow> set_local name t c | None \<Rightarrow> c)"

definition track_tuple_let :: "ustr list \<Rightarrow> hir_expr \<Rightarrow> exhaustiveness_checker \<Rightarrow> exhaustiveness_checker" where
  "track_tuple_let names e c =
     (case Option.bind (expr_type_or_inferred (ex_registry c) (ex_locals c) e) (reg_get (ex_registry c)) of
        Some info \<Rightarrow>
          (case ti_kind info of
             TyTuple elements \<Rightarrow> fold (\<lambda>(n, t). set_local n t) (zip names elements) c
           | _ \<Rightarrow> c)
      | None \<Rightarrow> c)"

definition check_matched :: "(64 word \<Rightarrow> ustr) \<Rightarrow> hir_expr list \<Rightarrow> hir_match_arm list \<Rightarrow> src_span
    \<Rightarrow> exhaustiveness_checker \<Rightarrow> exhaustiveness_checker" where
  "check_matched float vs arms s c =
     (case vs of
        [v] \<Rightarrow>
          (let t = (case expr_type_or_inferred (ex_registry c) (ex_locals c) v of Some t \<Rightarrow> t | None \<Rightarrow> ty_any)
           in check_match_exhaustive float t arms s c)
      | _ \<Rightarrow> c)"

function exhaust_expr :: "(64 word \<Rightarrow> ustr) \<Rightarrow> hir_expr \<Rightarrow> exhaustiveness_checker \<Rightarrow> exhaustiveness_checker"
  and exhaust_stmt :: "(64 word \<Rightarrow> ustr) \<Rightarrow> hir_stmt \<Rightarrow> exhaustiveness_checker \<Rightarrow> exhaustiveness_checker"
where
  "exhaust_expr float (HirExpr kind t s) c =
    (case kind of
      HMatch vs arms \<Rightarrow>
        fold (\<lambda>arm c.
            case arm of HirMatchArm p g body _ \<Rightarrow>
              (let c = exhaust_expr float body c
               in case g of Some e \<Rightarrow> exhaust_expr float e c | None \<Rightarrow> c))
          arms (check_matched float vs arms s c)
    | HBinOp _ l r \<Rightarrow> exhaust_expr float r (exhaust_expr float l c)
    | HUnaryOp _ e \<Rightarrow> exhaust_expr float e c
    | HCall f args \<Rightarrow> fold (exhaust_expr float) args (exhaust_expr float f c)
    | HMethodCall e _ args \<Rightarrow> fold (exhaust_expr float) args (exhaust_expr float e c)
    | HField e _ \<Rightarrow> exhaust_expr float e c
    | HIndex e i \<Rightarrow> exhaust_expr float i (exhaust_expr float e c)
    | HArray es \<Rightarrow> fold (exhaust_expr float) es c
    | HMap kvs \<Rightarrow> fold (\<lambda>(k, v) c. exhaust_expr float v (exhaust_expr float k c)) kvs c
    | HTuple es \<Rightarrow> fold (exhaust_expr float) es c
    | HStruct _ fs \<Rightarrow> fold (\<lambda>(_, v) c. exhaust_expr float v c) fs c
    | HEnumVariant _ _ es \<Rightarrow> fold (exhaust_expr float) es c
    | HIf cond a b \<Rightarrow>
        (let c = exhaust_expr float a (exhaust_expr float cond c)
         in case b of Some e \<Rightarrow> exhaust_expr float e c | None \<Rightarrow> c)
    | HBlock ss e \<Rightarrow>
        (let c = fold (exhaust_stmt float) ss c
         in case e of Some e \<Rightarrow> exhaust_expr float e c | None \<Rightarrow> c)
    | HRange a b _ \<Rightarrow> exhaust_expr float b (exhaust_expr float a c)
    | HOk e \<Rightarrow> exhaust_expr float e c
    | HErr e \<Rightarrow> exhaust_expr float e c
    | HTry e \<Rightarrow> exhaust_expr float e c
    | HUnwrapOrPanic e m \<Rightarrow> exhaust_expr float m (exhaust_expr float e c)
    | HCast e _ \<Rightarrow> exhaust_expr float e c
    | HClosure _ e \<Rightarrow> exhaust_expr float e c
    | HSpread e \<Rightarrow> exhaust_expr float e c
    | HRouteBlock es \<Rightarrow> fold (exhaust_expr float) es c
    | HMove e \<Rightarrow> exhaust_expr float e c
    | HClone e \<Rightarrow> exhaust_expr float e c
    | HBorrow e _ \<Rightarrow> exhaust_expr float e c
    | HAwait e \<Rightarrow> exhaust_expr float e c
    | HSpawn e \<Rightarrow> exhaust_expr float e c
    | HScopeBlock ss \<Rightarrow> fold (exhaust_stmt float) ss c
    | HConst _ \<Rightarrow> c
    | HLocal _ \<Rightarrow> c
    | HGlobal _ \<Rightarrow> c)"
| "exhaust_stmt float (HirStmt kind s) c =
    (case kind of
      SLet name _ v _ _ \<Rightarrow> track_let name v (exhaust_expr float v c)
    | STupleLet names _ v _ \<Rightarrow> track_tuple_let names v (exhaust_expr float v c)
    | SAssign target v \<Rightarrow> exhaust_expr float v (exhaust_expr float target c)
    | SExpr e \<Rightarrow> exhaust_expr float e c
    | SReturn es \<Rightarrow> fold (exhaust_expr float) es c
    | SIf cond a b \<Rightarrow>
        (let c = fold (exhaust_stmt float) a (exhaust_expr float cond c)
         in case b of Some ss \<Rightarrow> fold (exhaust_stmt float) ss c | None \<Rightarrow> c)
    | SWhile cond body inc \<Rightarrow>
        fold (exhaust_stmt float) inc (fold (exhaust_stmt float) body (exhaust_expr float cond c))
    | SManualErrorExtract _ _ e \<Rightarrow> exhaust_expr float e c
    | SBreak \<Rightarrow> c
    | SContinue \<Rightarrow> c
    | SDrop _ \<Rightarrow> c)"
  by pat_completeness auto
termination
  by (relation "measure (\<lambda>a. case a of Inl (f, e, c) \<Rightarrow> size e | Inr (f, s, c) \<Rightarrow> size s)")
    (auto simp: termination_simp)

definition exhaust_function :: "(64 word \<Rightarrow> ustr) \<Rightarrow> hir_function \<Rightarrow> exhaustiveness_checker \<Rightarrow> exhaustiveness_checker" where
  "exhaust_function float f c =
     fold (exhaust_stmt float) (hf_body f)
       (fold (\<lambda>p c. case hp_type p of Some t \<Rightarrow> set_local (hp_name p) t c | None \<Rightarrow> c) (hf_params f)
         (c\<lparr>ex_locals := Map.empty\<rparr>))"

definition exhaust_item :: "(64 word \<Rightarrow> ustr) \<Rightarrow> hir_item \<Rightarrow> exhaustiveness_checker \<Rightarrow> exhaustiveness_checker" where
  "exhaust_item float item c = (case item of IFunction f \<Rightarrow> exhaust_function float f c | _ \<Rightarrow> c)"

definition check_exhaustiveness ::
    "(64 word \<Rightarrow> ustr) \<Rightarrow> hir_program \<Rightarrow> exhaustiveness_checker \<Rightarrow> exhaustiveness_error list \<times> exhaustiveness_checker" where
  "check_exhaustiveness float p c =
     (let c = fold (exhaust_item float) (hpr_items p) c in (ex_errors c, c\<lparr>ex_errors := []\<rparr>))"

end
