(* ===== verification/Sem_Matches.thy ===== *)
theory Sem_Matches
  imports Sem_Exhaustive
begin

text \<open>
  What the exhaustiveness check means: which arms a value can take, given the outcomes of the guards and
  conditions, and that the missing cases the check reports are exactly those of values that may be left without
  an arm.
\<close>

section \<open>Values and the patterns that match them\<close>

datatype scrutinee = VBool bool | VVariant ustr ustr

text \<open>Whether a value takes a pattern or an arm, for given outcomes of the conditions and guards (and of the
  comparison with an expression that is no constant). A value is surely taken when it has an arm whatever the
  outcomes.\<close>

fun takes_pattern :: "(hir_expr \<Rightarrow> bool) \<Rightarrow> hir_match_pattern \<Rightarrow> scrutinee \<Rightarrow> bool" where
  "takes_pattern holds PWildcard x \<longleftrightarrow> True"
| "takes_pattern holds (PLiteral e) x \<longleftrightarrow>
     (case he_kind e of HConst c \<Rightarrow> (\<exists>b. c = HcBool b \<and> x = VBool b) | _ \<Rightarrow> holds e)"
| "takes_pattern holds (PEnumVariant e n) x \<longleftrightarrow> x = VVariant e n"
| "takes_pattern holds (PEnumVariantPayload e n _) x \<longleftrightarrow> x = VVariant e n"
| "takes_pattern holds (PCondition e) x \<longleftrightarrow> holds e"
| "takes_pattern holds (PTuple _) x \<longleftrightarrow> False"

definition takes_arm :: "(hir_expr \<Rightarrow> bool) \<Rightarrow> hir_match_arm \<Rightarrow> scrutinee \<Rightarrow> bool" where
  "takes_arm holds arm x \<longleftrightarrow>
     takes_pattern holds (arm_pattern arm) x \<and> (case arm_guard arm of Some g \<Rightarrow> holds g | None \<Rightarrow> True)"

definition surely_taken :: "hir_match_arm list \<Rightarrow> scrutinee \<Rightarrow> bool" where
  "surely_taken arms x \<longleftrightarrow> (\<forall>holds. \<exists>arm\<in>set arms. takes_arm holds arm x)"

abbreviation matches :: "hir_match_pattern \<Rightarrow> scrutinee \<Rightarrow> bool" where
  "matches \<equiv> takes_pattern (\<lambda>_. False)"

lemma takes_whatever: "matches p x \<Longrightarrow> takes_pattern holds p x"
  by (cases p) (auto split: hir_expr_kind.splits)

lemma surely_taken_iff:
  "surely_taken arms x \<longleftrightarrow> (\<exists>arm\<in>set arms. matches (arm_pattern arm) x \<and> arm_guard arm = None)"
proof
  assume "surely_taken arms x"
  then obtain arm where "arm \<in> set arms" "takes_arm (\<lambda>_. False) arm x" unfolding surely_taken_def by blast
  then show "\<exists>arm\<in>set arms. matches (arm_pattern arm) x \<and> arm_guard arm = None"
    by (cases "arm_guard arm") (auto simp: takes_arm_def)
next
  assume "\<exists>arm\<in>set arms. matches (arm_pattern arm) x \<and> arm_guard arm = None"
  then obtain arm where "arm \<in> set arms" "takes_arm holds arm x" for holds
    using takes_whatever by (auto simp: takes_arm_def)
  then show "surely_taken arms x" unfolding surely_taken_def by blast
qed

fun inhabits :: "registry \<Rightarrow> tid \<Rightarrow> scrutinee \<Rightarrow> bool" where
  "inhabits r t (VBool _) \<longleftrightarrow> t = ty_bool"
| "inhabits r t (VVariant e n) \<longleftrightarrow>
     t \<noteq> ty_bool \<and> (case map_option ti_kind (reg_get r t) of Some (TyEnum name variants) \<Rightarrow> e = name \<and> n \<in> fst ` set variants
      | _ \<Rightarrow> False)"

fun case_label :: "scrutinee \<Rightarrow> ustr" where
  "case_label (VBool b) = (if b then ascii ''true'' else ascii ''false'')"
| "case_label (VVariant e n) = variant_label e n"

text \<open>Types with finitely many cases, and arms typed for one: variants of its enumeration only, and no tuple.\<close>

definition has_cases :: "registry \<Rightarrow> tid \<Rightarrow> bool" where
  "has_cases r t \<longleftrightarrow> t = ty_bool \<or> (\<exists>name variants. map_option ti_kind (reg_get r t) = Some (TyEnum name variants))"

definition arm_fits :: "registry \<Rightarrow> tid \<Rightarrow> hir_match_pattern \<Rightarrow> bool" where
  "arm_fits r t p \<longleftrightarrow>
     (\<forall>ps. p \<noteq> PTuple ps) \<and>
     (case pattern_enum p of
        Some e \<Rightarrow> (case map_option ti_kind (reg_get r t) of Some (TyEnum name _) \<Rightarrow> e = name | _ \<Rightarrow> True)
      | None \<Rightarrow> True)"

section \<open>What the loop over the arms collects\<close>

definition covers_case :: "covered_patterns \<Rightarrow> scrutinee \<Rightarrow> bool" where
  "covers_case v x \<longleftrightarrow>
     cv_wildcard v \<or> (case x of VBool b \<Rightarrow> b \<in> cv_bools v | VVariant e n \<Rightarrow> n \<in> cv_variants v)"

lemmas cover_defs = covers_case_def add_wildcard_def add_bool_def add_enum_variant_def add_literal_def

lemma process_pattern_covers:
  assumes "arm_fits r t p" "inhabits r t x"
  shows "covers_case (process_pattern float p v) x \<longleftrightarrow> covers_case v x \<or> matches p x"
proof (cases p)
  case (PLiteral e)
  then show ?thesis
    by (cases "he_kind e"; cases x)
      (auto simp: process_pattern_def process_literal_pattern_def cover_defs split: const_value.splits)
next
  case (PTuple ps)
  then show ?thesis using assms by (simp add: arm_fits_def)
next
  case (PEnumVariant e n)
  then show ?thesis using assms
    by (cases x) (auto simp: process_pattern_def cover_defs arm_fits_def pattern_enum_def split: option.splits type_kind.splits)
next
  case (PEnumVariantPayload e n bs)
  then show ?thesis using assms
    by (cases x) (auto simp: process_pattern_def cover_defs arm_fits_def pattern_enum_def split: option.splits type_kind.splits)
qed (auto simp: process_pattern_def cover_defs split: scrutinee.splits)

lemma process_arms_covers:
  assumes "\<forall>arm\<in>set arms. arm_fits r t (arm_pattern arm)" "inhabits r t x"
  shows "covers_case (fst (process_arms float arms v c)) x
    \<longleftrightarrow> covers_case v x \<or> (\<exists>arm\<in>set arms. matches (arm_pattern arm) x)"
  using assms(1)
proof (induction arms arbitrary: v c)
  case (Cons arm arms)
  have step: "covers_case (process_pattern float (arm_pattern arm) v) x \<longleftrightarrow> covers_case v x \<or> matches (arm_pattern arm) x"
    using process_pattern_covers [OF _ assms(2)] Cons.prems by simp
  have "cv_wildcard v \<Longrightarrow> covers_case v x" by (simp add: covers_case_def)
  then show ?case using Cons step by (cases "cv_wildcard v") auto
qed simp

text \<open>Without any assumption on the arms, what a pattern surely matches is covered.\<close>

lemma process_pattern_keeps: "covers_case v x \<or> matches p x \<Longrightarrow> covers_case (process_pattern float p v) x"
  by (cases p; cases x)
    (auto simp: process_pattern_def process_literal_pattern_def cover_defs split: hir_expr_kind.splits const_value.splits)

lemma process_arms_keeps:
  "covers_case v x \<or> (\<exists>arm\<in>set arms. matches (arm_pattern arm) x) \<Longrightarrow> covers_case (fst (process_arms float arms v c)) x"
proof (induction arms arbitrary: v c)
  case (Cons arm arms)
  have "covers_case v x \<or> matches (arm_pattern arm) x \<Longrightarrow> covers_case (process_pattern float (arm_pattern arm) v) x"
    by (rule process_pattern_keeps)
  moreover have "cv_wildcard v \<Longrightarrow> covers_case v x" by (simp add: covers_case_def)
  ultimately show ?case using Cons by (cases "cv_wildcard v") auto
qed simp

lemma process_arms_checker:
  "ex_registry (snd (process_arms float arms v c)) = ex_registry c"
  "ex_locals (snd (process_arms float arms v c)) = ex_locals c"
  "\<exists>spans. ex_errors (snd (process_arms float arms v c)) = ex_errors c @ map (\<lambda>s. \<lparr>ee_kind = UnreachablePattern, ee_span = s\<rparr>) spans"
proof (induction arms arbitrary: v c)
  case (Cons arm arms)
  {
    case 1
    then show ?case using Cons by (simp add: push_exhaustiveness_def)
  next
    case 2
    then show ?case using Cons by (simp add: push_exhaustiveness_def)
  next
    case 3
    let ?c = "push_exhaustiveness UnreachablePattern (arm_span arm) c"
    obtain spans where "ex_errors (snd (process_arms float arms v ?c)) =
        ex_errors ?c @ map (\<lambda>s. \<lparr>ee_kind = UnreachablePattern, ee_span = s\<rparr>) spans"
      using Cons(3) by blast
    then have "ex_errors (snd (process_arms float arms v ?c)) =
        ex_errors c @ map (\<lambda>s. \<lparr>ee_kind = UnreachablePattern, ee_span = s\<rparr>) (arm_span arm # spans)"
      by (simp add: push_exhaustiveness_def)
    then have "\<exists>spans. ex_errors (snd (process_arms float arms v ?c)) =
        ex_errors c @ map (\<lambda>s. \<lparr>ee_kind = UnreachablePattern, ee_span = s\<rparr>) spans"
      by blast
    then show ?case using Cons(3) by (cases "cv_wildcard v") simp_all
  }
qed simp_all

lemma is_exhaustive_covers:
  assumes "inhabits r t x"
  shows "covers_case v x \<longleftrightarrow> (\<forall>missing. is_exhaustive v t r = Inl missing \<longrightarrow> case_label x \<notin> set missing)"
proof (cases x)
  case (VBool b)
  then show ?thesis using assms
    by (auto simp: is_exhaustive_def covers_case_def check_bool_exhaustive_def ascii_def Let_def)
next
  case (VVariant e n)
  then show ?thesis using assms
    by (auto simp: is_exhaustive_def covers_case_def check_enum_exhaustive_def variant_label_def ascii_def Let_def
        image_iff filter_empty_conv split: option.splits type_kind.splits)
qed


section \<open>Exactness\<close>

text \<open>The missing cases a match adds to the errors, if any.\<close>

definition reported_missing :: "exhaustiveness_checker \<Rightarrow> exhaustiveness_checker \<Rightarrow> ustr set" where
  "reported_missing c d =
     {n. \<exists>missing s. \<lparr>ee_kind = NonExhaustive missing, ee_span = s\<rparr> \<in> set (drop (length (ex_errors c)) (ex_errors d)) \<and>
        n \<in> set missing}"

lemma missing_are_labels:
  assumes "has_cases r t" "is_exhaustive v t r = Inl missing" "n \<in> set missing"
  obtains x where "inhabits r t x" "n = case_label x"
proof (cases "t = ty_bool")
  case True
  then have "n = case_label (VBool True) \<or> n = case_label (VBool False)"
    using assms(2,3) by (auto simp: is_exhaustive_def check_bool_exhaustive_def Let_def split: if_splits)
  moreover have "inhabits r t (VBool b)" for b using True by simp
  ultimately show thesis using that by blast
next
  case False
  then obtain name variants where kind: "map_option ti_kind (reg_get r t) = Some (TyEnum name variants)"
    using assms(1) by (auto simp: has_cases_def)
  then have "check_enum_exhaustive v name variants = Inl missing"
    using assms(2) False unfolding is_exhaustive_def kind by (simp split: if_splits)
  then have "missing = map (\<lambda>(n, _). variant_label name n) (filter (\<lambda>(n, _). n \<notin> cv_variants v) variants)"
    unfolding check_enum_exhaustive_def Let_def by (simp split: if_splits)
  then have "\<exists>m\<in>fst ` set variants. n = variant_label name m" using assms(3) by force
  then obtain m where m: "m \<in> fst ` set variants" "n = variant_label name m" by blast
  show thesis by (rule that [of "VVariant name m"]) (use m kind False in force)+
qed


definition sample_pattern_arm :: "hir_match_pattern \<Rightarrow> hir_expr option \<Rightarrow> hir_match_arm" where
  "sample_pattern_arm p g = HirMatchArm p g (HirExpr (HConst HcNil) None empty_span) empty_span"

definition bool_pattern :: "bool \<Rightarrow> hir_match_pattern" where
  "bool_pattern b = PLiteral (HirExpr (HConst (HcBool b)) None empty_span)"


section \<open>Cases the check lets through\<close>

text \<open>A guarded arm counts as if its guard always held.\<close>

lemma guarded_wildcard_is_accepted:
  "ex_errors (check_match_exhaustive float ty_int [sample_pattern_arm PWildcard (Some g)] s c) = ex_errors c"
  by (simp add: check_match_exhaustive_def sample_pattern_arm_def process_pattern_def new_covered_def add_wildcard_def
      is_exhaustive_def)

text \<open>A tuple pattern with one wildcard counts as matching everything.\<close>

lemma partial_tuple_is_accepted:
  "ex_errors (check_match_exhaustive float t [sample_pattern_arm (PTuple [bool_pattern True, PWildcard]) None] s c) = ex_errors c"
  by (simp add: check_match_exhaustive_def sample_pattern_arm_def process_pattern_def new_covered_def add_wildcard_def
      is_exhaustive_def)

text \<open>The matched expression itself is not searched for matches.\<close>

lemma matches_in_scrutinee_are_skipped:
  "exhaust_expr float (HirExpr (HMatch [e, f] []) t s) c = c"
  by (simp add: check_matched_def)

end
