(* ===== verification/Ast_Types.thy ===== *)
theory Ast_Types
  imports Lex_Token "HOL-Library.Word"
begin

text \<open>
  The syntax trees of the parser (\<open>doo_frontend/src/ast\<close>): type expressions, patterns, expressions,
  statements and declarations, each with its span. A declaration that can stand inside a function body
  is a datatype over the type of its expressions, so that statements and declarations can contain each
  other. A 64-bit float is its bit pattern.
\<close>

section \<open>Type expressions\<close>

datatype type_expr = TypeExpr (te_kind: type_expr_kind) (te_span: src_span)
and type_expr_kind =
    TeNamed ustr
  | TeArray type_expr
  | TeMap type_expr type_expr
  | TeTuple "type_expr list"
  | TeOptional type_expr
  | TeResult type_expr type_expr
  | TeFunction "type_expr list" type_expr
  | TeRange type_expr
  | TeAny
  | TeVoid
  | TeError

definition named_type :: "ustr \<Rightarrow> src_span \<Rightarrow> type_expr" where
  "named_type n sp = TypeExpr (TeNamed n) sp"

definition array_type :: "type_expr \<Rightarrow> src_span \<Rightarrow> type_expr" where
  "array_type t sp = TypeExpr (TeArray t) sp"

definition optional_type :: "type_expr \<Rightarrow> src_span \<Rightarrow> type_expr" where
  "optional_type t sp = TypeExpr (TeOptional t) sp"

definition void_type :: "src_span \<Rightarrow> type_expr" where
  "void_type sp = TypeExpr TeVoid sp"

section \<open>Operators\<close>

datatype bin_op =
    BoAdd | BoSub | BoMul | BoDiv | BoMod | BoEq | BoNotEq | BoLt | BoGt | BoLtEq | BoGtEq | BoIn
  | BoAnd | BoOr | BoBitAnd | BoBitOr | BoNullCoalesce

primrec bin_op_text :: "bin_op \<Rightarrow> string" where
  "bin_op_text BoAdd = ''+''"
| "bin_op_text BoSub = ''-''"
| "bin_op_text BoMul = ''*''"
| "bin_op_text BoDiv = ''/''"
| "bin_op_text BoMod = ''%''"
| "bin_op_text BoEq = ''==''"
| "bin_op_text BoNotEq = ''!=''"
| "bin_op_text BoLt = ''<''"
| "bin_op_text BoGt = ''>''"
| "bin_op_text BoLtEq = ''<=''"
| "bin_op_text BoGtEq = ''>=''"
| "bin_op_text BoIn = ''in''"
| "bin_op_text BoAnd = ''&&''"
| "bin_op_text BoOr = ''||''"
| "bin_op_text BoBitAnd = ''&''"
| "bin_op_text BoBitOr = ''|''"
| "bin_op_text BoNullCoalesce = ''??''"

primrec precedence :: "bin_op \<Rightarrow> nat" where
  "precedence BoOr = 1"
| "precedence BoAnd = 2"
| "precedence BoEq = 3"
| "precedence BoNotEq = 3"
| "precedence BoLt = 4"
| "precedence BoGt = 4"
| "precedence BoLtEq = 4"
| "precedence BoGtEq = 4"
| "precedence BoIn = 4"
| "precedence BoNullCoalesce = 5"
| "precedence BoBitOr = 6"
| "precedence BoBitAnd = 7"
| "precedence BoAdd = 8"
| "precedence BoSub = 8"
| "precedence BoMul = 9"
| "precedence BoDiv = 9"
| "precedence BoMod = 9"

fun bin_op_from_token :: "token_kind \<Rightarrow> bin_op option" where
  "bin_op_from_token (TkOperator OpPlus) = Some BoAdd"
| "bin_op_from_token (TkOperator OpMinus) = Some BoSub"
| "bin_op_from_token (TkOperator OpStar) = Some BoMul"
| "bin_op_from_token (TkOperator OpSlash) = Some BoDiv"
| "bin_op_from_token (TkOperator OpPercent) = Some BoMod"
| "bin_op_from_token (TkOperator OpEqEq) = Some BoEq"
| "bin_op_from_token (TkOperator OpNotEq) = Some BoNotEq"
| "bin_op_from_token (TkOperator OpLt) = Some BoLt"
| "bin_op_from_token (TkOperator OpGt) = Some BoGt"
| "bin_op_from_token (TkOperator OpLtEq) = Some BoLtEq"
| "bin_op_from_token (TkOperator OpGtEq) = Some BoGtEq"
| "bin_op_from_token (TkKeyword KwIn) = Some BoIn"
| "bin_op_from_token (TkOperator OpAndAnd) = Some BoAnd"
| "bin_op_from_token (TkOperator OpOrOr) = Some BoOr"
| "bin_op_from_token (TkOperator OpAnd) = Some BoBitAnd"
| "bin_op_from_token (TkOperator OpOr) = Some BoBitOr"
| "bin_op_from_token (TkPunct PuQuestionQuestion) = Some BoNullCoalesce"
| "bin_op_from_token _ = None"

datatype unary_op = UoNeg | UoNot

primrec unary_op_text :: "unary_op \<Rightarrow> string" where
  "unary_op_text UoNeg = ''-''"
| "unary_op_text UoNot = ''!''"

fun unary_op_from_token :: "token_kind \<Rightarrow> unary_op option" where
  "unary_op_from_token (TkOperator OpMinus) = Some UoNeg"
| "unary_op_from_token (TkOperator OpBang) = Some UoNot"
| "unary_op_from_token _ = None"

datatype compound_op = CoAdd | CoSub | CoMul | CoDiv | CoMod

fun compound_op_from_token :: "token_kind \<Rightarrow> compound_op option" where
  "compound_op_from_token (TkOperator OpPlusEq) = Some CoAdd"
| "compound_op_from_token (TkOperator OpMinusEq) = Some CoSub"
| "compound_op_from_token (TkOperator OpStarEq) = Some CoMul"
| "compound_op_from_token (TkOperator OpSlashEq) = Some CoDiv"
| "compound_op_from_token (TkOperator OpPercentEq) = Some CoMod"
| "compound_op_from_token _ = None"

datatype inc_dec_op = IoInc | IoDec

fun inc_dec_op_from_token :: "token_kind \<Rightarrow> inc_dec_op option" where
  "inc_dec_op_from_token (TkOperator OpPlusPlus) = Some IoInc"
| "inc_dec_op_from_token (TkOperator OpMinusMinus) = Some IoDec"
| "inc_dec_op_from_token _ = None"

section \<open>Declarations inside bodies\<close>

datatype type_param = TypeParam (tp_name: ustr) (tp_constraint: "ustr option") (tp_span: src_span)

datatype 'e decorator = Decorator (dc_name: ustr) (dc_args: "'e list") (dc_span: src_span)

datatype 'e field_decl =
  FieldDecl (fd_name: ustr) (fd_type: type_expr) (fd_public: bool) (fd_optional: bool)
    (fd_default: "'e option") (fd_decorators: "'e decorator list") (fd_span: src_span)

datatype 'e struct_decl =
  StructDecl (sd_name: ustr) (sd_public: bool) (sd_type_params: "type_param list")
    (sd_fields: "'e field_decl list") (sd_decorators: "'e decorator list") (sd_span: src_span)

datatype 'e variant_decl =
  VariantDecl (vd_name: ustr) (vd_payload: "type_expr option") (vd_decorators: "'e decorator list")
    (vd_span: src_span)

datatype 'e enum_decl =
  EnumDecl (ed_name: ustr) (ed_public: bool) (ed_variants: "'e variant_decl list") (ed_span: src_span)

section \<open>Expressions, statements and patterns\<close>

text \<open>The kinds of expressions and statements are datatypes over the types of their parts; the two
  recursive types below tie them.\<close>

datatype 'e match_pattern =
    MpLiteral 'e
  | MpCondition 'e
  | MpWildcard
  | MpEnumVariant ustr ustr
  | MpEnumVariantPayload ustr ustr "ustr list"
  | MpTuple "'e match_pattern list"

datatype 'e match_arm =
  MatchArm (ma_pattern: "'e match_pattern") (ma_guard: "'e option") (ma_body: 'e) (ma_span: src_span)

datatype 'e string_part = SpLiteral ustr | SpExpr 'e

datatype ('e, 's) expr_form =
    EIntLit "64 word"
  | EFloatLit "64 word"
  | EBoolLit bool
  | EStrLit ustr
  | EStringInterpolation "'e string_part list"
  | ENil
  | EArrayLit "'e list"
  | EMapLit "('e \<times> 'e) list"
  | EObjectLit "(ustr \<times> 'e) list"
  | ETupleLit "'e list"
  | ESpread 'e
  | EIdent ustr
  | EBinary 'e bin_op 'e
  | EUnary unary_op 'e
  | EField 'e ustr
  | EIndex 'e 'e
  | ECall 'e "'e list"
  | EMethodCall 'e ustr "'e list"
  | EIfExpr 'e 'e "'e option"
  | ETernary 'e 'e 'e
  | EMatch "'e list" "'e match_arm list"
  | EBlock "'s list" "'e option"
  | ERange 'e 'e bool
  | EOk "'e list"
  | EErr 'e
  | ETry 'e
  | EUnwrapOrPanic 'e 'e
  | EStructLit ustr "(ustr \<times> 'e) list"
  | EEnumVariant ustr ustr "'e list"
  | ECast 'e type_expr
  | EClosure "(ustr \<times> type_expr option) list" 'e "type_expr option" "type_expr option"
  | ERouteBlock "'e list"
  | EAwait 'e
  | EGoSpawn 'e
  | EScopeBlock "'s list"

datatype 'e pattern = Pattern (pt_kind: "'e pattern_kind") (pt_span: src_span)
and 'e pattern_kind =
    PkIdent ustr
  | PkTuple "'e pattern list"
  | PkWildcard
  | PkIndex "'e pattern" 'e
  | PkField "'e pattern" ustr

datatype 's else_branch = ElBlock "'s list" | ElElseIf 's

datatype ('e, 's) stmt_form =
    StLet bool "'e pattern" "type_expr option" 'e
  | StAssign "'e pattern" 'e
  | StCompoundAssign "'e pattern" compound_op 'e
  | StIncDec ustr inc_dec_op
  | StElementAssign 'e 'e 'e
  | StFieldAssign 'e ustr 'e
  | StIf 'e "'s list" "'s else_branch option"
  | StFor "'e pattern" "'e option" "'s list"
  | StReturn "'e list"
  | StBreak
  | StContinue
  | StPrint "'e list"
  | StExpr 'e
  | StBlock "'s list"
  | StManualErrorExtract 'e "'e pattern" ustr
  | StStructDecl "'e struct_decl"
  | StEnumDecl "'e enum_decl"

datatype expr = Expr (ex_kind: "(expr, stmt) expr_form") (ex_span: src_span)
and stmt = Stmt (st_kind: "(expr, stmt) stmt_form") (st_span: src_span)

type_synonym expr_kind = "(expr, stmt) expr_form"
type_synonym stmt_kind = "(expr, stmt) stmt_form"

text \<open>Whether an expression ends with a closing brace, so that a statement needs no semicolon.\<close>

definition ends_with_brace :: "expr \<Rightarrow> bool" where
  "ends_with_brace e \<longleftrightarrow>
     (case ex_kind e of
        EIfExpr _ _ _ \<Rightarrow> True
      | EMatch _ _ \<Rightarrow> True
      | EBlock _ _ \<Rightarrow> True
      | EStructLit _ _ \<Rightarrow> True
      | ERouteBlock _ \<Rightarrow> True
      | EGoSpawn _ \<Rightarrow> True
      | EScopeBlock _ \<Rightarrow> True
      | _ \<Rightarrow> False)"

definition stmt_needs_semicolon :: "stmt_kind \<Rightarrow> bool" where
  "stmt_needs_semicolon k \<longleftrightarrow>
     (case k of
        StIf _ _ _ \<Rightarrow> False
      | StFor _ _ _ \<Rightarrow> False
      | StBlock _ \<Rightarrow> False
      | StStructDecl _ \<Rightarrow> False
      | StEnumDecl _ \<Rightarrow> False
      | StExpr e \<Rightarrow> \<not> ends_with_brace e
      | _ \<Rightarrow> True)"

definition ident_pattern :: "ustr \<Rightarrow> src_span \<Rightarrow> 'e pattern" where
  "ident_pattern n sp = Pattern (PkIdent n) sp"

definition wildcard_pattern :: "src_span \<Rightarrow> 'e pattern" where
  "wildcard_pattern sp = Pattern PkWildcard sp"

section \<open>Items\<close>

text \<open>A name is public when its first character is an upper-case letter; the table of upper-case
  letters is Unicode's and a parameter.\<close>

definition is_public_name :: "(nat \<Rightarrow> bool) \<Rightarrow> ustr \<Rightarrow> bool" where
  "is_public_name upper n \<longleftrightarrow> (case n of [] \<Rightarrow> False | c # _ \<Rightarrow> upper c)"

record const_decl =
  cd_name :: ustr
  cd_public :: bool
  cd_value :: expr
  cd_span :: src_span

definition new_const_decl :: "(nat \<Rightarrow> bool) \<Rightarrow> ustr \<Rightarrow> expr \<Rightarrow> src_span \<Rightarrow> const_decl" where
  "new_const_decl upper n e sp =
     \<lparr>cd_name = n, cd_public = is_public_name upper n, cd_value = e, cd_span = sp\<rparr>"

record static_decl =
  sc_name :: ustr
  sc_public :: bool
  sc_type :: type_expr
  sc_span :: src_span

definition new_static_decl :: "(nat \<Rightarrow> bool) \<Rightarrow> ustr \<Rightarrow> type_expr \<Rightarrow> src_span \<Rightarrow> static_decl" where
  "new_static_decl upper n t sp =
     \<lparr>sc_name = n, sc_public = is_public_name upper n, sc_type = t, sc_span = sp\<rparr>"

type_synonym params = "(ustr \<times> type_expr option) list"

record function_decl =
  fu_name :: ustr
  fu_public :: bool
  fu_type_params :: "type_param list"
  fu_params :: params
  fu_return_type :: "type_expr option"
  fu_error_type :: "type_expr option"
  fu_body :: "stmt list"
  fu_decorators :: "expr decorator list"
  fu_receiver :: "ustr option"
  fu_associated_type :: "ustr option"
  fu_is_expr_fn :: bool
  fu_is_async :: bool
  fu_span :: src_span

record impl_decl =
  im_struct_name :: ustr
  im_methods :: "function_decl list"
  im_decorators :: "expr decorator list"
  im_span :: src_span

datatype import_item = ImSymbol ustr | ImAlias ustr ustr | ImWildcard

record import_decl =
  ip_path :: "ustr list"
  ip_items :: "import_item list"
  ip_alias :: "ustr option"
  ip_wildcard :: bool
  ip_span :: src_span

record interface_method_decl =
  mt_name :: ustr
  mt_params :: params
  mt_return_type :: "type_expr option"
  mt_error_type :: "type_expr option"
  mt_span :: src_span

record interface_decl =
  inf_name :: ustr
  inf_public :: bool
  inf_methods :: "interface_method_decl list"
  inf_span :: src_span

record policy_decl =
  po_name :: ustr
  po_for_struct :: ustr
  po_rules :: "(ustr \<times> ustr) list"
  po_span :: src_span

definition new_policy_decl :: "ustr \<Rightarrow> ustr \<Rightarrow> src_span \<Rightarrow> policy_decl" where
  "new_policy_decl n target sp = \<lparr>po_name = n, po_for_struct = target, po_rules = [], po_span = sp\<rparr>"

datatype item =
    ItConst const_decl
  | ItStatic static_decl
  | ItFunction function_decl
  | ItStruct "expr struct_decl"
  | ItEnum "expr enum_decl"
  | ItInterface interface_decl
  | ItImport import_decl
  | ItPolicy policy_decl
  | ItImpl impl_decl
  | ItStatement stmt

primrec item_span :: "item \<Rightarrow> src_span" where
  "item_span (ItConst c) = cd_span c"
| "item_span (ItStatic s) = sc_span s"
| "item_span (ItFunction f) = fu_span f"
| "item_span (ItStruct s) = sd_span s"
| "item_span (ItEnum e) = ed_span e"
| "item_span (ItInterface i) = inf_span i"
| "item_span (ItImport i) = ip_span i"
| "item_span (ItPolicy p) = po_span p"
| "item_span (ItImpl i) = im_span i"
| "item_span (ItStatement s) = st_span s"

definition item_needs_semicolon :: "item \<Rightarrow> bool" where
  "item_needs_semicolon i \<longleftrightarrow>
     (case i of
        ItConst _ \<Rightarrow> True
      | ItStatic _ \<Rightarrow> True
      | ItImport _ \<Rightarrow> True
      | ItStatement s \<Rightarrow> stmt_needs_semicolon (st_kind s)
      | _ \<Rightarrow> False)"

record program_ast =
  pa_items :: "item list"
  pa_span :: src_span

end
