(* ===== verification/Parse_State.thy ===== *)
theory Parse_State
  imports Ast_Types Core_Errors
begin

text \<open>
  The state of the parser and the steps every parse function is made of
  (\<open>doo_frontend/src/parser/mod.rs\<close> and the list helper of \<open>helpers.rs\<close>). A parse function takes the
  parser and returns an error or a result with the parser after it; it is undefined when the fuel of
  the recursion is spent. The combinators write the source's sequencing, early return by the question
  mark, branches and loops.
\<close>

section \<open>The parser\<close>

record parser =
  ps_tokens :: "token list"
  ps_pos :: nat
  ps_file_id :: nat
  ps_errors :: "compiler_error list"
  ps_loop_depth :: nat
  ps_fn_depth :: nat
  ps_expr_depth :: nat

definition max_expr_depth :: nat where
  "max_expr_depth = 128"

text \<open>Past the last token the parser sees this one; no operation changes it.\<close>

definition eof_token :: token where
  "eof_token = new_token TkEof [] dummy_span"

type_synonym 'a parse = "parser \<Rightarrow> ((compiler_error + 'a) \<times> parser) option"

definition current_token :: "parser \<Rightarrow> token" where
  "current_token p = (if ps_pos p < length (ps_tokens p) then ps_tokens p ! ps_pos p else eof_token)"

definition current_kind :: "parser \<Rightarrow> token_kind" where
  "current_kind p = tk_kind (current_token p)"

definition current_span :: "parser \<Rightarrow> src_span" where
  "current_span p = tk_span (current_token p)"

definition prev_span :: "parser \<Rightarrow> src_span" where
  "prev_span p = (if 0 < ps_pos p then tk_span (ps_tokens p ! (ps_pos p - 1)) else dummy_span)"

definition is_at_end :: "parser \<Rightarrow> bool" where
  "is_at_end p \<longleftrightarrow> current_kind p = TkEof"

definition check :: "token_kind \<Rightarrow> parser \<Rightarrow> bool" where
  "check k p \<longleftrightarrow> current_kind p = k"

definition step_token :: "parser \<Rightarrow> parser" where
  "step_token p = (if is_at_end p then p else p\<lparr>ps_pos := Suc (ps_pos p)\<rparr>)"

lemma before_token_end: "\<not> is_at_end p \<Longrightarrow> ps_pos p < length (ps_tokens p)"
  by (auto simp: is_at_end_def current_kind_def current_token_def eof_token_def new_token_def
      split: if_splits)

lemma step_token_decreases:
  "\<not> is_at_end p \<Longrightarrow>
   length (ps_tokens (step_token p)) - ps_pos (step_token p) < length (ps_tokens p) - ps_pos p"
  using before_token_end [of p] by (auto simp: step_token_def)

definition is_at_stmt_end :: "parser \<Rightarrow> bool" where
  "is_at_stmt_end p \<longleftrightarrow> current_kind p \<in> {TkPunct PuSemi, TkDelimiter DlRBrace, TkEof}"

definition peek_next :: "parser \<Rightarrow> token" where
  "peek_next p =
     (if Suc (ps_pos p) < length (ps_tokens p) then ps_tokens p ! Suc (ps_pos p) else eof_token)"

definition peek_is :: "token_kind \<Rightarrow> parser \<Rightarrow> bool" where
  "peek_is k p \<longleftrightarrow> tk_kind (peek_next p) = k"

definition parser_has_errors :: "parser \<Rightarrow> bool" where
  "parser_has_errors p \<longleftrightarrow> ps_errors p \<noteq> []"

definition push_error :: "compiler_error \<Rightarrow> parser \<Rightarrow> parser" where
  "push_error e p = p\<lparr>ps_errors := ps_errors p @ [e]\<rparr>"

section \<open>Errors of the lexer\<close>

text \<open>Whether a text contains another one.\<close>

fun contains_text :: "ustr \<Rightarrow> ustr \<Rightarrow> bool" where
  "contains_text part [] \<longleftrightarrow> part = []"
| "contains_text part (c # s) \<longleftrightarrow> take (length part) (c # s) = part \<or> contains_text part s"

definition starts_with_text :: "ustr \<Rightarrow> ustr \<Rightarrow> bool" where
  "starts_with_text part s \<longleftrightarrow> take (length part) s = part"

definition em_dash :: ustr where
  "em_dash = [0x2014]"

definition lexer_error :: "token \<Rightarrow> compiler_error" where
  "lexer_error t =
     (let text = tk_text t; has = (\<lambda>s. contains_text (ascii s) text);
          cm = (if has ''Unterminated string'' then
                  (SyntaxError UnterminatedString,
                   ascii ''unterminated string literal '' @ em_dash @ ascii '' missing closing `'' @ [0x22] @ ascii ''`'')
                else if starts_with_text (ascii ''Invalid escape sequence'') text then
                  (SyntaxError InvalidEscapeSequence, text)
                else if has ''String literal too long'' then (SyntaxError InvalidStringLiteral, text)
                else if has ''Unexpected character'' \<or> has ''Invalid character'' then
                  (SyntaxError InvalidCharacter, ascii ''invalid character in source: '' @ text)
                else if has ''too large'' \<or> has ''too many'' then (InternalFailure InternalError, text)
                else (SyntaxError InvalidExpression, ascii ''lexer error: '' @ text))
      in new_error (fst cm) (snd cm) (tk_span t))"

definition collect_lexer_errors :: "parser \<Rightarrow> parser" where
  "collect_lexer_errors p =
     fold (\<lambda>t. push_error (lexer_error t)) (filter (\<lambda>t. tk_kind t = TkError) (ps_tokens p)) p"

definition parser_from_tokens :: "token list \<Rightarrow> nat \<Rightarrow> parser" where
  "parser_from_tokens ts file_id =
     collect_lexer_errors
       \<lparr>ps_tokens = ts, ps_pos = 0, ps_file_id = file_id, ps_errors = [],
        ps_loop_depth = 0, ps_fn_depth = 0,
        ps_expr_depth = 0\<rparr>"

section \<open>Combinators\<close>

definition ret :: "'a \<Rightarrow> 'a parse" where
  "ret a p = Some (Inr a, p)"

definition fail_with :: "(parser \<Rightarrow> compiler_error) \<Rightarrow> 'a parse" where
  "fail_with e p = Some (Inl (e p), p)"

definition bindp :: "'a parse \<Rightarrow> ('a \<Rightarrow> 'b parse) \<Rightarrow> 'b parse" where
  "bindp m f p =
     (case m p of
        None \<Rightarrow> None
      | Some (Inl e, q) \<Rightarrow> Some (Inl e, q)
      | Some (Inr a, q) \<Rightarrow> f a q)"

definition thenp :: "'a parse \<Rightarrow> 'b parse \<Rightarrow> 'b parse" where
  "thenp m n = bindp m (\<lambda>_. n)"

definition gets :: "(parser \<Rightarrow> 'a) \<Rightarrow> 'a parse" where
  "gets f p = Some (Inr (f p), p)"

definition advance_token :: "unit parse" where
  "advance_token p = Some (Inr (), step_token p)"

definition ifp :: "(parser \<Rightarrow> bool) \<Rightarrow> 'a parse \<Rightarrow> 'a parse \<Rightarrow> 'a parse" where
  "ifp c m n p = (if c p then m p else n p)"

text \<open>An error is replaced by one made from it and from the parser where it was raised.\<close>

definition map_err :: "(compiler_error \<Rightarrow> parser \<Rightarrow> compiler_error) \<Rightarrow> 'a parse \<Rightarrow> 'a parse" where
  "map_err g m p =
     (case m p of
        None \<Rightarrow> None
      | Some (Inl e, q) \<Rightarrow> Some (Inl (g e q), q)
      | Some (Inr a, q) \<Rightarrow> Some (Inr a, q))"

partial_function (option) loop :: "('s \<Rightarrow> parser \<Rightarrow> bool) \<Rightarrow> ('s \<Rightarrow> 's parse) \<Rightarrow> 's \<Rightarrow> 's parse" where
  "loop c body s p =
     (if c s p then
        (case body s p of
           None \<Rightarrow> None
         | Some (Inl e, q) \<Rightarrow> Some (Inl e, q)
         | Some (Inr t, q) \<Rightarrow> loop c body t q)
      else Some (Inr s, p))"

lemmas [code] = loop.simps

text \<open>What follows an optional token: the token is taken and the rest parsed, or nothing.\<close>

definition optional_after :: "token_kind \<Rightarrow> 'a parse \<Rightarrow> 'a option parse" where
  "optional_after k m = ifp (check k) (thenp advance_token (bindp m (\<lambda>a. ret (Some a)))) (ret None)"

definition flag_token :: "token_kind \<Rightarrow> bool parse" where
  "flag_token k = ifp (check k) (thenp advance_token (ret True)) (ret False)"

section \<open>Expected tokens\<close>

definition kind_text :: "token_kind \<Rightarrow> ustr" where
  "kind_text k = ascii (kind_description k)"

definition quoted_kind :: "token_kind \<Rightarrow> ustr" where
  "quoted_kind k = ascii ''`'' @ kind_text k @ ascii ''`''"

definition eof_code :: "token_kind \<Rightarrow> error_code" where
  "eof_code k =
     SyntaxError
       (if k = TkDelimiter DlRParen then MissingClosingParen
        else if k = TkDelimiter DlRBrace then MissingClosingBrace
        else if k = TkDelimiter DlRBracket then MissingClosingBracket
        else UnexpectedEof)"

definition expected_message :: "token_kind \<Rightarrow> token_kind \<Rightarrow> syntax_error \<times> ustr" where
  "expected_message k got =
     (let g = quoted_kind got in
      if k = TkDelimiter DlRParen then (MissingClosingParen, ascii ''Missing `)`, got '' @ g)
      else if k = TkDelimiter DlRBrace then (MissingClosingBrace, ascii ''Missing `}`, got '' @ g)
      else if k = TkDelimiter DlRBracket then (MissingClosingBracket, ascii ''Missing `]`, got '' @ g)
      else if k = TkOperator OpFatArrow then (UnexpectedToken, ascii ''Expected `=>`, got '' @ g)
      else if k = TkOperator OpEq then (UnexpectedToken, ascii ''Expected `=`, got '' @ g)
      else if k = TkPunct PuColon then
        (ExpectedTypeAnnotation, ascii ''Expected `:` for type annotation, got '' @ g)
      else if k = TkDelimiter DlLBrace then
        (ExpectedBlock, ascii ''Expected `{` to start block, got '' @ g)
      else if k = TkPunct PuSemi then
        (MissingSemicolon, ascii ''missing `;` '' @ em_dash @ ascii '' got '' @ g)
      else if k = TkPunct PuComma then (UnexpectedToken, ascii ''Expected `,`, got '' @ g)
      else (UnexpectedToken, ascii ''Expected '' @ quoted_kind k @ ascii '', got '' @ g))"

definition expected_error :: "token_kind \<Rightarrow> parser \<Rightarrow> compiler_error" where
  "expected_error k p =
     (if is_at_end p then
        new_error (eof_code k) (ascii ''unexpected end of file, expected '' @ quoted_kind k) (current_span p)
      else
        (case expected_message k (current_kind p) of
           (c, msg) \<Rightarrow> new_error (SyntaxError c) msg (current_span p)))"

definition expect :: "token_kind \<Rightarrow> unit parse" where
  "expect k = ifp (check k) advance_token (fail_with (expected_error k))"

definition expect_ident :: "ustr parse" where
  "expect_ident =
     ifp (check (TkLiteral LiIdent))
       (bindp (gets (\<lambda>p. tk_text (current_token p))) (\<lambda>name. thenp advance_token (ret name)))
       (fail_with (\<lambda>p. new_error (SyntaxError ExpectedIdentifier)
          (ascii ''Expected identifier, got '' @ kind_text (current_kind p)) (current_span p)))"

section \<open>Lists and recovery\<close>

definition before_end :: "token_kind \<Rightarrow> 's \<Rightarrow> parser \<Rightarrow> bool" where
  "before_end k s p \<longleftrightarrow> \<not> check k p \<and> \<not> is_at_end p"

definition comma_or_end :: "token_kind \<Rightarrow> unit parse" where
  "comma_or_end k = ifp (check k) (ret ()) (expect (TkPunct PuComma))"

definition parse_list :: "token_kind \<Rightarrow> 'a parse \<Rightarrow> 'a list parse" where
  "parse_list k m =
     loop (before_end k) (\<lambda>xs. bindp m (\<lambda>x. thenp (comma_or_end k) (ret (xs @ [x])))) []"

text \<open>A list of at least one element, separated by commas.\<close>

definition comma_separated :: "'a parse \<Rightarrow> 'a list parse" where
  "comma_separated m =
     bindp m (\<lambda>x. loop (\<lambda>_. check (TkPunct PuComma))
       (\<lambda>xs. thenp advance_token (bindp m (\<lambda>y. ret (xs @ [y])))) [x])"

definition is_sync_kind :: "token_kind \<Rightarrow> bool" where
  "is_sync_kind k \<longleftrightarrow>
     k \<in> TkKeyword ` {KwFn, KwStruct, KwEnum, KwImport, KwLet, KwIf, KwFor, KwReturn}"

text \<open>Recovery skips tokens up to one that starts a declaration or statement or closes a block; inside
  a function body the keyword of a function is skipped as well.\<close>

definition sync_stops :: "parser \<Rightarrow> bool" where
  "sync_stops p \<longleftrightarrow>
     (if is_sync_kind (current_kind p) then \<not> (current_kind p = TkKeyword KwFn \<and> 0 < ps_fn_depth p)
      else current_kind p = TkDelimiter DlRBrace)"

function sync_loop :: "parser \<Rightarrow> parser" where
  "sync_loop p = (if is_at_end p \<or> sync_stops p then p else sync_loop (step_token p))"
  by pat_completeness auto
termination
  by (relation "measure (\<lambda>p. length (ps_tokens p) - ps_pos p)") (simp_all add: step_token_decreases)

declare sync_loop.simps [simp del]

definition synchronize :: "parser \<Rightarrow> parser" where
  "synchronize p = sync_loop (step_token p)"

end
