(* ===== verification/Parse_Types.thy ===== *)
theory Parse_Types
  imports Parse_State
begin

text \<open>
  The parsers of type expressions and of binding patterns (\<open>doo_frontend/src/parser/types.rs\<close>). Each
  is the step of its recursion, given the parser of the parts, and its closure with fuel.
\<close>

section \<open>Types\<close>

definition spanning :: "src_span \<Rightarrow> (src_span \<Rightarrow> 'a) \<Rightarrow> 'a parse" where
  "spanning start f = gets (\<lambda>p. f (merge_spans start (prev_span p)))"

definition array_type_expr :: "type_expr parse \<Rightarrow> src_span \<Rightarrow> type_expr parse" where
  "array_type_expr rec start =
     thenp advance_token (bindp rec (\<lambda>element.
     thenp (expect (TkDelimiter DlRBracket)) (spanning start (array_type element))))"

definition map_type_expr :: "type_expr parse \<Rightarrow> src_span \<Rightarrow> type_expr parse" where
  "map_type_expr rec start =
     thenp advance_token (bindp rec (\<lambda>key.
     thenp (expect (TkPunct PuColon)) (bindp rec (\<lambda>val.
     thenp (expect (TkDelimiter DlRBrace)) (spanning start (TypeExpr (TeMap key val)))))))"

definition tuple_type_expr :: "type_expr parse \<Rightarrow> src_span \<Rightarrow> type_expr parse" where
  "tuple_type_expr rec start =
     thenp advance_token (bindp (parse_list (TkDelimiter DlRParen) rec) (\<lambda>types.
     thenp (expect (TkDelimiter DlRParen)) (spanning start (TypeExpr (TeTuple types)))))"

definition function_type_expr :: "type_expr parse \<Rightarrow> src_span \<Rightarrow> type_expr parse" where
  "function_type_expr rec start =
     thenp advance_token (thenp (expect (TkDelimiter DlLParen))
     (bindp (parse_list (TkDelimiter DlRParen) rec) (\<lambda>params.
     thenp (expect (TkDelimiter DlRParen))
     (bindp (ifp (check (TkOperator OpArrow)) (thenp advance_token rec)
        (gets (\<lambda>p. void_type (current_span p)))) (\<lambda>returns.
     spanning start (TypeExpr (TeFunction params returns)))))))"

definition named_type_expr :: "src_span \<Rightarrow> type_expr parse" where
  "named_type_expr start =
     bindp (map_err (\<lambda>_ p. with_suggestion
         (new_error (SyntaxError InvalidTypeExpr)
           (ascii ''expected type expression, got '' @ quoted_kind (current_kind p)) (current_span p))
         (ascii ''expected a type like Int, String, [T], {K: V}'')) expect_ident) (\<lambda>name.
     spanning start (named_type name))"

definition base_type_expr :: "type_expr parse \<Rightarrow> src_span \<Rightarrow> type_expr parse" where
  "base_type_expr rec start =
     ifp (check (TkDelimiter DlLBracket)) (array_type_expr rec start)
     (ifp (check (TkDelimiter DlLBrace)) (map_type_expr rec start)
     (ifp (check (TkDelimiter DlLParen)) (tuple_type_expr rec start)
     (ifp (check (TkKeyword KwFn)) (function_type_expr rec start)
     (named_type_expr start))))"

definition type_expr_step :: "type_expr parse \<Rightarrow> type_expr parse" where
  "type_expr_step rec =
     bindp (gets current_span) (\<lambda>start. bindp (base_type_expr rec start) (\<lambda>base.
     ifp (check (TkPunct PuQuestion)) (thenp advance_token (spanning start (optional_type base)))
       (ret base)))"

primrec parse_type_expr :: "nat \<Rightarrow> type_expr parse" where
  "parse_type_expr 0 = (\<lambda>_. None)"
| "parse_type_expr (Suc n) = type_expr_step (parse_type_expr n)"

section \<open>Patterns\<close>

definition pattern_step :: "expr pattern parse \<Rightarrow> expr pattern parse" where
  "pattern_step rec =
     bindp (gets current_span) (\<lambda>start.
     ifp (check (TkPunct PuUnderscore)) (thenp advance_token (ret (wildcard_pattern start)))
     (ifp (check (TkDelimiter DlLParen))
        (thenp advance_token (bindp (parse_list (TkDelimiter DlRParen) rec) (\<lambda>patterns.
         thenp (expect (TkDelimiter DlRParen)) (spanning start (Pattern (PkTuple patterns))))))
        (bindp expect_ident (\<lambda>name. spanning start (ident_pattern name)))))"

primrec parse_pattern :: "nat \<Rightarrow> expr pattern parse" where
  "parse_pattern 0 = (\<lambda>_. None)"
| "parse_pattern (Suc n) = pattern_step (parse_pattern n)"

end
