(* ===== verification/Parse_Lookahead.thy ===== *)
theory Parse_Lookahead
  imports Parse_Types Lex_Lexer
begin

text \<open>
  Literals, string interpolation and the lookahead of the expression parser
  (\<open>doo_frontend/src/parser/helpers.rs\<close> and the interpolation part of \<open>expr.rs\<close>). The parse functions
  call each other; each takes the record of the ones it calls, which is closed with fuel after the
  statements. The tables of Unicode letters and the reading of a float's text are the standard
  library's and parameters.
\<close>

section \<open>Calls\<close>

record environment =
  env_alphabetic :: "nat \<Rightarrow> bool"
  env_alphanumeric :: "nat \<Rightarrow> bool"
  env_uppercase :: "nat \<Rightarrow> bool"
  env_float :: "ustr \<Rightarrow> 64 word option"

record calls =
  c_env :: environment
  c_fuel :: nat
  c_prec :: "nat \<Rightarrow> expr parse"
  c_unary :: "expr parse"
  c_if_expr :: "src_span \<Rightarrow> expr parse"
  c_statement :: "stmt parse"

abbreviation c_expr :: "calls \<Rightarrow> expr parse" where
  "c_expr r \<equiv> c_prec r 0"

abbreviation c_type :: "calls \<Rightarrow> type_expr parse" where
  "c_type r \<equiv> parse_type_expr (c_fuel r)"

section \<open>Literals\<close>

text \<open>The signed 64-bit number of a text: an optional sign and at least one digit, within range.\<close>

definition parse_int64 :: "ustr \<Rightarrow> 64 word option" where
  "parse_int64 s =
     (case s of
        [] \<Rightarrow> None
      | c # rest \<Rightarrow>
          let ds = (if c = ch CHR ''-'' \<or> c = ch CHR ''+'' then rest else s);
              v = int (foldl (\<lambda>n d. 10 * n + (d - 48)) 0 ds);
              i = (if c = ch CHR ''-'' then - v else v)
          in if ds \<noteq> [] \<and> list_all is_ascii_digit ds \<and> - (2 ^ 63) \<le> i \<and> i < 2 ^ 63
             then Some (word_of_int i) else None)"

definition parse_number_literal :: "calls \<Rightarrow> src_span \<Rightarrow> expr parse" where
  "parse_number_literal r start =
     bindp (gets current_token) (\<lambda>t. thenp advance_token
       (if tk_kind t = TkLiteral LiInteger then
          (case parse_int64 (tk_text t) of
             Some v \<Rightarrow> ret (Expr (EIntLit v) start)
           | None \<Rightarrow> fail_with (\<lambda>_. new_error (SyntaxError InvalidNumberLiteral)
               (ascii ''Invalid integer: '' @ tk_text t) start))
        else if tk_kind t = TkLiteral LiFloat then
          (case env_float (c_env r) (tk_text t) of
             Some v \<Rightarrow> ret (Expr (EFloatLit v) start)
           | None \<Rightarrow> fail_with (\<lambda>_. new_error (SyntaxError InvalidNumberLiteral)
               (ascii ''Invalid float: '' @ tk_text t) start))
        else fail_with (\<lambda>_. new_error (SyntaxError InvalidExpression) (ascii ''Expected number'') start)))"

definition unescape :: "nat \<Rightarrow> nat option" where
  "unescape c =
     map_of [(ch CHR ''n'', 10), (ch CHR ''t'', 9), (ch CHR ''r'', 13), (0x5C, 0x5C), (0x22, 0x22),
       (0x27, 0x27), (ch CHR ''0'', 0), (ch CHR ''$'', ch CHR ''$'')] c"

fun process_escapes :: "ustr \<Rightarrow> ustr" where
  "process_escapes [] = []"
| "process_escapes [c] = [c]"
| "process_escapes (c # d # s) =
     (if c = 0x5C then
        (case unescape d of Some x \<Rightarrow> x # process_escapes s | None \<Rightarrow> 0x5C # d # process_escapes s)
      else c # process_escapes (d # s))"

definition error_token_error :: "token \<Rightarrow> compiler_error" where
  "error_token_error t =
     (let text = tk_text t; has = (\<lambda>s. contains_text (ascii s) text);
          cm = (if has ''Unterminated string'' then
                  (SyntaxError UnterminatedString, ascii ''unterminated string literal'')
                else if starts_with_text (ascii ''Invalid escape sequence'') text then
                  (SyntaxError InvalidEscapeSequence, text)
                else if has ''String literal too long'' then (SyntaxError InvalidStringLiteral, text)
                else if has ''Invalid'' \<or> has ''Unexpected'' then
                  (SyntaxError InvalidCharacter, ascii ''invalid character: '' @ text)
                else if has ''too large'' \<or> has ''too many'' then (InternalFailure InternalError, text)
                else (SyntaxError InvalidExpression, ascii ''lexer error: '' @ text))
      in new_error (fst cm) (snd cm) (tk_span t))"

section \<open>String interpolation\<close>

fun split_dollar :: "ustr \<Rightarrow> (ustr \<times> ustr) option" where
  "split_dollar (c # d # s) =
     (if c = ch CHR ''$'' \<and> d = ch CHR ''{'' then Some ([], s)
      else map_option (\<lambda>(a, b). (c # a, b)) (split_dollar (d # s)))"
| "split_dollar _ = None"

fun split_brace :: "nat \<Rightarrow> ustr \<Rightarrow> (ustr \<times> ustr) option" where
  "split_brace d [] = None"
| "split_brace d (c # s) =
     (let d = (if c = ch CHR ''{'' then Suc d else if c = ch CHR ''}'' then d - 1 else d)
      in if d = 0 then Some ([], s) else map_option (\<lambda>(a, b). (c # a, b)) (split_brace d s))"

lemma split_dollar_length: "split_dollar s = Some (a, b) \<Longrightarrow> length a + length b + 2 = length s"
  by (induction s arbitrary: a b rule: split_dollar.induct) (auto split: if_splits)

lemma split_brace_length: "split_brace d s = Some (a, b) \<Longrightarrow> length a + length b + 1 = length s"
  by (induction s arbitrary: d a b) (auto simp: Let_def split: if_splits)

text \<open>The text between the braces has a lexer and a parser of its own; its tokens after the expression
  and the errors it collects are not looked at.\<close>

definition parse_embedded :: "calls \<Rightarrow> ustr \<Rightarrow> expr parse" where
  "parse_embedded r s p =
     (case c_expr r (parser_from_tokens
        (fst (tokenize (env_alphabetic (c_env r)) (env_alphanumeric (c_env r)) (new_lexer s 0))) 0) of
        None \<Rightarrow> None
      | Some (res, _) \<Rightarrow> Some (res, p))"

definition unclosed_interpolation :: "src_span \<Rightarrow> compiler_error" where
  "unclosed_interpolation sp =
     with_suggestion (new_error (SyntaxError UnclosedDelimiter)
         (ascii ''Unclosed `${}` in string interpolation'') sp)
       (ascii ''add closing `}` to complete the interpolation'')"

function interpolation_parts :: "calls \<Rightarrow> src_span \<Rightarrow> ustr \<Rightarrow> expr string_part list \<Rightarrow> expr string_part list parse" where
  "interpolation_parts r sp s parts =
     (if s = [] then ret parts
      else case split_dollar s of
             None \<Rightarrow> ret (parts @ [SpLiteral (process_escapes s)])
           | Some (lit, rest) \<Rightarrow>
               (case split_brace 1 rest of
                  None \<Rightarrow> fail_with (\<lambda>_. unclosed_interpolation sp)
                | Some (txt, after) \<Rightarrow>
                    bindp (parse_embedded r txt) (\<lambda>e.
                      interpolation_parts r sp after
                        (parts @ (if lit = [] then [] else [SpLiteral (process_escapes lit)]) @ [SpExpr e]))))"
  by pat_completeness auto
termination
  by (relation "measure (\<lambda>(r, sp, s, parts). length s)")
    (auto dest!: split_dollar_length split_brace_length)

declare interpolation_parts.simps [simp del]

definition parse_string_interpolation :: "calls \<Rightarrow> ustr \<Rightarrow> src_span \<Rightarrow> expr parse" where
  "parse_string_interpolation r template sp =
     bindp (interpolation_parts r sp template []) (\<lambda>parts.
       (case parts of
          [] \<Rightarrow> ret (Expr (EStrLit []) sp)
        | [SpLiteral s] \<Rightarrow> ret (Expr (EStrLit s) sp)
        | _ \<Rightarrow> ret (Expr (EStringInterpolation parts) sp)))"

section \<open>Looking ahead\<close>

function find_close :: "nat \<Rightarrow> parser \<Rightarrow> parser" where
  "find_close d p =
     (if 0 < d \<and> \<not> is_at_end p then
        (let d = (if check (TkDelimiter DlLParen) p then Suc d
                  else if check (TkDelimiter DlRParen) p then d - 1 else d)
         in if 0 < d then find_close d (step_token p) else p)
      else p)"
  by pat_completeness auto
termination
  by (relation "measure (\<lambda>(d, p). length (ps_tokens p) - ps_pos p)")
    (use step_token_decreases in \<open>auto split: if_splits\<close>)

declare find_close.simps [simp del]

definition lookahead_closure :: "parser \<Rightarrow> bool" where
  "lookahead_closure p \<longleftrightarrow>
     check (TkDelimiter DlLParen) p \<and>
     (let q = step_token (find_close 1 (step_token p))
      in check (TkOperator OpFatArrow) q \<or> check (TkOperator OpArrow) q)"

datatype brace_type = BtObject | BtMap | BtBlock | BtRouteBlock

definition is_route_method_name :: "ustr \<Rightarrow> bool" where
  "is_route_method_name n \<longleftrightarrow>
     n \<in> set (map ascii [''get'', ''post'', ''put'', ''delete'', ''patch'', ''head'', ''options''])"

text \<open>The first colon, semicolon or closing brace of the outer level decides.\<close>

function scan_braces :: "nat \<Rightarrow> parser \<Rightarrow> brace_type" where
  "scan_braces d p =
     (if is_at_end p then BtBlock
      else if check (TkDelimiter DlLBrace) p then scan_braces (Suc d) (step_token p)
      else if check (TkDelimiter DlRBrace) p then
        (if d = 0 then BtBlock else scan_braces (d - 1) (step_token p))
      else if check (TkPunct PuColon) p \<and> d = 0 then BtObject
      else if check (TkPunct PuSemi) p \<and> d = 0 then BtBlock
      else scan_braces d (step_token p))"
  by pat_completeness auto
termination
  by (relation "measure (\<lambda>(d, p). length (ps_tokens p) - ps_pos p)")
    (use step_token_decreases in \<open>auto split: if_splits\<close>)

declare scan_braces.simps [simp del]

definition lookahead_brace_type :: "parser \<Rightarrow> brace_type" where
  "lookahead_brace_type p =
     (if \<not> check (TkDelimiter DlLBrace) p then BtBlock
      else let q = step_token p in
        if check (TkDelimiter DlRBrace) q \<or> check (TkPunct PuSpread) q \<or> check (TkLiteral LiString) q
        then BtMap
        else if check (TkLiteral LiInteger) q \<or> check (TkLiteral LiFloat) q \<or> check (TkKeyword KwTrue) q
          \<or> check (TkKeyword KwFalse) q
        then (if check (TkPunct PuColon) (step_token q) then BtMap else BtBlock)
        else if \<not> check (TkLiteral LiIdent) q then BtBlock
        else if is_route_method_name (tk_text (current_token q))
          \<and> check (TkDelimiter DlLParen) (step_token q)
        then BtRouteBlock
        else scan_braces 0 q)"

text \<open>Whether an opening brace after an upper-case name starts the fields of a struct.\<close>

definition is_struct_literal_body :: "parser \<Rightarrow> bool" where
  "is_struct_literal_body p \<longleftrightarrow>
     (if peek_is (TkDelimiter DlRBrace) p then True
      else if peek_is (TkLiteral LiIdent) p then
        (if ps_pos p + 2 < length (ps_tokens p) then
           tk_kind (ps_tokens p ! (ps_pos p + 2))
             \<in> {TkPunct PuColon, TkPunct PuComma, TkDelimiter DlRBrace}
         else True)
      else False)"

end
