(* ===== verification/Parse_Expr.thy ===== *)
theory Parse_Expr
  imports Parse_Lookahead
begin

text \<open>
  The expression parser (\<open>doo_frontend/src/parser/expr.rs\<close>, the operators of \<open>helpers.rs\<close> and the
  precedence entry of \<open>mod.rs\<close>): unary operators, primary expressions, postfix operations, binary
  operators by precedence climbing and ranges.
\<close>

section \<open>Primary expressions\<close>

definition arguments :: "calls \<Rightarrow> expr list parse" where
  "arguments r =
     bindp (parse_list (TkDelimiter DlRParen) (c_expr r)) (\<lambda>args.
     thenp (expect (TkDelimiter DlRParen)) (ret args))"

definition parse_variant :: "calls \<Rightarrow> ustr \<Rightarrow> src_span \<Rightarrow> expr parse" where
  "parse_variant r name start =
     thenp advance_token (bindp expect_ident (\<lambda>variant.
     bindp (ifp (check (TkDelimiter DlLParen)) (thenp advance_token (arguments r)) (ret [])) (\<lambda>payload.
     spanning start (Expr (EEnumVariant name variant payload)))))"

definition struct_literal_field :: "calls \<Rightarrow> (ustr \<times> expr) parse" where
  "struct_literal_field r =
     bindp expect_ident (\<lambda>field.
     ifp (check (TkPunct PuColon)) (thenp advance_token (bindp (c_expr r) (\<lambda>v. ret (field, v))))
       (gets (\<lambda>p. (field, Expr (EIdent field) (prev_span p)))))"

definition parse_ident :: "calls \<Rightarrow> src_span \<Rightarrow> expr parse" where
  "parse_ident r start =
     bindp (gets (\<lambda>p. tk_text (current_token p))) (\<lambda>name. thenp advance_token
     (ifp (check (TkPunct PuColonColon)) (parse_variant r name start)
     (ifp (\<lambda>p. check (TkDelimiter DlLBrace) p \<and> is_public_name (env_uppercase (c_env r)) name
             \<and> is_struct_literal_body p)
        (thenp advance_token (bindp (parse_list (TkDelimiter DlRBrace) (struct_literal_field r)) (\<lambda>fs.
         thenp (expect (TkDelimiter DlRBrace)) (spanning start (Expr (EStructLit name fs))))))
        (ret (Expr (EIdent name) start)))))"

definition parse_group_or_tuple :: "calls \<Rightarrow> src_span \<Rightarrow> expr parse" where
  "parse_group_or_tuple r start =
     thenp (expect (TkDelimiter DlLParen))
     (ifp (check (TkDelimiter DlRParen)) (thenp advance_token (ret (Expr (ETupleLit []) start)))
     (bindp (c_expr r) (\<lambda>first.
      ifp (check (TkPunct PuComma))
        (thenp advance_token
        (bindp (ifp (check (TkDelimiter DlRParen)) (ret []) (parse_list (TkDelimiter DlRParen) (c_expr r)))
          (\<lambda>others.
         thenp (expect (TkDelimiter DlRParen)) (spanning start (Expr (ETupleLit (first # others)))))))
        (thenp (expect (TkDelimiter DlRParen)) (ret first)))))"

definition array_element :: "calls \<Rightarrow> expr parse" where
  "array_element r =
     ifp (check (TkPunct PuSpread))
       (bindp (gets current_span) (\<lambda>sp. thenp advance_token (bindp (c_expr r) (\<lambda>inner.
        ret (Expr (ESpread inner) sp)))))
       (c_expr r)"

definition parse_array :: "calls \<Rightarrow> src_span \<Rightarrow> expr parse" where
  "parse_array r start =
     thenp (expect (TkDelimiter DlLBracket))
     (bindp (parse_list (TkDelimiter DlRBracket) (array_element r)) (\<lambda>elements.
      thenp (expect (TkDelimiter DlRBracket)) (spanning start (Expr (EArrayLit elements)))))"

definition map_entry :: "calls \<Rightarrow> (expr \<times> expr) parse" where
  "map_entry r =
     ifp (check (TkPunct PuSpread))
       (bindp (gets current_span) (\<lambda>sp. thenp advance_token (bindp (c_expr r) (\<lambda>spread.
        ret (Expr (ESpread spread) sp, Expr ENil sp)))))
       (bindp (c_expr r) (\<lambda>key. thenp (expect (TkPunct PuColon)) (bindp (c_expr r) (\<lambda>v.
        ret (key, v)))))"

definition parse_map :: "calls \<Rightarrow> src_span \<Rightarrow> expr parse" where
  "parse_map r start =
     thenp (expect (TkDelimiter DlLBrace))
     (bindp (parse_list (TkDelimiter DlRBrace) (map_entry r)) (\<lambda>entries.
      thenp (expect (TkDelimiter DlRBrace)) (spanning start (Expr (EMapLit entries)))))"

definition object_entry :: "calls \<Rightarrow> (ustr \<times> expr) parse" where
  "object_entry r =
     bindp expect_ident (\<lambda>key. thenp (expect (TkPunct PuColon)) (bindp (c_expr r) (\<lambda>v. ret (key, v))))"

definition parse_object :: "calls \<Rightarrow> src_span \<Rightarrow> expr parse" where
  "parse_object r start =
     thenp (expect (TkDelimiter DlLBrace))
     (bindp (parse_list (TkDelimiter DlRBrace) (object_entry r)) (\<lambda>entries.
      thenp (expect (TkDelimiter DlRBrace)) (spanning start (Expr (EObjectLit entries)))))"

text \<open>One statement of a block expression: without a semicolon before the closing brace an expression
  becomes the value of the block.\<close>

definition block_item :: "calls \<Rightarrow> stmt list \<times> expr option \<Rightarrow> (stmt list \<times> expr option) parse" where
  "block_item r = (\<lambda>(stmts, final).
     bindp (c_statement r) (\<lambda>s.
     ifp (check (TkPunct PuSemi)) (thenp advance_token (ret (stmts @ [s], final)))
     (ifp (check (TkDelimiter DlRBrace))
        (case st_kind s of StExpr e \<Rightarrow> ret (stmts, Some e) | _ \<Rightarrow> ret (stmts @ [s], final))
        (ret (stmts @ [s], final)))))"

definition parse_block_expr :: "calls \<Rightarrow> src_span \<Rightarrow> expr parse" where
  "parse_block_expr r start =
     thenp (expect (TkDelimiter DlLBrace))
     (bindp (loop (before_end (TkDelimiter DlRBrace)) (block_item r) ([], None)) (\<lambda>(stmts, final).
      thenp (expect (TkDelimiter DlRBrace)) (spanning start (Expr (EBlock stmts final)))))"

definition block_here :: "calls \<Rightarrow> expr parse" where
  "block_here r = bindp (gets current_span) (parse_block_expr r)"

definition parse_route_block :: "calls \<Rightarrow> src_span \<Rightarrow> expr parse" where
  "parse_route_block r start =
     thenp (expect (TkDelimiter DlLBrace))
     (bindp (parse_list (TkDelimiter DlRBrace) (c_expr r)) (\<lambda>routes.
      thenp (expect (TkDelimiter DlRBrace)) (spanning start (Expr (ERouteBlock routes)))))"

definition parse_if_expr :: "calls \<Rightarrow> src_span \<Rightarrow> expr parse" where
  "parse_if_expr r start =
     thenp (expect (TkKeyword KwIf)) (bindp (c_expr r) (\<lambda>condition.
     bindp (block_here r) (\<lambda>then_branch.
     bindp (optional_after (TkKeyword KwElse)
        (ifp (check (TkKeyword KwIf)) (bindp (gets current_span) (c_if_expr r)) (block_here r)))
      (\<lambda>else_branch. spanning start (Expr (EIfExpr condition then_branch else_branch))))))"

section \<open>Matches\<close>

definition match_error :: "string \<Rightarrow> parser \<Rightarrow> compiler_error" where
  "match_error msg p = new_error (SyntaxError InvalidMatchSyntax) (ascii msg) (current_span p)"

text \<open>The name of a pattern was taken to look behind it: without the path separator the parser goes back
  to it.\<close>

definition step_back :: "unit parse" where
  "step_back p = Some (Inr (), p\<lparr>ps_pos := ps_pos p - 1\<rparr>)"

definition condition_pattern :: "calls \<Rightarrow> expr match_pattern parse" where
  "condition_pattern r = bindp (c_expr r) (\<lambda>e. ret (MpCondition e))"

definition name_pattern :: "calls \<Rightarrow> expr match_pattern parse" where
  "name_pattern r =
     bindp (gets (\<lambda>p. tk_text (current_token p))) (\<lambda>name. thenp advance_token
     (ifp (check (TkPunct PuColonColon))
        (thenp advance_token (bindp expect_ident (\<lambda>variant.
         ifp (check (TkDelimiter DlLParen))
           (thenp advance_token (bindp (parse_list (TkDelimiter DlRParen) expect_ident) (\<lambda>bindings.
            thenp (expect (TkDelimiter DlRParen)) (ret (MpEnumVariantPayload name variant bindings)))))
           (ret (MpEnumVariant name variant)))))
        (thenp step_back (condition_pattern r))))"

definition literal_pattern :: "calls \<Rightarrow> expr match_pattern parse" where
  "literal_pattern r =
     bindp (c_expr r) (\<lambda>e. ret
       (case ex_kind e of
          EIntLit _ \<Rightarrow> MpLiteral e
        | EFloatLit _ \<Rightarrow> MpLiteral e
        | EStrLit _ \<Rightarrow> MpLiteral e
        | EBoolLit _ \<Rightarrow> MpLiteral e
        | _ \<Rightarrow> MpCondition e))"

definition parse_match_pattern :: "calls \<Rightarrow> expr match_pattern parse" where
  "parse_match_pattern r =
     ifp (check (TkPunct PuUnderscore)) (thenp advance_token (ret MpWildcard))
     (ifp (check (TkLiteral LiIdent)) (name_pattern r)
     (ifp (\<lambda>p. current_kind p \<in> {TkLiteral LiInteger, TkLiteral LiFloat, TkLiteral LiString,
             TkKeyword KwTrue, TkKeyword KwFalse})
        (literal_pattern r) (condition_pattern r)))"

definition more_patterns :: "parser \<Rightarrow> bool" where
  "more_patterns p \<longleftrightarrow>
     check (TkPunct PuComma) p \<and> \<not> peek_is (TkOperator OpFatArrow) p \<and> \<not> peek_is (TkDelimiter DlRBrace) p"

definition arm_pattern_expr :: "calls \<Rightarrow> expr match_pattern parse" where
  "arm_pattern_expr r =
     bindp (parse_match_pattern r) (\<lambda>first.
     ifp more_patterns
       (bindp (loop (\<lambda>_. more_patterns)
          (\<lambda>ps. thenp advance_token (bindp (parse_match_pattern r) (\<lambda>q. ret (ps @ [q])))) [first])
        (\<lambda>ps. ret (if length ps = 1 then hd ps else MpTuple ps)))
       (ret first))"

text \<open>A statement as the body of an arm is wrapped in a block.\<close>

definition arm_body_expr :: "calls \<Rightarrow> expr parse" where
  "arm_body_expr r =
     ifp (\<lambda>p. current_kind p \<in> TkKeyword ` {KwPrint, KwLet, KwFor, KwReturn, KwBreak, KwContinue})
       (bindp (gets current_span) (\<lambda>start. bindp (c_statement r) (\<lambda>s.
        spanning start (Expr (EBlock [s] None)))))
       (c_expr r)"

definition parse_match_arm :: "calls \<Rightarrow> expr match_arm parse" where
  "parse_match_arm r =
     bindp (gets current_span) (\<lambda>start.
     bindp (arm_pattern_expr r) (\<lambda>pat.
     bindp (optional_after (TkKeyword KwIf) (c_expr r)) (\<lambda>guard.
     thenp (map_err (\<lambda>_ p. with_suggestion (match_error ''expected `=>` after match pattern'' p)
         (ascii ''pattern => expression'')) (expect (TkOperator OpFatArrow)))
     (bindp (arm_body_expr r) (\<lambda>body.
     spanning start (MatchArm pat guard body))))))"

definition parse_match :: "calls \<Rightarrow> src_span \<Rightarrow> expr parse" where
  "parse_match r start =
     thenp (expect (TkKeyword KwMatch))
     (bindp (ifp (check (TkDelimiter DlLBrace)) (ret []) (comma_separated (c_expr r))) (\<lambda>values.
     thenp (map_err (\<lambda>_ p. with_suggestion (match_error ''expected `{` to start match body'' p)
         (ascii ''match value { pattern => expr }'')) (expect (TkDelimiter DlLBrace)))
     (bindp (parse_list (TkDelimiter DlRBrace) (parse_match_arm r)) (\<lambda>arms.
     thenp (map_err (\<lambda>_. match_error ''expected `}` to close match body'') (expect (TkDelimiter DlRBrace)))
     (spanning start (Expr (EMatch values arms)))))))"

section \<open>Closures and results\<close>

definition parse_parameter :: "calls \<Rightarrow> (ustr \<times> type_expr option) parse" where
  "parse_parameter r =
     bindp expect_ident (\<lambda>name. bindp (optional_after (TkPunct PuColon) (c_type r)) (\<lambda>t. ret (name, t)))"

definition arrow_missing :: "string \<Rightarrow> string \<Rightarrow> parser \<Rightarrow> compiler_error" where
  "arrow_missing msg hint p =
     with_suggestion (new_error (SyntaxError UnexpectedToken)
       (ascii msg @ quoted_kind (current_kind p)) (current_span p)) (ascii hint)"

definition closure_types :: "calls \<Rightarrow> (type_expr option \<times> type_expr option) parse" where
  "closure_types r =
     ifp (check (TkOperator OpFatArrow)) (thenp advance_token (ret (None, None)))
     (ifp (check (TkOperator OpArrow))
        (thenp advance_token (bindp (c_type r) (\<lambda>t.
         bindp (optional_after (TkOperator OpBang) (c_type r)) (\<lambda>e.
         ifp (check (TkOperator OpFatArrow)) (thenp advance_token (ret (Some t, e)))
           (fail_with (arrow_missing ''Expected `=>` after return type in closure, got ''
              ''use `(x) -> RetType => expr`''))))))
        (fail_with (arrow_missing ''Expected `=>` or `->` in closure, got ''
           ''use `(x) => expr` or `(x) -> RetType => expr`'')))"

definition parse_closure :: "calls \<Rightarrow> src_span \<Rightarrow> expr parse" where
  "parse_closure r start =
     thenp (expect (TkDelimiter DlLParen))
     (bindp (parse_list (TkDelimiter DlRParen) (parse_parameter r)) (\<lambda>params.
     thenp (expect (TkDelimiter DlRParen))
     (bindp (closure_types r) (\<lambda>(return_type, error_type).
     bindp (ifp (check (TkDelimiter DlLBrace)) (block_here r) (c_expr r)) (\<lambda>body.
     spanning start (Expr (EClosure params body return_type error_type)))))))"

definition ok_values_go_on :: "expr list \<times> bool \<Rightarrow> parser \<Rightarrow> bool" where
  "ok_values_go_on s p \<longleftrightarrow> \<not> snd s \<and> check (TkPunct PuComma) p"

definition parse_ok :: "calls \<Rightarrow> src_span \<Rightarrow> expr parse" where
  "parse_ok r start =
     thenp (expect (TkKeyword KwOk))
     (bindp (ifp (check (TkDelimiter DlLParen)) (thenp advance_token (arguments r))
       (bindp (c_expr r) (\<lambda>first.
        bindp (loop ok_values_go_on (\<lambda>(vs, _). thenp advance_token
          (ifp (\<lambda>p. check (TkPunct PuSemi) p \<or> check (TkDelimiter DlRBrace) p) (ret (vs, True))
             (bindp (c_expr r) (\<lambda>v. ret (vs @ [v], False))))) ([first], False))
        (\<lambda>(vs, _). ret vs)))) (\<lambda>values.
     spanning start (Expr (EOk values))))"

definition parse_err :: "calls \<Rightarrow> src_span \<Rightarrow> expr parse" where
  "parse_err r start =
     thenp (expect (TkKeyword KwErr))
     (bindp (ifp (check (TkDelimiter DlLParen))
        (thenp advance_token (bindp (c_expr r) (\<lambda>e. thenp (expect (TkDelimiter DlRParen)) (ret e))))
        (c_expr r)) (\<lambda>v.
     spanning start (Expr (EErr v))))"

section \<open>Postfix operations\<close>

definition parse_call :: "calls \<Rightarrow> expr \<Rightarrow> expr parse" where
  "parse_call r func =
     thenp (expect (TkDelimiter DlLParen)) (bindp (arguments r) (\<lambda>args.
     spanning (ex_span func) (Expr (ECall func args))))"

definition parse_field_or_method :: "calls \<Rightarrow> expr \<Rightarrow> expr parse" where
  "parse_field_or_method r object =
     thenp (expect (TkPunct PuDot)) (bindp expect_ident (\<lambda>field.
     ifp (check (TkDelimiter DlLParen))
       (thenp advance_token (bindp (arguments r) (\<lambda>args.
        spanning (ex_span object) (Expr (EMethodCall object field args)))))
       (spanning (ex_span object) (Expr (EField object field)))))"

definition parse_index :: "calls \<Rightarrow> expr \<Rightarrow> expr parse" where
  "parse_index r object =
     thenp (expect (TkDelimiter DlLBracket)) (bindp (c_expr r) (\<lambda>i.
     thenp (expect (TkDelimiter DlRBracket)) (spanning (ex_span object) (Expr (EIndex object i)))))"

definition parse_cast :: "calls \<Rightarrow> expr \<Rightarrow> expr parse" where
  "parse_cast r e =
     thenp (expect (TkKeyword KwAs)) (bindp (c_type r) (\<lambda>target.
     spanning (ex_span e) (Expr (ECast e target))))"

definition parse_unwrap :: "calls \<Rightarrow> expr \<Rightarrow> expr parse" where
  "parse_unwrap r e =
     thenp advance_token (thenp advance_token (thenp (expect (TkDelimiter DlLParen))
     (bindp (c_expr r) (\<lambda>message.
      thenp (expect (TkDelimiter DlRParen)) (spanning (ex_span e) (Expr (EUnwrapOrPanic e message)))))))"

definition panics_next :: "parser \<Rightarrow> bool" where
  "panics_next p \<longleftrightarrow>
     check (TkPunct PuQuestionQuestion) p \<and> peek_is (TkLiteral LiIdent) p
     \<and> tk_text (peek_next p) = ascii ''panic''"

definition postfix_follows :: "expr \<Rightarrow> parser \<Rightarrow> bool" where
  "postfix_follows e p \<longleftrightarrow>
     current_kind p \<in> {TkDelimiter DlLParen, TkPunct PuDot, TkDelimiter DlLBracket, TkKeyword KwAs,
       TkPunct PuQuestion} \<or> panics_next p"

definition postfix_operation :: "calls \<Rightarrow> expr \<Rightarrow> expr parse" where
  "postfix_operation r e =
     ifp (check (TkDelimiter DlLParen)) (parse_call r e)
     (ifp (check (TkPunct PuDot)) (parse_field_or_method r e)
     (ifp (check (TkDelimiter DlLBracket)) (parse_index r e)
     (ifp (check (TkKeyword KwAs)) (parse_cast r e)
     (ifp (check (TkPunct PuQuestion)) (thenp advance_token (spanning (ex_span e) (Expr (ETry e))))
     (parse_unwrap r e)))))"

definition parse_postfix :: "calls \<Rightarrow> expr \<Rightarrow> expr parse" where
  "parse_postfix r = loop postfix_follows (postfix_operation r)"

section \<open>Primary and unary expressions\<close>

definition parse_await :: "calls \<Rightarrow> src_span \<Rightarrow> expr parse" where
  "parse_await r start =
     thenp advance_token (bindp (c_unary r) (\<lambda>e. bindp (parse_postfix r e) (\<lambda>e.
     spanning start (Expr (EAwait e)))))"

definition parse_go :: "calls \<Rightarrow> src_span \<Rightarrow> expr parse" where
  "parse_go r start =
     thenp advance_token (bindp (block_here r) (\<lambda>body. spanning start (Expr (EGoSpawn body))))"

definition parse_scope :: "calls \<Rightarrow> src_span \<Rightarrow> expr parse" where
  "parse_scope r start =
     thenp advance_token (thenp (expect (TkDelimiter DlLBrace))
     (bindp (loop (before_end (TkDelimiter DlRBrace))
        (\<lambda>stmts. bindp (c_statement r) (\<lambda>s. ret (stmts @ [s]))) []) (\<lambda>stmts.
      thenp (expect (TkDelimiter DlRBrace)) (spanning start (Expr (EScopeBlock stmts))))))"

definition no_expression :: "src_span \<Rightarrow> parser \<Rightarrow> compiler_error" where
  "no_expression start p =
     (let k = current_kind p;
          cm = (if k \<in> {TkPunct PuAt, TkPunct PuHash, TkPunct PuTilde, TkOperator OpStar, TkOperator OpPercent}
                then (SyntaxError InvalidOperator,
                      ascii ''unexpected operator '' @ quoted_kind k @ ascii '' in expression position'')
                else (SyntaxError InvalidExpression, ascii ''expected expression, got '' @ quoted_kind k))
      in with_suggestion (new_error (fst cm) (snd cm) start)
           (ascii ''expected a value, variable, function call, or literal''))"

definition constant_token :: "expr_kind \<Rightarrow> src_span \<Rightarrow> expr parse" where
  "constant_token k start = thenp advance_token (ret (Expr k start))"

definition parse_brace :: "calls \<Rightarrow> src_span \<Rightarrow> expr parse" where
  "parse_brace r start =
     bindp (gets lookahead_brace_type) (\<lambda>b.
       (case b of
          BtObject \<Rightarrow> parse_object r start
        | BtMap \<Rightarrow> parse_map r start
        | BtBlock \<Rightarrow> parse_block_expr r start
        | BtRouteBlock \<Rightarrow> parse_route_block r start))"

definition primary_of :: "calls \<Rightarrow> src_span \<Rightarrow> token \<Rightarrow> expr parse" where
  "primary_of r start t =
     (case tk_kind t of
        TkError \<Rightarrow> thenp advance_token (fail_with (\<lambda>_. error_token_error t))
      | TkLiteral LiInteger \<Rightarrow> parse_number_literal r start
      | TkLiteral LiFloat \<Rightarrow> parse_number_literal r start
      | TkLiteral LiString \<Rightarrow> constant_token (EStrLit (process_escapes (tk_text t))) start
      | TkLiteral LiStringTemplate \<Rightarrow>
          thenp advance_token (parse_string_interpolation r (tk_text t) start)
      | TkLiteral LiIdent \<Rightarrow> parse_ident r start
      | TkKeyword KwTrue \<Rightarrow> constant_token (EBoolLit True) start
      | TkKeyword KwFalse \<Rightarrow> constant_token (EBoolLit False) start
      | TkKeyword KwNil \<Rightarrow> constant_token ENil start
      | TkPunct PuSpread \<Rightarrow>
          thenp advance_token (bindp (c_expr r) (\<lambda>inner. ret (Expr (ESpread inner) start)))
      | TkDelimiter DlLParen \<Rightarrow>
          ifp lookahead_closure (parse_closure r start) (parse_group_or_tuple r start)
      | TkDelimiter DlLBracket \<Rightarrow> parse_array r start
      | TkDelimiter DlLBrace \<Rightarrow> parse_brace r start
      | TkKeyword KwIf \<Rightarrow> parse_if_expr r start
      | TkKeyword KwMatch \<Rightarrow> parse_match r start
      | TkKeyword KwOk \<Rightarrow> parse_ok r start
      | TkKeyword KwErr \<Rightarrow> parse_err r start
      | TkKeyword KwAwait \<Rightarrow> parse_await r start
      | TkKeyword KwGo \<Rightarrow> parse_go r start
      | TkKeyword KwScope \<Rightarrow> parse_scope r start
      | _ \<Rightarrow> fail_with (no_expression start))"

definition parse_primary :: "calls \<Rightarrow> expr parse" where
  "parse_primary r =
     bindp (gets current_token) (\<lambda>t. primary_of r (tk_span t) t)"

definition operand_missing :: "string \<Rightarrow> string \<Rightarrow> src_span \<Rightarrow> compiler_error" where
  "operand_missing pre operator sp =
     new_error (SyntaxError ExpectedExprAfterOp) (ascii (pre @ ''`'' @ operator @ ''`'')) sp"

definition parse_unary :: "calls \<Rightarrow> expr parse" where
  "parse_unary r =
     bindp (gets current_token) (\<lambda>t.
       (case unary_op_from_token (tk_kind t) of
          Some u \<Rightarrow>
            thenp advance_token
            (bindp (map_err (\<lambda>_ _. operand_missing ''expected expression after unary '' (unary_op_text u)
                (tk_span t)) (parse_primary r)) (\<lambda>e.
             bindp (parse_postfix r e) (\<lambda>e.
             ret (Expr (EUnary u e) (merge_spans (tk_span t) (ex_span e))))))
        | None \<Rightarrow> parse_primary r))"

section \<open>Binary operators and ranges\<close>

definition binary_follows :: "nat \<Rightarrow> expr \<Rightarrow> parser \<Rightarrow> bool" where
  "binary_follows min_prec left p \<longleftrightarrow>
     (case bin_op_from_token (current_kind p) of Some b \<Rightarrow> min_prec \<le> precedence b | None \<Rightarrow> False)"

definition binary_operation :: "calls \<Rightarrow> expr \<Rightarrow> expr parse" where
  "binary_operation r left =
     bindp (gets current_token) (\<lambda>t.
       (case bin_op_from_token (tk_kind t) of
          Some b \<Rightarrow>
            thenp advance_token
            (bindp (map_err (\<lambda>_ _. operand_missing ''expected expression after '' (bin_op_text b) (tk_span t))
               (c_prec r (precedence b + 1))) (\<lambda>right.
             ret (Expr (EBinary left b right) (merge_spans (ex_span left) (ex_span right)))))
        | None \<Rightarrow> ret left))"

definition parse_binary_op :: "calls \<Rightarrow> nat \<Rightarrow> expr \<Rightarrow> expr parse" where
  "parse_binary_op r min_prec = loop (binary_follows min_prec) (binary_operation r)"

definition parse_range :: "calls \<Rightarrow> expr \<Rightarrow> expr parse" where
  "parse_range r left =
     ifp (\<lambda>p. \<not> check (TkPunct PuDotDot) p \<and> \<not> check (TkPunct PuDotDotEq) p) (ret left)
     (bindp (gets (check (TkPunct PuDotDotEq))) (\<lambda>inclusive.
      thenp advance_token (bindp (c_prec r 8) (\<lambda>upto.
      ret (Expr (ERange left upto inclusive) (merge_spans (ex_span left) (ex_span upto)))))))"

section \<open>Expressions\<close>

definition set_expr_depth :: "(nat \<Rightarrow> nat) \<Rightarrow> unit parse" where
  "set_expr_depth f p = Some (Inr (), p\<lparr>ps_expr_depth := f (ps_expr_depth p)\<rparr>)"

definition too_deep :: "parser \<Rightarrow> compiler_error" where
  "too_deep p =
     with_suggestion
       (new_error (InternalFailure InternalError) (ascii ''expression nesting too deep (max 256)'') (current_span p))
       (ascii ''simplify the expression or break it into smaller parts'')"

text \<open>An error between the two changes of the depth leaves the depth increased.\<close>

definition parse_expression_prec :: "calls \<Rightarrow> nat \<Rightarrow> expr parse" where
  "parse_expression_prec r min_prec =
     thenp (set_expr_depth Suc)
     (ifp (\<lambda>p. max_expr_depth < ps_expr_depth p)
        (thenp (set_expr_depth (\<lambda>d. d - 1)) (fail_with too_deep))
        (bindp (parse_unary r) (\<lambda>left.
         bindp (parse_postfix r left) (\<lambda>left.
         bindp (parse_binary_op r min_prec left) (\<lambda>left.
         bindp (parse_range r left) (\<lambda>left.
         thenp (set_expr_depth (\<lambda>d. d - 1)) (ret left)))))))"

definition parse_expression :: "calls \<Rightarrow> expr parse" where
  "parse_expression r = parse_expression_prec r 0"

end
