(* ===== verification/Parse_Stmt.thy ===== *)
theory Parse_Stmt
  imports Parse_Expr
begin

text \<open>
  The statement parser (\<open>doo_frontend/src/parser/stmt.rs\<close>): bindings, blocks with recovery after an
  error, control flow, and expressions that turn out to be assignments.
\<close>

section \<open>Bindings\<close>

definition binding_error :: "string \<Rightarrow> src_span \<Rightarrow> string \<Rightarrow> error_code \<Rightarrow> compiler_error" where
  "binding_error msg sp hint c = with_suggestion (new_error c (ascii msg) sp) (ascii hint)"

definition mutable_extract :: "src_span \<Rightarrow> compiler_error" where
  "mutable_extract start =
     binding_error ''Manual error extraction cannot be mutable'' start ''remove `mut`: `let val ?? err = ...`''
       (SyntaxError InvalidAssignTarget)"

definition error_variable :: "ustr parse" where
  "error_variable =
     ifp (check (TkPunct PuUnderscore)) (thenp advance_token (ret (ascii ''_'')))
     (ifp (check (TkLiteral LiIdent))
        (bindp (gets (\<lambda>p. tk_text (current_token p))) (\<lambda>name. thenp advance_token (ret name)))
        (fail_with (\<lambda>p. binding_error (''Expected identifier or '' @ [CHR 0x27, CHR ''_'', CHR 0x27] @ '' for error binding after ''
             @ [CHR 0x27] @ ''??'' @ [CHR 0x27])
           (current_span p) ''use: `let val ?? err = expr` or `let val ?? _ = expr`''
           (SyntaxError ExpectedIdentifier))))"

text \<open>The tuple pattern of a list of patterns, spanning the first to the last.\<close>

definition tuple_pattern :: "expr pattern list \<Rightarrow> expr pattern" where
  "tuple_pattern ps = Pattern (PkTuple ps) (merge_spans (pt_span (hd ps)) (pt_span (last ps)))"

text \<open>What follows the double question mark, for the patterns before it.\<close>

definition error_extract :: "calls \<Rightarrow> src_span \<Rightarrow> expr pattern list \<Rightarrow> stmt parse" where
  "error_extract r start patterns =
     bindp error_variable (\<lambda>error_var. thenp (expect (TkOperator OpEq))
     (bindp (parse_expression r) (\<lambda>e.
     spanning start (Stmt (StManualErrorExtract e
       (if length patterns = 1 then hd patterns else tuple_pattern patterns) error_var)))))"

definition let_tail :: "calls \<Rightarrow> src_span \<Rightarrow> bool \<Rightarrow> expr pattern \<Rightarrow> stmt parse" where
  "let_tail r start mutable pat =
     bindp (optional_after (TkPunct PuColon) (c_type r)) (\<lambda>type_ann.
     thenp (expect (TkOperator OpEq)) (bindp (parse_expression r) (\<lambda>v.
     spanning start (Stmt (StLet mutable pat type_ann v)))))"

text \<open>The patterns after a comma; an error extraction ends the statement at once.\<close>

definition more_bindings :: "expr pattern list + stmt \<Rightarrow> parser \<Rightarrow> bool" where
  "more_bindings s p \<longleftrightarrow> isl s \<and> check (TkPunct PuComma) p"

definition next_binding ::
    "calls \<Rightarrow> src_span \<Rightarrow> bool \<Rightarrow> expr pattern list + stmt \<Rightarrow> (expr pattern list + stmt) parse" where
  "next_binding r start mutable s =
     thenp advance_token
     (ifp (check (TkPunct PuQuestionQuestion))
        (thenp advance_token
        (if mutable then fail_with (\<lambda>_. mutable_extract start)
         else bindp (error_extract r start (projl s)) (\<lambda>st. ret (Inr st))))
        (bindp (parse_pattern (c_fuel r)) (\<lambda>pat. ret (Inl (projl s @ [pat])))))"

definition parse_let :: "calls \<Rightarrow> stmt parse" where
  "parse_let r =
     bindp (gets current_span) (\<lambda>start.
     thenp (expect (TkKeyword KwLet))
     (bindp (flag_token (TkKeyword KwMut)) (\<lambda>mutable.
     bindp (parse_pattern (c_fuel r)) (\<lambda>first.
     ifp (check (TkPunct PuComma))
       (bindp (loop more_bindings (next_binding r start mutable) (Inl [first])) (\<lambda>res.
        (case res of Inl ps \<Rightarrow> let_tail r start mutable (tuple_pattern ps) | Inr st \<Rightarrow> ret st)))
     (ifp (check (TkPunct PuQuestionQuestion))
       (if mutable then fail_with (\<lambda>_. mutable_extract start)
        else thenp advance_token (error_extract r start [first]))
     (let_tail r start mutable first))))))"

section \<open>Blocks\<close>

text \<open>What the parser does after a statement or item: a semicolon is demanded or optional.\<close>

definition semicolon_error :: "string \<Rightarrow> string \<Rightarrow> parser \<Rightarrow> compiler_error" where
  "semicolon_error what hint p =
     with_suggestion (new_error (SyntaxError MissingSemicolon) (ascii what) (prev_span p)) (ascii hint)"

definition take_semicolon :: "bool \<Rightarrow> (parser \<Rightarrow> compiler_error) \<Rightarrow> parser \<Rightarrow> parser" where
  "take_semicolon needed e p =
     (if check (TkPunct PuSemi) p then step_token p
      else if needed then push_error (e p) p else p)"

text \<open>A parse whose error is recorded, after which the parser recovers and goes on.\<close>

definition recover :: "'a list \<Rightarrow> ('a \<Rightarrow> parser \<Rightarrow> parser) \<Rightarrow> 'a parse \<Rightarrow> 'a list parse" where
  "recover xs after m p =
     (case m p of
        None \<Rightarrow> None
      | Some (Inl e, q) \<Rightarrow> Some (Inr xs, synchronize (push_error e q))
      | Some (Inr x, q) \<Rightarrow> Some (Inr (xs @ [x]), after x q))"

definition after_stmt :: "stmt \<Rightarrow> parser \<Rightarrow> parser" where
  "after_stmt s =
     take_semicolon (stmt_needs_semicolon (st_kind s))
       (semicolon_error ''expected `;` after statement'' ''add `;` at the end of this statement'')"

definition parse_block :: "calls \<Rightarrow> stmt list parse" where
  "parse_block r =
     thenp (expect (TkDelimiter DlLBrace))
     (bindp (loop (before_end (TkDelimiter DlRBrace)) (\<lambda>stmts. recover stmts after_stmt (c_statement r)) [])
       (\<lambda>stmts. thenp (expect (TkDelimiter DlRBrace)) (ret stmts)))"

definition parse_block_stmt :: "calls \<Rightarrow> stmt parse" where
  "parse_block_stmt r =
     bindp (gets current_span) (\<lambda>start. bindp (parse_block r) (\<lambda>stmts.
     spanning start (Stmt (StBlock stmts))))"

section \<open>Control flow\<close>

text \<open>The recursion of an else-if goes through the statement parser's entry for that keyword.\<close>

definition parse_if :: "calls \<Rightarrow> stmt parse" where
  "parse_if r =
     bindp (gets current_span) (\<lambda>start.
     thenp (expect (TkKeyword KwIf))
     (bindp (parse_expression r) (\<lambda>condition.
     bindp (parse_block r) (\<lambda>then_block.
     bindp (optional_after (TkKeyword KwElse)
        (ifp (check (TkKeyword KwIf)) (bindp (c_statement r) (\<lambda>s. ret (ElElseIf s)))
           (bindp (parse_block r) (\<lambda>b. ret (ElBlock b))))) (\<lambda>else_branch.
     spanning start (Stmt (StIf condition then_block else_branch)))))))"

definition set_loop_depth :: "(nat \<Rightarrow> nat) \<Rightarrow> unit parse" where
  "set_loop_depth f p = Some (Inr (), p\<lparr>ps_loop_depth := f (ps_loop_depth p)\<rparr>)"

text \<open>Runs a parse whose error takes the loop depth back before it is replaced.\<close>

definition leaving_loop :: "(parser \<Rightarrow> compiler_error) \<Rightarrow> 'a parse \<Rightarrow> 'a parse" where
  "leaving_loop e m p =
     (case m p of
        None \<Rightarrow> None
      | Some (Inl _, q) \<Rightarrow> Some (Inl (e q), q\<lparr>ps_loop_depth := ps_loop_depth q - 1\<rparr>)
      | Some (Inr a, q) \<Rightarrow> Some (Inr a, q))"

definition for_error :: "string \<Rightarrow> parser \<Rightarrow> compiler_error" where
  "for_error msg p =
     with_suggestion (new_error (SyntaxError InvalidForSyntax) (ascii msg) (current_span p))
       (ascii ''for item in collection { ... }'')"

definition infinite_loop :: "calls \<Rightarrow> src_span \<Rightarrow> stmt parse" where
  "infinite_loop r start =
     thenp (set_loop_depth Suc) (bindp (parse_block r) (\<lambda>body.
     thenp (set_loop_depth (\<lambda>d. d - 1)) (spanning start (Stmt (StFor (wildcard_pattern start) None body)))))"

definition loop_pattern :: "calls \<Rightarrow> expr pattern parse" where
  "loop_pattern r =
     bindp (map_err (\<lambda>_. for_error ''expected loop variable after `for`'') (parse_pattern (c_fuel r)))
       (\<lambda>first.
     ifp (check (TkPunct PuComma))
       (bindp (loop (\<lambda>_. check (TkPunct PuComma))
          (\<lambda>ps. thenp advance_token (bindp (parse_pattern (c_fuel r)) (\<lambda>q. ret (ps @ [q])))) [first])
        (\<lambda>ps. ret (tuple_pattern ps)))
       (ret first))"

definition loop_body :: "calls \<Rightarrow> stmt list parse" where
  "loop_body r =
     thenp (set_loop_depth Suc)
     (bindp (leaving_loop (for_error ''expected `{` to start for-loop body'') (parse_block r)) (\<lambda>body.
      thenp (set_loop_depth (\<lambda>d. d - 1)) (ret body)))"

definition parse_for :: "calls \<Rightarrow> stmt parse" where
  "parse_for r =
     bindp (gets current_span) (\<lambda>start.
     thenp (expect (TkKeyword KwFor))
     (ifp (check (TkDelimiter DlLBrace)) (infinite_loop r start)
     (bindp (loop_pattern r) (\<lambda>pat.
     bindp (optional_after (TkKeyword KwIn)
        (map_err (\<lambda>_. for_error ''expected iterable expression after `in`'') (parse_expression r))) (\<lambda>iterable.
     bindp (loop_body r) (\<lambda>body.
     spanning start (Stmt (StFor pat iterable body))))))))"

definition parse_return :: "calls \<Rightarrow> stmt parse" where
  "parse_return r =
     bindp (gets current_span) (\<lambda>start.
     thenp (expect (TkKeyword KwReturn))
     (ifp (\<lambda>p. ps_fn_depth p = 0)
        (fail_with (\<lambda>_. binding_error ''`return` can only be used inside a function'' start
           ''move this `return` inside a `fn` body'' (DeclarationError ReturnOutsideFunction)))
        (bindp (ifp is_at_stmt_end (ret []) (comma_separated (parse_expression r))) (\<lambda>values.
         spanning start (Stmt (StReturn values))))))"

definition loop_jump :: "keyword \<Rightarrow> stmt_kind \<Rightarrow> (src_span \<Rightarrow> compiler_error) \<Rightarrow> stmt parse" where
  "loop_jump k kind e =
     bindp (gets current_span) (\<lambda>sp.
     thenp (expect (TkKeyword k))
     (ifp (\<lambda>p. ps_loop_depth p = 0) (fail_with (\<lambda>_. e sp)) (ret (Stmt kind sp))))"

definition parse_break :: "stmt parse" where
  "parse_break =
     loop_jump KwBreak StBreak (\<lambda>sp. binding_error ''`break` can only be used inside a loop'' sp
       ''move this `break` inside a `for` loop'' (DeclarationError BreakOutsideLoop))"

definition parse_continue :: "stmt parse" where
  "parse_continue =
     loop_jump KwContinue StContinue (\<lambda>sp. binding_error ''`continue` can only be used inside a loop'' sp
       ''move this `continue` inside a `for` loop'' (DeclarationError ContinueOutsideLoop))"

definition parse_print :: "calls \<Rightarrow> stmt parse" where
  "parse_print r =
     bindp (gets current_span) (\<lambda>start.
     thenp (expect (TkKeyword KwPrint)) (thenp (expect (TkDelimiter DlLParen))
     (bindp (parse_list (TkDelimiter DlRParen) (parse_expression r)) (\<lambda>exprs.
     thenp (expect (TkDelimiter DlRParen)) (spanning start (Stmt (StPrint exprs)))))))"

section \<open>Expression statements and assignments\<close>

definition bad_target :: "src_span \<Rightarrow> compiler_error" where
  "bad_target sp =
     binding_error ''Cannot use this expression as assignment target'' sp
       ''assign to a variable, field, or index'' (SyntaxError InvalidPattern)"

function expr_to_pattern :: "expr \<Rightarrow> compiler_error + expr pattern"
  and exprs_to_patterns :: "expr list \<Rightarrow> compiler_error + expr pattern list" where
  "expr_to_pattern e =
     (case ex_kind e of
        EIdent name \<Rightarrow> Inr (ident_pattern name (ex_span e))
      | ETupleLit items \<Rightarrow>
          (case exprs_to_patterns items of
             Inl err \<Rightarrow> Inl err
           | Inr ps \<Rightarrow> Inr (Pattern (PkTuple ps) (ex_span e)))
      | EIndex object i \<Rightarrow>
          (case expr_to_pattern object of
             Inl err \<Rightarrow> Inl err
           | Inr pat \<Rightarrow> Inr (Pattern (PkIndex pat i) (ex_span e)))
      | EField object field \<Rightarrow>
          (case expr_to_pattern object of
             Inl err \<Rightarrow> Inl err
           | Inr pat \<Rightarrow> Inr (Pattern (PkField pat field) (ex_span e)))
      | _ \<Rightarrow> Inl (bad_target (ex_span e)))"
| "exprs_to_patterns [] = Inr []"
| "exprs_to_patterns (e # es) =
     (case expr_to_pattern e of
        Inl err \<Rightarrow> Inl err
      | Inr pat \<Rightarrow>
          (case exprs_to_patterns es of Inl err \<Rightarrow> Inl err | Inr ps \<Rightarrow> Inr (pat # ps)))"
  by pat_completeness auto
termination
  apply (relation "measure (\<lambda>a. case a of Inl e \<Rightarrow> size e | Inr es \<Rightarrow> size_list size es)")
  subgoal by simp
  subgoal for e items by (cases e) simp
  subgoal for e by (cases e) simp
  subgoal for e by (cases e) simp
  subgoal by simp
  subgoal by simp
  done

declare expr_to_pattern.simps [simp del]

definition from_sum :: "compiler_error + 'a \<Rightarrow> 'a parse" where
  "from_sum x p = Some (x, p)"

definition assign_tail ::
    "calls \<Rightarrow> src_span \<Rightarrow> expr \<Rightarrow> (expr pattern \<Rightarrow> expr \<Rightarrow> stmt_kind) \<Rightarrow> stmt parse" where
  "assign_tail r start e f =
     thenp advance_token (bindp (parse_expression r) (\<lambda>v.
     bindp (from_sum (expr_to_pattern e)) (\<lambda>pat. spanning start (Stmt (f pat v)))))"

text \<open>After an increment of anything but a variable only the expression is left.\<close>

definition inc_dec_tail :: "src_span \<Rightarrow> expr \<Rightarrow> inc_dec_op \<Rightarrow> stmt parse" where
  "inc_dec_tail start e d =
     thenp advance_token
       (spanning start (Stmt (case ex_kind e of EIdent name \<Rightarrow> StIncDec name d | _ \<Rightarrow> StExpr e)))"

definition parse_expr_or_assign :: "calls \<Rightarrow> stmt parse" where
  "parse_expr_or_assign r =
     bindp (gets current_span) (\<lambda>start. bindp (parse_expression r) (\<lambda>e.
     ifp (check (TkOperator OpEq)) (assign_tail r start e StAssign)
     (bindp (gets current_kind) (\<lambda>k.
       (case compound_op_from_token k of
          Some c \<Rightarrow> assign_tail r start e (\<lambda>pat. StCompoundAssign pat c)
        | None \<Rightarrow>
            (case inc_dec_op_from_token k of
               Some d \<Rightarrow> inc_dec_tail start e d
             | None \<Rightarrow> spanning start (Stmt (StExpr e))))))))"

end
