(* ===== verification/Parse_Decl.thy ===== *)
theory Parse_Decl
  imports Parse_Stmt
begin

text \<open>
  The parsers of decorators, parameters, structs and enums (\<open>doo_frontend/src/parser/items.rs\<close>), the
  dispatch of statements, which reaches the last two, and the closure of the recursion with fuel.
\<close>

section \<open>Decorators\<close>

definition decorator_error :: "ustr \<Rightarrow> parser \<Rightarrow> compiler_error" where
  "decorator_error msg p = new_error (SyntaxError InvalidDecoratorSyntax) msg (current_span p)"

definition decorator_argument :: "calls \<Rightarrow> ustr \<Rightarrow> expr parse" where
  "decorator_argument r name =
     map_err (\<lambda>_. decorator_error (ascii ''invalid argument in @'' @ name @ ascii '' decorator''))
       (parse_expression r)"

definition decorator_arguments :: "calls \<Rightarrow> ustr \<Rightarrow> expr list parse" where
  "decorator_arguments r name =
     thenp advance_token
     (bindp (loop (before_end (TkDelimiter DlRParen))
        (\<lambda>args. bindp (decorator_argument r name) (\<lambda>a.
         thenp (map_err (\<lambda>_. decorator_error (ascii ''expected `,` or `)` in @'' @ name @ ascii '' arguments''))
           (comma_or_end (TkDelimiter DlRParen))) (ret (args @ [a])))) []) (\<lambda>args.
      thenp (map_err (\<lambda>_. decorator_error (ascii ''missing `)` in @'' @ name @ ascii '' decorator''))
        (expect (TkDelimiter DlRParen))) (ret args)))"

definition parse_decorator :: "calls \<Rightarrow> expr decorator parse" where
  "parse_decorator r =
     bindp (gets current_span) (\<lambda>start.
     thenp (expect (TkPunct PuAt))
     (bindp (map_err (\<lambda>_ _. with_suggestion (new_error (SyntaxError InvalidDecoratorSyntax)
          (ascii ''expected decorator name after `@`'') start)
          (ascii ''usage: @decoratorName or @decoratorName(args)'')) expect_ident) (\<lambda>name.
     bindp (ifp (check (TkDelimiter DlLParen)) (decorator_arguments r name) (ret [])) (\<lambda>args.
     spanning start (Decorator name args)))))"

definition parse_decorators :: "calls \<Rightarrow> expr decorator list parse" where
  "parse_decorators r =
     loop (\<lambda>_. check (TkPunct PuAt)) (\<lambda>ds. bindp (parse_decorator r) (\<lambda>d. ret (ds @ [d]))) []"

section \<open>Names without duplicates\<close>

definition duplicate_error :: "declaration_error \<Rightarrow> ustr \<Rightarrow> src_span \<Rightarrow> ustr \<Rightarrow> compiler_error" where
  "duplicate_error c msg sp hint = with_suggestion (new_error (DeclarationError c) msg sp) hint"

definition single_quoted :: "ustr \<Rightarrow> ustr" where
  "single_quoted s = 0x27 # s @ [0x27]"

text \<open>A further element of a list is refused when its name is one of the names seen.\<close>

definition add_unique ::
    "('a \<Rightarrow> ustr) \<Rightarrow> ('a \<Rightarrow> compiler_error) \<Rightarrow> 'a list \<Rightarrow> 'a \<Rightarrow> 'a list parse" where
  "add_unique name e xs x =
     (if name x \<in> name ` set xs then fail_with (\<lambda>_. e x) else ret (xs @ [x]))"

definition rename_hint :: "ustr \<Rightarrow> string \<Rightarrow> ustr" where
  "rename_hint n what = ascii ''rename one of the '' @ single_quoted n @ ascii ('' '' @ what)"

section \<open>Type parameters and parameters\<close>

definition type_param_error :: "ustr \<Rightarrow> string \<Rightarrow> parser \<Rightarrow> compiler_error" where
  "type_param_error msg hint p =
     with_suggestion (new_error (SyntaxError ExpectedIdentifier) msg (current_span p)) (ascii hint)"

definition parse_type_param :: "type_param list \<Rightarrow> type_param list parse" where
  "parse_type_param ps =
     bindp (gets current_span) (\<lambda>sp.
     bindp (map_err (\<lambda>_. type_param_error (ascii ''expected type parameter name (e.g. T, A, B)'')
        ''usage: fn name<T>(...) or struct Name<T> { ... }'') expect_ident) (\<lambda>name.
     if name \<in> tp_name ` set ps then
       fail_with (\<lambda>_. duplicate_error DuplicateParameter
         (ascii ''duplicate type parameter '' @ single_quoted name) sp (rename_hint name ''type parameters''))
     else
       bindp (optional_after (TkPunct PuColon)
         (map_err (\<lambda>_. type_param_error
            (ascii ''expected interface name after '' @ single_quoted (ascii '':'')
              @ ascii '' in type parameter '' @ single_quoted name)
            ''usage: <T: SomeInterface>'') expect_ident)) (\<lambda>constraint.
       bindp (spanning sp (TypeParam name constraint)) (\<lambda>tp.
       thenp (comma_or_end (TkOperator OpGt)) (ret (ps @ [tp]))))))"

definition parse_type_params :: "type_param list parse" where
  "parse_type_params =
     ifp (\<lambda>p. \<not> check (TkOperator OpLt) p) (ret [])
     (thenp advance_token
     (bindp (loop (before_end (TkOperator OpGt)) parse_type_param []) (\<lambda>ps.
      thenp (map_err (\<lambda>_ p. with_suggestion (new_error (SyntaxError UnexpectedToken)
           (ascii ''expected `>` to close type parameter list'') (current_span p))
           (ascii ''usage: fn name<T>(...) or struct Name<T, U> { ... }'')) (expect (TkOperator OpGt)))
        (ret ps))))"

definition parse_param :: "calls \<Rightarrow> params \<Rightarrow> params parse" where
  "parse_param r ps =
     bindp (gets current_span) (\<lambda>sp. bindp expect_ident (\<lambda>name.
     if name \<in> fst ` set ps then
       fail_with (\<lambda>_. duplicate_error DuplicateParameter
         (ascii ''duplicate parameter '' @ single_quoted name) sp (rename_hint name ''parameters''))
     else
       bindp (optional_after (TkPunct PuColon) (c_type r)) (\<lambda>t.
       thenp (comma_or_end (TkDelimiter DlRParen)) (ret (ps @ [(name, t)])))))"

definition parse_param_list :: "calls \<Rightarrow> params parse" where
  "parse_param_list r = loop (before_end (TkDelimiter DlRParen)) (parse_param r) []"

section \<open>Structs\<close>

definition optional_comma :: "unit parse" where
  "optional_comma = ifp (check (TkPunct PuComma)) advance_token (ret ())"

definition parse_field_decl :: "calls \<Rightarrow> expr field_decl parse" where
  "parse_field_decl r =
     bindp (gets current_span) (\<lambda>start.
     bindp expect_ident (\<lambda>name.
     bindp (flag_token (TkPunct PuQuestion)) (\<lambda>is_optional.
     thenp (expect (TkPunct PuColon))
     (bindp (c_type r) (\<lambda>t.
     bindp (parse_decorators r) (\<lambda>ds.
     bindp (optional_after (TkOperator OpEq) (parse_expression r)) (\<lambda>default.
     spanning start (FieldDecl name t (is_public_name (env_uppercase (c_env r)) name) is_optional default ds))))))))"

definition duplicate_field :: "ustr \<Rightarrow> expr field_decl \<Rightarrow> compiler_error" where
  "duplicate_field name f =
     duplicate_error DuplicateField
       (ascii ''duplicate field '' @ single_quoted (fd_name f) @ ascii '' in struct '' @ single_quoted name)
       (fd_span f) (rename_hint (fd_name f) ''fields'')"

definition parse_struct :: "calls \<Rightarrow> expr struct_decl parse" where
  "parse_struct r =
     bindp (gets current_span) (\<lambda>start.
     thenp (expect (TkKeyword KwStruct))
     (bindp expect_ident (\<lambda>name.
     bindp parse_type_params (\<lambda>tps.
     thenp (expect (TkDelimiter DlLBrace))
     (bindp (loop (before_end (TkDelimiter DlRBrace))
        (\<lambda>fs. bindp (parse_field_decl r) (\<lambda>f. bindp (add_unique fd_name (duplicate_field name) fs f) (\<lambda>fs.
         thenp optional_comma (ret fs)))) []) (\<lambda>fs.
     thenp (expect (TkDelimiter DlRBrace))
     (spanning start (StructDecl name (is_public_name (env_uppercase (c_env r)) name) tps fs []))))))))"

section \<open>Enums\<close>

definition type_tuple :: "src_span \<Rightarrow> type_expr list \<Rightarrow> type_expr parse" where
  "type_tuple start types =
     (if length types = 1 then ret (hd types) else spanning start (TypeExpr (TeTuple types)))"

definition variant_payload :: "calls \<Rightarrow> src_span \<Rightarrow> type_expr parse" where
  "variant_payload r start =
     bindp (parse_list (TkDelimiter DlRParen) (c_type r)) (\<lambda>types.
     thenp (expect (TkDelimiter DlRParen)) (type_tuple start types))"

definition parse_variant_decl :: "calls \<Rightarrow> expr variant_decl parse" where
  "parse_variant_decl r =
     bindp (gets current_span) (\<lambda>start.
     bindp expect_ident (\<lambda>name.
     bindp (optional_after (TkDelimiter DlLParen) (variant_payload r start)) (\<lambda>payload.
     bindp (parse_decorators r) (\<lambda>ds.
     spanning start (VariantDecl name payload ds)))))"

definition duplicate_variant :: "ustr \<Rightarrow> expr variant_decl \<Rightarrow> compiler_error" where
  "duplicate_variant name v =
     duplicate_error DuplicateVariant
       (ascii ''duplicate variant '' @ single_quoted (vd_name v) @ ascii '' in enum '' @ single_quoted name)
       (vd_span v) (rename_hint (vd_name v) ''variants'')"

definition next_variant :: "calls \<Rightarrow> ustr \<Rightarrow> expr variant_decl list \<Rightarrow> expr variant_decl list parse" where
  "next_variant r name vs =
     bindp (parse_variant_decl r) (add_unique vd_name (duplicate_variant name) vs)"

definition inline_variants :: "calls \<Rightarrow> ustr \<Rightarrow> expr variant_decl list parse" where
  "inline_variants r name =
     thenp advance_token
     (bindp (ifp (\<lambda>p. \<not> check (TkPunct PuSemi) p \<and> \<not> is_at_end p)
        (bindp (next_variant r name []) (loop
           (\<lambda>_ p. check (TkPunct PuComma) p \<or> check (TkOperator OpOr) p)
           (\<lambda>vs. thenp advance_token (next_variant r name vs))))
        (ret [])) (\<lambda>vs.
      thenp (ifp (check (TkPunct PuSemi)) advance_token (ret ())) (ret vs)))"

definition block_variants :: "calls \<Rightarrow> ustr \<Rightarrow> expr variant_decl list parse" where
  "block_variants r name =
     thenp (expect (TkDelimiter DlLBrace))
     (bindp (loop (before_end (TkDelimiter DlRBrace))
        (\<lambda>vs. bindp (next_variant r name vs) (\<lambda>vs. thenp optional_comma (ret vs))) []) (\<lambda>vs.
      thenp (expect (TkDelimiter DlRBrace)) (ret vs)))"

definition parse_enum :: "calls \<Rightarrow> expr enum_decl parse" where
  "parse_enum r =
     bindp (gets current_span) (\<lambda>start.
     thenp (expect (TkKeyword KwEnum))
     (bindp expect_ident (\<lambda>name.
     bindp (ifp (check (TkPunct PuColon)) (inline_variants r name) (block_variants r name)) (\<lambda>vs.
     spanning start (EnumDecl name (is_public_name (env_uppercase (c_env r)) name) vs)))))"

section \<open>Statements\<close>

definition struct_stmt :: "calls \<Rightarrow> stmt parse" where
  "struct_stmt r =
     bindp (gets current_span) (\<lambda>start. bindp (parse_struct r) (\<lambda>d.
     spanning start (Stmt (StStructDecl d))))"

definition enum_stmt :: "calls \<Rightarrow> stmt parse" where
  "enum_stmt r =
     bindp (gets current_span) (\<lambda>start. bindp (parse_enum r) (\<lambda>d.
     spanning start (Stmt (StEnumDecl d))))"

definition parse_statement :: "calls \<Rightarrow> stmt parse" where
  "parse_statement r =
     bindp (gets current_kind) (\<lambda>k.
       (case k of
          TkKeyword KwLet \<Rightarrow> parse_let r
        | TkKeyword KwIf \<Rightarrow> parse_if r
        | TkKeyword KwFor \<Rightarrow> parse_for r
        | TkKeyword KwReturn \<Rightarrow> parse_return r
        | TkKeyword KwBreak \<Rightarrow> parse_break
        | TkKeyword KwContinue \<Rightarrow> parse_continue
        | TkKeyword KwPrint \<Rightarrow> parse_print r
        | TkDelimiter DlLBrace \<Rightarrow> parse_block_stmt r
        | TkKeyword KwStruct \<Rightarrow> struct_stmt r
        | TkKeyword KwEnum \<Rightarrow> enum_stmt r
        | _ \<Rightarrow> parse_expr_or_assign r))"

section \<open>Closing the recursion\<close>

text \<open>Each unfolding of a call takes one unit of fuel; without fuel a call is undefined.\<close>

primrec calls_at :: "environment \<Rightarrow> nat \<Rightarrow> calls" where
  "calls_at v 0 =
     \<lparr>c_env = v, c_fuel = 0, c_prec = \<lambda>_ _. None, c_unary = \<lambda>_. None, c_if_expr = \<lambda>_ _. None,
      c_statement = \<lambda>_. None\<rparr>"
| "calls_at v (Suc n) =
     (let r = calls_at v n in
      \<lparr>c_env = v, c_fuel = Suc n, c_prec = parse_expression_prec r, c_unary = parse_unary r,
       c_if_expr = parse_if_expr r, c_statement = parse_statement r\<rparr>)"

end
