(* ===== verification/Parse_Items.thy ===== *)
theory Parse_Items
  imports Parse_Decl
begin

text \<open>
  The parsers of top-level items (\<open>doo_frontend/src/parser/items.rs\<close>) and of whole programs
  (\<open>mod.rs\<close>).
\<close>

section \<open>Constants and statics\<close>

definition name_error :: "string \<Rightarrow> string \<Rightarrow> parser \<Rightarrow> compiler_error" where
  "name_error msg hint p =
     with_suggestion (new_error (SyntaxError ExpectedIdentifier) (ascii msg) (current_span p)) (ascii hint)"

definition dq :: string where
  "dq = [CHR 0x22]"

definition parse_const :: "calls \<Rightarrow> const_decl parse" where
  "parse_const r =
     bindp (gets current_span) (\<lambda>start.
     thenp (expect (TkKeyword KwConst))
     (bindp (map_err (\<lambda>_. name_error ''expected constant name after `const`''
        (''usage: const MaxRetries = 3  or  const AppName = '' @ dq @ ''doo'' @ dq)) expect_ident) (\<lambda>name.
     thenp (map_err (\<lambda>_ p. with_suggestion (new_error (SyntaxError UnexpectedToken)
          (ascii ''expected `=` after const name `'' @ name @ ascii ''`'') (current_span p))
          (ascii ''usage: const Name = <value>'')) (expect (TkOperator OpEq)))
     (bindp (map_err (\<lambda>_ p. with_suggestion (new_error (SyntaxError InvalidConstExpr)
          (ascii ''expected a compile-time constant expression for `const '' @ name @ ascii ''`'') (current_span p))
          (ascii ''const values must be literals, arrays/maps of literals, or const arithmetic''))
        (parse_expression r)) (\<lambda>v.
     spanning start (new_const_decl (env_uppercase (c_env r)) name v))))))"

definition parse_static :: "calls \<Rightarrow> static_decl parse" where
  "parse_static r =
     bindp (gets current_span) (\<lambda>start.
     thenp (expect (TkKeyword KwStatic))
     (bindp (map_err (\<lambda>_. name_error ''expected static variable name after `static`''
        ''usage: static DB: Database  or  static Cache: Redis'') expect_ident) (\<lambda>name.
     thenp (map_err (\<lambda>_ p. with_suggestion (new_error (SyntaxError UnexpectedToken)
          (ascii ''expected `:` after static name `'' @ name @ ascii ''`'') (current_span p))
          (ascii ''usage: static Name: Type  '' @ em_dash @ ascii '' type annotation is required''))
        (expect (TkPunct PuColon)))
     (bindp (c_type r) (\<lambda>t. spanning start (new_static_decl (env_uppercase (c_env r)) name t))))))"

section \<open>Functions\<close>

definition parse_function_name :: "(ustr \<times> ustr option \<times> ustr option) parse" where
  "parse_function_name =
     bindp expect_ident (\<lambda>first.
     ifp (check (TkPunct PuDot))
       (thenp advance_token (bindp expect_ident (\<lambda>method_name.
        ret (method_name, Some first, Some first))))
       (ret (first, None, None)))"

text \<open>The return and error types behind the parameters: an arrow with types and an optional error type,
  an arrow or nothing before the error type alone, or nothing at all.\<close>

definition error_only :: "calls \<Rightarrow> (type_expr option \<times> type_expr option) parse" where
  "error_only r = thenp advance_token (bindp (c_type r) (\<lambda>e. ret (None, Some e)))"

definition result_types :: "calls \<Rightarrow> src_span \<Rightarrow> (type_expr option \<times> type_expr option) parse" where
  "result_types r start =
     ifp (check (TkOperator OpArrow))
       (thenp advance_token
       (ifp (check (TkOperator OpBang)) (error_only r)
       (bindp (comma_separated (c_type r)) (\<lambda>types.
        bindp (type_tuple start types) (\<lambda>t.
        bindp (optional_after (TkOperator OpBang) (c_type r)) (\<lambda>e. ret (Some t, e)))))))
     (ifp (check (TkOperator OpBang)) (error_only r) (ret (None, None)))"

definition set_fn_depth :: "(nat \<Rightarrow> nat) \<Rightarrow> unit parse" where
  "set_fn_depth f p = Some (Inr (), p\<lparr>ps_fn_depth := f (ps_fn_depth p)\<rparr>)"

definition missing_body :: "ustr \<Rightarrow> parser \<Rightarrow> compiler_error" where
  "missing_body name p =
     with_suggestion (new_error (SyntaxError MissingFunctionBody)
       (ascii ''function '' @ single_quoted name @ ascii '' is missing a body'') (current_span p))
       (ascii ''add a body with `{ ... }` or `=> expr`'')"

definition function_body :: "calls \<Rightarrow> ustr \<Rightarrow> (stmt list \<times> bool) parse" where
  "function_body r name =
     ifp (check (TkOperator OpFatArrow))
       (thenp advance_token (bindp (comma_separated (parse_expression r)) (\<lambda>values.
        gets (\<lambda>p. ([Stmt (StReturn values) (prev_span p)], True)))))
     (ifp (check (TkDelimiter DlLBrace)) (bindp (parse_block r) (\<lambda>b. ret (b, False)))
       (thenp (set_fn_depth (\<lambda>d. d - 1)) (fail_with (missing_body name))))"

definition make_function ::
    "calls \<Rightarrow> bool \<Rightarrow> ustr \<times> ustr option \<times> ustr option \<Rightarrow> type_param list \<Rightarrow> params
      \<Rightarrow> type_expr option \<times> type_expr option \<Rightarrow> stmt list \<times> bool \<Rightarrow> src_span \<Rightarrow> function_decl" where
  "make_function r is_async nm tps ps tys body sp =
     \<lparr>fu_name = fst nm, fu_public = is_public_name (env_uppercase (c_env r)) (fst nm), fu_type_params = tps,
      fu_params = ps, fu_return_type = fst tys, fu_error_type = snd tys, fu_body = fst body,
      fu_decorators = [], fu_receiver = snd (snd nm), fu_associated_type = fst (snd nm),
      fu_is_expr_fn = snd body, fu_is_async = is_async, fu_span = sp\<rparr>"

text \<open>An error inside the body leaves the depth of functions increased.\<close>

definition parse_function :: "calls \<Rightarrow> function_decl parse" where
  "parse_function r =
     bindp (gets current_span) (\<lambda>start.
     bindp (flag_token (TkKeyword KwAsync)) (\<lambda>is_async.
     thenp (expect (TkKeyword KwFn))
     (bindp parse_function_name (\<lambda>nm.
     bindp parse_type_params (\<lambda>tps.
     thenp (expect (TkDelimiter DlLParen))
     (bindp (parse_param_list r) (\<lambda>ps.
     thenp (expect (TkDelimiter DlRParen))
     (bindp (result_types r start) (\<lambda>tys.
     thenp (set_fn_depth Suc)
     (bindp (function_body r (fst nm)) (\<lambda>body.
     thenp (set_fn_depth (\<lambda>d. d - 1))
     (spanning start (make_function r is_async nm tps ps tys body)))))))))))))"

section \<open>Impl blocks and interfaces\<close>

definition check_self :: "ustr \<Rightarrow> function_decl \<Rightarrow> unit parse" where
  "check_self struct_name f =
     (if fu_params f = [] \<or> fst (hd (fu_params f)) \<noteq> ascii ''self'' then
        fail_with (\<lambda>_. with_suggestion (new_error (SyntaxError MissingFunctionBody)
          (ascii ''method '' @ single_quoted (fu_name f) @ ascii '' in impl '' @ struct_name @ ascii '' must have ''
            @ single_quoted (ascii ''self'') @ ascii '' as its first parameter'') (fu_span f))
          (ascii ''add `self` parameter: fn '' @ fu_name f @ ascii ''(self, ...)''))
      else ret ())"

definition duplicate_method :: "ustr \<Rightarrow> function_decl \<Rightarrow> compiler_error" where
  "duplicate_method struct_name f =
     duplicate_error DuplicateMethod
       (ascii ''duplicate method '' @ single_quoted (fu_name f) @ ascii '' in impl '' @ struct_name) (fu_span f)
       (rename_hint (fu_name f) ''methods'')"

definition impl_method :: "calls \<Rightarrow> ustr \<Rightarrow> function_decl list \<Rightarrow> function_decl list parse" where
  "impl_method r struct_name fs =
     bindp (map_err (\<lambda>e _. new_error (SyntaxError UnexpectedToken)
        (ascii ''invalid method in impl '' @ struct_name @ ascii '': '' @ ce_message e) (ce_span e))
        (parse_function r)) (\<lambda>f.
     let f = f\<lparr>fu_associated_type := Some struct_name\<rparr>
     in thenp (check_self struct_name f) (add_unique fu_name (duplicate_method struct_name) fs f))"

definition parse_impl :: "calls \<Rightarrow> impl_decl parse" where
  "parse_impl r =
     bindp (gets current_span) (\<lambda>start.
     thenp (expect (TkKeyword KwImpl))
     (bindp (map_err (\<lambda>_. name_error ''expected struct name after `impl`''
        ''usage: impl StructName { fn method(self) -> ... }'') expect_ident) (\<lambda>struct_name.
     thenp (map_err (\<lambda>_ p. new_error (SyntaxError UnexpectedToken)
        (ascii ''expected `{` after `impl '' @ struct_name @ ascii ''`'') (current_span p))
        (expect (TkDelimiter DlLBrace)))
     (bindp (loop (before_end (TkDelimiter DlRBrace)) (impl_method r struct_name) []) (\<lambda>fs.
     thenp (map_err (\<lambda>_ p. new_error (SyntaxError UnexpectedToken)
        (ascii ''expected `}` to close impl '' @ struct_name) (current_span p))
        (expect (TkDelimiter DlRBrace)))
     (spanning start (\<lambda>sp. \<lparr>im_struct_name = struct_name, im_methods = fs, im_decorators = [], im_span = sp\<rparr>)))))))"

definition parse_interface_method :: "calls \<Rightarrow> interface_method_decl parse" where
  "parse_interface_method r =
     bindp (gets current_span) (\<lambda>start.
     thenp (expect (TkKeyword KwFn))
     (bindp expect_ident (\<lambda>name.
     thenp (expect (TkDelimiter DlLParen))
     (bindp (parse_param_list r) (\<lambda>ps.
     thenp (expect (TkDelimiter DlRParen))
     (bindp (result_types r start) (\<lambda>tys.
     thenp (ifp (check (TkPunct PuSemi)) advance_token (ret ()))
     (spanning start (\<lambda>sp. \<lparr>mt_name = name, mt_params = ps, mt_return_type = fst tys,
        mt_error_type = snd tys, mt_span = sp\<rparr>)))))))))"

definition duplicate_signature :: "ustr \<Rightarrow> interface_method_decl \<Rightarrow> compiler_error" where
  "duplicate_signature name m =
     duplicate_error DuplicateMethod
       (ascii ''duplicate method '' @ single_quoted (mt_name m) @ ascii '' in interface '' @ single_quoted name)
       (mt_span m) (rename_hint (mt_name m) ''methods'')"

definition parse_interface :: "calls \<Rightarrow> interface_decl parse" where
  "parse_interface r =
     bindp (gets current_span) (\<lambda>start.
     thenp (expect (TkKeyword KwInterface))
     (bindp expect_ident (\<lambda>name.
     thenp (expect (TkDelimiter DlLBrace))
     (bindp (loop (before_end (TkDelimiter DlRBrace))
        (\<lambda>ms. bindp (parse_interface_method r) (add_unique mt_name (duplicate_signature name) ms)) []) (\<lambda>ms.
     thenp (expect (TkDelimiter DlRBrace))
     (spanning start (\<lambda>sp. \<lparr>inf_name = name, inf_public = is_public_name (env_uppercase (c_env r)) name,
        inf_methods = ms, inf_span = sp\<rparr>)))))))"

section \<open>Imports\<close>

datatype path_state = PathGoesOn "ustr list" | PathItems "ustr list" | PathWildcard "ustr list"

definition path_goes_on :: "path_state \<Rightarrow> parser \<Rightarrow> bool" where
  "path_goes_on s p \<longleftrightarrow> (case s of PathGoesOn _ \<Rightarrow> check (TkPunct PuColonColon) p | _ \<Rightarrow> False)"

primrec path_of :: "path_state \<Rightarrow> ustr list" where
  "path_of (PathGoesOn path) = path"
| "path_of (PathItems path) = path"
| "path_of (PathWildcard path) = path"

definition next_segment :: "path_state \<Rightarrow> path_state parse" where
  "next_segment s =
     ifp (peek_is (TkOperator OpStar)) (thenp advance_token (thenp advance_token (ret (PathWildcard (path_of s)))))
     (ifp (peek_is (TkDelimiter DlLBrace)) (thenp advance_token (ret (PathItems (path_of s))))
     (thenp advance_token (bindp expect_ident (\<lambda>seg. ret (PathGoesOn (path_of s @ [seg]))))))"

definition import_item :: "import_item parse" where
  "import_item =
     ifp (check (TkOperator OpStar)) (thenp advance_token (ret ImWildcard))
     (bindp expect_ident (\<lambda>name.
      ifp (check (TkKeyword KwAs)) (thenp advance_token (bindp expect_ident (\<lambda>alias. ret (ImAlias name alias))))
        (ret (ImSymbol name))))"

definition import_items :: "import_item list parse" where
  "import_items =
     ifp (check (TkDelimiter DlLBrace))
       (thenp advance_token (bindp (parse_list (TkDelimiter DlRBrace) import_item) (\<lambda>is.
        thenp (expect (TkDelimiter DlRBrace)) (ret is))))
       (ret [])"

definition make_import :: "ustr list \<Rightarrow> import_item list \<Rightarrow> ustr option \<Rightarrow> bool \<Rightarrow> src_span \<Rightarrow> import_decl" where
  "make_import path is alias wild sp =
     \<lparr>ip_path = path, ip_items = is, ip_alias = alias, ip_wildcard = wild, ip_span = sp\<rparr>"

definition parse_import :: "import_decl parse" where
  "parse_import =
     bindp (gets current_span) (\<lambda>start.
     thenp (expect (TkKeyword KwImport))
     (bindp expect_ident (\<lambda>first.
      bindp (loop path_goes_on next_segment (PathGoesOn [first])) (\<lambda>s.
      (case s of
         PathWildcard path \<Rightarrow> spanning start (make_import path [] None True)
       | _ \<Rightarrow>
           ifp (check (TkKeyword KwAs))
             (thenp advance_token (bindp expect_ident (\<lambda>alias.
              spanning start (make_import (path_of s) [] (Some alias) False))))
             (bindp import_items (\<lambda>is. spanning start (make_import (path_of s) is None False))))))))"

section \<open>Policies\<close>

definition parse_policy_term :: "ustr parse" where
  "parse_policy_term =
     bindp expect_ident (\<lambda>first.
     ifp (check (TkPunct PuColonColon)) (thenp advance_token expect_ident) (ret first))"

definition parse_policy_rule :: "ustr parse" where
  "parse_policy_rule =
     bindp parse_policy_term (loop (\<lambda>_ p. check (TkOperator OpOr) p \<or> check (TkOperator OpAnd) p)
       (\<lambda>res. bindp (gets (check (TkOperator OpOr))) (\<lambda>is_or. thenp advance_token
         (bindp parse_policy_term (\<lambda>t. ret (res @ ascii (if is_or then ''|'' else ''&'') @ t))))))"

definition policy_rule :: "(ustr \<times> ustr) list \<Rightarrow> (ustr \<times> ustr) list parse" where
  "policy_rule rules =
     bindp expect_ident (\<lambda>action. thenp (expect (TkPunct PuColon)) (bindp parse_policy_rule (\<lambda>rule.
     thenp optional_comma (ret (rules @ [(action, rule)])))))"

definition parse_policy :: "policy_decl parse" where
  "parse_policy =
     bindp (gets current_span) (\<lambda>start.
     thenp (expect (TkKeyword KwPolicy))
     (bindp expect_ident (\<lambda>name.
     thenp (expect (TkKeyword KwFor))
     (bindp expect_ident (\<lambda>target.
     thenp (expect (TkDelimiter DlLBrace))
     (bindp (loop (before_end (TkDelimiter DlRBrace)) policy_rule []) (\<lambda>rules.
     thenp (expect (TkDelimiter DlRBrace))
     (spanning start (\<lambda>sp. (new_policy_decl name target sp)\<lparr>po_rules := rules\<rparr>)))))))))"

section \<open>Items and programs\<close>

definition with_struct_decorators :: "expr decorator list \<Rightarrow> expr struct_decl \<Rightarrow> expr struct_decl" where
  "with_struct_decorators ds s =
     StructDecl (sd_name s) (sd_public s) (sd_type_params s) (sd_fields s) ds (sd_span s)"

definition parse_item :: "calls \<Rightarrow> item parse" where
  "parse_item r =
     bindp (parse_decorators r) (\<lambda>ds. bindp (gets current_kind) (\<lambda>k.
       (case k of
          TkKeyword KwConst \<Rightarrow> bindp (parse_const r) (\<lambda>c. ret (ItConst c))
        | TkKeyword KwStatic \<Rightarrow> bindp (parse_static r) (\<lambda>s. ret (ItStatic s))
        | TkKeyword KwFn \<Rightarrow> bindp (parse_function r) (\<lambda>f. ret (ItFunction (f\<lparr>fu_decorators := ds\<rparr>)))
        | TkKeyword KwAsync \<Rightarrow> bindp (parse_function r) (\<lambda>f.
            ret (ItFunction (f\<lparr>fu_is_async := True, fu_decorators := ds\<rparr>)))
        | TkKeyword KwStruct \<Rightarrow> bindp (parse_struct r) (\<lambda>s. ret (ItStruct (with_struct_decorators ds s)))
        | TkKeyword KwEnum \<Rightarrow> bindp (parse_enum r) (\<lambda>e. ret (ItEnum e))
        | TkKeyword KwInterface \<Rightarrow> bindp (parse_interface r) (\<lambda>i. ret (ItInterface i))
        | TkKeyword KwImport \<Rightarrow> bindp parse_import (\<lambda>i. ret (ItImport i))
        | TkKeyword KwPolicy \<Rightarrow> bindp parse_policy (\<lambda>p. ret (ItPolicy p))
        | TkKeyword KwImpl \<Rightarrow> bindp (parse_impl r) (\<lambda>i. ret (ItImpl (i\<lparr>im_decorators := ds\<rparr>)))
        | _ \<Rightarrow> bindp (parse_statement r) (\<lambda>s. ret (ItStatement s)))))"

definition after_item :: "item \<Rightarrow> parser \<Rightarrow> parser" where
  "after_item i =
     take_semicolon (item_needs_semicolon i)
       (semicolon_error ''expected `;` after declaration'' ''add `;` at the end of this declaration'')"

definition parse_items :: "calls \<Rightarrow> item list parse" where
  "parse_items r = loop (\<lambda>_ p. \<not> is_at_end p) (\<lambda>items. recover items after_item (parse_item r)) []"

definition parse_program :: "calls \<Rightarrow> program_ast parse" where
  "parse_program r =
     bindp (gets current_span) (\<lambda>start. bindp (parse_items r) (\<lambda>items.
     gets (\<lambda>p. \<lparr>pa_items = items, pa_span = merge_spans start (current_span p)\<rparr>)))"

text \<open>A parser for a source text, and the program it reads with the fuel given.\<close>

definition new_parser :: "environment \<Rightarrow> ustr \<Rightarrow> nat \<Rightarrow> parser" where
  "new_parser v src file_id =
     parser_from_tokens (fst (tokenize (env_alphabetic v) (env_alphanumeric v) (new_lexer src file_id))) file_id"

definition parse_source :: "environment \<Rightarrow> nat \<Rightarrow> ustr \<Rightarrow> nat \<Rightarrow> ((compiler_error + program_ast) \<times> parser) option" where
  "parse_source v fuel src file_id = parse_program (calls_at v fuel) (new_parser v src file_id)"

end
