(* ===== verification/Parse_Input.thy ===== *)
theory Parse_Input
  imports Parse_State Lex_Scanning
begin

text \<open>
  The size of a parser's input. A token weighs one, a string template as many more as it has
  characters, since the text of each interpolation is scanned and parsed again. The tokens of a source
  weigh no more than its characters and one.
\<close>

section \<open>Lengths of scanned strings\<close>

lemma remaining_advance_Suc: "\<not> at_end l \<Longrightarrow> remaining l = Suc (remaining (advance l))"
  by (auto simp: advance_def remaining_def at_end_def)

lemma copy_interpolation_length:
  "copy_interpolation d v l = (w, m) \<Longrightarrow> length w + remaining m = length v + remaining l"
proof (induction d v l rule: copy_interpolation.induct)
  case (1 d v l)
  show ?case
  proof (cases "\<not> at_end l \<and> 0 < d")
    case True
    then have "remaining (advance (if current l = 10 then next_line l else l)) = remaining l - 1"
      using remaining_advance_Suc [of "next_line l"] remaining_advance_Suc [of l] by simp
    moreover have "0 < remaining l" using True remaining_advance_Suc [of l] by simp
    ultimately show ?thesis
      using "1.IH" [OF True refl refl refl] "1.prems" True
      by (simp add: copy_interpolation.simps [of d v l] Let_def)
  next
    case False
    then show ?thesis using "1.prems" by (auto simp: copy_interpolation.simps [of d v l])
  qed
qed

lemma scan_interpolation_length:
  assumes "scan_interpolation v l = (w, m)" "\<not> at_end l" "peek l = Some c"
  shows "length w + remaining m = length v + remaining l"
proof -
  have "\<not> at_end (advance l)" using assms(3) by (auto simp: peek_def at_end_def advance_def split: if_splits)
  then have "remaining l = Suc (Suc (remaining (advance (advance l))))"
    using remaining_advance_Suc [of l] remaining_advance_Suc [of "advance l"] assms(2) by simp
  then show ?thesis
    using assms(1) copy_interpolation_length by (fastforce simp: scan_interpolation_def Let_def)
qed

lemma scan_escape_length:
  assumes "scan_escape v l = Inr (w, m)" "\<not> at_end l"
  shows "length w + remaining m \<le> length v + remaining l"
proof -
  have "length w \<le> Suc (length v)"
    using assms(1)
    by (auto simp: scan_escape_def scan_unicode_def Let_def split: if_splits option.splits prod.splits)
  then show ?thesis using scan_escape_remaining [OF assms(2,1)] by simp
qed

lemma trim_line_length: "length (trim_line i n s) \<le> length s"
  by (induction i n s rule: trim_line.induct) auto

lemma str_lines_length: "(\<Sum>x\<leftarrow>str_lines acc s. Suc (length x)) \<le> Suc (length acc + length s)"
proof (induction acc s rule: str_lines.induct)
  case (2 acc c s)
  have "length (strip_cr acc) \<le> length acc" by (simp add: strip_cr_def)
  then show ?case using 2 by (cases "c = 10") auto
qed simp

lemma join_lines_length: "length (join_lines xs) \<le> (\<Sum>x\<leftarrow>xs. Suc (length x)) - 1"
  by (induction xs rule: join_lines.induct) auto

lemma trim_multiline_length: "length (trim_multiline_string s i) \<le> length s"
proof -
  have "(\<Sum>x\<leftarrow>map (trim_line i 0) xs. Suc (length x)) \<le> (\<Sum>x\<leftarrow>xs. Suc (length x))" for xs :: "ustr list"
    by (induction xs) (auto intro: add_mono trim_line_length)
  then have "(\<Sum>x\<leftarrow>map (trim_line i 0) (str_lines [] s). Suc (length x)) \<le> Suc (length s)"
    using str_lines_length [of "[]" s] by (metis add_0 list.size(3) order_trans)
  then show ?thesis
    using join_lines_length [of "map (trim_line i 0) (str_lines [] s)"]
    by (simp add: trim_multiline_string_def)
qed

text \<open>A template is shorter than what was scanned for it.\<close>

definition template :: "token \<Rightarrow> bool" where
  "template t \<longleftrightarrow> tk_kind t = TkLiteral LiStringTemplate"

lemma template_make_token_at [simp]: "template (make_token_at l k s n) \<longleftrightarrow> k = TkLiteral LiStringTemplate"
  by (simp add: template_def)

lemma tk_text_make_token_at [simp]: "tk_text (make_token_at l k s n) = s"
  by (simp add: make_token_at_def new_token_def)

lemma remaining_advance_line:
  "\<not> at_end l \<Longrightarrow> remaining l = Suc (remaining (advance (next_line l)))"
  using remaining_advance_Suc [of "next_line l"] by simp

lemma scan_string_loop_length:
  "scan_string_loop s v n i l = (t, m) \<Longrightarrow> template t \<Longrightarrow>
    Suc (length (tk_text t) + remaining m) \<le> length v + remaining l"
proof (induction s v n i l rule: scan_string_loop.induct)
  case (1 s v n i l)
  show ?case
  proof (cases "at_end l \<or> current l = ch CHR 0x22 \<or> max_string_length < n + 1")
    case True
    then show ?thesis
      using 1(5,6) remaining_advance_Suc [of l]
      by (auto simp: scan_string_loop.simps [of s v n i l] Let_def split: if_splits)
  next
    case False
    note open_ = this
    show ?thesis
    proof (cases "current l = ch CHR ''$'' \<and> peek l = Some (ch CHR ''{'')")
      case True
      obtain w k where w: "scan_interpolation v l = (w, k)" by fastforce
      have "scan_string_loop s w (n + 1) True k = (t, m)"
        using 1(5) open_ True w by (simp add: scan_string_loop.simps [of s v n i l])
      then show ?thesis
        using 1(1) [of w k] w open_ True scan_interpolation_length [OF w] 1(6) by force
    next
      case False
      note plain = this
      show ?thesis
      proof (cases "current l = ch CHR 0x5C")
        case True
        show ?thesis
        proof (cases "scan_escape v l")
          case (Inl a)
          then show ?thesis
            using 1(5,6) open_ plain True
            by (auto simp: scan_string_loop.simps [of s v n i l] Let_def split: prod.splits)
        next
          case (Inr a)
          obtain w k where w: "scan_escape v l = Inr (w, k)" using Inr by (cases a) auto
          have "scan_string_loop s w (n + 1) i k = (t, m)"
            using 1(5) open_ plain True w by (simp add: scan_string_loop.simps [of s v n i l])
          then have "Suc (length (tk_text t) + remaining m) \<le> length w + remaining k"
            using 1(2) w open_ plain True 1(6) by blast
          then show ?thesis using scan_escape_length [OF w] open_ by simp
        qed
      next
        case False
        show ?thesis
        proof (cases "current l = 10")
          case True
          then show ?thesis
            using 1(3,5,6) open_ plain False remaining_advance_line [of l]
            by (simp add: scan_string_loop.simps [of s v n i l])
        next
          case nl: False
          have "scan_string_loop s (v @ [current l]) (n + 1) i (advance l) = (t, m)"
            using 1(5) open_ plain False nl by (auto simp: scan_string_loop.simps [of s v n i l] split: if_splits)
          then show ?thesis using 1(4,6) open_ plain False nl remaining_advance_Suc [of l] by simp
        qed
      qed
    qed
  qed
qed

lemma scan_multiline_loop_length:
  "scan_multiline_loop s v n i l = (t, m) \<Longrightarrow> template t \<Longrightarrow>
    Suc (length (tk_text t) + remaining m) \<le> length v + remaining l"
proof (induction s v n i l rule: scan_multiline_loop.induct)
  case (1 s v n i l)
  show ?case
  proof (cases "at_end l \<or> at_closing_quotes l \<or> max_string_length < n + 1")
    case True
    then show ?thesis
      using 1(5,6) remaining_advance_Suc [of l] trim_multiline_length [of v "lx_col l - 1"]
        remaining_advance_le [of "advance l"] remaining_advance_le [of "advance (advance l)"]
      by (auto simp: scan_multiline_loop.simps [of s v n i l] Let_def split: if_splits)
  next
    case False
    note open_ = this
    show ?thesis
    proof (cases "current l = ch CHR ''$'' \<and> peek l = Some (ch CHR ''{'')")
      case True
      obtain w k where w: "scan_interpolation v l = (w, k)" by fastforce
      have "scan_multiline_loop s w (n + 1) True k = (t, m)"
        using 1(5) open_ True w by (simp add: scan_multiline_loop.simps [of s v n i l])
      then show ?thesis
        using 1(1) [of w k] w open_ True scan_interpolation_length [OF w] 1(6) by force
    next
      case False
      note plain = this
      show ?thesis
      proof (cases "current l = ch CHR 0x5C")
        case True
        show ?thesis
        proof (cases "scan_escape v l")
          case (Inl a)
          then show ?thesis
            using 1(5,6) open_ plain True
            by (auto simp: scan_multiline_loop.simps [of s v n i l] Let_def split: prod.splits)
        next
          case (Inr a)
          obtain w k where w: "scan_escape v l = Inr (w, k)" using Inr by (cases a) auto
          have "scan_multiline_loop s w (n + 1) i k = (t, m)"
            using 1(5) open_ plain True w by (simp add: scan_multiline_loop.simps [of s v n i l])
          then have "Suc (length (tk_text t) + remaining m) \<le> length w + remaining k"
            using 1(2) w open_ plain True 1(6) by blast
          then show ?thesis using scan_escape_length [OF w] open_ by simp
        qed
      next
        case False
        show ?thesis
        proof (cases "current l = 10")
          case True
          then show ?thesis
            using 1(3,5,6) open_ plain False remaining_advance_line [of l]
            by (simp add: scan_multiline_loop.simps [of s v n i l])
        next
          case nl: False
          have "scan_multiline_loop s (v @ [current l]) (n + 1) i (advance l) = (t, m)"
            using 1(5) open_ plain False nl by (auto simp: scan_multiline_loop.simps [of s v n i l] split: if_splits)
          then show ?thesis using 1(4,6) open_ plain False nl remaining_advance_Suc [of l] by simp
        qed
      qed
    qed
  qed
qed

lemma mark_kinds_not_template:
  "three_char_kind l \<noteq> Some (TkLiteral LiStringTemplate)" "two_char_kind l \<noteq> Some (TkLiteral LiStringTemplate)"
  "one_char_kind c \<noteq> TkLiteral LiStringTemplate"
proof -
  have tbl: "TkLiteral LiStringTemplate \<notin> snd ` set tbl \<Longrightarrow>
      table_lookup tbl s \<noteq> Some (TkLiteral LiStringTemplate)" for tbl :: "(string \<times> token_kind) list" and s
    by (force simp: table_lookup_def dest: map_of_SomeD)
  show "three_char_kind l \<noteq> Some (TkLiteral LiStringTemplate)"
    "two_char_kind l \<noteq> Some (TkLiteral LiStringTemplate)"
    using tbl [of three_char_table] tbl [of two_char_table]
    by (auto simp: three_char_kind_def two_char_kind_def three_char_table_def two_char_table_def split: option.splits)
  have "TkLiteral LiStringTemplate \<notin> snd ` set one_char_table" by (simp add: one_char_table_def)
  then show "one_char_kind c \<noteq> TkLiteral LiStringTemplate"
    by (force simp: one_char_kind_def dest: map_of_SomeD split: option.splits)
qed

section \<open>Weights\<close>

definition token_weight :: "token \<Rightarrow> nat" where
  "token_weight t = (if template t then Suc (length (tk_text t)) else 1)"

lemma scan_token_weight:
  assumes "\<not> at_end l" "unicode_classes alpha alnum" "scan_token alpha alnum l = (t, m)"
  shows "token_weight t + remaining m \<le> remaining l"
proof (cases "template t")
  case True
  have "\<not> template (fst (scan_number l))" "\<not> template (fst (scan_identifier alnum l))"
    "\<not> template (fst (scan_operator l))"
    using mark_kinds_not_template
    by (auto simp: scan_number_def scan_identifier_def scan_operator_def Let_def split: prod.splits option.splits)
  then have "scan_multiline_string l = (t, m) \<or> scan_string l = (t, m)"
    using assms(3) True by (auto simp: scan_token_def split: if_splits)
  then show ?thesis
  proof
    assume "scan_string l = (t, m)"
    then show ?thesis
      using True remaining_advance_Suc [OF assms(1)] scan_string_loop_length
      by (fastforce simp: scan_string_def token_weight_def)
  next
    assume multi: "scan_multiline_string l = (t, m)"
    let ?k = "skip_first_newline (advance (advance (advance l)))"
    have "remaining ?k \<le> remaining l"
      by (rule moves_remaining) (simp add: moves_skip_first_newline moves_advance)
    then show ?thesis
      using True multi scan_multiline_loop_length
      by (fastforce simp: scan_multiline_string_def token_weight_def)
  qed
next
  case False
  then show ?thesis
    using scan_token_progress [OF assms(1,2)] assms(3) by (simp add: token_weight_def)
qed

lemma tokenize_loop_weight:
  assumes "unicode_classes alpha alnum"
  shows "sum_list (map token_weight (fst (tokenize_loop alpha alnum ts l))) \<le>
    sum_list (map token_weight ts) + remaining l + 1"
  using assms
proof (induction alpha alnum ts l rule: tokenize_loop.induct)
  case (1 alpha alnum ts l)
  obtain u m where u: "next_token alpha alnum l = (u, m)" by fastforce
  have small: "token_weight (error_token l s) = 1" for s
    by (simp add: token_weight_def template_def error_token_def make_token_def new_token_def)
  define k where "k = skip_whitespace_and_comments l"
  have k: "remaining k \<le> remaining l"
    by (simp add: k_def moves_remaining [OF moves_skip_whitespace_and_comments])
  show ?case
  proof (cases "max_token_count \<le> length ts")
    case True
    then show ?thesis by (simp add: tokenize_loop.simps [of alpha alnum ts l] small)
  next
    case False
    show ?thesis
    proof (cases "tk_kind u = TkEof")
      case True
      then have "token_weight u = 1" by (simp add: token_weight_def template_def)
      then show ?thesis using u False True by (simp add: tokenize_loop.simps [of alpha alnum ts l])
    next
      case False
      have "\<not> at_end k \<and> scan_token alpha alnum k = (u, m)"
        using u False by (auto simp: next_token_scan k_def [symmetric] Let_def split: if_splits)
      then have "token_weight u + remaining m \<le> remaining k"
        using scan_token_weight [of k alpha alnum u m] "1.prems" by blast
      moreover have "sum_list (map token_weight (fst (tokenize_loop alpha alnum (ts @ [u]) m))) \<le>
          sum_list (map token_weight (ts @ [u])) + remaining m + 1"
        using "1.IH" u False \<open>\<not> max_token_count \<le> length ts\<close> "1.prems" by simp
      ultimately show ?thesis
        using u False k \<open>\<not> max_token_count \<le> length ts\<close>
        by (simp add: tokenize_loop.simps [of alpha alnum ts l])
    qed
  qed
qed

lemma source_weight:
  assumes "unicode_classes alpha alnum"
  shows "sum_list (map token_weight (fst (tokenize alpha alnum (new_lexer s file)))) \<le> length s + 1"
  using tokenize_loop_weight [OF assms, of "[]" "new_lexer s file"]
  by (simp add: tokenize_def new_lexer_def remaining_def token_weight_def template_def error_token_def
      make_token_def new_token_def)

end
