(* ===== verification/Parse_Runs.thy ===== *)
theory Parse_Runs
  imports Parse_Items Parse_Input
begin

text \<open>
  Judgements on parse functions, in the style of a total Hoare logic: a function returns on every parser
  whose remaining input is small enough, the parser it leaves is a later one, and with a result it may
  have taken at least one token. The rules for the combinators carry the proofs for the functions of the
  parser.
\<close>

named_theorems steps \<open>rules of the judgements\<close>

section \<open>Later parsers\<close>

definition weight :: "parser \<Rightarrow> nat" where
  "weight p = sum_list (map token_weight (drop (ps_pos p) (ps_tokens p)))"

text \<open>No function changes the tokens, goes back, forgets an error or leaves a nesting depth below the one
  it found.\<close>

definition later :: "parser \<Rightarrow> parser \<Rightarrow> bool" where
  "later p q \<longleftrightarrow>
     ps_tokens q = ps_tokens p \<and> ps_file_id q = ps_file_id p \<and> ps_pos p \<le> ps_pos q \<and>
     (\<exists>es. ps_errors q = ps_errors p @ es) \<and> ps_loop_depth p \<le> ps_loop_depth q \<and>
     ps_fn_depth p \<le> ps_fn_depth q \<and> ps_expr_depth p \<le> ps_expr_depth q"

text \<open>Without a new error the depths are those before.\<close>

definition restored :: "parser \<Rightarrow> parser \<Rightarrow> bool" where
  "restored p q \<longleftrightarrow>
     (ps_errors q = ps_errors p \<longrightarrow>
      ps_loop_depth q = ps_loop_depth p \<and> ps_fn_depth q = ps_fn_depth p \<and> ps_expr_depth q = ps_expr_depth p)"

lemma later_refl [simp]: "later p p"
  by (simp add: later_def)

lemma later_trans: "later p q \<Longrightarrow> later q s \<Longrightarrow> later p s"
  by (auto simp: later_def)

lemma restored_refl [simp]: "restored p p"
  by (simp add: restored_def)

lemma restored_trans: "later p q \<Longrightarrow> later q s \<Longrightarrow> restored p q \<Longrightarrow> restored q s \<Longrightarrow> restored p s"
  by (auto simp: later_def restored_def)

lemma drop_weight:
  assumes "n \<le> m"
  shows "sum_list (map token_weight (drop m ts)) \<le> sum_list (map token_weight (drop n ts))"
proof -
  have "sum_list (map token_weight (drop k us)) \<le> sum_list (map token_weight us)" for k us
    by (induction us arbitrary: k) (auto simp: drop_Cons' intro: le_SucI trans_le_add2)
  from this [of "m - n" "drop n ts"] show ?thesis using assms by simp
qed

lemma weight_mono: "later p q \<Longrightarrow> weight q \<le> weight p"
  by (simp add: later_def weight_def drop_weight)

lemma token_weight_pos: "0 < token_weight t"
  by (simp add: token_weight_def)

lemma weight_step: "\<not> is_at_end p \<Longrightarrow> weight p = token_weight (current_token p) + weight (step_token p)"
  using before_token_end [of p]
  by (simp add: weight_def step_token_def current_token_def Cons_nth_drop_Suc [symmetric])

lemma later_step [simp]: "later p (step_token p)" "restored p (step_token p)"
  by (simp_all add: later_def restored_def step_token_def)

lemma later_push [simp]: "later p (push_error e p)" "restored p (push_error e p)"
  by (simp_all add: later_def restored_def push_error_def)

lemma pos_step: "\<not> is_at_end p \<Longrightarrow> ps_pos p < ps_pos (step_token p)"
  by (simp add: step_token_def)

text \<open>A parser whose position has moved has less input left, unless it had none.\<close>

lemma weight_less:
  assumes "later p q" "ps_pos p < ps_pos q" "ps_pos p < length (ps_tokens p)"
  shows "weight q < weight p"
proof -
  have "weight q \<le> sum_list (map token_weight (drop (Suc (ps_pos p)) (ps_tokens p)))"
    using assms(1,2) by (simp add: weight_def later_def drop_weight)
  also have "\<dots> < weight p"
    using assms(3) token_weight_pos by (simp add: weight_def Cons_nth_drop_Suc [symmetric])
  finally show ?thesis .
qed

section \<open>Judgements\<close>

text \<open>The function returns on the parsers of less than the given weight that satisfy the condition; the
  flag asks a result to take a token.\<close>

definition returns :: "bool \<Rightarrow> (parser \<Rightarrow> bool) \<Rightarrow> nat \<Rightarrow> 'a parse \<Rightarrow> bool" where
  "returns b P w m \<longleftrightarrow>
     (\<forall>p. P p \<longrightarrow> weight p < w \<longrightarrow>
       (\<exists>x q. m p = Some (x, q) \<and> later p q \<and>
         (\<not> isl x \<longrightarrow> restored p q \<and> (b \<longrightarrow> weight q < weight p \<and> ps_pos p < ps_pos q))))"

abbreviation runs :: "nat \<Rightarrow> 'a parse \<Rightarrow> bool" where
  "runs \<equiv> returns False (\<lambda>_. True)"

abbreviation eats :: "nat \<Rightarrow> 'a parse \<Rightarrow> bool" where
  "eats \<equiv> returns True (\<lambda>_. True)"

lemma returnsI:
  "(\<And>p. P p \<Longrightarrow> weight p < w \<Longrightarrow>
      \<exists>x q. m p = Some (x, q) \<and> later p q \<and>
        (\<not> isl x \<longrightarrow> restored p q \<and> (b \<longrightarrow> weight q < weight p \<and> ps_pos p < ps_pos q))) \<Longrightarrow> returns b P w m"
  by (simp add: returns_def)

lemma returnsE:
  assumes "returns b P w m" "P p" "weight p < w"
  obtains (error) e q where "m p = Some (Inl e, q)" "later p q"
  | (result) a q where "m p = Some (Inr a, q)" "later p q" "restored p q"
      "b \<longrightarrow> weight q < weight p \<and> ps_pos p < ps_pos q"
proof -
  obtain x q where "m p = Some (x, q)" "later p q"
    "\<not> isl x \<longrightarrow> restored p q \<and> (b \<longrightarrow> weight q < weight p \<and> ps_pos p < ps_pos q)"
    using assms by (auto simp: returns_def)
  then show thesis by (cases x) (auto intro: that)
qed

lemma returns_mono: "returns b P v m \<Longrightarrow> w \<le> v \<Longrightarrow> (c \<Longrightarrow> b) \<Longrightarrow> (\<And>p. Q p \<Longrightarrow> P p) \<Longrightarrow> returns c Q w m"
  unfolding returns_def by (meson less_le_trans)

lemma eats_runs: "eats w m \<Longrightarrow> runs w m"
  by (erule returns_mono) simp_all

lemma eats_anywhere: "eats w m \<Longrightarrow> returns b P w m"
  by (erule returns_mono) simp_all

lemma runs_anywhere: "runs w m \<Longrightarrow> returns False P w m"
  by (erule returns_mono) simp_all

lemma runs_less: "runs w m \<Longrightarrow> v \<le> w \<Longrightarrow> runs v m"
  by (erule returns_mono) simp_all

lemma eats_less: "eats w m \<Longrightarrow> v \<le> w \<Longrightarrow> eats v m"
  by (erule returns_mono) simp_all

section \<open>Rules\<close>

lemma runs_ret [steps]: "runs w (ret a)"
  by (rule returnsI) (simp add: ret_def)

lemma runs_gets [steps]: "runs w (gets f)"
  by (rule returnsI) (simp add: gets_def)

lemma returns_fail [steps]: "returns b P w (fail_with e)"
  by (rule returnsI) (simp add: fail_with_def)

lemma runs_advance [steps]: "runs w advance_token"
  by (rule returnsI) (simp add: advance_token_def)

lemma returns_bind:
  assumes m: "returns b P w m" and f: "\<And>a. returns c (\<lambda>_. True) v (f a)" and v: "if b then w \<le> Suc v else w \<le> v"
    and d: "d \<Longrightarrow> b \<or> c"
  shows "returns d P w (bindp m f)"
proof (rule returnsI)
  fix p
  assume p: "P p" "weight p < w"
  from m p show "\<exists>x q. bindp m f p = Some (x, q) \<and> later p q \<and>
    (\<not> isl x \<longrightarrow> restored p q \<and> (d \<longrightarrow> weight q < weight p \<and> ps_pos p < ps_pos q))"
  proof (cases rule: returnsE)
    case (error e q)
    then show ?thesis by (simp add: bindp_def)
  next
    case (result a q)
    have le: "weight q \<le> weight p" by (rule weight_mono [OF result(2)])
    then have "weight q < v" using v result(4) p(2) by (cases b) auto
    with f [of a] TrueI show ?thesis
    proof (cases rule: returnsE)
      case (error e s)
      then show ?thesis using result(1) later_trans [OF result(2)] by (simp add: bindp_def)
    next
      case (result x s)
      note first = \<open>m p = Some (Inr a, q)\<close> \<open>later p q\<close> \<open>restored p q\<close>
        \<open>b \<longrightarrow> weight q < weight p \<and> ps_pos p < ps_pos q\<close>
      have "weight s \<le> weight q" "ps_pos q \<le> ps_pos s" "ps_pos p \<le> ps_pos q"
        using weight_mono [OF result(2)] result(2) first(2) by (simp_all add: later_def)
      then have "d \<longrightarrow> weight s < weight p \<and> ps_pos p < ps_pos s"
        using d first(4) result(4) le by force
      then show ?thesis
        using first(1) result(1) later_trans [OF first(2) result(2)]
          restored_trans [OF first(2) result(2) first(3) result(3)] by (simp add: bindp_def)
    qed
  qed
qed

lemma runs_bind [steps]: "runs w m \<Longrightarrow> (\<And>a. runs w (f a)) \<Longrightarrow> runs w (bindp m f)"
  by (rule returns_bind [where v = w]) simp_all

lemma eats_bind: "eats (Suc w) m \<Longrightarrow> (\<And>a. runs w (f a)) \<Longrightarrow> eats (Suc w) (bindp m f)"
  by (rule returns_bind [where v = w and b = True and c = False]) simp_all

lemma eats_bind_weak: "eats w m \<Longrightarrow> (\<And>a. runs w (f a)) \<Longrightarrow> eats w (bindp m f)"
  by (rule returns_bind [where v = w and b = True and c = False]) simp_all

lemma eats_bind_gets [steps]: "(\<And>a. eats w (f a)) \<Longrightarrow> eats w (bindp (gets g) f)"
  by (rule returns_bind [OF runs_gets, where v = w]) simp_all

lemma runs_then [steps]: "runs w m \<Longrightarrow> runs w n \<Longrightarrow> runs w (thenp m n)"
  by (simp add: thenp_def runs_bind)

lemma returns_then_advance:
  assumes "\<And>p. P p \<Longrightarrow> \<not> is_at_end p" "runs v m" "w \<le> Suc v"
  shows "returns b P w (thenp advance_token m)"
proof -
  have "returns True P w advance_token"
    by (rule returnsI) (use assms(1) weight_step token_weight_pos pos_step in \<open>auto simp: advance_token_def\<close>)
  then show ?thesis unfolding thenp_def by (rule returns_bind) (use assms in auto)
qed

lemma check_not_end: "check k p \<Longrightarrow> k \<noteq> TkEof \<Longrightarrow> \<not> is_at_end p"
  by (simp add: check_def is_at_end_def)

lemma step_shrinks:
  "check k p \<Longrightarrow> k \<noteq> TkEof \<Longrightarrow> weight (step_token p) < weight p \<and> ps_pos p < ps_pos (step_token p)"
  using weight_step [of p] token_weight_pos pos_step check_not_end by fastforce

lemma returns_ifp:
  "returns b (\<lambda>p. P p \<and> c p) w m \<Longrightarrow> returns b (\<lambda>p. P p \<and> \<not> c p) w n \<Longrightarrow> returns b P w (ifp c m n)"
  by (auto simp: returns_def ifp_def)

lemma runs_ifp [steps]: "runs w m \<Longrightarrow> runs w n \<Longrightarrow> runs w (ifp c m n)"
  by (auto intro!: returns_ifp elim: returns_mono)

lemma eats_ifp: "eats w m \<Longrightarrow> eats w n \<Longrightarrow> eats w (ifp c m n)"
  by (auto intro!: returns_ifp elim: returns_mono)

lemma eats_ifp_check:
  "k \<noteq> TkEof \<Longrightarrow> runs w m \<Longrightarrow> eats (Suc w) n \<Longrightarrow> eats (Suc w) (ifp (check k) (thenp advance_token m) n)"
  by (rule returns_ifp) (auto intro: returns_then_advance eats_anywhere dest: check_not_end)

lemma returns_map_err [steps]: "returns b P w m \<Longrightarrow> returns b P w (map_err g m)"
proof (rule returnsI)
  fix p
  assume "returns b P w m" "P p" "weight p < w"
  then show "\<exists>x q. map_err g m p = Some (x, q) \<and> later p q \<and>
    (\<not> isl x \<longrightarrow> restored p q \<and> (b \<longrightarrow> weight q < weight p \<and> ps_pos p < ps_pos q))"
    by (cases rule: returnsE) (auto simp: map_err_def)
qed

lemma eats_expect: "k \<noteq> TkEof \<Longrightarrow> eats w (expect k)"
  unfolding expect_def
proof (rule returns_ifp)
  assume k: "k \<noteq> TkEof"
  have "returns True (\<lambda>p. True \<and> check k p) w (thenp advance_token (ret ()))"
    by (rule returns_then_advance [of _ w]) (use k in \<open>auto dest: check_not_end intro: runs_ret\<close>)
  then show "returns True (\<lambda>p. True \<and> check k p) w advance_token"
    by (simp add: thenp_def bindp_def ret_def advance_token_def returns_def)
qed (rule returns_fail)

lemma runs_expect [steps]: "runs w (expect k)"
  unfolding expect_def by (intro steps)

lemma eats_then_expect [steps]: "k \<noteq> TkEof \<Longrightarrow> runs w n \<Longrightarrow> eats (Suc w) (thenp (expect k) n)"
  unfolding thenp_def by (rule eats_bind [OF eats_expect])

lemma eats_expect_ident: "eats w expect_ident"
  unfolding expect_ident_def
proof (rule returns_ifp)
  show "returns True (\<lambda>p. True \<and> check (TkLiteral LiIdent) p) w
    (bindp (gets (\<lambda>p. tk_text (current_token p))) (\<lambda>name. thenp advance_token (ret name)))"
    using step_shrinks [of "TkLiteral LiIdent"]
    by (simp add: returns_def gets_def thenp_def bindp_def advance_token_def ret_def)
qed (rule returns_fail)

lemma runs_expect_ident [steps]: "runs w expect_ident"
  by (rule eats_runs [OF eats_expect_ident])

lemma eats_bind_ident [steps]: "(\<And>a. runs w (f a)) \<Longrightarrow> eats (Suc w) (bindp expect_ident f)"
  by (rule eats_bind [OF eats_expect_ident])

lemma runs_spanned [steps]: "runs w (spanning start f)"
  unfolding spanning_def by (rule runs_gets)

lemma runs_optional [steps]: "runs w m \<Longrightarrow> runs w (optional_after k m)"
  unfolding optional_after_def by (intro steps)

lemma runs_flag [steps]: "runs w (flag_token k)"
  unfolding flag_token_def by (intro steps)

text \<open>A loop ends when each round takes a token.\<close>

lemma runs_loop:
  assumes "\<And>s. returns True (c s) w (body s)"
  shows "runs w (loop c body s)"
proof (rule returnsI)
  fix p
  assume "weight p < w"
  then show "\<exists>x q. loop c body s p = Some (x, q) \<and> later p q \<and>
    (\<not> isl x \<longrightarrow> restored p q \<and> (False \<longrightarrow> weight q < weight p \<and> ps_pos p < ps_pos q))"
  proof (induction "weight p" arbitrary: p s rule: less_induct)
    case less
    show ?case
    proof (cases "c s p")
      case True
      from assms [of s] True less.prems show ?thesis
      proof (cases rule: returnsE)
        case (error e q)
        then show ?thesis using True by (simp add: loop.simps [of c body s p])
      next
        case (result t q)
        have "weight q < w" using result(4) less.prems by simp
        then obtain x r where r: "loop c body t q = Some (x, r)" "later q r" "\<not> isl x \<longrightarrow> restored q r"
          using less.hyps [of q t] result(4) by blast
        then show ?thesis
          using True result(1) later_trans [OF result(2) r(2)] restored_trans [OF result(2) r(2) result(3)]
          by (simp add: loop.simps [of c body s p])
      qed
    next
      case False
      then show ?thesis by (simp add: loop.simps [of c body s p])
    qed
  qed
qed

lemma runs_loop_eats: "(\<And>s. eats w (body s)) \<Longrightarrow> runs w (loop c body s)"
  by (rule runs_loop) (rule eats_anywhere)

lemma runs_case_prod [steps]: "(\<And>a b. runs w (f a b)) \<Longrightarrow> runs w (case x of (a, b) \<Rightarrow> f a b)"
  by (cases x) simp

text \<open>Loops whose rounds begin with the token they were entered for.\<close>

lemma runs_loop_advance:
  assumes "\<And>s p. c s p \<Longrightarrow> \<not> is_at_end p" "\<And>s. runs w (body s)"
  shows "runs w (loop c (\<lambda>s. thenp advance_token (body s)) s)"
  by (rule runs_loop, rule returns_then_advance) (use assms in auto)

lemma runs_comma [steps]: "runs w (comma_or_end k)"
  unfolding comma_or_end_def by (intro steps)

lemma runs_list [steps]: "eats w m \<Longrightarrow> runs w (parse_list k m)"
  unfolding parse_list_def by (intro runs_loop_eats eats_bind_weak steps)

lemma runs_comma_separated: "eats w m \<Longrightarrow> runs w (comma_separated m)"
  unfolding comma_separated_def
  by (rule runs_bind [OF eats_runs], assumption, rule runs_loop_advance)
    (auto dest: check_not_end intro!: runs_bind [OF eats_runs] runs_ret)

section \<open>Recovery\<close>

lemma sync_loop_later: "later p (sync_loop p) \<and> restored p (sync_loop p)"
proof (induction p rule: sync_loop.induct)
  case (1 p)
  then show ?case
    using later_trans [of p "step_token p"] restored_trans [of p "step_token p"]
    by (simp add: sync_loop.simps [of p])
qed

lemma synchronize_later: "later p (synchronize p)" "restored p (synchronize p)"
  using sync_loop_later [of "step_token p"] later_trans restored_trans later_step
  unfolding synchronize_def by blast+

lemma take_semicolon_later: "later p (take_semicolon b e p)" "restored p (take_semicolon b e p)"
  by (simp_all add: take_semicolon_def)

text \<open>A round of a recovering loop takes a token even when its statement fails.\<close>

lemma recover_eats:
  assumes m: "eats w m" and after: "\<And>x p. later p (after x p) \<and> restored p (after x p)"
    and go: "\<And>p. P p \<Longrightarrow> \<not> is_at_end p"
  shows "returns True P w (recover xs after m)"
proof (rule returnsI)
  fix p
  assume p: "P p" "weight p < w"
  from m TrueI p(2) show "\<exists>x q. recover xs after m p = Some (x, q) \<and> later p q \<and>
    (\<not> isl x \<longrightarrow> restored p q \<and> (True \<longrightarrow> weight q < weight p \<and> ps_pos p < ps_pos q))"
  proof (cases rule: returnsE)
    case (error e q)
    let ?s = "synchronize (push_error e q)"
    have l: "later (push_error e q) ?s" by (rule synchronize_later)
    have "later p ?s" by (rule later_trans [OF error(2) later_trans [OF later_push(1) l]])
    moreover have "ps_errors ?s \<noteq> ps_errors p"
      using error(2) l by (auto simp: later_def push_error_def)
    moreover have "ps_pos p < ps_pos ?s"
    proof (cases "ps_pos p < ps_pos q")
      case True
      then show ?thesis using l by (simp add: later_def push_error_def)
    next
      case False
      then have pos: "ps_pos q = ps_pos p" "ps_tokens q = ps_tokens p" using error(2) by (simp_all add: later_def)
      then have "\<not> is_at_end (push_error e q)"
        using go [OF p(1)] by (auto simp: is_at_end_def current_kind_def current_token_def push_error_def)
      then have "ps_pos p < ps_pos (step_token (push_error e q))"
        using pos by (simp add: step_token_def push_error_def)
      then show ?thesis
        using sync_loop_later [of "step_token (push_error e q)"] by (simp add: synchronize_def later_def)
    qed
    ultimately show ?thesis
      using error(1) weight_less [of p ?s] before_token_end [OF go [OF p(1)]]
      by (simp add: recover_def restored_def)
  next
    case (result x q)
    have l: "later q (after x q)" "restored q (after x q)" using after by simp_all
    then show ?thesis
      using result later_trans [OF result(2) l(1)] restored_trans [OF result(2) l(1) result(3) l(2)]
        weight_mono [OF l(1)] by (auto simp: recover_def later_def)
  qed
qed

lemma runs_recovering:
  assumes "eats w m" "\<And>x p. later p (after x p) \<and> restored p (after x p)" "\<And>s p. c s p \<Longrightarrow> \<not> is_at_end p"
  shows "runs w (loop c (\<lambda>xs. recover xs after m) s)"
  by (rule runs_loop, rule recover_eats) (use assms in auto)

end
