(* ===== verification/Parse_Ends.thy ===== *)
theory Parse_Ends
  imports Parse_Runs
begin

text \<open>
  The parser ends on every source, with fuel for one more call than the source weighs, and what holds
  between the parser before and after. The locale states what the calls of a parse function promise on
  smaller inputs; every function of the parser keeps the promise on the next size, so that the closed
  recursion has it.
\<close>

section \<open>Types and patterns\<close>

lemma returns_bind_gets: "(\<And>a. returns b P w (f a)) \<Longrightarrow> returns b P w (bindp (gets g) f)"
  by (simp add: returns_def bindp_def gets_def)

lemma returns_bind_at: "(\<And>a. returns b (\<lambda>p. P p \<and> g p = a) w (f a)) \<Longrightarrow> returns b P w (bindp (gets g) f)"
  by (simp add: returns_def bindp_def gets_def)

lemma kind_advance [steps]: "k \<noteq> TkEof \<Longrightarrow> runs w m \<Longrightarrow> returns b (check k) (Suc w) (thenp advance_token m)"
  by (rule returns_then_advance [of _ w]) (auto dest: check_not_end)

lemma kind_advance_weak: "k \<noteq> TkEof \<Longrightarrow> runs w m \<Longrightarrow> returns b (check k) w (thenp advance_token m)"
  by (rule returns_then_advance [of _ w]) (auto dest: check_not_end)

lemma ident_weak: "(\<And>a. runs w (f a)) \<Longrightarrow> eats w (bindp expect_ident f)"
  by (rule eats_bind_weak [OF eats_expect_ident])

lemma expect_weak: "k \<noteq> TkEof \<Longrightarrow> runs w n \<Longrightarrow> eats w (thenp (expect k) n)"
  unfolding thenp_def by (rule eats_bind_weak [OF eats_expect])

lemma eats_ifp_kind: "returns b (check k) w m \<Longrightarrow> returns b (\<lambda>_. True) w n \<Longrightarrow> returns b (\<lambda>_. True) w (ifp (check k) m n)"
  by (rule returns_ifp) (erule returns_mono; simp)+

text \<open>A function called where the token before the cursor was seen to be there.\<close>

lemma returns_at: "returns b (check k) w m \<Longrightarrow> (\<And>p. P p \<Longrightarrow> check k p) \<Longrightarrow> returns b P w m"
  by (erule returns_mono) simp_all

lemmas [steps] = eats_ifp_check

lemma type_step_eats:
  assumes "eats n rec"
  shows "eats (Suc n) (type_expr_step rec)"
proof -
  note [steps] = assms eats_runs [OF assms]
  have "eats (Suc n) (base_type_expr rec start)" for start
    unfolding base_type_expr_def array_type_expr_def map_type_expr_def tuple_type_expr_def
      function_type_expr_def named_type_expr_def
    by (intro steps eats_bind [OF returns_map_err [OF eats_expect_ident]]; simp)
  then show ?thesis
    unfolding type_expr_step_def by (intro eats_bind_gets eats_bind) (assumption | intro steps)+
qed

lemma returns_zero: "returns b P 0 m"
  by (simp add: returns_def)

lemma type_eats: "eats n (parse_type_expr n)"
  by (induction n) (simp_all add: returns_zero type_step_eats)

lemma pattern_step_eats:
  assumes "eats n rec"
  shows "eats (Suc n) (pattern_step rec)"
proof -
  note [steps] = assms
  show ?thesis unfolding pattern_step_def by (intro steps; simp)
qed

lemma pattern_eats: "eats n (parse_pattern n)"
  by (induction n) (simp_all add: returns_zero pattern_step_eats)

lemma push_errors_fields [simp]:
  "ps_tokens (fold (\<lambda>t. push_error (f t)) us p) = ps_tokens p"
  "ps_pos (fold (\<lambda>t. push_error (f t)) us p) = ps_pos p"
  by (induction us arbitrary: p) (simp_all add: push_error_def)

lemma weight_from_tokens: "weight (parser_from_tokens ts n) = sum_list (map token_weight ts)"
  by (simp add: weight_def parser_from_tokens_def collect_lexer_errors_def)

text \<open>An expression up to the operators of a precedence, one level deeper.\<close>

definition deeper :: "parser \<Rightarrow> parser" where
  "deeper p = p\<lparr>ps_expr_depth := Suc (ps_expr_depth p)\<rparr>"

lemma expression_prec_unfolded:
  "parse_expression_prec r m p =
     (if max_expr_depth \<le> ps_expr_depth p then Some (Inl (too_deep p), p)
      else case bindp (parse_unary r) (\<lambda>left. bindp (parse_postfix r left) (\<lambda>left.
            bindp (parse_binary_op r m left) (parse_range r))) (deeper p) of
             None \<Rightarrow> None
           | Some (Inl e, s) \<Rightarrow> Some (Inl e, s)
           | Some (Inr e, s) \<Rightarrow> Some (Inr e, s\<lparr>ps_expr_depth := ps_expr_depth s - 1\<rparr>))"
  by (simp add: parse_expression_prec_def set_expr_depth_def thenp_def bindp_def ifp_def fail_with_def deeper_def
      ret_def too_deep_def current_span_def current_token_def split: option.split prod.split sum.split)

section \<open>Calls that keep their promise\<close>

locale working_calls =
  fixes r :: calls and w :: nat
  assumes prec: "eats w (c_prec r k)"
    and unary: "eats w (c_unary r)"
    and if_expr: "eats w (c_if_expr r sp)"
    and statement: "eats w (c_statement r)"
    and fuel: "w \<le> c_fuel r"
    and classes: "unicode_classes (env_alphabetic (c_env r)) (env_alphanumeric (c_env r))"
begin

lemma call_steps [steps]:
  "eats w (c_prec r k)" "eats w (c_statement r)" "eats w (c_type r)" "eats w (parse_pattern (c_fuel r))"
  "runs w (c_prec r k)" "runs w (c_unary r)" "runs w (c_if_expr r sp)" "runs w (c_statement r)"
  "runs w (c_type r)" "runs w (parse_pattern (c_fuel r))"
  using prec unary if_expr statement eats_less [OF type_eats fuel] eats_less [OF pattern_eats fuel]
  by (simp_all add: eats_runs)

lemma arguments_runs [steps]: "runs w (arguments r)"
  unfolding arguments_def by (intro steps)

lemma block_item_eats [steps]: "eats w (block_item r s)"
  unfolding block_item_def
  by (cases s; simp only: prod.case; intro eats_bind_weak call_steps)
    (auto intro!: steps split: expr_form.split stmt_form.split)

lemma block_expr_eats: "eats (Suc w) (parse_block_expr r sp)"
  unfolding parse_block_expr_def by (intro steps runs_loop_eats; simp)

lemma block_here_eats: "eats (Suc w) (block_here r)"
  unfolding block_here_def by (intro steps block_expr_eats)

lemma block_here_runs [steps]: "runs w (block_here r)"
  by (rule runs_less [OF eats_runs [OF block_here_eats]]) simp

lemma entry_steps [steps]:
  "eats w (array_element r)" "eats w (map_entry r)" "eats w (object_entry r)" "eats w (struct_literal_field r)"
  unfolding array_element_def map_entry_def object_entry_def struct_literal_field_def
  by (intro eats_ifp_kind returns_bind_gets kind_advance_weak call_steps ident_weak eats_bind_weak steps; simp)+

lemma compound_literals:
  "eats (Suc w) (parse_group_or_tuple r sp)"
  "eats (Suc w) (parse_array r sp)"
  "eats (Suc w) (parse_map r sp)"
  "eats (Suc w) (parse_object r sp)"
  "eats (Suc w) (parse_route_block r sp)"
  "eats (Suc w) (parse_if_expr r sp)"
  "eats (Suc w) (parse_err r sp)"
  unfolding parse_group_or_tuple_def parse_array_def parse_map_def parse_object_def parse_route_block_def
    parse_if_expr_def parse_err_def
  by (intro steps; simp)+

lemma variant_runs [steps]: "runs w (parse_variant r name sp)"
  unfolding parse_variant_def by (intro steps)

lemma ident_at: "returns b (check (TkLiteral LiIdent)) (Suc w) (parse_ident r sp)"
  unfolding parse_ident_def by (intro returns_bind_gets steps; simp)

lemma ok_eats: "eats (Suc w) (parse_ok r sp)"
proof -
  have l: "runs w (loop ok_values_go_on (\<lambda>(vs, _). thenp advance_token
          (ifp (\<lambda>p. check (TkPunct PuSemi) p \<or> check (TkDelimiter DlRBrace) p) (ret (vs, True))
             (bindp (c_expr r) (\<lambda>v. ret (vs @ [v], False))))) ([x], False))" for x
    by (rule runs_loop)
      (auto simp: ok_values_go_on_def dest: check_not_end intro!: returns_then_advance [of _ w] steps split: prod.split)
  show ?thesis
    unfolding parse_ok_def by (intro steps l; simp)
qed

lemma closure_eats: "eats (Suc w) (parse_closure r sp)"
proof -
  have [steps]: "eats w (parse_parameter r)" unfolding parse_parameter_def by (intro ident_weak steps)
  have [steps]: "runs w (closure_types r)" unfolding closure_types_def by (intro steps)
  show ?thesis unfolding parse_closure_def by (intro steps; simp)
qed

section \<open>Matches\<close>

lemma condition_pattern_eats: "eats w (condition_pattern r)"
  unfolding condition_pattern_def by (intro eats_bind_weak steps)

lemma literal_pattern_eats: "eats w (literal_pattern r)"
  unfolding literal_pattern_def by (intro eats_bind_weak steps)

text \<open>Taking the name and going back to it is looking one token ahead.\<close>

lemma name_pattern_looks:
  "check (TkLiteral LiIdent) p \<Longrightarrow>
    name_pattern r p =
      ifp (\<lambda>p. check (TkPunct PuColonColon) (step_token p))
        (bindp (gets (\<lambda>p. tk_text (current_token p))) (\<lambda>name. thenp advance_token
        (thenp advance_token (bindp expect_ident (\<lambda>variant.
         ifp (check (TkDelimiter DlLParen))
           (thenp advance_token (bindp (parse_list (TkDelimiter DlRParen) expect_ident) (\<lambda>bindings.
            thenp (expect (TkDelimiter DlRParen)) (ret (MpEnumVariantPayload name variant bindings)))))
           (ret (MpEnumVariant name variant)))))))
        (condition_pattern r) p"
  using check_not_end [of "TkLiteral LiIdent" p]
  by (simp add: name_pattern_def thenp_def bindp_def gets_def advance_token_def ifp_def step_back_def
      step_token_def)

lemma name_pattern_at: "returns True (check (TkLiteral LiIdent)) w (name_pattern r)"
proof -
  have list: "runs w (parse_list (TkDelimiter DlRParen) expect_ident)"
    by (rule runs_list [OF eats_expect_ident])
  have "returns True (check (TkLiteral LiIdent)) w
      (ifp (\<lambda>p. check (TkPunct PuColonColon) (step_token p))
        (bindp (gets (\<lambda>p. tk_text (current_token p))) (\<lambda>name. thenp advance_token
        (thenp advance_token (bindp expect_ident (\<lambda>variant.
         ifp (check (TkDelimiter DlLParen))
           (thenp advance_token (bindp (parse_list (TkDelimiter DlRParen) expect_ident) (\<lambda>bindings.
            thenp (expect (TkDelimiter DlRParen)) (ret (MpEnumVariantPayload name variant bindings)))))
           (ret (MpEnumVariant name variant)))))))
        (condition_pattern r))"
    by (rule returns_ifp, rule returns_bind_gets, rule returns_at [OF kind_advance_weak [of "TkLiteral LiIdent"]])
      (simp, intro steps list, simp, rule eats_anywhere [OF condition_pattern_eats])
  then show ?thesis by (simp add: returns_def name_pattern_looks)
qed

lemma match_pattern_eats: "eats w (parse_match_pattern r)"
  unfolding parse_match_pattern_def
  by (intro eats_ifp_kind eats_ifp name_pattern_at kind_advance_weak condition_pattern_eats
      literal_pattern_eats steps; simp)

lemma match_arm_eats: "eats w (parse_match_arm r)"
proof -
  have "runs w (loop (\<lambda>_. more_patterns)
      (\<lambda>ps. thenp advance_token (bindp (parse_match_pattern r) (\<lambda>q. ret (ps @ [q])))) [x])" for x
    by (rule runs_loop_advance)
      (auto simp: more_patterns_def dest: check_not_end intro!: runs_bind eats_runs [OF match_pattern_eats] runs_ret)
  then have "eats w (arm_pattern_expr r)"
    unfolding arm_pattern_expr_def by (intro eats_bind_weak match_pattern_eats runs_ifp runs_bind runs_ret)
  moreover have "runs w (arm_body_expr r)"
    unfolding arm_body_expr_def by (intro steps)
  ultimately show ?thesis
    unfolding parse_match_arm_def by (intro returns_bind_gets eats_bind_weak steps; simp)
qed

lemma match_eats: "eats (Suc w) (parse_match r sp)"
  unfolding parse_match_def by (intro steps runs_comma_separated match_arm_eats; simp)

section \<open>Postfix, unary and binary operations\<close>

lemma postfix_runs [steps]: "runs w (parse_postfix r e)"
proof -
  have "returns True (postfix_follows e) w (postfix_operation r e)" for e
  proof -
    have "eats w (parse_call r e)" "eats w (parse_field_or_method r e)" "eats w (parse_index r e)"
      "eats w (parse_cast r e)"
      unfolding parse_call_def parse_field_or_method_def parse_index_def parse_cast_def
      by (intro expect_weak steps; simp)+
    moreover have "returns True (check (TkPunct PuQuestionQuestion)) w (parse_unwrap r e)"
      unfolding parse_unwrap_def by (intro kind_advance_weak steps; simp)
    ultimately show ?thesis
      unfolding postfix_operation_def
      by (intro returns_ifp)
        (auto elim!: eats_anywhere intro!: returns_at [OF kind_advance_weak] steps
          elim: returns_at simp: postfix_follows_def panics_next_def check_def)
  qed
  then show ?thesis unfolding parse_postfix_def by (rule runs_loop)
qed

section \<open>Interpolations\<close>

lemma embedded_runs:
  assumes "length s + 1 < w"
  shows "runs w (parse_embedded r s)"
proof (rule returnsI)
  fix p
  let ?q = "parser_from_tokens (fst (tokenize (env_alphabetic (c_env r)) (env_alphanumeric (c_env r)) (new_lexer s 0))) 0"
  have "weight ?q < w"
    using source_weight [OF classes, of s 0] assms by (simp add: weight_from_tokens)
  then obtain x q where "c_expr r ?q = Some (x, q)"
    using prec [of 0] unfolding returns_def by blast
  then show "\<exists>x q. parse_embedded r s p = Some (x, q) \<and> later p q \<and>
      (\<not> isl x \<longrightarrow> restored p q \<and> (False \<longrightarrow> weight q < weight p \<and> ps_pos p < ps_pos q))"
    by (simp add: parse_embedded_def)
qed

lemma interpolation_runs: "length s < w \<Longrightarrow> runs w (interpolation_parts r sp s parts)"
proof (induction "length s" arbitrary: s parts rule: less_induct)
  case less
  show ?case
  proof (cases "s = [] \<or> split_dollar s = None")
    case True
    then show ?thesis by (auto simp: interpolation_parts.simps [of r sp s] intro: steps)
  next
    case False
    then obtain lit rest where rest: "split_dollar s = Some (lit, rest)" by fastforce
    show ?thesis
    proof (cases "split_brace 1 rest")
      case None
      then show ?thesis using False rest by (auto simp: interpolation_parts.simps [of r sp s] intro: steps)
    next
      case (Some b)
      then obtain inner post where cut: "split_brace 1 rest = Some (inner, post)" by (cases b) auto
      have "length inner + 1 < w" "length post < length s"
        using split_dollar_length [OF rest] split_brace_length [OF cut] less.prems by simp_all
      then have "runs w (bindp (parse_embedded r inner) (\<lambda>e. interpolation_parts r sp post (f e)))" for f
        using less.prems by (intro runs_bind embedded_runs less.hyps) simp_all
      then show ?thesis using False rest cut by (simp add: interpolation_parts.simps [of r sp s])
    qed
  qed
qed

lemma template_at:
  assumes "template t"
  shows "returns True (\<lambda>p. current_token p = t) (Suc w)
    (thenp advance_token (parse_string_interpolation r (tk_text t) sp))"
proof (rule returnsI)
  fix p
  assume p: "current_token p = t" "weight p < Suc w"
  have end_: "\<not> is_at_end p" using assms p(1) by (simp add: is_at_end_def current_kind_def template_def)
  then have "length (tk_text t) < w"
    using weight_step [of p] p assms by (simp add: token_weight_def)
  then have "runs w (parse_string_interpolation r (tk_text t) sp)"
    unfolding parse_string_interpolation_def
    by (intro runs_bind interpolation_runs) (auto intro: steps split: list.split string_part.split)
  then have "returns True (\<lambda>p. \<not> is_at_end p) (Suc w) (thenp advance_token (parse_string_interpolation r (tk_text t) sp))"
    by (intro returns_then_advance [where v = w]) simp_all
  then show "\<exists>x q. thenp advance_token (parse_string_interpolation r (tk_text t) sp) p = Some (x, q) \<and>
      later p q \<and> (\<not> isl x \<longrightarrow> restored p q \<and> (True \<longrightarrow> weight q < weight p \<and> ps_pos p < ps_pos q))"
    using end_ p(2) unfolding returns_def by blast
qed

section \<open>Primary expressions\<close>

lemma await_at: "returns b (check (TkKeyword KwAwait)) (Suc w) (parse_await r sp)"
  unfolding parse_await_def by (intro steps; simp)

lemma go_at: "returns b (check (TkKeyword KwGo)) (Suc w) (parse_go r sp)"
  unfolding parse_go_def by (intro steps; simp)

lemma scope_at: "returns b (check (TkKeyword KwScope)) (Suc w) (parse_scope r sp)"
  unfolding parse_scope_def by (intro steps runs_loop_eats eats_bind_weak; simp)

lemma constant_at: "k \<noteq> TkEof \<Longrightarrow> returns b (check k) (Suc w) (constant_token c sp)"
  unfolding constant_token_def by (intro steps; simp)

lemma number_at: "k \<noteq> TkEof \<Longrightarrow> returns b (check k) (Suc w) (parse_number_literal r sp)"
  unfolding parse_number_literal_def
  by (intro returns_bind_gets kind_advance) (auto intro: steps split: option.split)

lemma brace_eats: "eats (Suc w) (parse_brace r sp)"
  unfolding parse_brace_def
  by (intro returns_bind_gets) (auto intro: compound_literals block_expr_eats split: brace_type.split)

lemma if_expr_eats: "eats (Suc w) (parse_if_expr r sp)"
  by (rule compound_literals)

lemma group_or_closure_eats: "eats (Suc w) (ifp lookahead_closure (parse_closure r sp) (parse_group_or_tuple r sp))"
  by (intro eats_ifp closure_eats compound_literals)

lemma primary_of_eats: "returns True (\<lambda>p. current_token p = t) (Suc w) (primary_of r sp t)"
proof -
  have at: "returns True (\<lambda>p. current_token p = t) (Suc w) m"
    if "tk_kind t = k" "returns True (check k) (Suc w) m" for k and m :: "expr parse"
    using that(2) by (rule returns_at) (simp add: check_def current_kind_def that(1) [symmetric])
  have error_at: "returns True (check TkError) (Suc w) (thenp advance_token (fail_with e))" for e :: "parser \<Rightarrow> compiler_error"
    by (intro kind_advance returns_fail) simp
  have spread_at: "returns True (check (TkPunct PuSpread)) (Suc w)
      (thenp advance_token (bindp (c_expr r) (\<lambda>inner. ret (Expr (ESpread inner) sp))))"
    by (intro kind_advance steps) simp
  note eating = eats_anywhere [OF group_or_closure_eats] eats_anywhere [OF brace_eats]
    eats_anywhere [OF compound_literals(2)] eats_anywhere [OF if_expr_eats] eats_anywhere [OF match_eats]
    eats_anywhere [OF ok_eats] eats_anywhere [OF compound_literals(7)]
  show ?thesis
  proof (cases "tk_kind t")
    case (TkLiteral l)
    then show ?thesis
      by (cases l) (auto simp: primary_of_def template_def
          intro!: at [OF TkLiteral] number_at constant_at ident_at template_at)
  next
    case (TkKeyword k)
    then show ?thesis
      by (cases k) (auto simp: primary_of_def intro!: at [OF TkKeyword] constant_at await_at go_at scope_at
          returns_fail eating)
  next
    case (TkDelimiter d)
    then show ?thesis by (cases d) (auto simp: primary_of_def intro!: returns_fail eating)
  next
    case (TkPunct u)
    then show ?thesis by (cases u) (auto simp: primary_of_def intro!: at [OF TkPunct] spread_at returns_fail)
  next
    case TkError
    then show ?thesis by (auto simp: primary_of_def intro!: at [OF TkError] error_at)
  qed (simp_all add: primary_of_def returns_fail)
qed

lemma primary_eats: "eats (Suc w) (parse_primary r)"
  unfolding parse_primary_def by (rule returns_bind_at) (simp add: primary_of_eats)

lemma unary_eats: "eats (Suc w) (parse_unary r)"
  unfolding parse_unary_def
proof (rule returns_bind_at)
  fix t
  have "runs w (parse_primary r)" by (rule runs_less [OF eats_runs [OF primary_eats]]) simp
  then show "returns True (\<lambda>p. True \<and> current_token p = t) (Suc w)
      (case unary_op_from_token (tk_kind t) of
         Some u \<Rightarrow> thenp advance_token
           (bindp (map_err (\<lambda>_ _. operand_missing ''expected expression after unary '' (unary_op_text u)
                (tk_span t)) (parse_primary r)) (\<lambda>e.
            bindp (parse_postfix r e) (\<lambda>e.
            ret (Expr (EUnary u e) (merge_spans (tk_span t) (ex_span e))))))
       | None \<Rightarrow> parse_primary r)"
    by (cases "tk_kind t" rule: unary_op_from_token.cases)
      (auto intro!: eats_anywhere [OF primary_eats] returns_then_advance [of _ w] steps
        simp: is_at_end_def current_kind_def)
qed

lemma binary_runs [steps]: "runs w (parse_binary_op r m e)"
proof -
  have "returns True (binary_follows m e) w (binary_operation r e)" for e
    unfolding binary_operation_def
  proof (rule returns_bind_at)
    fix t
    show "returns True (\<lambda>p. binary_follows m e p \<and> current_token p = t) w
       (case bin_op_from_token (tk_kind t) of
          Some b \<Rightarrow> thenp advance_token
            (bindp (map_err (\<lambda>_ _. operand_missing ''expected expression after '' (bin_op_text b) (tk_span t))
               (c_prec r (precedence b + 1))) (\<lambda>right.
             ret (Expr (EBinary e b right) (merge_spans (ex_span e) (ex_span right)))))
        | None \<Rightarrow> ret e)"
    proof (cases "bin_op_from_token (tk_kind t)")
      case None
      then show ?thesis by (auto simp: returns_def binary_follows_def current_kind_def)
    next
      case (Some b)
      then show ?thesis
        by (auto intro!: returns_then_advance [of _ w] steps simp: is_at_end_def current_kind_def)
    qed
  qed
  then show ?thesis unfolding parse_binary_op_def by (rule runs_loop)
qed

lemma range_runs [steps]: "runs w (parse_range r e)"
  unfolding parse_range_def by (intro steps)

section \<open>Expressions\<close>

lemma operators_eat:
  "eats (Suc w) (bindp (parse_unary r) (\<lambda>left. bindp (parse_postfix r left) (\<lambda>left.
      bindp (parse_binary_op r m left) (parse_range r))))"
  by (intro eats_bind unary_eats steps)

lemma prec_eats: "eats (Suc w) (parse_expression_prec r m)"
proof (rule returnsI)
  fix p
  assume "weight p < Suc w"
  then have p: "weight (deeper p) < Suc w" by (simp add: weight_def deeper_def)
  show "\<exists>x q. parse_expression_prec r m p = Some (x, q) \<and> later p q \<and>
      (\<not> isl x \<longrightarrow> restored p q \<and> (True \<longrightarrow> weight q < weight p \<and> ps_pos p < ps_pos q))"
  proof (cases "max_expr_depth \<le> ps_expr_depth p")
    case True
    then show ?thesis by (simp add: expression_prec_unfolded)
  next
    case False
    from operators_eat [of m] TrueI p show ?thesis
    proof (cases rule: returnsE)
      case (error e s)
      then show ?thesis unfolding expression_prec_unfolded using False by (auto simp: later_def deeper_def)
    next
      case (result e s)
      then show ?thesis unfolding expression_prec_unfolded using False
        by (auto simp: later_def restored_def weight_def deeper_def)
    qed
  qed
qed

text \<open>A failed expression leaves its level open.\<close>

lemma failed_prec_depth:
  assumes "weight p \<le> w" "ps_expr_depth p < max_expr_depth" "parse_expression_prec r m p = Some (Inl e, q)"
  shows "ps_expr_depth p < ps_expr_depth q"
proof -
  have "weight (deeper p) < Suc w" using assms(1) by (simp add: weight_def deeper_def)
  from operators_eat [of m] TrueI this show ?thesis
    by (cases rule: returnsE) (use assms(2,3) in \<open>auto simp: expression_prec_unfolded later_def deeper_def split: option.splits\<close>)
qed

lemma expression_eats: "eats (Suc w) (parse_expression r)"
  unfolding parse_expression_def by (rule prec_eats)

lemma expression_runs [steps]: "runs w (parse_expression r)"
  by (rule runs_less [OF eats_runs [OF expression_eats]]) simp

end

end
