(* ===== verification/Parse_Total.thy ===== *)
theory Parse_Total
  imports Parse_Ends
begin

text \<open>
  The judgements for statements, declarations and items, and the closed recursion: with fuel above its
  weight the parser returns on every input.
\<close>

section \<open>Depths raised for a part of the input\<close>

locale depth_counter =
  fixes up down :: "parser \<Rightarrow> parser"
  assumes raised: "later p (up p)" "weight (up p) = weight p" "ps_pos (up p) = ps_pos p"
    and lowered: "later (up p) q \<Longrightarrow> later p (down q)"
      "later (up p) q \<Longrightarrow> restored (up p) q \<Longrightarrow> restored p (down q)"
      "weight (down q) = weight q"
begin

text \<open>An error inside may leave the parser anywhere behind its start.\<close>

lemma bracket_runs:
  assumes m: "\<And>p. weight p < w \<Longrightarrow>
      \<exists>x q. m (up p) = Some (x, q) \<and> (if isl x then later p q else later (up p) q \<and> restored (up p) q)"
    and f: "\<And>a. runs w (f a)"
  shows "runs w (thenp (\<lambda>p. Some (Inr (), up p)) (bindp m (\<lambda>a. thenp (\<lambda>p. Some (Inr (), down p)) (f a))))"
    (is "runs w ?n")
proof (rule returnsI)
  fix p
  assume p: "weight p < w"
  from m [OF this] obtain x q where x: "m (up p) = Some (x, q)"
    "if isl x then later p q else later (up p) q \<and> restored (up p) q" by blast
  show "\<exists>x q. ?n p = Some (x, q) \<and> later p q \<and>
      (\<not> isl x \<longrightarrow> restored p q \<and> (False \<longrightarrow> weight q < weight p \<and> ps_pos p < ps_pos q))"
  proof (cases x)
    case (Inl e)
    then show ?thesis using x by (simp add: thenp_def bindp_def)
  next
    case (Inr a)
    then have q: "later p (down q)" "restored p (down q)" using x lowered by simp_all
    have "weight (down q) < w" using weight_mono [OF q(1)] p by simp
    then obtain y s where "f a (down q) = Some (y, s)" "later (down q) s" "\<not> isl y \<longrightarrow> restored (down q) s"
      using f [of a] unfolding returns_def by blast
    then show ?thesis
      using x(1) Inr later_trans [OF q(1)] restored_trans [OF q(1) _ q(2)]
      by (auto simp: thenp_def bindp_def)
  qed
qed

lemma bracket_runs_of: "runs w m \<Longrightarrow> (\<And>a. runs w (f a)) \<Longrightarrow>
    runs w (thenp (\<lambda>p. Some (Inr (), up p)) (bindp m (\<lambda>a. thenp (\<lambda>p. Some (Inr (), down p)) (f a))))"
proof (rule bracket_runs)
  fix p
  assume "runs w m" "weight p < w"
  then have "weight (up p) < w" by (simp add: raised)
  with \<open>runs w m\<close> obtain x q where "m (up p) = Some (x, q)" "later (up p) q" "\<not> isl x \<longrightarrow> restored (up p) q"
    unfolding returns_def by blast
  then show "\<exists>x q. m (up p) = Some (x, q) \<and>
      (if isl x then later p q else later (up p) q \<and> restored (up p) q)"
    using later_trans [OF raised(1)] by auto
qed

end

interpretation loop_depth: depth_counter
  "\<lambda>p. p\<lparr>ps_loop_depth := Suc (ps_loop_depth p)\<rparr>" "\<lambda>p. p\<lparr>ps_loop_depth := ps_loop_depth p - 1\<rparr>"
  by unfold_locales (auto simp: later_def restored_def weight_def)

interpretation fn_depth: depth_counter
  "\<lambda>p. p\<lparr>ps_fn_depth := Suc (ps_fn_depth p)\<rparr>" "\<lambda>p. p\<lparr>ps_fn_depth := ps_fn_depth p - 1\<rparr>"
  by unfold_locales (auto simp: later_def restored_def weight_def)

lemma set_depths:
  "set_loop_depth f = (\<lambda>p. Some (Inr (), p\<lparr>ps_loop_depth := f (ps_loop_depth p)\<rparr>))"
  "set_fn_depth f = (\<lambda>p. Some (Inr (), p\<lparr>ps_fn_depth := f (ps_fn_depth p)\<rparr>))"
  by (simp_all add: set_loop_depth_def set_fn_depth_def fun_eq_iff)

section \<open>Statements\<close>

context working_calls
begin

lemma error_variable_runs [steps]: "runs w error_variable"
  unfolding error_variable_def by (intro steps)

lemma let_eats: "eats (Suc w) (parse_let r)"
proof -
  have take_apart: "runs w (error_extract r sp ps)" for sp ps
    unfolding error_extract_def by (intro steps)
  have tail: "runs w (let_tail r sp m pat)" for sp m pat
    unfolding let_tail_def by (intro steps)
  have more: "runs w (loop more_bindings (next_binding r sp m) s)" for sp m s
  proof (rule runs_loop)
    fix s
    show "returns True (more_bindings s) w (next_binding r sp m s)"
      unfolding next_binding_def
      by (rule returns_then_advance [where v = w])
        (auto simp: more_bindings_def dest: check_not_end intro!: steps take_apart)
  qed
  show ?thesis
    unfolding parse_let_def
    by (intro steps more tail; auto intro!: steps tail take_apart split: sum.split)
qed

lemma after_stmt_later: "later p (after_stmt s p) \<and> restored p (after_stmt s p)"
  by (simp add: after_stmt_def take_semicolon_later)

lemma block_eats: "eats (Suc w) (parse_block r)"
proof -
  have "runs w (loop (before_end (TkDelimiter DlRBrace)) (\<lambda>stmts. recover stmts after_stmt (c_statement r)) s)" for s
    by (rule runs_recovering) (simp_all add: steps after_stmt_later before_end_def)
  then show ?thesis unfolding parse_block_def by (intro steps; simp)
qed

lemma block_runs [steps]: "runs w (parse_block r)"
  by (rule runs_less [OF eats_runs [OF block_eats]]) simp

lemma block_stmt_eats: "eats (Suc w) (parse_block_stmt r)"
  unfolding parse_block_stmt_def by (intro returns_bind_gets eats_bind block_eats steps)

lemma if_eats: "eats (Suc w) (parse_if r)"
  unfolding parse_if_def by (intro steps; simp)

lemma infinite_loop_runs [steps]: "runs w (infinite_loop r sp)"
  unfolding infinite_loop_def set_depths by (intro loop_depth.bracket_runs_of steps)

lemma loop_body_runs [steps]: "runs w (loop_body r)"
  unfolding loop_body_def set_depths
proof (rule loop_depth.bracket_runs)
  fix p :: parser
  let ?up = "p\<lparr>ps_loop_depth := Suc (ps_loop_depth p)\<rparr>"
  assume "weight p < w"
  then have "weight ?up < w" by (simp add: weight_def)
  with block_runs TrueI show "\<exists>x q. leaving_loop (for_error ''expected `{` to start for-loop body'') (parse_block r) ?up =
      Some (x, q) \<and> (if isl x then later p q else later ?up q \<and> restored ?up q)"
    by (cases rule: returnsE) (auto simp: leaving_loop_def later_def)
qed (rule runs_ret)

lemma for_eats: "eats (Suc w) (parse_for r)"
proof -
  have "runs w (loop (\<lambda>_. check (TkPunct PuComma))
      (\<lambda>ps. thenp advance_token (bindp (parse_pattern (c_fuel r)) (\<lambda>q. ret (ps @ [q])))) s)" for s
    by (rule runs_loop_advance) (auto dest: check_not_end intro: steps)
  then have "runs w (loop_pattern r)"
    unfolding loop_pattern_def by (intro steps)
  then show ?thesis unfolding parse_for_def by (intro steps; simp)
qed

lemma return_eats: "eats (Suc w) (parse_return r)"
  unfolding parse_return_def by (intro steps runs_comma_separated eats_less [OF expression_eats]; simp)

lemma jump_eats: "eats (Suc w) (loop_jump k s e)"
  unfolding loop_jump_def by (intro steps; simp)

lemma print_eats: "eats (Suc w) (parse_print r)"
  unfolding parse_print_def by (intro steps eats_less [OF expression_eats]; simp)

lemma from_sum_runs [steps]: "runs w (from_sum x)"
  by (rule returnsI) (simp add: from_sum_def restored_def)

lemma expr_or_assign_eats: "eats (Suc w) (parse_expr_or_assign r)"
proof -
  have "runs w (assign_tail r sp e f)" for sp e f
    unfolding assign_tail_def by (intro steps)
  moreover have "runs w (inc_dec_tail sp e d)" for sp e d
    unfolding inc_dec_tail_def by (intro steps)
  ultimately show ?thesis
    unfolding parse_expr_or_assign_def
    by (intro returns_bind_gets eats_bind expression_eats runs_ifp) (auto intro: steps split: option.split)
qed

section \<open>Declarations\<close>

lemma decorators_run [steps]: "runs (Suc w) (parse_decorators r)" "runs w (parse_decorators r)"
proof -
  have arg: "eats w (decorator_argument r n)" for n
    unfolding decorator_argument_def by (intro returns_map_err eats_less [OF expression_eats]) simp
  have "runs w (decorator_arguments r n)" for n
    unfolding decorator_arguments_def by (intro steps runs_loop_eats eats_bind_weak arg)
  then have "eats (Suc w) (parse_decorator r)"
    unfolding parse_decorator_def by (intro steps; simp)
  then show "runs (Suc w) (parse_decorators r)"
    unfolding parse_decorators_def by (intro runs_loop_eats eats_bind_weak runs_ret)
  then show "runs w (parse_decorators r)" by (rule runs_less) simp
qed

lemma unique_runs [steps]: "runs v (add_unique f e xs x)"
  by (simp add: add_unique_def steps)

lemma type_params_run [steps]: "runs v parse_type_params"
proof -
  have "eats v (parse_type_param ps)" for ps
    unfolding parse_type_param_def
    by (intro returns_bind_gets eats_bind_weak returns_map_err eats_expect_ident) (auto intro!: steps)
  then show ?thesis unfolding parse_type_params_def by (intro steps runs_loop_eats)
qed

lemma param_list_runs [steps]: "runs w (parse_param_list r)"
proof -
  have "eats w (parse_param r ps)" for ps
    unfolding parse_param_def by (intro returns_bind_gets ident_weak) (auto intro!: steps)
  then show ?thesis unfolding parse_param_list_def by (intro runs_loop_eats)
qed

lemma optional_comma_runs [steps]: "runs v optional_comma"
  unfolding optional_comma_def by (intro steps)

lemma struct_eats: "eats (Suc w) (parse_struct r)"
proof -
  have "eats w (parse_field_decl r)"
    unfolding parse_field_decl_def by (intro returns_bind_gets ident_weak steps)
  then show ?thesis
    unfolding parse_struct_def by (intro steps runs_loop_eats eats_bind_weak; simp)
qed

lemma type_tuple_runs [steps]: "runs v (type_tuple sp ts)"
  by (simp add: type_tuple_def steps)

lemma enum_eats: "eats (Suc w) (parse_enum r)"
proof -
  have "eats w (parse_variant_decl r)"
    unfolding parse_variant_decl_def variant_payload_def by (intro returns_bind_gets ident_weak steps)
  then have next_: "eats w (next_variant r n vs)" for n vs
    unfolding next_variant_def by (intro eats_bind_weak steps)
  have more: "runs w (loop (\<lambda>_ p. check (TkPunct PuComma) p \<or> check (TkOperator OpOr) p)
      (\<lambda>vs. thenp advance_token (next_variant r n vs)) s)" for n s
    by (rule runs_loop_advance) (auto dest: check_not_end intro: eats_runs next_)
  have "runs w (inline_variants r n)" "runs w (block_variants r n)" for n
    unfolding inline_variants_def block_variants_def
    by (intro steps more runs_loop_eats eats_bind_weak next_ eats_runs [OF next_])+
  then show ?thesis unfolding parse_enum_def by (intro steps; simp)
qed

lemma statement_eats: "eats (Suc w) (parse_statement r)"
proof -
  have "eats (Suc w) (struct_stmt r)" "eats (Suc w) (enum_stmt r)"
    unfolding struct_stmt_def enum_stmt_def
    by (intro returns_bind_gets eats_bind struct_eats enum_eats steps)+
  then show ?thesis
    unfolding parse_statement_def parse_break_def parse_continue_def
    by (intro returns_bind_gets)
      (auto intro: let_eats if_eats for_eats return_eats jump_eats print_eats block_stmt_eats expr_or_assign_eats
        split: token_kind.split keyword.split delimiter_kind.split)
qed

end

text \<open>One more call keeps the promise for one more unit of weight.\<close>

lemma calls_at_work:
  assumes "unicode_classes (env_alphabetic v) (env_alphanumeric v)"
  shows "working_calls (calls_at v n) n"
proof (induction n)
  case 0
  then show ?case using assms by unfold_locales (simp_all add: returns_zero)
next
  case (Suc n)
  note steps = working_calls.prec_eats [OF Suc] working_calls.unary_eats [OF Suc]
    working_calls.if_expr_eats [OF Suc] working_calls.statement_eats [OF Suc]
  show ?case
    using assms by unfold_locales
      (simp_all add: Let_def steps)
qed

end
