(* ===== verification/Parse_Programs.thy ===== *)
theory Parse_Programs
  imports Parse_Total
begin

text \<open>
  The judgements for items and programs: with fuel above the weight of its source, parsing a program
  returns, and what it returns is never an error.
\<close>

lemma returnsD: "returns b P w m \<Longrightarrow> P p \<Longrightarrow> weight p < w \<Longrightarrow> \<exists>x q. m p = Some (x, q) \<and> later p q \<and>
    (\<not> isl x \<longrightarrow> restored p q \<and> (b \<longrightarrow> weight q < weight p \<and> ps_pos p < ps_pos q))"
  by (simp add: returns_def)

lemma eats_behind: "runs w m \<Longrightarrow> (\<And>a. eats w (f a)) \<Longrightarrow> eats w (bindp m f)"
  by (rule returns_bind [where v = w and b = False and c = True]) simp_all

section \<open>Constants, functions and impl blocks\<close>

context working_calls
begin

lemma const_eats: "eats (Suc w) (parse_const r)"
  unfolding parse_const_def by (intro steps; simp)

lemma static_eats: "eats (Suc w) (parse_static r)"
  unfolding parse_static_def by (intro steps; simp)

lemma function_name_runs [steps]: "runs v parse_function_name"
  unfolding parse_function_name_def by (intro steps)

lemma result_types_run [steps]: "runs w (result_types r start)"
proof -
  have [steps]: "runs w (error_only r)" unfolding error_only_def by (intro steps)
  show ?thesis unfolding result_types_def by (intro steps runs_comma_separated; simp)
qed

text \<open>A missing body lowers the depth before it fails; every other error leaves it as it is.\<close>

lemma function_body_inside:
  assumes "weight p < w"
  defines "up \<equiv> \<lambda>p :: parser. p\<lparr>ps_fn_depth := Suc (ps_fn_depth p)\<rparr>"
  shows "\<exists>x q. function_body r name (up p) = Some (x, q) \<and>
    (if isl x then later p q else later (up p) q \<and> restored (up p) q)"
proof -
  let ?m = "\<lambda>m. ifp (check (TkOperator OpFatArrow))
       (thenp advance_token (bindp (comma_separated (parse_expression r)) (\<lambda>values.
        gets (\<lambda>p. ([Stmt (StReturn values) (prev_span p)], True)))))
     (ifp (check (TkDelimiter DlLBrace)) (bindp (parse_block r) (\<lambda>b. ret (b, False))) m)"
  have body: "function_body r name = ?m (thenp (set_fn_depth (\<lambda>d. d - 1)) (fail_with (missing_body name)))"
    by (simp add: function_body_def)
  have up: "later p (up p)" "weight (up p) = weight p" by (simp_all add: up_def later_def weight_def)
  show ?thesis
  proof (cases "check (TkOperator OpFatArrow) (up p) \<or> check (TkDelimiter DlLBrace) (up p)")
    case True
    have "runs w (?m (ret ([], True)))"
      by (intro steps runs_comma_separated eats_less [OF expression_eats]; simp)
    from returnsD [OF this TrueI, of "up p"] obtain x q where "?m (ret ([], True)) (up p) = Some (x, q)"
      "later (up p) q" "\<not> isl x \<longrightarrow> restored (up p) q"
      using assms(1) up(2) by auto
    moreover have "function_body r name (up p) = ?m (ret ([], True)) (up p)"
      using True by (auto simp: body ifp_def)
    ultimately show ?thesis using later_trans [OF up(1)] by auto
  next
    case False
    then show ?thesis
      by (simp add: body ifp_def thenp_def bindp_def set_fn_depth_def fail_with_def up_def)
  qed
qed

lemma function_eats: "eats (Suc w) (parse_function r)"
proof -
  have body: "runs w (thenp (set_fn_depth Suc) (bindp (function_body r name) (\<lambda>b.
      thenp (set_fn_depth (\<lambda>d. d - 1)) (f b))))" if "\<And>b. runs w (f b)" for f :: "_ \<Rightarrow> 'a parse" and name
    unfolding set_depths by (rule fn_depth.bracket_runs [OF function_body_inside that])
  show ?thesis unfolding parse_function_def
    by (intro returns_bind_gets eats_behind [OF runs_flag] steps body; simp)
qed

section \<open>Impl blocks, interfaces, imports and policies\<close>

lemma impl_eats: "eats (Suc w) (parse_impl r)"
proof -
  have "runs v (check_self name f)" for v name f
    by (simp add: check_self_def steps)
  then have "eats w (impl_method r name fs)" for name fs
    unfolding impl_method_def Let_def
    by (intro eats_bind_weak returns_map_err eats_less [OF function_eats] steps; simp)
  then show ?thesis
    unfolding parse_impl_def by (intro steps runs_loop_eats; simp)
qed

lemma interface_eats: "eats (Suc w) (parse_interface r)"
proof -
  have "eats w (parse_interface_method r)"
    unfolding parse_interface_method_def by (intro returns_bind_gets expect_weak steps; simp)
  then show ?thesis
    unfolding parse_interface_def by (intro steps runs_loop_eats eats_bind_weak; simp)
qed

lemma import_eats: "eats (Suc v) parse_import"
proof -
  have "runs v import_item"
    unfolding import_item_def by (intro steps)
  have "eats v import_item"
    unfolding import_item_def by (intro eats_ifp_kind kind_advance_weak ident_weak steps; simp)
  then have items: "runs v import_items"
    unfolding import_items_def by (intro steps; simp)
  have path: "runs v (loop path_goes_on next_segment s)" for s
  proof (rule runs_loop)
    fix s
    show "returns True (path_goes_on s) v (next_segment s)"
      unfolding next_segment_def
      by (intro returns_ifp; rule returns_then_advance [of _ v])
        (auto simp: path_goes_on_def dest: check_not_end intro!: steps split: path_state.splits)
  qed
  show ?thesis
    unfolding parse_import_def
    by (intro steps path; simp) (auto intro!: steps items split: path_state.split)
qed

lemma policy_eats: "eats (Suc v) parse_policy"
proof -
  have [steps]: "runs v parse_policy_term" for v
    unfolding parse_policy_term_def by (intro steps)
  have "runs v (loop (\<lambda>_ p. check (TkOperator OpOr) p \<or> check (TkOperator OpAnd) p)
       (\<lambda>res. bindp (gets (check (TkOperator OpOr))) (\<lambda>is_or. thenp advance_token
         (bindp parse_policy_term (\<lambda>t. ret (res @ ascii (if is_or then ''|'' else ''&'') @ t))))) s)" for s
    by (intro runs_loop returns_bind_gets returns_then_advance [of _ v])
      (auto dest: check_not_end intro!: steps)
  then have "runs v parse_policy_rule"
    unfolding parse_policy_rule_def by (intro steps)
  then have "eats v (policy_rule rules)" for rules
    unfolding policy_rule_def by (intro ident_weak steps)
  then show ?thesis
    unfolding parse_policy_def by (intro steps runs_loop_eats; simp)
qed

section \<open>Items and programs\<close>

lemma item_eats: "eats (Suc w) (parse_item r)"
proof -
  note eats = const_eats static_eats function_eats struct_eats enum_eats interface_eats import_eats
    policy_eats impl_eats statement_eats
  show ?thesis
    unfolding parse_item_def
    by (intro eats_behind [OF decorators_run(1)] returns_bind_gets)
      (auto split: token_kind.split keyword.split intro!: eats_bind eats runs_ret)
qed

lemma items_run: "runs (Suc w) (parse_items r)"
  unfolding parse_items_def
  by (rule runs_recovering [OF item_eats]) (simp_all add: after_item_def take_semicolon_later)



end

text \<open>A failed item is recorded, so that no error leaves the loop over the items.\<close>

lemma loop_succeeds:
  assumes body: "\<And>s p e q. body s p \<noteq> Some (Inl e, q)" and y: "loop c body s p = Some y"
  shows "\<not> isl (fst y)"
proof -
  have "body = body \<longrightarrow> \<not> isl (fst y)"
    by (rule loop.raw_induct [of "\<lambda>c b s p y. b = body \<longrightarrow> \<not> isl (fst y)", OF _ y])
      (use body in \<open>auto split: if_splits option.splits sum.splits prod.splits\<close>)
  then show ?thesis by simp
qed

lemma recover_succeeds: "recover xs f m p \<noteq> Some (Inl e, q)"
  by (auto simp: recover_def split: option.split prod.split sum.split)

lemma program_succeeds: "parse_program r p = Some (x, q) \<Longrightarrow> \<not> isl x"
  by (auto dest!: loop_succeeds [OF recover_succeeds] simp: parse_program_def parse_items_def bindp_def gets_def split: option.splits sum.splits prod.splits)

section \<open>Sources\<close>

lemma program_returns:
  assumes "unicode_classes (env_alphabetic v) (env_alphanumeric v)" "weight p \<le> n"
  shows "\<exists>a q. parse_program (calls_at v n) p = Some (Inr a, q) \<and> later p q \<and> restored p q"
proof -
  have "runs (Suc n) (parse_program (calls_at v n))"
    unfolding parse_program_def
    by (intro steps working_calls.items_run [OF calls_at_work [OF assms(1)]])
  from returnsD [OF this TrueI, of p] assms(2)
  obtain x q where "parse_program (calls_at v n) p = Some (x, q)" "later p q" "\<not> isl x \<longrightarrow> restored p q"
    by auto
  then show ?thesis using program_succeeds by (cases x) fastforce+
qed

lemma source_fuel:
  "unicode_classes (env_alphabetic v) (env_alphanumeric v) \<Longrightarrow> weight (new_parser v src file_id) \<le> length src + 1"
  using source_weight [of "env_alphabetic v" "env_alphanumeric v" src file_id]
  by (simp add: new_parser_def weight_from_tokens)

text \<open>ASCII letters and digits, as an environment.\<close>

definition ascii_environment :: "(ustr \<Rightarrow> 64 word option) \<Rightarrow> environment" where
  "ascii_environment f =
     \<lparr>env_alphabetic = ascii_letter, env_alphanumeric = ascii_alphanumeric,
      env_uppercase = (\<lambda>c. 65 \<le> c \<and> c \<le> 90), env_float = f\<rparr>"

interpretation ascii_calls: working_calls "calls_at (ascii_environment f) n" n for f n
  by (rule calls_at_work) (simp add: ascii_environment_def unicode_classes_def ascii_alphanumeric_def)

end
