(* ===== verification/Parse_Formulas.thy ===== *)
theory Parse_Formulas
  imports Parse_Programs
begin

text \<open>
  Printing and parsing operator expressions. A formula is an expression without its spans; it is printed
  with the parentheses its operators' precedences ask for and no others, and the parser reads back the
  same formula.
\<close>

section \<open>The input ahead\<close>

text \<open>The kinds of the tokens that are left, with the names of identifiers.\<close>

type_synonym sketch = "token_kind \<times> ustr"

definition sketch_of :: "token \<Rightarrow> sketch" where
  "sketch_of t = (tk_kind t, if tk_kind t = TkLiteral LiIdent then tk_text t else [])"

definition ahead :: "parser \<Rightarrow> sketch list" where
  "ahead p = map sketch_of (drop (ps_pos p) (ps_tokens p))"

definition moved :: "nat \<Rightarrow> parser \<Rightarrow> parser" where
  "moved n p = p\<lparr>ps_pos := ps_pos p + n\<rparr>"

lemma moved_simps [simp]:
  "moved 0 p = p" "moved a (moved b p) = moved (b + a) p"
  "ps_expr_depth (moved a p) = ps_expr_depth p"
  "moved a p\<lparr>ps_expr_depth := d\<rparr> = moved a (p\<lparr>ps_expr_depth := d\<rparr>)"
  by (simp_all add: moved_def add.assoc)

lemma ahead_moved [simp]: "ahead (moved n p) = drop n (ahead p)"
  by (simp add: ahead_def moved_def drop_map add.commute)

lemma ahead_deeper [simp]: "ahead (p\<lparr>ps_expr_depth := d\<rparr>) = ahead p"
  by (simp add: ahead_def)

lemma ahead_current:
  assumes "ahead p = (k, s) # ts"
  shows "current_kind p = k" "k = TkLiteral LiIdent \<Longrightarrow> tk_text (current_token p) = s"
proof -
  have "ps_pos p < length (ps_tokens p)"
    using assms by (cases "ps_pos p < length (ps_tokens p)") (simp_all add: ahead_def)
  then have "current_token p # drop (Suc (ps_pos p)) (ps_tokens p) = drop (ps_pos p) (ps_tokens p)"
    by (simp add: current_token_def Cons_nth_drop_Suc)
  then have "sketch_of (current_token p) = (k, s)"
    using assms by (metis ahead_def list.inject list.simps(9))
  then show "current_kind p = k" "k = TkLiteral LiIdent \<Longrightarrow> tk_text (current_token p) = s"
    by (auto simp: sketch_of_def current_kind_def split: if_splits)
qed

lemma ahead_step: "ahead p = (k, s) # ts \<Longrightarrow> k \<noteq> TkEof \<Longrightarrow> step_token p = moved 1 p"
  using ahead_current(1) [of p k s ts] by (simp add: step_token_def is_at_end_def moved_def)

lemma ahead_peek:
  assumes "ahead p = a # (k, s) # ts"
  shows "tk_kind (peek_next p) = k" "k = TkLiteral LiIdent \<Longrightarrow> tk_text (peek_next p) = s"
proof -
  have "ahead (moved 1 p) = (k, s) # ts" using assms by simp
  from ahead_current [OF this] show "tk_kind (peek_next p) = k" "k = TkLiteral LiIdent \<Longrightarrow> tk_text (peek_next p) = s"
    by (auto simp: current_kind_def current_token_def peek_next_def moved_def split: if_splits)
qed

definition next_kind :: "sketch list \<Rightarrow> token_kind" where
  "next_kind ts = (case ts of [] \<Rightarrow> TkEof | t # _ \<Rightarrow> fst t)"

lemma next_kind_simps [simp]: "next_kind (t # ts) = fst t" "ts \<noteq> [] \<Longrightarrow> next_kind (ts @ us) = next_kind ts"
  by (auto simp: next_kind_def split: list.split)

lemma current_kind_ahead: "current_kind p = next_kind (ahead p)"
proof (cases "ahead p")
  case Nil
  then have "\<not> ps_pos p < length (ps_tokens p)" by (auto simp: ahead_def)
  then show ?thesis using Nil by (simp add: next_kind_def current_kind_def current_token_def eof_token_def new_token_def)
next
  case (Cons t ts)
  then show ?thesis using ahead_current(1) [of p "fst t" "snd t" ts] by simp
qed

section \<open>Formulas\<close>

datatype formula =
    FmName ustr
  | FmBool bool
  | FmNil
  | FmUnary unary_op formula
  | FmBinary formula bin_op formula
  | FmIndex formula formula
  | FmTry formula

text \<open>The expression of a formula, whatever its spans.\<close>

primrec built :: "formula \<Rightarrow> expr \<Rightarrow> bool" where
  "built (FmName s) x \<longleftrightarrow> ex_kind x = EIdent s"
| "built (FmBool b) x \<longleftrightarrow> ex_kind x = EBoolLit b"
| "built FmNil x \<longleftrightarrow> ex_kind x = ENil"
| "built (FmUnary u a) x \<longleftrightarrow> (case ex_kind x of EUnary v y \<Rightarrow> v = u \<and> built a y | _ \<Rightarrow> False)"
| "built (FmBinary a b c) x \<longleftrightarrow>
     (case ex_kind x of EBinary y d z \<Rightarrow> d = b \<and> built a y \<and> built c z | _ \<Rightarrow> False)"
| "built (FmIndex a c) x \<longleftrightarrow> (case ex_kind x of EIndex y z \<Rightarrow> built a y \<and> built c z | _ \<Rightarrow> False)"
| "built (FmTry a) x \<longleftrightarrow> (case ex_kind x of ETry y \<Rightarrow> built a y | _ \<Rightarrow> False)"

primrec bin_op_kind :: "bin_op \<Rightarrow> token_kind" where
  "bin_op_kind BoAdd = TkOperator OpPlus"
| "bin_op_kind BoSub = TkOperator OpMinus"
| "bin_op_kind BoMul = TkOperator OpStar"
| "bin_op_kind BoDiv = TkOperator OpSlash"
| "bin_op_kind BoMod = TkOperator OpPercent"
| "bin_op_kind BoEq = TkOperator OpEqEq"
| "bin_op_kind BoNotEq = TkOperator OpNotEq"
| "bin_op_kind BoLt = TkOperator OpLt"
| "bin_op_kind BoGt = TkOperator OpGt"
| "bin_op_kind BoLtEq = TkOperator OpLtEq"
| "bin_op_kind BoGtEq = TkOperator OpGtEq"
| "bin_op_kind BoIn = TkKeyword KwIn"
| "bin_op_kind BoAnd = TkOperator OpAndAnd"
| "bin_op_kind BoOr = TkOperator OpOrOr"
| "bin_op_kind BoBitAnd = TkOperator OpAnd"
| "bin_op_kind BoBitOr = TkOperator OpOr"
| "bin_op_kind BoNullCoalesce = TkPunct PuQuestionQuestion"

primrec unary_op_kind :: "unary_op \<Rightarrow> token_kind" where
  "unary_op_kind UoNeg = TkOperator OpMinus"
| "unary_op_kind UoNot = TkOperator OpBang"

lemma bin_op_of_kind [simp]: "bin_op_from_token (bin_op_kind b) = Some b" "bin_op_kind b \<noteq> TkEof"
  by (cases b; simp)+

lemma unary_op_of_kind [simp]: "unary_op_from_token (unary_op_kind u) = Some u" "unary_op_kind u \<noteq> TkEof"
  by (cases u; simp)+

lemma precedence_bounds: "1 \<le> precedence b" "precedence b \<le> 9"
  by (cases b; simp)+

section \<open>Printing\<close>

text \<open>How tightly a formula holds its parts together: binary operators by their precedence, then prefix
  operators, then the rest.\<close>

primrec level :: "formula \<Rightarrow> nat" where
  "level (FmName _) = 11"
| "level (FmBool _) = 11"
| "level FmNil = 11"
| "level (FmUnary _ _) = 10"
| "level (FmBinary _ b _) = precedence b"
| "level (FmIndex _ _) = 11"
| "level (FmTry _) = 11"

abbreviation open_paren :: sketch where
  "open_paren \<equiv> (TkDelimiter DlLParen, [])"

abbreviation close_paren :: sketch where
  "close_paren \<equiv> (TkDelimiter DlRParen, [])"

definition wrapped :: "bool \<Rightarrow> sketch list \<Rightarrow> sketch list" where
  "wrapped plain ts = (if plain then ts else open_paren # ts @ [close_paren])"

primrec printed :: "formula \<Rightarrow> sketch list" where
  "printed (FmName s) = [(TkLiteral LiIdent, s)]"
| "printed (FmBool b) = [(TkKeyword (if b then KwTrue else KwFalse), [])]"
| "printed FmNil = [(TkKeyword KwNil, [])]"
| "printed (FmUnary u a) = (unary_op_kind u, []) # wrapped (11 \<le> level a) (printed a)"
| "printed (FmBinary a b c) =
     wrapped (precedence b \<le> level a) (printed a) @ (bin_op_kind b, []) #
     wrapped (precedence b < level c) (printed c)"
| "printed (FmIndex a c) =
     wrapped (11 \<le> level a) (printed a) @ (TkDelimiter DlLBracket, []) # printed c @ [(TkDelimiter DlRBracket, [])]"
| "printed (FmTry a) = wrapped (11 \<le> level a) (printed a) @ [(TkPunct PuQuestion, [])]"

definition printed_at :: "nat \<Rightarrow> formula \<Rightarrow> sketch list" where
  "printed_at m e = wrapped (m \<le> level e) (printed e)"

text \<open>How deep the parser nests for a formula.\<close>

primrec nesting :: "formula \<Rightarrow> nat" where
  "nesting (FmName _) = 0"
| "nesting (FmBool _) = 0"
| "nesting FmNil = 0"
| "nesting (FmUnary _ a) = (if 11 \<le> level a then nesting a else Suc (nesting a))"
| "nesting (FmBinary a b c) =
     max (if precedence b \<le> level a then nesting a else Suc (nesting a))
       (Suc (if precedence b < level c then nesting c else Suc (nesting c)))"
| "nesting (FmIndex a c) = max (if 11 \<le> level a then nesting a else Suc (nesting a)) (Suc (nesting c))"
| "nesting (FmTry a) = (if 11 \<le> level a then nesting a else Suc (nesting a))"

definition nesting_at :: "nat \<Rightarrow> formula \<Rightarrow> nat" where
  "nesting_at m e = (if m \<le> level e then nesting e else Suc (nesting e))"

text \<open>The name after a null-coalescing operator that makes the parser read something else.\<close>

primrec no_panic :: "formula \<Rightarrow> bool" where
  "no_panic (FmName s) \<longleftrightarrow> s \<noteq> ascii ''panic''"
| "no_panic (FmBool _) \<longleftrightarrow> True"
| "no_panic FmNil \<longleftrightarrow> True"
| "no_panic (FmUnary _ a) \<longleftrightarrow> no_panic a"
| "no_panic (FmBinary a _ c) \<longleftrightarrow> no_panic a \<and> no_panic c"
| "no_panic (FmIndex a c) \<longleftrightarrow> no_panic a \<and> no_panic c"
| "no_panic (FmTry a) \<longleftrightarrow> no_panic a"

end
