(* ===== verification/Parse_Round.thy ===== *)
theory Parse_Round
  imports Parse_Formulas
begin

text \<open>
  The parser reads printed formulas back: first the tokens an expression is made of, then operands with
  their postfix operators, then chains of binary operators under the precedence climbed to.
\<close>

section \<open>Looking for the closing parenthesis\<close>

text \<open>Inputs the search for the closing parenthesis passes over.\<close>

definition skipped :: "sketch list \<Rightarrow> bool" where
  "skipped ts \<longleftrightarrow>
     (\<forall>p d us. ahead p = ts @ us \<longrightarrow> 0 < d \<longrightarrow> find_close d p = find_close d (moved (length ts) p))"

lemma skipped_append: "skipped ts \<Longrightarrow> skipped us \<Longrightarrow> skipped (ts @ us)"
  by (simp add: skipped_def)

lemma skipped_token:
  assumes "k \<notin> {TkEof, TkDelimiter DlLParen, TkDelimiter DlRParen}"
  shows "skipped [(k, s)]"
proof -
  have "find_close d p = find_close d (moved 1 p)" if "ahead p = (k, s) # us" "0 < d" for p d us
    using that assms ahead_current(1) [OF that(1)] ahead_step [OF that(1)]
    by (simp add: find_close.simps [of d p] is_at_end_def check_def Let_def)
  then show ?thesis by (simp add: skipped_def)
qed

lemma find_close_open:
  "ahead p = open_paren # us \<Longrightarrow> 0 < d \<Longrightarrow> find_close d p = find_close (Suc d) (moved 1 p)"
  using ahead_current(1) [of p] ahead_step [of p]
  by (simp add: find_close.simps [of d p] is_at_end_def check_def Let_def)

lemma find_close_close:
  "ahead p = close_paren # us \<Longrightarrow> find_close (Suc d) p = (if 0 < d then find_close d (moved 1 p) else p)"
  using ahead_current(1) [of p] ahead_step [of p]
  by (simp add: find_close.simps [of "Suc d" p] is_at_end_def check_def Let_def)

lemma skipped_wrapped:
  assumes "skipped ts"
  shows "skipped (wrapped b ts)"
proof -
  have "find_close d p = find_close d (moved (Suc (Suc (length ts))) p)"
    if p: "ahead p = open_paren # ts @ close_paren # us" "0 < d" for p d us
  proof -
    have "find_close (Suc d) (moved 1 p) = find_close (Suc d) (moved (Suc (length ts)) p)"
      using assms p(1) by (simp add: skipped_def)
    also have "\<dots> = find_close d (moved (Suc (Suc (length ts))) p)"
      using find_close_close [of "moved (Suc (length ts)) p" us d] p by simp
    finally show ?thesis using find_close_open [OF p] by simp
  qed
  then show ?thesis using assms by (simp add: skipped_def wrapped_def)
qed

lemma op_not_parens [simp]:
  "bin_op_kind b \<noteq> TkDelimiter d" "unary_op_kind u \<noteq> TkDelimiter d"
  by (cases b; simp) (cases u; simp)

lemma skipped_Cons: "k \<notin> {TkEof, TkDelimiter DlLParen, TkDelimiter DlRParen} \<Longrightarrow> skipped us \<Longrightarrow> skipped ((k, s) # us)"
  using skipped_append [OF skipped_token, of k us s] by simp

lemma skipped_printed: "skipped (printed e)"
  by (induction e) (auto intro!: skipped_append skipped_wrapped skipped_Cons skipped_token)

text \<open>A parenthesis around a formula does not open a closure unless an arrow follows.\<close>

lemma not_closure:
  assumes "ahead p = open_paren # printed e @ close_paren # us"
    and "next_kind us \<notin> {TkOperator OpFatArrow, TkOperator OpArrow}"
  shows "\<not> lookahead_closure p"
proof -
  let ?q = "moved (Suc (length (printed e))) p"
  have q: "ahead ?q = close_paren # us" using assms(1) by simp
  have "find_close 1 (moved 1 p) = find_close 1 ?q"
    using skipped_printed [of e] assms(1) by (simp add: skipped_def)
  also have "\<dots> = ?q" using find_close_close [OF q, of 0] by simp
  finally have "step_token (find_close 1 (step_token p)) = moved (Suc (Suc (length (printed e)))) p"
    using ahead_step [OF assms(1)] ahead_step [OF q] by simp
  moreover have "ahead (moved (Suc (Suc (length (printed e)))) p) = us" using assms(1) by simp
  ultimately show ?thesis using assms(2) by (simp add: lookahead_closure_def check_def current_kind_ahead)
qed

section \<open>Single steps\<close>

lemma check_ahead: "check k p \<longleftrightarrow> next_kind (ahead p) = k"
  by (simp add: check_def current_kind_ahead)

lemma advance_ahead: "ahead p = (k, s) # ts \<Longrightarrow> k \<noteq> TkEof \<Longrightarrow> thenp advance_token m p = m (moved 1 p)"
  using ahead_step [of p k s ts] by (simp add: thenp_def bindp_def advance_token_def)

lemma expect_ahead: "ahead p = (k, s) # ts \<Longrightarrow> k \<noteq> TkEof \<Longrightarrow> thenp (expect k) m p = m (moved 1 p)"
  using ahead_step [of p k s ts]
  by (simp add: expect_def check_ahead ifp_def thenp_def bindp_def advance_token_def)

lemma gets_bind [simp]: "bindp (gets g) f p = f (g p) p"
  by (simp add: bindp_def gets_def)

lemma bind_result: "m p = Some (Inr a, q) \<Longrightarrow> bindp m f p = f a q"
  by (simp add: bindp_def)

lemma ret_bind [simp]: "bindp (ret a) f = f a"
  by (simp add: bindp_def ret_def fun_eq_iff)

lemma map_err_bind: "m p = Some (Inr a, q) \<Longrightarrow> bindp (map_err g m) f p = f a q"
  by (simp add: bindp_def map_err_def)

section \<open>What may follow\<close>

definition panics :: "sketch list \<Rightarrow> bool" where
  "panics ts \<longleftrightarrow>
     (case ts of
        t # (i, s) # _ \<Rightarrow> fst t = TkPunct PuQuestionQuestion \<and> i = TkLiteral LiIdent \<and> s = ascii ''panic''
      | _ \<Rightarrow> False)"

text \<open>Nothing that would make more of a name or of a parenthesis.\<close>

definition calm :: "sketch list \<Rightarrow> bool" where
  "calm ts \<longleftrightarrow>
     next_kind ts \<notin> {TkPunct PuColonColon, TkDelimiter DlLBrace, TkOperator OpFatArrow, TkOperator OpArrow}"

text \<open>No postfix operator and no range either.\<close>

definition quiet :: "sketch list \<Rightarrow> bool" where
  "quiet ts \<longleftrightarrow>
     calm ts \<and> \<not> panics ts \<and>
     next_kind ts \<notin> {TkDelimiter DlLParen, TkPunct PuDot, TkDelimiter DlLBracket, TkKeyword KwAs,
       TkPunct PuQuestion, TkPunct PuDotDot, TkPunct PuDotDotEq}"

definition follows :: "nat \<Rightarrow> sketch list \<Rightarrow> bool" where
  "follows m ts \<longleftrightarrow>
     quiet ts \<and> (case bin_op_from_token (next_kind ts) of Some b \<Rightarrow> precedence b \<le> m | None \<Rightarrow> True)"

definition ends :: "nat \<Rightarrow> sketch list \<Rightarrow> bool" where
  "ends m ts \<longleftrightarrow>
     quiet ts \<and> (case bin_op_from_token (next_kind ts) of Some b \<Rightarrow> precedence b < m | None \<Rightarrow> True)"

lemma ends_follows: "ends m ts \<Longrightarrow> m \<le> l \<Longrightarrow> follows l ts"
  by (auto simp: ends_def follows_def split: option.splits)

lemma follows_ends: "follows m ts \<Longrightarrow> m < l \<Longrightarrow> ends l ts"
  by (auto simp: ends_def follows_def split: option.splits)

lemma follows_less: "follows m ts \<Longrightarrow> m \<le> l \<Longrightarrow> follows l ts"
  by (auto simp: follows_def split: option.splits)

lemma follows_any: "quiet ts \<Longrightarrow> 9 \<le> l \<Longrightarrow> follows l ts"
  using precedence_bounds(2) by (fastforce simp: follows_def intro: le_trans split: option.split)

lemma follows_calm: "follows m ts \<Longrightarrow> calm ts"
  by (simp add: follows_def quiet_def)

lemma panics_ahead: "panics_next p = panics (ahead p)"
proof (cases "ahead p" rule: list.exhaust [case_names none more])
  case none
  then show ?thesis by (simp add: panics_next_def panics_def check_ahead next_kind_def)
next
  case (more t ts)
  have "panics_next p \<longleftrightarrow> fst t = TkPunct PuQuestionQuestion \<and> peek_is (TkLiteral LiIdent) p
      \<and> tk_text (peek_next p) = ascii ''panic''"
    using more by (simp add: panics_next_def check_ahead)
  moreover have "tk_kind (peek_next p) \<noteq> TkLiteral LiIdent" if "ts = []"
  proof -
    have "length (ahead p) = 1" using more that by simp
    then have "length (ps_tokens p) - ps_pos p = 1" by (simp add: ahead_def)
    then have "\<not> Suc (ps_pos p) < length (ps_tokens p)" by simp
    then show ?thesis by (simp add: peek_next_def eof_token_def new_token_def)
  qed
  moreover have "peek_is (TkLiteral LiIdent) p \<and> tk_text (peek_next p) = ascii ''panic'' \<longleftrightarrow>
      i = TkLiteral LiIdent \<and> s = ascii ''panic''" if "ts = (i, s) # us" for i s us
    using ahead_peek [of p t i s us] more that by (auto simp: peek_is_def)
  ultimately show ?thesis
    using more by (cases ts) (auto simp: panics_def peek_is_def)
qed

lemma postfix_done: "quiet (ahead p) \<Longrightarrow> parse_postfix r e p = Some (Inr e, p)"
  by (simp add: parse_postfix_def loop.simps [of postfix_follows] postfix_follows_def panics_ahead
      current_kind_ahead quiet_def)

lemma binary_done: "ends m (ahead p) \<Longrightarrow> parse_binary_op r m e p = Some (Inr e, p)"
  by (auto simp: parse_binary_op_def loop.simps [of "binary_follows m"] binary_follows_def
      current_kind_ahead ends_def split: option.splits)

lemma range_done: "quiet (ahead p) \<Longrightarrow> parse_range r e p = Some (Inr e, p)"
  by (simp add: parse_range_def ifp_def check_ahead quiet_def ret_def)

section \<open>Chains of operators\<close>

definition operations :: "calls \<Rightarrow> nat \<Rightarrow> expr parse" where
  "operations r k = bindp (parse_unary r) (\<lambda>l. bindp (parse_postfix r l) (parse_binary_op r k))"

text \<open>The tokens are read as the operand, up to the postfix operators that follow.\<close>

definition reads_operand :: "environment \<Rightarrow> nat \<Rightarrow> nat \<Rightarrow> formula \<Rightarrow> sketch list \<Rightarrow> bool" where
  "reads_operand v n d e ts \<longleftrightarrow>
     (\<forall>p us. ahead p = ts @ us \<longrightarrow> calm us \<longrightarrow> ps_expr_depth p + d \<le> max_expr_depth \<longrightarrow>
       (\<exists>x. built e x \<and>
         bindp (parse_primary (calls_at v n)) (parse_postfix (calls_at v n)) p =
         parse_postfix (calls_at v n) x (moved (length ts) p)))"

text \<open>The tokens are read as the left operand of the operators that follow.\<close>

definition reads_chain :: "environment \<Rightarrow> nat \<Rightarrow> nat \<Rightarrow> nat \<Rightarrow> formula \<Rightarrow> sketch list \<Rightarrow> bool" where
  "reads_chain v n d l e ts \<longleftrightarrow>
     (\<forall>p us k. ahead p = ts @ us \<longrightarrow> k \<le> l \<longrightarrow> follows l us \<longrightarrow> ps_expr_depth p + d \<le> max_expr_depth \<longrightarrow>
       (\<exists>x. built e x \<and>
         operations (calls_at v n) k p = parse_binary_op (calls_at v n) k x (moved (length ts) p)))"

lemma reads_chainD:
  "reads_chain v n d l e ts \<Longrightarrow> ahead p = ts @ us \<Longrightarrow> k \<le> l \<Longrightarrow> follows l us \<Longrightarrow>
    ps_expr_depth p + d \<le> max_expr_depth \<Longrightarrow>
    \<exists>x. built e x \<and> operations (calls_at v n) k p = parse_binary_op (calls_at v n) k x (moved (length ts) p)"
  by (simp add: reads_chain_def)

lemma reads_operandD:
  "reads_operand v n d e ts \<Longrightarrow> ahead p = ts @ us \<Longrightarrow> calm us \<Longrightarrow> ps_expr_depth p + d \<le> max_expr_depth \<Longrightarrow>
    \<exists>x. built e x \<and> bindp (parse_primary (calls_at v n)) (parse_postfix (calls_at v n)) p =
      parse_postfix (calls_at v n) x (moved (length ts) p)"
  by (simp add: reads_operand_def)

lemma reads_chain_less: "reads_chain v n d l e ts \<Longrightarrow> m \<le> l \<Longrightarrow> reads_chain v n d m e ts"
  unfolding reads_chain_def by (meson follows_less le_trans)

lemma chain_prec:
  assumes "reads_chain v n d l e ts" "m \<le> l" "ahead p = ts @ us" "ends m us"
    "ps_expr_depth p + Suc d \<le> max_expr_depth"
  shows "\<exists>x. built e x \<and> c_prec (calls_at v (Suc n)) m p = Some (Inr x, moved (length ts) p)"
proof -
  let ?r = "calls_at v n"
  let ?q = "p\<lparr>ps_expr_depth := Suc (ps_expr_depth p)\<rparr>"
  obtain x where x: "built e x" "operations ?r m ?q = parse_binary_op ?r m x (moved (length ts) ?q)"
    using reads_chainD [OF assms(1), of ?q us m] assms ends_follows [OF assms(4,2)] by auto
  let ?s = "moved (length ts) ?q"
  have s: "ahead ?s = us" using assms(3) by simp
  have "operations ?r m ?q = Some (Inr x, ?s)"
    using x(2) binary_done [of m ?s] assms(4) s by simp
  then have ops: "bindp (parse_unary ?r) (\<lambda>left. bindp (parse_postfix ?r left) (\<lambda>left.
      bindp (parse_binary_op ?r m left) f)) ?q = f x ?s" for f :: "expr \<Rightarrow> expr parse"
    by (auto simp: operations_def bindp_def split: option.splits prod.splits sum.splits)
  have "parse_range ?r x ?s = Some (Inr x, ?s)"
    using range_done [of ?s] assms(4) s by (simp add: ends_def)
  then have "parse_expression_prec ?r m p = Some (Inr x, ?s\<lparr>ps_expr_depth := ps_expr_depth ?s - 1\<rparr>)"
    using ops assms(5)
    by (simp add: parse_expression_prec_def set_expr_depth_def thenp_def ifp_def ret_def bindp_def [of "\<lambda>p. Some (Inr (), p\<lparr>ps_expr_depth := Suc (ps_expr_depth p)\<rparr>)"] bind_result)
  then show ?thesis using x(1) by (auto simp: Let_def)
qed

lemma bind_assoc: "bindp (bindp m f) g = bindp m (\<lambda>a. bindp (f a) g)"
  by (simp add: bindp_def fun_eq_iff split: option.split prod.split sum.split)

lemma bind_cong: "m p = n q \<Longrightarrow> bindp m f p = bindp n f q"
  by (simp add: bindp_def)

lemma kind_ahead: "ahead p = (k, s) # ts \<Longrightarrow> tk_kind (current_token p) = k"
  using ahead_current(1) [of p k s ts] by (simp add: current_kind_def)

lemma operand_chain:
  assumes "reads_operand v n d e ts" "unary_op_from_token (next_kind ts) = None" "ts \<noteq> []"
  shows "reads_chain v n d l e ts"
  unfolding reads_chain_def
proof (intro allI impI)
  fix p us k
  let ?r = "calls_at v n"
  assume p: "ahead p = ts @ us" "k \<le> l" "follows l us" "ps_expr_depth p + d \<le> max_expr_depth"
  obtain x where x: "built e x" "bindp (parse_primary ?r) (parse_postfix ?r) p = parse_postfix ?r x (moved (length ts) p)"
    using reads_operandD [OF assms(1) p(1) follows_calm [OF p(3)] p(4)] by blast
  have "tk_kind (current_token p) = next_kind ts"
    using current_kind_ahead [of p] p(1) assms(3) by (simp add: current_kind_def)
  then have "parse_unary ?r p = parse_primary ?r p"
    using assms(2) by (simp add: parse_unary_def)
  then have "operations ?r k p = bindp (bindp (parse_primary ?r) (parse_postfix ?r)) (parse_binary_op ?r k) p"
    by (simp add: operations_def bind_assoc bindp_def)
  also have "\<dots> = bindp (parse_postfix ?r x) (parse_binary_op ?r k) (moved (length ts) p)"
    by (rule bind_cong) (rule x(2))
  also have "\<dots> = parse_binary_op ?r k x (moved (length ts) p)"
    using postfix_done [of "moved (length ts) p"] p(1,3) by (simp add: follows_def bind_result)
  finally show "\<exists>x. built e x \<and> operations ?r k p = parse_binary_op ?r k x (moved (length ts) p)"
    using x(1) by blast
qed

section \<open>First tokens\<close>

lemma printed_first:
  "printed e \<noteq> [] \<and> next_kind (printed e) \<in>
     {TkLiteral LiIdent, TkKeyword KwTrue, TkKeyword KwFalse, TkKeyword KwNil, TkDelimiter DlLParen,
      TkOperator OpMinus, TkOperator OpBang}"
proof (induction e)
  case (FmUnary u a)
  then show ?case by (cases u) simp_all
qed (auto simp: wrapped_def)

lemma printed_plain: "11 \<le> level e \<Longrightarrow> unary_op_from_token (next_kind (printed e)) = None"
proof (induction e)
  case (FmBinary a b c)
  then show ?case using precedence_bounds(2) [of b] by simp
qed (use printed_first in \<open>auto simp: wrapped_def\<close>)

lemma printed_no_panic: "no_panic e \<Longrightarrow> hd (printed e) \<noteq> (TkLiteral LiIdent, ascii ''panic'')"
proof (induction e)
  case (FmUnary u a)
  then show ?case by (cases u) simp_all
qed (use printed_first in \<open>auto simp: wrapped_def\<close>)

section \<open>Parentheses\<close>

lemma wrapped_operand:
  assumes "reads_chain v n d l e (printed e)"
  shows "reads_operand v (Suc n) (Suc d) e (open_paren # printed e @ [close_paren])"
  unfolding reads_operand_def
proof (intro allI impI)
  fix p us
  let ?r = "calls_at v (Suc n)"
  assume p: "ahead p = (open_paren # printed e @ [close_paren]) @ us" "calm us"
    "ps_expr_depth p + Suc d \<le> max_expr_depth"
  then have whole: "ahead p = open_paren # printed e @ close_paren # us" by simp
  let ?p1 = "moved 1 p"
  let ?p2 = "moved (Suc (length (printed e))) p"
  let ?p3 = "moved (Suc (Suc (length (printed e)))) p"
  have p1: "ahead ?p1 = printed e @ close_paren # us" and p2: "ahead ?p2 = close_paren # us"
    using whole by simp_all
  have "ends 0 (close_paren # us)"
    by (cases us) (simp_all add: ends_def quiet_def calm_def panics_def)
  then obtain x where x: "built e x" "c_expr ?r ?p1 = Some (Inr x, ?p2)"
    using chain_prec [OF assms _ p1] p(3) by auto
  have "\<not> lookahead_closure p"
    using not_closure [OF whole] p(2) by (auto simp: calm_def)
  then have "parse_primary ?r p = parse_group_or_tuple ?r (tk_span (current_token p)) p"
    using kind_ahead [OF whole] by (simp add: parse_primary_def primary_of_def ifp_def)
  also have "\<dots> = Some (Inr x, ?p3)"
    using printed_first [of e] x(2) p1 p2
    by (auto simp: parse_group_or_tuple_def expect_ahead [OF whole] ifp_def check_ahead bind_result
        expect_ahead [OF p2] ret_def)
  finally show "\<exists>x. built e x \<and> bindp (parse_primary ?r) (parse_postfix ?r) p =
      parse_postfix ?r x (moved (length (open_paren # printed e @ [close_paren])) p)"
    using x(1) by (auto simp: bind_result)
qed

section \<open>Formulas are read back\<close>

definition reads :: "environment \<Rightarrow> formula \<Rightarrow> bool" where
  "reads v e \<longleftrightarrow>
     (\<forall>n\<ge>nesting e. reads_chain v n (nesting e) (level e) e (printed e) \<and>
       (11 \<le> level e \<longrightarrow> reads_operand v n (nesting e) e (printed e)))"

lemma operand_at:
  assumes "reads v e" "nesting_at 11 e \<le> n"
  shows "reads_operand v n (nesting_at 11 e) e (printed_at 11 e)"
proof (cases "11 \<le> level e")
  case True
  then show ?thesis using assms by (simp add: reads_def nesting_at_def printed_at_def wrapped_def)
next
  case False
  then obtain i where "n = Suc i" "nesting e \<le> i"
    using assms(2) by (cases n) (auto simp: nesting_at_def)
  then show ?thesis
    using wrapped_operand [of v i "nesting e" "level e" e] assms(1) False
    by (simp add: reads_def nesting_at_def printed_at_def wrapped_def)
qed

lemma chain_at:
  assumes "reads v e" "nesting_at m e \<le> n"
  shows "reads_chain v n (nesting_at m e) m e (printed_at m e)"
proof (cases "m \<le> level e")
  case True
  then show ?thesis
    using assms reads_chain_less [of v n "nesting e" "level e" e "printed e" m]
    by (simp add: reads_def nesting_at_def printed_at_def wrapped_def)
next
  case False
  then obtain i where "n = Suc i" "nesting e \<le> i"
    using assms(2) by (cases n) (auto simp: nesting_at_def)
  then show ?thesis
    using operand_chain [OF wrapped_operand, of v i "nesting e" "level e" e] assms(1) False
    by (simp add: reads_def nesting_at_def printed_at_def wrapped_def)
qed

lemma prec_at:
  assumes "reads v e" "nesting_at m e < n" "ahead p = printed_at m e @ us" "ends m us"
    "ps_expr_depth p + Suc (nesting_at m e) \<le> max_expr_depth"
  shows "\<exists>x. built e x \<and> c_prec (calls_at v n) m p = Some (Inr x, moved (length (printed_at m e)) p)"
proof -
  obtain i where "n = Suc i" "nesting_at m e \<le> i" using assms(2) by (cases n) auto
  then show ?thesis using chain_prec [OF chain_at [OF assms(1)] order_refl assms(3-5)] by blast
qed

text \<open>What cannot be taken apart by the unary operators or by the postfix operators is an operand.\<close>

lemma reads_of_operand:
  assumes "level e = 11" "\<And>n. nesting e \<le> n \<Longrightarrow> reads_operand v n (nesting e) e (printed e)"
  shows "reads v e"
  using assms operand_chain [OF assms(2) printed_plain [of e]] printed_first [of e] by (simp add: reads_def)

lemma atom_operand:
  assumes "\<And>p us. ahead p = t # us \<Longrightarrow> calm us \<Longrightarrow>
      \<exists>x. built e x \<and> parse_primary (calls_at v n) p = Some (Inr x, moved 1 p)"
  shows "reads_operand v n d e [t]"
  unfolding reads_operand_def
proof (intro allI impI)
  fix p us
  assume "ahead p = [t] @ us" "calm us"
  then obtain x where "built e x" "parse_primary (calls_at v n) p = Some (Inr x, moved 1 p)"
    using assms [of p us] by auto
  then show "\<exists>x. built e x \<and> bindp (parse_primary (calls_at v n)) (parse_postfix (calls_at v n)) p =
      parse_postfix (calls_at v n) x (moved (length [t]) p)"
    by (auto simp: bind_result)
qed

lemma name_operand: "reads_operand v n d (FmName s) [(TkLiteral LiIdent, s)]"
proof (rule atom_operand)
  fix p us
  assume p: "ahead p = (TkLiteral LiIdent, s) # us" "calm us"
  have "parse_primary (calls_at v n) p = Some (Inr (Expr (EIdent s) (tk_span (current_token p))), moved 1 p)"
    using p kind_ahead [OF p(1)] ahead_current(2) [OF p(1)]
    by (simp add: parse_primary_def primary_of_def parse_ident_def advance_ahead [OF p(1)] ifp_def check_ahead
        ret_def calm_def)
  then show "\<exists>x. built (FmName s) x \<and> parse_primary (calls_at v n) p = Some (Inr x, moved 1 p)"
    by auto
qed

lemma constant_operand:
  assumes "\<And>sp t. tk_kind t = k \<Longrightarrow> primary_of (calls_at v n) sp t = constant_token c sp" "k \<noteq> TkEof"
    and "\<And>sp. built e (Expr c sp)"
  shows "reads_operand v n d e [(k, s)]"
proof (rule atom_operand)
  fix p us
  assume p: "ahead p = (k, s) # us"
  show "\<exists>x. built e x \<and> parse_primary (calls_at v n) p = Some (Inr x, moved 1 p)"
    using assms(1) [OF kind_ahead [OF p]] assms(3)
    by (simp add: parse_primary_def constant_token_def ret_def advance_ahead [OF p assms(2)])
qed

lemma map_err_operand: "bindp m f p = Some (Inr a, q) \<Longrightarrow> bindp (map_err g m) f p = Some (Inr a, q)"
  by (auto simp: bindp_def map_err_def split: option.splits prod.splits sum.splits)

lemma unary_reads:
  assumes "reads v a"
  shows "reads v (FmUnary u a)"
proof -
  let ?ts = "printed_at 11 a"
  have "reads_chain v n (nesting_at 11 a) 10 (FmUnary u a) ((unary_op_kind u, []) # ?ts)"
    if n: "nesting_at 11 a \<le> n" for n
    unfolding reads_chain_def
  proof (intro allI impI)
    fix p us and k :: nat
    let ?r = "calls_at v n"
    let ?q = "moved (Suc (length ?ts)) p"
    assume p: "ahead p = ((unary_op_kind u, []) # ?ts) @ us" "k \<le> 10" "follows 10 us"
      "ps_expr_depth p + nesting_at 11 a \<le> max_expr_depth"
    have q: "quiet (ahead ?q)" using p by (simp add: follows_def)
    have "ahead (moved 1 p) = ?ts @ us" using p(1) by simp
    then obtain y where y: "built a y"
      "bindp (parse_primary ?r) (parse_postfix ?r) (moved 1 p) = Some (Inr y, ?q)"
      using reads_operandD [OF operand_at [OF assms n], of "moved 1 p" us] p(3,4) follows_calm
        postfix_done [OF q] by auto
    have whole: "ahead p = (unary_op_kind u, []) # ?ts @ us" using p(1) by simp
    let ?x = "Expr (EUnary u y) (merge_spans (tk_span (current_token p)) (ex_span y))"
    have "bindp (bindp (map_err g (parse_primary ?r)) (parse_postfix ?r)) f (moved 1 p) = f y ?q"
      for g and f :: "expr \<Rightarrow> expr parse"
      by (rule bind_result, rule map_err_operand, rule y(2))
    then have "bindp (map_err g (parse_primary ?r)) (\<lambda>e. bindp (parse_postfix ?r e) f) (moved 1 p) = f y ?q"
      for g and f :: "expr \<Rightarrow> expr parse"
      by (simp add: bind_assoc)
    then have "parse_unary ?r p = Some (Inr ?x, ?q)"
      by (simp add: parse_unary_def kind_ahead [OF whole] advance_ahead [OF whole] ret_def)
    then have "operations ?r k p = parse_binary_op ?r k ?x ?q"
      using postfix_done [OF q] by (simp add: operations_def bind_result)
    then show "\<exists>x. built (FmUnary u a) x \<and>
        operations ?r k p = parse_binary_op ?r k x (moved (length ((unary_op_kind u, []) # ?ts)) p)"
      using y(1) by (intro exI [of _ ?x]) simp
  qed
  then show ?thesis by (simp add: reads_def printed_at_def nesting_at_def)
qed

lemma postfix_step:
  "postfix_follows e p \<Longrightarrow> postfix_operation r e p = Some (Inr x, q) \<Longrightarrow> parse_postfix r e p = parse_postfix r x q"
  by (simp add: parse_postfix_def loop.simps [of postfix_follows _ e p])

lemma index_reads:
  assumes "reads v a" "reads v c"
  shows "reads v (FmIndex a c)"
proof (rule reads_of_operand)
  let ?ts = "printed_at 11 a"
  let ?left = "(TkDelimiter DlLBracket, []) :: sketch" and ?right = "(TkDelimiter DlRBracket, []) :: sketch"
  have whole: "printed (FmIndex a c) = ?ts @ ?left # printed c @ [?right]" by (simp add: printed_at_def)
  fix n
  assume "nesting (FmIndex a c) \<le> n"
  then have n: "nesting_at 11 a \<le> n" "nesting_at 0 c < n" by (simp_all add: nesting_at_def split: if_splits)
  show "reads_operand v n (nesting (FmIndex a c)) (FmIndex a c) (printed (FmIndex a c))"
    unfolding reads_operand_def whole
  proof (intro allI impI)
    fix p us
    let ?r = "calls_at v n"
    assume p: "ahead p = (?ts @ ?left # printed c @ [?right]) @ us" "calm us"
      "ps_expr_depth p + nesting (FmIndex a c) \<le> max_expr_depth"
    have deep: "ps_expr_depth p + nesting_at 11 a \<le> max_expr_depth"
      "ps_expr_depth p + Suc (nesting_at 0 c) \<le> max_expr_depth"
      using p(3) by (simp_all add: nesting_at_def split: if_splits)
    let ?p1 = "moved (length ?ts) p"
    let ?p2 = "moved (Suc (length ?ts)) p"
    let ?p3 = "moved (Suc (length ?ts + length (printed c))) p"
    let ?p4 = "moved (Suc (Suc (length ?ts + length (printed c)))) p"
    have p1: "ahead ?p1 = ?left # printed c @ ?right # us" using p(1) by simp
    have p2: "ahead ?p2 = printed_at 0 c @ ?right # us" using p(1) by (simp add: printed_at_def wrapped_def)
    have p3: "ahead ?p3 = ?right # us" using p(1) by simp
    obtain y where y: "built a y" "bindp (parse_primary ?r) (parse_postfix ?r) p = parse_postfix ?r y ?p1"
      using reads_operandD [OF operand_at [OF assms(1) n(1)] _ _ deep(1), of "?left # printed c @ ?right # us"] p(1)
      by (auto simp: calm_def)
    have "ends 0 (?right # us)"
      by (cases us) (simp_all add: ends_def quiet_def calm_def panics_def)
    then obtain z where z: "built c z" "c_expr ?r ?p2 = Some (Inr z, ?p3)"
      using prec_at [OF assms(2) n(2) p2] deep(2) by (auto simp: printed_at_def wrapped_def)
    define sp where "sp = merge_spans (ex_span y) (prev_span ?p4)"
    have "postfix_follows y ?p1"
      by (simp add: postfix_follows_def current_kind_ahead p(1))
    moreover have "postfix_operation ?r y ?p1 = Some (Inr (Expr (EIndex y z) sp), ?p4)"
      by (simp add: postfix_operation_def ifp_def check_ahead p(1) parse_index_def expect_ahead [OF p1]
          bind_result [of "c_expr ?r" ?p2 z ?p3, OF z(2)] expect_ahead [OF p3] spanning_def gets_def sp_def)
    ultimately have "bindp (parse_primary ?r) (parse_postfix ?r) p = parse_postfix ?r (Expr (EIndex y z) sp) ?p4"
      using y(2) by (simp add: postfix_step)
    then show "\<exists>x. built (FmIndex a c) x \<and> bindp (parse_primary ?r) (parse_postfix ?r) p =
        parse_postfix ?r x (moved (length (?ts @ ?left # printed c @ [?right])) p)"
      using y(1) z(1) by (intro exI [of _ "Expr (EIndex y z) sp"]) simp
  qed
qed simp

lemma try_reads:
  assumes "reads v a"
  shows "reads v (FmTry a)"
proof (rule reads_of_operand)
  let ?ts = "printed_at 11 a"
  let ?mark = "(TkPunct PuQuestion, []) :: sketch"
  have whole: "printed (FmTry a) = ?ts @ [?mark]" "nesting (FmTry a) = nesting_at 11 a"
    by (simp_all add: printed_at_def nesting_at_def)
  fix n
  assume n: "nesting (FmTry a) \<le> n"
  show "reads_operand v n (nesting (FmTry a)) (FmTry a) (printed (FmTry a))"
    unfolding reads_operand_def whole
  proof (intro allI impI)
    fix p us
    let ?r = "calls_at v n"
    assume p: "ahead p = (?ts @ [?mark]) @ us" "calm us" "ps_expr_depth p + nesting_at 11 a \<le> max_expr_depth"
    let ?p1 = "moved (length ?ts) p"
    let ?p2 = "moved (Suc (length ?ts)) p"
    have p1: "ahead ?p1 = ?mark # us" using p(1) by simp
    obtain y where y: "built a y" "bindp (parse_primary ?r) (parse_postfix ?r) p = parse_postfix ?r y ?p1"
      using reads_operandD [OF operand_at [OF assms] _ _ p(3), of n "?mark # us"] n p(1) whole(2)
      by (auto simp: calm_def)
    define sp where "sp = merge_spans (ex_span y) (prev_span ?p2)"
    have "postfix_follows y ?p1"
      by (simp add: postfix_follows_def current_kind_ahead p(1))
    moreover have "postfix_operation ?r y ?p1 = Some (Inr (Expr (ETry y) sp), ?p2)"
      by (simp add: postfix_operation_def ifp_def check_ahead p(1) advance_ahead [OF p1] spanning_def gets_def sp_def)
    ultimately have "bindp (parse_primary ?r) (parse_postfix ?r) p = parse_postfix ?r (Expr (ETry y) sp) ?p2"
      using y(2) by (simp add: postfix_step)
    then show "\<exists>x. built (FmTry a) x \<and> bindp (parse_primary ?r) (parse_postfix ?r) p =
        parse_postfix ?r x (moved (length (?ts @ [?mark])) p)"
      using y(1) by (intro exI [of _ "Expr (ETry y) sp"]) simp
  qed
qed simp

lemma binary_reads:
  assumes "reads v a" "reads v c" "no_panic c"
  shows "reads v (FmBinary a b c)"
proof -
  let ?m = "precedence b"
  let ?ls = "printed_at ?m a" and ?rs = "printed_at (Suc ?m) c" and ?op = "(bin_op_kind b, []) :: sketch"
  have whole: "printed (FmBinary a b c) = ?ls @ ?op # ?rs"
    by (simp add: printed_at_def Suc_le_eq)
  have "reads_chain v n (nesting (FmBinary a b c)) ?m (FmBinary a b c) (printed (FmBinary a b c))"
    if "nesting (FmBinary a b c) \<le> n" for n
    unfolding reads_chain_def whole
  proof (intro allI impI)
    fix p us and k :: nat
    let ?r = "calls_at v n"
    assume p: "ahead p = (?ls @ ?op # ?rs) @ us" "k \<le> ?m" "follows ?m us"
      "ps_expr_depth p + nesting (FmBinary a b c) \<le> max_expr_depth"
    have n: "nesting_at ?m a \<le> n" "nesting_at (Suc ?m) c < n"
      "ps_expr_depth p + nesting_at ?m a \<le> max_expr_depth"
      "ps_expr_depth p + Suc (nesting_at (Suc ?m) c) \<le> max_expr_depth"
      using that p(4) by (simp_all add: nesting_at_def Suc_le_eq split: if_splits)
    let ?p1 = "moved (length ?ls) p"
    let ?p2 = "moved (Suc (length ?ls)) p"
    let ?p3 = "moved (Suc (length ?ls) + length ?rs) p"
    have p1: "ahead ?p1 = ?op # ?rs @ us" and p2: "ahead ?p2 = ?rs @ us" using p(1) by simp_all
    have rs: "?rs \<noteq> []" "hd ?rs \<noteq> (TkLiteral LiIdent, ascii ''panic'')"
      using printed_first [of c] printed_no_panic [OF assms(3)] by (auto simp: printed_at_def wrapped_def)
    have "follows ?m (?op # ?rs @ us)"
      using rs by (cases ?rs; cases b) (auto simp: follows_def quiet_def calm_def panics_def)
    then obtain y where y: "built a y" "operations ?r k p = parse_binary_op ?r k y ?p1"
      using reads_chainD [OF chain_at [OF assms(1) n(1)], of p "?op # ?rs @ us" k] p(1,2) n(3) by auto
    obtain z where z: "built c z" "c_prec ?r (Suc ?m) ?p2 = Some (Inr z, ?p3)"
      using prec_at [OF assms(2) n(2) p2 follows_ends [OF p(3)]] n(4) by auto
    let ?x = "Expr (EBinary y b z) (merge_spans (ex_span y) (ex_span z))"
    have "binary_follows k y ?p1"
      using p(2) by (simp add: binary_follows_def current_kind_ahead p(1))
    moreover have "binary_operation ?r y ?p1 = Some (Inr ?x, ?p3)"
      by (simp add: binary_operation_def kind_ahead [OF p1] advance_ahead [OF p1] ret_def
          map_err_bind [of "c_prec ?r (Suc ?m)" ?p2 z ?p3, OF z(2), simplified])
    ultimately have "operations ?r k p = parse_binary_op ?r k ?x ?p3"
      using y(2) by (simp add: parse_binary_op_def loop.simps [of _ _ y ?p1])
    then show "\<exists>x. built (FmBinary a b c) x \<and>
        operations ?r k p = parse_binary_op ?r k x (moved (length (?ls @ ?op # ?rs)) p)"
      using y(1) z(1) by (intro exI [of _ ?x]) simp
  qed
  then show ?thesis using precedence_bounds(2) [of b] by (simp add: reads_def)
qed

lemma formula_reads: "no_panic e \<Longrightarrow> reads v e"
proof (induction e)
  case (FmName s)
  show ?case by (rule reads_of_operand) (simp_all add: name_operand)
next
  case (FmBool b)
  show ?case by (rule reads_of_operand) (auto intro!: constant_operand simp: primary_of_def)
next
  case FmNil
  show ?case by (rule reads_of_operand) (auto intro!: constant_operand simp: primary_of_def)
qed (simp_all add: unary_reads binary_reads index_reads try_reads)

end
