(* ===== verification/Parse_Checks.thy ===== *)
theory Parse_Checks
  imports Parse_Round
begin

text \<open>
  The parser on whole sources: it returns with fuel for the length of the source, keeps its tokens and
  its nesting depths, and reads printed formulas back.
\<close>

section \<open>Sources\<close>

lemma loop_ends:
  fixes c :: "'a \<Rightarrow> parser \<Rightarrow> bool"
  assumes "loop c body s p = Some y"
  shows "fst y = Inr t \<longrightarrow> \<not> c t (snd y)"
proof (rule loop.raw_induct [of "\<lambda>c b s p y. fst y = Inr t \<longrightarrow> \<not> c t (snd y)", OF _ assms])
  fix f :: "('a \<Rightarrow> parser \<Rightarrow> bool) \<Rightarrow> ('a \<Rightarrow> 'a parse) \<Rightarrow> 'a \<Rightarrow> 'a parse" and c b s p y
  assume "\<And>c b s p y. f c b s p = Some y \<Longrightarrow> fst y = Inr t \<longrightarrow> \<not> c t (snd y)"
  note hyp = this [of c b _ _ y]
  assume "(if c s p then case b s p of None \<Rightarrow> None | Some (Inl e, q) \<Rightarrow> Some (Inl e, q)
      | Some (Inr u, q) \<Rightarrow> f c b u q else Some (Inr s, p)) = Some y"
  then show "fst y = Inr t \<longrightarrow> \<not> c t (snd y)"
    by (auto split: if_splits option.splits sum.splits prod.splits dest: hyp)
qed

lemma program_reads_all: "parse_program r p = Some (Inr prog, q) \<Longrightarrow> is_at_end q"
  by (auto simp: parse_program_def parse_items_def bindp_def gets_def dest!: loop_ends
      split: option.splits sum.splits prod.splits)

lemma ascii_classes: "unicode_classes ascii_letter ascii_alphanumeric"
  by (simp add: unicode_classes_def ascii_alphanumeric_def)

lemma ascii_environment_classes [simp]:
  "env_alphabetic (ascii_environment f) = ascii_letter"
  "env_alphanumeric (ascii_environment f) = ascii_alphanumeric"
  by (simp_all add: ascii_environment_def)

text \<open>C8. parsing ends on every source text, with fuel for one call more than the source has characters, and
  gives a program: an error of an item never stops it.\<close>

theorem parse_source_returns:
  assumes "unicode_classes (env_alphabetic v) (env_alphanumeric v)" "length src < fuel"
  shows "\<exists>prog q. parse_source v fuel src file_id = Some (Inr prog, q)"
  using program_returns [OF assms(1), of "new_parser v src file_id" fuel] source_fuel [OF assms(1), of src file_id]
    assms(2)
  by (auto simp: parse_source_def)

theorem parse_source_returns_witness:
  "\<exists>prog q. parse_source (ascii_environment (\<lambda>_. None)) 20 (ascii ''fn f() => (1 +'') 0 = Some (Inr prog, q)"
  by (rule parse_source_returns) (simp_all add: ascii_classes ascii_def)

text \<open>C9. the program is read up to the end of the file from the tokens the lexer gave; the errors of the lexer
  come first; and unless the parser adds one, every nesting depth is back at zero.\<close>

theorem parse_source_state:
  assumes "unicode_classes (env_alphabetic v) (env_alphanumeric v)" "length src < fuel"
    and "parse_source v fuel src file_id = Some (x, q)"
  shows "is_at_end q \<and> ps_tokens q = fst (tokenize (env_alphabetic v) (env_alphanumeric v) (new_lexer src file_id)) \<and>
    (\<exists>es. ps_errors q = map lexer_error (filter (\<lambda>t. tk_kind t = TkError) (ps_tokens q)) @ es \<and>
      (es \<noteq> [] \<or> ps_loop_depth q = 0 \<and> ps_fn_depth q = 0 \<and> ps_expr_depth q = 0))"
proof -
  let ?p = "new_parser v src file_id"
  obtain prog where prog: "parse_source v fuel src file_id = Some (Inr prog, q)" and q: "later ?p q" "restored ?p q"
    using program_returns [OF assms(1), of ?p fuel] source_fuel [OF assms(1), of src file_id] assms(2,3)
    by (auto simp: parse_source_def)
  have start: "fold (\<lambda>t. push_error (lexer_error t)) us p = p\<lparr>ps_errors := ps_errors p @ map lexer_error us\<rparr>" for us p
    by (induction us arbitrary: p) (simp_all add: push_error_def)
  have "is_at_end q" using prog program_reads_all by (auto simp: parse_source_def)
  then show ?thesis
    using q by (auto simp: later_def restored_def new_parser_def parser_from_tokens_def collect_lexer_errors_def start)
qed

theorem parse_source_state_witness:
  "\<exists>prog q. parse_source (ascii_environment (\<lambda>_. None)) 20 (ascii ''let x = a;'') 0 = Some (Inr prog, q) \<and> is_at_end q"
proof -
  let ?v = "ascii_environment (\<lambda>_. None)"
  obtain prog q where p: "parse_source ?v 20 (ascii ''let x = a;'') 0 = Some (Inr prog, q)"
    using program_returns [OF ascii_classes [folded ascii_environment_classes [of "\<lambda>_. None"]], of "new_parser ?v (ascii ''let x = a;'') 0" 20]
      source_fuel [of ?v "ascii ''let x = a;''" 0] ascii_classes
    by (auto simp: parse_source_def ascii_def)
  have "is_at_end q" using parse_source_state [OF _ _ p] by (simp add: ascii_classes ascii_def)
  then show ?thesis using p by blast
qed

section \<open>Formulas\<close>

text \<open>C7. a formula printed with the parentheses its operators need and no others is read back as the same
  formula, whatever the spans, and the parser stops behind it.\<close>

theorem formula_round_trip:
  assumes "ahead p = printed e @ us" "ends 0 us" "no_panic e"
    and "nesting e \<le> n" "ps_expr_depth p + nesting e < max_expr_depth"
  shows "\<exists>x. built e x \<and> parse_expression (calls_at v n) p = Some (Inr x, moved (length (printed e)) p)"
  using prec_at [OF formula_reads [OF assms(3)], of 0 "Suc n" p us v] assms
  by (simp add: printed_at_def nesting_at_def wrapped_def parse_expression_def Let_def)

definition sample_formula :: formula where
  "sample_formula =
     FmBinary (FmBinary (FmName (ascii ''a'')) BoSub (FmIndex (FmBinary (FmName (ascii ''b'')) BoOr FmNil) (FmBool True)))
       BoMul (FmUnary UoNeg (FmBinary (FmName (ascii ''c'')) BoAdd (FmTry (FmName (ascii ''d'')))))"

definition sample_parser :: parser where
  "sample_parser =
     parser_from_tokens (map (\<lambda>(k, s). new_token k s dummy_span) (printed sample_formula @ [(TkPunct PuSemi, [])])) 0"

theorem formula_round_trip_witness:
  "\<exists>x. built sample_formula x \<and>
    parse_expression (calls_at (ascii_environment (\<lambda>_. None)) 10) sample_parser =
      Some (Inr x, moved (length (printed sample_formula)) sample_parser)"
  by (rule formula_round_trip [where us = "[(TkPunct PuSemi, [])]"])
    (simp_all add: sample_formula_def sample_parser_def ahead_def parser_from_tokens_def
      collect_lexer_errors_def sketch_of_def new_token_def wrapped_def ascii_def ends_def quiet_def calm_def
      panics_def max_expr_depth_def)

text \<open>A prefix operator takes one primary expression, so that a second prefix operator is an error.\<close>

lemma doubled_prefix_is_rejected:
  assumes "ahead p = (unary_op_kind u, a) # (unary_op_kind w, b) # us"
  shows "\<exists>e. parse_unary r p = Some (Inl e, moved 1 p)"
proof -
  have q: "ahead (moved 1 p) = (unary_op_kind w, b) # us" using assms by simp
  have "\<exists>e. parse_primary r (moved 1 p) = Some (Inl e, moved 1 p)"
    using kind_ahead [OF q] by (cases w) (simp_all add: parse_primary_def primary_of_def fail_with_def)
  then obtain e where "parse_primary r (moved 1 p) = Some (Inl e, moved 1 p)" by blast
  then have "bindp (map_err g (parse_primary r)) f (moved 1 p) = Some (Inl (g e (moved 1 p)), moved 1 p)"
    for g and f :: "expr \<Rightarrow> expr parse"
    by (simp add: bindp_def map_err_def)
  then show ?thesis
    by (simp add: parse_unary_def kind_ahead [OF assms] advance_ahead [OF assms])
qed

section \<open>Errors inside expressions\<close>



end
