(* ===== verification/Mig_Extract.thy ===== *)
theory Mig_Extract
  imports Mig_Schema Hir_Types
begin

text \<open>
  The schema extractor (\<open>doo_migrate/src/extract.rs\<close>): from the high-level representation of a program
  and its type registry to the schema it declares, by the decorators of its structs and by the calls that
  create tables at run time. Reading the files and resolving the imports are left out.

  The recursion over types runs on fuel: \<open>None\<close> is fuel that was not enough. The case tables of Unicode
  and the display of a float are the standard library's and parameters; hash maps that are iterated have
  their order as an argument.
\<close>

section \<open>Texts\<close>

record text_tables =
  tt_is_upper :: "nat \<Rightarrow> bool"
  tt_first_lower :: "nat \<Rightarrow> nat"
  tt_lowercase :: "ustr \<Rightarrow> ustr"
  tt_float :: "64 word \<Rightarrow> string"

text \<open>The bytes of a text.\<close>

definition utf8_char :: "nat \<Rightarrow> string" where
  "utf8_char c =
     map char_of
       (if c < 0x80 then [c]
        else if c < 0x800 then [0xC0 + c div 0x40, 0x80 + c mod 0x40]
        else if c < 0x10000 then [0xE0 + c div 0x1000, 0x80 + c div 0x40 mod 0x40, 0x80 + c mod 0x40]
        else [0xF0 + c div 0x40000, 0x80 + c div 0x1000 mod 0x40, 0x80 + c div 0x40 mod 0x40, 0x80 + c mod 0x40])"

definition utf8 :: "ustr \<Rightarrow> string" where
  "utf8 s = concat (map utf8_char s)"

definition snake_char :: "text_tables \<Rightarrow> nat \<times> nat \<Rightarrow> ustr" where
  "snake_char t = (\<lambda>(i, c).
     if tt_is_upper t c then (if 0 < i then ascii ''_'' else []) @ [tt_first_lower t c] else [c])"

definition to_snake_case :: "text_tables \<Rightarrow> ustr \<Rightarrow> string" where
  "to_snake_case t name = utf8 (concat (map (snake_char t) (zip [0..<length name] name)))"

fun split_on :: "char \<Rightarrow> string \<Rightarrow> string list" where
  "split_on c [] = [[]]"
| "split_on c (x # s) =
     (if x = c then [] # split_on c s
      else case split_on c s of [] \<Rightarrow> [[x]] | y # ys \<Rightarrow> (x # y) # ys)"

definition find_map :: "('a \<Rightarrow> 'b option) \<Rightarrow> 'a list \<Rightarrow> 'b option" where
  "find_map f xs = (case List.map_filter f xs of [] \<Rightarrow> None | y # _ \<Rightarrow> Some y)"

section \<open>Decorators\<close>

definition has_decorator :: "string \<Rightarrow> hir_decorator list \<Rightarrow> bool" where
  "has_decorator name ds = list_ex (\<lambda>d. hd_name d = ascii name) ds"

text \<open>The name a decorator's argument stands for.\<close>

definition reference_name :: "hir_expr \<Rightarrow> ustr option" where
  "reference_name e =
     (case he_kind e of
        HConst (HcStr s) \<Rightarrow> Some s
      | HLocal n \<Rightarrow> Some n
      | HGlobal n \<Rightarrow> Some n
      | _ \<Rightarrow> None)"

definition decorator_arg_text :: "text_tables \<Rightarrow> hir_expr \<Rightarrow> string" where
  "decorator_arg_text t e =
     (case he_kind e of
        HConst (HcStr s) \<Rightarrow> utf8 s
      | HConst (HcInt n) \<Rightarrow> show_int (sint n)
      | HConst (HcFloat f) \<Rightarrow> tt_float t f
      | HConst (HcBool b) \<Rightarrow> (if b then ''true'' else ''false'')
      | HLocal n \<Rightarrow> utf8 n
      | HGlobal n \<Rightarrow> utf8 n
      | _ \<Rightarrow> [])"

definition decorator_to_string :: "text_tables \<Rightarrow> hir_decorator \<Rightarrow> string" where
  "decorator_to_string t d =
     (if hd_args d = [] then ''@'' @ utf8 (hd_name d)
      else ''@'' @ utf8 (hd_name d) @ ''('' @ str_join '', '' (map (decorator_arg_text t) (hd_args d)) @ '')'')"

definition first_text_arg :: "hir_decorator \<Rightarrow> string option" where
  "first_text_arg d =
     (case hd_args d of
        e # _ \<Rightarrow> (case he_kind e of HConst (HcStr s) \<Rightarrow> Some (utf8 s) | _ \<Rightarrow> None)
      | [] \<Rightarrow> None)"

definition custom_table_name :: "hir_struct \<Rightarrow> string option" where
  "custom_table_name s =
     find_map (\<lambda>d. if hd_name d = ascii ''table'' then first_text_arg d else None) (hsr_decorators s)"

definition default_table_name :: "text_tables \<Rightarrow> ustr \<Rightarrow> string" where
  "default_table_name t name = utf8 (tt_lowercase t name) @ ''s''"

type_synonym struct_table = "ustr \<rightharpoonup> hir_struct \<times> bool"

definition resolve_table_name :: "text_tables \<Rightarrow> struct_table \<Rightarrow> ustr \<Rightarrow> string" where
  "resolve_table_name t structs name =
     (case Option.bind (structs name) (\<lambda>(s, _). custom_table_name s) of
        Some n \<Rightarrow> n
      | None \<Rightarrow> default_table_name t name)"

definition const_default :: "text_tables \<Rightarrow> hir_expr \<Rightarrow> default_value option" where
  "const_default t e =
     (case he_kind e of
        HConst (HcInt n) \<Rightarrow> Some (DInteger (sint n))
      | HConst (HcFloat f) \<Rightarrow> Some (DFloat (tt_float t f))
      | HConst (HcBool b) \<Rightarrow> Some (DBoolean b)
      | HConst (HcStr s) \<Rightarrow> Some (DString (utf8 s))
      | _ \<Rightarrow> None)"

definition field_default :: "text_tables \<Rightarrow> hir_field \<Rightarrow> default_value option" where
  "field_default t f =
     find_map (\<lambda>d. if hd_name d = ascii ''default''
       then (case hd_args d of e # _ \<Rightarrow> const_default t e | [] \<Rightarrow> None) else None) (hfd_decorators f)"

section \<open>Implicit tables\<close>

text \<open>Structs for which a call of the server creates a table, with its name; the first call counts.\<close>

type_synonym implicit_tables = "(ustr \<times> string) list"

definition or_insert :: "ustr \<Rightarrow> string \<Rightarrow> implicit_tables \<Rightarrow> implicit_tables" where
  "or_insert k v m = (if k \<in> fst ` set m then m else m @ [(k, v)])"

definition find_struct_arg :: "struct_table \<Rightarrow> hir_expr list \<Rightarrow> ustr option" where
  "find_struct_arg structs args =
     find_map (\<lambda>e. case reference_name e of
       Some n \<Rightarrow> if structs n \<noteq> None then Some n else None | None \<Rightarrow> None) args"

definition is_path_name :: "string \<Rightarrow> bool" where
  "is_path_name s \<longleftrightarrow>
     s \<noteq> [] \<and> \<not> eq_ignore_ascii_case s ''api'' \<and> \<not> eq_ignore_ascii_case s ''v1'' \<and>
     \<not> eq_ignore_ascii_case s ''v2'' \<and> parse_i64 s = None"

definition extract_crud_table_name :: "hir_expr list \<Rightarrow> string" where
  "extract_crud_table_name args =
     (case args of
        [] \<Rightarrow> ''unknown''
      | e # _ \<Rightarrow>
          (case he_kind e of
             HConst (HcStr path) \<Rightarrow>
               (let p = dropWhile (\<lambda>c. c = CHR ''/'') (utf8 path); segs = filter is_path_name (split_on (CHR ''/'') p)
                in if segs \<noteq> [] then last segs else p)
           | _ \<Rightarrow> ''unknown''))"

definition register_implicit :: "struct_table \<Rightarrow> ustr \<Rightarrow> hir_expr list \<Rightarrow> implicit_tables \<Rightarrow> implicit_tables" where
  "register_implicit structs meth args m =
     (if meth = ascii ''auth'' then
        (case find_struct_arg structs args of Some s \<Rightarrow> or_insert s ''users'' m | None \<Rightarrow> m)
      else if meth = ascii ''crud'' then
        (case find_struct_arg structs args of
           Some s \<Rightarrow> or_insert s (extract_crud_table_name args) m | None \<Rightarrow> m)
      else m)"

function walk_expr :: "struct_table \<Rightarrow> hir_expr \<Rightarrow> implicit_tables \<Rightarrow> implicit_tables"
  and collect_calls :: "struct_table \<Rightarrow> hir_stmt \<Rightarrow> implicit_tables \<Rightarrow> implicit_tables"
where
  "walk_expr t (HirExpr kind ty s) m =
    (case kind of
      HMethodCall _ meth args \<Rightarrow> fold (walk_expr t) args (register_implicit t meth args m)
    | HCall f args \<Rightarrow> fold (walk_expr t) args (walk_expr t f m)
    | HField e _ \<Rightarrow> walk_expr t e m
    | HIndex e i \<Rightarrow> walk_expr t i (walk_expr t e m)
    | HBinOp _ l r \<Rightarrow> walk_expr t r (walk_expr t l m)
    | HUnaryOp _ e \<Rightarrow> walk_expr t e m
    | HStruct _ fs \<Rightarrow> fold (\<lambda>(_, v) m. walk_expr t v m) fs m
    | HBlock ss e \<Rightarrow>
        (let m = fold (collect_calls t) ss m in case e of Some x \<Rightarrow> walk_expr t x m | None \<Rightarrow> m)
    | HIf cond a b \<Rightarrow>
        (let m = walk_expr t a (walk_expr t cond m) in case b of Some x \<Rightarrow> walk_expr t x m | None \<Rightarrow> m)
    | HMatch vs arms \<Rightarrow>
        fold (\<lambda>arm m.
            case arm of HirMatchArm p g body _ \<Rightarrow>
              (let m = walk_expr t body m in case g of Some x \<Rightarrow> walk_expr t x m | None \<Rightarrow> m))
          arms (fold (walk_expr t) vs m)
    | HArray es \<Rightarrow> fold (walk_expr t) es m
    | HTuple es \<Rightarrow> fold (walk_expr t) es m
    | HMap kvs \<Rightarrow> fold (\<lambda>(k, v) m. walk_expr t v (walk_expr t k m)) kvs m
    | HOk e \<Rightarrow> walk_expr t e m
    | HErr e \<Rightarrow> walk_expr t e m
    | HTry e \<Rightarrow> walk_expr t e m
    | HUnwrapOrPanic e msg \<Rightarrow> walk_expr t msg (walk_expr t e m)
    | HRange a b _ \<Rightarrow> walk_expr t b (walk_expr t a m)
    | HRouteBlock es \<Rightarrow> fold (walk_expr t) es m
    | HMove e \<Rightarrow> walk_expr t e m
    | HClone e \<Rightarrow> walk_expr t e m
    | HAwait e \<Rightarrow> walk_expr t e m
    | HBorrow e _ \<Rightarrow> walk_expr t e m
    | HClosure _ e \<Rightarrow> walk_expr t e m
    | HCast e _ \<Rightarrow> walk_expr t e m
    | HSpawn e \<Rightarrow> walk_expr t e m
    | HScopeBlock ss \<Rightarrow> fold (collect_calls t) ss m
    | HConst _ \<Rightarrow> m
    | HLocal _ \<Rightarrow> m
    | HGlobal _ \<Rightarrow> m
    | HEnumVariant _ _ _ \<Rightarrow> m
    | HSpread _ \<Rightarrow> m)"
| "collect_calls t (HirStmt kind s) m =
    (case kind of
      SExpr e \<Rightarrow> walk_expr t e m
    | SLet _ _ e _ _ \<Rightarrow> walk_expr t e m
    | SAssign target v \<Rightarrow> walk_expr t v (walk_expr t target m)
    | SReturn es \<Rightarrow> fold (walk_expr t) es m
    | SIf cond a b \<Rightarrow>
        (let m = fold (collect_calls t) a (walk_expr t cond m)
         in case b of Some ss \<Rightarrow> fold (collect_calls t) ss m | None \<Rightarrow> m)
    | SWhile cond body _ \<Rightarrow> fold (collect_calls t) body (walk_expr t cond m)
    | SManualErrorExtract _ _ e \<Rightarrow> walk_expr t e m
    | _ \<Rightarrow> m)"
  by pat_completeness auto
termination
  by (relation "measure (\<lambda>a. case a of Inl (t, e, m) \<Rightarrow> size e | Inr (t, s, m) \<Rightarrow> size s)")
    (auto simp: termination_simp)

definition discover_implicit_tables :: "hir_program \<Rightarrow> struct_table \<Rightarrow> implicit_tables" where
  "discover_implicit_tables p structs =
     fold (\<lambda>i m. case i of IFunction f \<Rightarrow> fold (collect_calls structs) (hf_body f) m | _ \<Rightarrow> m) (hpr_items p) []"

section \<open>Types of columns\<close>

text \<open>What an extraction looks up: the case tables, the registered types, the structs of the program with
  their table flag, the names of those that are tables, and the variants of its enums.\<close>

record extract_env =
  xe_text :: text_tables
  xe_types :: registry
  xe_structs :: struct_table
  xe_tables :: "ustr set"
  xe_enums :: "ustr \<rightharpoonup> string list"

definition is_enum :: "extract_env \<Rightarrow> ustr \<Rightarrow> bool" where
  "is_enum env name \<longleftrightarrow> xe_enums env name \<noteq> None"

definition enum_column :: "extract_env \<Rightarrow> ustr \<Rightarrow> sql_type \<Rightarrow> ustr set \<Rightarrow> sql_type \<times> ustr set" where
  "enum_column env name other es =
     (if is_enum env name then (EnumT (to_snake_case (xe_text env) name), insert name es) else (other, es))"

primrec resolve_sql_type ::
  "nat \<Rightarrow> extract_env \<Rightarrow> tid option \<Rightarrow> bool \<Rightarrow> ustr set \<Rightarrow> (sql_type \<times> ustr set) option" where
  "resolve_sql_type 0 env t is_auto es = None"
| "resolve_sql_type (Suc n) env t is_auto es =
     (case t of
        None \<Rightarrow> Some (Text, es)
      | Some i \<Rightarrow>
          if i = ty_int then Some (if is_auto then Serial else Integer, es)
          else if i = ty_float then Some (DoublePrecision, es)
          else if i = ty_bool then Some (Boolean, es)
          else if i = ty_str then Some (Text, es)
          else (case reg_get (xe_types env) i of
                  None \<Rightarrow> Some (Text, es)
                | Some info \<Rightarrow>
                    (case ti_kind info of
                       TyStruct name _ _ \<Rightarrow> Some (enum_column env name Jsonb es)
                     | TyEnum name _ \<Rightarrow> Some (enum_column env name Text es)
                     | TyArray _ \<Rightarrow> Some (Jsonb, es)
                     | TyMap _ _ \<Rightarrow> Some (Jsonb, es)
                     | TyOptional inner \<Rightarrow> resolve_sql_type n env (Some inner) is_auto es
                     | _ \<Rightarrow> Some (Text, es))))"

section \<open>What a type depends on\<close>

record type_deps =
  dp_enums :: "ustr set"
  dp_struct_refs :: "string list"
  dp_enum_refs :: "string list"
  dp_visited :: "ustr set"

definition mark_enum :: "extract_env \<Rightarrow> ustr \<Rightarrow> type_deps \<Rightarrow> type_deps" where
  "mark_enum env name d =
     (let sql = to_snake_case (xe_text env) name
      in if sql \<in> set (dp_enum_refs d) then d
         else d\<lparr>dp_enums := insert name (dp_enums d), dp_enum_refs := dp_enum_refs d @ [sql]\<rparr>)"

definition visit_struct :: "ustr \<Rightarrow> type_deps \<Rightarrow> type_deps" where
  "visit_struct name d =
     d\<lparr>dp_visited := insert name (dp_visited d), dp_struct_refs := push_new (dp_struct_refs d) (utf8 name)\<rparr>"

definition foreign_target :: "hir_decorator \<Rightarrow> ustr option" where
  "foreign_target d =
     (if hd_name d = ascii ''foreign'' then (case hd_args d of e # _ \<Rightarrow> reference_name e | [] \<Rightarrow> None) else None)"

definition note_foreign :: "extract_env \<Rightarrow> hir_decorator \<Rightarrow> type_deps \<Rightarrow> type_deps" where
  "note_foreign env dec d =
     (case foreign_target dec of
        Some n \<Rightarrow>
          if n \<in> xe_tables env
          then d\<lparr>dp_struct_refs := push_new (dp_struct_refs d) (resolve_table_name (xe_text env) (xe_structs env) n)\<rparr>
          else d
      | None \<Rightarrow> d)"

definition declared_field :: "extract_env \<Rightarrow> ustr \<Rightarrow> ustr \<Rightarrow> hir_field option" where
  "declared_field env struct fname =
     (case xe_structs env struct of
        Some (s, _) \<Rightarrow> hm_of (map (\<lambda>f. (hfd_name f, f)) (hsr_fields s)) fname
      | None \<Rightarrow> None)"

definition note_field :: "extract_env \<Rightarrow> ustr \<Rightarrow> ustr \<Rightarrow> type_deps \<Rightarrow> type_deps" where
  "note_field env struct fname d =
     (case declared_field env struct fname of
        Some f \<Rightarrow> fold (note_foreign env) (hfd_decorators f) d
      | None \<Rightarrow> d)"

text \<open>A loop whose body may run out of fuel.\<close>

fun fold_steps :: "('a \<Rightarrow> 's \<Rightarrow> 's option) \<Rightarrow> 'a list \<Rightarrow> 's \<Rightarrow> 's option" where
  "fold_steps f [] s = Some s"
| "fold_steps f (x # xs) s = Option.bind (f x s) (fold_steps f xs)"

primrec resolve_transitive_deps :: "nat \<Rightarrow> extract_env \<Rightarrow> tid option \<Rightarrow> type_deps \<Rightarrow> type_deps option" where
  "resolve_transitive_deps 0 env t d = None"
| "resolve_transitive_deps (Suc n) env t d =
     (case Option.bind t (reg_get (xe_types env)) of
        None \<Rightarrow> Some d
      | Some info \<Rightarrow>
          (case ti_kind info of
             TyEnum name _ \<Rightarrow> Some (if is_enum env name then mark_enum env name d else d)
           | TyStruct name fs _ \<Rightarrow>
               if is_enum env name then Some (mark_enum env name d)
               else if name \<in> xe_tables env then Some d
               else if name \<in> dp_visited d then Some d
               else fold_steps (\<lambda>(fname, t, _) d. resolve_transitive_deps n env (Some t) (note_field env name fname d))
                      fs (visit_struct name d)
           | TyArray e \<Rightarrow> resolve_transitive_deps n env (Some e) d
           | TyMap k v \<Rightarrow>
               Option.bind (resolve_transitive_deps n env (Some k) d) (resolve_transitive_deps n env (Some v))
           | TyOptional i \<Rightarrow> resolve_transitive_deps n env (Some i) d
           | TyResult t e \<Rightarrow>
               Option.bind (resolve_transitive_deps n env (Some t) d) (resolve_transitive_deps n env (Some e))
           | TyTuple es \<Rightarrow> fold_steps (\<lambda>t. resolve_transitive_deps n env (Some t)) es d
           | _ \<Rightarrow> Some d))"

definition check_non_table_struct_field ::
  "nat \<Rightarrow> extract_env \<Rightarrow> tid option \<Rightarrow> ustr set \<Rightarrow> string list \<Rightarrow> type_deps option" where
  "check_non_table_struct_field n env t es refs =
     resolve_transitive_deps n env t \<lparr>dp_enums = es, dp_struct_refs = refs, dp_enum_refs = [], dp_visited = {}\<rparr>"

section \<open>Tables\<close>

text \<open>The table under construction, the names of its key columns, and the enums columns refer to.\<close>

record table_build =
  tb_table :: table_def
  tb_keys :: "string list"
  tb_enums :: "ustr set"

definition field_is_optional :: "hir_field \<Rightarrow> bool" where
  "field_is_optional f \<longleftrightarrow>
     hfd_is_optional f \<or> has_decorator ''optional'' (hfd_decorators f) \<or> has_decorator ''internal'' (hfd_decorators f)"

definition field_is_auto :: "hir_field \<Rightarrow> bool" where
  "field_is_auto f \<longleftrightarrow> has_decorator ''auto'' (hfd_decorators f) \<or> has_decorator ''autoIncrement'' (hfd_decorators f)"

definition field_column :: "text_tables \<Rightarrow> hir_field \<Rightarrow> sql_type \<Rightarrow> column_def" where
  "field_column t f ty =
     \<lparr>col_name = to_snake_case t (hfd_name f), col_field_name = utf8 (hfd_name f), col_sql_type = ty,
      col_nullable = field_is_optional f, col_default = field_default t f, col_is_auto = field_is_auto f,
      col_is_primary = has_decorator ''primary'' (hfd_decorators f),
      col_is_unique = has_decorator ''unique'' (hfd_decorators f),
      col_is_index = has_decorator ''index'' (hfd_decorators f),
      col_is_hashed = has_decorator ''hash'' (hfd_decorators f),
      col_decorators = map (decorator_to_string t) (hfd_decorators f)\<rparr>"

definition field_foreign_keys :: "extract_env \<Rightarrow> string \<Rightarrow> hir_field \<Rightarrow> foreign_key_def list" where
  "field_foreign_keys env table f =
     (let col = to_snake_case (xe_text env) (hfd_name f)
      in map (\<lambda>n. \<lparr>fk_name = table @ ''_'' @ col @ ''_fkey'', fk_columns = [col],
                    fk_ref_table = resolve_table_name (xe_text env) (xe_structs env) n, fk_ref_columns = [''id''],
                    fk_on_delete = Cascade, fk_on_update = NoAction\<rparr>)
           (List.map_filter foreign_target (hfd_decorators f)))"

definition field_uniques :: "string \<Rightarrow> column_def \<Rightarrow> unique_constraint_def list" where
  "field_uniques table c =
     (if col_is_unique c
      then [\<lparr>uq_name = table @ ''_'' @ col_name c @ ''_key'', uq_columns = [col_name c]\<rparr>] else [])"

definition field_indexes :: "string \<Rightarrow> column_def \<Rightarrow> index_def list" where
  "field_indexes table c =
     (if col_is_index c
      then [\<lparr>idx_name = ''idx_'' @ table @ ''_'' @ col_name c, idx_columns = [col_name c], idx_unique = False\<rparr>]
      else [])"

definition put_column :: "extract_env \<Rightarrow> hir_field \<Rightarrow> column_def \<Rightarrow> table_def \<Rightarrow> table_def" where
  "put_column env f c tb =
     tb\<lparr>tbl_columns := tbl_columns tb @ [c],
        tbl_unique_constraints := tbl_unique_constraints tb @ field_uniques (tbl_name tb) c,
        tbl_foreign_keys := tbl_foreign_keys tb @ field_foreign_keys env (tbl_name tb) f,
        tbl_indexes := tbl_indexes tb @ field_indexes (tbl_name tb) c\<rparr>"

definition add_field :: "nat \<Rightarrow> extract_env \<Rightarrow> hir_field \<Rightarrow> table_build \<Rightarrow> table_build option" where
  "add_field n env f b =
     Option.bind (check_non_table_struct_field n env (hfd_type f) (tb_enums b) (tbl_struct_refs (tb_table b)))
       (\<lambda>d. Option.bind (resolve_sql_type n env (hfd_type f) (field_is_auto f) (dp_enums d))
         (\<lambda>(ty, es).
            let c = field_column (xe_text env) f ty;
                tb = (tb_table b)\<lparr>tbl_struct_refs := dp_struct_refs d,
                        tbl_transitive_enum_refs := foldl push_new (tbl_transitive_enum_refs (tb_table b)) (dp_enum_refs d)\<rparr>
            in Some \<lparr>tb_table = put_column env f c tb,
                     tb_keys = tb_keys b @ (if col_is_primary c then [col_name c] else []),
                     tb_enums = es\<rparr>))"

definition timestamp_column :: "string \<Rightarrow> string \<Rightarrow> column_def" where
  "timestamp_column name fname =
     \<lparr>col_name = name, col_field_name = fname, col_sql_type = TimestampTz, col_nullable = False,
      col_default = Some (DExpression ''NOW()''), col_is_auto = False, col_is_primary = False,
      col_is_unique = False, col_is_index = False, col_is_hashed = False, col_decorators = []\<rparr>"

definition add_timestamps :: "column_def list \<Rightarrow> column_def list" where
  "add_timestamps cs =
     cs @ (if ''created_at'' \<in> col_name ` set cs then [] else [timestamp_column ''created_at'' ''createdAt''])
        @ (if ''updated_at'' \<in> col_name ` set cs then [] else [timestamp_column ''updated_at'' ''updatedAt''])"

definition finish_table :: "bool \<Rightarrow> table_build \<Rightarrow> table_def" where
  "finish_table auto b =
     (let tb = tb_table b
      in tb\<lparr>tbl_columns := (if auto then add_timestamps (tbl_columns tb) else tbl_columns tb),
            tbl_primary_key := (if tb_keys b \<noteq> []
              then Some \<lparr>pk_name = tbl_name tb @ ''_pkey'', pk_columns = tb_keys b\<rparr> else None),
            tbl_auto_timestamp := auto,
            tbl_struct_refs := remdups_adj (sort (tbl_struct_refs tb)),
            tbl_transitive_enum_refs := remdups_adj (sort (tbl_transitive_enum_refs tb))\<rparr>)"

definition start_table :: "hir_struct \<Rightarrow> string \<Rightarrow> table_def" where
  "start_table s name =
     \<lparr>tbl_name = name, tbl_struct_name = utf8 (hsr_name s), tbl_columns = [], tbl_primary_key = None,
      tbl_unique_constraints = [], tbl_check_constraints = [], tbl_foreign_keys = [], tbl_indexes = [],
      tbl_auto_timestamp = False, tbl_struct_refs = [], tbl_transitive_enum_refs = []\<rparr>"

definition build_table_def_from_struct ::
  "nat \<Rightarrow> extract_env \<Rightarrow> hir_struct \<Rightarrow> string \<Rightarrow> ustr set \<Rightarrow> (table_def \<times> ustr set) option" where
  "build_table_def_from_struct n env s name es =
     map_option (\<lambda>b. (finish_table (has_decorator ''autoTimestamp'' (hsr_decorators s)) b, tb_enums b))
       (fold_steps (add_field n env) (hsr_fields s) \<lparr>tb_table = start_table s name, tb_keys = [], tb_enums = es\<rparr>)"

section \<open>The schema of a program\<close>

definition program_enums :: "hir_program \<Rightarrow> (ustr \<times> string list) list" where
  "program_enums p =
     List.map_filter (\<lambda>i. case i of
       IEnum e \<Rightarrow> Some (hen_name e, map (\<lambda>v. utf8 (hv_name v)) (hen_variants e)) | _ \<Rightarrow> None) (hpr_items p)"

definition program_structs :: "hir_program \<Rightarrow> hir_struct list" where
  "program_structs p = List.map_filter (\<lambda>i. case i of IStruct s \<Rightarrow> Some s | _ \<Rightarrow> None) (hpr_items p)"

definition is_table :: "hir_struct \<Rightarrow> bool" where
  "is_table s \<longleftrightarrow> has_decorator ''table'' (hsr_decorators s)"

definition all_structs :: "hir_program \<Rightarrow> struct_table" where
  "all_structs p = hm_of (map (\<lambda>s. (hsr_name s, s, is_table s)) (program_structs p))"

definition table_struct_names :: "hir_program \<Rightarrow> ustr set" where
  "table_struct_names p =
     set (filter (\<lambda>n. case all_structs p n of Some (_, table) \<Rightarrow> table | None \<Rightarrow> False)
       (map hsr_name (program_structs p)))
       \<union> fst ` set (discover_implicit_tables p (all_structs p))"

definition program_env :: "text_tables \<Rightarrow> hir_program \<Rightarrow> registry \<Rightarrow> extract_env" where
  "program_env t p r =
     \<lparr>xe_text = t, xe_types = r, xe_structs = all_structs p, xe_tables = table_struct_names p,
      xe_enums = hm_of (program_enums p)\<rparr>"

type_synonym extraction = "table_def list \<times> ustr set"

definition extract_table :: "nat \<Rightarrow> extract_env \<Rightarrow> hir_struct \<Rightarrow> extraction \<Rightarrow> extraction option" where
  "extract_table n env s = (\<lambda>(tbs, es).
     if is_table s then
       map_option (\<lambda>(tb, es). (tbs @ [tb], es))
         (build_table_def_from_struct n env s
            (case custom_table_name s of Some c \<Rightarrow> c | None \<Rightarrow> default_table_name (xe_text env) (hsr_name s)) es)
     else Some (tbs, es))"

definition extract_implicit :: "nat \<Rightarrow> extract_env \<Rightarrow> ustr \<times> string \<Rightarrow> extraction \<Rightarrow> extraction option" where
  "extract_implicit n env = (\<lambda>(sname, name) (tbs, es).
     if utf8 sname \<in> tbl_struct_name ` set tbs then Some (tbs, es)
     else (case xe_structs env sname of
             Some (s, _) \<Rightarrow>
               map_option (\<lambda>(tb, es). (tbs @ [tb], es)) (build_table_def_from_struct n env s name es)
           | None \<Rightarrow> Some (tbs, es)))"

definition extract_enum :: "text_tables \<Rightarrow> ustr \<times> string list \<Rightarrow> enum_type_def" where
  "extract_enum t = (\<lambda>(name, vs). \<lparr>en_name = to_snake_case t name, en_enum_name = utf8 name, en_variants = vs\<rparr>)"

type_synonym name_order = "ustr list \<Rightarrow> ustr list"

definition extract_from_hir ::
  "name_order \<Rightarrow> name_order \<Rightarrow> nat \<Rightarrow> text_tables \<Rightarrow> hir_program \<Rightarrow> registry \<Rightarrow> database_schema option" where
  "extract_from_hir ot oe n t p r =
     (let env = program_env t p r
      in map_option (\<lambda>(tbs, es).
           \<lparr>db_tables = tbs,
            db_enums = map (extract_enum t) (filter (\<lambda>(name, _). name \<in> es) (hm_iter oe (program_enums p)))\<rparr>)
         (Option.bind (fold_steps (extract_table n env) (program_structs p) ([], {}))
            (fold_steps (extract_implicit n env) (hm_iter ot (discover_implicit_tables p (all_structs p))))))"

end
