(* ===== verification/Mig_Reaching.thy ===== *)
theory Mig_Reaching
  imports Mig_Extract Core_Typing
begin

text \<open>
  What a column type depends on, as a graph: the edges between registered types, the enums at the end of
  its paths, and the proof that the depth-first search of the extraction marks exactly those enums although
  structs may mention each other in circles.
\<close>

section \<open>Loops\<close>

lemma fold_steps_returns:
  assumes "\<And>x s. x \<in> set xs \<Longrightarrow> P s \<Longrightarrow> \<exists>s'. f x s = Some s' \<and> P s'" and "P s"
  shows "\<exists>s'. fold_steps f xs s = Some s' \<and> P s'"
  using assms by (induction xs arbitrary: s) (auto, metis bind.bind_lunit)

lemma fold_steps_invariant:
  assumes "fold_steps f xs s = Some s'" and "P s"
    and "\<And>x s s'. x \<in> set xs \<Longrightarrow> P s \<Longrightarrow> f x s = Some s' \<Longrightarrow> P s'"
  shows "P s'"
  using assms by (induction xs arbitrary: s) (auto simp: bind_eq_Some_conv)

lemma fold_invariant:
  assumes "P s" and "\<And>x s. x \<in> set xs \<Longrightarrow> P s \<Longrightarrow> P (f x s)"
  shows "P (fold f xs s)"
  using assms by (induction xs arbitrary: s) auto

section \<open>The graph of types\<close>

text \<open>An array, a map, an optional, a result and a tuple lead to the types they are made of; a struct leads to
  the types of its fields, unless it is the placeholder of an enum or has a table of its own.\<close>

definition nested_type :: "extract_env \<Rightarrow> tid \<Rightarrow> tid \<Rightarrow> bool" where
  "nested_type env i j \<longleftrightarrow>
     (\<exists>info. reg_get (xe_types env) i = Some info \<and>
        (case ti_kind info of
           TyArray e \<Rightarrow> j = e
         | TyMap k v \<Rightarrow> j = k \<or> j = v
         | TyOptional e \<Rightarrow> j = e
         | TyResult t e \<Rightarrow> j = t \<or> j = e
         | TyTuple es \<Rightarrow> j \<in> set es
         | TyStruct name fs _ \<Rightarrow> \<not> is_enum env name \<and> name \<notin> xe_tables env \<and> j \<in> (fst \<circ> snd) ` set fs
         | _ \<Rightarrow> False))"

definition enum_type :: "extract_env \<Rightarrow> tid \<Rightarrow> ustr \<Rightarrow> bool" where
  "enum_type env i name \<longleftrightarrow> is_enum env name \<and>
     (\<exists>info. reg_get (xe_types env) i = Some info \<and>
        (case ti_kind info of TyEnum m _ \<Rightarrow> m = name | TyStruct m _ _ \<Rightarrow> m = name | _ \<Rightarrow> False))"

definition reachable_enums :: "extract_env \<Rightarrow> tid \<Rightarrow> ustr set" where
  "reachable_enums env i = {name. \<exists>j. (nested_type env)\<^sup>*\<^sup>* i j \<and> enum_type env j name}"

lemma reachable_enums_here: "enum_type env i name \<Longrightarrow> name \<in> reachable_enums env i"
  by (auto simp: reachable_enums_def)

lemma reachable_enums_step: "nested_type env i j \<Longrightarrow> reachable_enums env j \<subseteq> reachable_enums env i"
  by (auto simp: reachable_enums_def intro: converse_rtranclp_into_rtranclp)

section \<open>The search marks only enums it can reach\<close>

definition sql_names :: "extract_env \<Rightarrow> ustr set \<Rightarrow> string set" where
  "sql_names env es = to_snake_case (xe_text env) ` es"

lemma note_foreign_keeps [simp]:
  "dp_visited (fold (note_foreign env) ds d) = dp_visited d"
  "dp_enum_refs (fold (note_foreign env) ds d) = dp_enum_refs d"
  by (induction ds arbitrary: d) (auto simp: note_foreign_def split: option.split)

lemma visited_simps [simp]:
  "dp_visited (mark_enum env name d) = dp_visited d"
  "dp_visited (visit_struct name d) = insert name (dp_visited d)"
  "dp_visited (note_field env s f d) = dp_visited d"
  by (auto simp: mark_enum_def visit_struct_def note_field_def Let_def split: option.split)

lemma enum_refs_simps [simp]:
  "set (dp_enum_refs (mark_enum env name d)) = insert (to_snake_case (xe_text env) name) (set (dp_enum_refs d))"
  "dp_enum_refs (visit_struct name d) = dp_enum_refs d"
  "dp_enum_refs (note_field env s f d) = dp_enum_refs d"
  by (auto simp: mark_enum_def visit_struct_def note_field_def Let_def split: option.split)

lemma search_is_sound:
  "resolve_transitive_deps n env (Some i) d = Some d' \<Longrightarrow>
    set (dp_enum_refs d') \<subseteq> set (dp_enum_refs d) \<union> sql_names env (reachable_enums env i)"
proof (induction n arbitrary: i d d')
  case (Suc n)
  show ?case
  proof (cases "reg_get (xe_types env) i")
    case (Some info)
    have inner: "set (dp_enum_refs e') \<subseteq> set (dp_enum_refs e) \<union> sql_names env (reachable_enums env i)"
      if "resolve_transitive_deps n env (Some j) e = Some e'" "nested_type env i j" for j e e'
      using Suc.IH [OF that(1)] reachable_enums_step [OF that(2)] by (force simp: sql_names_def)
    let ?P = "\<lambda>e. set (dp_enum_refs e) \<subseteq> set (dp_enum_refs d) \<union> sql_names env (reachable_enums env i)"
    note here = reachable_enums_here [of env i]
    show ?thesis
    proof (cases "ti_kind info")
      case (TyStruct name fs ms)
      have "?P d'" if "\<not> is_enum env name" "name \<notin> xe_tables env"
        "fold_steps (\<lambda>(f, t, _) d. resolve_transitive_deps n env (Some t) (note_field env name f d)) fs
          (visit_struct name d) = Some d'"
        using that(3)
      proof (rule fold_steps_invariant)
        fix x e e'
        assume x: "x \<in> set fs" "?P e"
          "(case x of (f, t, _) \<Rightarrow> \<lambda>d. resolve_transitive_deps n env (Some t) (note_field env name f d)) e = Some e'"
        obtain f t b where f: "x = (f, t, b)" by (cases x)
        have "nested_type env i t"
          using Some TyStruct that(1,2) x(1) f by (force simp: nested_type_def)
        then show "?P e'" using inner [of t "note_field env name f e" e'] x(2,3) f by auto
      qed simp
      then show ?thesis
        using Some TyStruct Suc.prems here [of name]
        by (auto simp: enum_type_def sql_names_def split: if_splits)
    next
      case (TyTuple es)
      have "fold_steps (\<lambda>t. resolve_transitive_deps n env (Some t)) es d = Some d'" using Suc.prems(1) Some TyTuple by simp
      then show ?thesis
      proof (rule fold_steps_invariant)
        show "?P e'" if "x \<in> set es" "?P e" "resolve_transitive_deps n env (Some x) e = Some e'" for x e e'
          using inner [OF that(3)] that(1,2) Some TyTuple by (auto simp: nested_type_def)
      qed simp
    next
      case (TyEnum name vs)
      then show ?thesis
        using Some Suc.prems here [of name] by (auto simp: enum_type_def sql_names_def split: if_splits)
    next
      case (TyMap k v)
      then obtain e where "resolve_transitive_deps n env (Some k) d = Some e"
        "resolve_transitive_deps n env (Some v) e = Some d'"
        using Suc.prems Some by (auto simp: bind_eq_Some_conv)
      then show ?thesis using inner [of k d e] inner [of v e d'] Some TyMap by (auto simp: nested_type_def)
    next
      case (TyResult k v)
      then obtain e where "resolve_transitive_deps n env (Some k) d = Some e"
        "resolve_transitive_deps n env (Some v) e = Some d'"
        using Suc.prems Some by (auto simp: bind_eq_Some_conv)
      then show ?thesis using inner [of k d e] inner [of v e d'] Some TyResult by (auto simp: nested_type_def)
    next
      case (TyArray j)
      then show ?thesis using Suc.prems Some inner [of j d d'] by (auto simp: nested_type_def)
    next
      case (TyOptional j)
      then show ?thesis using Suc.prems Some inner [of j d d'] by (auto simp: nested_type_def)
    qed (use Suc.prems Some in auto)
  qed (use Suc.prems in auto)
qed simp

section \<open>The search marks every enum it can reach\<close>

text \<open>A type is covered when the enums in it are marked and the structs in it visited, without entering them.\<close>

definition struct_at :: "extract_env \<Rightarrow> tid \<Rightarrow> ustr \<Rightarrow> (ustr \<times> tid \<times> bool) list \<Rightarrow> bool" where
  "struct_at env i name fs \<longleftrightarrow>
     (\<exists>info ms. reg_get (xe_types env) i = Some info \<and> ti_kind info = TyStruct name fs ms)"

definition part_of :: "extract_env \<Rightarrow> tid \<Rightarrow> tid \<Rightarrow> bool" where
  "part_of env i j \<longleftrightarrow> nested_type env i j \<and> (\<nexists>name fs. struct_at env i name fs)"

definition settled :: "extract_env \<Rightarrow> type_deps \<Rightarrow> tid \<Rightarrow> bool" where
  "settled env d i \<longleftrightarrow>
     (\<forall>name. enum_type env i name \<longrightarrow> to_snake_case (xe_text env) name \<in> set (dp_enum_refs d)) \<and>
     (\<forall>name fs. struct_at env i name fs \<and> \<not> is_enum env name \<and> name \<notin> xe_tables env \<longrightarrow> name \<in> dp_visited d)"

definition covered :: "extract_env \<Rightarrow> type_deps \<Rightarrow> tid \<Rightarrow> bool" where
  "covered env d i \<longleftrightarrow> (\<forall>j. (part_of env)\<^sup>*\<^sup>* i j \<longrightarrow> settled env d j)"

definition entered :: "extract_env \<Rightarrow> ustr set \<Rightarrow> type_deps \<Rightarrow> bool" where
  "entered env names d \<longleftrightarrow>
     (\<forall>name\<in>names. \<forall>i fs. struct_at env i name fs \<longrightarrow> (\<forall>(f, t, b)\<in>set fs. covered env d t))"

definition grows :: "type_deps \<Rightarrow> type_deps \<Rightarrow> bool" where
  "grows d d' \<longleftrightarrow> dp_visited d \<subseteq> dp_visited d' \<and> set (dp_enum_refs d) \<subseteq> set (dp_enum_refs d')"

definition searched :: "extract_env \<Rightarrow> tid set \<Rightarrow> type_deps \<Rightarrow> type_deps \<Rightarrow> bool" where
  "searched env is d d' \<longleftrightarrow>
     grows d d' \<and> (\<forall>i\<in>is. covered env d' i) \<and> entered env (dp_visited d' - dp_visited d) d'"

lemma covered_unfold: "covered env d i \<longleftrightarrow> settled env d i \<and> (\<forall>j. part_of env i j \<longrightarrow> covered env d j)"
  unfolding covered_def by (metis converse_rtranclp_into_rtranclp converse_rtranclpE rtranclp.rtrancl_refl)

lemma covered_grows: "covered env d i \<Longrightarrow> grows d d' \<Longrightarrow> covered env d' i"
  unfolding covered_def settled_def grows_def by (meson subsetD)

lemma entered_grows: "entered env names d \<Longrightarrow> grows d d' \<Longrightarrow> entered env names d'"
  unfolding entered_def using covered_grows by blast

lemma searched_trans:
  assumes "searched env is d e" "searched env js e d'"
  shows "searched env (is \<union> js) d d'"
proof -
  have "entered env (dp_visited e - dp_visited d) d'" "\<forall>i\<in>is. covered env d' i"
    using assms covered_grows entered_grows unfolding searched_def by blast+
  then show ?thesis using assms unfolding searched_def grows_def entered_def by blast
qed

lemma searched_none: "searched env {} d d"
  by (simp add: searched_def grows_def entered_def)

lemma searched_covers:
  assumes "searched env js d d'" "settled env d' i" "\<And>j. part_of env i j \<Longrightarrow> j \<in> js"
  shows "searched env {i} d d'"
  using assms covered_unfold unfolding searched_def by blast

lemma searched_leaf: "settled env d i \<Longrightarrow> (\<And>j. \<not> part_of env i j) \<Longrightarrow> searched env {i} d d"
  using searched_covers [OF searched_none] by blast

lemma fold_steps_searched:
  assumes "fold_steps f xs d = Some d'"
    and "\<And>x e e'. x \<in> set xs \<Longrightarrow> f x e = Some e' \<Longrightarrow> searched env {g x} e e'"
  shows "searched env (g ` set xs) d d'"
  using assms
proof (induction xs arbitrary: d)
  case (Cons x xs)
  then obtain e where "f x d = Some e" "fold_steps f xs e = Some d'" by (auto simp: bind_eq_Some_conv)
  then show ?case
    using searched_trans [of env "{g x}" d e "g ` set xs" d'] Cons.IH [of e] Cons.prems(2) by simp
qed (simp add: searched_none)

definition structs_named :: "registry \<Rightarrow> bool" where
  "structs_named r \<longleftrightarrow>
     (\<forall>i info n fs ms. reg_types r i = Some info \<longrightarrow> ti_kind info = TyStruct n fs ms \<longrightarrow> ti_name info = n)"

lemma register_type_structs_named:
  "structs_named r \<Longrightarrow> \<forall>n fs ms. kind = TyStruct n fs ms \<longrightarrow> name = n \<Longrightarrow> structs_named (snd (register_type name kind r))"
  by (auto simp: structs_named_def register_type_def insert_type_def Let_def split: option.splits)

lemma redefine_structs_named:
  assumes "consistent r" "structs_named r" "components kind = []" "\<And>n. kind \<noteq> TyRef n"
    "\<forall>n fs ms. kind = TyStruct n fs ms \<longrightarrow> name = n"
  shows "structs_named (snd (redefine name kind r))"
proof -
  have "structs_named (snd (declare_named name r))"
    unfolding declare_named_register by (rule register_type_structs_named [OF assms(2)]) simp
  then show ?thesis
    using consistent_redefine(3) [OF assms(1,3,4), of name] assms(5)
    by (auto simp: structs_named_def redefine_def split: prod.splits option.splits if_splits)
qed

lemma registry_step_structs_named:
  assumes "registry_step r s" "consistent r" "structs_named r"
  shows "structs_named s"
  using assms(1)
  by cases
    (use register_type_structs_named [OF assms(3)] redefine_structs_named [OF assms(2,3)] in
      \<open>simp_all add: register_array_def register_map_def register_tuple_def
    register_function_def register_optional_def register_result_def register_type_param_register
    register_struct_def register_enum_def register_interface_def declare_named_register
    define_struct_def define_enum_def define_interface_def\<close>)

lemma reachable_structs_named: "reachable_registry r \<Longrightarrow> structs_named r"
proof (induction rule: reachable_registry.induct)
  case reach_new
  then show ?case
    by (auto simp: structs_named_def new_registry_def register_builtin_def insert_type_def Let_def split: if_splits)
qed (use registry_step_structs_named reachable_consistent in blast)

lemma one_struct_of_a_name:
  assumes "reachable_registry (xe_types env)" "struct_at env i name fs" "struct_at env j name gs"
  shows "i = j \<and> fs = gs"
proof -
  obtain a b ms ns where a: "reg_types (xe_types env) i = Some a" "ti_kind a = TyStruct name fs ms"
    and b: "reg_types (xe_types env) j = Some b" "ti_kind b = TyStruct name gs ns"
    using assms(2,3) by (auto simp: struct_at_def reg_get_def)
  have "ti_name a = name" "ti_name b = name"
    using reachable_structs_named [OF assms(1)] a b unfolding structs_named_def by blast+
  then have "i = j"
    using consistent_info [OF reachable_consistent [OF assms(1)] a(1)] consistent_info [OF reachable_consistent [OF assms(1)] b(1)]
    by simp
  then show ?thesis using a b by simp
qed

lemma search_is_complete:
  assumes "reachable_registry (xe_types env)"
  shows "resolve_transitive_deps n env (Some i) d = Some d' \<Longrightarrow> searched env {i} d d'"
proof (induction n arbitrary: i d d')
  case (Suc n)
  show ?case
  proof (cases "reg_get (xe_types env) i")
    case None
    then have "settled env d i" "\<not> part_of env i j" for j
      by (simp_all add: settled_def enum_type_def struct_at_def part_of_def nested_type_def)
    moreover have "d' = d" using None Suc.prems by simp
    ultimately show ?thesis by (simp add: searched_leaf)
  next
    case (Some info)
    show ?thesis
    proof (cases "ti_kind info")
      case (TyStruct name fs ms)
      have at: "struct_at env i name fs" using Some TyStruct by (auto simp: struct_at_def)
      have alone: "\<not> part_of env i j" for j using at by (auto simp: part_of_def)
      have only: "struct_at env i m gs \<Longrightarrow> m = name" for m gs
        using Some TyStruct by (auto simp: struct_at_def)
      have enum: "enum_type env i m \<longleftrightarrow> m = name \<and> is_enum env name" for m
        using Some TyStruct by (auto simp: enum_type_def)
      show ?thesis
      proof (cases "is_enum env name \<or> name \<in> xe_tables env \<or> name \<in> dp_visited d")
        case True
        then have "searched env {} d d'" "settled env d' i"
          using Suc.prems Some TyStruct enum only
          by (auto simp: searched_def grows_def entered_def settled_def split: if_splits)
        then show ?thesis using alone by (auto intro: searched_covers)
      next
        case False
        let ?f = "\<lambda>(f, t, _) d. resolve_transitive_deps n env (Some t) (note_field env name f d)"
        have run: "fold_steps ?f fs (visit_struct name d) = Some d'"
          using Suc.prems Some TyStruct False by simp
        have "searched env ((fst \<circ> snd) ` set fs) (visit_struct name d) d'"
          using run
        proof (rule fold_steps_searched)
          show "searched env {(fst \<circ> snd) x} e e'" if "?f x e = Some e'" for x e e'
            using that Suc.IH by (cases x) (fastforce simp: searched_def grows_def)
        qed
        then have found: "grows d d'" "name \<in> dp_visited d'" "\<forall>(f, t, b)\<in>set fs. covered env d' t"
          "entered env (dp_visited d' - insert name (dp_visited d)) d'"
          by (auto simp: searched_def grows_def)
        moreover have "entered env {name} d'"
          using found(3) one_struct_of_a_name [OF assms at] by (auto simp: entered_def)
        ultimately have "entered env (dp_visited d' - dp_visited d) d'" unfolding entered_def by blast
        moreover have "settled env d' i" using False enum only found(2) by (auto simp: settled_def)
        ultimately show ?thesis
          using found(1) alone covered_unfold unfolding searched_def by blast
      qed
    next
      case (TyTuple es)
      have "fold_steps (\<lambda>t. resolve_transitive_deps n env (Some t)) es d = Some d'" using Suc.prems(1) Some TyTuple by simp
      then have "searched env (id ` set es) d d'" by (rule fold_steps_searched) (simp add: Suc.IH)
      then show ?thesis
        using Some TyTuple
        by (auto intro!: searched_covers simp: settled_def enum_type_def struct_at_def part_of_def nested_type_def)
    next
      case (TyEnum name vs)
      then have "searched env {} d d'" "settled env d' i"
        using Suc.prems Some
        by (auto simp: searched_def grows_def entered_def settled_def enum_type_def struct_at_def split: if_splits)
      then show ?thesis
        using Some TyEnum by (auto intro!: searched_covers simp: part_of_def nested_type_def)
    next
      case (TyMap k v)
      then obtain e where "resolve_transitive_deps n env (Some k) d = Some e"
        "resolve_transitive_deps n env (Some v) e = Some d'"
        using Suc.prems Some by (auto simp: bind_eq_Some_conv)
      then have "searched env ({k} \<union> {v}) d d'" using Suc.IH searched_trans by blast
      then show ?thesis
        using Some TyMap
        by (auto intro!: searched_covers simp: settled_def enum_type_def struct_at_def part_of_def nested_type_def)
    next
      case (TyResult k v)
      then obtain e where "resolve_transitive_deps n env (Some k) d = Some e"
        "resolve_transitive_deps n env (Some v) e = Some d'"
        using Suc.prems Some by (auto simp: bind_eq_Some_conv)
      then have "searched env ({k} \<union> {v}) d d'" using Suc.IH searched_trans by blast
      then show ?thesis
        using Some TyResult
        by (auto intro!: searched_covers simp: settled_def enum_type_def struct_at_def part_of_def nested_type_def)
    next
      case (TyArray j)
      then have "searched env {j} d d'" using Suc.prems Some Suc.IH by simp
      then show ?thesis
        using Some TyArray
        by (auto intro!: searched_covers simp: settled_def enum_type_def struct_at_def part_of_def nested_type_def)
    next
      case (TyOptional j)
      then have "searched env {j} d d'" using Suc.prems Some Suc.IH by simp
      then show ?thesis
        using Some TyOptional
        by (auto intro!: searched_covers simp: settled_def enum_type_def struct_at_def part_of_def nested_type_def)
    qed (use Suc.prems Some in
      \<open>auto intro!: searched_leaf simp: settled_def enum_type_def struct_at_def part_of_def nested_type_def\<close>)
  qed
qed simp

lemma search_covers_reachable:
  assumes "searched env {i} d d'" "dp_visited d = {}" "(nested_type env)\<^sup>*\<^sup>* i j"
  shows "covered env d' j"
  using assms(3)
proof (induction rule: rtranclp_induct)
  case (step j k)
  show ?case
  proof (cases "\<exists>name fs. struct_at env j name fs")
    case True
    then obtain name fs where at: "struct_at env j name fs" by blast
    then have "\<not> is_enum env name" "name \<notin> xe_tables env" "k \<in> (fst \<circ> snd) ` set fs"
      using step(2) by (auto simp: nested_type_def struct_at_def)
    moreover from this have "name \<in> dp_visited d'"
      using step(3) at covered_unfold [of env d' j] by (auto simp: settled_def)
    ultimately show ?thesis
      using assms(1,2) at by (fastforce simp: searched_def entered_def)
  next
    case False
    then show ?thesis using step covered_unfold [of env d' j] by (auto simp: part_of_def)
  qed
qed (use assms(1) in \<open>simp add: searched_def\<close>)

lemma search_marks_reachable_enums:
  assumes "reachable_registry (xe_types env)" "resolve_transitive_deps n env (Some i) d = Some d'"
    and "dp_visited d = {}" "dp_enum_refs d = []"
  shows "set (dp_enum_refs d') = sql_names env (reachable_enums env i)"
proof
  show "set (dp_enum_refs d') \<subseteq> sql_names env (reachable_enums env i)"
    using search_is_sound [OF assms(2)] assms(4) by simp
  have "to_snake_case (xe_text env) name \<in> set (dp_enum_refs d')" if e: "name \<in> reachable_enums env i" for name
  proof -
    obtain j where j: "(nested_type env)\<^sup>*\<^sup>* i j" "enum_type env j name"
      using e by (auto simp: reachable_enums_def)
    have "settled env d' j"
      using search_covers_reachable [OF search_is_complete [OF assms(1,2)] assms(3) j(1)] covered_unfold by blast
    then show ?thesis using j(2) by (auto simp: settled_def)
  qed
  then show "sql_names env (reachable_enums env i) \<subseteq> set (dp_enum_refs d')" by (auto simp: sql_names_def)
qed

end
