(* ===== verification/Mig_Serving.thy ===== *)
theory Mig_Serving
  imports Mig_Extract Hir_Subterms
begin

text \<open>
  Which structs the calls of a program serve, read off every part of its functions, and the comparison with
  the search of the extraction: it collects exactly those, as long as no such call stands in one of the places
  that it does not enter.
\<close>

section \<open>Calls that serve a struct\<close>

text \<open>An expression serves a struct of the program when it is a method call named auth or crud whose first
  argument that names a struct of the program names that one.\<close>

definition names_struct :: "ustr set \<Rightarrow> hir_expr \<Rightarrow> ustr \<Rightarrow> bool" where
  "names_struct S e n \<longleftrightarrow>
     n \<in> S \<and> (he_kind e = HGlobal n \<or> he_kind e = HLocal n \<or> he_kind e = HConst (HcStr n))"

definition serves :: "ustr set \<Rightarrow> hir_term \<Rightarrow> ustr \<Rightarrow> bool" where
  "serves S x n \<longleftrightarrow>
     (\<exists>receiver meth before arg after t s.
        x = Inl (HirExpr (HMethodCall receiver meth (before @ arg # after)) t s) \<and>
        (meth = ascii ''auth'' \<or> meth = ascii ''crud'') \<and>
        names_struct S arg n \<and> (\<nexists>e m. e \<in> set before \<and> names_struct S e m))"

definition served :: "ustr set \<Rightarrow> hir_term set \<Rightarrow> ustr set" where
  "served S T = (\<Union>x\<in>T. {n. serves S x n})"

text \<open>The parts of a term that the search for such calls does not enter.\<close>

definition unsearched_parts :: "hir_term \<Rightarrow> hir_term set" where
  "unsearched_parts x =
     (case x of
        Inl e \<Rightarrow>
          (case he_kind e of
             HMethodCall receiver _ _ \<Rightarrow> terms_expr receiver
           | HEnumVariant _ _ es \<Rightarrow> \<Union>e\<in>set es. terms_expr e
           | HSpread e \<Rightarrow> terms_expr e
           | HMatch _ arms \<Rightarrow> \<Union>arm\<in>set arms. terms_pattern (arm_pattern arm)
           | _ \<Rightarrow> {})
      | Inr st \<Rightarrow>
          (case hs_kind st of
             STupleLet _ _ v _ \<Rightarrow> terms_expr v
           | SWhile _ _ inc \<Rightarrow> terms_body inc
           | _ \<Rightarrow> {}))"

definition unsearched :: "hir_term set \<Rightarrow> hir_term set" where
  "unsearched T = (\<Union>x\<in>T. unsearched_parts x)"

lemma served_simps [simp]:
  "served S {} = {}"
  "served S (A \<union> B) = served S A \<union> served S B"
  "served S (\<Union>x\<in>I. f x) = (\<Union>x\<in>I. served S (f x))"
  "served S (insert (Inr st) A) = served S A"
  "served S (insert (Inl (HirExpr k t s)) A) =
     (case k of HMethodCall r m args \<Rightarrow> {n. serves S (Inl (HirExpr (HMethodCall r m args) t s)) n} | _ \<Rightarrow> {}) \<union> served S A"
  by (simp_all add: served_def serves_def split: hir_expr_kind.split)

lemma unsearched_simps [simp]:
  "unsearched {} = {}"
  "unsearched (A \<union> B) = unsearched A \<union> unsearched B"
  "unsearched (\<Union>x\<in>I. f x) = (\<Union>x\<in>I. unsearched (f x))"
  "unsearched (insert (Inr (HirStmt sk s)) A) =
     (case sk of STupleLet _ _ v _ \<Rightarrow> terms_expr v | SWhile _ _ inc \<Rightarrow> terms_body inc | _ \<Rightarrow> {}) \<union> unsearched A"
  "unsearched (insert (Inl (HirExpr k t s)) A) =
     (case k of
             HMethodCall receiver _ _ \<Rightarrow> terms_expr receiver
           | HEnumVariant _ _ es \<Rightarrow> \<Union>e\<in>set es. terms_expr e
           | HSpread e \<Rightarrow> terms_expr e
           | HMatch _ arms \<Rightarrow> \<Union>arm\<in>set arms. terms_pattern (arm_pattern arm)
           | _ \<Rightarrow> {}) \<union> unsearched A"
  by (auto simp: unsearched_def unsearched_parts_def)

lemma find_map_Cons: "find_map f (x # xs) = (case f x of Some y \<Rightarrow> Some y | None \<Rightarrow> find_map f xs)"
  by (simp add: find_map_def List.map_filter_simps split: option.split)

lemma find_map_first:
  "find_map f xs = Some y \<longleftrightarrow> (\<exists>us x vs. xs = us @ x # vs \<and> f x = Some y \<and> (\<forall>u\<in>set us. f u = None))"
proof
  show "\<exists>us x vs. xs = us @ x # vs \<and> f x = Some y \<and> (\<forall>u\<in>set us. f u = None)" if "find_map f xs = Some y"
    using that
  proof (induction xs)
    case (Cons a xs)
    show ?case
    proof (cases "f a")
      case None
      then obtain us x vs where "xs = us @ x # vs" "f x = Some y" "\<forall>u\<in>set us. f u = None"
        using Cons by (auto simp: find_map_Cons)
      then show ?thesis using None by (intro exI [of _ "a # us"] exI [of _ x] exI [of _ vs]) simp
    next
      case (Some b)
      then show ?thesis using Cons.prems by (intro exI [of _ "[]"]) (simp add: find_map_Cons)
    qed
  qed (simp add: find_map_def List.map_filter_simps)
  show "find_map f xs = Some y" if "\<exists>us x vs. xs = us @ x # vs \<and> f x = Some y \<and> (\<forall>u\<in>set us. f u = None)"
  proof -
    have "find_map f (us @ x # vs) = Some y" if "f x = Some y" "\<forall>u\<in>set us. f u = None" for us x vs
      using that by (induction us) (simp_all add: find_map_Cons)
    then show ?thesis using that by blast
  qed
qed

lemma find_struct_arg_first:
  "find_struct_arg t args = Some n \<longleftrightarrow>
    (\<exists>us a vs. args = us @ a # vs \<and> names_struct (dom t) a n \<and> (\<nexists>e m. e \<in> set us \<and> names_struct (dom t) e m))"
proof -
  define g where "g = (\<lambda>e. case reference_name e of Some n \<Rightarrow> if t n \<noteq> None then Some n else None | None \<Rightarrow> None)"
  have f: "g e = Some n \<longleftrightarrow> names_struct (dom t) e n" for e n
    by (cases "he_kind e") (auto simp: g_def reference_name_def names_struct_def split: const_value.split)
  have none: "g e = None \<longleftrightarrow> (\<nexists>m. names_struct (dom t) e m)" for e
    using f [of e] by (metis not_Some_eq)
  show ?thesis unfolding find_struct_arg_def g_def [symmetric] find_map_first f none by (intro iff_exI) blast
qed

definition keys :: "implicit_tables \<Rightarrow> ustr set" where
  "keys m = fst ` set m"

lemma keys_register:
  "keys (register_implicit t meth args m) =
    keys m \<union> {n. serves (dom t) (Inl (HirExpr (HMethodCall r meth args) ty s)) n}"
proof -
  have "serves (dom t) (Inl (HirExpr (HMethodCall r meth args) ty s)) n \<longleftrightarrow>
      (meth = ascii ''auth'' \<or> meth = ascii ''crud'') \<and> find_struct_arg t args = Some n" for n
    unfolding find_struct_arg_first serves_def by auto
  then show ?thesis
    by (auto simp: register_implicit_def keys_def or_insert_def split: option.split)
qed

definition collects :: "struct_table \<Rightarrow> (implicit_tables \<Rightarrow> implicit_tables) \<Rightarrow> hir_term set \<Rightarrow> bool" where
  "collects t f T \<longleftrightarrow>
     (\<forall>m. keys m \<subseteq> keys (f m) \<and> keys (f m) \<subseteq> keys m \<union> served (dom t) T \<and>
       served (dom t) T \<subseteq> keys (f m) \<union> served (dom t) (unsearched T))"

lemma collects_id: "collects t (\<lambda>m. m) {}"
  by (simp add: collects_def)

lemma collects_comp: "collects t f A \<Longrightarrow> collects t g B \<Longrightarrow> collects t (\<lambda>m. g (f m)) (A \<union> B)"
  unfolding collects_def served_simps unsearched_simps by blast

lemma collects_fold:
  "(\<And>x. x \<in> set xs \<Longrightarrow> collects t (f x) (h x)) \<Longrightarrow> collects t (fold f xs) (\<Union>x\<in>set xs. h x)"
proof (induction xs)
  case (Cons x xs)
  then show ?case using collects_comp [of t "f x" "h x" "fold f xs" "\<Union>x\<in>set xs. h x"] by (simp add: comp_def)
qed (simp add: collects_def)


text \<open>A term that is no such call itself, and of which the walk leaves out a part it does not search.\<close>

lemma collects_part:
  assumes "collects t f A" "\<And>n. \<not> serves (dom t) x n" "B \<subseteq> unsearched_parts x"
  shows "collects t f (insert x (A \<union> B))"
proof -
  have new: "served (dom t) (insert x (A \<union> B)) = served (dom t) A \<union> served (dom t) B"
    using assms(2) by (auto simp: served_def)
  have "B \<union> unsearched A \<subseteq> unsearched (insert x (A \<union> B))"
    using assms(3) by (auto simp: unsearched_def)
  then have "served (dom t) B \<union> served (dom t) (unsearched A) \<subseteq> served (dom t) (unsearched (insert x (A \<union> B)))"
    by (auto simp: served_def)
  then show ?thesis using assms(1) unfolding collects_def new by blast
qed

lemma walks_collect:
  "collects t (walk_expr t e) (terms_expr e)"
  "\<And>ty s. collects t (walk_expr t (HirExpr k ty s)) (terms_expr (HirExpr k ty s))"
  "collects t (collect_calls t st) (terms_stmt st)"
  "\<And>s. collects t (collect_calls t (HirStmt sk s)) (terms_stmt (HirStmt sk s))"
  "(\<forall>e. arm_guard arm = Some e \<longrightarrow> collects t (walk_expr t e) (terms_expr e)) \<and>
   collects t (walk_expr t (arm_body arm)) (terms_expr (arm_body arm))"
  "terms_pattern p = terms_pattern p"
proof (induction e and k and st and sk and arm and p)
  case (HirExpr k ty s)
  then show ?case by blast
next
  case (HirStmt k s)
  then show ?case by blast
next
  case (HMatch vs arms)
  let ?f = "\<lambda>arm m. case arm of HirMatchArm p g body _ \<Rightarrow>
      (let m = walk_expr t body m in case g of Some x \<Rightarrow> walk_expr t x m | None \<Rightarrow> m)"
  let ?T = "\<lambda>arm. case arm of HirMatchArm p g body _ \<Rightarrow>
      (case g of Some e \<Rightarrow> terms_expr e | None \<Rightarrow> {}) \<union> terms_expr body"
  have "collects t (fold ?f arms) (\<Union>arm\<in>set arms. ?T arm)"
  proof (rule collects_fold)
    fix arm assume arm: "arm \<in> set arms"
    obtain p g body sp where a: "arm = HirMatchArm p g body sp" by (cases arm)
    note ih = HMatch(2) [OF arm, unfolded a hir_match_arm.sel]
    show "collects t (?f arm) (?T arm)"
      unfolding a using ih collects_comp [of t "walk_expr t body" "terms_expr body"]
      by (cases g) (simp_all add: Let_def Un_commute)
  qed
  from collects_comp [OF collects_fold [OF HMatch(1)] this]
  have run: "collects t (walk_expr t (HirExpr (HMatch vs arms) ty s))
      ((\<Union>e\<in>set vs. terms_expr e) \<union> (\<Union>arm\<in>set arms. ?T arm))"
    by (simp add: collects_def)
  have parts: "terms_expr (HirExpr (HMatch vs arms) ty s) = insert (Inl (HirExpr (HMatch vs arms) ty s))
      ((\<Union>e\<in>set vs. terms_expr e) \<union> (\<Union>arm\<in>set arms. ?T arm) \<union> (\<Union>arm\<in>set arms. terms_pattern (arm_pattern arm)))"
  proof -
    have "(case arm of HirMatchArm p g body _ \<Rightarrow>
        terms_pattern p \<union> (case g of Some e \<Rightarrow> terms_expr e | None \<Rightarrow> {}) \<union> terms_expr body) =
      ?T arm \<union> terms_pattern (arm_pattern arm)" for arm
      by (cases arm) auto
    then show ?thesis by (simp add: UN_Un_distrib Un_assoc)
  qed
  show ?case
    unfolding parts by (rule collects_part [OF run]) (auto simp: serves_def unsearched_parts_def)
next
  case (HMethodCall e m args)
  have "collects t (fold (walk_expr t) args) (\<Union>e\<in>set args. terms_expr e)" using HMethodCall(2) by (rule collects_fold)
  then have walk: "keys c \<subseteq> keys (fold (walk_expr t) args c)"
      "keys (fold (walk_expr t) args c) \<subseteq> keys c \<union> served (dom t) (\<Union>e\<in>set args. terms_expr e)"
      "served (dom t) (\<Union>e\<in>set args. terms_expr e) \<subseteq> keys (fold (walk_expr t) args c) \<union>
        served (dom t) (unsearched (\<Union>e\<in>set args. terms_expr e))" for c
    unfolding collects_def by blast+
  let ?call = "HirExpr (HMethodCall e m args) ty s"
  define X where "X = {n. serves (dom t) (Inl ?call) n}"
  have reg: "keys (register_implicit t m args c) = keys c \<union> X" for c
    unfolding X_def by (rule keys_register)
  have run: "walk_expr t ?call c = fold (walk_expr t) args (register_implicit t m args c)" for c
    by simp
  have parts: "served (dom t) (terms_expr ?call) = X \<union> served (dom t) (terms_expr e) \<union>
      served (dom t) (\<Union>e\<in>set args. terms_expr e)"
    "unsearched (terms_expr ?call) = terms_expr e \<union> unsearched (terms_expr e) \<union> unsearched (\<Union>e\<in>set args. terms_expr e)"
    by (simp_all add: X_def Un_assoc)
  show ?case
    unfolding collects_def run parts served_simps(2)
  proof (intro allI conjI)
    fix c
    have join: "X \<union> B \<union> C \<subseteq> F \<union> (B \<union> D \<union> U)" if "K \<union> X \<subseteq> F" "C \<subseteq> F \<union> U" for B C D F K U :: "ustr set"
      using that by blast
    note w = walk [of "register_implicit t m args c", unfolded reg]
    show "keys c \<subseteq> keys (fold (walk_expr t) args (register_implicit t m args c))" using w(1) by blast
    show "keys (fold (walk_expr t) args (register_implicit t m args c)) \<subseteq>
        keys c \<union> (X \<union> served (dom t) (terms_expr e) \<union> served (dom t) (\<Union>e\<in>set args. terms_expr e))"
      using w(2) by blast
    show "X \<union> served (dom t) (terms_expr e) \<union> served (dom t) (\<Union>e\<in>set args. terms_expr e)
        \<subseteq> keys (fold (walk_expr t) args (register_implicit t m args c)) \<union>
          (served (dom t) (terms_expr e) \<union> served (dom t) (unsearched (terms_expr e)) \<union>
           served (dom t) (unsearched (\<Union>e\<in>set args. terms_expr e)))"
      by (rule join [OF w(1,3)])
  qed
next
  case (HMap kvs)
  have "collects t (fold (\<lambda>(k, v) m. walk_expr t v (walk_expr t k m)) kvs)
      (\<Union>kv\<in>set kvs. terms_expr (fst kv) \<union> terms_expr (snd kv))"
  proof (rule collects_fold)
    fix kv assume kv: "kv \<in> set kvs"
    show "collects t ((\<lambda>(k, v) m. walk_expr t v (walk_expr t k m)) kv) (terms_expr (fst kv) \<union> terms_expr (snd kv))"
      using collects_comp [of t "walk_expr t (fst kv)" _ "walk_expr t (snd kv)"] HMap kv by (cases kv) fastforce
  qed
  then show ?case by (simp add: collects_def)
next
  case (HStruct n fs)
  have "collects t (fold (\<lambda>(_, v) m. walk_expr t v m) fs) (\<Union>f\<in>set fs. terms_expr (snd f))"
    by (rule collects_fold) (use HStruct in \<open>fastforce split: prod.split\<close>)
  then show ?case by (simp add: collects_def)
next
  case (HirMatchArm p g body s)
  then show ?case by simp
next
  case (HCall f args)
  have "collects t (fold (walk_expr t) args) (\<Union>e\<in>set args. terms_expr e)" using HCall(2) by (rule collects_fold)
  from collects_comp [OF HCall(1) this] show ?case by (simp add: collects_def)
next
  case (HArray args)
  have "collects t (fold (walk_expr t) args) (\<Union>e\<in>set args. terms_expr e)" using HArray by (rule collects_fold)
  then show ?case by (simp add: collects_def)
next
  case (HTuple args)
  have "collects t (fold (walk_expr t) args) (\<Union>e\<in>set args. terms_expr e)" using HTuple by (rule collects_fold)
  then show ?case by (simp add: collects_def)
next
  case (HBlock ss e)
  have "collects t (fold (collect_calls t) ss) (\<Union>s\<in>set ss. terms_stmt s)" using HBlock(1) by (rule collects_fold)
  from this collects_comp [OF this] show ?case
    using HBlock(2) by (cases e) (fastforce simp add: collects_def Let_def)+
next
  case (HRouteBlock args)
  have "collects t (fold (walk_expr t) args) (\<Union>e\<in>set args. terms_expr e)" using HRouteBlock by (rule collects_fold)
  then show ?case by (simp add: collects_def)
next
  case (HScopeBlock ss)
  have "collects t (fold (collect_calls t) ss) (\<Union>s\<in>set ss. terms_stmt s)" using HScopeBlock by (rule collects_fold)
  then show ?case by (simp add: collects_def)
next
  case (SReturn args)
  have "collects t (fold (walk_expr t) args) (\<Union>e\<in>set args. terms_expr e)" using SReturn by (rule collects_fold)
  then show ?case by (simp add: collects_def)
next
  case (SIf c x y)
  have x: "collects t (fold (collect_calls t) x) (\<Union>s\<in>set x. terms_stmt s)" using SIf(2) by (rule collects_fold)
  show ?case
  proof (cases y)
    case None
    then show ?thesis using collects_comp [OF SIf(1) x] by (simp add: collects_def Let_def)
  next
    case (Some ss)
    have "collects t (fold (collect_calls t) ss) (\<Union>s\<in>set ss. terms_stmt s)"
      by (rule collects_fold) (use SIf(3) Some in simp)
    from collects_comp [OF collects_comp [OF SIf(1) x] this] show ?thesis
      by (simp add: Some collects_def Let_def)
  qed
next
  case (SWhile c x y)
  have "collects t (fold (collect_calls t) x) (\<Union>s\<in>set x. terms_stmt s)" using SWhile(2) by (rule collects_fold)
  from collects_comp [OF SWhile(1) this]
  have run: "collects t (collect_calls t (HirStmt (SWhile c x y) s)) (terms_expr c \<union> (\<Union>s\<in>set x. terms_stmt s))"
    by (simp add: collects_def)
  have parts: "terms_stmt (HirStmt (SWhile c x y) s) = insert (Inr (HirStmt (SWhile c x y) s))
      (terms_expr c \<union> (\<Union>s\<in>set x. terms_stmt s) \<union> terms_body y)"
    by (simp add: terms_body_def)
  show ?case
    unfolding parts by (rule collects_part [OF run]) (auto simp: serves_def unsearched_parts_def)
next
  case (HBinOp op l r)
  from collects_comp [OF HBinOp(1,2)] show ?case by (simp add: collects_def)
next
  case (HIndex e i)
  from collects_comp [OF HIndex(1,2)] show ?case by (simp add: collects_def)
next
  case (HUnwrapOrPanic e msg)
  from collects_comp [OF HUnwrapOrPanic(1,2)] show ?case by (simp add: collects_def)
next
  case (HRange a b incl)
  from collects_comp [OF HRange(1,2)] show ?case by (simp add: collects_def)
next
  case (SAssign a v)
  from collects_comp [OF SAssign(1,2)] show ?case by (simp add: collects_def)
next
  case (HIf c a b)
  show ?case
  proof (cases b)
    case None
    then show ?thesis using collects_comp [OF HIf(1,2)] by (simp add: collects_def Let_def)
  next
    case (Some e)
    have "collects t (walk_expr t e) (terms_expr e)" by (rule HIf(3)) (simp add: Some)
    from collects_comp [OF collects_comp [OF HIf(1,2)] this] show ?thesis
      by (simp add: Some collects_def Let_def)
  qed
next
  case (HSpread e)
  show ?case
    using collects_part [OF collects_id [of t], of "Inl (HirExpr (HSpread e) ty s)" "terms_expr e" for ty s]
    by (simp add: collects_def serves_def unsearched_parts_def)
next
  case (HEnumVariant n v es)
  show ?case
    using collects_part [OF collects_id [of t], of "Inl (HirExpr (HEnumVariant n v es) ty s)" "\<Union>e\<in>set es. terms_expr e" for ty s]
    by (simp add: collects_def serves_def unsearched_parts_def)
next
  case (STupleLet ns ts v m)
  show ?case
    using collects_part [OF collects_id [of t], of "Inr (HirStmt (STupleLet ns ts v m) s)" "terms_expr v" for s]
    by (simp add: collects_def serves_def unsearched_parts_def)
qed (simp_all add: collects_def)

section \<open>Programs\<close>

definition program_terms :: "hir_program \<Rightarrow> hir_term set" where
  "program_terms p = (\<Union>i\<in>set (hpr_items p). case i of IFunction f \<Rightarrow> terms_body (hf_body f) | _ \<Rightarrow> {})"

lemma discovery_collects:
  assumes "served (dom t) (unsearched (program_terms p)) = {}"
  shows "keys (discover_implicit_tables p t) = served (dom t) (program_terms p)"
proof -
  let ?f = "\<lambda>i m. case i of IFunction f \<Rightarrow> fold (collect_calls t) (hf_body f) m | _ \<Rightarrow> m"
  let ?T = "\<lambda>i. case i of IFunction f \<Rightarrow> terms_body (hf_body f) | _ \<Rightarrow> {}"
  have "collects t (fold ?f (hpr_items p)) (\<Union>i\<in>set (hpr_items p). ?T i)"
  proof (rule collects_fold)
    fix i
    have "collects t (fold (collect_calls t) ss) (terms_body ss)" for ss
      unfolding terms_body_def by (rule collects_fold) (rule walks_collect(3))
    then show "collects t (?f i) (?T i)" by (cases i) (simp_all add: collects_id)
  qed
  from this [folded program_terms_def, unfolded collects_def, rule_format, of "[]"] show ?thesis
    unfolding discover_implicit_tables_def [symmetric] assms by (auto simp: keys_def)
qed

end
