(* ===== verification/Mig_Extraction.thy ===== *)
theory Mig_Extraction
  imports Mig_Reaching Mig_Serving
begin

text \<open>
  What schema extraction keeps: it returns on every registry a program can build, although structs may
  mention each other; the tables it builds are those the program declares or serves, one each; their keys and
  indexes are over their own columns; and the enums it creates are exactly those the tables refer to.
\<close>

section \<open>Types\<close>

definition type_rank :: "registry \<Rightarrow> tid option \<Rightarrow> nat" where
  "type_rank r t = (case t of Some i \<Rightarrow> if i < reg_next r then i else 0 | None \<Rightarrow> 0)"

lemma component_rank:
  assumes "consistent r" "reg_get r i = Some info" "c \<in> set (components (ti_kind info))"
  shows "type_rank r (Some c) < type_rank r (Some i)"
  using consistent_info [OF assms(1)] assms by (fastforce simp: reg_get_def well_placed_def type_rank_def)

lemma resolve_sql_type_returns:
  assumes "consistent (xe_types env)" "type_rank (xe_types env) t < n"
  shows "resolve_sql_type n env t a es \<noteq> None"
  using assms(2)
proof (induction n arbitrary: t)
  case (Suc n)
  have "resolve_sql_type n env (Some j) a es \<noteq> None"
    if "t = Some i" "reg_get (xe_types env) i = Some info" "ti_kind info = TyOptional j" for i j info
    using component_rank [OF assms(1) that(2), of j] that Suc by simp
  then show ?case
    by (auto split: option.split type_kind.split)
qed simp

text \<open>The structs not yet visited bound the descent through structs.\<close>

definition struct_names :: "registry \<Rightarrow> ustr set" where
  "struct_names r = {n. \<exists>i info fs ms. reg_types r i = Some info \<and> ti_kind info = TyStruct n fs ms}"

lemma struct_names_finite:
  assumes "consistent r"
  shows "finite (struct_names r)" "card (struct_names r) \<le> reg_next r"
proof -
  let ?name = "\<lambda>i. case map_option ti_kind (reg_types r i) of Some (TyStruct n _ _) \<Rightarrow> n | _ \<Rightarrow> []"
  have sub: "struct_names r \<subseteq> ?name ` {..<reg_next r}"
  proof
    fix n assume "n \<in> struct_names r"
    then obtain i info fs ms where i: "reg_types r i = Some info" "ti_kind info = TyStruct n fs ms"
      by (auto simp: struct_names_def)
    then show "n \<in> ?name ` {..<reg_next r}"
      using consistent_info [OF assms i(1)] by (intro image_eqI [where x = i]) simp_all
  qed
  show "finite (struct_names r)" by (rule finite_subset [OF sub]) simp
  show "card (struct_names r) \<le> reg_next r"
    using card_mono [OF _ sub] card_image_le [of "{..<reg_next r}" ?name] by simp
qed

definition deps_rank :: "registry \<Rightarrow> tid option \<Rightarrow> ustr set \<Rightarrow> nat" where
  "deps_rank r t vs = card (struct_names r - vs) * reg_next r + type_rank r t"

lemma deps_rank_component:
  assumes "consistent r" "reg_get r i = Some info" "c \<in> set (components (ti_kind info))" "vs \<subseteq> ws"
  shows "deps_rank r (Some c) ws < deps_rank r (Some i) vs"
proof -
  have "card (struct_names r - ws) \<le> card (struct_names r - vs)"
    using assms(4) struct_names_finite(1) [OF assms(1)] by (intro card_mono) auto
  then show ?thesis using component_rank [OF assms(1-3)] mult_le_mono1 by (fastforce simp: deps_rank_def intro: add_le_less_mono)
qed

lemma deps_rank_struct:
  assumes "consistent r" "reg_get r i = Some info" "ti_kind info = TyStruct n fs ms" "n \<notin> vs" "insert n vs \<subseteq> ws"
  shows "deps_rank r t ws < deps_rank r (Some i) vs \<or> 0 < deps_rank r (Some i) vs \<and> deps_rank r t ws = 0"
proof -
  have n: "n \<in> struct_names r - vs" "n \<notin> struct_names r - ws" "struct_names r - ws \<subseteq> struct_names r - vs"
    using assms by (auto simp: struct_names_def reg_get_def)
  have "card (struct_names r - ws) < card (struct_names r - vs)"
    using n struct_names_finite(1) [OF assms(1)] by (intro psubset_card_mono) auto
  then have "card (struct_names r - ws) * reg_next r + reg_next r \<le> card (struct_names r - vs) * reg_next r"
    by (metis Suc_leI add.commute mult_Suc mult_le_mono1)
  moreover have "type_rank r t < reg_next r"
    using assms(1) by (auto simp: type_rank_def consistent_def split: option.split)
  ultimately show ?thesis by (simp add: deps_rank_def)
qed

lemma resolve_transitive_deps_returns:
  assumes "consistent (xe_types env)"
  shows "deps_rank (xe_types env) t (dp_visited d) < n \<Longrightarrow>
    \<exists>d'. resolve_transitive_deps n env t d = Some d' \<and> dp_visited d \<subseteq> dp_visited d'"
proof (induction n arbitrary: t d)
  case (Suc n)
  let ?r = "xe_types env"
  show ?case
  proof (cases "Option.bind t (reg_get ?r)")
    case (Some info)
    then obtain i where i: "t = Some i" "reg_get ?r i = Some info" by (auto simp: bind_eq_Some_conv)
    have part: "\<exists>d''. resolve_transitive_deps n env (Some c) d' = Some d'' \<and> dp_visited d \<subseteq> dp_visited d''"
      if "c \<in> set (components (ti_kind info))" "dp_visited d \<subseteq> dp_visited d'" for c d'
      using Suc.IH [of "Some c" d'] Suc.prems deps_rank_component [OF assms i(2) that] that(2) i(1)
      by fastforce
    have inside: "\<exists>d''. resolve_transitive_deps n env (Some c) (note_field env name f d') = Some d'' \<and>
        insert name (dp_visited d) \<subseteq> dp_visited d''"
      if "ti_kind info = TyStruct name fs ms" "name \<notin> dp_visited d" "insert name (dp_visited d) \<subseteq> dp_visited d'"
      for c d' name fs ms f
      using Suc.IH [of "Some c" "note_field env name f d'"] Suc.prems deps_rank_struct [OF assms i(2) that, of "Some c"]
        that(3) i(1) by fastforce
    show ?thesis
    proof (cases "ti_kind info")
      case (TyStruct name fs ms)
      have "\<exists>d'. fold_steps (\<lambda>(f, t, _) d. resolve_transitive_deps n env (Some t) (note_field env name f d)) fs
            (visit_struct name d) = Some d' \<and> insert name (dp_visited d) \<subseteq> dp_visited d'" if "name \<notin> dp_visited d"
        using inside [OF TyStruct that] by (intro fold_steps_returns) (auto split: prod.split)
      then show ?thesis using Some TyStruct by (auto simp del: fold_steps.simps)
    next
      case (TyTuple es)
      have "\<exists>d'. fold_steps (\<lambda>t. resolve_transitive_deps n env (Some t)) es d = Some d' \<and> dp_visited d \<subseteq> dp_visited d'"
        using part TyTuple by (intro fold_steps_returns) auto
      then show ?thesis using Some TyTuple by simp
    next
      case (TyMap k v)
      obtain d1 where "resolve_transitive_deps n env (Some k) d = Some d1" "dp_visited d \<subseteq> dp_visited d1"
        using part [of k d] TyMap by auto
      then show ?thesis using part [of v d1] Some TyMap by auto
    next
      case (TyResult k v)
      obtain d1 where "resolve_transitive_deps n env (Some k) d = Some d1" "dp_visited d \<subseteq> dp_visited d1"
        using part [of k d] TyResult by auto
      then show ?thesis using part [of v d1] Some TyResult by auto
    qed (use Some part in auto)
  qed simp
qed simp

definition extraction_fuel :: "registry \<Rightarrow> nat" where
  "extraction_fuel r = (reg_next r + 1) * reg_next r + 1"

lemma ranks_below_fuel:
  assumes "consistent r"
  shows "deps_rank r t vs < extraction_fuel r" "type_rank r t < extraction_fuel r"
proof -
  have t: "type_rank r t < reg_next r"
    using assms by (auto simp: type_rank_def consistent_def split: option.split)
  have "card (struct_names r - vs) \<le> reg_next r"
    using struct_names_finite [OF assms] card_mono [of "struct_names r" "struct_names r - vs"] by fastforce
  then have "card (struct_names r - vs) * reg_next r \<le> reg_next r * reg_next r" by (rule mult_le_mono1)
  then show "deps_rank r t vs < extraction_fuel r"
    using t unfolding deps_rank_def extraction_fuel_def add_mult_distrib by linarith
  show "type_rank r t < extraction_fuel r" using t by (simp add: extraction_fuel_def)
qed

lemma add_field_returns:
  assumes "consistent (xe_types env)" "extraction_fuel (xe_types env) \<le> n"
  shows "\<exists>b'. add_field n env f b = Some b'"
proof -
  have rank: "deps_rank (xe_types env) t vs < n" "type_rank (xe_types env) t < n" for t vs
    using ranks_below_fuel [OF assms(1)] assms(2) less_le_trans by blast+
  obtain d where "check_non_table_struct_field n env (hfd_type f) (tb_enums b) (tbl_struct_refs (tb_table b)) = Some d"
    using resolve_transitive_deps_returns [OF assms(1) rank(1)] unfolding check_non_table_struct_field_def by blast
  moreover obtain ty es where "resolve_sql_type n env (hfd_type f) (field_is_auto f) (dp_enums d) = Some (ty, es)"
    using resolve_sql_type_returns [OF assms(1) rank(2)] by fast
  ultimately show ?thesis by (simp add: add_field_def Let_def)
qed

lemma build_table_returns:
  assumes "consistent (xe_types env)" "extraction_fuel (xe_types env) \<le> n"
  shows "\<exists>tb es'. build_table_def_from_struct n env s name es = Some (tb, es')"
proof -
  have "\<exists>b. fold_steps (add_field n env) (hsr_fields s) \<lparr>tb_table = start_table s name, tb_keys = [], tb_enums = es\<rparr>
      = Some b \<and> True"
    using add_field_returns [OF assms] by (intro fold_steps_returns) auto
  then show ?thesis by (auto simp: build_table_def_from_struct_def)
qed

section \<open>Calls that create tables\<close>

lemma find_map_Some: "find_map f xs = Some y \<Longrightarrow> \<exists>x\<in>set xs. f x = Some y"
  using set_map_filter [of f xs] by (cases "List.map_filter f xs") (auto simp: find_map_def)

lemma find_struct_arg_known: "find_struct_arg t args = Some n \<Longrightarrow> t n \<noteq> None"
  by (auto simp: find_struct_arg_def dest!: find_map_Some split: option.splits if_splits)

definition serves_structs :: "struct_table \<Rightarrow> implicit_tables \<Rightarrow> bool" where
  "serves_structs t m \<longleftrightarrow> fst ` set m \<subseteq> dom t \<and> distinct (map fst m)"

lemma register_implicit_serves: "serves_structs t m \<Longrightarrow> serves_structs t (register_implicit t meth args m)"
  using find_struct_arg_known [of t args]
  by (auto simp: register_implicit_def or_insert_def serves_structs_def split: option.split)

lemma walk_serves:
  "serves_structs t m \<Longrightarrow> serves_structs t (walk_expr t e m)"
  "serves_structs t m \<Longrightarrow> serves_structs t (collect_calls t s m)"
proof (induction t e m and t s m rule: walk_expr_collect_calls.induct)
  case (1 t kind ty s m)
  show ?case
  proof (cases kind)
    case (HBlock ss e)
    have "serves_structs t (fold (collect_calls t) ss m)"
      using 1 HBlock by (intro fold_invariant [where P = "serves_structs t"]) auto
    then show ?thesis using 1 HBlock by (cases e) (simp_all add: Let_def)
  qed (use 1 in \<open>auto simp: register_implicit_serves Let_def intro!: fold_invariant [where P = "serves_structs t"]
        split: option.split hir_match_arm.split\<close>)
next
  case (2 t kind s m)
  then show ?case
    by (cases kind)
      (auto simp: Let_def intro!: fold_invariant [where P = "serves_structs t"] split: option.split)
qed

lemma discover_serves: "serves_structs t (discover_implicit_tables p t)"
  unfolding discover_implicit_tables_def
  by (rule fold_invariant [where P = "serves_structs t"])
    (auto simp: serves_structs_def [of t "[]"] intro!: fold_invariant [where P = "serves_structs t"] walk_serves
      split: hir_item.split)

section \<open>Enums\<close>

text \<open>The SQL names of enums a table refers to, and the enums that the fields of a struct lead to.\<close>

definition struct_enums :: "extract_env \<Rightarrow> hir_struct \<Rightarrow> ustr set" where
  "struct_enums env s =
     {name. \<exists>f\<in>set (hsr_fields s). \<exists>i. hfd_type f = Some i \<and> name \<in> reachable_enums env i}"

definition table_enums :: "table_def \<Rightarrow> string set" where
  "table_enums tb =
     {n. \<exists>c\<in>set (tbl_columns tb). col_sql_type c = EnumT n} \<union> set (tbl_transitive_enum_refs tb)"

definition deps_agree :: "extract_env \<Rightarrow> string set \<Rightarrow> type_deps \<Rightarrow> bool" where
  "deps_agree env E d \<longleftrightarrow>
     sql_names env (dp_enums d) = E \<union> set (dp_enum_refs d) \<and> dp_enums d \<subseteq> dom (xe_enums env)"

lemma deps_agree_steps [intro]:
  "deps_agree env E d \<Longrightarrow> is_enum env name \<Longrightarrow> deps_agree env E (mark_enum env name d)"
  "deps_agree env E d \<Longrightarrow> deps_agree env E (visit_struct name d)"
  "deps_agree env E d \<Longrightarrow> deps_agree env E (note_field env s f d)"
proof -
  have "deps_agree env E (fold (note_foreign env) ds d)" if "deps_agree env E d" for ds
    using that by (rule fold_invariant) (auto simp: deps_agree_def note_foreign_def split: option.split)
  then show "deps_agree env E d \<Longrightarrow> deps_agree env E (note_field env s f d)"
    by (auto simp: note_field_def split: option.split)
qed (auto simp: deps_agree_def mark_enum_def visit_struct_def is_enum_def sql_names_def Let_def)

lemma resolve_transitive_deps_agree:
  "resolve_transitive_deps n env t d = Some d' \<Longrightarrow> deps_agree env E d \<Longrightarrow> deps_agree env E d'"
proof (induction n arbitrary: t d d')
  case (Suc n)
  show ?case
  proof (cases "Option.bind t (reg_get (xe_types env))")
    case (Some info)
    show ?thesis
    proof (cases "ti_kind info")
      case (TyStruct name fs ms)
      have "deps_agree env E d'"
        if "fold_steps (\<lambda>(f, t, _) d. resolve_transitive_deps n env (Some t) (note_field env name f d)) fs
          (visit_struct name d) = Some d'"
        using that by (rule fold_steps_invariant) (use Suc in \<open>auto split: prod.splits\<close>)
      then show ?thesis using Some TyStruct Suc.prems by (auto split: if_splits)
    next
      case (TyTuple es)
      have "fold_steps (\<lambda>t. resolve_transitive_deps n env (Some t)) es d = Some d'" using Suc.prems(1) Some TyTuple by simp
      then show ?thesis by (rule fold_steps_invariant) (use Suc in auto)
    qed (use Suc Some in \<open>auto simp: bind_eq_Some_conv split: if_splits\<close>)
  qed (use Suc in auto)
qed simp

lemma resolve_sql_type_enums:
  "resolve_sql_type n env t a es = Some (ty, es') \<Longrightarrow>
    (\<exists>name. is_enum env name \<and> es' = insert name es \<and> ty = EnumT (to_snake_case (xe_text env) name)) \<or>
    es' = es \<and> (\<forall>m. ty \<noteq> EnumT m)"
proof (induction n arbitrary: t)
  case (Suc n)
  show ?case
  proof (cases t)
    case (Some i)
    then show ?thesis
      using Suc by (auto simp: enum_column_def split: if_splits option.splits type_kind.splits)
  qed (use Suc in auto)
qed simp

text \<open>The enum of a column is one its type leads to.\<close>

lemma resolve_sql_type_reaches:
  "resolve_sql_type n env (Some i) a es = Some (EnumT m, es') \<Longrightarrow> m \<in> sql_names env (reachable_enums env i)"
proof (induction n arbitrary: i)
  case (Suc n)
  have here: "to_snake_case (xe_text env) name \<in> sql_names env (reachable_enums env i)" if "enum_type env i name" for name
    using reachable_enums_here [OF that] by (simp add: sql_names_def)
  have step: "m \<in> sql_names env (reachable_enums env i)"
    if "resolve_sql_type n env (Some j) a es = Some (EnumT m, es')" "nested_type env i j" for j
    using Suc.IH [OF that(1)] reachable_enums_step [OF that(2)] by (auto simp: sql_names_def)
  show ?case
    using Suc.prems here step
    by (auto simp: enum_column_def enum_type_def nested_type_def split: if_splits option.splits type_kind.splits)
qed simp

section \<open>Tables\<close>

definition column_names :: "table_def \<Rightarrow> string set" where
  "column_names tb = col_name ` set (tbl_columns tb)"

definition names_own_columns :: "table_def \<Rightarrow> bool" where
  "names_own_columns tb \<longleftrightarrow>
     (\<forall>k\<in>set_option (tbl_primary_key tb). set (pk_columns k) \<subseteq> column_names tb) \<and>
     (\<forall>u\<in>set (tbl_unique_constraints tb). set (uq_columns u) \<subseteq> column_names tb) \<and>
     (\<forall>k\<in>set (tbl_foreign_keys tb). set (fk_columns k) \<subseteq> column_names tb) \<and>
     (\<forall>i\<in>set (tbl_indexes tb). set (idx_columns i) \<subseteq> column_names tb)"

definition build_agrees :: "extract_env \<Rightarrow> hir_struct \<Rightarrow> string set \<Rightarrow> table_build \<Rightarrow> bool" where
  "build_agrees env s E b \<longleftrightarrow>
     tbl_struct_name (tb_table b) = utf8 (hsr_name s) \<and>
     sql_names env (tb_enums b) = E \<union> table_enums (tb_table b) \<and> tb_enums b \<subseteq> dom (xe_enums env) \<and>
     names_own_columns (tb_table b) \<and> set (tb_keys b) \<subseteq> column_names (tb_table b)"

lemma add_field_agrees:
  assumes "add_field n env f b = Some b'" "build_agrees env s E b"
  shows "build_agrees env s E b'"
proof -
  obtain d ty es where d: "check_non_table_struct_field n env (hfd_type f) (tb_enums b)
        (tbl_struct_refs (tb_table b)) = Some d"
      "resolve_sql_type n env (hfd_type f) (field_is_auto f) (dp_enums d) = Some (ty, es)"
    and b': "b' = \<lparr>tb_table = put_column env f (field_column (xe_text env) f ty)
          ((tb_table b)\<lparr>tbl_struct_refs := dp_struct_refs d,
             tbl_transitive_enum_refs := foldl push_new (tbl_transitive_enum_refs (tb_table b)) (dp_enum_refs d)\<rparr>),
        tb_keys = tb_keys b @ (if col_is_primary (field_column (xe_text env) f ty)
          then [col_name (field_column (xe_text env) f ty)] else []), tb_enums = es\<rparr>"
    using assms(1) by (auto simp: add_field_def Let_def bind_eq_Some_conv)
  have "deps_agree env (E \<union> table_enums (tb_table b)) d"
    using d(1) unfolding check_non_table_struct_field_def
    by (rule resolve_transitive_deps_agree) (use assms(2) in \<open>simp add: deps_agree_def build_agrees_def\<close>)
  then have "sql_names env es = E \<union> table_enums (tb_table b')" "es \<subseteq> dom (xe_enums env)"
    using resolve_sql_type_enums [OF d(2)]
    by (auto simp: deps_agree_def b' put_column_def table_enums_def field_column_def sql_names_def is_enum_def)
  moreover have "names_own_columns (tb_table b')" "set (tb_keys b') \<subseteq> column_names (tb_table b')"
    using assms(2)
    by (auto simp: build_agrees_def names_own_columns_def column_names_def b' put_column_def field_column_def
      field_uniques_def field_indexes_def field_foreign_keys_def Let_def)
  ultimately show ?thesis using assms(2) by (simp add: build_agrees_def b' put_column_def)
qed

lemma add_field_enums:
  assumes "reachable_registry (xe_types env)" "add_field n env f b = Some b'"
  shows "table_enums (tb_table b') = table_enums (tb_table b) \<union>
    sql_names env {name. \<exists>i. hfd_type f = Some i \<and> name \<in> reachable_enums env i}"
proof -
  obtain d ty es where d: "check_non_table_struct_field n env (hfd_type f) (tb_enums b)
        (tbl_struct_refs (tb_table b)) = Some d"
      "resolve_sql_type n env (hfd_type f) (field_is_auto f) (dp_enums d) = Some (ty, es)"
    and b': "b' = \<lparr>tb_table = put_column env f (field_column (xe_text env) f ty)
          ((tb_table b)\<lparr>tbl_struct_refs := dp_struct_refs d,
             tbl_transitive_enum_refs := foldl push_new (tbl_transitive_enum_refs (tb_table b)) (dp_enum_refs d)\<rparr>),
        tb_keys = tb_keys b @ (if col_is_primary (field_column (xe_text env) f ty)
          then [col_name (field_column (xe_text env) f ty)] else []), tb_enums = es\<rparr>"
    using assms(2) by (auto simp: add_field_def Let_def bind_eq_Some_conv)
  have new: "table_enums (tb_table b') = table_enums (tb_table b) \<union> set (dp_enum_refs d) \<union> {m. ty = EnumT m}"
    by (auto simp: b' put_column_def table_enums_def field_column_def)
  show ?thesis
  proof (cases "hfd_type f")
    case None
    then have "dp_enum_refs d = []" using d(1) by (cases n) (auto simp: check_non_table_struct_field_def)
    moreover have "ty = Text" using d(2) None by (cases n) auto
    ultimately show ?thesis using new None by (simp add: sql_names_def)
  next
    case (Some i)
    have "set (dp_enum_refs d) = sql_names env (reachable_enums env i)"
      by (rule search_marks_reachable_enums [OF assms(1) d(1) [unfolded check_non_table_struct_field_def Some]]) simp_all
    moreover have "m \<in> sql_names env (reachable_enums env i)" if "ty = EnumT m" for m
      by (rule resolve_sql_type_reaches) (use d(2) Some that in simp)
    ultimately show ?thesis using new Some by auto
  qed
qed

lemma add_fields_enums:
  assumes "reachable_registry (xe_types env)"
  shows "fold_steps (add_field n env) fs b = Some b' \<Longrightarrow> table_enums (tb_table b') = table_enums (tb_table b) \<union>
    sql_names env {name. \<exists>f\<in>set fs. \<exists>i. hfd_type f = Some i \<and> name \<in> reachable_enums env i}"
proof (induction fs arbitrary: b)
  case (Cons f fs)
  then obtain b1 where b1: "add_field n env f b = Some b1" "fold_steps (add_field n env) fs b1 = Some b'"
    by (auto simp: bind_eq_Some_conv)
  show ?case unfolding Cons.IH [OF b1(2)] add_field_enums [OF assms b1(1)] by (auto simp: sql_names_def)
qed (simp add: sql_names_def)

lemma add_timestamps_columns: "set cs \<subseteq> set (add_timestamps cs)"
  by (simp add: add_timestamps_def)

lemma add_timestamps_enums:
  "(\<exists>c\<in>set (add_timestamps cs). col_sql_type c = EnumT n) = (\<exists>c\<in>set cs. col_sql_type c = EnumT n)"
  by (auto simp: add_timestamps_def timestamp_column_def)

lemma finish_table_enums: "table_enums (finish_table auto b) = table_enums (tb_table b)"
  by (simp add: table_enums_def finish_table_def Let_def add_timestamps_enums)

lemma finish_table_columns:
  assumes "names_own_columns (tb_table b)" "set (tb_keys b) \<subseteq> column_names (tb_table b)"
  shows "names_own_columns (finish_table auto b)"
proof -
  have "column_names (tb_table b) \<subseteq> column_names (finish_table auto b)"
    using add_timestamps_columns by (force simp: column_names_def finish_table_def Let_def)
  moreover have "tbl_unique_constraints (finish_table auto b) = tbl_unique_constraints (tb_table b)"
    "tbl_foreign_keys (finish_table auto b) = tbl_foreign_keys (tb_table b)"
    "tbl_indexes (finish_table auto b) = tbl_indexes (tb_table b)"
    "\<And>k. k \<in> set_option (tbl_primary_key (finish_table auto b)) \<Longrightarrow> pk_columns k = tb_keys b"
    by (auto simp: finish_table_def Let_def split: if_splits)
  ultimately show ?thesis
    using assms unfolding names_own_columns_def by simp blast
qed

lemma build_table_agrees:
  assumes "build_table_def_from_struct n env s name es = Some (tb, es')" "es \<subseteq> dom (xe_enums env)"
  shows "tbl_struct_name tb = utf8 (hsr_name s)" "names_own_columns tb"
    "sql_names env es' = sql_names env es \<union> table_enums tb" "es' \<subseteq> dom (xe_enums env)"
proof -
  obtain b where b: "fold_steps (add_field n env) (hsr_fields s)
        \<lparr>tb_table = start_table s name, tb_keys = [], tb_enums = es\<rparr> = Some b"
    and tb: "tb = finish_table (has_decorator ''autoTimestamp'' (hsr_decorators s)) b" "es' = tb_enums b"
    using assms(1) by (auto simp: build_table_def_from_struct_def)
  from b have "build_agrees env s (sql_names env es) b"
    by (rule fold_steps_invariant)
      (use assms(2) add_field_agrees in \<open>auto simp: build_agrees_def start_table_def table_enums_def names_own_columns_def\<close>)
  then show "tbl_struct_name tb = utf8 (hsr_name s)" "names_own_columns tb"
    "sql_names env es' = sql_names env es \<union> table_enums tb" "es' \<subseteq> dom (xe_enums env)"
    using finish_table_enums finish_table_columns
    by (auto simp: build_agrees_def tb) (simp_all add: finish_table_def Let_def)
qed

lemma build_table_enums:
  assumes "reachable_registry (xe_types env)" "build_table_def_from_struct n env s name es = Some (tb, es')"
  shows "table_enums tb = sql_names env (struct_enums env s)"
proof -
  obtain b where b: "fold_steps (add_field n env) (hsr_fields s)
        \<lparr>tb_table = start_table s name, tb_keys = [], tb_enums = es\<rparr> = Some b"
    and tb: "tb = finish_table (has_decorator ''autoTimestamp'' (hsr_decorators s)) b"
    using assms(2) by (auto simp: build_table_def_from_struct_def)
  have "table_enums (start_table s name) = {}" by (simp add: start_table_def table_enums_def)
  then show ?thesis
    using add_fields_enums [OF assms(1) b] by (simp add: tb finish_table_enums struct_enums_def)
qed

section \<open>Fuel\<close>

lemma fold_steps_mono:
  "fold_steps f xs s = Some s' \<Longrightarrow> (\<And>x s s'. f x s = Some s' \<Longrightarrow> g x s = Some s') \<Longrightarrow> fold_steps g xs s = Some s'"
  by (induction xs arbitrary: s) (auto simp: bind_eq_Some_conv)

lemma resolve_transitive_deps_more_fuel:
  "resolve_transitive_deps n env t d = Some d' \<Longrightarrow> n \<le> m \<Longrightarrow> resolve_transitive_deps m env t d = Some d'"
proof (induction n arbitrary: m t d d')
  case (Suc n)
  then obtain k where m: "m = Suc k" "n \<le> k" by (cases m) auto
  note more = Suc.IH [OF _ m(2)]
  show ?case
  proof (cases "Option.bind t (reg_get (xe_types env))")
    case (Some info)
    show ?thesis
    proof (cases "ti_kind info")
      case (TyStruct name fs ms)
      have "fold_steps (\<lambda>(f, t, _) d. resolve_transitive_deps k env (Some t) (note_field env name f d)) fs
          (visit_struct name d) = Some d'"
        if "fold_steps (\<lambda>(f, t, _) d. resolve_transitive_deps n env (Some t) (note_field env name f d)) fs
          (visit_struct name d) = Some d'"
        using that by (rule fold_steps_mono) (auto intro: more split: prod.splits)
      then show ?thesis using Some TyStruct Suc.prems m(1) by (auto split: if_splits)
    next
      case (TyTuple es)
      have "fold_steps (\<lambda>t. resolve_transitive_deps n env (Some t)) es d = Some d'" using Suc.prems(1) Some TyTuple by simp
      then have "fold_steps (\<lambda>t. resolve_transitive_deps k env (Some t)) es d = Some d'"
        by (rule fold_steps_mono) (rule more)
      then show ?thesis using Some TyTuple m(1) by simp
    qed (use Suc.prems Some more m(1) in \<open>auto simp: bind_eq_Some_conv split: if_splits\<close>)
  qed (use Suc m(1) in auto)
qed simp

lemma resolve_sql_type_more_fuel:
  "resolve_sql_type n env t a es = Some x \<Longrightarrow> n \<le> m \<Longrightarrow> resolve_sql_type m env t a es = Some x"
proof (induction n arbitrary: m t)
  case (Suc n)
  then obtain k where m: "m = Suc k" "n \<le> k" by (cases m) auto
  then show ?case
    using Suc.prems(1) Suc.IH [OF _ m(2)] by (auto split: option.splits if_splits type_kind.splits)
qed simp

lemma build_table_more_fuel:
  assumes "build_table_def_from_struct n env s name es = Some x" "n \<le> m"
  shows "build_table_def_from_struct m env s name es = Some x"
proof -
  have "add_field m env f b = Some b'" if "add_field n env f b = Some b'" for f b b'
    using that resolve_transitive_deps_more_fuel [OF _ assms(2)] resolve_sql_type_more_fuel [OF _ assms(2)]
    unfolding add_field_def check_non_table_struct_field_def bind_eq_Some_conv by blast
  then show ?thesis
    using assms(1) fold_steps_mono [of "add_field n env" "hsr_fields s" _ _ "add_field m env"]
    by (auto simp: build_table_def_from_struct_def)
qed

lemma extract_from_hir_more_fuel:
  assumes "extract_from_hir ot oe n t p r = Some s" "n \<le> m"
  shows "extract_from_hir ot oe m t p r = Some s"
proof -
  have "extract_table m env u x = Some x'" if "extract_table n env u x = Some x'" for env u x x'
    using that build_table_more_fuel [OF _ assms(2)]
    by (auto simp: extract_table_def split: if_splits prod.splits)
  moreover have "extract_implicit m env u x = Some x'" if "extract_implicit n env u x = Some x'" for env u x x'
    using that build_table_more_fuel [OF _ assms(2)]
    by (auto simp: extract_implicit_def split: if_splits prod.splits option.splits)
  ultimately show ?thesis
    using assms(1) fold_steps_mono [of "extract_table n env" _ _ _ "extract_table m env" for env]
      fold_steps_mono [of "extract_implicit n env" _ _ _ "extract_implicit m env" for env]
    by (auto simp: extract_from_hir_def Let_def bind_eq_Some_conv)
qed

section \<open>The schema\<close>

lemma build_of_table:
  "extract_table n env s (tbs, es) = Some (tbs', es') \<Longrightarrow>
    (\<exists>name tb. is_table s \<and> build_table_def_from_struct n env s name es = Some (tb, es') \<and> tbs' = tbs @ [tb]) \<or>
    \<not> is_table s \<and> tbs' = tbs \<and> es' = es"
  by (auto simp: extract_table_def split: if_splits)

lemma build_of_implicit:
  "extract_implicit n env (sname, name) (tbs, es) = Some (tbs', es') \<Longrightarrow>
    (\<exists>s tb flag. xe_structs env sname = Some (s, flag) \<and> utf8 sname \<notin> tbl_struct_name ` set tbs \<and>
       build_table_def_from_struct n env s name es = Some (tb, es') \<and> tbs' = tbs @ [tb]) \<or>
    (xe_structs env sname = None \<or> utf8 sname \<in> tbl_struct_name ` set tbs) \<and> tbs' = tbs \<and> es' = es"
  by (auto simp: extract_implicit_def split: if_splits option.splits)

lemma extract_from_hir_phases:
  assumes "extract_from_hir ot oe n t p r = Some s"
  obtains tbs es es' where "fold_steps (extract_table n (program_env t p r)) (program_structs p) ([], {}) = Some (tbs, es)"
    "fold_steps (extract_implicit n (program_env t p r)) (hm_iter ot (discover_implicit_tables p (all_structs p)))
       (tbs, es) = Some (db_tables s, es')"
    "db_enums s = map (extract_enum t) (filter (\<lambda>(name, _). name \<in> es') (hm_iter oe (program_enums p)))"
  using assms by (auto simp: extract_from_hir_def Let_def bind_eq_Some_conv)

definition extraction_agrees :: "extract_env \<Rightarrow> hir_struct set \<Rightarrow> extraction \<Rightarrow> bool" where
  "extraction_agrees env ss = (\<lambda>(tbs, es).
     sql_names env es = \<Union> (table_enums ` set tbs) \<and> es \<subseteq> dom (xe_enums env) \<and>
     (\<forall>tb\<in>set tbs. names_own_columns tb \<and>
       (\<exists>s\<in>ss. tbl_struct_name tb = utf8 (hsr_name s) \<and> table_enums tb = sql_names env (struct_enums env s))))"

lemma push_built_agrees:
  assumes "reachable_registry (xe_types env)" "s \<in> ss" "extraction_agrees env ss (tbs, es)"
    and "build_table_def_from_struct n env s name es = Some (tb, es')"
  shows "extraction_agrees env ss (tbs @ [tb], es')"
proof -
  have "es \<subseteq> dom (xe_enums env)" using assms(3) by (simp add: extraction_agrees_def)
  note built = build_table_agrees [OF assms(4) this]
  have own: "\<exists>s\<in>ss. tbl_struct_name tb = utf8 (hsr_name s) \<and> table_enums tb = sql_names env (struct_enums env s)"
    using built(1) build_table_enums [OF assms(1,4)] assms(2) by blast
  show ?thesis
    using assms(3) built(2-4) own by (simp add: extraction_agrees_def Un_commute)
qed

lemma extraction_tables_agree:
  assumes "reachable_registry (xe_types env)" "\<And>k s b. xe_structs env k = Some (s, b) \<Longrightarrow> s \<in> set ss"
    and "fold_steps (extract_table n env) ss ([], {}) = Some (tbs, es)"
    and "fold_steps (extract_implicit n env) xs (tbs, es) = Some x"
  shows "extraction_agrees env (set ss) x"
  using assms(4)
proof (rule fold_steps_invariant)
  have start: "extraction_agrees env (set ss) ([], {})" by (simp add: extraction_agrees_def sql_names_def)
  note push = push_built_agrees [OF assms(1)]
  show "extraction_agrees env (set ss) (tbs, es)"
    using assms(3) start
  proof (rule fold_steps_invariant)
    show "extraction_agrees env (set ss) y'"
      if "s \<in> set ss" "extraction_agrees env (set ss) y" "extract_table n env s y = Some y'" for s y y'
    proof -
      obtain tbs es tbs' es' where y: "y = (tbs, es)" "y' = (tbs', es')" by fastforce
      show ?thesis using build_of_table [of n env s tbs es tbs' es'] push [OF that(1)] that(2,3) unfolding y by blast
    qed
  qed
  show "extraction_agrees env (set ss) y'"
    if "extraction_agrees env (set ss) y" "extract_implicit n env k y = Some y'" for k y y'
  proof -
    obtain sname name tbs es tbs' es' where y: "k = (sname, name)" "y = (tbs, es)" "y' = (tbs', es')" by (metis surj_pair)
    show ?thesis
      using build_of_implicit [of n env sname name tbs es tbs' es'] push assms(2) that unfolding y by blast
  qed
qed

lemma program_struct_names: "all_structs p n = Some (s, flag) \<Longrightarrow> hsr_name s = n \<and> s \<in> set (program_structs p)"
  unfolding all_structs_def by (drule hm_of_SomeD) auto

text \<open>C4. in every extracted schema the keys, constraints and indexes of a table are over columns of that
  table; each table is that of a struct of the program, and the enums it refers to (by a column, or as the
  references it records) are exactly those that a field of that struct leads to through arrays, maps, optionals,
  results, tuples and the fields of structs without a table of their own, to any depth and although structs may
  mention each other; and the enum types to create are exactly those of the tables.\<close>

theorem extracted_schema_is_closed:
  assumes "extract_from_hir ot oe n t p r = Some s" and "perm_order oe" and "reachable_registry r"
  shows "(\<forall>tb\<in>set (db_tables s). names_own_columns tb \<and>
      (\<exists>st\<in>set (program_structs p). tbl_struct_name tb = utf8 (hsr_name st) \<and>
         table_enums tb = to_snake_case t ` struct_enums (program_env t p r) st)) \<and>
    en_name ` set (db_enums s) = \<Union> (table_enums ` set (db_tables s))"
proof -
  let ?env = "program_env t p r"
  obtain tbs es es' where phases: "fold_steps (extract_table n ?env) (program_structs p) ([], {}) = Some (tbs, es)"
    "fold_steps (extract_implicit n ?env) (hm_iter ot (discover_implicit_tables p (all_structs p))) (tbs, es)
       = Some (db_tables s, es')"
    and enums: "db_enums s = map (extract_enum t) (filter (\<lambda>(name, _). name \<in> es') (hm_iter oe (program_enums p)))"
    by (rule extract_from_hir_phases [OF assms(1)])
  have agree: "extraction_agrees ?env (set (program_structs p)) (db_tables s, es')"
    by (rule extraction_tables_agree [OF _ _ phases])
      (use assms(3) program_struct_names in \<open>auto simp: program_env_def\<close>)
  then have "es' \<subseteq> fst ` set (hm_iter oe (program_enums p))"
    using hm_of_None_iff [of "program_enums p"]
    by (auto simp: extraction_agrees_def program_env_def hm_iter_fst_set [OF assms(2)] dom_def)
  then have "en_name ` set (db_enums s) = to_snake_case t ` es'"
    by (force simp: enums extract_enum_def)
  then show ?thesis using agree by (simp add: extraction_agrees_def sql_names_def program_env_def)
qed

section \<open>Which structs are tables\<close>

lemma declared_structs:
  assumes "distinct (map hsr_name (program_structs p))"
  shows "set (filter (\<lambda>n. case all_structs p n of Some (_, table) \<Rightarrow> table | None \<Rightarrow> False)
      (map hsr_name (program_structs p))) = hsr_name ` {s \<in> set (program_structs p). is_table s}"
proof -
  have "all_structs p (hsr_name s) = Some (s, is_table s)" if "s \<in> set (program_structs p)" for s
    unfolding all_structs_def by (rule hm_of_self [OF assms that])
  then show ?thesis by force
qed

lemma declared_tables:
  "fold_steps (extract_table n env) ss (tbs, es) = Some (tbs', es') \<Longrightarrow> es \<subseteq> dom (xe_enums env) \<Longrightarrow>
    map tbl_struct_name tbs' = map tbl_struct_name tbs @ map (\<lambda>s. utf8 (hsr_name s)) (filter is_table ss) \<and>
    es' \<subseteq> dom (xe_enums env)"
proof (induction ss arbitrary: tbs es)
  case (Cons s ss)
  then obtain tbs1 es1 where one: "extract_table n env s (tbs, es) = Some (tbs1, es1)"
    "fold_steps (extract_table n env) ss (tbs1, es1) = Some (tbs', es')"
    by (auto simp: bind_eq_Some_conv)
  show ?case
    using build_of_table [OF one(1)] Cons.IH [OF one(2)] Cons.prems(2) build_table_agrees(1,4) by fastforce
qed simp

lemma implicit_tables:
  "fold_steps (extract_implicit n env) xs (tbs, es) = Some (tbs', es') \<Longrightarrow> es \<subseteq> dom (xe_enums env) \<Longrightarrow>
    fst ` set xs \<subseteq> dom (xe_structs env) \<Longrightarrow> (\<And>k s b. xe_structs env k = Some (s, b) \<Longrightarrow> hsr_name s = k) \<Longrightarrow>
    distinct (map tbl_struct_name tbs) \<Longrightarrow>
    distinct (map tbl_struct_name tbs') \<and>
    tbl_struct_name ` set tbs' = tbl_struct_name ` set tbs \<union> utf8 ` fst ` set xs"
proof (induction xs arbitrary: tbs es)
  case (Cons x xs)
  obtain k name where x: "x = (k, name)" by (cases x)
  obtain tbs1 es1 where one: "extract_implicit n env (k, name) (tbs, es) = Some (tbs1, es1)"
    "fold_steps (extract_implicit n env) xs (tbs1, es1) = Some (tbs', es')"
    using Cons.prems(1) by (auto simp: bind_eq_Some_conv x)
  have "es1 \<subseteq> dom (xe_enums env) \<and> distinct (map tbl_struct_name tbs1) \<and>
      tbl_struct_name ` set tbs1 = insert (utf8 k) (tbl_struct_name ` set tbs)"
    using build_of_implicit [OF one(1)]
  proof (elim disjE exE conjE)
    fix s tb flag
    assume s: "xe_structs env k = Some (s, flag)" "utf8 k \<notin> tbl_struct_name ` set tbs"
      and built: "build_table_def_from_struct n env s name es = Some (tb, es1)" "tbs1 = tbs @ [tb]"
    then show ?thesis
      using build_table_agrees(1,4) [OF built(1) Cons.prems(2)] Cons.prems(4) [OF s(1)] Cons.prems(5) by simp
  next
    assume "xe_structs env k = None"
    then show ?thesis using Cons.prems(3) by (auto simp: x)
  next
    assume "utf8 k \<in> tbl_struct_name ` set tbs" "tbs1 = tbs" "es1 = es"
    then show ?thesis using Cons.prems(2,5) by (simp add: insert_absorb)
  qed
  then show ?case using Cons.IH [OF one(2)] Cons.prems(3,4) by (auto simp: x)
qed simp

definition declared_tables_of :: "hir_program \<Rightarrow> ustr set" where
  "declared_tables_of p =
     hsr_name ` {s \<in> set (program_structs p). \<exists>d\<in>set (hsr_decorators s). hd_name d = ascii ''table''}"

lemma table_names_are_declared_or_served:
  assumes "distinct (map hsr_name (program_structs p))"
    and "served (hsr_name ` set (program_structs p)) (unsearched (program_terms p)) = {}"
  shows "table_struct_names p = declared_tables_of p \<union> served (hsr_name ` set (program_structs p)) (program_terms p)"
proof -
  have known: "dom (all_structs p) = hsr_name ` set (program_structs p)"
    using hm_of_None_iff [of "map (\<lambda>s. (hsr_name s, s, is_table s)) (program_structs p)"]
    by (force simp: all_structs_def dom_def image_image)
  have "hsr_name ` {s \<in> set (program_structs p). is_table s} = declared_tables_of p"
    by (simp add: declared_tables_of_def is_table_def has_decorator_def list_ex_iff)
  then show ?thesis
    using discovery_collects [of "all_structs p" p] assms(2)
    unfolding table_struct_names_def declared_structs [OF assms(1)] known keys_def by simp
qed


text \<open>C5. with any fuel from (n + 1) n + 1 on, where n is the next type id, extraction returns, and always
  the same schema, although the structs of the program may mention each other in circles.\<close>

theorem extraction_returns:
  assumes "reachable_registry r"
  shows "\<exists>s. \<forall>n\<ge>extraction_fuel r. extract_from_hir ot oe n t p r = Some s"
proof -
  let ?env = "program_env t p r" and ?n = "extraction_fuel r"
  have built: "\<exists>x. build_table_def_from_struct ?n ?env s name es = Some x" for s name es
    using build_table_returns [of ?env ?n s name es] reachable_consistent [OF assms] by (auto simp: program_env_def)
  have table: "\<exists>y. extract_table ?n ?env s x = Some y" for s x
    using built by (cases x) (fastforce simp: extract_table_def)
  have implicit: "\<exists>y. extract_implicit ?n ?env k x = Some y" for k x
    using built by (cases x; cases k) (fastforce simp: extract_implicit_def split: option.split)
  have "\<exists>x. fold_steps (extract_table ?n ?env) (program_structs p) ([], {}) = Some x \<and> True"
    by (rule fold_steps_returns) (use table in simp_all)
  moreover have "\<exists>y. fold_steps (extract_implicit ?n ?env) xs x = Some y \<and> True" for xs x
    by (rule fold_steps_returns) (use implicit in simp_all)
  ultimately obtain s where "extract_from_hir ot oe ?n t p r = Some s"
    by (fastforce simp: extract_from_hir_def Let_def)
  then show ?thesis using extract_from_hir_more_fuel by blast
qed

section \<open>A program in which structs mention each other\<close>

definition ascii_texts :: text_tables where
  "ascii_texts =
     (let lower = (\<lambda>c. if 65 \<le> c \<and> c \<le> 90 then c + 32 else c)
      in \<lparr>tt_is_upper = (\<lambda>c. 65 \<le> c \<and> c \<le> 90), tt_first_lower = lower, tt_lowercase = map lower,
          tt_float = (\<lambda>_. [])\<rparr>)"

definition sample_types :: registry where
  "sample_types =
     (let r = snd (define_enum (ascii ''UserRole'') [(ascii ''Admin'', None)] new_registry);
          r = snd (declare_named (ascii ''Profile'') r);
          r = snd (define_struct (ascii ''Team'') [(ascii ''lead'', 101, False)] [] r)
      in snd (define_struct (ascii ''Profile'') [(ascii ''team'', 102, False), (ascii ''role'', 100, False)] [] r))"

definition sample_decorator :: "string \<Rightarrow> hir_decorator" where
  "sample_decorator name = \<lparr>hd_name = ascii name, hd_args = [], hd_span = empty_span\<rparr>"

definition sample_field :: "string \<Rightarrow> tid \<Rightarrow> string list \<Rightarrow> hir_field" where
  "sample_field name t ds =
     \<lparr>hfd_name = ascii name, hfd_type = Some t, hfd_is_public = True, hfd_is_optional = False, hfd_default = None,
      hfd_decorators = map sample_decorator ds, hfd_span = empty_span\<rparr>"

definition sample_struct :: "string \<Rightarrow> hir_field list \<Rightarrow> string list \<Rightarrow> hir_item" where
  "sample_struct name fs ds =
     IStruct \<lparr>hsr_name = ascii name, hsr_type_params = [], hsr_fields = fs,
       hsr_decorators = map sample_decorator ds, hsr_span = empty_span\<rparr>"

definition sample_main :: hir_item where
  "sample_main =
     (let expr = (\<lambda>k. HirExpr k None empty_span);
          call = expr (HMethodCall (expr (HLocal (ascii ''app''))) (ascii ''crud'')
                   [expr (HConst (HcStr (ascii ''/api/audit''))), expr (HGlobal (ascii ''Log''))])
      in IFunction \<lparr>hf_name = ascii ''main'', hf_type_params = [], hf_params = [], hf_return_type = None,
           hf_error_type = None, hf_body = [HirStmt (SExpr call) empty_span], hf_decorators = [],
           hf_is_async = False, hf_span = empty_span\<rparr>)"

definition sample_app :: hir_program where
  "sample_app =
     \<lparr>hpr_items =
        [IEnum \<lparr>hen_name = ascii ''UserRole'',
           hen_variants = [\<lparr>hv_name = ascii ''Admin'', hv_payload = None, hv_decorators = [], hv_span = empty_span\<rparr>],
           hen_span = empty_span\<rparr>,
         sample_struct ''Profile'' [sample_field ''team'' 102 [], sample_field ''role'' 100 []] [],
         sample_struct ''Team'' [sample_field ''lead'' 101 []] [],
         sample_struct ''User'' [sample_field ''id'' ty_int [''primary'', ''auto''], sample_field ''userProfile'' 101 [''unique'']]
           [''table''],
         sample_struct ''Log'' [sample_field ''id'' ty_int [''primary'']] [],
         sample_main],
      hpr_span = empty_span\<rparr>"

lemma sample_types_reachable: "reachable_registry sample_types"
  unfolding sample_types_def Let_def
  by (intro reach_new reach_step [OF _ step_struct] reach_step [OF _ step_enum] reach_step [OF _ step_declare])

lemma sample_extraction:
  "map_option (\<lambda>s. (map tbl_struct_name (db_tables s), map tbl_struct_refs (db_tables s), map en_name (db_enums s)))
      (extract_from_hir (\<lambda>k. k) (\<lambda>k. k) 9 ascii_texts sample_app sample_types) =
    Some ([''User'', ''Log''], [[''Profile'', ''Team''], []], [''user_role''])"
  by code_simp

lemma sample_names: "distinct (map (\<lambda>s. utf8 (hsr_name s)) (program_structs sample_app))"
  by code_simp

lemma extraction_returns_witness:
  "\<exists>s. \<forall>n\<ge>extraction_fuel sample_types.
    extract_from_hir (\<lambda>k. k) (\<lambda>k. k) n ascii_texts sample_app sample_types = Some s"
  by (rule extraction_returns [OF sample_types_reachable])

lemma one_is_nonempty: "\<Union> (f ` A) = {x} \<Longrightarrow> \<exists>a\<in>A. f a \<noteq> {}"
  by (rule ccontr) simp

lemma extracted_schema_witness:
  "\<exists>s. extract_from_hir (\<lambda>k. k) (\<lambda>k. k) 9 ascii_texts sample_app sample_types = Some s \<and>
    (\<forall>tb\<in>set (db_tables s). names_own_columns tb) \<and> \<Union> (table_enums ` set (db_tables s)) = {''user_role''} \<and>
    (\<exists>st\<in>set (program_structs sample_app).
      struct_enums (program_env ascii_texts sample_app sample_types) st \<noteq> {})"
proof -
  obtain s where s: "extract_from_hir (\<lambda>k. k) (\<lambda>k. k) 9 ascii_texts sample_app sample_types = Some s"
    "map en_name (db_enums s) = [''user_role'']"
    using sample_extraction by auto
  have closed: "(\<forall>tb\<in>set (db_tables s). names_own_columns tb \<and>
      (\<exists>st\<in>set (program_structs sample_app). tbl_struct_name tb = utf8 (hsr_name st) \<and>
         table_enums tb = to_snake_case ascii_texts ` struct_enums (program_env ascii_texts sample_app sample_types) st)) \<and>
    en_name ` set (db_enums s) = \<Union> (table_enums ` set (db_tables s))"
    by (rule extracted_schema_is_closed [OF s(1) _ sample_types_reachable]) simp
  have "en_name ` set (db_enums s) = {''user_role''}" using arg_cong [OF s(2), of set] by simp
  then have enums: "\<Union> (table_enums ` set (db_tables s)) = {''user_role''}"
    by (rule trans [OF conjunct2 [OF closed, symmetric]])
  from one_is_nonempty [OF enums] obtain tb where tb: "tb \<in> set (db_tables s)" "table_enums tb \<noteq> {}" ..
  obtain st where st: "st \<in> set (program_structs sample_app)"
    "table_enums tb = to_snake_case ascii_texts ` struct_enums (program_env ascii_texts sample_app sample_types) st"
    using bspec [OF conjunct1 [OF closed] tb(1)] by (elim conjE bexE)
  then have "\<exists>st\<in>set (program_structs sample_app). struct_enums (program_env ascii_texts sample_app sample_types) st \<noteq> {}"
    using tb(2) by (intro bexI [OF _ st(1)]) (rule notI, simp only: image_empty)
  moreover have "\<forall>tb\<in>set (db_tables s). names_own_columns tb" using closed by blast
  ultimately show ?thesis using s(1) enums by (intro exI [of _ s] conjI)
qed

lemma sample_seen: "served (hsr_name ` set (program_structs sample_app)) (unsearched (program_terms sample_app)) = {}"
  by (simp add: program_terms_def sample_app_def sample_main_def sample_struct_def terms_body_def Let_def served_def serves_def)


section \<open>Missed calls and dangling references\<close>

text \<open>A foreign key to a served struct refers to the table its name would give, not to the one it has.\<close>

lemma served_name_is_not_looked_up:
  "(map snd (discover_implicit_tables sample_app (all_structs sample_app)),
    resolve_table_name ascii_texts (all_structs sample_app) (ascii ''Log'')) = ([''audit''], ''logs'')"
  by code_simp

text \<open>A call that further calls are chained to is not seen.\<close>

definition chained_call :: hir_expr where
  "chained_call =
     (let expr = (\<lambda>k. HirExpr k None empty_span);
          call = HMethodCall (expr (HLocal (ascii ''app''))) (ascii ''auth'') [expr (HGlobal (ascii ''User''))]
      in expr (HMethodCall (expr call) (ascii ''listen'') []))"

lemma chained_call_is_not_seen: "walk_expr (all_structs sample_app) chained_call [] = []"
  by code_simp

text \<open>Two fields can have one column.\<close>

lemma fields_share_a_column:
  "to_snake_case ascii_texts (ascii ''userId'') = to_snake_case ascii_texts (ascii ''user_id'')"
  by code_simp

end
