(* ===== verification/Spec2Isabelle.thy ===== *)
theory Spec2Isabelle
  imports Mig_Executor Mig_Diff_Safety Mig_Planner Mig_Render Mir_Checks Sem_Scoping Lex_Checks Core_Typing
    Core_Errors Own_Borrowing Own_Uses Own_Dropping Sem_Matches
    Parse_Checks Mig_Extraction
begin

text \<open>
  A model of parts of the Doo compiler and of its database tooling, and the theorems about it. The
  compiler turns a source text into tokens, a syntax tree, a typed high-level and a mid-level
  representation, and those into LLVM code; the tooling compares the schema a program declares with
  the one of a live database and migrates it. The crates are those under \<open>src/crates\<close>; a theory whose
  first word is \<open>Mig\<close>, \<open>Lex\<close>, \<open>Parse\<close>, \<open>Sem\<close>, \<open>Own\<close> or \<open>Mir\<close> belongs to one part of them.

  \<^bold>\<open>Shared.\<close> \<open>Doo_Prelude\<close> has the strings (\<open>string\<close>: the bytes of a Rust \<open>String\<close>; \<open>ustr\<close>: its
  Unicode scalar values), hash maps whose iteration order is an argument, and the lemmas on lists.
  \<open>Core_Span\<close> and \<open>Core_Errors\<close> are \<open>span.rs\<close> and \<open>errors/codes.rs\<close> of \<open>doo_core\<close>: source locations, and
  the codes and records of compiler errors, with the round trip of codes and their texts.

  \<^bold>\<open>Lexer\<close> (\<open>doo_frontend/src/lexer\<close>).
  \<^item> \<open>Lex_Token\<close> has the kinds of tokens, \<open>Lex_Lexer\<close> the cursor and the scanners. The classes of
    Unicode letters are parameters; what the standard library promises of them is the hypothesis
    \<open>unicode_classes\<close>, which the ASCII classes satisfy.
  \<^item> \<open>Lex_Scanning\<close> states the contract of a scanner as a locale, \<open>Lex_Checks\<close> shows that a source is
    scanned to its end, that spans cut the texts of tokens, and the round trips of string literals and
    of the fixed texts.

  \<^bold>\<open>Parser\<close> (\<open>doo_frontend/src/ast\<close> and \<open>parser\<close>).
  \<^item> \<open>Ast_Types\<close> is the syntax tree. \<open>Parse_State\<close> has the parser's state and the steps of a parse
    function: the state is passed, an early return is the left side of a sum, and spent fuel is \<open>None\<close>.
    \<open>Parse_Types\<close>, \<open>Parse_Lookahead\<close>, \<open>Parse_Expr\<close>, \<open>Parse_Stmt\<close>, \<open>Parse_Decl\<close> and \<open>Parse_Items\<close> follow
    the files of the source. The parse functions are mutually recursive; each takes the record \<open>calls\<close>
    of those it calls, and \<open>calls_at\<close> closes it, one unit of fuel for each nested call.
  \<^item> \<open>Parse_Input\<close> weighs the tokens of a source (at most its length and one; the text of an
    interpolation is weighed again, since it is scanned and parsed again). \<open>Parse_Runs\<close> has a total
    correctness judgement for parse functions and its rules, \<open>Parse_Ends\<close>, \<open>Parse_Total\<close> and
    \<open>Parse_Programs\<close> apply it to every function inside the locale \<open>working_calls\<close>; its interpretation
    shows that fuel above the weight is enough, so that parsing ends on every source.
  \<^item> \<open>Parse_Formulas\<close> prints operator expressions with the parentheses their precedences need and no
    others, \<open>Parse_Round\<close> shows that the parser reads them back. \<open>Parse_Checks\<close> has the theorems.

  \<^bold>\<open>Semantic analysis\<close> (\<open>doo_core/src/types\<close>, \<open>doo_hir/src/types.rs\<close>, \<open>doo_analysis\<close>).
  \<^item> \<open>Core_Types\<close> is the registry of types and their compatibility, \<open>Core_Typing\<close> its invariant, the
    interning of composite types and the termination of the compatibility test. \<open>Hir_Types\<close> is the
    data of the high-level representation.
  \<^item> \<open>Sem_Scope\<close> is the scope manager; \<open>Sem_Scoping\<close> shows that it refines a stack of symbol tables,
    and that the edit distance behind suggestions is exact.
  \<^item> \<open>Own_Ownership\<close>, \<open>Own_Borrow\<close> and \<open>Own_Drops\<close> are the ownership analysis, the borrow checker and
    the insertion of drops; \<open>Own_Uses\<close>, \<open>Own_Borrowing\<close> and \<open>Own_Dropping\<close> show what their decisions
    depend on, which borrows exclude each other, and that drops stand behind the uses. The order in
    which hash maps are visited is an argument.
  \<^item> \<open>Sem_Exhaustive\<close> is the exhaustiveness of matches, with the printed form of a float as an argument;
    \<open>Sem_Matches\<close> shows that the reported cases are those no arm matches.

  \<^bold>\<open>Mid-level representation\<close> (\<open>doo_mir/src/types.rs\<close>, \<open>optimize.rs\<close>).
  \<^item> \<open>Mir_Types\<close> has the instructions and the validation, \<open>Mir_Optimize\<close> the passes and the pipeline,
    which stops after at most a hundred rounds, as in the source. Float arithmetic and the overflow
    checks of the compiler's own build are parameters.
  \<^item> \<open>Mir_Semantics\<close> is a reference semantics: the scalar instructions are fixed, all others are
    parameters of a machine; a run has fuel, and two runs are compared for every fuel. \<open>Mir_Passes\<close>
    shows that the pipeline preserves what the functions of a regular program return, by the locale
    \<open>block_pass\<close>; \<open>Mir_Checks\<close> has the validation, folding and escape analysis.

  \<^bold>\<open>Database migrations\<close> (\<open>doo_migrate\<close>).
  \<^item> \<open>Mig_Schema\<close> holds the schema data of \<open>schema.rs\<close> and its conversions from and to SQL
    text, \<open>Mig_Change\<close> the changes of \<open>diff.rs\<close>, \<open>Mig_Sql\<close> the statements of \<open>sql.rs\<close>.
  \<^item> \<open>Mig_Extract\<close> is the extraction of the declared schema from the high-level representation of a
    program and its type registry (\<open>extract.rs\<close>): decorators, tables made by calls, column types and
    what a table depends on. \<open>Mig_Extraction\<close> shows that it returns although structs can mention each
    other in circles, which structs become tables, and that the schema is closed: keys are over columns
    of their table, and the enums created are those referred to. Its last
    section has calls that are missed and references that dangle.
  \<^item> \<open>Mig_Diff\<close> is \<open>compute_diff\<close> of \<open>diff.rs\<close>: hash maps are association lists whose iteration
    order is a parameter (\<open>hash_ord\<close>).
  \<^item> \<open>Mig_Plan\<close> is \<open>plan.rs\<close>: the sorted plan, the recorded dependencies, the components and
    the batches shown for approval. The digest and the time stamp are parameters.
  \<^item> \<open>Mig_Execute\<close> is \<open>execute.rs\<close> and the writes of \<open>history.rs\<close>. The database is a parameter: a
    record of functions from a command and the database's state to its answer and new state. The
    state of a run is that state with the log of all commands sent.
  \<^item> \<open>Mig_Differ\<close>, \<open>Mig_Columns\<close> and \<open>Mig_Diff_Safety\<close> show that the changes, executed in plan
    order on the catalog of tables, of enums, of columns or on one column, never conflict and end
    with what was desired, and that nothing else is dropped. Their shared argument is the locale
    \<open>name_catalog\<close>, and \<open>keyed_diff\<close> for the constraints.
  \<^item> \<open>Mig_Graph\<close> has the locale \<open>worklist_search\<close>, of which the breadth-first search for the
    dependencies and the depth-first search for the components are instances; \<open>Mig_Planner\<close>
    shows the properties of the plan.
  \<^item> \<open>Mig_Render\<close> shows the round trips of quoting, types and defaults and that a rollback
    statement is the statement of the inverse change; \<open>Mig_Executor\<close> the order of statements,
    the lock, the history and the rollback.

  \<^bold>\<open>Bounds and fuel.\<close> 64-bit literals and the arithmetic of the optimiser are words. Positions, counters
  and ids, 32-bit in the source, are natural numbers: the lexer refuses sources of more than ten
  megabytes, so that they do not wrap. Fuel occurs in the parser, where the length of the source is
  proved to be enough, in the recursion over types of the extraction, where \<open>extraction_fuel\<close> is
  proved to be enough, and in the reference semantics; all other loops are structural or have a
  termination proof, or are partial functions whose value \<open>None\<close> is shown not to occur.

  \<^bold>\<open>Not modelled\<close> are the reading of the live catalog (SQL queries), the reading and merging of imported
  files, name resolution, type checking,
  the lowering to the two representations and the code generator (they rest on LLVM and on the foreign
  libraries), the language server, the driver, terminal output, and the overflow of the machine stack.
\<close>

end
